(* ===== verification/Prelude.thy ===== *)
theory Prelude
  imports Complex_Main "HOL-Library.AList"
begin

text \<open>
  Shared vocabulary of the development: Python exceptions as values and the fold over
  operations that may raise, Python dictionaries as insertion-ordered association lists,
  Python's \<open>round\<close>, the safe-integer limit and the pattern of identifiers.
  The collections \<open>dict_simps\<close> and \<open>res_simps\<close> carry the component proofs.
\<close>

named_theorems dict_simps \<open>lookup, keys and sums of updated dictionaries\<close>
named_theorems res_simps \<open>characterisations of results that may be exceptions\<close>

section \<open>Exceptions as values\<close>

text \<open>
  The exception classes the agent raises itself or catches. \<open>StoreError\<close> and its subclasses
  are those of \<^verbatim>\<open>config/store.py\<close>, \<open>UnsupportedDriver\<close> and \<open>RuntimeRecoveryError\<close>
  those of \<^verbatim>\<open>devices/runtime.py\<close>, \<open>PublishRejected\<close> that of
  \<^verbatim>\<open>messaging/transport.py\<close> (a subclass of Python's \<open>ConnectionError\<close>), \<open>TimeUnavailable\<close> is that of
  \<^verbatim>\<open>core/platform_time.py\<close> and \<open>SettingsError\<close> that of \<^verbatim>\<open>provisioning/store.py\<close> (subclasses of \<open>ValueError\<close>).
\<close>

datatype exn =
    ValueError string
  | TimeUnavailable string
  | RuntimeError string
  | KeyError
  | TypeError
  | IndexError
  | AttributeError
  | OverflowError
  | ZeroDivisionError
  | AssertionError
  | QueueEmpty
  | WorkerFull
  | TimeoutError
  | StoreError string
  | StoreIdentityError string
  | StoreFormatError string
  | InvalidCandidate string
  | UnsupportedDriver string
  | RuntimeRecoveryError string
  | OSError
  | FileExistsError string
  | SettingsError string
  | ConnectionError string
  | PublishRejected string

type_synonym 'a res = "exn + 'a"

fun is_store_error :: "exn \<Rightarrow> bool" where
  "is_store_error (StoreError _) = True"
| "is_store_error (StoreIdentityError _) = True"
| "is_store_error (StoreFormatError _) = True"
| "is_store_error (InvalidCandidate _) = True"
| "is_store_error _ = False"

fun is_value_error :: "exn \<Rightarrow> bool" where
  "is_value_error (ValueError _) = True"
| "is_value_error (TimeUnavailable _) = True"
| "is_value_error (SettingsError _) = True"
| "is_value_error _ = False"

definition rbind :: "'a res \<Rightarrow> ('a \<Rightarrow> 'b res) \<Rightarrow> 'b res" where
  "rbind r f = (case r of Inl e \<Rightarrow> Inl e | Inr x \<Rightarrow> f x)"

lemma rbind_simps [simp]:
  "rbind (Inl e) f = Inl e"
  "rbind (Inr x) f = f x"
  by (simp_all add: rbind_def)

lemma rbind_Inr_iff [res_simps]: "rbind r f = Inr y \<longleftrightarrow> (\<exists>x. r = Inr x \<and> f x = Inr y)"
  by (cases r) auto

lemma rbind_Inl_iff [res_simps]:
  "rbind r f = Inl e \<longleftrightarrow> r = Inl e \<or> (\<exists>x. r = Inr x \<and> f x = Inl e)"
  by (cases r) auto

definition require_res :: "bool \<Rightarrow> exn \<Rightarrow> unit res" where
  "require_res b e = (if b then Inr () else Inl e)"

lemma require_res_iff [res_simps]:
  "require_res b e = Inr u \<longleftrightarrow> b" "require_res b e = Inl x \<longleftrightarrow> \<not> b \<and> e = x"
  by (auto simp: require_res_def)

text \<open>A loop over a list whose body updates the state and may raise.\<close>

fun rfold :: "('x \<Rightarrow> 's \<Rightarrow> 's res) \<Rightarrow> 'x list \<Rightarrow> 's \<Rightarrow> 's res" where
  "rfold f [] s = Inr s"
| "rfold f (x # xs) s = rbind (f x s) (rfold f xs)"

text \<open>A loop whose body keeps an invariant that mentions the elements still to come.\<close>

lemma rfold_invariant:
  assumes "I xs s"
    and "\<And>x ys s. I (x # ys) s \<Longrightarrow> \<exists>s'. f x s = Inr s' \<and> I ys s'"
  shows "\<exists>s'. rfold f xs s = Inr s' \<and> I [] s'"
  using assms(1)
proof (induction xs arbitrary: s)
  case Nil
  then show ?case by simp
next
  case (Cons x xs)
  then obtain s' where "f x s = Inr s'" "I xs s'" using assms(2) by blast
  then show ?case using Cons.IH by simp
qed

text \<open>A statement that updates the state and may raise: the state reached is kept either way.
  \<open>sbind\<close> is sequencing, \<open>sfold\<close> a \<^verbatim>\<open>for\<close> loop over a list.\<close>

type_synonym ('a, 's) prog = "'s \<Rightarrow> 'a res \<times> 's"

definition sret :: "'a \<Rightarrow> ('a, 's) prog" where
  "sret x s = (Inr x, s)"

definition sraise :: "exn \<Rightarrow> ('a, 's) prog" where
  "sraise e s = (Inl e, s)"

definition supd :: "('s \<Rightarrow> 's) \<Rightarrow> (unit, 's) prog" where
  "supd f s = (Inr (), f s)"

definition sbind :: "('a, 's) prog \<Rightarrow> ('a \<Rightarrow> ('b, 's) prog) \<Rightarrow> ('b, 's) prog" where
  "sbind m f s = (case m s of (Inl e, t) \<Rightarrow> (Inl e, t) | (Inr x, t) \<Rightarrow> f x t)"

fun sfold :: "('x \<Rightarrow> (unit, 's) prog) \<Rightarrow> 'x list \<Rightarrow> (unit, 's) prog" where
  "sfold f [] s = (Inr (), s)"
| "sfold f (x # xs) s = sbind (f x) (\<lambda>_. sfold f xs) s"

lemma sprog_simps [simp]:
  "sret x s = (Inr x, s)" "sraise e s = (Inl e, s)" "supd f s = (Inr (), f s)"
  by (simp_all add: sret_def sraise_def supd_def)

lemma sbind_Inr [simp]: "m s = (Inr x, t) \<Longrightarrow> sbind m f s = f x t"
  by (simp add: sbind_def)

lemma sbind_Inl [simp]: "m s = (Inl e, t) \<Longrightarrow> sbind m f s = (Inl e, t)"
  by (simp add: sbind_def)

lemma sbind_Inr_iff [res_simps]: "sbind m f s = (Inr y, u) \<longleftrightarrow> (\<exists>x t. m s = (Inr x, t) \<and> f x t = (Inr y, u))"
  by (auto simp: sbind_def split: prod.splits sum.splits)

text \<open>A statement that never raises and takes one assertion to another.\<close>

definition runs :: "('s \<Rightarrow> bool) \<Rightarrow> ('a, 's) prog \<Rightarrow> ('a \<Rightarrow> 's \<Rightarrow> bool) \<Rightarrow> bool" where
  "runs P m Q \<longleftrightarrow> (\<forall>s. P s \<longrightarrow> (\<exists>x t. m s = (Inr x, t) \<and> Q x t))"

lemma runsD: "runs P m Q \<Longrightarrow> P s \<Longrightarrow> \<exists>x t. m s = (Inr x, t) \<and> Q x t"
  by (simp add: runs_def)

lemma runs_sbind: "runs P m Q \<Longrightarrow> (\<And>x. runs (Q x) (f x) R) \<Longrightarrow> runs P (sbind m f) R"
  by (fastforce simp: runs_def sbind_def)

lemma runs_supd: "(\<And>s. P s \<Longrightarrow> Q () (f s)) \<Longrightarrow> runs P (supd f) Q"
  by (simp add: runs_def)

lemma runs_sret: "(\<And>s. P s \<Longrightarrow> Q x s) \<Longrightarrow> runs P (sret x) Q"
  by (simp add: runs_def)

lemma runs_weaken: "runs P m Q \<Longrightarrow> (\<And>s. P' s \<Longrightarrow> P s) \<Longrightarrow> (\<And>x s. Q x s \<Longrightarrow> Q' x s) \<Longrightarrow> runs P' m Q'"
  by (fastforce simp: runs_def)

lemma runs_if: "(b \<Longrightarrow> runs P m Q) \<Longrightarrow> (\<not> b \<Longrightarrow> runs P m' Q) \<Longrightarrow> runs P (if b then m else m') Q"
  by simp

lemma runs_sfold:
  assumes "\<And>x ys. runs (I (x # ys)) (f x) (\<lambda>_. I ys)"
  shows "runs (I xs) (sfold f xs) (\<lambda>_. I [])"
proof (induction xs)
  case Nil
  then show ?case by (simp add: runs_def)
next
  case (Cons x xs)
  have "runs (I (x # xs)) (sbind (f x) (\<lambda>_. sfold f xs)) (\<lambda>_. I [])"
    by (rule runs_sbind [OF assms Cons.IH])
  then show ?case by (simp add: runs_def)
qed

text \<open>A statement that keeps an assertion whether or not it raises.\<close>

definition keeps :: "('s \<Rightarrow> bool) \<Rightarrow> ('a, 's) prog \<Rightarrow> bool" where
  "keeps P m \<longleftrightarrow> (\<forall>s. P s \<longrightarrow> P (snd (m s)))"

lemma keepsI: "(\<And>s. P s \<Longrightarrow> P (snd (m s))) \<Longrightarrow> keeps P m"
  by (simp add: keeps_def)

lemma keepsD: "keeps P m \<Longrightarrow> P s \<Longrightarrow> P (snd (m s))"
  by (simp add: keeps_def)

lemma keeps_result: "keeps P m \<Longrightarrow> m s = (r, t) \<Longrightarrow> P s \<Longrightarrow> P t"
  by (metis keepsD snd_conv)

lemma keeps_sret [simp, intro]: "keeps P (sret x)" and keeps_sraise [simp, intro]: "keeps P (sraise e)"
  by (simp_all add: keeps_def)

lemma keeps_supd [intro]: "(\<And>s. P s \<Longrightarrow> P (f s)) \<Longrightarrow> keeps P (supd f)"
  by (simp add: keeps_def)

lemma keeps_sbind [intro]: "keeps P m \<Longrightarrow> (\<And>x. keeps P (f x)) \<Longrightarrow> keeps P (sbind m f)"
  by (fastforce simp: keeps_def sbind_def split: prod.splits sum.splits)

lemma keeps_if [intro]: "(b \<Longrightarrow> keeps P m) \<Longrightarrow> (\<not> b \<Longrightarrow> keeps P m') \<Longrightarrow> keeps P (if b then m else m')"
  by simp

lemma keeps_at: "(\<And>s. P s \<Longrightarrow> keeps P (m s)) \<Longrightarrow> keeps P (\<lambda>s. m s s)"
  by (simp add: keeps_def)

text \<open>Evaluation of concrete runs by the simplifier, innermost state first: with the weak congruence
  rules a continuation is simplified only once the state it runs on is known.\<close>

definition resume :: "'a res \<times> 's \<Rightarrow> ('a \<Rightarrow> ('b, 's) prog) \<Rightarrow> 'b res \<times> 's" where
  "resume r f = (case r of (Inl e, t) \<Rightarrow> (Inl e, t) | (Inr x, t) \<Rightarrow> f x t)"

lemma sbind_resume: "sbind m f s = resume (m s) f"
  by (simp add: resume_def sbind_def)

lemma resume_simps [simp]: "resume (Inr x, t) f = f x t" "resume (Inl e, t) f = (Inl e, t)"
  by (simp_all add: resume_def)

lemma resume_weak_cong: "r = r' \<Longrightarrow> resume r f = resume r' f"
  by simp

lemma sbind_weak_cong: "s = s' \<Longrightarrow> sbind m f s = sbind m f s'"
  by simp

lemmas eval_congs = sbind_weak_cong resume_weak_cong let_weak_cong

section \<open>Components as transition systems\<close>

text \<open>The contract every stateful component meets: its initial states satisfy an invariant and
  each of its operations keeps it. What every reachable state satisfies is proved once here.\<close>

locale invariant_system =
  fixes init :: "'s \<Rightarrow> bool" and step :: "'s \<Rightarrow> 's \<Rightarrow> bool" and inv :: "'s \<Rightarrow> bool"
  assumes inv_init: "init s \<Longrightarrow> inv s"
    and inv_step: "step s t \<Longrightarrow> inv s \<Longrightarrow> inv t"
begin

lemma inv_steps: "step\<^sup>*\<^sup>* s t \<Longrightarrow> inv s \<Longrightarrow> inv t"
  by (induction rule: rtranclp_induct) (auto intro: inv_step)

lemma reachable_inv: "init s \<Longrightarrow> step\<^sup>*\<^sup>* s t \<Longrightarrow> inv t"
  by (blast intro: inv_init inv_steps)

end

text \<open>A system whose steps also never decrease a gauge.\<close>

locale monotone_system = invariant_system +
  fixes gauge :: "'s \<Rightarrow> 'g::order"
  assumes gauge_step: "step s t \<Longrightarrow> inv s \<Longrightarrow> gauge s \<le> gauge t"
begin

lemma gauge_steps: "step\<^sup>*\<^sup>* s t \<Longrightarrow> inv s \<Longrightarrow> gauge s \<le> gauge t"
  by (induction rule: rtranclp_induct) (auto intro: gauge_step inv_steps order.trans)

end

section \<open>Dictionaries\<close>

text \<open>
  A Python \<^verbatim>\<open>dict\<close> (and \<^verbatim>\<open>OrderedDict\<close>) keeps insertion order: assigning to a key
  that is present keeps its place, a new key goes last. \<open>AList.update\<close> is exactly that.
\<close>

type_synonym ('k, 'v) dict = "('k \<times> 'v) list"

abbreviation dget :: "('k, 'v) dict \<Rightarrow> 'k \<Rightarrow> 'v option" where
  "dget d k \<equiv> map_of d k"

abbreviation dset :: "'k \<Rightarrow> 'v \<Rightarrow> ('k, 'v) dict \<Rightarrow> ('k, 'v) dict" where
  "dset k v d \<equiv> AList.update k v d"

abbreviation ddel :: "'k \<Rightarrow> ('k, 'v) dict \<Rightarrow> ('k, 'v) dict" where
  "ddel k d \<equiv> AList.delete k d"

abbreviation dkeys :: "('k, 'v) dict \<Rightarrow> 'k list" where
  "dkeys d \<equiv> map fst d"

abbreviation dvals :: "('k, 'v) dict \<Rightarrow> 'v list" where
  "dvals d \<equiv> map snd d"

definition dwf :: "('k, 'v) dict \<Rightarrow> bool" where
  "dwf d \<longleftrightarrow> distinct (dkeys d)"

text \<open>\<^verbatim>\<open>dict.get(key, default)\<close> and \<^verbatim>\<open>dict[key]\<close>.\<close>

definition dget_or :: "('k, 'v) dict \<Rightarrow> 'k \<Rightarrow> 'v \<Rightarrow> 'v" where
  "dget_or d k v = (case dget d k of None \<Rightarrow> v | Some x \<Rightarrow> x)"

definition dindex :: "('k, 'v) dict \<Rightarrow> 'k \<Rightarrow> 'v res" where
  "dindex d k = (case dget d k of None \<Rightarrow> Inl KeyError | Some x \<Rightarrow> Inr x)"

lemma dwf_Nil [simp]: "dwf []"
  by (simp add: dwf_def)

lemma dwf_dset [simp, intro]: "dwf d \<Longrightarrow> dwf (dset k v d)"
  by (simp add: dwf_def distinct_update)

lemma dwf_ddel [simp, intro]: "dwf d \<Longrightarrow> dwf (ddel k d)"
  by (simp add: dwf_def distinct_delete)

lemma dget_dset [simp, dict_simps]: "dget (dset k v d) k' = (if k' = k then Some v else dget d k')"
  by (simp add: update_conv')

lemma dget_ddel [simp, dict_simps]: "dget (ddel k d) k' = (if k' = k then None else dget d k')"
  by (simp add: delete_conv')

lemma set_dkeys_dset [simp, dict_simps]: "set (dkeys (dset k v d)) = insert k (set (dkeys d))"
  by (induction d) auto

lemma set_dkeys_ddel [simp, dict_simps]: "set (dkeys (ddel k d)) = set (dkeys d) - {k}"
  by (induction d) auto

lemma fst_set_dset [simp]: "fst ` set (dset k v d) = insert k (fst ` set d)"
  by (induction d) auto

lemma fst_set_ddel [simp]: "fst ` set (ddel k d) = fst ` set d - {k}"
  by (induction d) auto

lemma dget_None_iff [dict_simps]: "dget d k = None \<longleftrightarrow> k \<notin> set (dkeys d)"
  by (simp add: map_of_eq_None_iff)

lemma dget_Some_mem: "dget d k = Some v \<Longrightarrow> (k, v) \<in> set d"
  by (rule map_of_SomeD)

lemma dget_Some_key: "dget d k = Some v \<Longrightarrow> k \<in> set (dkeys d)"
  by (metis dget_None_iff option.distinct(1))

lemma dwf_mem_iff: "dwf d \<Longrightarrow> (k, v) \<in> set d \<longleftrightarrow> dget d k = Some v"
  by (simp add: dwf_def)

lemma ddel_absent [simp]: "k \<notin> set (dkeys d) \<Longrightarrow> ddel k d = d"
  by (induction d) auto

lemma dset_absent: "k \<notin> set (dkeys d) \<Longrightarrow> dset k v d = d @ [(k, v)]"
  by (induction d) auto

lemma length_dset [dict_simps]:
  "length (dset k v d) = (if k \<in> set (dkeys d) then length d else Suc (length d))"
  by (induction d) auto

lemma length_ddel:
  "dwf d \<Longrightarrow> length (ddel k d) = (if k \<in> set (dkeys d) then length d - 1 else length d)"
proof (induction d)
  case (Cons p d)
  then have "dwf d" and "fst p \<notin> set (dkeys d)" by (auto simp: dwf_def)
  show ?case
  proof (cases "fst p = k")
    case True
    with \<open>fst p \<notin> set (dkeys d)\<close> have "ddel k d = d" by simp
    with True show ?thesis by (cases p) simp
  next
    case False
    have "length d \<noteq> 0" if "k \<in> set (dkeys d)" using that by auto
    with False Cons.IH[OF \<open>dwf d\<close>] show ?thesis by (cases p) auto
  qed
qed simp

lemma set_ddel: "set (ddel k d) = {p \<in> set d. fst p \<noteq> k}"
  by (induction d) auto

lemma set_dset_subset: "set (dset k v d) \<subseteq> insert (k, v) (set d)"
  by (induction d) auto

text \<open>
  \<^verbatim>\<open>sum(weight(v) for v in d.values())\<close>: the gauge a bounded table is compared with.
\<close>

definition dsum :: "('v \<Rightarrow> int) \<Rightarrow> ('k, 'v) dict \<Rightarrow> int" where
  "dsum w d = sum_list (map w (dvals d))"

lemma dsum_Nil [simp]: "dsum w [] = 0"
  by (simp add: dsum_def)

lemma dsum_Cons [simp]: "dsum w (p # d) = w (snd p) + dsum w d"
  by (simp add: dsum_def)

lemma dsum_append [simp]: "dsum w (d @ e) = dsum w d + dsum w e"
  by (simp add: dsum_def)

lemma dsum_dset_new [dict_simps]: "k \<notin> set (dkeys d) \<Longrightarrow> dsum w (dset k v d) = dsum w d + w v"
  by (simp add: dset_absent)

lemma dsum_dset_old [dict_simps]:
  "dwf d \<Longrightarrow> dget d k = Some u \<Longrightarrow> dsum w (dset k v d) = dsum w d - w u + w v"
  by (induction d) (auto simp: dwf_def split: if_splits)

lemma dsum_ddel [dict_simps]:
  "dwf d \<Longrightarrow> dget d k = Some u \<Longrightarrow> dsum w (ddel k d) = dsum w d - w u"
  by (induction d) (auto simp: dwf_def split: if_splits)

lemma dsum_move:
  assumes "dwf d"
  shows "dsum w (dset k v (ddel k d)) = dsum w d - (case dget d k of None \<Rightarrow> 0 | Some u \<Rightarrow> w u) + w v"
proof -
  have "dsum w (dset k v (ddel k d)) = dsum w (ddel k d) + w v"
    by (rule dsum_dset_new) simp
  also have "dsum w (ddel k d) = dsum w d - (case dget d k of None \<Rightarrow> 0 | Some u \<Rightarrow> w u)"
  proof (cases "dget d k")
    case None
    then have "ddel k d = d" by (intro ddel_absent) (simp add: map_of_eq_None_iff)
    with None show ?thesis by simp
  next
    case (Some u)
    with assms show ?thesis by (simp add: dsum_ddel)
  qed
  finally show ?thesis .
qed

lemma dsum_nonneg: "(\<And>v. 0 \<le> w v) \<Longrightarrow> 0 \<le> dsum w d"
  by (induction d) auto

lemma dsum_ge_member: "(\<And>v. 0 \<le> w v) \<Longrightarrow> dget d k = Some u \<Longrightarrow> w u \<le> dsum w d"
  by (induction d) (auto simp: add_increasing2 add_increasing dsum_nonneg split: if_splits)

section \<open>Numbers\<close>

text \<open>\<^verbatim>\<open>MAX_SAFE\<close>, \<^verbatim>\<open>MAX_SEQUENCE\<close> and \<^verbatim>\<open>MAX\<close>: the largest integer of a JSON number.\<close>

definition MAX_SAFE :: nat where
  "MAX_SAFE = 9007199254740991"

lemma MAX_SAFE_pos [simp]: "0 < MAX_SAFE"
  by (simp add: MAX_SAFE_def)

text \<open>
  Seconds and physical values are \<^verbatim>\<open>float\<close>s in the source and exact rationals here.
  Python's \<open>round\<close> goes to the nearest integer and to the even one of two nearest.
\<close>

definition py_round :: "rat \<Rightarrow> int" where
  "py_round x =
     (let f = \<lfloor>x\<rfloor>; d = x - of_int f
      in if d < 1 / 2 then f else if d > 1 / 2 then f + 1 else if even f then f else f + 1)"

lemma py_round_of_int [simp]: "py_round (of_int n) = n"
  by (simp add: py_round_def)

lemma py_round_numeral [simp]: "py_round (numeral n) = numeral n"
  using py_round_of_int [of "numeral n"] by simp

lemma py_round_0 [simp]: "py_round 0 = 0"
  using py_round_of_int [of 0] by simp

lemma py_round_1 [simp]: "py_round 1 = 1"
  using py_round_of_int [of 1] by simp

lemma py_round_near: "\<bar>of_int (py_round x) - x\<bar> \<le> 1 / 2"
proof -
  have "of_int \<lfloor>x\<rfloor> \<le> x" and "x < of_int \<lfloor>x\<rfloor> + 1"
    using floor_correct [of x] by auto
  then show ?thesis
    unfolding py_round_def Let_def abs_if by (simp split: if_split) (linarith?)
qed

lemma py_round_mono: "x \<le> y \<Longrightarrow> py_round x \<le> py_round y"
proof -
  assume le: "x \<le> y"
  show ?thesis
  proof (cases "\<lfloor>x\<rfloor> = \<lfloor>y\<rfloor>")
    case True
    with le show ?thesis by (auto simp: py_round_def Let_def)
  next
    case False
    with floor_mono [OF le] have "\<lfloor>x\<rfloor> + 1 \<le> \<lfloor>y\<rfloor>" by linarith
    moreover have "py_round x \<le> \<lfloor>x\<rfloor> + 1" and "\<lfloor>y\<rfloor> \<le> py_round y"
      by (auto simp: py_round_def Let_def)
    ultimately show ?thesis by linarith
  qed
qed

lemma py_round_nonneg: "0 \<le> x \<Longrightarrow> 0 \<le> py_round x"
  using py_round_mono [of 0 x] by simp

lemma le_div_iff:
  assumes c: "0 < (c::int)"
  shows "a \<le> b div c \<longleftrightarrow> a * c \<le> b"
proof
  assume "a \<le> b div c"
  then have "a * c \<le> b div c * c" using c by (simp add: mult_right_mono)
  also have "\<dots> \<le> b" using c by (simp add: minus_mod_eq_div_mult [symmetric])
  finally show "a * c \<le> b" .
next
  assume "a * c \<le> b"
  then have "a * c div c \<le> b div c" using c by (intro zdiv_mono1)
  with c show "a \<le> b div c" by simp
qed

section \<open>Identifiers\<close>

text \<open>The pattern \<^verbatim>\<open>[A-Za-z0-9][A-Za-z0-9._-]{0,63}\<close> that gateway, boot, session, message
  and basis identifiers match in full.\<close>

definition id_alnum :: "char \<Rightarrow> bool" where
  "id_alnum c \<longleftrightarrow>
     (let n = (of_char c :: nat)
      in 48 \<le> n \<and> n \<le> 57 \<or> 65 \<le> n \<and> n \<le> 90 \<or> 97 \<le> n \<and> n \<le> 122)"

definition id_char :: "char \<Rightarrow> bool" where
  "id_char c \<longleftrightarrow> id_alnum c \<or> c = CHR ''.'' \<or> c = CHR ''_'' \<or> c = CHR ''-''"

fun id_fullmatch :: "string \<Rightarrow> bool" where
  "id_fullmatch [] = False"
| "id_fullmatch (c # cs) \<longleftrightarrow> id_alnum c \<and> list_all id_char cs \<and> length cs \<le> 63"

lemma id_fullmatch_length: "id_fullmatch s \<Longrightarrow> 1 \<le> length s \<and> length s \<le> 64"
  by (cases s) auto

end
