(* ===== verification/Models.thy ===== *)
theory Models
  imports Prelude "HOL-Library.List_Lexorder" "HOL-Library.Char_ord" "HOL-Library.Product_Lexorder"
begin

text \<open>
  The immutable configuration models of \<^verbatim>\<open>config/models.py\<close>: one record per dataclass,
  with the source's fields in order, and Python's numbers (unbounded \<^verbatim>\<open>int\<close>, \<^verbatim>\<open>float\<close>).
  Strings compare by code point (\<open>List_Lexorder\<close> over \<open>Char_ord\<close>) and tuples
  lexicographically, as Python orders them.
\<close>

section \<open>Python numbers\<close>

text \<open>
  A \<^verbatim>\<open>float\<close> is its exact rational value or not finite. The rounding of a binary64
  operation is left out; its overflow is kept: a magnitude from \<open>2\<^sup>1\<^sup>0\<^sup>2\<^sup>4 - 2\<^sup>9\<^sup>7\<^sup>0\<close> on
  becomes an infinity, and converting an \<^verbatim>\<open>int\<close> of that magnitude raises.
\<close>

datatype pynum = PyInt int | PyFloat rat | PyNonFinite

definition FLOAT_OVERFLOW :: int where
  "FLOAT_OVERFLOW = 2 ^ 1024 - 2 ^ 970"

definition pyfloat :: "rat \<Rightarrow> pynum" where
  "pyfloat x = (if \<bar>x\<bar> < of_int FLOAT_OVERFLOW then PyFloat x else PyNonFinite)"

fun to_float :: "pynum \<Rightarrow> pynum res" where
  "to_float (PyInt n) = (if \<bar>n\<bar> < FLOAT_OVERFLOW then Inr (PyFloat (of_int n)) else Inl OverflowError)"
| "to_float x = Inr x"

definition py_arith :: "(int \<Rightarrow> int \<Rightarrow> int) \<Rightarrow> (rat \<Rightarrow> rat \<Rightarrow> rat) \<Rightarrow> pynum \<Rightarrow> pynum \<Rightarrow> pynum res" where
  "py_arith fi fr a b =
     (case (a, b) of
        (PyInt x, PyInt y) \<Rightarrow> Inr (PyInt (fi x y))
      | _ \<Rightarrow> rbind (to_float a) (\<lambda>u. rbind (to_float b) (\<lambda>v.
          (case (u, v) of (PyFloat x, PyFloat y) \<Rightarrow> Inr (pyfloat (fr x y)) | _ \<Rightarrow> Inr PyNonFinite))))"

definition py_mul :: "pynum \<Rightarrow> pynum \<Rightarrow> pynum res" where
  "py_mul = py_arith (*) (*)"

definition py_add :: "pynum \<Rightarrow> pynum \<Rightarrow> pynum res" where
  "py_add = py_arith (+) (+)"

text \<open>The exact value of a finite number, for comparisons such as \<^verbatim>\<open>abs(a - b) > deadband\<close>.\<close>

fun num_value :: "pynum \<Rightarrow> rat" where
  "num_value (PyInt n) = of_int n"
| "num_value (PyFloat x) = x"
| "num_value PyNonFinite = 0"

fun num_finite :: "pynum \<Rightarrow> bool" where
  "num_finite PyNonFinite = False"
| "num_finite _ = True"

lemma py_arith_int [simp]: "py_arith fi fr (PyInt x) (PyInt y) = Inr (PyInt (fi x y))"
  by (simp add: py_arith_def)

section \<open>Configuration dataclasses\<close>

record ModbusAddress =
  mb_area :: string
  mb_address :: int
  mb_byte_order :: "string option"

record OpcUaAddress =
  ua_node_id :: string

record PointConfig =
  pc_point_id :: string
  pc_name :: string
  pc_enabled :: bool
  pc_data_type :: string
  pc_poll_interval_ms :: int
  pc_scale :: pynum
  pc_offset :: pynum
  pc_unit :: "string option"
  pc_report_mode :: string
  pc_report_interval_ms :: int
  pc_deadband :: pynum
  pc_stale_after_ms :: int
  pc_modbus :: "ModbusAddress option"
  pc_opcua :: "OpcUaAddress option"

record ConnectionConfig =
  cc_host :: string
  cc_port :: int
  cc_unit_id :: "int option"
  cc_connect_timeout_ms :: int
  cc_request_timeout_ms :: int
  cc_retry_count :: nat
  cc_path :: "string option"
  cc_security_policy :: "string option"
  cc_security_mode :: "string option"
  cc_username :: "string option"
  cc_password_env :: "string option"

record DeviceConfig =
  dc_device_id :: string
  dc_name :: string
  dc_enabled :: bool
  dc_protocol :: string
  dc_connection :: ConnectionConfig
  dc_points :: "PointConfig list"

record ReportConfig =
  rc_batch_interval_ms :: int
  rc_max_batch_points :: nat

record ConfigSnapshot =
  cs_gateway_id :: string
  cs_message_id :: string
  cs_config_version :: nat
  cs_timestamp :: int
  cs_enabled :: bool
  cs_report :: ReportConfig
  cs_devices :: "DeviceConfig list"
  cs_content_json :: string
  cs_wire_json :: string

end
