(* ===== verification/Records.thy ===== *)
theory Records
  imports Models
begin

text \<open>
  The data that passes between the capture, reporting and storage components: the event
  \<open>Sample\<close> of \<^verbatim>\<open>points/samples.py\<close> with its construction checks, a row of the
  \<^verbatim>\<open>batches\<close> table and the process-owned \<open>BatchState\<close> of \<^verbatim>\<open>storage/outbox_session.py\<close>.
  Strings that the source uses as enumerations are datatypes with the same constructors.
\<close>

datatype quality =
  GOOD | UNKNOWN | STALE | BAD_TIMEOUT | BAD_CONNECTION | BAD_PROTOCOL | BAD_DECODE

datatype event_kind = PHYSICAL_RESULT | QUALITY_STATE

datatype pyval = VNone | VBool bool | VNum pynum

record Sample =
  s_config_version :: nat
  s_device_id :: string
  s_point_id :: string
  s_timestamp :: "int option"
  s_value :: pyval
  s_quality :: quality
  s_monotonic_time :: "rat option"
  s_capture_boot_id :: "string option"
  s_sample_seq :: "nat option"
  s_nominal_poll_due_mono_ms :: "int option"
  s_completed_mono_ms :: "int option"
  s_kind :: event_kind
  s_nominal_origin_mono_ms :: "int option"
  s_config_generation :: int
  s_time_generation :: int
  s_time_valid :: bool
  s_clock_revision :: int
  s_time_source :: string
  s_gateway_id :: "string option"

definition safe_from :: "int \<Rightarrow> int option \<Rightarrow> bool" where
  "safe_from minimum v = (case v of None \<Rightarrow> False | Some x \<Rightarrow> minimum \<le> x \<and> x \<le> int MAX_SAFE)"

text \<open>\<^verbatim>\<open>float(value)\<close> of a GOOD value that is not a bool, with NaN for anything that is no
  finite binary64 number.\<close>

definition good_float :: "pyval \<Rightarrow> pynum" where
  "good_float v = (case v of VNum n \<Rightarrow> (case to_float n of Inr x \<Rightarrow> x | Inl _ \<Rightarrow> PyNonFinite) | _ \<Rightarrow> PyNonFinite)"

definition event_metadata_ok :: "Sample \<Rightarrow> unit res" where
  "event_metadata_ok s =
     (if s_capture_boot_id s = None then Inr ()
      else if \<not> (safe_from 1 (map_option int (s_sample_seq s)) \<and> safe_from 0 (s_completed_mono_ms s)
           \<and> safe_from 0 (s_nominal_origin_mono_ms s) \<and> safe_from 0 (Some (s_config_generation s))
           \<and> safe_from 0 (Some (s_time_generation s)) \<and> safe_from 0 (Some (s_clock_revision s)))
        then Inl (ValueError ''Unsafe event metadata'')
      else if (s_kind s = PHYSICAL_RESULT) \<noteq> (s_nominal_poll_due_mono_ms s \<noteq> None)
        then Inl (ValueError ''Invalid event kind/slot'')
      else case s_nominal_poll_due_mono_ms s of None \<Rightarrow> Inr ()
        | Some q \<Rightarrow> if 0 \<le> q \<and> q \<le> the (s_completed_mono_ms s) then Inr ()
                    else Inl (ValueError ''Invalid physical slot''))"

definition sample_post_init :: "Sample \<Rightarrow> Sample res" where
  "sample_post_init s =
     (if s_timestamp s \<noteq> None \<and> \<not> safe_from 0 (s_timestamp s) then Inl (ValueError ''Unsafe sample UTC'')
      else rbind (event_metadata_ok s) (\<lambda>_.
        if s_quality s = GOOD then
          (case s_value s of VBool _ \<Rightarrow> Inr s
           | v \<Rightarrow> (if num_finite (good_float v) then Inr (s\<lparr>s_value := VNum (good_float v)\<rparr>)
                  else Inl (ValueError ''GOOD requires a finite binary64 value or bool'')))
        else if s_value s \<noteq> VNone then Inl (ValueError ''Non-GOOD event value must be null'')
        else Inr s))"

section \<open>Stored batches\<close>

datatype batch_state = PENDING | DEAD

datatype time_trust = LEGACY_UNVERIFIED | SYSTEM_UNVERIFIED | HUB_TRUSTED

datatype terminal_source = AGE_EXPIRED | PERMANENT_REJECT

datatype category = New | History

record batch_row =
  r_message_id :: string
  r_hash :: string
  r_created :: rat
  r_size :: nat
  r_attempts :: nat
  r_next_due :: rat
  r_state :: batch_state
  r_reason :: "string option"
  r_local_order :: nat
  r_enqueued_utc_ms :: "int option"
  r_uncertainty_ms :: "int option"
  r_time_trust :: time_trust
  r_time_basis_ref :: "string option"
  r_enqueue_boot_id :: "string option"
  r_clock_revision :: "int option"
  r_terminal_source :: "terminal_source option"
  r_wire_timestamp :: int

record BatchState =
  b_row :: batch_row
  b_category :: category
  b_due :: rat
  b_active :: bool
  b_source :: "terminal_source option"
  b_events :: "nat list"
  b_capture_boot :: "string option"
  b_ever_sent :: bool
  b_previous_sent :: bool

section \<open>What a constructed sample satisfies\<close>

definition sample_ok :: "Sample \<Rightarrow> bool" where
  "sample_ok s \<longleftrightarrow>
     (\<forall>t. s_timestamp s = Some t \<longrightarrow> 0 \<le> t \<and> t \<le> int MAX_SAFE)
     \<and> (s_quality s = GOOD \<longleftrightarrow> s_value s \<noteq> VNone)
     \<and> (\<forall>n. s_value s = VNum n \<longrightarrow> (\<exists>x. n = PyFloat x))
     \<and> (s_capture_boot_id s \<noteq> None \<longrightarrow>
          (\<exists>n c. s_sample_seq s = Some n \<and> 1 \<le> n \<and> n \<le> MAX_SAFE \<and> s_completed_mono_ms s = Some c \<and> 0 \<le> c
            \<and> (s_kind s = QUALITY_STATE \<longleftrightarrow> s_nominal_poll_due_mono_ms s = None)
            \<and> (\<forall>q. s_nominal_poll_due_mono_ms s = Some q \<longrightarrow> 0 \<le> q \<and> q \<le> c)))"

lemma good_float_finite: "num_finite (good_float v) \<Longrightarrow> \<exists>x. good_float v = PyFloat x"
  by (cases v) (auto simp: good_float_def split: sum.splits pynum.splits if_splits
      elim!: to_float.elims)

lemma event_metadata_okD:
  assumes "event_metadata_ok s = Inr ()" "s_capture_boot_id s \<noteq> None"
  shows "\<exists>n c. s_sample_seq s = Some n \<and> 1 \<le> n \<and> n \<le> MAX_SAFE \<and> s_completed_mono_ms s = Some c \<and> 0 \<le> c
    \<and> (s_kind s = QUALITY_STATE \<longleftrightarrow> s_nominal_poll_due_mono_ms s = None)
    \<and> (\<forall>q. s_nominal_poll_due_mono_ms s = Some q \<longrightarrow> 0 \<le> q \<and> q \<le> c)"
  using assms
  by (cases "s_kind s") (auto simp: event_metadata_ok_def safe_from_def split: if_splits option.splits)

lemma sample_post_init_ok: "sample_post_init s = Inr s' \<Longrightarrow> sample_ok s'"
proof -
  assume ok: "sample_post_init s = Inr s'"
  then have meta: "event_metadata_ok s = Inr ()"
    by (cases "event_metadata_ok s") (auto simp: sample_post_init_def split: if_splits)
  have same: "s' = s \<or> s' = s\<lparr>s_value := VNum (good_float (s_value s))\<rparr>"
    and time: "s_timestamp s = None \<or> safe_from 0 (s_timestamp s)"
    and val: "(s_quality s = GOOD \<longleftrightarrow> s_value s' \<noteq> VNone) \<and> (\<forall>n. s_value s' = VNum n \<longrightarrow> (\<exists>x. n = PyFloat x))"
    using ok meta by (auto simp: sample_post_init_def split: if_splits pyval.splits dest: good_float_finite)
  show ?thesis
    using same time val event_metadata_okD [OF meta]
    by (auto simp: sample_ok_def safe_from_def split: option.splits)
qed

end
