(* ===== verification/AuditLog.thy ===== *)
theory AuditLog
  imports Prelude
begin

text \<open>
  The bounded evidence recorder of \<^verbatim>\<open>reporting/audit.py\<close>: \<open>record\<close> on the capture path,
  the writer thread's loop as single steps, \<open>close\<close>. The length of an encoded fact is a
  parameter, since it is that of \<^verbatim>\<open>json.dumps\<close>.
\<close>

section \<open>Definitions\<close>

text \<open>The values an audit fact may hold; \<open>AOther\<close> is any other Python type.\<close>

datatype aval = ANone | AStr string | AInt int | AFloat rat | ANonFinite | ABool bool | AOther

type_synonym fact = "(string, aval) dict"

record audit =
  au_queue_size :: nat
  au_max_records :: nat
  au_max_bytes :: nat
  au_queue :: "fact list"
  au_output :: "fact list"
  au_accepted :: nat
  au_written :: nat
  au_used_bytes :: nat
  au_rejected :: nat
  au_failed :: bool
  au_stop :: bool
  au_alive :: bool

definition audit_new :: "nat \<Rightarrow> nat \<Rightarrow> nat \<Rightarrow> audit res" where
  "audit_new queue_size max_records max_bytes =
     (if queue_size < 1 \<or> max_records < 1 \<or> max_bytes < 1
      then Inl (ValueError ''Audit bounds must be positive integers'')
      else Inr \<lparr>au_queue_size = queue_size, au_max_records = max_records, au_max_bytes = max_bytes,
             au_queue = [], au_output = [], au_accepted = 0, au_written = 0, au_used_bytes = 0,
             au_rejected = 0, au_failed = False, au_stop = False, au_alive = True\<rparr>)"

fun bounded_value :: "aval \<Rightarrow> bool" where
  "bounded_value (AStr s) \<longleftrightarrow> length s \<le> 256"
| "bounded_value AOther = False"
| "bounded_value _ = True"

text \<open>The check of a fact, and \<^verbatim>\<open>allow_nan=False\<close> of its encoding.\<close>

definition fact_ok :: "fact \<Rightarrow> bool" where
  "fact_ok ev \<longleftrightarrow> length ev \<le> 32 \<and> list_all (\<lambda>(k, v). length k \<le> 64 \<and> bounded_value v) ev
     \<and> list_all (\<lambda>(k, v). v \<noteq> ANonFinite) ev"

definition audit_record :: "(fact \<Rightarrow> nat) \<Rightarrow> fact \<Rightarrow> audit \<Rightarrow> bool \<times> audit" where
  "audit_record enc_len ev au =
     (if \<not> fact_ok ev then (False, au\<lparr>au_rejected := au_rejected au + 1\<rparr>)
      else if au_stop au \<or> au_failed au \<or> 8192 < enc_len ev \<or> au_max_records au \<le> au_accepted au
           \<or> au_max_bytes au < au_used_bytes au + enc_len ev
        then (False, au\<lparr>au_rejected := au_rejected au + 1\<rparr>)
      else if au_queue_size au \<le> length (au_queue au)
        then (False, au\<lparr>au_rejected := au_rejected au + 1\<rparr>)
      else (True, au\<lparr>au_queue := au_queue au @ [ev], au_accepted := au_accepted au + 1,
                     au_used_bytes := au_used_bytes au + enc_len ev\<rparr>))"

text \<open>One round of the writer's loop; \<open>io\<close> tells whether the write succeeds.\<close>

definition audit_write :: "bool \<Rightarrow> audit \<Rightarrow> audit" where
  "audit_write io au =
     (if \<not> au_alive au then au
      else case au_queue au of
        [] \<Rightarrow> (if au_stop au then au\<lparr>au_alive := False\<rparr> else au)
      | raw # rest \<Rightarrow>
          (if io then au\<lparr>au_queue := rest, au_output := au_output au @ [raw], au_written := au_written au + 1\<rparr>
           else au\<lparr>au_queue := rest, au_failed := True, au_alive := False\<rparr>))"

definition audit_stop :: "audit \<Rightarrow> audit" where
  "audit_stop au = au\<lparr>au_stop := True\<rparr>"

record audit_report =
  ar_accepted :: nat
  ar_written :: nat
  ar_rejected :: nat
  ar_accountingComplete :: bool

text \<open>The end of \<open>close\<close>, after the join returned or timed out.\<close>

definition audit_close :: "audit \<Rightarrow> audit_report \<times> audit" where
  "audit_close au =
     (let failed = (au_failed au \<or> au_alive au \<or> au_accepted au \<noteq> au_written au)
      in (\<lparr>ar_accepted = au_accepted au, ar_written = au_written au, ar_rejected = au_rejected au,
           ar_accountingComplete = (\<not> failed \<and> au_rejected au = 0 \<and> \<not> au_alive au \<and> au_accepted au = au_written au)\<rparr>,
          au\<lparr>au_failed := failed\<rparr>))"

text \<open>Interleavings of the capture path and the writer thread.\<close>

datatype audit_action = Offer fact | Write bool | Stop

fun audit_act :: "(fact \<Rightarrow> nat) \<Rightarrow> audit_action \<Rightarrow> audit \<Rightarrow> audit" where
  "audit_act enc_len (Offer ev) au = snd (audit_record enc_len ev au)"
| "audit_act enc_len (Write io) au = audit_write io au"
| "audit_act enc_len Stop au = audit_stop au"

fun audit_run :: "(fact \<Rightarrow> nat) \<Rightarrow> audit_action list \<Rightarrow> audit \<Rightarrow> audit" where
  "audit_run enc_len [] au = au"
| "audit_run enc_len (a # as) au = audit_run enc_len as (audit_act enc_len a au)"

fun offered :: "audit_action list \<Rightarrow> fact list" where
  "offered [] = []"
| "offered (Offer ev # as) = ev # offered as"
| "offered (_ # as) = offered as"

section \<open>Invariant\<close>

definition audit_inv :: "audit \<Rightarrow> bool" where
  "audit_inv au \<longleftrightarrow> length (au_queue au) \<le> au_queue_size au \<and> au_accepted au \<le> au_max_records au
     \<and> au_used_bytes au \<le> au_max_bytes au \<and> length (au_output au) = au_written au
     \<and> au_written au + length (au_queue au) \<le> au_accepted au"

lemma audit_act_inv: "audit_inv au \<Longrightarrow> audit_inv (audit_act enc_len a au)"
  by (cases a) (auto simp: audit_inv_def audit_record_def audit_write_def audit_stop_def split: list.splits)

text \<open>While nothing was rejected and no write failed, output and queue are the facts offered.\<close>

lemma audit_act_log:
  assumes "au_rejected au = 0 \<and> \<not> au_failed au \<Longrightarrow> au_output au @ au_queue au = hist \<and> au_accepted au = length hist"
    and "au_rejected (audit_act enc_len a au) = 0" "\<not> au_failed (audit_act enc_len a au)"
  shows "au_output (audit_act enc_len a au) @ au_queue (audit_act enc_len a au) = hist @ offered [a]
    \<and> au_accepted (audit_act enc_len a au) = length (hist @ offered [a])"
proof (cases a)
  case (Offer ev)
  with assms show ?thesis
    by (auto simp: audit_record_def split: if_splits)
next
  case (Write io)
  with assms show ?thesis
    by (auto simp: audit_write_def split: list.splits if_splits)
next
  case Stop
  with assms show ?thesis by (auto simp: audit_stop_def)
qed

lemma audit_clean_back:
  "au_rejected (audit_act enc_len a au) = 0 \<Longrightarrow> au_rejected au = 0"
  "\<not> au_failed (audit_act enc_len a au) \<Longrightarrow> \<not> au_failed au"
  by (cases a; auto simp: audit_record_def audit_write_def audit_stop_def split: list.splits if_splits)+

lemma audit_run_clean_back:
  "au_rejected (audit_run enc_len as au) = 0 \<Longrightarrow> au_rejected au = 0"
  "\<not> au_failed (audit_run enc_len as au) \<Longrightarrow> \<not> au_failed au"
  by (induction as arbitrary: au) (auto dest: audit_clean_back)

lemma audit_run_log:
  assumes "au_rejected au = 0 \<and> \<not> au_failed au \<Longrightarrow> au_output au @ au_queue au = hist \<and> au_accepted au = length hist"
    and "au_rejected (audit_run enc_len as au) = 0" "\<not> au_failed (audit_run enc_len as au)"
  shows "au_output (audit_run enc_len as au) @ au_queue (audit_run enc_len as au) = hist @ offered as"
  using assms
proof (induction as arbitrary: au hist)
  case Nil
  then show ?case by simp
next
  case (Cons a as)
  have "au_rejected (audit_act enc_len a au) = 0" "\<not> au_failed (audit_act enc_len a au)"
    using Cons.prems audit_run_clean_back by auto
  with Cons.prems(1) have "au_output (audit_act enc_len a au) @ au_queue (audit_act enc_len a au) = hist @ offered [a]
      \<and> au_accepted (audit_act enc_len a au) = length (hist @ offered [a])"
    by (intro audit_act_log) auto
  moreover have "offered (a # as) = offered [a] @ offered as" by (cases a) simp_all
  ultimately show ?case using Cons.IH [of "audit_act enc_len a au" "hist @ offered [a]"] Cons.prems by simp
qed

lemma audit_new_inv:
  "audit_new q r m = Inr au \<Longrightarrow> audit_inv au \<and> au_queue_size au = q \<and> au_max_records au = r \<and> au_max_bytes au = m"
  by (auto simp: audit_new_def audit_inv_def split: if_splits)

lemma audit_run_inv: "audit_inv au \<Longrightarrow> audit_inv (audit_run enc_len as au)"
  by (induction as arbitrary: au) (auto intro: audit_act_inv)

section \<open>Properties\<close>

text \<open>A recorder that reports complete accounting has written every fact that was offered
  to it, in the order offered, whatever the interleaving of offers, writes and the stop signal:
  the claim "accountingComplete" is never made over a lost or reordered fact.\<close>

theorem audit_complete_means_written:
  assumes new: "audit_new q r m = Inr au"
    and complete: "ar_accountingComplete (fst (audit_close (audit_run enc_len as au)))"
  shows "au_output (audit_run enc_len as au) = offered as"
proof -
  let ?z = "audit_run enc_len as au"
  have inv: "audit_inv ?z"
    using audit_new_inv [OF new] by (intro audit_run_inv) simp
  have clean: "au_rejected ?z = 0" "\<not> au_failed ?z" and all: "au_accepted ?z = au_written ?z"
    using complete by (auto simp: audit_close_def Let_def)
  have "au_output ?z @ au_queue ?z = [] @ offered as"
    using new clean by (intro audit_run_log) (auto simp: audit_new_def split: if_splits)
  moreover have "au_queue ?z = []" using inv all by (auto simp: audit_inv_def)
  ultimately show ?thesis by simp
qed

theorem audit_complete_means_written_witness:
  "au_output (audit_run (\<lambda>_. 40) [Offer [(''kind'', AStr ''gap'')], Write True, Stop, Write True]
      (projr (audit_new 2 10 1000))) = [[(''kind'', AStr ''gap'')]]"
proof -
  have n: "audit_new 2 10 1000 = Inr (projr (audit_new 2 10 1000))"
    by (simp add: audit_new_def)
  have c: "ar_accountingComplete (fst (audit_close (audit_run (\<lambda>_. 40)
      [Offer [(''kind'', AStr ''gap'')], Write True, Stop, Write True] (projr (audit_new 2 10 1000)))))"
    by (simp add: audit_new_def audit_record_def audit_write_def audit_stop_def audit_close_def fact_ok_def)
  show ?thesis using audit_complete_means_written [OF n c] by simp
qed

text \<open>The recorder stays within its bounds: at most the configured facts in its queue,
  records and bytes in all, and never more facts written or queued than accepted.\<close>

theorem audit_bounded:
  assumes "audit_new q r m = Inr au"
  shows "length (au_queue (audit_run enc_len as au)) \<le> q \<and> au_accepted (audit_run enc_len as au) \<le> r
    \<and> au_used_bytes (audit_run enc_len as au) \<le> m
    \<and> au_written (audit_run enc_len as au) + length (au_queue (audit_run enc_len as au)) \<le> au_accepted (audit_run enc_len as au)"
proof -
  have frame: "au_queue_size (audit_act enc_len a x) = au_queue_size x
      \<and> au_max_records (audit_act enc_len a x) = au_max_records x
      \<and> au_max_bytes (audit_act enc_len a x) = au_max_bytes x" for a x
    by (cases a) (auto simp: audit_record_def audit_write_def audit_stop_def split: list.splits)
  have "au_queue_size (audit_run enc_len as x) = au_queue_size x
      \<and> au_max_records (audit_run enc_len as x) = au_max_records x
      \<and> au_max_bytes (audit_run enc_len as x) = au_max_bytes x" for x
    by (induction as arbitrary: x) (simp_all add: frame)
  moreover have "audit_inv (audit_run enc_len as au)"
    using audit_new_inv [OF assms] by (intro audit_run_inv) simp
  ultimately show ?thesis using audit_new_inv [OF assms] by (simp add: audit_inv_def)
qed

theorem audit_bounded_witness:
  "length (au_queue (audit_run (\<lambda>_. 40) [Offer [], Offer []] (projr (audit_new 1 10 1000)))) \<le> 1"
  using audit_bounded [of 1 10 1000 "projr (audit_new 1 10 1000)" "\<lambda>_. 40" "[Offer [], Offer []]"]
  by (simp add: audit_new_def)

end
