(* ===== verification/Accounting.thy ===== *)
theory Accounting
  imports Records AuditLog
begin

text \<open>
  One boot's counters and ownership gauges: the class \<open>Accounting\<close> of
  \<^verbatim>\<open>reporting/accounting.py\<close>, every method with its bounds, gap records and audit facts.
  The lock makes each method one atomic step. CPython's object sizes, the encoded length of
  an audit fact and the draws of \<^verbatim>\<open>uuid4\<close> are parameters, collected in \<open>acct_env\<close>.
\<close>

section \<open>State\<close>

datatype counter =
    capturedEventsTotal | eligibleEventsTotal | policyFilteredEventsTotal | timeInvalidEventsTotal
  | captureOverflowEventsTotal | undecidedLostEventsTotal | knownUnsentEventsTotal | isolatedEventsTotal
  | uncertainDeliveryEventsTotal | storedConfirmedEventsTotal | lateStoredEventsTotal
  | enqueueRejectedAttemptsTotal | missedPollCyclesTotal | missedReportSlotsTotal
  | sourceTimestampRepeatEventsTotal | gapRecordsTotal

datatype outcome = UNCERTAIN | KNOWN_UNSENT | ISOLATED

record gap =
  g_gapId :: string
  g_reason :: string
  g_outcome :: outcome
  g_eventCount :: "nat option"
  g_captureBootId :: "string option"
  g_configVersion :: "nat option"
  g_deviceId :: "string option"
  g_pointId :: "string option"
  g_sampleSeqFrom :: "nat option"
  g_sampleSeqTo :: "nat option"
  g_sampledFromUtcMs :: "int option"
  g_sampledToUtcMs :: "int option"

type_synonym phys_key = "string option \<times> string \<times> string"

record acct_env =
  ae_uuid :: "nat \<Rightarrow> string"
  ae_gap_bytes :: "gap \<Rightarrow> nat"
  ae_phys_bytes :: "phys_key \<times> int option \<Rightarrow> nat"
  ae_set_bytes :: "nat option list \<Rightarrow> nat"
  ae_frozen_bytes :: "(nat, string) dict \<Rightarrow> nat"
  ae_fact_len :: "fact \<Rightarrow> nat"

record acct =
  ac_boot_id :: string
  ac_counters :: "counter \<Rightarrow> nat"
  ac_complete :: bool
  ac_overflow :: bool
  ac_truncated :: bool
  ac_revision :: nat
  ac_recorder :: "audit option"
  ac_pending_decisions :: "nat option list"
  ac_decision_unknown :: bool
  ac_frozen_batches :: "(nat, string) dict"
  ac_physical :: "(phys_key, int option \<times> nat) dict"
  ac_gaps :: "gap list"
  ac_max_gaps :: nat
  ac_physical_bytes :: int
  ac_gap_bytes :: int
  ac_max_metadata_bytes :: nat
  ac_pending :: int
  ac_dead :: int
  ac_pending_batches :: int
  ac_dead_batches :: int
  ac_payload_bytes :: int
  ac_unknown_pending :: int
  ac_unknown_dead :: int
  ac_recovery_noted :: bool
  ac_draws :: nat

definition acct_new :: "string \<Rightarrow> nat \<Rightarrow> nat \<Rightarrow> acct res" where
  "acct_new boot_id max_gaps max_metadata_bytes =
     (if max_gaps < 1 \<or> max_metadata_bytes < 16384
      then Inl (ValueError ''Accounting bounds must be positive and metadata at least 16 KiB'')
      else Inr \<lparr>ac_boot_id = boot_id, ac_counters = (\<lambda>_. 0), ac_complete = True, ac_overflow = False,
        ac_truncated = False, ac_revision = 0, ac_recorder = None, ac_pending_decisions = [],
        ac_decision_unknown = False, ac_frozen_batches = [], ac_physical = [], ac_gaps = [],
        ac_max_gaps = max_gaps, ac_physical_bytes = 0, ac_gap_bytes = 0,
        ac_max_metadata_bytes = max_metadata_bytes, ac_pending = 0, ac_dead = 0,
        ac_pending_batches = 0, ac_dead_batches = 0, ac_payload_bytes = 0, ac_unknown_pending = 0,
        ac_unknown_dead = 0, ac_recovery_noted = False, ac_draws = 0\<rparr>)"

section \<open>Counters, completeness and audit facts\<close>

definition acct_add :: "counter \<Rightarrow> nat \<Rightarrow> acct \<Rightarrow> acct" where
  "acct_add name count a =
     (let v = ac_counters a name + count;
          a = (if v > MAX_SAFE then a\<lparr>ac_overflow := True, ac_complete := False\<rparr> else a)
      in a\<lparr>ac_counters := (ac_counters a)(name := min MAX_SAFE v), ac_revision := ac_revision a + 1\<rparr>)"

definition incomplete :: "bool \<Rightarrow> bool \<Rightarrow> acct \<Rightarrow> acct" where
  "incomplete truncated overflow a =
     (let changed = ac_complete a \<or> (truncated \<and> \<not> ac_truncated a) \<or> (overflow \<and> \<not> ac_overflow a)
      in a\<lparr>ac_complete := False, ac_truncated := ac_truncated a \<or> truncated,
           ac_overflow := ac_overflow a \<or> overflow,
           ac_revision := ac_revision a + (if changed then 1 else 0)\<rparr>)"

definition attach_recorder :: "audit option \<Rightarrow> acct \<Rightarrow> acct" where
  "attach_recorder r a = a\<lparr>ac_recorder := r\<rparr>"

definition acct_record :: "acct_env \<Rightarrow> string \<Rightarrow> fact \<Rightarrow> acct \<Rightarrow> acct" where
  "acct_record env kind flds a =
     (case ac_recorder a of None \<Rightarrow> a
      | Some r \<Rightarrow>
          (let (ok, r') = audit_record (ae_fact_len env)
                 ([(''kind'', AStr kind), (''counterEpoch'', AStr (ac_boot_id a))] @ flds) r;
               a = a\<lparr>ac_recorder := Some r'\<rparr>
           in if ok then a else incomplete True False a))"

section \<open>The metadata bound\<close>

definition metadata_bytes :: "acct_env \<Rightarrow> acct \<Rightarrow> int" where
  "metadata_bytes env a =
     int (8192 + ae_set_bytes env (ac_pending_decisions a) + length (ac_pending_decisions a) * 32
          + ae_frozen_bytes env (ac_frozen_batches a) + length (ac_frozen_batches a) * 256)
     + ac_physical_bytes a + ac_gap_bytes a"

definition over_bound :: "acct_env \<Rightarrow> acct \<Rightarrow> bool" where
  "over_bound env a \<longleftrightarrow> metadata_bytes env a > int (ac_max_metadata_bytes a)"

function bound_physical :: "acct_env \<Rightarrow> acct \<Rightarrow> acct" where
  "bound_physical env a =
     (case ac_physical a of [] \<Rightarrow> a
      | (_, (_, charge)) # rest \<Rightarrow>
          (if length (ac_physical a) > 2000 \<or> over_bound env a
           then bound_physical env (a\<lparr>ac_physical := rest, ac_physical_bytes := ac_physical_bytes a - int charge,
                  ac_complete := False, ac_truncated := True\<rparr>)
           else a))"
  by pat_completeness auto
termination
  by (relation "measure (\<lambda>(env, a). length (ac_physical a))") auto

function bound_gaps :: "acct_env \<Rightarrow> acct \<Rightarrow> acct" where
  "bound_gaps env a =
     (case ac_gaps a of [] \<Rightarrow> a
      | g # rest \<Rightarrow>
          (if over_bound env a
           then bound_gaps env (a\<lparr>ac_gaps := rest, ac_gap_bytes := ac_gap_bytes a - int (ae_gap_bytes env g + 64),
                  ac_complete := False, ac_truncated := True\<rparr>)
           else a))"
  by pat_completeness auto
termination
  by (relation "measure (\<lambda>(env, a). length (ac_gaps a))") auto

declare bound_physical.simps [simp del] bound_gaps.simps [simp del]

definition acct_bound :: "acct_env \<Rightarrow> acct \<Rightarrow> acct" where
  "acct_bound env a =
     (let a = bound_gaps env (bound_physical env a)
      in if over_bound env a
         then a\<lparr>ac_pending_decisions := [], ac_decision_unknown := True, ac_complete := False, ac_truncated := True\<rparr>
         else a)"

section \<open>Gaps\<close>

definition min_opt :: "'a::linorder list \<Rightarrow> 'a option" where
  "min_opt xs = (if xs = [] then None else Some (Min (set xs)))"

definition max_opt :: "'a::linorder list \<Rightarrow> 'a option" where
  "max_opt xs = (if xs = [] then None else Some (Max (set xs)))"

text \<open>\<^verbatim>\<open>next(iter(s)) if len(s)==1 else None\<close> for the set of the listed values.\<close>

definition the_only :: "'a list \<Rightarrow> 'a option" where
  "the_only xs = (case remdups xs of [x] \<Rightarrow> Some x | _ \<Rightarrow> None)"

definition sample_seqs :: "Sample list \<Rightarrow> nat list" where
  "sample_seqs samples = List.map_filter s_sample_seq samples"

definition make_gap :: "string \<Rightarrow> string \<Rightarrow> outcome \<Rightarrow> Sample list \<Rightarrow> BatchState option \<Rightarrow> gap" where
  "make_gap gap_id reason outcome samples entry =
     (let seqs = (if samples \<noteq> [] then sample_seqs samples
                  else case entry of Some e \<Rightarrow> b_events e | None \<Rightarrow> []);
          stamps = List.map_filter s_timestamp samples;
          device = the_only (map s_device_id samples)
      in \<lparr>g_gapId = gap_id, g_reason = reason, g_outcome = outcome,
          g_eventCount = (if seqs \<noteq> [] then Some (length seqs) else None),
          g_captureBootId = (case samples of s # _ \<Rightarrow> s_capture_boot_id s
             | [] \<Rightarrow> (case entry of Some e \<Rightarrow> b_capture_boot e | None \<Rightarrow> None)),
          g_configVersion = the_only (map s_config_version samples),
          g_deviceId = device,
          g_pointId = (if device = None then None else the_only (map s_point_id samples)),
          g_sampleSeqFrom = min_opt seqs, g_sampleSeqTo = max_opt seqs,
          g_sampledFromUtcMs = min_opt stamps, g_sampledToUtcMs = max_opt stamps\<rparr>)"

definition aopt :: "('a \<Rightarrow> aval) \<Rightarrow> 'a option \<Rightarrow> aval" where
  "aopt f x = (case x of None \<Rightarrow> ANone | Some v \<Rightarrow> f v)"

fun outcome_name :: "outcome \<Rightarrow> string" where
  "outcome_name UNCERTAIN = ''UNCERTAIN''"
| "outcome_name KNOWN_UNSENT = ''KNOWN_UNSENT''"
| "outcome_name ISOLATED = ''ISOLATED''"

definition gap_fact :: "gap \<Rightarrow> fact" where
  "gap_fact g =
     [(''gapId'', AStr (g_gapId g)), (''reason'', AStr (g_reason g)), (''outcome'', AStr (outcome_name (g_outcome g))),
      (''eventCount'', aopt (AInt \<circ> int) (g_eventCount g)), (''captureBootId'', aopt AStr (g_captureBootId g)),
      (''configVersion'', aopt (AInt \<circ> int) (g_configVersion g)), (''deviceId'', aopt AStr (g_deviceId g)),
      (''pointId'', aopt AStr (g_pointId g)), (''sampleSeqFrom'', aopt (AInt \<circ> int) (g_sampleSeqFrom g)),
      (''sampleSeqTo'', aopt (AInt \<circ> int) (g_sampleSeqTo g)), (''sampledFromUtcMs'', aopt AInt (g_sampledFromUtcMs g)),
      (''sampledToUtcMs'', aopt AInt (g_sampledToUtcMs g))]"

definition acct_gap :: "acct_env \<Rightarrow> string \<Rightarrow> outcome \<Rightarrow> Sample list \<Rightarrow> BatchState option \<Rightarrow> acct \<Rightarrow> acct" where
  "acct_gap env reason outcome samples entry a =
     (let a = acct_add gapRecordsTotal 1 a;
          a = (case ac_gaps a of
                 g # rest \<Rightarrow> (if length (ac_gaps a) = ac_max_gaps a
                   then a\<lparr>ac_gaps := rest, ac_gap_bytes := ac_gap_bytes a - int (ae_gap_bytes env g + 64), ac_truncated := True\<rparr>
                   else a)
               | [] \<Rightarrow> a);
          g = make_gap (''gap-'' @ ae_uuid env (ac_draws a)) reason outcome samples entry;
          a = a\<lparr>ac_draws := ac_draws a + 1, ac_gaps := ac_gaps a @ [g],
                ac_gap_bytes := ac_gap_bytes a + int (ae_gap_bytes env g + 64)\<rparr>
      in acct_record env ''gap'' (gap_fact g) (acct_bound env a))"

section \<open>Capture and decision of events\<close>

fun kind_name :: "event_kind \<Rightarrow> string" where
  "kind_name PHYSICAL_RESULT = ''PHYSICAL_RESULT''"
| "kind_name QUALITY_STATE = ''QUALITY_STATE''"

fun quality_name :: "quality \<Rightarrow> string" where
  "quality_name GOOD = ''GOOD''"
| "quality_name UNKNOWN = ''UNKNOWN''"
| "quality_name STALE = ''STALE''"
| "quality_name BAD_TIMEOUT = ''BAD_TIMEOUT''"
| "quality_name BAD_CONNECTION = ''BAD_CONNECTION''"
| "quality_name BAD_PROTOCOL = ''BAD_PROTOCOL''"
| "quality_name BAD_DECODE = ''BAD_DECODE''"

fun value_aval :: "pyval \<Rightarrow> aval" where
  "value_aval VNone = ANone"
| "value_aval (VBool b) = ABool b"
| "value_aval (VNum (PyInt n)) = AInt n"
| "value_aval (VNum (PyFloat x)) = AFloat x"
| "value_aval (VNum PyNonFinite) = ANonFinite"

definition aseq :: "nat option \<Rightarrow> aval" where
  "aseq = aopt (AInt \<circ> int)"

definition captured_fact :: "Sample \<Rightarrow> fact" where
  "captured_fact s =
     [(''sampleSeq'', aseq (s_sample_seq s)), (''captureBootId'', aopt AStr (s_capture_boot_id s)),
      (''gatewayId'', aopt AStr (s_gateway_id s)), (''configVersion'', AInt (int (s_config_version s))),
      (''deviceId'', AStr (s_device_id s)), (''pointId'', AStr (s_point_id s)), (''eventKind'', AStr (kind_name (s_kind s))),
      (''nominalPollDueMonoMs'', aopt AInt (s_nominal_poll_due_mono_ms s)),
      (''completedMonoMs'', aopt AInt (s_completed_mono_ms s)), (''originalUtcMs'', aopt AInt (s_timestamp s)),
      (''value'', value_aval (s_value s)), (''quality'', AStr (quality_name (s_quality s))),
      (''nominalOriginMonoMs'', aopt AInt (s_nominal_origin_mono_ms s)),
      (''configGeneration'', AInt (s_config_generation s)), (''timeGeneration'', AInt (s_time_generation s)),
      (''timeValid'', ABool (s_time_valid s)), (''clockRevision'', AInt (s_clock_revision s)),
      (''timeSource'', AStr (s_time_source s))]"

definition remember_pending :: "Sample \<Rightarrow> acct \<Rightarrow> acct" where
  "remember_pending s a =
     (if length (ac_pending_decisions a) < 8192
      then a\<lparr>ac_pending_decisions := List.insert (s_sample_seq s) (ac_pending_decisions a)\<rparr>
      else a\<lparr>ac_decision_unknown := True, ac_complete := False, ac_truncated := True\<rparr>)"

definition remember_physical :: "acct_env \<Rightarrow> Sample \<Rightarrow> acct \<Rightarrow> acct" where
  "remember_physical env s a =
     (if s_kind s \<noteq> PHYSICAL_RESULT then a
      else let key = (s_gateway_id s, s_device_id s, s_point_id s);
               previous = dget (ac_physical a) key;
               a = a\<lparr>ac_physical := ddel key (ac_physical a),
                     ac_physical_bytes := ac_physical_bytes a - (case previous of None \<Rightarrow> 0 | Some (_, c) \<Rightarrow> int c)\<rparr>;
               a = (if s_timestamp s \<noteq> None \<and> map_option fst previous = Some (s_timestamp s)
                    then acct_add sourceTimestampRepeatEventsTotal 1 a else a);
               charge = ae_phys_bytes env (key, s_timestamp s) + 128
           in a\<lparr>ac_physical := dset key (s_timestamp s, charge) (ac_physical a),
                ac_physical_bytes := ac_physical_bytes a + int charge\<rparr>)"

definition captured :: "acct_env \<Rightarrow> Sample \<Rightarrow> acct \<Rightarrow> acct" where
  "captured env s a =
     acct_record env ''captured'' (captured_fact s)
       (acct_bound env (remember_physical env s (remember_pending s (acct_add capturedEventsTotal 1 a))))"

text \<open>\<open>_decision\<close>: only an event of this boot whose decision is pending is decided, once.\<close>

definition decision :: "Sample \<Rightarrow> acct \<Rightarrow> bool \<times> acct" where
  "decision s a =
     (if s_capture_boot_id s \<noteq> Some (ac_boot_id a) \<or> s_sample_seq s \<notin> set (ac_pending_decisions a)
      then (False, a)
      else (True, a\<lparr>ac_pending_decisions := remove1 (s_sample_seq s) (ac_pending_decisions a)\<rparr>))"

definition undecided :: "acct_env \<Rightarrow> Sample \<Rightarrow> string \<Rightarrow> bool \<Rightarrow> acct \<Rightarrow> bool \<times> acct" where
  "undecided env s reason overflow a =
     (let (ok, a) = decision s a
      in if \<not> ok then (False, a)
         else let a = (if overflow then acct_add captureOverflowEventsTotal 1 a else a);
                  a = (acct_add undecidedLostEventsTotal 1 a)\<lparr>ac_complete := False\<rparr>;
                  a = acct_gap env reason UNCERTAIN [s] None a
              in (True, acct_record env ''undecided_lost''
                   [(''sampleSeq'', aseq (s_sample_seq s)), (''reason'', AStr reason)] a))"

definition decided_fact :: "Sample \<Rightarrow> bool \<Rightarrow> bool \<Rightarrow> string option \<Rightarrow> fact" where
  "decided_fact s selected admitted reason =
     [(''sampleSeq'', aseq (s_sample_seq s)), (''selected'', ABool selected), (''admitted'', ABool admitted),
      (''reason'', aopt AStr reason)]"

definition reason_counters :: "string option \<Rightarrow> acct \<Rightarrow> acct" where
  "reason_counters reason a =
     (let a = (if reason = Some ''TIME_INVALID'' then acct_add timeInvalidEventsTotal 1 a else a)
      in if reason = Some ''CAPACITY_EVICTION'' then acct_add enqueueRejectedAttemptsTotal 1 a else a)"

definition decided :: "acct_env \<Rightarrow> Sample \<Rightarrow> bool \<Rightarrow> bool \<Rightarrow> string option \<Rightarrow> acct \<Rightarrow> bool \<times> acct" where
  "decided env s selected admitted reason a =
     (let (ok, a) = decision s a
      in if \<not> ok then (False, a)
         else let a = acct_add (if selected then eligibleEventsTotal else policyFilteredEventsTotal) 1 a;
                  a = (if admitted then a\<lparr>ac_pending := ac_pending a + 1\<rparr>
                       else if selected then
                         acct_gap env (case reason of Some r \<Rightarrow> r | None \<Rightarrow> ''STORAGE_ERROR'') KNOWN_UNSENT [s] None
                           (reason_counters reason (acct_add knownUnsentEventsTotal 1 a))
                       else a)
              in (True, acct_record env ''decision'' (decided_fact s selected admitted reason) a))"

section \<open>Batches\<close>

definition own_boot :: "BatchState \<Rightarrow> acct \<Rightarrow> bool" where
  "own_boot e a \<longleftrightarrow> b_capture_boot e = Some (ac_boot_id a)"

definition acct_recovery :: "acct_env \<Rightarrow> acct \<Rightarrow> acct" where
  "acct_recovery env a =
     (if ac_recovery_noted a then a
      else acct_gap env ''VOLATILE_RESTART'' UNCERTAIN [] None (a\<lparr>ac_recovery_noted := True, ac_complete := False\<rparr>))"

fun state_name :: "batch_state \<Rightarrow> string" where
  "state_name PENDING = ''PENDING''"
| "state_name DEAD = ''DEAD''"

definition restored :: "acct_env \<Rightarrow> BatchState \<Rightarrow> acct \<Rightarrow> acct" where
  "restored env e a =
     (let a = acct_recovery env a;
          a = (if r_state (b_row e) = PENDING
               then a\<lparr>ac_pending_batches := ac_pending_batches a + 1, ac_unknown_pending := ac_unknown_pending a + 1\<rparr>
               else a\<lparr>ac_dead_batches := ac_dead_batches a + 1, ac_unknown_dead := ac_unknown_dead a + 1\<rparr>);
          a = a\<lparr>ac_payload_bytes := ac_payload_bytes a + int (r_size (b_row e)), ac_revision := ac_revision a + 1\<rparr>
      in acct_record env ''restored_batch''
           [(''messageId'', AStr (r_message_id (b_row e))), (''payloadHash'', AStr (r_hash (b_row e))),
            (''state'', AStr (state_name (r_state (b_row e)))), (''eventCount'', ANone), (''captureBootId'', ANone)] a)"

definition materialized :: "acct_env \<Rightarrow> nat \<Rightarrow> string \<Rightarrow> acct \<Rightarrow> exn option \<times> acct" where
  "materialized env sequence message_id a =
     (if 64 \<le> length (ac_frozen_batches a)
      then (Some (RuntimeError ''Frozen-batch accounting capacity exhausted''),
            a\<lparr>ac_complete := False, ac_truncated := True\<rparr>)
      else (None, acct_bound env
             (a\<lparr>ac_frozen_batches := dset sequence message_id (ac_frozen_batches a),
                ac_pending_batches := ac_pending_batches a + 1, ac_revision := ac_revision a + 1\<rparr>)))"

fun chunks :: "nat \<Rightarrow> 'a list \<Rightarrow> 'a list list" where
  "chunks n xs = (if xs = [] \<or> n = 0 then [] else take n xs # chunks n (drop n xs))"

declare chunks.simps [simp del]

fun digits :: "nat \<Rightarrow> string" where
  "digits n = (if n < 10 then [char_of (48 + n)] else digits (n div 10) @ [char_of (48 + n mod 10)])"

declare digits.simps [simp del]

fun join_commas :: "string list \<Rightarrow> string" where
  "join_commas [] = []"
| "join_commas [x] = x"
| "join_commas (x # xs) = x @ '','' @ join_commas xs"

definition batch_identity :: "nat list \<Rightarrow> fact" where
  "batch_identity seqs =
     (case seqs of [n] \<Rightarrow> [(''sampleSeq'', AInt (int n))]
      | _ \<Rightarrow> [(''sampleSeqs'', AStr (join_commas (map digits seqs))), (''eventCount'', AInt (int (length seqs)))])"

definition record_batch :: "acct_env \<Rightarrow> string \<Rightarrow> BatchState \<Rightarrow> fact \<Rightarrow> acct \<Rightarrow> acct" where
  "record_batch env kind e extra a =
     foldl (\<lambda>a seqs. acct_record env kind
         ([(''messageId'', AStr (r_message_id (b_row e))), (''payloadHash'', AStr (r_hash (b_row e))),
           (''captureBootId'', aopt AStr (b_capture_boot e))] @ batch_identity seqs @ extra) a)
       a (chunks 15 (b_events e))"

definition frozen_for :: "string \<Rightarrow> acct \<Rightarrow> nat option" where
  "frozen_for message_id a =
     map_option fst (List.find (\<lambda>(seq, key). key = message_id) (ac_frozen_batches a))"

definition committed_acct :: "acct_env \<Rightarrow> BatchState \<Rightarrow> acct \<Rightarrow> acct" where
  "committed_acct env e a =
     (let a = (case frozen_for (r_message_id (b_row e)) a of
                 Some seq \<Rightarrow> a\<lparr>ac_frozen_batches := ddel seq (ac_frozen_batches a)\<rparr>
               | None \<Rightarrow> a\<lparr>ac_pending_batches := ac_pending_batches a + 1\<rparr>);
          a = a\<lparr>ac_payload_bytes := ac_payload_bytes a + int (r_size (b_row e)), ac_revision := ac_revision a + 1\<rparr>;
          a = (if own_boot e a then a
               else a\<lparr>ac_unknown_pending := ac_unknown_pending a + 1, ac_complete := False\<rparr>)
      in record_batch env ''committed'' e [] a)"

fun source_name :: "terminal_source \<Rightarrow> string" where
  "source_name AGE_EXPIRED = ''AGE_EXPIRED''"
| "source_name PERMANENT_REJECT = ''PERMANENT_REJECT''"

fun outcome_counter :: "outcome \<Rightarrow> counter" where
  "outcome_counter ISOLATED = isolatedEventsTotal"
| "outcome_counter UNCERTAIN = uncertainDeliveryEventsTotal"
| "outcome_counter KNOWN_UNSENT = knownUnsentEventsTotal"

definition terminal_outcome :: "BatchState \<Rightarrow> terminal_source \<Rightarrow> outcome" where
  "terminal_outcome e source =
     (if source = PERMANENT_REJECT then ISOLATED else if b_ever_sent e then UNCERTAIN else KNOWN_UNSENT)"

definition terminal_acct :: "acct_env \<Rightarrow> BatchState \<Rightarrow> terminal_source \<Rightarrow> acct \<Rightarrow> acct" where
  "terminal_acct env e source a =
     (let n = length (b_events e);
          a = a\<lparr>ac_pending_batches := ac_pending_batches a - 1, ac_dead_batches := ac_dead_batches a + 1\<rparr>;
          (outcome, a) =
            (if own_boot e a
             then (terminal_outcome e source,
                   acct_add (outcome_counter (terminal_outcome e source)) n
                     (a\<lparr>ac_pending := ac_pending a - int n, ac_dead := ac_dead a + int n\<rparr>))
             else (UNCERTAIN, a\<lparr>ac_unknown_pending := ac_unknown_pending a - 1,
                     ac_unknown_dead := ac_unknown_dead a + 1, ac_complete := False\<rparr>));
          a = acct_gap env (source_name source) outcome [] (Some e) a
      in record_batch env ''terminal'' e [(''source'', AStr (source_name source)), (''outcome'', AStr (outcome_name outcome))] a)"

definition removed :: "acct_env \<Rightarrow> BatchState \<Rightarrow> bool \<Rightarrow> bool \<Rightarrow> acct \<Rightarrow> acct" where
  "removed env e stored pruned a =
     (let dead = (r_state (b_row e) = DEAD); n = length (b_events e);
          a = (if dead then a\<lparr>ac_dead_batches := ac_dead_batches a - 1\<rparr>
               else a\<lparr>ac_pending_batches := ac_pending_batches a - 1\<rparr>);
          a = (if own_boot e a
               then let a = (if dead then a\<lparr>ac_dead := ac_dead a - int n\<rparr> else a\<lparr>ac_pending := ac_pending a - int n\<rparr>)
                    in if stored
                       then let a = acct_add storedConfirmedEventsTotal n a
                            in if b_source e = Some AGE_EXPIRED then acct_add lateStoredEventsTotal n a else a
                       else a
               else if dead then a\<lparr>ac_unknown_dead := ac_unknown_dead a - 1\<rparr>
               else a\<lparr>ac_unknown_pending := ac_unknown_pending a - 1\<rparr>);
          a = a\<lparr>ac_payload_bytes := ac_payload_bytes a - int (r_size (b_row e)), ac_revision := ac_revision a + 1\<rparr>;
          a = (if pruned then a\<lparr>ac_truncated := True\<rparr> else a)
      in record_batch env (if stored then ''stored'' else ''pruned'') e [] a)"

definition drop_frozen :: "nat list \<Rightarrow> acct \<Rightarrow> acct" where
  "drop_frozen seqs a =
     foldl (\<lambda>a seq. if seq \<in> set (dkeys (ac_frozen_batches a))
              then a\<lparr>ac_frozen_batches := ddel seq (ac_frozen_batches a), ac_pending_batches := ac_pending_batches a - 1\<rparr>
              else a) a seqs"

definition abandon_acct :: "acct_env \<Rightarrow> Sample list \<Rightarrow> nat list \<Rightarrow> acct \<Rightarrow> acct" where
  "abandon_acct env samples sequences a =
     (let a = acct_add knownUnsentEventsTotal (length samples) (a\<lparr>ac_pending := ac_pending a - int (length samples)\<rparr>);
          a = drop_frozen sequences a;
          a = foldl (\<lambda>a part. acct_gap env ''VOLATILE_RESTART'' KNOWN_UNSENT part None a) a (chunks 256 samples)
      in foldl (\<lambda>a s. acct_record env ''ram_terminal''
            [(''sampleSeq'', aseq (s_sample_seq s)), (''outcome'', AStr ''KNOWN_UNSENT''), (''reason'', AStr ''VOLATILE_RESTART'')] a)
           a samples)"

record acct_snapshot =
  as_counterEpoch :: string
  as_revision :: nat
  as_accountingComplete :: bool
  as_counterOverflow :: bool
  as_detailTruncated :: bool
  as_counters :: "counter \<Rightarrow> nat"
  as_pendingEvents :: "int option"
  as_deadEvents :: "int option"
  as_pendingBatches :: int
  as_deadBatches :: int
  as_usedBytes :: int
  as_maxBytes :: nat
  as_ageUnknownBatches :: int
  as_decisionPending :: "nat option"
  as_lastGap :: "gap option"

definition snapshot_acct :: "nat \<Rightarrow> acct \<Rightarrow> acct_snapshot \<times> acct" where
  "snapshot_acct max_payload_bytes a =
     (let a = (case ac_recorder a of
                 Some r \<Rightarrow> (if au_failed r \<or> au_rejected r > 0 then a\<lparr>ac_complete := False, ac_truncated := True\<rparr> else a)
               | None \<Rightarrow> a)
      in (\<lparr>as_counterEpoch = ac_boot_id a, as_revision = ac_revision a, as_accountingComplete = ac_complete a,
           as_counterOverflow = ac_overflow a, as_detailTruncated = ac_truncated a, as_counters = ac_counters a,
           as_pendingEvents = (if ac_unknown_pending a \<noteq> 0 then None else Some (ac_pending a)),
           as_deadEvents = (if ac_unknown_dead a \<noteq> 0 then None else Some (ac_dead a)),
           as_pendingBatches = ac_pending_batches a, as_deadBatches = ac_dead_batches a,
           as_usedBytes = ac_payload_bytes a, as_maxBytes = max_payload_bytes, as_ageUnknownBatches = ac_pending_batches a,
           as_decisionPending = (if ac_decision_unknown a then None else Some (length (ac_pending_decisions a))),
           as_lastGap = (if ac_gaps a = [] then None else Some (last (ac_gaps a)))\<rparr>, a))"

section \<open>Frames\<close>

lemma acct_add_counters [simp]:
  "ac_counters (acct_add n c a) = (ac_counters a)(n := min MAX_SAFE (ac_counters a n + c))"
  by (simp add: acct_add_def Let_def)

lemma acct_add_overflow [simp]:
  "ac_overflow (acct_add n c a) \<longleftrightarrow> ac_overflow a \<or> MAX_SAFE < ac_counters a n + c"
  by (simp add: acct_add_def Let_def)

lemma acct_add_complete [simp]:
  "ac_complete (acct_add n c a) \<longleftrightarrow> ac_complete a \<and> \<not> MAX_SAFE < ac_counters a n + c"
  by (simp add: acct_add_def Let_def)

lemma acct_add_frame [simp]:
  "ac_boot_id (acct_add n c a) = ac_boot_id a"
  "ac_pending (acct_add n c a) = ac_pending a"
  "ac_pending_decisions (acct_add n c a) = ac_pending_decisions a"
  "ac_decision_unknown (acct_add n c a) = ac_decision_unknown a"
  "ac_physical (acct_add n c a) = ac_physical a"
  "ac_physical_bytes (acct_add n c a) = ac_physical_bytes a"
  "ac_gaps (acct_add n c a) = ac_gaps a"
  "ac_gap_bytes (acct_add n c a) = ac_gap_bytes a"
  "ac_max_gaps (acct_add n c a) = ac_max_gaps a"
  "ac_max_metadata_bytes (acct_add n c a) = ac_max_metadata_bytes a"
  "ac_frozen_batches (acct_add n c a) = ac_frozen_batches a"
  "ac_draws (acct_add n c a) = ac_draws a"
  by (simp_all add: acct_add_def Let_def)

lemma incomplete_frame [simp]:
  "ac_counters (incomplete t v a) = ac_counters a"
  "ac_overflow (incomplete t v a) \<longleftrightarrow> ac_overflow a \<or> v"
  "ac_complete (incomplete t v a) = False"
  "ac_boot_id (incomplete t v a) = ac_boot_id a"
  "ac_pending (incomplete t v a) = ac_pending a"
  "ac_pending_decisions (incomplete t v a) = ac_pending_decisions a"
  "ac_decision_unknown (incomplete t v a) = ac_decision_unknown a"
  "ac_physical (incomplete t v a) = ac_physical a"
  "ac_physical_bytes (incomplete t v a) = ac_physical_bytes a"
  "ac_gaps (incomplete t v a) = ac_gaps a"
  "ac_gap_bytes (incomplete t v a) = ac_gap_bytes a"
  "ac_max_gaps (incomplete t v a) = ac_max_gaps a"
  "ac_max_metadata_bytes (incomplete t v a) = ac_max_metadata_bytes a"
  "ac_frozen_batches (incomplete t v a) = ac_frozen_batches a"
  by (simp_all add: incomplete_def Let_def)

lemma acct_record_frame [simp]:
  "ac_counters (acct_record env k f a) = ac_counters a"
  "ac_overflow (acct_record env k f a) = ac_overflow a"
  "ac_boot_id (acct_record env k f a) = ac_boot_id a"
  "ac_pending (acct_record env k f a) = ac_pending a"
  "ac_pending_decisions (acct_record env k f a) = ac_pending_decisions a"
  "ac_decision_unknown (acct_record env k f a) = ac_decision_unknown a"
  "ac_physical (acct_record env k f a) = ac_physical a"
  "ac_physical_bytes (acct_record env k f a) = ac_physical_bytes a"
  "ac_gaps (acct_record env k f a) = ac_gaps a"
  "ac_gap_bytes (acct_record env k f a) = ac_gap_bytes a"
  "ac_max_gaps (acct_record env k f a) = ac_max_gaps a"
  "ac_max_metadata_bytes (acct_record env k f a) = ac_max_metadata_bytes a"
  "ac_frozen_batches (acct_record env k f a) = ac_frozen_batches a"
  by (simp_all add: acct_record_def Let_def split: option.split prod.split)

lemma acct_record_complete: "ac_complete (acct_record env k f a) \<Longrightarrow> ac_complete a"
  by (auto simp: acct_record_def Let_def split: option.splits prod.splits if_splits)

section \<open>The ledger\<close>

text \<open>Every event captured is decided, lost undecided, or awaiting its decision; every event
  selected is pending, known unsent, isolated, uncertain, or stored (an event stored after its
  expiry was already counted as uncertain or unsent).\<close>

definition ledger_ok :: "acct \<Rightarrow> bool" where
  "ledger_ok a \<longleftrightarrow>
     (\<forall>c. ac_counters a c \<le> MAX_SAFE) \<and> distinct (ac_pending_decisions a)
     \<and> (\<not> ac_overflow a \<and> \<not> ac_decision_unknown a \<longrightarrow>
          ac_counters a capturedEventsTotal = ac_counters a eligibleEventsTotal + ac_counters a policyFilteredEventsTotal
            + ac_counters a undecidedLostEventsTotal + length (ac_pending_decisions a))
     \<and> (\<not> ac_overflow a \<longrightarrow>
          int (ac_counters a eligibleEventsTotal) + int (ac_counters a lateStoredEventsTotal) =
            ac_pending a + int (ac_counters a knownUnsentEventsTotal) + int (ac_counters a isolatedEventsTotal)
            + int (ac_counters a uncertainDeliveryEventsTotal) + int (ac_counters a storedConfirmedEventsTotal))
     \<and> (ac_complete a \<longrightarrow> \<not> ac_overflow a \<and> \<not> ac_decision_unknown a \<and> ac_counters a undecidedLostEventsTotal = 0)"

text \<open>The tables are bounded and their byte gauges are exact.\<close>

definition tables_ok :: "acct_env \<Rightarrow> acct \<Rightarrow> bool" where
  "tables_ok env a \<longleftrightarrow> dwf (ac_physical a) \<and> ac_physical_bytes a = dsum (int \<circ> snd) (ac_physical a)
     \<and> ac_gap_bytes a = sum_list (map (\<lambda>g. int (ae_gap_bytes env g + 64)) (ac_gaps a))
     \<and> length (ac_gaps a) \<le> ac_max_gaps a \<and> 1 \<le> ac_max_gaps a"

lemma ledger_add_other:
  assumes "ledger_ok a"
    and "n \<in> {timeInvalidEventsTotal, captureOverflowEventsTotal, enqueueRejectedAttemptsTotal,
      missedPollCyclesTotal, missedReportSlotsTotal, sourceTimestampRepeatEventsTotal, gapRecordsTotal}"
  shows "ledger_ok (acct_add n c a)"
  using assms by (auto simp: ledger_ok_def)

text \<open>An update outside the ledger's fields keeps it.\<close>

lemma ledger_cong:
  "ledger_ok a \<Longrightarrow> ac_counters b = ac_counters a \<Longrightarrow> ac_overflow b = ac_overflow a \<Longrightarrow> ac_pending b = ac_pending a
   \<Longrightarrow> ac_pending_decisions b = ac_pending_decisions a \<Longrightarrow> ac_decision_unknown b = ac_decision_unknown a
   \<Longrightarrow> (ac_complete b \<longrightarrow> ac_complete a) \<Longrightarrow> ledger_ok b"
  by (auto simp: ledger_ok_def)

lemma ledger_record [simp, intro]: "ledger_ok a \<Longrightarrow> ledger_ok (acct_record env k f a)"
  by (rule ledger_cong) (auto dest: acct_record_complete)

text \<open>An assertion kept by one eviction is kept by the eviction loops.\<close>

lemma bound_physical_keeps:
  assumes "P a"
    and "\<And>a k t charge rest. P a \<Longrightarrow> ac_physical a = (k, (t, charge)) # rest \<Longrightarrow>
      P (a\<lparr>ac_physical := rest, ac_physical_bytes := ac_physical_bytes a - int charge,
           ac_complete := False, ac_truncated := True\<rparr>)"
  shows "P (bound_physical env a)"
  using assms(1)
proof (induction env a rule: bound_physical.induct)
  case (1 env a)
  show ?case
  proof (cases "ac_physical a")
    case Nil
    with 1 show ?thesis by (subst bound_physical.simps) simp
  next
    case (Cons p rest)
    obtain k t charge where p: "p = (k, (t, charge))" by (cases p) auto
    show ?thesis
    proof (cases "length (ac_physical a) > 2000 \<or> over_bound env a")
      case True
      have "P (bound_physical env (a\<lparr>ac_physical := rest, ac_physical_bytes := ac_physical_bytes a - int charge,
          ac_complete := False, ac_truncated := True\<rparr>))"
        by (rule "1.IH" [OF Cons p [symmetric] refl True assms(2) [OF "1.prems" Cons [unfolded p]]])
      with True Cons p show ?thesis by (subst bound_physical.simps) simp
    next
      case False
      with 1 Cons p show ?thesis by (subst bound_physical.simps) simp
    qed
  qed
qed

lemma bound_gaps_keeps:
  assumes "P a"
    and "\<And>a g rest. P a \<Longrightarrow> ac_gaps a = g # rest \<Longrightarrow>
      P (a\<lparr>ac_gaps := rest, ac_gap_bytes := ac_gap_bytes a - int (ae_gap_bytes env g + 64),
           ac_complete := False, ac_truncated := True\<rparr>)"
  shows "P (bound_gaps env a)"
  using assms
proof (induction env a rule: bound_gaps.induct)
  case (1 env a)
  show ?case
  proof (cases "ac_gaps a")
    case Nil
    with 1 show ?thesis by (subst bound_gaps.simps) simp
  next
    case (Cons g rest)
    show ?thesis
    proof (cases "over_bound env a")
      case True
      have "P (bound_gaps env (a\<lparr>ac_gaps := rest, ac_gap_bytes := ac_gap_bytes a - int (ae_gap_bytes env g + 64),
          ac_complete := False, ac_truncated := True\<rparr>))"
        by (rule "1.IH" [OF Cons True "1.prems"(2) [OF "1.prems"(1) Cons] "1.prems"(2)])
      with True Cons show ?thesis by (subst bound_gaps.simps) simp
    next
      case False
      with 1 Cons show ?thesis by (subst bound_gaps.simps) simp
    qed
  qed
qed

lemma acct_bound_keeps:
  assumes "P a"
    and "\<And>a k t charge rest. P a \<Longrightarrow> ac_physical a = (k, (t, charge)) # rest \<Longrightarrow>
      P (a\<lparr>ac_physical := rest, ac_physical_bytes := ac_physical_bytes a - int charge,
           ac_complete := False, ac_truncated := True\<rparr>)"
    and "\<And>a g rest. P a \<Longrightarrow> ac_gaps a = g # rest \<Longrightarrow>
      P (a\<lparr>ac_gaps := rest, ac_gap_bytes := ac_gap_bytes a - int (ae_gap_bytes env g + 64),
           ac_complete := False, ac_truncated := True\<rparr>)"
    and "\<And>a. P a \<Longrightarrow> P (a\<lparr>ac_pending_decisions := [], ac_decision_unknown := True,
           ac_complete := False, ac_truncated := True\<rparr>)"
  shows "P (acct_bound env a)"
proof -
  have "P (bound_physical env a)" using assms(1,2) by (rule bound_physical_keeps)
  then have "P (bound_gaps env (bound_physical env a))" using assms(3) by (rule bound_gaps_keeps)
  then show ?thesis using assms(4) by (simp add: acct_bound_def Let_def)
qed

lemma ledger_bound [simp, intro]: "ledger_ok a \<Longrightarrow> ledger_ok (acct_bound env a)"
  by (erule acct_bound_keeps) (auto simp: ledger_ok_def)

lemma acct_bound_boot [simp]: "ac_boot_id (acct_bound env a) = ac_boot_id a"
  by (rule acct_bound_keeps [where P = "\<lambda>x. ac_boot_id x = ac_boot_id a"]) auto

lemma ledger_gap [simp, intro]:
  assumes "ledger_ok a"
  shows "ledger_ok (acct_gap env reason outcome samples entry a)"
proof -
  have "ledger_ok (acct_add gapRecordsTotal 1 a)" using assms by (rule ledger_add_other) simp
  then show ?thesis
    unfolding acct_gap_def Let_def
    by (intro ledger_record ledger_bound) (auto simp: ledger_ok_def split: list.split)
qed

lemma acct_gap_boot [simp]: "ac_boot_id (acct_gap env r oc ss e a) = ac_boot_id a"
  by (simp add: acct_gap_def Let_def split: list.split)

lemma ledger_record_batch [simp, intro]: "ledger_ok a \<Longrightarrow> ledger_ok (record_batch env kind e extra a)"
proof -
  have "ledger_ok a \<Longrightarrow> ledger_ok (foldl (\<lambda>a seqs. acct_record env kind (f seqs) a) a xs)" for f and xs :: "nat list list"
    by (induction xs arbitrary: a) auto
  then show "ledger_ok a \<Longrightarrow> ?thesis" by (simp add: record_batch_def)
qed

lemma ledger_fold_gap: "ledger_ok a \<Longrightarrow> ledger_ok (foldl (\<lambda>a part. acct_gap env r oc part e a) a parts)"
  by (induction parts arbitrary: a) auto

lemma ledger_fold_record: "ledger_ok a \<Longrightarrow> ledger_ok (foldl (\<lambda>a s. acct_record env k (f s) a) a ss)"
  by (induction ss arbitrary: a) auto

lemma ledger_drop_frozen: "ledger_ok a \<Longrightarrow> ledger_ok (drop_frozen seqs a)"
  unfolding drop_frozen_def by (induction seqs arbitrary: a) (auto simp: ledger_ok_def)

section \<open>Every operation keeps the ledger\<close>

lemma ledger_captured:
  assumes "ledger_ok a" "s_sample_seq s \<notin> set (ac_pending_decisions a)"
  shows "ledger_ok (captured env s a)"
proof -
  have "ledger_ok (remember_pending s (acct_add capturedEventsTotal 1 a))"
    using assms by (auto simp: ledger_ok_def remember_pending_def)
  then have "ledger_ok (remember_physical env s (remember_pending s (acct_add capturedEventsTotal 1 a)))"
    by (auto simp: remember_physical_def Let_def ledger_ok_def split: option.split)
  then show ?thesis unfolding captured_def by blast
qed

lemma ledger_undecided: "ledger_ok a \<Longrightarrow> ledger_ok (snd (undecided env s reason overflow a))"
proof -
  assume l: "ledger_ok a"
  show ?thesis
  proof (cases "fst (decision s a)")
    case False
    with l show ?thesis by (auto simp: undecided_def decision_def split: if_splits)
  next
    case True
    then obtain a1 where a1: "decision s a = (True, a1)" by (cases "decision s a") auto
    let ?a2 = "if overflow then acct_add captureOverflowEventsTotal 1 a1 else a1"
    have "ledger_ok ((acct_add undecidedLostEventsTotal 1 ?a2)\<lparr>ac_complete := False\<rparr>)"
      using l a1 by (auto simp: ledger_ok_def decision_def length_remove1 distinct_remove1
          split: if_splits) (auto dest: length_pos_if_in_set)
    then show ?thesis using a1 by (simp add: undecided_def Let_def)
  qed
qed

lemma ledger_decided:
  assumes l: "ledger_ok a" and sel: "admitted \<Longrightarrow> selected"
  shows "ledger_ok (snd (decided env s selected admitted reason a))"
proof (cases "fst (decision s a)")
  case False
  with l show ?thesis by (auto simp: decided_def decision_def split: if_splits)
next
  case True
  then obtain a1 where a1: "decision s a = (True, a1)" by (cases "decision s a") auto
  let ?c = "if selected then eligibleEventsTotal else policyFilteredEventsTotal"
  have dec: "s_sample_seq s \<in> set (ac_pending_decisions a)"
    "a1 = a\<lparr>ac_pending_decisions := remove1 (s_sample_seq s) (ac_pending_decisions a)\<rparr>"
    using a1 by (auto simp: decision_def split: if_splits)
  have len: "length (ac_pending_decisions a) = Suc (length (ac_pending_decisions a1))"
    using dec by (auto simp: length_remove1 dest: length_pos_if_in_set)
  have dist: "distinct (ac_pending_decisions a1)"
    using l dec by (auto simp: ledger_ok_def)
  consider (adm) "admitted" | (sel) "\<not> admitted" "selected" | (filt) "\<not> admitted" "\<not> selected" by blast
  then have "ledger_ok (snd (decided env s selected admitted reason a))"
  proof cases
    case adm
    with sel have "ledger_ok ((acct_add ?c 1 a1)\<lparr>ac_pending := ac_pending (acct_add ?c 1 a1) + 1\<rparr>)"
      using l len dist dec by (auto simp: ledger_ok_def)
    then show ?thesis using a1 adm sel by (simp add: decided_def Let_def)
  next
    case sel
    then have "ledger_ok (acct_add knownUnsentEventsTotal 1 (acct_add eligibleEventsTotal 1 a1))"
      using l len dist dec by (auto simp: ledger_ok_def)
    then have "ledger_ok (reason_counters reason (acct_add knownUnsentEventsTotal 1 (acct_add eligibleEventsTotal 1 a1)))"
      by (auto simp: reason_counters_def Let_def intro!: ledger_add_other)
    then show ?thesis using a1 sel by (simp add: decided_def Let_def)
  next
    case filt
    then have "ledger_ok (acct_add policyFilteredEventsTotal 1 a1)"
      using l len dist dec by (auto simp: ledger_ok_def)
    then show ?thesis using a1 filt by (simp add: decided_def Let_def)
  qed
  then show ?thesis .
qed

lemma ledger_recovery [simp]: "ledger_ok a \<Longrightarrow> ledger_ok (acct_recovery env a)"
  unfolding acct_recovery_def by (auto intro!: ledger_gap intro: ledger_cong)

lemma ledger_restored: "ledger_ok a \<Longrightarrow> ledger_ok (restored env e a)"
proof -
  assume "ledger_ok a"
  then have "ledger_ok (acct_recovery env a)" by simp
  then show ?thesis
    unfolding restored_def Let_def by (intro ledger_record) (erule ledger_cong; simp)
qed

lemma ledger_materialized: "ledger_ok a \<Longrightarrow> ledger_ok (snd (materialized env seq mid a))"
  unfolding materialized_def by (auto intro!: ledger_bound intro: ledger_cong)

lemma ledger_committed: "ledger_ok a \<Longrightarrow> ledger_ok (committed_acct env e a)"
  unfolding committed_acct_def Let_def
  by (intro ledger_record_batch) (erule ledger_cong; simp split: option.split)

lemma ledger_terminal_core:
  assumes "ledger_ok a" "n = length (b_events e)"
  shows "ledger_ok (acct_add (outcome_counter oc) n
    (a\<lparr>ac_pending_batches := x, ac_dead_batches := y, ac_pending := ac_pending a - int n, ac_dead := d\<rparr>))"
  using assms by (cases oc) (auto simp: ledger_ok_def)

lemma ledger_terminal: "ledger_ok a \<Longrightarrow> ledger_ok (terminal_acct env e source a)"
proof (cases "own_boot e a")
  case True
  moreover assume "ledger_ok a"
  ultimately show ?thesis
    using ledger_terminal_core [of a "length (b_events e)" e]
    by (simp add: terminal_acct_def Let_def own_boot_def)
next
  case False
  assume "ledger_ok a"
  then have "ledger_ok (a\<lparr>ac_pending_batches := ac_pending_batches a - 1, ac_dead_batches := ac_dead_batches a + 1,
      ac_unknown_pending := ac_unknown_pending a - 1, ac_unknown_dead := ac_unknown_dead a + 1, ac_complete := False\<rparr>)"
    by (rule ledger_cong) simp_all
  then show ?thesis using False by (simp add: terminal_acct_def Let_def own_boot_def)
qed

text \<open>\<^verbatim>\<open>removed\<close> is called for a stored batch or for a pruned dead one.\<close>

definition removal_guard :: "BatchState \<Rightarrow> bool \<Rightarrow> bool" where
  "removal_guard e stored \<longleftrightarrow>
     (if r_state (b_row e) = DEAD then stored \<longrightarrow> b_source e = Some AGE_EXPIRED
      else stored \<and> b_source e \<noteq> Some AGE_EXPIRED)"

lemma ledger_removed: "ledger_ok a \<Longrightarrow> removal_guard e stored \<Longrightarrow> ledger_ok (removed env e stored pruned a)"
proof -
  assume l: "ledger_ok a" and g: "removal_guard e stored"
  let ?n = "length (b_events e)"
  let ?a0 = "if r_state (b_row e) = DEAD then a\<lparr>ac_dead_batches := ac_dead_batches a - 1\<rparr>
      else a\<lparr>ac_pending_batches := ac_pending_batches a - 1\<rparr>"
  have l0: "ledger_ok ?a0" using l by (rule ledger_cong) auto
  let ?a1 = "if own_boot e ?a0
      then let b = (if r_state (b_row e) = DEAD then ?a0\<lparr>ac_dead := ac_dead ?a0 - int ?n\<rparr>
                    else ?a0\<lparr>ac_pending := ac_pending ?a0 - int ?n\<rparr>)
           in if stored then let c = acct_add storedConfirmedEventsTotal ?n b
                in if b_source e = Some AGE_EXPIRED then acct_add lateStoredEventsTotal ?n c else c
              else b
      else if r_state (b_row e) = DEAD then ?a0\<lparr>ac_unknown_dead := ac_unknown_dead ?a0 - 1\<rparr>
      else ?a0\<lparr>ac_unknown_pending := ac_unknown_pending ?a0 - 1\<rparr>"
  have l1: "ledger_ok ?a1"
  proof (cases "own_boot e ?a0")
    case True
    with l0 g show ?thesis
      by (cases "r_state (b_row e)"; cases stored) (auto simp: Let_def ledger_ok_def removal_guard_def)
  next
    case False
    then show ?thesis by (auto intro: ledger_cong [OF l0])
  qed
  then have "ledger_ok (if pruned
      then ?a1\<lparr>ac_payload_bytes := ac_payload_bytes ?a1 - int (r_size (b_row e)), ac_revision := ac_revision ?a1 + 1\<rparr>\<lparr>ac_truncated := True\<rparr>
      else ?a1\<lparr>ac_payload_bytes := ac_payload_bytes ?a1 - int (r_size (b_row e)), ac_revision := ac_revision ?a1 + 1\<rparr>)"
    by (rule ledger_cong) auto
  then show ?thesis unfolding removed_def Let_def by (rule ledger_record_batch)
qed

lemma ledger_abandon: "ledger_ok a \<Longrightarrow> ledger_ok (abandon_acct env samples seqs a)"
  unfolding abandon_acct_def Let_def
  by (intro ledger_fold_record ledger_fold_gap ledger_drop_frozen) (auto simp: ledger_ok_def)

lemma ledger_snapshot: "ledger_ok a \<Longrightarrow> ledger_ok (snd (snapshot_acct m a))"
  by (auto simp: snapshot_acct_def Let_def ledger_ok_def split: option.split)

section \<open>Every operation keeps the tables\<close>

lemma tables_cong:
  "tables_ok env a \<Longrightarrow> ac_physical b = ac_physical a \<Longrightarrow> ac_physical_bytes b = ac_physical_bytes a
   \<Longrightarrow> ac_gaps b = ac_gaps a \<Longrightarrow> ac_gap_bytes b = ac_gap_bytes a \<Longrightarrow> ac_max_gaps b = ac_max_gaps a \<Longrightarrow> tables_ok env b"
  by (auto simp: tables_ok_def)

lemma tables_add [simp, intro]: "tables_ok env a \<Longrightarrow> tables_ok env (acct_add n c a)"
  by (erule tables_cong) simp_all

lemma tables_record [simp, intro]: "tables_ok env a \<Longrightarrow> tables_ok env (acct_record env' k f a)"
  by (erule tables_cong) simp_all

lemma tables_bound [simp, intro]: "tables_ok env a \<Longrightarrow> tables_ok env (acct_bound env a)"
  by (erule acct_bound_keeps) (auto simp: tables_ok_def dwf_def)

lemma tables_gap [simp, intro]: "tables_ok env a \<Longrightarrow> tables_ok env (acct_gap env r oc ss e a)"
  unfolding acct_gap_def Let_def
  by (intro tables_record tables_bound) (auto simp: tables_ok_def split: list.split)

lemma tables_record_batch [simp, intro]: "tables_ok env a \<Longrightarrow> tables_ok env (record_batch env' kind e extra a)"
proof -
  have "tables_ok env a \<Longrightarrow> tables_ok env (foldl (\<lambda>a seqs. acct_record env' kind (f seqs) a) a xs)"
    for f and xs :: "nat list list"
    by (induction xs arbitrary: a) auto
  then show "tables_ok env a \<Longrightarrow> ?thesis" by (simp add: record_batch_def)
qed

lemma tables_remember_physical: "tables_ok env a \<Longrightarrow> tables_ok env (remember_physical env s a)"
proof -
  assume t: "tables_ok env a"
  let ?key = "(s_gateway_id s, s_device_id s, s_point_id s)"
  have bytes: "dsum (int \<circ> snd) (dset ?key v (ddel ?key (ac_physical a))) =
      ac_physical_bytes a - (case dget (ac_physical a) ?key of None \<Rightarrow> 0 | Some (_, c) \<Rightarrow> int c) + int (snd v)" for v
    using t dsum_move [of "ac_physical a" "int \<circ> snd" ?key v]
    by (cases "dget (ac_physical a) ?key") (auto simp: tables_ok_def split: prod.split)
  define c where "c = (case dget (ac_physical a) ?key of None \<Rightarrow> 0 | Some (_, c) \<Rightarrow> int c)"
  define b where "b = a\<lparr>ac_physical := ddel ?key (ac_physical a), ac_physical_bytes := ac_physical_bytes a - c\<rparr>"
  define b' where "b' = (if s_timestamp s \<noteq> None \<and> map_option fst (dget (ac_physical a) ?key) = Some (s_timestamp s)
      then acct_add sourceTimestampRepeatEventsTotal 1 b else b)"
  have "remember_physical env s a = (if s_kind s \<noteq> PHYSICAL_RESULT then a
      else let charge = ae_phys_bytes env (?key, s_timestamp s) + 128 in
        b'\<lparr>ac_physical := dset ?key (s_timestamp s, charge) (ac_physical b'),
           ac_physical_bytes := ac_physical_bytes b' + int charge\<rparr>)"
    unfolding remember_physical_def Let_def b'_def b_def c_def by (rule refl)
  moreover have "ac_physical b' = ddel ?key (ac_physical a)" "ac_physical_bytes b' = ac_physical_bytes a - c"
    "ac_gaps b' = ac_gaps a" "ac_gap_bytes b' = ac_gap_bytes a" "ac_max_gaps b' = ac_max_gaps a"
    by (simp_all add: b'_def b_def)
  ultimately show ?thesis
    using t bytes [of "(s_timestamp s, ae_phys_bytes env (?key, s_timestamp s) + 128)", folded c_def]
    by (simp add: tables_ok_def Let_def)
qed

lemma tables_captured: "tables_ok env a \<Longrightarrow> tables_ok env (captured env s a)"
proof -
  assume "tables_ok env a"
  then have "tables_ok env (acct_add capturedEventsTotal 1 a)" by simp
  then have "tables_ok env (remember_pending s (acct_add capturedEventsTotal 1 a))"
    by (rule tables_cong) (auto simp: remember_pending_def)
  then show ?thesis unfolding captured_def by (intro tables_record tables_bound tables_remember_physical)
qed

lemma tables_decision: "tables_ok env a \<Longrightarrow> tables_ok env (snd (decision s a))"
  by (erule tables_cong) (auto simp: decision_def)

lemma tables_undecided: "tables_ok env a \<Longrightarrow> tables_ok env (snd (undecided env s reason overflow a))"
proof -
  assume "tables_ok env a"
  then have t: "tables_ok env (snd (decision s a))" by (rule tables_decision)
  have "tables_ok env ((acct_add undecidedLostEventsTotal 1 b)\<lparr>ac_complete := False\<rparr>)" if "tables_ok env b" for b
    using tables_add [OF that] by (rule tables_cong) simp_all
  with t show ?thesis by (auto simp: undecided_def Let_def split: prod.split)
qed

lemma tables_decided: "tables_ok env a \<Longrightarrow> tables_ok env (snd (decided env s selected admitted reason a))"
proof -
  assume "tables_ok env a"
  then have t: "tables_ok env (snd (decision s a))" by (rule tables_decision)
  have p: "tables_ok env (b\<lparr>ac_pending := x\<rparr>)" if "tables_ok env b" for b x
    using that by (rule tables_cong) simp_all
  have "tables_ok env (reason_counters reason b)" if "tables_ok env b" for b
    using that by (auto simp: reason_counters_def Let_def)
  with t show ?thesis by (auto simp: decided_def Let_def p split: prod.split)
qed

lemma tables_recovery [simp]: "tables_ok env a \<Longrightarrow> tables_ok env (acct_recovery env a)"
  unfolding acct_recovery_def by (auto intro!: tables_gap intro: tables_cong)

lemma tables_restored: "tables_ok env a \<Longrightarrow> tables_ok env (restored env e a)"
proof -
  assume "tables_ok env a"
  then have "tables_ok env (acct_recovery env a)" by simp
  then show ?thesis unfolding restored_def Let_def by (intro tables_record) (erule tables_cong; simp)
qed

lemma tables_materialized: "tables_ok env a \<Longrightarrow> tables_ok env (snd (materialized env seq mid a))"
  unfolding materialized_def by (auto intro!: tables_bound intro: tables_cong)

lemma tables_committed: "tables_ok env a \<Longrightarrow> tables_ok env (committed_acct env e a)"
  unfolding committed_acct_def Let_def
  by (intro tables_record_batch) (erule tables_cong; simp split: option.split)

lemma tables_terminal: "tables_ok env a \<Longrightarrow> tables_ok env (terminal_acct env e source a)"
  unfolding terminal_acct_def Let_def
  by (cases "own_boot e a")
    (auto simp: own_boot_def intro!: tables_record_batch tables_gap tables_add intro: tables_cong)

lemma tables_removed: "tables_ok env a \<Longrightarrow> tables_ok env (removed env e stored pruned a)"
  unfolding removed_def Let_def by (intro tables_record_batch) (erule tables_cong; simp)

lemma tables_abandon: "tables_ok env a \<Longrightarrow> tables_ok env (abandon_acct env samples seqs a)"
proof -
  have gaps: "tables_ok env a \<Longrightarrow> tables_ok env (foldl (\<lambda>a part. acct_gap env r oc part e a) a parts)" for a r oc e parts
    by (induction parts arbitrary: a) auto
  have recs: "tables_ok env a \<Longrightarrow> tables_ok env (foldl (\<lambda>a s. acct_record env k (f s) a) a ss)" for a k f and ss :: "Sample list"
    by (induction ss arbitrary: a) auto
  have froz: "tables_ok env a \<Longrightarrow> tables_ok env (drop_frozen qs a)" for a qs
    unfolding drop_frozen_def by (induction qs arbitrary: a) (auto simp: tables_ok_def)
  have pend: "tables_ok env a \<Longrightarrow> tables_ok env (a\<lparr>ac_pending := x\<rparr>)" for a x
    by (erule tables_cong) simp_all
  show "tables_ok env a \<Longrightarrow> ?thesis"
    unfolding abandon_acct_def Let_def by (intro recs gaps froz tables_add pend)
qed

section \<open>Reachable states\<close>

inductive acct_step :: "acct_env \<Rightarrow> acct \<Rightarrow> acct \<Rightarrow> bool" for env where
  st_add: "n \<in> {missedPollCyclesTotal, missedReportSlotsTotal, enqueueRejectedAttemptsTotal} \<Longrightarrow> acct_step env a (acct_add n c a)"
| st_incomplete: "acct_step env a (incomplete t v a)"
| st_attach: "acct_step env a (attach_recorder r a)"
| st_record: "acct_step env a (acct_record env k f a)"
| st_captured: "s_sample_seq s \<notin> set (ac_pending_decisions a) \<Longrightarrow> acct_step env a (captured env s a)"
| st_undecided: "acct_step env a (snd (undecided env s reason ov a))"
| st_decided: "(admitted \<longrightarrow> selected) \<Longrightarrow> acct_step env a (snd (decided env s selected admitted why a))"
| st_recovery: "acct_step env a (acct_recovery env a)"
| st_restored: "acct_step env a (restored env e a)"
| st_materialized: "acct_step env a (snd (materialized env seq mid a))"
| st_committed: "acct_step env a (committed_acct env e a)"
| st_terminal: "acct_step env a (terminal_acct env e src a)"
| st_removed: "removal_guard e stored \<Longrightarrow> acct_step env a (removed env e stored pruned a)"
| st_abandon: "acct_step env a (abandon_acct env samples seqs a)"
| st_snapshot: "acct_step env a (snd (snapshot_acct m a))"

inductive_cases acct_stepE: "acct_step env a b"

definition acct_init :: "acct \<Rightarrow> bool" where
  "acct_init a \<longleftrightarrow> (\<exists>b g m. acct_new b g m = Inr a)"

lemma ledger_incomplete: "ledger_ok a \<Longrightarrow> ledger_ok (incomplete t v a)"
  by (auto simp: ledger_ok_def)

lemma ledger_attach: "ledger_ok a \<Longrightarrow> ledger_ok (attach_recorder r a)"
  by (erule ledger_cong) (simp_all add: attach_recorder_def)

lemmas ledger_intros = ledger_incomplete ledger_attach ledger_record ledger_captured ledger_undecided
  ledger_decided ledger_recovery ledger_restored ledger_materialized ledger_committed ledger_terminal
  ledger_removed ledger_abandon ledger_snapshot

lemma acct_step_ledger: "acct_step env a b \<Longrightarrow> ledger_ok a \<Longrightarrow> ledger_ok b"
  by (induction rule: acct_step.induct) (blast intro: ledger_intros ledger_add_other)+

lemma tables_incomplete: "tables_ok env a \<Longrightarrow> tables_ok env (incomplete t v a)"
  by (erule tables_cong) simp_all

lemma tables_attach: "tables_ok env a \<Longrightarrow> tables_ok env (attach_recorder r a)"
  by (erule tables_cong) (simp_all add: attach_recorder_def)

lemma tables_snapshot: "tables_ok env a \<Longrightarrow> tables_ok env (snd (snapshot_acct m a))"
  by (erule tables_cong) (simp_all add: snapshot_acct_def Let_def split: option.split)

lemmas tables_intros = tables_add tables_incomplete tables_attach tables_record tables_captured tables_undecided
  tables_decided tables_recovery tables_restored tables_materialized tables_committed tables_terminal
  tables_removed tables_abandon tables_snapshot

lemma acct_step_tables: "acct_step env a b \<Longrightarrow> tables_ok env a \<Longrightarrow> tables_ok env b"
  by (induction rule: acct_step.induct) (blast intro: tables_intros)+

interpretation ledger: invariant_system acct_init "acct_step env" ledger_ok for env
  by unfold_locales
    (auto simp: acct_init_def acct_new_def ledger_ok_def split: if_splits dest: acct_step_ledger)

interpretation tables: invariant_system acct_init "acct_step env" "tables_ok env" for env
  by unfold_locales
    (auto simp: acct_init_def acct_new_def tables_ok_def split: if_splits dest: acct_step_tables)

section \<open>The effect of the metadata bound\<close>

lemma bound_physical_le: "length (ac_physical (bound_physical env a)) \<le> 2000"
proof (induction env a rule: bound_physical.induct)
  case (1 env a)
  show ?case
  proof (cases "ac_physical a")
    case Nil
    then show ?thesis by (subst bound_physical.simps) simp
  next
    case (Cons p rest)
    obtain k t charge where p: "p = (k, (t, charge))" by (cases p) auto
    show ?thesis
      using Cons p "1.IH" [OF Cons p [symmetric] refl]
      by (subst bound_physical.simps) (auto simp: not_less)
  qed
qed

lemma bound_physical_drained: "over_bound env (bound_physical env a) \<Longrightarrow> ac_physical (bound_physical env a) = []"
proof (induction env a rule: bound_physical.induct)
  case (1 env a)
  show ?case
  proof (cases "ac_physical a")
    case Nil
    then show ?thesis by (subst bound_physical.simps) simp
  next
    case (Cons p rest)
    obtain k t charge where p: "p = (k, (t, charge))" by (cases p) auto
    show ?thesis
    proof (cases "length (ac_physical a) > 2000 \<or> over_bound env a")
      case True
      let ?b = "a\<lparr>ac_physical := rest, ac_physical_bytes := ac_physical_bytes a - int charge,
          ac_complete := False, ac_truncated := True\<rparr>"
      have eq: "bound_physical env a = bound_physical env ?b"
        using Cons p True by (subst bound_physical.simps) simp
      show ?thesis
        using "1.IH" [OF Cons p [symmetric] refl True] "1.prems" unfolding eq by simp
    next
      case False
      then have "bound_physical env a = a" using Cons p by (subst bound_physical.simps) simp
      with False "1.prems" show ?thesis by simp
    qed
  qed
qed

lemma bound_gaps_drained: "over_bound env (bound_gaps env a) \<Longrightarrow> ac_gaps (bound_gaps env a) = []"
proof (induction env a rule: bound_gaps.induct)
  case (1 env a)
  show ?case
  proof (cases "ac_gaps a")
    case Nil
    then show ?thesis by (subst bound_gaps.simps) simp
  next
    case (Cons g rest)
    show ?thesis
    proof (cases "over_bound env a")
      case True
      let ?b = "a\<lparr>ac_gaps := rest, ac_gap_bytes := ac_gap_bytes a - int (ae_gap_bytes env g + 64),
          ac_complete := False, ac_truncated := True\<rparr>"
      have eq: "bound_gaps env a = bound_gaps env ?b"
        using Cons True by (subst bound_gaps.simps) simp
      show ?thesis using "1.IH" [OF Cons True] "1.prems" unfolding eq by simp
    next
      case False
      then have "bound_gaps env a = a" using Cons by (subst bound_gaps.simps) simp
      with False "1.prems" show ?thesis by simp
    qed
  qed
qed

lemma bound_gaps_physical [simp]: "ac_physical (bound_gaps env a) = ac_physical a"
  by (rule bound_gaps_keeps [where P = "\<lambda>x. ac_physical x = ac_physical a"]) auto

lemma bound_gaps_idle: "\<not> over_bound env a \<Longrightarrow> bound_gaps env a = a"
  by (subst bound_gaps.simps) (simp split: list.split)

lemma decision_pending_subset:
  "set (ac_pending_decisions (acct_bound env a)) \<subseteq> set (ac_pending_decisions a)"
  by (rule acct_bound_keeps [where P = "\<lambda>x. set (ac_pending_decisions x) \<subseteq> set (ac_pending_decisions a)"]) auto

lemma gap_pending_subset: "set (ac_pending_decisions (acct_gap env r oc ss e a)) \<subseteq> set (ac_pending_decisions a)"
proof -
  have "set (ac_pending_decisions (acct_gap env r oc ss e a)) \<subseteq> set (ac_pending_decisions (acct_add gapRecordsTotal 1 a))"
    unfolding acct_gap_def Let_def acct_record_frame
    by (rule order.trans [OF decision_pending_subset]) (simp split: list.split)
  then show ?thesis by simp
qed

section \<open>Properties\<close>

text \<open>C17. Whenever accounting reports itself complete, nothing was lost track of: the captured
  events are exactly the selected, the filtered and the ones whose decision is still pending,
  and none was lost undecided. As long as no counter has saturated, every selected event is in
  exactly one place: pending delivery, known unsent, isolated, of uncertain delivery or
  confirmed stored, where an event confirmed after its expiry is counted once more as late.\<close>

theorem accounting_conserves_events:
  assumes "acct_init a0" "(acct_step env)\<^sup>*\<^sup>* a0 a"
  shows "(ac_complete a \<longrightarrow> ac_counters a capturedEventsTotal =
       ac_counters a eligibleEventsTotal + ac_counters a policyFilteredEventsTotal + length (ac_pending_decisions a))
    \<and> (\<not> ac_overflow a \<longrightarrow> int (ac_counters a eligibleEventsTotal) + int (ac_counters a lateStoredEventsTotal) =
       ac_pending a + int (ac_counters a knownUnsentEventsTotal) + int (ac_counters a isolatedEventsTotal)
       + int (ac_counters a uncertainDeliveryEventsTotal) + int (ac_counters a storedConfirmedEventsTotal))"
  using ledger.reachable_inv [OF assms] by (auto simp: ledger_ok_def)

definition demo_env :: acct_env where
  "demo_env = \<lparr>ae_uuid = (\<lambda>n. digits n), ae_gap_bytes = (\<lambda>_. 900), ae_phys_bytes = (\<lambda>_. 300),
     ae_set_bytes = (\<lambda>xs. 216 + 32 * length xs), ae_frozen_bytes = (\<lambda>d. 64 + 100 * length d), ae_fact_len = (\<lambda>_. 200)\<rparr>"

definition demo_sample :: "nat \<Rightarrow> Sample" where
  "demo_sample n = \<lparr>s_config_version = 1, s_device_id = ''D1'', s_point_id = ''P1'', s_timestamp = Some 1000,
     s_value = VNum (PyFloat 5), s_quality = GOOD, s_monotonic_time = Some 2, s_capture_boot_id = Some ''boot-1'',
     s_sample_seq = Some n, s_nominal_poll_due_mono_ms = Some 2000, s_completed_mono_ms = Some 2000,
     s_kind = PHYSICAL_RESULT, s_nominal_origin_mono_ms = Some 0, s_config_generation = 1, s_time_generation = 0,
     s_time_valid = False, s_clock_revision = 0, s_time_source = ''SYSTEM_RTC_COMPAT'', s_gateway_id = Some ''PLC-01''\<rparr>"

definition demo_acct :: acct where
  "demo_acct = projr (acct_new ''boot-1'' 64 1048576)"

lemma demo_acct_init: "acct_init demo_acct"
proof -
  have "acct_new ''boot-1'' 64 1048576 = Inr demo_acct" by (simp add: demo_acct_def acct_new_def)
  then show ?thesis unfolding acct_init_def by blast
qed

theorem accounting_conserves_events_witness:
  "ac_counters (captured demo_env (demo_sample 1) demo_acct) capturedEventsTotal = 1
   \<and> ac_complete (captured demo_env (demo_sample 1) demo_acct)
   \<and> length (ac_pending_decisions (captured demo_env (demo_sample 1) demo_acct)) = 1"
proof -
  let ?a = "captured demo_env (demo_sample 1) demo_acct"
  have "(acct_step demo_env)\<^sup>*\<^sup>* demo_acct ?a"
    by (intro r_into_rtranclp acct_step.st_captured) (simp add: demo_acct_def acct_new_def)
  from accounting_conserves_events [OF demo_acct_init this]
  have c: "ac_complete ?a \<Longrightarrow> ac_counters ?a capturedEventsTotal =
      ac_counters ?a eligibleEventsTotal + ac_counters ?a policyFilteredEventsTotal + length (ac_pending_decisions ?a)"
    by blast
  have "?a = ?a" ..
  moreover have "ac_complete ?a" "length (ac_pending_decisions ?a) = 1"
    "ac_counters ?a eligibleEventsTotal = 0" "ac_counters ?a policyFilteredEventsTotal = 0"
    by (simp_all add: captured_def demo_acct_def acct_new_def demo_sample_def demo_env_def remember_pending_def
        remember_physical_def acct_bound_def bound_physical.simps bound_gaps.simps over_bound_def metadata_bytes_def
        Let_def acct_record_def MAX_SAFE_def acct_add_def)
  ultimately show ?thesis using c by simp
qed

text \<open>Metadata stays bounded: the table of last physical results never exceeds 2000
  entries after a bound is applied, and if the byte limit is still exceeded then everything
  that can be dropped was dropped (last results, gap records and pending decisions), which is
  reported as incomplete and truncated. In every reachable state the byte gauges are exact and
  at most the configured number of gap records is kept.\<close>

theorem accounting_metadata_bounded:
  assumes "acct_init a0" "(acct_step env)\<^sup>*\<^sup>* a0 a"
  shows "length (ac_physical (acct_bound env a)) \<le> 2000
    \<and> (over_bound env (acct_bound env a) \<longrightarrow> ac_physical (acct_bound env a) = [] \<and> ac_gaps (acct_bound env a) = []
         \<and> ac_pending_decisions (acct_bound env a) = [] \<and> ac_truncated (acct_bound env a) \<and> \<not> ac_complete (acct_bound env a))
    \<and> ac_physical_bytes a = dsum (int \<circ> snd) (ac_physical a) \<and> length (ac_gaps a) \<le> ac_max_gaps a"
proof -
  let ?g = "bound_gaps env (bound_physical env a)"
  have same: "ac_physical (acct_bound env a) = ac_physical ?g" "ac_gaps (acct_bound env a) = ac_gaps ?g"
    by (auto simp: acct_bound_def Let_def)
  have "ac_physical (acct_bound env a) = [] \<and> ac_gaps (acct_bound env a) = []
      \<and> ac_pending_decisions (acct_bound env a) = [] \<and> ac_truncated (acct_bound env a) \<and> \<not> ac_complete (acct_bound env a)"
    if over: "over_bound env (acct_bound env a)"
  proof -
    have g: "over_bound env ?g"
      using over by (cases "over_bound env ?g") (auto simp: acct_bound_def Let_def)
    have "over_bound env (bound_physical env a)"
      using g bound_gaps_idle by metis
    with g show ?thesis
      using bound_gaps_drained bound_physical_drained by (auto simp: acct_bound_def Let_def)
  qed
  then show ?thesis
    using tables.reachable_inv [OF assms] bound_physical_le [of env a] same
    by (auto simp: tables_ok_def)
qed

theorem accounting_metadata_bounded_witness:
  "length (ac_physical (acct_bound demo_env demo_acct)) \<le> 2000 \<and> acct_init demo_acct"
  using accounting_metadata_bounded [OF demo_acct_init rtranclp.rtrancl_refl] demo_acct_init by blast

text \<open>An event is decided at most once: after a decision was accounted for, a second
  decision or loss report for the same event is refused and leaves the accounts untouched.\<close>

theorem event_decided_once:
  assumes "distinct (ac_pending_decisions a)" "fst (decided env s selected admitted reason a)"
  shows "undecided env s reason' ov (snd (decided env s selected admitted reason a))
           = (False, snd (decided env s selected admitted reason a))
    \<and> decided env s sel' adm' why (snd (decided env s selected admitted reason a))
           = (False, snd (decided env s selected admitted reason a))"
proof -
  obtain a1 where a1: "decision s a = (True, a1)"
    using assms(2) by (cases "decision s a") (auto simp: decided_def Let_def split: if_splits)
  then have gone: "s_sample_seq s \<notin> set (ac_pending_decisions a1)"
    using assms(1) by (auto simp: decision_def split: if_splits)
  have rc: "ac_pending_decisions (reason_counters reason b) = ac_pending_decisions b" for b
    by (simp add: reason_counters_def Let_def)
  have gp: "set (ac_pending_decisions (acct_gap env r KNOWN_UNSENT [s] None (reason_counters reason b)))
      \<subseteq> set (ac_pending_decisions b)" for r b
    using gap_pending_subset [of env r KNOWN_UNSENT "[s]" None "reason_counters reason b"] by (simp add: rc)
  have "set (ac_pending_decisions (snd (decided env s selected admitted reason a))) \<subseteq> set (ac_pending_decisions a1)"
    using a1 gp [of _ "acct_add knownUnsentEventsTotal 1 (acct_add eligibleEventsTotal 1 a1)"]
    by (simp add: decided_def Let_def)
  with gone have "decision s (snd (decided env s selected admitted reason a)) =
      (False, snd (decided env s selected admitted reason a))"
    by (auto simp: decision_def)
  then show ?thesis by (simp add: undecided_def decided_def Let_def)
qed

theorem event_decided_once_witness:
  "fst (decided demo_env (demo_sample 1) False False None (captured demo_env (demo_sample 1) demo_acct))
   \<and> \<not> fst (decided demo_env (demo_sample 1) True True None
        (snd (decided demo_env (demo_sample 1) False False None (captured demo_env (demo_sample 1) demo_acct))))"
proof -
  let ?a = "captured demo_env (demo_sample 1) demo_acct"
  have p: "ac_pending_decisions ?a = [Some 1] \<and> ac_boot_id ?a = ''boot-1''"
    by (simp add: captured_def demo_acct_def acct_new_def demo_sample_def demo_env_def remember_pending_def
        remember_physical_def acct_bound_def bound_physical.simps bound_gaps.simps over_bound_def metadata_bytes_def
        Let_def acct_record_def MAX_SAFE_def acct_add_def)
  have d: "fst (decided demo_env (demo_sample 1) False False None ?a)"
    using p by (simp add: decided_def decision_def demo_sample_def Let_def)
  show ?thesis
    using d event_decided_once [OF _ d, of _ _ True True None] p by simp
qed

end
