(* ===== verification/Boot.thy ===== *)
theory Boot
  imports Accounting
begin

text \<open>
  The state one Agent process owns across local reloads: \<open>ProcessBootContext\<close> of
  \<^verbatim>\<open>core/boot.py\<close>, with the sequence allocators, and the data other components park in it
  (the point sources of \<^verbatim>\<open>points/events.py\<close>, the report checkpoint of
  \<^verbatim>\<open>reporting/engine.py\<close>). Also the clock readings of \<^verbatim>\<open>core/sample_time.py\<close> and the
  sample context of \<^verbatim>\<open>devices/runtime.py\<close>.
\<close>

section \<open>Definitions\<close>

record CaptureTime =
  ct_utc_ms :: "int option"
  ct_time_valid :: bool
  ct_clock_revision :: int
  ct_generation :: int
  ct_source :: string
  ct_generation_started_mono_ms :: "int option"

text \<open>The legacy source: the system clock, never claimed to be synchronised.\<close>

definition system_rtc_read :: "int \<Rightarrow> int \<Rightarrow> CaptureTime" where
  "system_rtc_read time_ns completed_mono_ms =
     \<lparr>ct_utc_ms = Some (time_ns div 1000000), ct_time_valid = False, ct_clock_revision = 0, ct_generation = 0,
      ct_source = ''SYSTEM_RTC_COMPAT'', ct_generation_started_mono_ms = None\<rparr>"

record SampleContext =
  sc_config_version :: nat
  sc_device :: DeviceConfig
  sc_generation :: int
  sc_gateway_id :: string

text \<open>What a \<open>PointEvents\<close> instance holds; the boot context keeps the same dictionaries per
  device, so that a restarted runner continues them. The dictionary \<open>plan\<close> has three keys, one
  field each.\<close>

record PointEvents =
  pe_context :: "SampleContext option"
  pe_origins :: "(string, rat) dict"
  pe_last_result :: "(string, rat) dict"
  pe_quality :: "(string, quality) dict"
  pe_plan_modbus :: "rat list option"
  pe_plan_opcua :: "(string, rat) dict option"
  pe_next_nominal :: "(string, rat) dict option"
  pe_time_epochs :: "(string, int) dict"
  pe_latest :: "(string, Sample) dict"

type_synonym point_key = "string \<times> string"
type_synonym epoch = "nat \<times> int \<times> int"

record report_checkpoint =
  rk_identity :: "ConfigSnapshot option \<times> int option"
  rk_baselines :: "(point_key, Sample \<times> rat) dict"
  rk_epochs :: "(point_key, epoch) dict"
  rk_seen :: "(point_key, nat) dict"
  rk_next_due :: "(point_key, int) dict"

record ProcessBootContext =
  bt_boot_id :: string
  bt_started_at :: rat
  bt_sequence :: nat
  bt_sample_sequence :: nat
  bt_sampling_snapshot :: "ConfigSnapshot option"
  bt_sampling_generation :: int
  bt_sampling_published_at :: rat
  bt_point_sources :: "(string, PointEvents) dict"
  bt_point_sources_owner :: "(string \<times> nat) option"
  bt_report_checkpoint :: "report_checkpoint option"
  bt_accounting :: acct

definition boot_new :: "string \<Rightarrow> rat \<Rightarrow> ProcessBootContext res" where
  "boot_new boot_id started_at =
     rbind (acct_new boot_id 64 (1024 * 1024)) (\<lambda>a. Inr
       \<lparr>bt_boot_id = boot_id, bt_started_at = started_at, bt_sequence = 0, bt_sample_sequence = 0,
        bt_sampling_snapshot = None, bt_sampling_generation = 0, bt_sampling_published_at = 0,
        bt_point_sources = [], bt_point_sources_owner = None, bt_report_checkpoint = None, bt_accounting = a\<rparr>)"

definition next_sample_sequence :: "ProcessBootContext \<Rightarrow> (nat \<times> ProcessBootContext) res" where
  "next_sample_sequence b =
     (if MAX_SAFE \<le> bt_sample_sequence b
      then Inl (ValueError ''Sample sequence exhausted for this process boot'')
      else Inr (bt_sample_sequence b + 1, b\<lparr>bt_sample_sequence := bt_sample_sequence b + 1\<rparr>))"

definition next_sequence :: "ProcessBootContext \<Rightarrow> (nat \<times> ProcessBootContext) res" where
  "next_sequence b =
     (if MAX_SAFE \<le> bt_sequence b
      then Inl (ValueError ''Telemetry sequence exhausted for this process boot'')
      else Inr (bt_sequence b + 1, b\<lparr>bt_sequence := bt_sequence b + 1\<rparr>))"

definition boot_account :: "(acct \<Rightarrow> acct) \<Rightarrow> ProcessBootContext \<Rightarrow> ProcessBootContext" where
  "boot_account f b = b\<lparr>bt_accounting := f (bt_accounting b)\<rparr>"

section \<open>Allocation of identities\<close>

lemma next_sample_sequenceD:
  "next_sample_sequence b = Inr (n, b') \<Longrightarrow>
     n = bt_sample_sequence b + 1 \<and> 1 \<le> n \<and> n \<le> MAX_SAFE \<and> b' = b\<lparr>bt_sample_sequence := n\<rparr>"
  by (auto simp: next_sample_sequence_def split: if_splits)

lemma next_sequenceD:
  "next_sequence b = Inr (n, b') \<Longrightarrow>
     n = bt_sequence b + 1 \<and> 1 \<le> n \<and> n \<le> MAX_SAFE \<and> b' = b\<lparr>bt_sequence := n\<rparr>"
  by (auto simp: next_sequence_def split: if_splits)

text \<open>\<open>k\<close> allocations in a row.\<close>

fun sequences :: "nat \<Rightarrow> ProcessBootContext \<Rightarrow> nat list" where
  "sequences 0 b = []"
| "sequences (Suc k) b = (case next_sequence b of Inl _ \<Rightarrow> [] | Inr (n, b') \<Rightarrow> n # sequences k b')"

lemma sequences_Suc [simp]:
  "sequences (Suc k) b =
     (if MAX_SAFE \<le> bt_sequence b then []
      else (bt_sequence b + 1) # sequences k (b\<lparr>bt_sequence := bt_sequence b + 1\<rparr>))"
  by (simp add: next_sequence_def)

declare sequences.simps(2) [simp del]

lemma sequences_lower: "n \<in> set (sequences k b) \<Longrightarrow> bt_sequence b < n \<and> n \<le> MAX_SAFE"
  by (induction k arbitrary: b) (fastforce split: if_splits)+

lemma sequences_strict: "sorted_wrt (<) (sequences k b)"
  by (induction k arbitrary: b) (auto dest: sequences_lower)

end
