(* ===== verification/ReadPlan.thy ===== *)
theory ReadPlan
  imports Models
begin

text \<open>
  Read planning and slot counting: \<^verbatim>\<open>points/read_plan.py\<close> (\<open>width\<close>, \<open>plan_reads\<close>) and
  \<^verbatim>\<open>points/slots.py\<close> (\<open>skipped_after\<close>, \<open>skipped_before\<close>). The plan is shown to be a
  partition of the enabled points in sort order into blocks that have no hole, split no
  value and respect the protocol's request limit; the slot counters are shown to count
  exactly the nominal slots that were passed over.
\<close>

section \<open>Definitions\<close>

definition width :: "PointConfig \<Rightarrow> int" where
  "width p = (if pc_data_type p \<in> {''int32'', ''uint32'', ''float32''} then 2 else 1)"

record ReadBlock =
  rb_area :: string
  rb_address :: int
  rb_count :: int
  rb_poll_interval_ms :: int
  rb_points :: "PointConfig list"

definition area_limit :: "string \<Rightarrow> int" where
  "area_limit a = (if a \<in> {''coil'', ''discrete_input''} then 2000 else 125)"

text \<open>The body of the loop: extend the last block or open a new one.\<close>

definition plan_step :: "ReadBlock list \<Rightarrow> PointConfig \<times> ModbusAddress \<Rightarrow> ReadBlock list" where
  "plan_step blocks pa =
     (let point = fst pa; area = mb_area (snd pa); address = mb_address (snd pa);
          finish = address + width point;
          fresh = blocks @ [\<lparr>rb_area = area, rb_address = address, rb_count = width point,
                     rb_poll_interval_ms = pc_poll_interval_ms point, rb_points = [point]\<rparr>]
      in if blocks = [] then fresh
         else let old = last blocks
              in if rb_area old = area \<and> rb_poll_interval_ms old = pc_poll_interval_ms point
                    \<and> address \<le> rb_address old + rb_count old
                    \<and> finish - rb_address old \<le> area_limit area
                 then butlast blocks @ [\<lparr>rb_area = area, rb_address = rb_address old,
                        rb_count = max (rb_count old) (finish - rb_address old),
                        rb_poll_interval_ms = rb_poll_interval_ms old,
                        rb_points = rb_points old @ [point]\<rparr>]
                 else fresh)"

definition plan_key :: "PointConfig \<times> ModbusAddress \<Rightarrow> string \<times> int \<times> int \<times> string" where
  "plan_key pa = (mb_area (snd pa), pc_poll_interval_ms (fst pa), mb_address (snd pa), pc_point_id (fst pa))"

text \<open>The enabled points with their Modbus addresses; a point without one raises.\<close>

definition plan_input :: "PointConfig list \<Rightarrow> (PointConfig \<times> ModbusAddress) list res" where
  "plan_input points =
     (let enabled = filter pc_enabled points
      in if \<exists>p \<in> set enabled. pc_modbus p = None then Inl AttributeError
         else Inr (map (\<lambda>p. (p, the (pc_modbus p))) enabled))"

definition plan_reads :: "PointConfig list \<Rightarrow> ReadBlock list res" where
  "plan_reads points =
     rbind (plan_input points) (\<lambda>ps. Inr (foldl plan_step [] (sort_key plan_key ps)))"

text \<open>\<^verbatim>\<open>round(x*1000)\<close> of a time in seconds.\<close>

definition ms :: "rat \<Rightarrow> int" where
  "ms x = py_round (x * 1000)"

definition skipped_after :: "rat \<Rightarrow> rat \<Rightarrow> rat \<Rightarrow> rat option \<Rightarrow> int res" where
  "skipped_after nominal completed interval retired_at =
     (let q = ms nominal; finish = ms completed; step = ms interval
      in if step = 0 then Inl ZeroDivisionError
         else case retired_at of
           Some r \<Rightarrow> (let finish = min finish (ms r) in Inr (max 0 ((finish - q + step - 1) div step - 1)))
         | None \<Rightarrow> Inr (max 0 ((finish - q) div step)))"

definition skipped_before :: "rat \<Rightarrow> rat \<Rightarrow> rat \<Rightarrow> int res" where
  "skipped_before nominal retired_at interval =
     (let q = ms nominal; finish = ms retired_at; step = ms interval
      in if step = 0 then Inl ZeroDivisionError
         else Inr (max 0 ((finish - q + step - 1) div step)))"

section \<open>What a block promises\<close>

text \<open>A block is well formed for a list of point/address pairs: it reads exactly their
  registers, each value whole, within the request limit.\<close>

definition inside :: "ReadBlock \<Rightarrow> PointConfig \<times> ModbusAddress \<Rightarrow> bool" where
  "inside b pa \<longleftrightarrow> mb_area (snd pa) = rb_area b \<and> pc_poll_interval_ms (fst pa) = rb_poll_interval_ms b
     \<and> rb_address b \<le> mb_address (snd pa)
     \<and> mb_address (snd pa) + width (fst pa) \<le> rb_address b + rb_count b"

definition covers :: "(PointConfig \<times> ModbusAddress) list \<Rightarrow> int \<Rightarrow> bool" where
  "covers pas r \<longleftrightarrow> (\<exists>pa \<in> set pas. mb_address (snd pa) \<le> r \<and> r < mb_address (snd pa) + width (fst pa))"

definition block_ok :: "ReadBlock \<Rightarrow> (PointConfig \<times> ModbusAddress) list \<Rightarrow> bool" where
  "block_ok b pas \<longleftrightarrow> rb_points b = map fst pas \<and> pas \<noteq> [] \<and> list_all (inside b) pas
     \<and> 1 \<le> rb_count b \<and> rb_count b \<le> area_limit (rb_area b)
     \<and> (\<forall>r. rb_address b \<le> r \<and> r < rb_address b + rb_count b \<longrightarrow> covers pas r)"

lemma width_bounds: "1 \<le> width p" "width p \<le> 2"
  by (simp_all add: width_def)

lemma area_limit_ge: "125 \<le> area_limit a"
  by (simp add: area_limit_def)

lemma block_ok_single:
  "block_ok \<lparr>rb_area = mb_area a, rb_address = mb_address a, rb_count = width p,
     rb_poll_interval_ms = pc_poll_interval_ms p, rb_points = [p]\<rparr> [(p, a)]"
  using width_bounds [of p] area_limit_ge [of "mb_area a"]
  by (auto simp: block_ok_def inside_def covers_def)

lemma covers_snoc:
  "covers (pas @ [pa]) r \<longleftrightarrow> covers pas r \<or> mb_address (snd pa) \<le> r \<and> r < mb_address (snd pa) + width (fst pa)"
  by (auto simp: covers_def)

lemma block_ok_extend:
  assumes ok: "block_ok b pas" and area: "rb_area b = mb_area a"
    and poll: "rb_poll_interval_ms b = pc_poll_interval_ms p"
    and low: "rb_address b \<le> mb_address a" and touch: "mb_address a \<le> rb_address b + rb_count b"
    and lim: "mb_address a + width p - rb_address b \<le> area_limit (mb_area a)"
  shows "block_ok \<lparr>rb_area = mb_area a, rb_address = rb_address b,
      rb_count = max (rb_count b) (mb_address a + width p - rb_address b),
      rb_poll_interval_ms = rb_poll_interval_ms b, rb_points = rb_points b @ [p]\<rparr> (pas @ [(p, a)])"
    (is "block_ok ?n _")
proof -
  have grow: "rb_count b \<le> rb_count ?n" by simp
  have "list_all (inside ?n) pas"
    using ok area by (force simp: block_ok_def list_all_iff inside_def)
  moreover have "inside ?n (p, a)"
    using poll low by (simp add: inside_def)
  moreover have "covers (pas @ [(p, a)]) r"
    if "rb_address b \<le> r" "r < rb_address b + rb_count ?n" for r
  proof (cases "r < rb_address b + rb_count b")
    case True
    with that ok show ?thesis by (simp add: block_ok_def covers_snoc)
  next
    case False
    with that touch show ?thesis by (auto simp: covers_snoc max_def split: if_splits)
  qed
  ultimately show ?thesis
    using ok area lim by (auto simp: block_ok_def)
qed

section \<open>The plan partitions the sorted points\<close>

text \<open>\<open>plan_rel blocks groups\<close>: the blocks are well formed for consecutive groups.\<close>

definition plan_rel :: "ReadBlock list \<Rightarrow> (PointConfig \<times> ModbusAddress) list list \<Rightarrow> bool" where
  "plan_rel blocks groups \<longleftrightarrow> list_all2 block_ok blocks groups"

text \<open>In sort order a later point of the last block's area and period starts no earlier.\<close>

definition above :: "ReadBlock list \<Rightarrow> PointConfig \<times> ModbusAddress \<Rightarrow> bool" where
  "above blocks pa \<longleftrightarrow> blocks = [] \<or>
     (mb_area (snd pa) = rb_area (last blocks) \<and> pc_poll_interval_ms (fst pa) = rb_poll_interval_ms (last blocks)
       \<longrightarrow> rb_address (last blocks) \<le> mb_address (snd pa))"

lemma plan_step_rel:
  assumes rel: "plan_rel blocks groups" and up: "above blocks pa"
  shows "\<exists>groups'. plan_rel (plan_step blocks pa) groups' \<and> concat groups' = concat groups @ [pa]"
proof (cases blocks rule: rev_exhaust)
  case Nil
  with rel have "groups = []" by (simp add: plan_rel_def)
  then show ?thesis
    using Nil block_ok_single [of "snd pa" "fst pa"]
    by (intro exI [of _ "[[pa]]"]) (simp add: plan_rel_def plan_step_def Let_def)
next
  case (snoc bs b)
  with rel obtain gs g where g: "groups = gs @ [g]" "list_all2 block_ok bs gs" "block_ok b g"
    by (auto simp: plan_rel_def list_all2_append1 list_all2_Cons1)
  show ?thesis
  proof (cases "rb_area b = mb_area (snd pa) \<and> rb_poll_interval_ms b = pc_poll_interval_ms (fst pa)
      \<and> mb_address (snd pa) \<le> rb_address b + rb_count b
      \<and> mb_address (snd pa) + width (fst pa) - rb_address b \<le> area_limit (mb_area (snd pa))")
    case True
    with up snoc have "rb_address b \<le> mb_address (snd pa)" by (simp add: above_def)
    with True g(3) block_ok_extend [of b g "snd pa" "fst pa"]
    show ?thesis using g snoc
      by (intro exI [of _ "gs @ [g @ [pa]]"])
        (simp add: plan_rel_def plan_step_def Let_def list_all2_appendI)
  next
    case False
    then have "plan_step blocks pa = blocks @ [\<lparr>rb_area = mb_area (snd pa), rb_address = mb_address (snd pa),
        rb_count = width (fst pa), rb_poll_interval_ms = pc_poll_interval_ms (fst pa), rb_points = [fst pa]\<rparr>]"
      using snoc by (simp add: plan_step_def Let_def)
    then show ?thesis
      using block_ok_single [of "snd pa" "fst pa"] rel
      by (intro exI [of _ "groups @ [[pa]]"]) (simp add: plan_rel_def list_all2_appendI)
  qed
qed

lemma plan_step_last:
  "plan_step blocks pa \<noteq> [] \<and> rb_area (last (plan_step blocks pa)) = mb_area (snd pa)
   \<and> rb_poll_interval_ms (last (plan_step blocks pa)) = pc_poll_interval_ms (fst pa)
   \<and> (above blocks pa \<longrightarrow> rb_address (last (plan_step blocks pa)) \<le> mb_address (snd pa))"
  by (auto simp: plan_step_def Let_def above_def)

lemma above_step:
  assumes "plan_key pa \<le> plan_key pb" "above blocks pa"
  shows "above (plan_step blocks pa) pb"
  using assms plan_step_last [of blocks pa]
  by (auto simp: above_def plan_key_def less_eq_prod_def)

lemma plan_fold_rel:
  assumes "sorted (map plan_key pas)" "plan_rel blocks groups" "pas \<noteq> [] \<Longrightarrow> above blocks (hd pas)"
  shows "\<exists>groups'. plan_rel (foldl plan_step blocks pas) groups' \<and> concat groups' = concat groups @ pas"
  using assms
proof (induction pas arbitrary: blocks groups)
  case Nil
  then show ?case by auto
next
  case (Cons pa pas)
  from Cons.prems have up: "above blocks pa" by simp
  obtain g1 where g1: "plan_rel (plan_step blocks pa) g1" "concat g1 = concat groups @ [pa]"
    using plan_step_rel [OF Cons.prems(2) up] by blast
  have "above (plan_step blocks pa) (hd pas)" if "pas \<noteq> []"
    using that Cons.prems(1) up by (cases pas) (auto intro: above_step)
  then obtain g2 where "plan_rel (foldl plan_step (plan_step blocks pa) pas) g2" "concat g2 = concat g1 @ pas"
    using Cons.IH [of "plan_step blocks pa" g1] Cons.prems(1) g1(1) by auto
  then show ?case using g1(2) by auto
qed

lemma plan_reads_groups:
  assumes "plan_reads points = Inr blocks"
  obtains pas groups where "plan_input points = Inr pas" "list_all2 block_ok blocks groups"
    "concat groups = sort_key plan_key pas"
proof -
  from assms obtain pas where pas: "plan_input points = Inr pas"
    and blocks: "blocks = foldl plan_step [] (sort_key plan_key pas)"
    by (auto simp: plan_reads_def res_simps)
  have "sorted (map plan_key (sort_key plan_key pas))" by simp
  from plan_fold_rel [OF this, of "[]" "[]"] obtain groups
    where "plan_rel blocks groups" "concat groups = sort_key plan_key pas"
    by (auto simp: blocks plan_rel_def above_def)
  with pas show ?thesis by (auto simp: plan_rel_def intro: that)
qed

lemma block_ok_points: "list_all2 block_ok blocks groups \<Longrightarrow> concat (map rb_points blocks) = map fst (concat groups)"
  by (induction rule: list_all2_induct) (auto simp: block_ok_def)

section \<open>Counting slots\<close>

lemma slots_le:
  assumes "0 < (step::int)"
  shows "{k::nat. 1 \<le> k \<and> q + int k * step \<le> e} = {1..nat (max 0 ((e - q) div step))}"
proof -
  have "q + int k * step \<le> e \<longleftrightarrow> int k \<le> (e - q) div step" for k :: nat
    using le_div_iff [OF assms, of "int k" "e - q"] by linarith
  then have "{k::nat. 1 \<le> k \<and> q + int k * step \<le> e} = {k::nat. 1 \<le> k \<and> int k \<le> (e - q) div step}"
    by (simp only:)
  also have "\<dots> = {1..nat (max 0 ((e - q) div step))}"
    by (rule set_eqI) (simp add: le_nat_iff nat_le_iff, linarith?)
  finally show ?thesis .
qed

text \<open>The first multiple of the step at or past the end.\<close>

lemma ceil_div_le: "0 < (step::int) \<Longrightarrow> k < (x + step - 1) div step \<longleftrightarrow> k * step < x"
  using le_div_iff [of step "k + 1" "x + step - 1"] by (auto simp: algebra_simps)

lemma slots_less:
  assumes "0 < (step::int)"
  shows "{k::nat. m \<le> k \<and> q + int k * step < e} = {m..<nat (max 0 ((e - q + step - 1) div step))}"
proof -
  have "q + int k * step < e \<longleftrightarrow> int k < (e - q + step - 1) div step" for k :: nat
    using ceil_div_le [OF assms, of "int k" "e - q"] by linarith
  then have "{k::nat. m \<le> k \<and> q + int k * step < e} = {k::nat. m \<le> k \<and> int k < (e - q + step - 1) div step}"
    by (simp only:)
  also have "\<dots> = {m..<nat (max 0 ((e - q + step - 1) div step))}"
    by (rule set_eqI) (simp add: zless_nat_eq_int_zless, linarith?)
  finally show ?thesis .
qed

section \<open>Properties\<close>

text \<open>A read plan exists exactly when every enabled point has a Modbus address, and its
  blocks, in order, list each enabled point exactly once in the order (area, period, address,
  point id): no point is dropped, repeated or moved.\<close>

theorem plan_reads_partition:
  "((\<exists>blocks. plan_reads points = Inr blocks) \<longleftrightarrow> (\<forall>p \<in> set points. pc_enabled p \<longrightarrow> pc_modbus p \<noteq> None))
   \<and> (\<forall>blocks. plan_reads points = Inr blocks \<longrightarrow>
        concat (map rb_points blocks) =
          map fst (sort_key plan_key (map (\<lambda>p. (p, the (pc_modbus p))) (filter pc_enabled points))))"
proof (intro conjI allI impI)
  show "(\<exists>blocks. plan_reads points = Inr blocks) \<longleftrightarrow> (\<forall>p \<in> set points. pc_enabled p \<longrightarrow> pc_modbus p \<noteq> None)"
    by (auto simp: plan_reads_def plan_input_def Let_def)
next
  fix blocks assume "plan_reads points = Inr blocks"
  then obtain pas groups where "plan_input points = Inr pas" "list_all2 block_ok blocks groups"
    "concat groups = sort_key plan_key pas"
    by (rule plan_reads_groups)
  moreover from this have "pas = map (\<lambda>p. (p, the (pc_modbus p))) (filter pc_enabled points)"
    by (auto simp: plan_input_def Let_def split: if_splits)
  ultimately show "concat (map rb_points blocks) =
      map fst (sort_key plan_key (map (\<lambda>p. (p, the (pc_modbus p))) (filter pc_enabled points)))"
    using block_ok_points by metis
qed

definition demo_point :: "string \<Rightarrow> string \<Rightarrow> int \<Rightarrow> PointConfig" where
  "demo_point pid ty adr = \<lparr>pc_point_id = pid, pc_name = pid, pc_enabled = True, pc_data_type = ty,
     pc_poll_interval_ms = 1000, pc_scale = PyInt 1, pc_offset = PyInt 0, pc_unit = None,
     pc_report_mode = ''change'', pc_report_interval_ms = 1000, pc_deadband = PyInt 0,
     pc_stale_after_ms = 3000,
     pc_modbus = Some \<lparr>mb_area = ''holding_register'', mb_address = adr, mb_byte_order = Some ''ABCD''\<rparr>,
     pc_opcua = None\<rparr>"

theorem plan_reads_partition_witness:
  "\<exists>blocks. plan_reads [demo_point ''b'' ''int16'' 12, demo_point ''a'' ''int32'' 10] = Inr blocks
     \<and> concat (map rb_points blocks) = [demo_point ''a'' ''int32'' 10, demo_point ''b'' ''int16'' 12]"
  using plan_reads_partition [of "[demo_point ''b'' ''int16'' 12, demo_point ''a'' ''int32'' 10]"]
  by (auto simp: demo_point_def plan_key_def)

text \<open>C35. Every block of a plan reads its points' registers and nothing else: each point of
  the block lies wholly inside it (no multi-register value is split over two requests), every
  register of the block belongs to one of its points (no holes), the points share the block's
  area and poll period, and the request stays within the protocol's limit.\<close>

theorem plan_reads_blocks_exact:
  assumes plan: "plan_reads points = Inr blocks" and b: "b \<in> set blocks"
  shows "1 \<le> rb_count b \<and> rb_count b \<le> area_limit (rb_area b) \<and> rb_points b \<noteq> []
    \<and> (\<forall>p \<in> set (rb_points b). \<exists>a. pc_modbus p = Some a \<and> inside b (p, a))
    \<and> (\<forall>r. rb_address b \<le> r \<and> r < rb_address b + rb_count b \<longrightarrow>
      (\<exists>p \<in> set (rb_points b). \<exists>a. pc_modbus p = Some a \<and> mb_address a \<le> r \<and> r < mb_address a + width p))"
proof -
  obtain pas groups where pas: "plan_input points = Inr pas"
    and all: "list_all2 block_ok blocks groups" and cat: "concat groups = sort_key plan_key pas"
    using plan by (rule plan_reads_groups)
  obtain g where g: "g \<in> set groups" "block_ok b g"
    using all b by (metis in_set_conv_nth list_all2_conv_all_nth)
  have "set g \<subseteq> set pas"
    using g(1) cat by (metis Union_upper set_concat set_sort image_eqI)
  then have snd_g: "pc_modbus (fst pa) = Some (snd pa)" if "pa \<in> set g" for pa
    using that pas by (fastforce simp: plan_input_def Let_def split: if_splits)
  have "\<forall>p \<in> set (rb_points b). \<exists>a. pc_modbus p = Some a \<and> inside b (p, a)"
    using g(2) snd_g by (force simp: block_ok_def list_all_iff)
  moreover have "\<forall>r. rb_address b \<le> r \<and> r < rb_address b + rb_count b \<longrightarrow>
      (\<exists>p \<in> set (rb_points b). \<exists>a. pc_modbus p = Some a \<and> mb_address a \<le> r \<and> r < mb_address a + width p)"
    using g(2) snd_g by (force simp: block_ok_def covers_def)
  ultimately show ?thesis
    using g(2) by (auto simp: block_ok_def)
qed

theorem plan_reads_blocks_exact_witness:
  "\<exists>b. plan_reads [demo_point ''a'' ''int32'' 10] = Inr [b] \<and> 1 \<le> rb_count b \<and> rb_address b = 10
     \<and> (\<exists>p \<in> set (rb_points b). \<exists>a. pc_modbus p = Some a \<and> mb_address a \<le> 11 \<and> 11 < mb_address a + width p)"
proof -
  let ?b = "\<lparr>rb_area = ''holding_register'', rb_address = 10, rb_count = 2, rb_poll_interval_ms = 1000,
    rb_points = [demo_point ''a'' ''int32'' 10]\<rparr>"
  have plan: "plan_reads [demo_point ''a'' ''int32'' 10] = Inr [?b]"
    by (simp add: plan_reads_def plan_input_def demo_point_def plan_step_def width_def)
  show ?thesis
    using plan_reads_blocks_exact [OF plan, of ?b] plan by simp
qed

text \<open>After a read the skipped slots are counted exactly: the nominal slots after the
  one just read that fell at or before its completion, and under a retired configuration only
  those strictly before both the completion and the retirement. Rounding to milliseconds
  happens once per time, so slot numbers never drift with completion times.\<close>

theorem skipped_after_counts:
  assumes "0 < ms interval"
  shows "skipped_after nominal completed interval retired_at =
    Inr (int (card {k::nat. 1 \<le> k \<and> (let slot = ms nominal + int k * ms interval in
       case retired_at of None \<Rightarrow> slot \<le> ms completed
       | Some r \<Rightarrow> slot < ms completed \<and> slot < ms r)}))"
proof (cases retired_at)
  case None
  with assms slots_le [OF assms, of "ms nominal" "ms completed"] show ?thesis
    by (simp add: skipped_after_def Let_def)
next
  case (Some r)
  have "{k::nat. 1 \<le> k \<and> ms nominal + int k * ms interval < ms completed \<and> ms nominal + int k * ms interval < ms r}
      = {k::nat. 1 \<le> k \<and> ms nominal + int k * ms interval < min (ms completed) (ms r)}"
    by auto
  with Some assms slots_less [OF assms, of 1 "ms nominal" "min (ms completed) (ms r)"] show ?thesis
    by (simp add: skipped_after_def Let_def)
qed

theorem skipped_after_counts_witness:
  "0 < ms (1 / 2) \<and> skipped_after 10 (57 / 5) (1 / 2) None = Inr 2
   \<and> card {k::nat. 1 \<le> k \<and> ms 10 + int k * ms (1 / 2) \<le> ms (57 / 5)} = 2"
proof -
  have h: "0 < ms (1 / 2)" by (simp add: ms_def)
  have v: "skipped_after 10 (57 / 5) (1 / 2) None = Inr 2"
    by (simp add: skipped_after_def ms_def)
  show ?thesis using h v skipped_after_counts [OF h, of 10 "57 / 5" None] by simp
qed

text \<open>When an OPC UA plan is replaced, the slots of the old plan from its next nominal
  slot up to, and not including, the publication of the new one are counted exactly.\<close>

theorem skipped_before_counts:
  assumes "0 < ms interval"
  shows "skipped_before nominal retired_at interval =
    Inr (int (card {k::nat. ms nominal + int k * ms interval < ms retired_at}))"
  using assms slots_less [OF assms, of 0 "ms nominal" "ms retired_at"]
  by (simp add: skipped_before_def Let_def)

theorem skipped_before_counts_witness:
  "0 < ms 1 \<and> skipped_before 3 5 1 = Inr 2 \<and> card {k::nat. ms 3 + int k * ms 1 < ms 5} = 2"
proof -
  have h: "0 < ms 1" by (simp add: ms_def)
  have v: "skipped_before 3 5 1 = Inr 2" by (simp add: skipped_before_def ms_def)
  show ?thesis using h v skipped_before_counts [OF h, of 3 5] by simp
qed

end
