(* ===== verification/Samples.thy ===== *)
theory Samples
  imports Boot ReadPlan
begin

text \<open>
  Capture of events and the bounded ingress queue: \<open>SampleBuffer\<close> of
  \<^verbatim>\<open>points/samples.py\<close> and the per-runner state machine \<open>PointEvents\<close> of
  \<^verbatim>\<open>points/events.py\<close>. The retained size of an event and the readings of the injected time
  provider are parameters (\<open>cap_env\<close>); the provider is indexed by the number of events captured
  so far, since two readings at one completion time may differ.

  The dictionaries of a \<open>PointEvents\<close> object are shared with the boot context, which keeps
  them for the next runner of the device; \<open>share\<close> writes them back after each emission.
\<close>

section \<open>The ingress queue\<close>

record cap_env =
  ce_acct :: acct_env
  ce_retained :: "Sample \<Rightarrow> nat"
  ce_read :: "nat \<Rightarrow> int \<Rightarrow> CaptureTime"

definition event_charge :: "cap_env \<Rightarrow> Sample \<Rightarrow> nat" where
  "event_charge env s = ce_retained env s + 384"

record SampleBuffer =
  sb_queue :: "Sample list"
  sb_capacity :: nat
  sb_max_bytes :: nat
  sb_used_bytes :: int
  sb_dropped :: nat
  sb_boot :: ProcessBootContext
  sb_gateway_id :: "string option"
  sb_captured_events :: nat
  sb_capture_overflow_events :: nat
  sb_undecided_lost_events :: nat
  sb_version_discarded_events :: nat
  sb_missed_poll_cycles :: nat
  sb_accounting_complete :: bool
  sb_counter_overflow :: bool
  sb_last_overflow_identity :: "(string \<times> nat) option"
  sb_last_put_sequence :: nat

definition buffer_new :: "nat \<Rightarrow> nat \<Rightarrow> ProcessBootContext \<Rightarrow> string option \<Rightarrow> SampleBuffer res" where
  "buffer_new capacity max_bytes boot gw =
     (if \<not> (1 \<le> capacity \<and> capacity \<le> 10000) then Inl (ValueError ''Sample capacity must be in 1..10000'')
      else if max_bytes < 1 then Inl (ValueError ''Ingress byte limit must be positive'')
      else Inr \<lparr>sb_queue = [], sb_capacity = capacity, sb_max_bytes = max_bytes, sb_used_bytes = 0, sb_dropped = 0,
        sb_boot = boot, sb_gateway_id = gw, sb_captured_events = 0, sb_capture_overflow_events = 0,
        sb_undecided_lost_events = 0, sb_version_discarded_events = 0, sb_missed_poll_cycles = 0,
        sb_accounting_complete = True, sb_counter_overflow = False, sb_last_overflow_identity = None,
        sb_last_put_sequence = 0\<rparr>)"

definition buf_account :: "(acct \<Rightarrow> acct) \<Rightarrow> SampleBuffer \<Rightarrow> SampleBuffer" where
  "buf_account f sb = sb\<lparr>sb_boot := boot_account f (sb_boot sb)\<rparr>"

text \<open>\<^verbatim>\<open>a or b\<close> on optional strings.\<close>

definition str_or :: "string option \<Rightarrow> string option \<Rightarrow> string option" where
  "str_or a b = (if a = None \<or> a = Some [] then b else a)"

text \<open>The arguments of the constructor call in \<open>capture\<close>.\<close>

definition sample_of ::
  "nat \<Rightarrow> string \<Rightarrow> string \<Rightarrow> pyval \<Rightarrow> quality \<Rightarrow> rat \<Rightarrow> rat option \<Rightarrow> rat \<Rightarrow> int \<Rightarrow> event_kind
    \<Rightarrow> string option \<Rightarrow> CaptureTime \<Rightarrow> string \<Rightarrow> nat \<Rightarrow> Sample" where
  "sample_of version device point val qual completed nominal origin generation kind gw clock boot_id n =
     \<lparr>s_config_version = version, s_device_id = device, s_point_id = point,
      s_timestamp = ct_utc_ms clock, s_value = val, s_quality = qual,
      s_monotonic_time = Some completed, s_capture_boot_id = Some boot_id,
      s_sample_seq = Some n, s_nominal_poll_due_mono_ms = map_option ms nominal,
      s_completed_mono_ms = Some (ms completed), s_kind = kind,
      s_nominal_origin_mono_ms = Some (ms origin), s_config_generation = generation,
      s_time_generation = ct_generation clock, s_time_valid = ct_time_valid clock,
      s_clock_revision = ct_clock_revision clock, s_time_source = ct_source clock, s_gateway_id = gw\<rparr>"

definition capture ::
  "cap_env \<Rightarrow> nat \<Rightarrow> string \<Rightarrow> string \<Rightarrow> pyval \<Rightarrow> quality \<Rightarrow> rat \<Rightarrow> rat option \<Rightarrow> rat \<Rightarrow> int \<Rightarrow> event_kind
    \<Rightarrow> string option \<Rightarrow> CaptureTime option \<Rightarrow> SampleBuffer \<Rightarrow> Sample res \<times> SampleBuffer" where
  "capture env version device point val qual completed nominal origin generation kind gw clock_reading sb =
     (if (kind = PHYSICAL_RESULT) \<noteq> (nominal \<noteq> None)
      then (Inl (ValueError ''Event kind and physical slot disagree''), sb)
      else if (case nominal of None \<Rightarrow> False | Some q \<Rightarrow> ms completed < ms q)
      then (Inl (ValueError ''Physical result precedes its nominal slot''), sb)
      else let clock = (case clock_reading of Some c \<Rightarrow> c
                        | None \<Rightarrow> ce_read env (bt_sample_sequence (sb_boot sb)) (ms completed))
           in case next_sample_sequence (sb_boot sb) of
                Inl e \<Rightarrow> (Inl e, buf_account (incomplete False True)
                           (sb\<lparr>sb_counter_overflow := True, sb_accounting_complete := False\<rparr>))
              | Inr (n, boot) \<Rightarrow>
                  (let sb = sb\<lparr>sb_boot := boot\<rparr>
                   in case sample_post_init (sample_of version device point val qual completed nominal origin
                             generation kind (str_or gw (sb_gateway_id sb)) clock (bt_boot_id boot) n) of
                        Inl e \<Rightarrow> (Inl e, buf_account (incomplete False False) (sb\<lparr>sb_accounting_complete := False\<rparr>))
                      | Inr s \<Rightarrow> (Inr s, buf_account (captured (ce_acct env) s)
                                   (sb\<lparr>sb_captured_events := sb_captured_events sb + 1\<rparr>))))"

definition put_drop :: "cap_env \<Rightarrow> Sample \<Rightarrow> nat \<Rightarrow> SampleBuffer \<Rightarrow> SampleBuffer" where
  "put_drop env s n sb =
     buf_account (\<lambda>a. snd (undecided (ce_acct env) s ''CAPTURE_OVERFLOW'' True a))
       (sb\<lparr>sb_dropped := sb_dropped sb + 1, sb_capture_overflow_events := sb_capture_overflow_events sb + 1,
           sb_undecided_lost_events := sb_undecided_lost_events sb + 1, sb_accounting_complete := False,
           sb_last_overflow_identity := Some (the (s_capture_boot_id s), n)\<rparr>)"

definition put :: "cap_env \<Rightarrow> Sample \<Rightarrow> SampleBuffer \<Rightarrow> bool res \<times> SampleBuffer" where
  "put env s sb =
     (case s_sample_seq s of
        None \<Rightarrow> (Inl (ValueError ''Ingress requires this process captured-event identity''), sb)
      | Some n \<Rightarrow>
         (if s_capture_boot_id s \<noteq> Some (bt_boot_id (sb_boot sb))
          then (Inl (ValueError ''Ingress requires this process captured-event identity''), sb)
          else if n \<le> sb_last_put_sequence sb
          then (Inl (ValueError ''Ingress identity must be submitted once in capture order''), sb)
          else let sb = sb\<lparr>sb_last_put_sequence := n\<rparr>; charge = event_charge env s
               in if length (sb_queue sb) \<ge> sb_capacity sb \<or> sb_used_bytes sb + int charge > int (sb_max_bytes sb)
                  then (Inr False, put_drop env s n sb)
                  else (Inr True, sb\<lparr>sb_queue := sb_queue sb @ [s], sb_used_bytes := sb_used_bytes sb + int charge\<rparr>)))"

text \<open>\<open>get_nowait\<close>; the coroutine \<open>get\<close> is the same step, taken once the queue is not empty.\<close>

definition get_nowait :: "cap_env \<Rightarrow> SampleBuffer \<Rightarrow> Sample res \<times> SampleBuffer" where
  "get_nowait env sb =
     (case sb_queue sb of [] \<Rightarrow> (Inl QueueEmpty, sb)
      | s # rest \<Rightarrow> (Inr s, sb\<lparr>sb_queue := rest, sb_used_bytes := sb_used_bytes sb - int (event_charge env s)\<rparr>))"

definition missed :: "nat \<Rightarrow> SampleBuffer \<Rightarrow> SampleBuffer" where
  "missed count sb = buf_account (acct_add missedPollCyclesTotal count)
     (sb\<lparr>sb_missed_poll_cycles := sb_missed_poll_cycles sb + count\<rparr>)"

section \<open>Point events\<close>

text \<open>The scheduler origin of a point moves to the first slot of its grid in the new time
  generation.\<close>

definition rebase_origin :: "CaptureTime \<Rightarrow> PointConfig \<Rightarrow> rat \<Rightarrow> rat option \<Rightarrow> PointEvents \<Rightarrow> PointEvents res" where
  "rebase_origin clock p completed nominal e =
     (let pid = pc_point_id p; step = pc_poll_interval_ms p;
          since = (case ct_generation_started_mono_ms clock of None \<Rightarrow> ms completed | Some t \<Rightarrow> t)
      in rbind (case nominal of Some q \<Rightarrow> Inr q
                | None \<Rightarrow> rbind (dindex (pe_origins e) pid) (\<lambda>org.
                    Inr (dget_or (case pe_next_nominal e of None \<Rightarrow> [] | Some d \<Rightarrow> d) pid org)))
         (\<lambda>q. if step = 0 then Inl ZeroDivisionError
              else let q_ms = ms q + max 0 ((since - ms q + step - 1) div step) * step
                   in Inr (e\<lparr>pe_origins := dset pid (of_int q_ms / 1000) (pe_origins e)\<rparr>)))"

definition share :: "PointEvents \<Rightarrow> SampleBuffer \<Rightarrow> SampleBuffer" where
  "share e sb =
     (case pe_context e of None \<Rightarrow> sb
      | Some c \<Rightarrow>
          (let b = sb_boot sb; dev = dc_device_id (sc_device c)
           in case dget (bt_point_sources b) dev of
                Some st \<Rightarrow> (if pe_context st = Some c
                  then sb\<lparr>sb_boot := b\<lparr>bt_point_sources := dset dev e (bt_point_sources b)\<rparr>\<rparr> else sb)
              | None \<Rightarrow> sb))"

definition emit_capture ::
  "cap_env \<Rightarrow> CaptureTime \<Rightarrow> PointConfig \<Rightarrow> pyval \<Rightarrow> quality \<Rightarrow> rat \<Rightarrow> rat option \<Rightarrow> event_kind
    \<Rightarrow> PointEvents \<Rightarrow> SampleBuffer \<Rightarrow> Sample res \<times> SampleBuffer" where
  "emit_capture env clock p val qual completed nominal kind e sb =
     (case pe_context e of None \<Rightarrow> (Inl AttributeError, sb)
      | Some c \<Rightarrow>
         (case dindex (pe_origins e) (pc_point_id p) of Inl x \<Rightarrow> (Inl x, sb)
          | Inr origin \<Rightarrow>
              capture env (sc_config_version c) (dc_device_id (sc_device c)) (pc_point_id p) val qual
                completed nominal origin (sc_generation c) kind
                (str_or (Some (sc_gateway_id c)) (sb_gateway_id sb)) (Some clock) sb))"

definition emit_publish :: "cap_env \<Rightarrow> string \<Rightarrow> quality \<Rightarrow> Sample \<Rightarrow> PointEvents \<Rightarrow> SampleBuffer
    \<Rightarrow> Sample res \<times> PointEvents \<times> SampleBuffer" where
  "emit_publish env pid qual s e sb =
     (let e = e\<lparr>pe_quality := dset pid qual (pe_quality e), pe_latest := dset pid s (pe_latest e)\<rparr>
      in case put env s sb of (Inl x, sb) \<Rightarrow> (Inl x, e, sb) | (Inr _, sb) \<Rightarrow> (Inr s, e, sb))"

definition version_discard :: "cap_env \<Rightarrow> Sample \<Rightarrow> SampleBuffer \<Rightarrow> SampleBuffer" where
  "version_discard env s sb =
     buf_account (\<lambda>a. snd (undecided (ce_acct env) s ''VERSION_DISCARD'' False a))
       (sb\<lparr>sb_version_discarded_events := sb_version_discarded_events sb + 1,
           sb_undecided_lost_events := sb_undecided_lost_events sb + 1, sb_accounting_complete := False\<rparr>)"

definition emit ::
  "cap_env \<Rightarrow> PointConfig \<Rightarrow> pyval \<Rightarrow> quality \<Rightarrow> rat \<Rightarrow> rat option \<Rightarrow> event_kind \<Rightarrow> bool
    \<Rightarrow> PointEvents \<Rightarrow> SampleBuffer \<Rightarrow> Sample res \<times> PointEvents \<times> SampleBuffer" where
  "emit env p val qual completed nominal kind publish e sb =
     (let pid = pc_point_id p;
          clock = ce_read env (bt_sample_sequence (sb_boot sb)) (ms completed);
          moved = (case dget (pe_time_epochs e) pid of None \<Rightarrow> False | Some g \<Rightarrow> g \<noteq> ct_generation clock)
      in case (if publish \<and> moved then rebase_origin clock p completed nominal e else Inr e) of
           Inl x \<Rightarrow> (Inl x, e, sb)
         | Inr e \<Rightarrow>
            (let e = (if publish then e\<lparr>pe_time_epochs := dset pid (ct_generation clock) (pe_time_epochs e)\<rparr> else e);
                 (r, e, sb) =
                   (case emit_capture env clock p val qual completed nominal kind e sb of
                      (Inl x, sb) \<Rightarrow> (Inl x, e, sb)
                    | (Inr s, sb) \<Rightarrow> (if publish then emit_publish env pid qual s e sb
                                     else (Inr s, e, version_discard env s sb)))
             in (r, e, share e sb)))"

text \<open>\<open>result\<close>: \<^verbatim>\<open>None\<close> is returned when the point's context is no longer this object's.\<close>

definition point_result ::
  "cap_env \<Rightarrow> SampleContext \<Rightarrow> PointConfig \<Rightarrow> pyval \<Rightarrow> quality \<Rightarrow> rat \<Rightarrow> rat \<Rightarrow> bool
    \<Rightarrow> PointEvents \<Rightarrow> SampleBuffer \<Rightarrow> Sample option res \<times> PointEvents \<times> SampleBuffer" where
  "point_result env context p val qual nominal completed publish e sb =
     (if Some context \<noteq> pe_context e then (Inr None, e, sb)
      else let e = (if publish then e\<lparr>pe_last_result := dset (pc_point_id p) completed (pe_last_result e)\<rparr> else e)
           in case emit env p val qual completed (Some nominal) PHYSICAL_RESULT publish e sb of
                (Inl x, e, sb) \<Rightarrow> (Inl x, e, sb) | (Inr s, e, sb) \<Rightarrow> (Inr (Some s), e, sb))"

fun emit_unknown :: "cap_env \<Rightarrow> rat \<Rightarrow> PointConfig list \<Rightarrow> PointEvents \<Rightarrow> SampleBuffer
    \<Rightarrow> unit res \<times> PointEvents \<times> SampleBuffer" where
  "emit_unknown env now [] e sb = (Inr (), e, sb)"
| "emit_unknown env now (p # ps) e sb =
     (if pc_enabled p
      then (case emit env p VNone UNKNOWN now None QUALITY_STATE True e sb of
              (Inl x, e, sb) \<Rightarrow> (Inl x, e, sb) | (Inr _, e, sb) \<Rightarrow> emit_unknown env now ps e sb)
      else emit_unknown env now ps e sb)"

definition fresh_events :: "SampleContext \<Rightarrow> (string, rat) dict \<Rightarrow> PointEvents" where
  "fresh_events context origins =
     \<lparr>pe_context = Some context, pe_origins = origins, pe_last_result = [], pe_quality = [], pe_plan_modbus = None,
      pe_plan_opcua = None, pe_next_nominal = None, pe_time_epochs = [], pe_latest = []\<rparr>"

definition claim_sources :: "SampleContext \<Rightarrow> ProcessBootContext \<Rightarrow> ProcessBootContext" where
  "claim_sources context b =
     (let owner = Some (sc_gateway_id context, sc_config_version context)
      in if bt_point_sources_owner b \<noteq> owner
         then b\<lparr>bt_point_sources := [], bt_point_sources_owner := owner\<rparr> else b)"

definition activate :: "cap_env \<Rightarrow> SampleContext \<Rightarrow> (string, rat) dict \<Rightarrow> rat \<Rightarrow> PointEvents \<Rightarrow> SampleBuffer
    \<Rightarrow> unit res \<times> PointEvents \<times> SampleBuffer" where
  "activate env context origins now e sb =
     (if pe_context e = Some context then (Inr (), e, sb)
      else let b = claim_sources context (sb_boot sb); dev = dc_device_id (sc_device context);
               store = (\<lambda>e. sb\<lparr>sb_boot := b\<lparr>bt_point_sources := dset dev e (bt_point_sources b)\<rparr>\<rparr>);
               fresh = (let e = fresh_events context origins
                        in emit_unknown env now (dc_points (sc_device context)) e (store e))
           in case dget (bt_point_sources b) dev of None \<Rightarrow> fresh
              | Some st \<Rightarrow>
                  (if pe_context st = Some context
                   then let e = st\<lparr>pe_latest := foldl (\<lambda>d (k, v). dset k v d) (pe_latest e) (pe_latest st)\<rparr>
                        in (Inr (), e, store e)
                   else fresh))"

definition last_seen :: "PointEvents \<Rightarrow> PointConfig \<Rightarrow> rat res" where
  "last_seen e p =
     rbind (dindex (pe_origins e) (pc_point_id p)) (\<lambda>org. Inr (dget_or (pe_last_result e) (pc_point_id p) org))"

definition watched :: "PointEvents \<Rightarrow> PointConfig \<Rightarrow> bool" where
  "watched e p \<longleftrightarrow> pc_enabled p \<and> dget (pe_quality e) (pc_point_id p) \<noteq> Some STALE"

fun expire_points :: "cap_env \<Rightarrow> rat \<Rightarrow> PointConfig list \<Rightarrow> PointEvents \<Rightarrow> SampleBuffer
    \<Rightarrow> unit res \<times> PointEvents \<times> SampleBuffer" where
  "expire_points env now [] e sb = (Inr (), e, sb)"
| "expire_points env now (p # ps) e sb =
     (if \<not> watched e p then expire_points env now ps e sb
      else case last_seen e p of Inl x \<Rightarrow> (Inl x, e, sb)
       | Inr seen_at \<Rightarrow>
          (if now - seen_at \<ge> of_int (pc_stale_after_ms p) / 1000
           then (case emit env p VNone STALE now None QUALITY_STATE True e sb of
                   (Inl x, e, sb) \<Rightarrow> (Inl x, e, sb) | (Inr _, e, sb) \<Rightarrow> expire_points env now ps e sb)
           else expire_points env now ps e sb))"

definition expire :: "cap_env \<Rightarrow> rat \<Rightarrow> PointEvents \<Rightarrow> SampleBuffer \<Rightarrow> unit res \<times> PointEvents \<times> SampleBuffer" where
  "expire env now e sb =
     (case pe_context e of None \<Rightarrow> (Inr (), e, sb)
      | Some c \<Rightarrow> expire_points env now (dc_points (sc_device c)) e sb)"

text \<open>\<open>next_expiry\<close>, with None for infinity.\<close>

fun collect_res :: "'a res list \<Rightarrow> 'a list res" where
  "collect_res [] = Inr []"
| "collect_res (r # rs) = rbind r (\<lambda>x. rbind (collect_res rs) (\<lambda>xs. Inr (x # xs)))"

definition next_expiry :: "PointEvents \<Rightarrow> rat option res" where
  "next_expiry e =
     (case pe_context e of None \<Rightarrow> Inr None
      | Some c \<Rightarrow> rbind (collect_res (map (\<lambda>p. rbind (last_seen e p) (\<lambda>t. Inr (t + of_int (pc_stale_after_ms p) / 1000)))
                    (filter (watched e) (dc_points (sc_device c))))) (\<lambda>ts. Inr (min_opt ts)))"


section \<open>The ingress invariant\<close>

text \<open>Queue and byte gauge within their limits, identities of this boot in capture order, and
  the ledger of the boot's accounts.\<close>

definition queue_ok :: "cap_env \<Rightarrow> SampleBuffer \<Rightarrow> bool" where
  "queue_ok env sb \<longleftrightarrow>
     length (sb_queue sb) \<le> sb_capacity sb \<and> sb_used_bytes sb = (\<Sum>s\<leftarrow>sb_queue sb. int (event_charge env s))
     \<and> sb_used_bytes sb \<le> int (sb_max_bytes sb)"

definition identities_ok :: "SampleBuffer \<Rightarrow> bool" where
  "identities_ok sb \<longleftrightarrow>
     sorted_wrt (<) (map (the \<circ> s_sample_seq) (sb_queue sb))
     \<and> (\<forall>s\<in>set (sb_queue sb). sample_ok s \<and> s_capture_boot_id s = Some (bt_boot_id (sb_boot sb))
          \<and> the (s_sample_seq s) \<le> sb_last_put_sequence sb)
     \<and> sb_last_put_sequence sb \<le> bt_sample_sequence (sb_boot sb)"

definition accounts_ok :: "ProcessBootContext \<Rightarrow> bool" where
  "accounts_ok b \<longleftrightarrow> ledger_ok (bt_accounting b) \<and> ac_boot_id (bt_accounting b) = bt_boot_id b
     \<and> (\<forall>x\<in>set (ac_pending_decisions (bt_accounting b)). \<exists>n. x = Some n \<and> n \<le> bt_sample_sequence b)"

definition ingress_ok :: "cap_env \<Rightarrow> SampleBuffer \<Rightarrow> bool" where
  "ingress_ok env sb \<longleftrightarrow> queue_ok env sb \<and> identities_ok sb \<and> accounts_ok (sb_boot sb)"

text \<open>Everything that happens to the buffer: captures, submissions of captured events,
  deliveries, counted misses and discards, decisions of the reporting engine, and the changes the
  runners make to the other fields of the boot context.\<close>

inductive ingress_step :: "cap_env \<Rightarrow> SampleBuffer \<Rightarrow> SampleBuffer \<Rightarrow> bool" for env where
  st_capture: "capture env version device point val qual completed nominal origin generation kind gw clock sb = (r, sb')
     \<Longrightarrow> ingress_step env sb sb'"
| st_put: "s_sample_seq s = Some n \<Longrightarrow> n \<le> bt_sample_sequence (sb_boot sb) \<Longrightarrow> sample_ok s
     \<Longrightarrow> ingress_step env sb (snd (put env s sb))"
| st_get: "ingress_step env sb (snd (get_nowait env sb))"
| st_missed: "ingress_step env sb (missed count sb)"
| st_discard: "ingress_step env sb (version_discard env s sb)"
| st_decided: "(admitted \<Longrightarrow> selected) \<Longrightarrow>
     ingress_step env sb (buf_account (\<lambda>a. snd (decided (ce_acct env) s selected admitted reason a)) sb)"
| st_share: "ingress_step env sb (share e sb)"
| st_claim: "ingress_step env sb
     (sb\<lparr>sb_boot := (claim_sources context (sb_boot sb))
          \<lparr>bt_point_sources := dset dev e (bt_point_sources (claim_sources context (sb_boot sb)))\<rparr>\<rparr>)"

definition ingress_init :: "SampleBuffer \<Rightarrow> bool" where
  "ingress_init sb \<longleftrightarrow> (\<exists>boot_id t b c m gw. boot_new boot_id t = Inr b \<and> buffer_new c m b gw = Inr sb)"

lemma boot_account_frame [simp]:
  "bt_boot_id (boot_account f b) = bt_boot_id b"
  "bt_sequence (boot_account f b) = bt_sequence b"
  "bt_sample_sequence (boot_account f b) = bt_sample_sequence b"
  "bt_accounting (boot_account f b) = f (bt_accounting b)"
  "bt_point_sources (boot_account f b) = bt_point_sources b"
  "bt_point_sources_owner (boot_account f b) = bt_point_sources_owner b"
  "bt_report_checkpoint (boot_account f b) = bt_report_checkpoint b"
  by (simp_all add: boot_account_def)

lemma buf_account_frame [simp]:
  "sb_boot (buf_account f sb) = boot_account f (sb_boot sb)"
  "sb_queue (buf_account f sb) = sb_queue sb"
  "sb_capacity (buf_account f sb) = sb_capacity sb"
  "sb_max_bytes (buf_account f sb) = sb_max_bytes sb"
  "sb_used_bytes (buf_account f sb) = sb_used_bytes sb"
  "sb_dropped (buf_account f sb) = sb_dropped sb"
  "sb_gateway_id (buf_account f sb) = sb_gateway_id sb"
  "sb_captured_events (buf_account f sb) = sb_captured_events sb"
  "sb_last_put_sequence (buf_account f sb) = sb_last_put_sequence sb"
  by (simp_all add: buf_account_def)

lemma queue_cong:
  "queue_ok env a \<Longrightarrow> sb_queue b = sb_queue a \<Longrightarrow> sb_capacity b = sb_capacity a \<Longrightarrow> sb_max_bytes b = sb_max_bytes a
   \<Longrightarrow> sb_used_bytes b = sb_used_bytes a \<Longrightarrow> queue_ok env b"
  by (simp add: queue_ok_def)

lemma identities_cong:
  "identities_ok a \<Longrightarrow> sb_queue b = sb_queue a \<Longrightarrow> bt_boot_id (sb_boot b) = bt_boot_id (sb_boot a)
   \<Longrightarrow> sb_last_put_sequence b = sb_last_put_sequence a
   \<Longrightarrow> bt_sample_sequence (sb_boot a) \<le> bt_sample_sequence (sb_boot b) \<Longrightarrow> identities_ok b"
  by (simp add: identities_ok_def)

text \<open>An operation on the accounts that keeps the ledger and opens no decision.\<close>

lemma accounts_account:
  assumes "accounts_ok b" "ledger_ok (f (bt_accounting b))" "ac_boot_id (f (bt_accounting b)) = ac_boot_id (bt_accounting b)"
    and "set (ac_pending_decisions (f (bt_accounting b))) \<subseteq> set (ac_pending_decisions (bt_accounting b))"
  shows "accounts_ok (boot_account f b)"
  using assms by (auto simp: accounts_ok_def)

lemma decision_frame:
  "ac_boot_id (snd (decision s a)) = ac_boot_id a"
  "set (ac_pending_decisions (snd (decision s a))) \<subseteq> set (ac_pending_decisions a)"
  by (auto simp: decision_def dest: in_set_remove1 [THEN iffD1, rotated] notin_set_remove1)

lemma acct_add_pending_frame [simp]:
  "ac_pending_decisions (reason_counters r a) = ac_pending_decisions a"
  "ac_boot_id (reason_counters r a) = ac_boot_id a"
  by (simp_all add: reason_counters_def Let_def)

lemma undecided_frame:
  "ac_boot_id (snd (undecided env s r v a)) = ac_boot_id a"
  "set (ac_pending_decisions (snd (undecided env s r v a))) \<subseteq> set (ac_pending_decisions a)"
proof -
  obtain ok a1 where d: "decision s a = (ok, a1)" by (cases "decision s a")
  show "ac_boot_id (snd (undecided env s r v a)) = ac_boot_id a"
    using d decision_frame(1) [of s a] by (simp add: undecided_def Let_def)
  have "set (ac_pending_decisions (acct_gap env r UNCERTAIN [s] None b)) \<subseteq> set (ac_pending_decisions a)"
    if "ac_pending_decisions b = ac_pending_decisions a1" for b
    using gap_pending_subset [of env r UNCERTAIN "[s]" None b] decision_frame(2) [of s a] d that by auto
  with d decision_frame(2) [of s a]
  show "set (ac_pending_decisions (snd (undecided env s r v a))) \<subseteq> set (ac_pending_decisions a)"
    by (auto simp: undecided_def Let_def)
qed

lemma decided_frame:
  "ac_boot_id (snd (decided env s sel adm r a)) = ac_boot_id a"
  "set (ac_pending_decisions (snd (decided env s sel adm r a))) \<subseteq> set (ac_pending_decisions a)"
proof -
  obtain ok a1 where d: "decision s a = (ok, a1)" by (cases "decision s a")
  show "ac_boot_id (snd (decided env s sel adm r a)) = ac_boot_id a"
    using d decision_frame(1) [of s a] by (simp add: decided_def Let_def)
  have "set (ac_pending_decisions (acct_gap env x KNOWN_UNSENT [s] None b)) \<subseteq> set (ac_pending_decisions a)"
    if "ac_pending_decisions b = ac_pending_decisions a1" for b x
    using gap_pending_subset [of env x KNOWN_UNSENT "[s]" None b] decision_frame(2) [of s a] d that by auto
  with d decision_frame(2) [of s a]
  show "set (ac_pending_decisions (snd (decided env s sel adm r a))) \<subseteq> set (ac_pending_decisions a)"
    by (auto simp: decided_def Let_def)
qed

lemma captured_frame:
  "ac_boot_id (captured env s a) = ac_boot_id a"
  "set (ac_pending_decisions (captured env s a)) \<subseteq> insert (s_sample_seq s) (set (ac_pending_decisions a))"
proof -
  let ?b = "remember_physical env s (remember_pending s (acct_add capturedEventsTotal 1 a))"
  have b: "ac_boot_id ?b = ac_boot_id a"
    "set (ac_pending_decisions ?b) \<subseteq> insert (s_sample_seq s) (set (ac_pending_decisions a))"
    by (auto simp: remember_physical_def remember_pending_def Let_def)
  show "ac_boot_id (captured env s a) = ac_boot_id a" using b by (simp add: captured_def)
  show "set (ac_pending_decisions (captured env s a)) \<subseteq> insert (s_sample_seq s) (set (ac_pending_decisions a))"
    unfolding captured_def acct_record_frame by (rule order.trans [OF decision_pending_subset b(2)])
qed

lemma accounts_undecided: "accounts_ok b \<Longrightarrow> accounts_ok (boot_account (\<lambda>a. snd (undecided env s r v a)) b)"
  by (rule accounts_account) (auto simp: accounts_ok_def undecided_frame ledger_undecided dest: undecided_frame(2) [THEN subsetD])

lemma accounts_decided:
  "accounts_ok b \<Longrightarrow> (adm \<Longrightarrow> sel) \<Longrightarrow> accounts_ok (boot_account (\<lambda>a. snd (decided env s sel adm r a)) b)"
  by (rule accounts_account) (auto simp: accounts_ok_def decided_frame ledger_decided dest: decided_frame(2) [THEN subsetD])

lemma accounts_incomplete: "accounts_ok b \<Longrightarrow> accounts_ok (boot_account (incomplete t v) b)"
  by (rule accounts_account) (auto simp: accounts_ok_def ledger_incomplete)

lemma accounts_missed: "accounts_ok b \<Longrightarrow> accounts_ok (boot_account (acct_add missedPollCyclesTotal n) b)"
  by (rule accounts_account) (auto simp: accounts_ok_def intro: ledger_add_other)

lemma accounts_cong:
  "accounts_ok a \<Longrightarrow> bt_accounting b = bt_accounting a \<Longrightarrow> bt_boot_id b = bt_boot_id a
   \<Longrightarrow> bt_sample_sequence a \<le> bt_sample_sequence b \<Longrightarrow> accounts_ok b"
  by (fastforce simp: accounts_ok_def)

lemma accounts_captured:
  assumes "accounts_ok b" "s_sample_seq s = Some n" "n = bt_sample_sequence b + 1"
  shows "accounts_ok (boot_account (captured env s) (b\<lparr>bt_sample_sequence := n\<rparr>))"
proof -
  have "Some n \<notin> set (ac_pending_decisions (bt_accounting b))"
    using assms by (fastforce simp: accounts_ok_def)
  then have "ledger_ok (captured env s (bt_accounting b))"
    using assms by (auto simp: accounts_ok_def intro: ledger_captured)
  moreover have "\<exists>k. x = Some k \<and> k \<le> n" if "x \<in> set (ac_pending_decisions (captured env s (bt_accounting b)))" for x
  proof -
    from that captured_frame(2) [of env s "bt_accounting b"] assms(2)
    consider "x = Some n" | "x \<in> set (ac_pending_decisions (bt_accounting b))" by auto
    then show ?thesis using assms(1,3) by cases (auto simp: accounts_ok_def intro: le_SucI)
  qed
  ultimately show ?thesis
    using assms captured_frame(1) [of env s "bt_accounting b"] by (auto simp: accounts_ok_def boot_account_def)
qed

lemma sample_post_init_keeps:
  "sample_post_init x = Inr s \<Longrightarrow> s_sample_seq s = s_sample_seq x \<and> s_capture_boot_id s = s_capture_boot_id x
     \<and> s_quality s = s_quality x \<and> s_point_id s = s_point_id x"
  by (auto simp: sample_post_init_def res_simps split: if_splits pyval.splits)

text \<open>The ways a capture can end.\<close>

lemma capture_cases:
  assumes "capture env version device point val qual completed nominal origin generation kind gw clock sb = (r, sb')"
  obtains (refused) e where "r = Inl e" "sb' = sb"
  | (exhausted) e where "r = Inl e" "MAX_SAFE \<le> bt_sample_sequence (sb_boot sb)"
      "sb' = buf_account (incomplete False True) (sb\<lparr>sb_counter_overflow := True, sb_accounting_complete := False\<rparr>)"
  | (invalid) e n where "r = Inl e" "n = bt_sample_sequence (sb_boot sb) + 1"
      "sb' = buf_account (incomplete False False)
         (sb\<lparr>sb_boot := (sb_boot sb)\<lparr>bt_sample_sequence := n\<rparr>, sb_accounting_complete := False\<rparr>)"
  | (ok) s n where "r = Inr s" "n = bt_sample_sequence (sb_boot sb) + 1" "sample_ok s" "s_sample_seq s = Some n"
      "s_capture_boot_id s = Some (bt_boot_id (sb_boot sb))" "s_quality s = qual" "s_point_id s = point"
      "sb' = buf_account (captured (ce_acct env) s)
         (sb\<lparr>sb_boot := (sb_boot sb)\<lparr>bt_sample_sequence := n\<rparr>, sb_captured_events := sb_captured_events sb + 1\<rparr>)"
proof -
  consider (a) "(kind = PHYSICAL_RESULT) \<noteq> (nominal \<noteq> None)
      \<or> (case nominal of None \<Rightarrow> False | Some q \<Rightarrow> ms completed < ms q)"
    | (b) "\<not> ((kind = PHYSICAL_RESULT) \<noteq> (nominal \<noteq> None))"
      "\<not> (case nominal of None \<Rightarrow> False | Some q \<Rightarrow> ms completed < ms q)" by blast
  then show thesis
  proof cases
    case a
    then have "\<exists>e. r = Inl e \<and> sb' = sb"
      using assms by (cases nominal) (auto simp: capture_def split: if_splits)
    then show thesis using refused by blast
  next
    case b
    note c = assms [unfolded capture_def Let_def if_not_P [OF b(1)] if_not_P [OF b(2)]]
    show thesis
    proof (cases "MAX_SAFE \<le> bt_sample_sequence (sb_boot sb)")
      case True
      with c show thesis by (intro exhausted) (auto simp: next_sample_sequence_def)
    next
      case False
      define n where "n = bt_sample_sequence (sb_boot sb) + 1"
      let ?raw = "\<lambda>clk. sample_of version device point val qual completed nominal origin generation kind
        (str_or gw (sb_gateway_id sb)) clk (bt_boot_id (sb_boot sb)) n"
      define clk where "clk = (case clock of Some c \<Rightarrow> c
          | None \<Rightarrow> ce_read env (bt_sample_sequence (sb_boot sb)) (ms completed))"
      have c': "(case sample_post_init (?raw clk) of
            Inl e \<Rightarrow> (Inl e, buf_account (incomplete False False)
              (sb\<lparr>sb_boot := (sb_boot sb)\<lparr>bt_sample_sequence := n\<rparr>, sb_accounting_complete := False\<rparr>))
          | Inr s \<Rightarrow> (Inr s, buf_account (captured (ce_acct env) s)
              (sb\<lparr>sb_boot := (sb_boot sb)\<lparr>bt_sample_sequence := n\<rparr>, sb_captured_events := sb_captured_events sb + 1\<rparr>)))
          = (r, sb')"
        using c False by (simp add: next_sample_sequence_def n_def clk_def cong: sum.case_cong)
      show thesis
      proof (cases "sample_post_init (?raw clk)")
        case (Inl e)
        with c' show thesis by (intro invalid [of e n]) (simp_all add: n_def)
      next
        case (Inr s)
        then show thesis
          using c' sample_post_init_keeps [OF Inr] sample_post_init_ok [OF Inr]
          by (intro ok [of s n]) (simp_all add: n_def sample_of_def)
      qed
    qed
  qed
qed


section \<open>Every operation keeps the invariant\<close>

lemma ingress_capture:
  assumes "ingress_ok env sb"
    and "capture env version device point val qual completed nominal origin generation kind gw clock sb = (r, sb')"
  shows "ingress_ok env sb'"
proof -
  have q: "queue_ok env sb" and i: "identities_ok sb" and a: "accounts_ok (sb_boot sb)"
    using assms(1) by (auto simp: ingress_ok_def)
  show ?thesis
    using assms(2)
  proof (cases rule: capture_cases)
    case refused
    then show ?thesis using assms(1) by simp
  next
    case (exhausted e)
    then show ?thesis unfolding ingress_ok_def
      by (intro conjI queue_cong [OF q] identities_cong [OF i]) (auto intro: accounts_incomplete a)
  next
    case (invalid e n)
    then show ?thesis unfolding ingress_ok_def
      by (intro conjI queue_cong [OF q] identities_cong [OF i])
        (auto intro!: accounts_incomplete intro: accounts_cong [OF a])
  next
    case (ok s n)
    then show ?thesis unfolding ingress_ok_def
      using accounts_captured [OF a ok(4) ok(2), of "ce_acct env"]
      by (intro conjI queue_cong [OF q] identities_cong [OF i]) auto
  qed
qed

lemma ingress_drop:
  assumes "ingress_ok env sb" "sb_last_put_sequence sb < n" "n \<le> bt_sample_sequence (sb_boot sb)"
  shows "ingress_ok env (put_drop env s n (sb\<lparr>sb_last_put_sequence := n\<rparr>))"
  using assms unfolding ingress_ok_def put_drop_def
  by (auto simp: queue_ok_def identities_ok_def intro!: accounts_undecided intro: accounts_cong)

lemma ingress_enqueue:
  assumes "ingress_ok env sb" "s_sample_seq s = Some n" "sb_last_put_sequence sb < n"
    and "n \<le> bt_sample_sequence (sb_boot sb)" "sample_ok s" "s_capture_boot_id s = Some (bt_boot_id (sb_boot sb))"
    and "length (sb_queue sb) < sb_capacity sb" "sb_used_bytes sb + int (event_charge env s) \<le> int (sb_max_bytes sb)"
  shows "ingress_ok env (sb\<lparr>sb_last_put_sequence := n, sb_queue := sb_queue sb @ [s],
    sb_used_bytes := sb_used_bytes sb + int (event_charge env s)\<rparr>)"
  using assms unfolding ingress_ok_def
  by (auto simp: queue_ok_def identities_ok_def sorted_wrt_append intro: accounts_cong)

lemma ingress_put:
  assumes "ingress_ok env sb" "s_sample_seq s = Some n" "n \<le> bt_sample_sequence (sb_boot sb)" "sample_ok s"
  shows "ingress_ok env (snd (put env s sb))"
  using assms ingress_drop [OF assms(1)] ingress_enqueue [OF assms(1)]
  by (simp add: put_def Let_def)

lemma ingress_get: "ingress_ok env sb \<Longrightarrow> ingress_ok env (snd (get_nowait env sb))"
  by (cases "sb_queue sb") (auto simp: get_nowait_def ingress_ok_def queue_ok_def identities_ok_def)

lemma ingress_boot:
  "ingress_ok env sb \<Longrightarrow> sb_queue sb' = sb_queue sb \<Longrightarrow> sb_capacity sb' = sb_capacity sb \<Longrightarrow> sb_max_bytes sb' = sb_max_bytes sb
   \<Longrightarrow> sb_used_bytes sb' = sb_used_bytes sb \<Longrightarrow> sb_last_put_sequence sb' = sb_last_put_sequence sb
   \<Longrightarrow> bt_boot_id (sb_boot sb') = bt_boot_id (sb_boot sb)
   \<Longrightarrow> bt_sample_sequence (sb_boot sb') = bt_sample_sequence (sb_boot sb)
   \<Longrightarrow> (accounts_ok (sb_boot sb) \<Longrightarrow> accounts_ok (sb_boot sb')) \<Longrightarrow> ingress_ok env sb'"
  by (simp add: ingress_ok_def queue_ok_def identities_ok_def)

lemma ingress_missed: "ingress_ok env sb \<Longrightarrow> ingress_ok env (missed n sb)"
  by (erule ingress_boot) (auto simp: missed_def intro: accounts_missed)

lemma ingress_discard: "ingress_ok env sb \<Longrightarrow> ingress_ok env (version_discard env s sb)"
  by (erule ingress_boot) (auto simp: version_discard_def intro: accounts_undecided)

lemma ingress_decided:
  "ingress_ok env sb \<Longrightarrow> (adm \<Longrightarrow> sel) \<Longrightarrow>
   ingress_ok env (buf_account (\<lambda>a. snd (decided (ce_acct env) s sel adm r a)) sb)"
  by (erule ingress_boot) (auto intro: accounts_decided)

lemma share_frame [simp]:
  "sb_queue (share e sb) = sb_queue sb" "sb_capacity (share e sb) = sb_capacity sb"
  "sb_max_bytes (share e sb) = sb_max_bytes sb" "sb_used_bytes (share e sb) = sb_used_bytes sb"
  "sb_last_put_sequence (share e sb) = sb_last_put_sequence sb" "sb_dropped (share e sb) = sb_dropped sb"
  "sb_captured_events (share e sb) = sb_captured_events sb"
  "bt_boot_id (sb_boot (share e sb)) = bt_boot_id (sb_boot sb)"
  "bt_sample_sequence (sb_boot (share e sb)) = bt_sample_sequence (sb_boot sb)"
  "bt_accounting (sb_boot (share e sb)) = bt_accounting (sb_boot sb)"
  by (simp_all add: share_def Let_def split: option.split)

lemma ingress_share: "ingress_ok env sb \<Longrightarrow> ingress_ok env (share e sb)"
  by (erule ingress_boot) (auto elim: accounts_cong)

lemma ingress_claim:
  "ingress_ok env sb \<Longrightarrow> ingress_ok env (sb\<lparr>sb_boot := (claim_sources c (sb_boot sb))\<lparr>bt_point_sources := d\<rparr>\<rparr>)"
  by (erule ingress_boot) (auto simp: claim_sources_def Let_def elim: accounts_cong)

lemmas ingress_intros = ingress_capture ingress_put ingress_get ingress_missed ingress_discard ingress_decided
  ingress_share ingress_claim

lemma ingress_step_ok: "ingress_step env sb sb' \<Longrightarrow> ingress_ok env sb \<Longrightarrow> ingress_ok env sb'"
  by (induction rule: ingress_step.induct) (blast intro: ingress_intros)+

lemma ingress_init_ok: "ingress_init sb \<Longrightarrow> ingress_ok env sb"
  by (auto simp: ingress_init_def boot_new_def buffer_new_def acct_new_def res_simps ingress_ok_def queue_ok_def
      identities_ok_def accounts_ok_def ledger_ok_def split: if_splits)

interpretation ingress: invariant_system ingress_init "ingress_step env" "ingress_ok env" for env
  by unfold_locales (auto intro: ingress_init_ok ingress_step_ok)

section \<open>What an emission does\<close>

lemma rebase_frame:
  assumes "rebase_origin clock p completed nominal e = Inr e'"
  shows "pe_context e' = pe_context e \<and> pe_quality e' = pe_quality e \<and> pe_latest e' = pe_latest e
    \<and> pe_last_result e' = pe_last_result e \<and> pe_time_epochs e' = pe_time_epochs e
    \<and> (\<forall>k. k \<noteq> pc_point_id p \<longrightarrow> dget (pe_origins e') k = dget (pe_origins e) k)"
  using assms by (auto simp: rebase_origin_def Let_def res_simps split: if_splits option.splits)

lemma emit_captureD:
  assumes "emit_capture env clock p val qual completed nominal kind e sb = (r, sb')"
  shows "(sb' = sb \<and> (\<exists>x. r = Inl x)) \<or> (\<exists>version device origin generation gw clock'.
     capture env version device (pc_point_id p) val qual completed nominal origin generation kind gw clock' sb = (r, sb'))"
  using assms by (auto simp: emit_capture_def split: option.splits sum.splits)

lemma emit_capture_ingress:
  assumes "ingress_ok env sb" "emit_capture env clock p val qual completed nominal kind e sb = (r, sb')"
  shows "ingress_ok env sb'"
  using emit_captureD [OF assms(2)]
proof (elim disjE exE)
  assume "sb' = sb \<and> (\<exists>x. r = Inl x)"
  with assms(1) show ?thesis by simp
next
  fix version device origin generation gw clk
  assume "capture env version device (pc_point_id p) val qual completed nominal origin generation kind gw clk sb = (r, sb')"
  with assms(1) show ?thesis by (rule ingress_capture)
qed

text \<open>An event that was just captured is always accepted by \<open>put\<close>: queued or counted as lost.\<close>

lemma put_captured:
  assumes ok: "ingress_ok env sb"
    and c: "capture env version device point val qual completed nominal origin generation kind gw clock sb = (Inr s, sb1)"
    and put: "put env s sb1 = (r, sb2)"
  shows "s_sample_seq s = Some (bt_sample_sequence (sb_boot sb) + 1) \<and> s_quality s = qual \<and> s_point_id s = point
    \<and> sb_captured_events sb2 = sb_captured_events sb + 1
    \<and> (r = Inr True \<and> sb_queue sb2 = sb_queue sb @ [s] \<and> sb_dropped sb2 = sb_dropped sb
       \<or> r = Inr False \<and> sb_queue sb2 = sb_queue sb \<and> sb_dropped sb2 = sb_dropped sb + 1)"
  using c
proof (cases rule: capture_cases)
  case (ok s' n)
  have "sb_last_put_sequence sb < n"
    using \<open>ingress_ok env sb\<close> ok(2) by (auto simp: ingress_ok_def identities_ok_def)
  with ok put show ?thesis by (auto simp: put_def put_drop_def Let_def split: if_splits)
qed simp_all

lemma emit_split:
  assumes "emit env p val qual completed nominal kind publish e sb = (r, e', sb')"
  obtains (rebase) x where "r = Inl x" "e' = e" "sb' = sb"
  | (failed) e1 x sb1 clock where "r = Inl x" "e' = e1" "sb' = share e1 sb1"
      "emit_capture env clock p val qual completed nominal kind e1 sb = (Inl x, sb1)"
      "pe_context e1 = pe_context e" "pe_quality e1 = pe_quality e" "pe_last_result e1 = pe_last_result e"
      "\<And>k. k \<noteq> pc_point_id p \<Longrightarrow> dget (pe_origins e1) k = dget (pe_origins e) k"
  | (discarded) s sb1 clock where "\<not> publish" "r = Inr s" "e' = e" "sb' = share e (version_discard env s sb1)"
      "emit_capture env clock p val qual completed nominal kind e sb = (Inr s, sb1)"
  | (published) e1 s q sb1 sb2 clock where "publish" "r = map_sum id (\<lambda>_. s) q"
      "e' = e1\<lparr>pe_quality := dset (pc_point_id p) qual (pe_quality e1), pe_latest := dset (pc_point_id p) s (pe_latest e1)\<rparr>"
      "emit_capture env clock p val qual completed nominal kind e1 sb = (Inr s, sb1)"
      "put env s sb1 = (q, sb2)" "sb' = share e' sb2"
      "pe_context e1 = pe_context e" "pe_quality e1 = pe_quality e" "pe_last_result e1 = pe_last_result e"
      "pe_latest e1 = pe_latest e"
      "\<And>k. k \<noteq> pc_point_id p \<Longrightarrow> dget (pe_origins e1) k = dget (pe_origins e) k"
proof -
  define clock where "clock = ce_read env (bt_sample_sequence (sb_boot sb)) (ms completed)"
  define moved where "moved = (case dget (pe_time_epochs e) (pc_point_id p) of None \<Rightarrow> False | Some g \<Rightarrow> g \<noteq> ct_generation clock)"
  define r0 where "r0 = (if publish \<and> moved then rebase_origin clock p completed nominal e else Inr e)"
  have unf: "emit env p val qual completed nominal kind publish e sb =
     (case r0 of Inl x \<Rightarrow> (Inl x, e, sb)
      | Inr e \<Rightarrow>
         (let e = (if publish then e\<lparr>pe_time_epochs := dset (pc_point_id p) (ct_generation clock) (pe_time_epochs e)\<rparr> else e);
              (r, e, sb) =
                (case emit_capture env clock p val qual completed nominal kind e sb of
                   (Inl x, sb) \<Rightarrow> (Inl x, e, sb)
                 | (Inr s, sb) \<Rightarrow> (if publish then emit_publish env (pc_point_id p) qual s e sb
                                  else (Inr s, e, version_discard env s sb)))
          in (r, e, share e sb)))"
    unfolding emit_def r0_def moved_def clock_def by (simp only: Let_def)
  show thesis
  proof (cases r0)
    case (Inl x)
    then show thesis using assms unf by (intro rebase) auto
  next
    case (Inr e0)
    define e1 where "e1 = (if publish
      then e0\<lparr>pe_time_epochs := dset (pc_point_id p) (ct_generation clock) (pe_time_epochs e0)\<rparr> else e0)"
    have e0: "pe_context e0 = pe_context e \<and> pe_quality e0 = pe_quality e \<and> pe_latest e0 = pe_latest e
        \<and> pe_last_result e0 = pe_last_result e
        \<and> (\<forall>k. k \<noteq> pc_point_id p \<longrightarrow> dget (pe_origins e0) k = dget (pe_origins e) k)"
      using Inr rebase_frame unfolding r0_def by (cases "publish \<and> moved") fastforce+
    have e1: "pe_context e1 = pe_context e" "pe_quality e1 = pe_quality e" "pe_latest e1 = pe_latest e"
        "pe_last_result e1 = pe_last_result e"
        "\<And>k. k \<noteq> pc_point_id p \<Longrightarrow> dget (pe_origins e1) k = dget (pe_origins e) k"
      using e0 by (auto simp: e1_def)
    have quiet: "e1 = e" if "\<not> publish" using that Inr by (auto simp: e1_def r0_def)
    obtain rc sb1 where c: "emit_capture env clock p val qual completed nominal kind e1 sb = (rc, sb1)"
      by (cases "emit_capture env clock p val qual completed nominal kind e1 sb")
    have eq: "(let (r, e, sb) = (case (rc, sb1) of (Inl x, sb) \<Rightarrow> (Inl x, e1, sb)
        | (Inr s, sb) \<Rightarrow> (if publish then emit_publish env (pc_point_id p) qual s e1 sb
             else (Inr s, e1, version_discard env s sb))) in (r, e, share e sb)) = (r, e', sb')"
      using assms Inr c unfolding unf e1_def by (simp add: Let_def)
    show thesis
    proof (cases rc)
      case (Inl x)
      with eq c e1 show thesis by (intro failed [of x e1 sb1 clock]) auto
    next
      case (Inr s)
      show thesis
      proof (cases publish)
        case True
        obtain q sb2 where put: "put env s sb1 = (q, sb2)" by (cases "put env s sb1")
        from eq Inr True put have "r = map_sum id (\<lambda>_. s) q
            \<and> e' = e1\<lparr>pe_quality := dset (pc_point_id p) qual (pe_quality e1), pe_latest := dset (pc_point_id p) s (pe_latest e1)\<rparr>
            \<and> sb' = share e' sb2"
          by (cases q) (auto simp: emit_publish_def Let_def)
        with c Inr True put e1 show thesis by (intro published [of s q e1 clock sb1 sb2]) auto
      next
        case False
        with eq Inr c quiet show thesis by (intro discarded [of s sb1 clock]) auto
      qed
    qed
  qed
qed

lemma emit_published_frame:
  assumes "emit env p val qual completed nominal kind True e sb = (Inr s, e', sb')"
  shows "pe_context e' = pe_context e \<and> pe_quality e' = dset (pc_point_id p) qual (pe_quality e)
    \<and> pe_last_result e' = pe_last_result e \<and> pe_latest e' = dset (pc_point_id p) s (pe_latest e)
    \<and> (\<forall>k. k \<noteq> pc_point_id p \<longrightarrow> dget (pe_origins e') k = dget (pe_origins e) k)"
  using assms
proof (cases rule: emit_split)
  case (published e1 s' q sb1 sb2 clock)
  then show ?thesis by (cases q) auto
qed auto

lemma emit_ingress:
  assumes "ingress_ok env sb" "emit env p val qual completed nominal kind publish e sb = (r, e', sb')"
  shows "ingress_ok env sb'"
  using assms(2)
proof (cases rule: emit_split)
  case (failed e1 x sb1 clock)
  have "ingress_ok env sb1" using assms(1) failed(4) by (rule emit_capture_ingress)
  with failed show ?thesis by (simp add: ingress_share)
next
  case (discarded s sb1 clock)
  have "ingress_ok env sb1" using assms(1) discarded(5) by (rule emit_capture_ingress)
  with discarded show ?thesis by (simp add: ingress_share ingress_discard)
next
  case (published e1 s q sb1 sb2 clock)
  obtain version device origin generation gw clk where
    c: "capture env version device (pc_point_id p) val qual completed nominal origin generation kind gw clk sb = (Inr s, sb1)"
    using emit_captureD [OF published(4)] by blast
  have ok1: "ingress_ok env sb1" using assms(1) c by (rule ingress_capture)
  have "ingress_ok env sb2"
    using c
  proof (cases rule: capture_cases)
    case (ok s' n)
    have "ingress_ok env (snd (put env s sb1))" using ok by (intro ingress_put [OF ok1]) auto
    with published(5) show ?thesis by simp
  qed simp_all
  with published show ?thesis by (simp add: ingress_share)
qed (use assms in simp)

lemma expire_points_ingress:
  "ingress_ok env sb \<Longrightarrow> expire_points env now ps e sb = (r, e', sb') \<Longrightarrow> ingress_ok env sb'"
  by (induction env now ps e sb rule: expire_points.induct)
    (auto split: if_splits sum.splits prod.splits dest: emit_ingress)

lemma emit_unknown_ingress:
  "ingress_ok env sb \<Longrightarrow> emit_unknown env now ps e sb = (r, e', sb') \<Longrightarrow> ingress_ok env sb'"
  by (induction env now ps e sb rule: emit_unknown.induct)
    (auto split: if_splits sum.splits prod.splits dest: emit_ingress)

lemma point_result_ingress:
  "ingress_ok env sb \<Longrightarrow> point_result env c p val qual nominal completed publish e sb = (r, e', sb') \<Longrightarrow> ingress_ok env sb'"
  by (auto simp: point_result_def Let_def split: if_splits sum.splits prod.splits dest: emit_ingress)

lemma activate_ingress:
  "ingress_ok env sb \<Longrightarrow> activate env c origins now e sb = (r, e', sb') \<Longrightarrow> ingress_ok env sb'"
  unfolding activate_def Let_def
  by (auto split: if_splits option.splits intro: ingress_claim dest: emit_unknown_ingress [OF ingress_claim])

section \<open>Expiry\<close>

definition overdue :: "rat \<Rightarrow> PointEvents \<Rightarrow> PointConfig \<Rightarrow> bool" where
  "overdue now e p \<longleftrightarrow> (\<exists>t. last_seen e p = Inr t \<and> of_int (pc_stale_after_ms p) / 1000 \<le> now - t)"

text \<open>Two states that agree on a point as far as expiry is concerned.\<close>

definition same_view :: "PointEvents \<Rightarrow> PointEvents \<Rightarrow> PointConfig \<Rightarrow> bool" where
  "same_view e e' p \<longleftrightarrow> dget (pe_quality e') (pc_point_id p) = dget (pe_quality e) (pc_point_id p) \<and> last_seen e' p = last_seen e p"

lemma same_view_simps: "same_view e e' p \<Longrightarrow> watched e' p = watched e p \<and> overdue now e' p = overdue now e p"
  by (simp add: same_view_def watched_def overdue_def)

lemma emit_same_view:
  assumes "emit env p val qual completed nominal kind True e sb = (Inr s, e', sb')" "pc_point_id q \<noteq> pc_point_id p"
  shows "same_view e e' q"
  using emit_published_frame [OF assms(1)] assms(2) by (simp add: same_view_def last_seen_def dindex_def dget_or_def)

text \<open>One step of the loop: a watched overdue point is marked, everything else stays.\<close>

lemma expire_points_Cons:
  assumes "expire_points env now (p # ps) e sb = (Inr (), e', sb')"
  obtains (skip) "\<not> (watched e p \<and> overdue now e p)" "expire_points env now ps e sb = (Inr (), e', sb')"
  | (mark) s e1 sb1 where "watched e p" "overdue now e p"
      "emit env p VNone STALE now None QUALITY_STATE True e sb = (Inr s, e1, sb1)"
      "expire_points env now ps e1 sb1 = (Inr (), e', sb')"
  using assms by (auto simp: overdue_def split: if_splits sum.splits prod.splits)

lemma expire_points_unaffected:
  assumes "expire_points env now ps e sb = (Inr (), e', sb')" "pc_point_id q \<notin> pc_point_id ` set ps"
  shows "same_view e e' q"
  using assms
proof (induction ps arbitrary: e sb)
  case Nil
  then show ?case by (simp add: same_view_def)
next
  case (Cons p ps)
  from Cons.prems(1) show ?case
  proof (cases rule: expire_points_Cons)
    case skip
    then show ?thesis using Cons by auto
  next
    case (mark s e1 sb1)
    then have "same_view e e1 q" "same_view e1 e' q" using Cons emit_same_view by auto
    then show ?thesis by (simp add: same_view_def)
  qed
qed

lemma expire_points_context: "expire_points env now ps e sb = (Inr (), e', sb') \<Longrightarrow> pe_context e' = pe_context e"
proof (induction ps arbitrary: e sb)
  case (Cons p ps)
  from Cons.prems show ?case
    by (cases rule: expire_points_Cons) (use Cons.IH emit_published_frame in \<open>metis\<close>)+
qed simp

lemma expire_points_marks:
  assumes "expire_points env now ps e sb = (Inr (), e', sb')" "distinct (map pc_point_id ps)" "p \<in> set ps"
  shows "if watched e p \<and> overdue now e p then dget (pe_quality e') (pc_point_id p) = Some STALE else same_view e e' p"
  using assms
proof (induction ps arbitrary: e sb)
  case (Cons q ps)
  from Cons.prems(1) show ?case
  proof (cases rule: expire_points_Cons)
    case skip
    then show ?thesis using Cons expire_points_unaffected [OF skip(2), of q] by (cases "p = q") auto
  next
    case (mark s e1 sb1)
    note frame = emit_published_frame [OF mark(3)]
    show ?thesis
    proof (cases "p = q")
      case True
      have "same_view e1 e' q" using Cons.prems(2) expire_points_unaffected [OF mark(4), of q] by auto
      with True mark frame show ?thesis by (simp add: same_view_def)
    next
      case False
      with Cons.prems have p: "p \<in> set ps" and "pc_point_id q \<notin> pc_point_id ` set ps" by auto
      then have "pc_point_id p \<noteq> pc_point_id q" by (metis imageI)
      then have v: "same_view e e1 p" using mark(3) by (intro emit_same_view) auto
      show ?thesis
        using Cons.IH [OF mark(4) _ p] Cons.prems(2) same_view_simps [OF v, of now] v
        by (auto simp: same_view_def split: if_splits)
    qed
  qed
qed simp

lemma expire_points_idle:
  "\<forall>p\<in>set ps. watched e p \<longrightarrow> (\<exists>t. last_seen e p = Inr t) \<and> \<not> overdue now e p \<Longrightarrow> expire_points env now ps e sb = (Inr (), e, sb)"
  by (induction ps) (auto simp: overdue_def)

lemma expire_points_seen:
  assumes "expire_points env now ps e sb = (Inr (), e', sb')" "distinct (map pc_point_id ps)" "p \<in> set ps" "watched e p"
  shows "\<exists>t. last_seen e p = Inr t"
  using assms
proof (induction ps arbitrary: e sb)
  case (Cons q ps)
  show ?case
  proof (cases "p = q")
    case True
    with Cons.prems show ?thesis by (auto split: sum.splits)
  next
    case False
    with Cons.prems have p: "p \<in> set ps" and "pc_point_id q \<notin> pc_point_id ` set ps" by auto
    then have ne: "pc_point_id p \<noteq> pc_point_id q" by (metis imageI)
    from Cons.prems(1) show ?thesis
    proof (cases rule: expire_points_Cons)
      case skip
      with Cons p show ?thesis by auto
    next
      case (mark s e1 sb1)
      have v: "same_view e e1 p" using mark(3) ne by (rule emit_same_view)
      with Cons.prems(4) same_view_simps have "watched e1 p" by blast
      with Cons.IH [OF mark(4) _ p] Cons.prems(2) v show ?thesis by (auto simp: same_view_def)
    qed
  qed
qed simp

lemma map_InrD: "map f xs = map Inr ts \<Longrightarrow> x \<in> set xs \<Longrightarrow> \<exists>t\<in>set ts. f x = Inr t"
proof -
  assume eq: "map f xs = map Inr ts" and x: "x \<in> set xs"
  have "f x \<in> set (map f xs)" using x by simp
  then show ?thesis unfolding eq by auto
qed

lemma map_InrI: "map f xs = map Inr ts \<Longrightarrow> t \<in> set ts \<Longrightarrow> \<exists>x\<in>set xs. f x = Inr t"
proof -
  assume eq: "map f xs = map Inr ts" and t: "t \<in> set ts"
  have "Inr t \<in> set (map Inr ts)" using t by simp
  then have "Inr t \<in> set (map f xs)" unfolding eq .
  then show ?thesis by (auto dest: sym)
qed

lemma collect_res_Inr: "collect_res rs = Inr xs \<longleftrightarrow> rs = map Inr xs"
  by (induction rs arbitrary: xs) (auto simp: res_simps Cons_eq_map_conv)

section \<open>A concrete device\<close>

definition demo_cap :: cap_env where
  "demo_cap = \<lparr>ce_acct = demo_env, ce_retained = (\<lambda>_. 500), ce_read = (\<lambda>n t. system_rtc_read (1000000 * t) t)\<rparr>"

definition demo_device :: DeviceConfig where
  "demo_device = \<lparr>dc_device_id = ''D1'', dc_name = ''D1'', dc_enabled = True, dc_protocol = ''modbus_tcp'',
     dc_connection = \<lparr>cc_host = ''h'', cc_port = 502, cc_unit_id = Some 1, cc_connect_timeout_ms = 1000,
       cc_request_timeout_ms = 1000, cc_retry_count = 1, cc_path = None, cc_security_policy = None,
       cc_security_mode = None, cc_username = None, cc_password_env = None\<rparr>,
     dc_points = [demo_point ''P1'' ''uint16'' 0]\<rparr>"

definition demo_context :: SampleContext where
  "demo_context = \<lparr>sc_config_version = 1, sc_device = demo_device, sc_generation = 1, sc_gateway_id = ''PLC-01''\<rparr>"

definition demo_boot :: ProcessBootContext where
  "demo_boot = projr (boot_new ''boot-1'' 0)"

definition demo_buffer :: SampleBuffer where
  "demo_buffer = projr (buffer_new 2 4096 demo_boot (Some ''PLC-01''))"

definition demo_events :: PointEvents where
  "demo_events = fresh_events demo_context [(''P1'', 1)]"

lemmas demo_defs = demo_cap_def demo_device_def demo_context_def demo_boot_def demo_buffer_def demo_events_def
  demo_point_def demo_env_def boot_new_def acct_new_def buffer_new_def fresh_events_def

lemmas emit_eval = emit_def Let_def emit_capture_def capture_def dindex_def ms_def system_rtc_read_def
  next_sample_sequence_def MAX_SAFE_def sample_of_def str_or_def sample_post_init_def event_metadata_ok_def
  safe_from_def good_float_def emit_publish_def put_def event_charge_def FLOAT_OVERFLOW_def

lemma demo_boot_new: "boot_new ''boot-1'' 0 = Inr demo_boot"
  by (simp add: demo_boot_def boot_new_def acct_new_def)

lemma demo_buffer_init: "ingress_init demo_buffer"
proof -
  have "buffer_new 2 4096 demo_boot (Some ''PLC-01'') = Inr demo_buffer" by (simp add: demo_buffer_def buffer_new_def)
  then show ?thesis using demo_boot_new unfolding ingress_init_def by blast
qed

section \<open>Properties\<close>



text \<open>A published emission is never silent: the event gets the next unused identity of the
  boot and is either appended to the ingress queue or counted as dropped, exactly one of the two,
  and it becomes the latest value and quality of its point. In particular the submission
  of a just captured event is never refused.\<close>

theorem emit_queued_or_counted:
  assumes "ingress_ok env sb" "emit env p val qual completed nominal kind True e sb = (Inr s, e', sb')"
  shows "s_sample_seq s = Some (bt_sample_sequence (sb_boot sb) + 1) \<and> s_quality s = qual
    \<and> sb_captured_events sb' = sb_captured_events sb + 1
    \<and> (sb_queue sb' = sb_queue sb @ [s] \<and> sb_dropped sb' = sb_dropped sb
       \<or> sb_queue sb' = sb_queue sb \<and> sb_dropped sb' = sb_dropped sb + 1)
    \<and> dget (pe_latest e') (pc_point_id p) = Some s \<and> dget (pe_quality e') (pc_point_id p) = Some qual"
  using assms(2)
proof (cases rule: emit_split)
  case (published e1 s' q sb1 sb2 clock)
  then have [simp]: "s' = s" by (cases q) auto
  obtain version device origin generation gw clk where
    c: "capture env version device (pc_point_id p) val qual completed nominal origin generation kind gw clk sb = (Inr s, sb1)"
    using emit_captureD [OF published(4)] by auto
  from put_captured [OF assms(1) c] published emit_published_frame [OF assms(2)] show ?thesis by auto
qed auto

theorem emit_queued_or_counted_witness:
  "\<exists>s e' sb'. emit demo_cap (demo_point ''P1'' ''uint16'' 0) (VNum (PyInt 5)) GOOD 2 (Some 2) PHYSICAL_RESULT True
       demo_events demo_buffer = (Inr s, e', sb') \<and> s_sample_seq s = Some 1"
proof -
  let ?r = "emit demo_cap (demo_point ''P1'' ''uint16'' 0) (VNum (PyInt 5)) GOOD 2 (Some 2) PHYSICAL_RESULT True
       demo_events demo_buffer"
  have "\<not> isl (fst ?r)" by (simp add: demo_defs emit_eval)
  then obtain s e' sb' where r: "?r = (Inr s, e', sb')" by (cases ?r; cases "fst ?r") auto
  have "s_sample_seq s = Some 1"
    using emit_queued_or_counted [OF ingress_init_ok [OF demo_buffer_init] r] by (simp add: demo_defs)
  with r show ?thesis by blast
qed

text \<open>Expiry is exact and reported once: after \<open>expire\<close> at a time, exactly the watched
  points whose last result (or origin) is at least their staleness limit in the past have
  become STALE, every other point keeps its quality, and a second call at the same time
  changes nothing and emits nothing.\<close>

theorem expire_exact_once:
  assumes "pe_context e = Some c" "distinct (map pc_point_id (dc_points (sc_device c)))"
    and "expire env now e sb = (Inr (), e', sb')"
  shows "(\<forall>p\<in>set (dc_points (sc_device c)). dget (pe_quality e') (pc_point_id p) =
       (if watched e p \<and> overdue now e p then Some STALE else dget (pe_quality e) (pc_point_id p)))
    \<and> expire env now e' sb' = (Inr (), e', sb')"
proof -
  let ?ps = "dc_points (sc_device c)"
  have run: "expire_points env now ?ps e sb = (Inr (), e', sb')" using assms by (simp add: expire_def)
  note marks = expire_points_marks [OF run assms(2)]
  have "watched e' p \<longrightarrow> (\<exists>t. last_seen e' p = Inr t) \<and> \<not> overdue now e' p" if p: "p \<in> set ?ps" for p
  proof (cases "watched e p \<and> overdue now e p")
    case True
    with marks [OF p] show ?thesis by (simp add: watched_def)
  next
    case False
    with marks [OF p] have "same_view e e' p" by simp
    with False same_view_simps [OF this, of now] expire_points_seen [OF run assms(2) p]
    show ?thesis by (auto simp: same_view_def)
  qed
  then have "expire_points env now ?ps e' sb' = (Inr (), e', sb')" by (intro expire_points_idle) blast
  moreover have "pe_context e' = Some c" using expire_points_context [OF run] assms(1) by simp
  moreover have "dget (pe_quality e') (pc_point_id p) =
       (if watched e p \<and> overdue now e p then Some STALE else dget (pe_quality e) (pc_point_id p))" if "p \<in> set ?ps" for p
    using marks [OF that] by (auto simp: same_view_def)
  ultimately show ?thesis by (simp add: expire_def)
qed

theorem expire_exact_once_witness:
  "\<exists>e' sb'. expire demo_cap 100 demo_events demo_buffer = (Inr (), e', sb')
     \<and> dget (pe_quality e') ''P1'' = Some STALE \<and> expire demo_cap 100 e' sb' = (Inr (), e', sb')"
proof -
  have "\<not> isl (fst (expire demo_cap 100 demo_events demo_buffer))"
    by (simp add: demo_defs expire_def watched_def last_seen_def dget_or_def emit_eval)
  then obtain e' sb' where r: "expire demo_cap 100 demo_events demo_buffer = (Inr (), e', sb')"
    by (cases "expire demo_cap 100 demo_events demo_buffer"; cases "fst (expire demo_cap 100 demo_events demo_buffer)") auto
  have c: "pe_context demo_events = Some demo_context" by (simp add: demo_events_def fresh_events_def)
  have "distinct (map pc_point_id (dc_points (sc_device demo_context)))" by (simp add: demo_defs)
  from expire_exact_once [OF c this r] r show ?thesis
    by (simp add: demo_defs watched_def overdue_def last_seen_def dindex_def dget_or_def)
qed

text \<open>\<open>next_expiry\<close> is the exact wake-up time: before it (or when it is infinite) \<open>expire\<close>
  does nothing, and from it on some watched point is overdue.\<close>

theorem next_expiry_exact:
  assumes "next_expiry e = Inr limit"
  shows "((\<forall>t. limit = Some t \<longrightarrow> now < t) \<longrightarrow> expire env now e sb = (Inr (), e, sb))
    \<and> (\<forall>t c. limit = Some t \<and> t \<le> now \<and> pe_context e = Some c \<longrightarrow>
         (\<exists>p\<in>set (dc_points (sc_device c)). watched e p \<and> overdue now e p))"
proof (cases "pe_context e")
  case None
  then show ?thesis by (simp add: expire_def)
next
  case (Some c)
  let ?ps = "filter (watched e) (dc_points (sc_device c))"
  let ?due = "\<lambda>p. rbind (last_seen e p) (\<lambda>t. Inr (t + of_int (pc_stale_after_ms p) / 1000))"
  obtain ts where ts: "map ?due ?ps = map Inr ts" and limit: "limit = min_opt ts"
    using assms Some by (auto simp: next_expiry_def res_simps collect_res_Inr)
  have due: "\<exists>t. last_seen e p = Inr t \<and> t + of_int (pc_stale_after_ms p) / 1000 \<in> set ts" if "p \<in> set ?ps" for p
    using map_InrD [OF ts that] by (auto simp: res_simps)
  have "watched e p \<longrightarrow> (\<exists>t. last_seen e p = Inr t) \<and> \<not> overdue now e p"
    if "\<forall>t. limit = Some t \<longrightarrow> now < t" "p \<in> set (dc_points (sc_device c))" for p
  proof
    assume "watched e p"
    with due [of p] that(2) obtain t where t: "last_seen e p = Inr t" "t + of_int (pc_stale_after_ms p) / 1000 \<in> set ts"
      by auto
    then have "Min (set ts) \<le> t + of_int (pc_stale_after_ms p) / 1000" by simp
    with that(1) t limit have "now < t + of_int (pc_stale_after_ms p) / 1000" by (auto simp: min_opt_def split: if_splits)
    with t show "(\<exists>t. last_seen e p = Inr t) \<and> \<not> overdue now e p" by (auto simp: overdue_def)
  qed
  moreover have "\<exists>p\<in>set (dc_points (sc_device c)). watched e p \<and> overdue now e p" if "limit = Some t" "t \<le> now" for t
  proof -
    have "t \<in> set ts" using that limit Min_in [of "set ts"] by (auto simp: min_opt_def split: if_splits)
    then obtain p where p: "p \<in> set ?ps" "?due p = Inr t" using map_InrI [OF ts] by blast
    then show ?thesis using that(2) by (auto simp: res_simps overdue_def)
  qed
  ultimately show ?thesis using Some expire_points_idle by (auto simp: expire_def)
qed

theorem next_expiry_exact_witness:
  "next_expiry demo_events = Inr (Some 4) \<and> expire demo_cap 3 demo_events demo_buffer = (Inr (), demo_events, demo_buffer)"
proof -
  have n: "next_expiry demo_events = Inr (Some 4)"
    by (simp add: next_expiry_def demo_defs watched_def last_seen_def dindex_def dget_or_def min_opt_def)
  then show ?thesis using next_expiry_exact [OF n, of 3] by simp
qed

text \<open>When the time generation changes, a point's origin moves along its own polling grid to
  the first slot that is not before the start of the generation (or stays on a later slot).\<close>

theorem rebase_origin_first_slot:
  assumes "rebase_origin clock p completed (Some q) e = Inr e'" "0 < pc_poll_interval_ms p"
    and "ct_generation_started_mono_ms clock = Some since"
  shows "\<exists>k t. dget (pe_origins e') (pc_point_id p) = Some (of_int t / 1000) \<and> 0 \<le> k
    \<and> t = ms q + k * pc_poll_interval_ms p \<and> since \<le> t \<and> (k = 0 \<or> t - pc_poll_interval_ms p < since)"
proof -
  define s where "s = pc_poll_interval_ms p"
  define k where "k = max 0 ((since - ms q + s - 1) div s)"
  have s: "0 < s" using assms(2) by (simp add: s_def)
  have e': "dget (pe_origins e') (pc_point_id p) = Some (of_int (ms q + k * s) / 1000)"
    using assms by (auto simp: rebase_origin_def Let_def k_def s_def)
  have split: "(since - ms q + s - 1) div s * s + (since - ms q + s - 1) mod s = since - ms q + s - 1" by simp
  have mod: "0 \<le> (since - ms q + s - 1) mod s" "(since - ms q + s - 1) mod s < s" using s by simp_all
  have low: "since \<le> ms q + k * s"
  proof -
    have "(since - ms q + s - 1) div s * s \<le> k * s" using s by (intro mult_right_mono) (auto simp: k_def)
    with split mod show ?thesis by linarith
  qed
  have "ms q + k * s - s < since" if "k \<noteq> 0"
  proof -
    have "k = (since - ms q + s - 1) div s" using that by (auto simp: k_def max_def split: if_splits)
    then have "k * s = (since - ms q + s - 1) div s * s" by simp
    with split mod show ?thesis by linarith
  qed
  moreover have "0 \<le> k" by (simp add: k_def)
  ultimately show ?thesis
    using e' low by (intro exI [of _ k] exI [of _ "ms q + k * s"]) (auto simp: s_def)
qed

theorem rebase_origin_first_slot_witness:
  "\<exists>e' k t. rebase_origin ((system_rtc_read 0 0)\<lparr>ct_generation_started_mono_ms := Some 4500\<rparr>)
        (demo_point ''P1'' ''uint16'' 0) 5 (Some 2) demo_events = Inr e'
     \<and> dget (pe_origins e') ''P1'' = Some (of_int t / 1000) \<and> t = 2000 + k * 1000 \<and> 4500 \<le> t \<and> (k = 0 \<or> t - 1000 < 4500)"
proof -
  let ?clock = "(system_rtc_read 0 0)\<lparr>ct_generation_started_mono_ms := Some 4500\<rparr>"
  have "\<not> isl (rebase_origin ?clock (demo_point ''P1'' ''uint16'' 0) 5 (Some 2) demo_events)"
    by (simp add: rebase_origin_def Let_def demo_point_def)
  then obtain e' where r: "rebase_origin ?clock (demo_point ''P1'' ''uint16'' 0) 5 (Some 2) demo_events = Inr e'"
    by (cases "rebase_origin ?clock (demo_point ''P1'' ''uint16'' 0) 5 (Some 2) demo_events") auto
  have "0 < pc_poll_interval_ms (demo_point ''P1'' ''uint16'' 0)" "ct_generation_started_mono_ms ?clock = Some 4500"
    by (simp_all add: demo_point_def)
  from rebase_origin_first_slot [OF r this] r show ?thesis
    by (auto simp: demo_point_def ms_def)
qed

end
