(* ===== verification/Engine.thy ===== *)
theory Engine
  imports Samples "HOL-Library.Multiset"
begin

text \<open>
  Event selection, batching and ownership: \<open>ReportEngine\<close> of \<^verbatim>\<open>reporting/engine.py\<close>.
  The lengths of encoded JSON and the draws of \<^verbatim>\<open>uuid4\<close> are parameters (\<open>eng_env\<close>); the
  retained size of an event is that of \<open>cap_env\<close>. A payload is kept as the object it encodes.

  After \<open>configure\<close> the dictionaries of baselines, epochs, seen sequences and report slots are
  those of the boot context's checkpoint; \<open>sync\<close> writes them back where the source mutates them.
\<close>

section \<open>State\<close>

record telemetry =
  tm_gateway :: string
  tm_timestamp :: int
  tm_message_id :: string
  tm_boot_id :: string
  tm_sequence :: nat
  tm_config_version :: nat
  tm_values :: "Sample list"

record ReportBatch =
  bb_payload :: telemetry
  bb_version :: nat
  bb_samples :: "Sample list"
  bb_prepared_at :: rat
  bb_sequence :: nat

record eng_env =
  ee_cap :: cap_env
  ee_value_len :: "Sample \<Rightarrow> nat"
  ee_payload_len :: "telemetry \<Rightarrow> nat"
  ee_uuid :: "nat \<Rightarrow> string"

type_synonym identity = "string option \<times> nat option"

record engine =
  en_gateway :: string
  en_boot_id :: string
  en_boot :: ProcessBootContext
  en_capacity :: nat
  en_max_bytes :: nat
  en_used_bytes :: int
  en_refs :: "(identity, Sample \<times> nat) dict"
  en_snapshot :: "ConfigSnapshot option"
  en_generation :: "int option"
  en_points :: "(point_key, PointConfig) dict"
  en_latest :: "(point_key, Sample) dict"
  en_baselines :: "(point_key, Sample \<times> rat) dict"
  en_shadows :: "(point_key, Sample) dict"
  en_epochs :: "(point_key, epoch) dict"
  en_seen :: "(point_key, nat) dict"
  en_next_report_due :: "(point_key, int) dict"
  en_owned :: "(identity, Sample) dict"
  en_queue :: "(Sample \<times> nat) list"
  en_frozen :: "(nat, ReportBatch) dict"
  en_owners :: "(epoch \<times> point_key, (nat, Sample) dict) dict"
  en_history :: "(Sample \<times> nat) list"
  en_classes :: "(nat, category) dict"
  en_prefer_new :: bool
  en_watermark :: nat
  en_next_batch :: rat
  en_discarded :: nat
  en_cache_reset_points :: nat
  en_eligible_events :: nat
  en_policy_filtered_events :: nat
  en_known_unsent_events :: nat
  en_time_invalid_events :: nat
  en_missed_report_slots :: nat
  en_admission_rejected_events :: nat

definition engine_new :: "string \<Rightarrow> string \<Rightarrow> ProcessBootContext \<Rightarrow> nat \<Rightarrow> nat \<Rightarrow> engine res" where
  "engine_new gw boot_id boot capacity max_bytes =
     (if \<not> (1 \<le> capacity \<and> capacity \<le> 32768) then Inl (ValueError ''Selected-event capacity must be 1..32768'')
      else if bt_boot_id boot \<noteq> boot_id then Inl (ValueError ''Report engine boot identity does not match its process context'')
      else if max_bytes < 1 then Inl (ValueError ''Selected-event byte limit must be positive'')
      else Inr \<lparr>en_gateway = gw, en_boot_id = boot_id, en_boot = boot, en_capacity = capacity, en_max_bytes = max_bytes,
        en_used_bytes = 0, en_refs = [], en_snapshot = None, en_generation = None, en_points = [], en_latest = [],
        en_baselines = [], en_shadows = [], en_epochs = [], en_seen = [], en_next_report_due = [], en_owned = [],
        en_queue = [], en_frozen = [], en_owners = [], en_history = [], en_classes = [], en_prefer_new = True,
        en_watermark = 0, en_next_batch = 0, en_discarded = 0, en_cache_reset_points = 0, en_eligible_events = 0,
        en_policy_filtered_events = 0, en_known_unsent_events = 0, en_time_invalid_events = 0,
        en_missed_report_slots = 0, en_admission_rejected_events = 0\<rparr>)"

definition identity :: "Sample \<Rightarrow> identity" where
  "identity s = (s_capture_boot_id s, s_sample_seq s)"

definition epoch_of :: "Sample \<Rightarrow> epoch" where
  "epoch_of s = (s_config_version s, s_config_generation s, s_time_generation s)"

definition key_of :: "Sample \<Rightarrow> point_key" where
  "key_of s = (s_device_id s, s_point_id s)"

definition seq_of :: "Sample \<Rightarrow> nat" where
  "seq_of s = the (s_sample_seq s)"

abbreviation charge_of :: "eng_env \<Rightarrow> Sample \<Rightarrow> int" where
  "charge_of env s \<equiv> int (event_charge (ee_cap env) s)"

definition batch_charge :: "eng_env \<Rightarrow> ReportBatch \<Rightarrow> int" where
  "batch_charge env b = int (ee_payload_len env (bb_payload b) + 256 + 8 * length (bb_samples b))"

section \<open>Reference counts\<close>

definition retain :: "eng_env \<Rightarrow> Sample \<Rightarrow> (unit, engine) prog" where
  "retain env s st =
     (case dget (en_refs st) (identity s) of
        None \<Rightarrow> (Inr (), st\<lparr>en_refs := dset (identity s) (s, 1) (en_refs st),
                          en_used_bytes := en_used_bytes st + charge_of env s\<rparr>)
      | Some (x, n) \<Rightarrow> (Inr (), st\<lparr>en_refs := dset (identity s) (x, n + 1) (en_refs st)\<rparr>))"

definition forget :: "eng_env \<Rightarrow> Sample \<Rightarrow> (unit, engine) prog" where
  "forget env s st =
     (case dget (en_refs st) (identity s) of
        None \<Rightarrow> (Inl KeyError, st)
      | Some (x, n) \<Rightarrow>
          (if n = 1 then (Inr (), st\<lparr>en_used_bytes := en_used_bytes st - charge_of env s,
                               en_refs := ddel (identity s) (en_refs st)\<rparr>)
           else (Inr (), st\<lparr>en_refs := dset (identity s) (x, n - 1) (en_refs st)\<rparr>)))"

section \<open>Configuration\<close>

definition points_of :: "ConfigSnapshot option \<Rightarrow> (point_key, PointConfig) dict" where
  "points_of snapshot =
     (case snapshot of None \<Rightarrow> []
      | Some c \<Rightarrow> foldl (\<lambda>d (k, p). dset k p d) []
          [((dc_device_id d, pc_point_id p), p). d \<leftarrow> cs_devices c, p \<leftarrow> dc_points d,
             cs_enabled c \<and> dc_enabled d \<and> pc_enabled p])"

definition sync :: "engine \<Rightarrow> engine" where
  "sync st = st\<lparr>en_boot := (en_boot st)\<lparr>bt_report_checkpoint :=
     map_option (\<lambda>k. if rk_identity k = (en_snapshot st, en_generation st)
       then k\<lparr>rk_baselines := en_baselines st, rk_epochs := en_epochs st, rk_seen := en_seen st,
              rk_next_due := en_next_report_due st\<rparr> else k) (bt_report_checkpoint (en_boot st))\<rparr>\<rparr>"

definition interval_s :: "ConfigSnapshot option \<Rightarrow> rat" where
  "interval_s snapshot = (case snapshot of None \<Rightarrow> 1 | Some c \<Rightarrow> of_int (rc_batch_interval_ms (cs_report c)) / 1000)"

definition checkpoint_for :: "ConfigSnapshot option \<times> int option \<Rightarrow> report_checkpoint option \<Rightarrow> report_checkpoint" where
  "checkpoint_for ident k =
     (let fresh = \<lparr>rk_identity = ident, rk_baselines = [], rk_epochs = [], rk_seen = [], rk_next_due = []\<rparr>
      in case k of None \<Rightarrow> fresh | Some c \<Rightarrow> if rk_identity c \<noteq> ident then fresh else c)"

definition load_checkpoint :: "engine \<Rightarrow> engine" where
  "load_checkpoint st =
     (let k = checkpoint_for (en_snapshot st, en_generation st) (bt_report_checkpoint (en_boot st))
      in st\<lparr>en_boot := (en_boot st)\<lparr>bt_report_checkpoint := Some k\<rparr>, en_baselines := rk_baselines k,
            en_epochs := rk_epochs k, en_seen := rk_seen k, en_next_report_due := rk_next_due k\<rparr>)"

text \<open>\<open>configure\<close>: everything the old view referenced is forgotten before it is dropped, the
  baselines of the checkpoint are retained.\<close>

definition configure :: "eng_env \<Rightarrow> ConfigSnapshot option \<Rightarrow> rat \<Rightarrow> int option \<Rightarrow> (unit, engine) prog" where
  "configure env snapshot now generation st =
     (if snapshot = en_snapshot st \<and> generation = en_generation st then (Inr (), st)
      else (let latest = dvals (en_latest st); base = map fst (dvals (en_baselines st))
        in sbind (supd (\<lambda>st. st\<lparr>en_cache_reset_points := en_cache_reset_points st + length (en_latest st),
                en_snapshot := snapshot, en_generation := generation, en_points := points_of snapshot\<rparr>)) (\<lambda>_.
           sbind (sfold (forget env) latest) (\<lambda>_.
           sbind (sfold (forget env) base) (\<lambda>_.
           sbind (supd (\<lambda>st. load_checkpoint (st\<lparr>en_latest := [], en_shadows := []\<rparr>))) (\<lambda>_.
           sbind (\<lambda>st. sfold (retain env) (map fst (dvals (en_baselines st))) st) (\<lambda>_.
           supd (\<lambda>st. st\<lparr>en_next_batch := now + interval_s snapshot\<rparr>)))))) st))"

definition open_gate :: "nat \<Rightarrow> engine \<Rightarrow> engine" where
  "open_gate watermark st =
     st\<lparr>en_watermark := watermark, en_history := en_history st @ en_queue st, en_queue := [],
        en_classes := map (\<lambda>seq. (seq, History)) (dkeys (en_frozen st))\<rparr>"

section \<open>Selection of an event\<close>

definition reserve :: "engine \<Rightarrow> int" where
  "reserve st = int (min (2 * 1024 * 1024) (en_max_bytes st div 8))"

definition can_admit :: "eng_env \<Rightarrow> Sample \<Rightarrow> engine \<Rightarrow> bool" where
  "can_admit env s st \<longleftrightarrow>
     length (en_owned st) < en_capacity st
     \<and> en_used_bytes st + (if identity s \<in> set (dkeys (en_refs st)) then 0 else charge_of env s)
         \<le> int (en_max_bytes st) - reserve st"

text \<open>\<open>_baseline\<close>: the newer of the admitted and the committed event, the shadow on a tie.\<close>

definition baseline :: "point_key \<Rightarrow> engine \<Rightarrow> Sample option" where
  "baseline k st =
     (case (dget (en_shadows st) k, map_option fst (dget (en_baselines st) k)) of
        (None, b) \<Rightarrow> b | (Some a, None) \<Rightarrow> Some a
      | (Some a, Some b) \<Rightarrow> Some (if seq_of b > seq_of a then b else a))"

definition value_moved :: "PointConfig \<Rightarrow> pyval \<Rightarrow> pyval \<Rightarrow> bool" where
  "value_moved p new old =
     (case (new, old) of
        (VBool a, VBool b) \<Rightarrow> a \<noteq> b
      | (VNum a, VNum b) \<Rightarrow> \<bar>num_value a - num_value b\<bar> > num_value (pc_deadband p)
      | _ \<Rightarrow> True)"

definition changed :: "PointConfig \<Rightarrow> Sample \<Rightarrow> Sample option \<Rightarrow> bool" where
  "changed p s base =
     (case base of None \<Rightarrow> True
      | Some b \<Rightarrow> s_quality b \<noteq> s_quality s
          \<or> s_quality s = GOOD \<and> pc_report_mode p \<in> {''change'', ''change_or_cyclic''} \<and> value_moved p (s_value s) (s_value b))"

definition eng_account :: "(acct \<Rightarrow> acct) \<Rightarrow> engine \<Rightarrow> engine" where
  "eng_account f st = st\<lparr>en_boot := boot_account f (en_boot st)\<rparr>"

definition forget_baseline :: "eng_env \<Rightarrow> point_key \<Rightarrow> (unit, engine) prog" where
  "forget_baseline env k st =
     (case dget (en_baselines st) k of None \<Rightarrow> (Inr (), st)
      | Some (old, _) \<Rightarrow> forget env old (st\<lparr>en_baselines := ddel k (en_baselines st)\<rparr>))"

definition forget_latest :: "eng_env \<Rightarrow> point_key \<Rightarrow> (unit, engine) prog" where
  "forget_latest env k st =
     (case dget (en_latest st) k of None \<Rightarrow> (Inr (), st)
      | Some old \<Rightarrow> forget env old (st\<lparr>en_latest := ddel k (en_latest st)\<rparr>))"

definition note_epoch :: "eng_env \<Rightarrow> Sample \<Rightarrow> (unit, engine) prog" where
  "note_epoch env s st =
     (let k = key_of s
      in if dget (en_epochs st) k = Some (epoch_of s) then (Inr (), st)
         else sbind (supd (\<lambda>st. st\<lparr>en_epochs := dset k (epoch_of s) (en_epochs st)\<rparr>)) (\<lambda>_.
              sbind (forget_baseline env k) (\<lambda>_.
              supd (\<lambda>st. st\<lparr>en_shadows := ddel k (en_shadows st),
                     en_next_report_due := dset k (the (s_nominal_origin_mono_ms s)) (en_next_report_due st)\<rparr>))) st)"

definition note_latest :: "eng_env \<Rightarrow> Sample \<Rightarrow> (unit, engine) prog" where
  "note_latest env s =
     sbind (forget_latest env (key_of s)) (\<lambda>_ st.
       if en_used_bytes st + charge_of env s \<le> int (en_max_bytes st) - reserve st
       then retain env s (st\<lparr>en_latest := dset (key_of s) s (en_latest st)\<rparr>)
       else (Inr (), st))"

text \<open>The cyclic slot rule; the result says whether the event falls in a due slot.\<close>

definition cyclic_due :: "PointConfig \<Rightarrow> Sample \<Rightarrow> (bool, engine) prog" where
  "cyclic_due p s st =
     (if pc_report_mode p = ''change'' \<or> s_kind s \<noteq> PHYSICAL_RESULT then (Inr False, st)
      else case s_nominal_poll_due_mono_ms s of
        None \<Rightarrow> (Inl (ValueError ''Invalid physical slot''), st)
      | Some q \<Rightarrow>
         (if q > the (s_completed_mono_ms s) then (Inl (ValueError ''Invalid physical slot''), st)
          else case dget (en_next_report_due st) (key_of s) of
            None \<Rightarrow> (Inl KeyError, st)
          | Some due \<Rightarrow>
             (if q < due then (Inr False, st)
              else if pc_report_interval_ms p = 0 then (Inl ZeroDivisionError, st)
              else let count = (q - due) div pc_report_interval_ms p + 1
                   in (Inr True, eng_account (acct_add missedReportSlotsTotal (nat (count - 1)))
                        (st\<lparr>en_missed_report_slots := en_missed_report_slots st + nat (count - 1),
                            en_next_report_due := dset (key_of s) (due + count * pc_report_interval_ms p) (en_next_report_due st)\<rparr>)))))"

definition admit_owned :: "Sample \<Rightarrow> engine \<Rightarrow> engine" where
  "admit_owned s st = st\<lparr>en_owned := dset (identity s) s (en_owned st)\<rparr>"

definition admit_queue :: "Sample \<Rightarrow> engine \<Rightarrow> engine" where
  "admit_queue s st =
     (let ek = (epoch_of s, key_of s);
          limit = (case en_snapshot st of None \<Rightarrow> 500 | Some c \<Rightarrow> min 500 (rc_max_batch_points (cs_report c)));
          st = st\<lparr>en_owners := dset ek (dset (seq_of s) s (dget_or (en_owners st) ek [])) (en_owners st)\<rparr>;
          st = (if seq_of s \<le> en_watermark st then st\<lparr>en_history := en_history st @ [(s, limit)]\<rparr>
                else st\<lparr>en_queue := en_queue st @ [(s, limit)]\<rparr>)
      in st\<lparr>en_shadows := dset (key_of s) s (en_shadows st)\<rparr>)"

definition accept_selected :: "eng_env \<Rightarrow> Sample \<Rightarrow> (bool, engine) prog" where
  "accept_selected env s st =
     (let ae = ce_acct (ee_cap env); st = st\<lparr>en_eligible_events := en_eligible_events st + 1\<rparr>
      in if s_timestamp s = None \<or> \<not> (s_time_valid s \<or> s_time_source s = ''SYSTEM_RTC_COMPAT'')
         then (Inr False, eng_account (\<lambda>a. snd (decided ae s True False (Some ''TIME_INVALID'') a))
                (st\<lparr>en_time_invalid_events := en_time_invalid_events st + 1,
                    en_known_unsent_events := en_known_unsent_events st + 1\<rparr>))
         else if \<not> can_admit env s st
         then (Inr False, eng_account (\<lambda>a. snd (decided ae s True False (Some ''CAPACITY_EVICTION'') a))
                (st\<lparr>en_admission_rejected_events := en_admission_rejected_events st + 1,
                    en_known_unsent_events := en_known_unsent_events st + 1\<rparr>))
         else if \<not> fst (decided ae s True True None (bt_accounting (en_boot st)))
         then (Inr False, eng_account (\<lambda>a. snd (decided ae s True True None a)) st)
         else sbind (supd (\<lambda>st. admit_owned s (eng_account (\<lambda>a. snd (decided ae s True True None a)) st))) (\<lambda>_.
              sbind (retain env s) (\<lambda>_.
              sbind (supd (admit_queue s)) (\<lambda>_. sret True))) st)"

definition belongs :: "Sample \<Rightarrow> engine \<Rightarrow> bool" where
  "belongs s st \<longleftrightarrow>
     s_gateway_id s = Some (en_gateway st)
     \<and> (case en_snapshot st of None \<Rightarrow> False | Some c \<Rightarrow> s_config_version s = cs_config_version c)
     \<and> key_of s \<in> set (dkeys (en_points st))
     \<and> (case en_generation st of None \<Rightarrow> True | Some g \<Rightarrow> s_config_generation s = g)"

definition accept :: "eng_env \<Rightarrow> Sample \<Rightarrow> (bool, engine) prog" where
  "accept env s st =
     (if \<not> belongs s st
      then (Inr False, eng_account (\<lambda>a. snd (undecided (ce_acct (ee_cap env)) s ''VERSION_DISCARD'' False a))
             (st\<lparr>en_discarded := en_discarded st + 1\<rparr>))
      else if s_capture_boot_id s = None \<or> s_sample_seq s = None \<or> s_completed_mono_ms s = None \<or> s_nominal_origin_mono_ms s = None
      then (Inl (ValueError ''Reporting requires a captured event identity and scheduler origin''), st)
      else if s_capture_boot_id s \<noteq> Some (en_boot_id st)
      then (Inl (ValueError ''Capture boot differs from reporting process boot''), st)
      else if seq_of s \<le> dget_or (en_seen st) (key_of s) 0 then (Inr False, st)
      else case dget (en_points st) (key_of s) of None \<Rightarrow> (Inl KeyError, st)
       | Some p \<Rightarrow>
          (let (r, st) =
             sbind (supd (\<lambda>st. st\<lparr>en_seen := dset (key_of s) (seq_of s) (en_seen st)\<rparr>)) (\<lambda>_.
             sbind (note_epoch env s) (\<lambda>_.
             sbind (note_latest env s) (\<lambda>_.
             sbind (\<lambda>st. (Inr (changed p s (baseline (key_of s) st)), st)) (\<lambda>moved.
             sbind (cyclic_due p s) (\<lambda>due.
               if moved \<or> due then accept_selected env s
               else sbind (supd (\<lambda>st. eng_account (\<lambda>a. snd (decided (ce_acct (ee_cap env)) s False False None a))
                      (st\<lparr>en_policy_filtered_events := en_policy_filtered_events st + 1\<rparr>))) (\<lambda>_. sret False)))))) st
           in (r, sync st)))"

section \<open>Batches\<close>

fun pick :: "eng_env \<Rightarrow> (Sample \<times> nat) list \<Rightarrow> Sample list \<Rightarrow> nat \<Rightarrow> nat \<Rightarrow> Sample list" where
  "pick env [] pending used limit = pending"
| "pick env ((s, sample_limit) # rest) pending used limit =
     (let len = ee_value_len env s + 1
      in if pending \<noteq> [] \<and> (key_of s \<in> key_of ` set pending \<or> s_config_version s \<noteq> s_config_version (hd pending)
              \<or> length pending \<ge> min limit sample_limit \<or> used + len > 131072)
         then pending
         else pick env rest (pending @ [s]) (used + len) (min limit sample_limit))"

definition class_count :: "category \<Rightarrow> engine \<Rightarrow> nat" where
  "class_count c st = length (filter (\<lambda>v. v = c) (dvals (en_classes st)))"

definition queue_of :: "category \<Rightarrow> engine \<Rightarrow> (Sample \<times> nat) list" where
  "queue_of c st = (case c of New \<Rightarrow> en_queue st | History \<Rightarrow> en_history st)"

definition set_queue :: "category \<Rightarrow> (Sample \<times> nat) list \<Rightarrow> engine \<Rightarrow> engine" where
  "set_queue c q st = (case c of New \<Rightarrow> st\<lparr>en_queue := q\<rparr> | History \<Rightarrow> st\<lparr>en_history := q\<rparr>)"

definition choose_class :: "engine \<Rightarrow> category option" where
  "choose_class st =
     (let available = filter (\<lambda>c. queue_of c st \<noteq> [] \<and> class_count c st < 7) [New, History];
          wanted = (if en_prefer_new st then New else History)
      in if available = [] then None else Some (if wanted \<in> set available then wanted else hd available))"

definition payload_for :: "eng_env \<Rightarrow> int \<Rightarrow> nat \<Rightarrow> Sample list \<Rightarrow> engine \<Rightarrow> telemetry" where
  "payload_for env wall_ms sequence pending st =
     \<lparr>tm_gateway = en_gateway st, tm_timestamp = wall_ms, tm_message_id = ''batch-'' @ ee_uuid env sequence,
      tm_boot_id = en_boot_id st, tm_sequence = sequence, tm_config_version = s_config_version (hd pending),
      tm_values = pending\<rparr>"

definition make_batch :: "eng_env \<Rightarrow> rat \<Rightarrow> int \<Rightarrow> nat \<Rightarrow> Sample list \<Rightarrow> engine \<Rightarrow> ReportBatch" where
  "make_batch env now wall_ms sequence pending st =
     \<lparr>bb_payload = payload_for env wall_ms sequence pending st, bb_version = s_config_version (hd pending),
      bb_samples = pending, bb_prepared_at = now, bb_sequence = sequence\<rparr>"

definition freeze_batch :: "eng_env \<Rightarrow> category \<Rightarrow> ReportBatch \<Rightarrow> (ReportBatch option, engine) prog" where
  "freeze_batch env category batch st =
     (if ee_payload_len env (bb_payload batch) > 131072
      then (Inl (ValueError ''Telemetry batch exceeds byte limit''), st)
      else if en_used_bytes st + batch_charge env batch > int (en_max_bytes st) then (Inr None, st)
      else let st = st\<lparr>en_frozen := dset (bb_sequence batch) batch (en_frozen st)\<rparr>;
               (err, a) = materialized (ce_acct (ee_cap env)) (bb_sequence batch) (tm_message_id (bb_payload batch))
                            (bt_accounting (en_boot st));
               st = eng_account (\<lambda>_. a) st
           in case err of Some e \<Rightarrow> (Inl e, st)
              | None \<Rightarrow> (Inr (Some batch), set_queue category (drop (length (bb_samples batch)) (queue_of category st))
                  (st\<lparr>en_classes := dset (bb_sequence batch) category (en_classes st),
                      en_used_bytes := en_used_bytes st + batch_charge env batch,
                      en_prefer_new := (category \<noteq> New)\<rparr>)))"

text \<open>One round of the loop: None when it breaks.\<close>

definition freeze_one :: "eng_env \<Rightarrow> rat \<Rightarrow> int \<Rightarrow> (ReportBatch option, engine) prog" where
  "freeze_one env now wall_ms st =
     (case choose_class st of None \<Rightarrow> (Inr None, st)
      | Some category \<Rightarrow>
         (case next_sequence (en_boot st) of Inl e \<Rightarrow> (Inl e, st)
          | Inr (sequence, boot) \<Rightarrow>
              freeze_batch env category
                (make_batch env now wall_ms sequence (pick env (take 500 (queue_of category st)) [] 512 500) st)
                (st\<lparr>en_boot := boot\<rparr>)))"

definition backlog :: "engine \<Rightarrow> nat" where
  "backlog st = length (en_queue st) + length (en_history st)"


lemma pick_extends: "\<exists>rest. pick env q pending used limit = pending @ rest"
  by (induction env q pending used limit rule: pick.induct) (fastforce simp: Let_def)+

lemma pick_not_Nil: "q \<noteq> [] \<Longrightarrow> pick env q [] used limit \<noteq> []"
proof (cases q)
  case (Cons x rest)
  then show ?thesis
    using pick_extends [of env rest "[fst x]"] by (cases x) (auto simp: Let_def, metis append_Cons list.distinct(1))
qed simp

lemma choose_queue: "choose_class st = Some c \<Longrightarrow> queue_of c st \<noteq> []"
proof -
  assume "choose_class st = Some c"
  then have "c \<in> set (filter (\<lambda>c. queue_of c st \<noteq> [] \<and> class_count c st < 7) [New, History])"
    by (auto simp: choose_class_def Let_def split: if_splits dest: hd_in_set)
  then show ?thesis by (auto split: if_splits)
qed

text \<open>What a round that freezes a batch did.\<close>

definition frozen_state :: "eng_env \<Rightarrow> category \<Rightarrow> ReportBatch \<Rightarrow> acct \<Rightarrow> engine \<Rightarrow> engine" where
  "frozen_state env c b a st =
     set_queue c (drop (length (bb_samples b)) (queue_of c st))
       (st\<lparr>en_boot := (en_boot st)\<lparr>bt_sequence := bb_sequence b, bt_accounting := a\<rparr>,
           en_frozen := dset (bb_sequence b) b (en_frozen st), en_classes := dset (bb_sequence b) c (en_classes st),
           en_used_bytes := en_used_bytes st + batch_charge env b, en_prefer_new := (c \<noteq> New)\<rparr>)"

lemma freeze_oneD:
  assumes "freeze_one env now wall_ms st = (Inr (Some b), st')"
  obtains c a where "queue_of c st \<noteq> []"
    "b = make_batch env now wall_ms (bt_sequence (en_boot st) + 1) (pick env (take 500 (queue_of c st)) [] 512 500) st"
    "bb_samples b \<noteq> []"
    "ee_payload_len env (bb_payload b) \<le> 131072" "en_used_bytes st + batch_charge env b \<le> int (en_max_bytes st)"
    "materialized (ce_acct (ee_cap env)) (bb_sequence b) (tm_message_id (bb_payload b)) (bt_accounting (en_boot st)) = (None, a)"
    "st' = frozen_state env c b a st"
proof -
  obtain c where c: "choose_class st = Some c" using assms by (cases "choose_class st") (auto simp: freeze_one_def)
  obtain n boot where s: "next_sequence (en_boot st) = Inr (n, boot)"
    using assms c by (cases "next_sequence (en_boot st)") (auto simp: freeze_one_def)
  note seq = next_sequenceD [OF s]
  define b' where "b' = make_batch env now wall_ms n (pick env (take 500 (queue_of c st)) [] 512 500) st"
  obtain err a where m: "materialized (ce_acct (ee_cap env)) (bb_sequence b') (tm_message_id (bb_payload b'))
      (bt_accounting (en_boot st)) = (err, a)" by fastforce
  have qne: "queue_of c st \<noteq> []" using c by (rule choose_queue)
  then have pne: "bb_samples b' \<noteq> []" unfolding b'_def by (simp add: make_batch_def pick_not_Nil)
  have fb: "freeze_batch env c b' (st\<lparr>en_boot := boot\<rparr>) = (Inr (Some b), st')"
    using assms c s by (simp add: freeze_one_def b'_def)
  have bseq: "bb_sequence b' = n" by (simp add: b'_def make_batch_def)
  have "b = b' \<and> err = None \<and> ee_payload_len env (bb_payload b) \<le> 131072
      \<and> en_used_bytes st + batch_charge env b \<le> int (en_max_bytes st) \<and> st' = frozen_state env c b a st"
    using fb m seq bseq
    by (cases c) (auto simp: freeze_batch_def Let_def frozen_state_def eng_account_def boot_account_def
        queue_of_def set_queue_def split: if_splits option.splits)
  with m pne qne seq show thesis by (intro that [of c a]) (auto simp: b'_def)
qed

lemma freeze_one_backlog:
  assumes "freeze_one env now wall_ms st = (Inr (Some b), st')"
  shows "backlog st' < backlog st"
proof -
  from assms obtain c a where "queue_of c st \<noteq> []" "bb_samples b \<noteq> []" "st' = frozen_state env c b a st"
    by (rule freeze_oneD)
  then show ?thesis
    by (cases c) (auto simp: backlog_def frozen_state_def set_queue_def queue_of_def neq_Nil_conv)
qed

function prepare_loop :: "eng_env \<Rightarrow> rat \<Rightarrow> int \<Rightarrow> (ReportBatch list, engine) prog" where
  "prepare_loop env now wall_ms st =
     (if length (en_frozen st) < 8 \<and> (en_queue st \<noteq> [] \<or> en_history st \<noteq> [])
      then (case freeze_one env now wall_ms st of
              (Inl e, st) \<Rightarrow> (Inl e, st)
            | (Inr None, st) \<Rightarrow> (Inr [], st)
            | (Inr (Some b), st) \<Rightarrow>
                (case prepare_loop env now wall_ms st of
                   (Inl e, st) \<Rightarrow> (Inl e, st) | (Inr bs, st) \<Rightarrow> (Inr (b # bs), st)))
      else (Inr [], st))"
  by pat_completeness auto
termination
  by (relation "measure (\<lambda>(env, now, wall_ms, st). backlog st)") (auto dest: freeze_one_backlog [OF sym])

declare prepare_loop.simps [simp del]

definition prepare :: "eng_env \<Rightarrow> rat \<Rightarrow> int \<Rightarrow> bool \<Rightarrow> (ReportBatch list, engine) prog" where
  "prepare env now wall_ms force st =
     (if \<not> force \<and> now < en_next_batch st then (Inr [], st)
      else let st = st\<lparr>en_next_batch := now + interval_s (en_snapshot st)\<rparr>
           in case prepare_loop env now wall_ms st of
                (Inl e, st') \<Rightarrow> (Inl e, st') | (Inr bs, st') \<Rightarrow> (Inr (dvals (en_frozen st) @ bs), st'))"

definition release_owner :: "Sample \<Rightarrow> (unit, engine) prog" where
  "release_owner s st =
     (let ek = (epoch_of s, key_of s)
      in case dget (en_owners st) ek of None \<Rightarrow> (Inl KeyError, st)
       | Some m \<Rightarrow>
          (let m = ddel (seq_of s) m;
               st = st\<lparr>en_owners := (if m = [] then ddel ek (en_owners st) else dset ek m (en_owners st))\<rparr>
           in if dget (en_epochs st) (key_of s) = Some (epoch_of s)
              then (Inr (), st\<lparr>en_shadows := (if m = [] then ddel (key_of s) (en_shadows st)
                     else dset (key_of s) (the (dget m (Max (set (dkeys m))))) (en_shadows st))\<rparr>)
              else (Inr (), st)))"

definition release :: "eng_env \<Rightarrow> Sample \<Rightarrow> (unit, engine) prog" where
  "release env s =
     sbind (supd (\<lambda>st. st\<lparr>en_owned := ddel (identity s) (en_owned st)\<rparr>)) (\<lambda>_.
     sbind (forget env s) (\<lambda>_. release_owner s))"

definition adopt :: "eng_env \<Rightarrow> Sample \<Rightarrow> (unit, engine) prog" where
  "adopt env s st =
     retain env s (st\<lparr>en_baselines := dset (key_of s) (s, of_int (the (s_completed_mono_ms s)) / 1000) (en_baselines st)\<rparr>)"

definition commit_baseline :: "eng_env \<Rightarrow> Sample \<Rightarrow> (unit, engine) prog" where
  "commit_baseline env s st =
     (if dget (en_epochs st) (key_of s) = Some (epoch_of s)
      then (case dget (en_baselines st) (key_of s) of
              None \<Rightarrow> adopt env s st
            | Some (old, _) \<Rightarrow> (if seq_of s > seq_of old then sbind (forget env old) (\<lambda>_. adopt env s) st else (Inr (), st)))
      else (Inr (), st))"

definition drop_frozen_batch :: "eng_env \<Rightarrow> ReportBatch \<Rightarrow> engine \<Rightarrow> engine" where
  "drop_frozen_batch env b st =
     st\<lparr>en_frozen := ddel (bb_sequence b) (en_frozen st), en_classes := ddel (bb_sequence b) (en_classes st),
        en_used_bytes := en_used_bytes st - batch_charge env b\<rparr>"

definition committed :: "eng_env \<Rightarrow> ReportBatch \<Rightarrow> (unit, engine) prog" where
  "committed env b st =
     (if dget (en_frozen st) (bb_sequence b) \<noteq> Some b then (Inr (), st)
      else let (r, st) = sbind (supd (drop_frozen_batch env b)) (\<lambda>_.
             sfold (\<lambda>s. sbind (commit_baseline env s) (\<lambda>_. release env s)) (bb_samples b)) st
           in (r, sync st))"

definition abandon :: "eng_env \<Rightarrow> (nat, engine) prog" where
  "abandon env st =
     (let count = length (en_owned st); samples = dvals (en_owned st)
      in sbind (supd (\<lambda>st. (eng_account (abandon_acct (ce_acct (ee_cap env)) samples (dkeys (en_frozen st))) st)
              \<lparr>en_known_unsent_events := en_known_unsent_events st + count\<rparr>)) (\<lambda>_.
         sbind (sfold (forget env) samples) (\<lambda>_.
         sbind (supd (\<lambda>st. st\<lparr>en_used_bytes := en_used_bytes st - dsum (batch_charge env) (en_frozen st),
              en_queue := [], en_history := [], en_frozen := [], en_classes := [], en_owned := [],
              en_owners := [], en_shadows := []\<rparr>)) (\<lambda>_. sret count))) st)"

end
