(* ===== verification/EngineInv.thy ===== *)
theory EngineInv
  imports Engine
begin

text \<open>
  The invariant of the reporting engine and that every operation keeps it: exact reference
  counts and byte gauge, every selected event owned by exactly one queue or frozen batch, the
  owner index, the bounds, and a checkpoint from which a restarted engine can resume.
\<close>

section \<open>Multisets of dictionary values\<close>

lemma mset_dvals_new: "k \<notin> fst ` set d \<Longrightarrow> mset (dvals (dset k v d)) = add_mset v (mset (dvals d))"
  by (simp add: dset_absent)

lemma mset_dvals_ddel: "dwf d \<Longrightarrow> dget d k = Some u \<Longrightarrow> mset (dvals d) = add_mset u (mset (dvals (ddel k d)))"
proof (induction d)
  case (Cons p d)
  show ?case
  proof (cases "fst p = k")
    case True
    with Cons.prems have "k \<notin> set (dkeys d)" by (auto simp: dwf_def)
    then have "ddel k d = d" by simp
    with True Cons.prems show ?thesis by (cases p) simp
  next
    case False
    with Cons show ?thesis by (cases p) (auto simp: dwf_def)
  qed
qed simp

lemma mset_dvals_old: "dwf d \<Longrightarrow> dget d k = Some u \<Longrightarrow> mset (dvals (dset k v d)) = add_mset v (mset (dvals (ddel k d)))"
proof (induction d)
  case (Cons p d)
  show ?case
  proof (cases "fst p = k")
    case True
    with Cons.prems have "k \<notin> set (dkeys d)" by (auto simp: dwf_def)
    then have "ddel k d = d" by simp
    with True Cons.prems show ?thesis by (cases p) simp
  next
    case False
    with Cons show ?thesis by (cases p) (auto simp: dwf_def)
  qed
qed simp

lemma dget_in_dvals: "dget d k = Some v \<Longrightarrow> v \<in># mset (dvals d)"
  by (auto dest!: map_of_SomeD intro: image_eqI [rotated])

lemma in_dvals_dget: "dwf d \<Longrightarrow> v \<in># mset (dvals d) \<Longrightarrow> \<exists>k. dget d k = Some v"
  by (auto simp: dwf_mem_iff)

lemma dwf_length: "dwf d \<Longrightarrow> length d = card (fst ` set d)"
  by (metis dwf_def distinct_card length_map set_map)

section \<open>Reference counts\<close>

text \<open>\<open>counts f d H\<close>: the table \<open>d\<close>, keyed by \<open>f\<close>, holds each member of \<open>H\<close> once with the
  number of its occurrences.\<close>

definition entry_ok :: "('a \<Rightarrow> 'k) \<Rightarrow> 'a multiset \<Rightarrow> 'k \<Rightarrow> ('a \<times> nat) option \<Rightarrow> bool" where
  "entry_ok f H k e =
     (case e of None \<Rightarrow> k \<notin># image_mset f H
      | Some (s, n) \<Rightarrow> f s = k \<and> n = count (image_mset f H) k \<and> 0 < n \<and> (\<forall>x\<in>#H. f x = k \<longrightarrow> x = s))"

definition counts :: "('a \<Rightarrow> 'k) \<Rightarrow> ('k, 'a \<times> nat) dict \<Rightarrow> 'a multiset \<Rightarrow> bool" where
  "counts f d H \<longleftrightarrow> dwf d \<and> (\<forall>k. entry_ok f H k (dget d k))"

lemma entry_other: "k \<noteq> f s \<Longrightarrow> entry_ok f (add_mset s H) k e = entry_ok f H k e"
  by (cases e) (auto simp: entry_ok_def)

lemma entry_same:
  "entry_ok f (add_mset s H) (f s) (Some (s, n)) \<longleftrightarrow>
     n = Suc (count (image_mset f H) (f s)) \<and> (\<forall>x\<in>#H. f x = f s \<longrightarrow> x = s)"
  by (auto simp: entry_ok_def)

lemma entry_some:
  "entry_ok f H (f s) (Some (s, n)) \<longleftrightarrow> n = count (image_mset f H) (f s) \<and> 0 < n \<and> (\<forall>x\<in>#H. f x = f s \<longrightarrow> x = s)"
  by (auto simp: entry_ok_def)

lemma entry_none: "entry_ok f H k None \<longleftrightarrow> count (image_mset f H) k = 0"
  by (simp only: entry_ok_def option.case not_in_iff)

lemma count_image_zero: "count (image_mset f H) k = 0 \<longleftrightarrow> (\<forall>x\<in>#H. f x \<noteq> k)"
  unfolding count_eq_zero_iff by auto

lemma counts_entry: "counts f d H \<Longrightarrow> entry_ok f H k (dget d k)"
  by (simp add: counts_def)

lemma counts_absent: "counts f d H \<Longrightarrow> dget d k = None \<longleftrightarrow> (\<forall>x\<in>#H. f x \<noteq> k)"
proof -
  assume "counts f d H"
  from counts_entry [OF this, of k] show ?thesis
    by (cases "dget d k") (auto simp only: entry_none count_image_zero, auto simp: entry_ok_def count_image_zero [symmetric])
qed

lemma counts_member:
  assumes "counts f d H" "s \<in># H"
  shows "\<exists>n. dget d (f s) = Some (s, n)"
proof (cases "dget d (f s)")
  case None
  then show ?thesis using counts_absent [OF assms(1)] assms(2) by blast
next
  case (Some p)
  with counts_entry [OF assms(1), of "f s"] assms(2) show ?thesis by (cases p) (auto simp: entry_ok_def)
qed

lemma counts_update:
  assumes "counts f d H" "dwf d'" "\<And>k. k \<noteq> f s \<Longrightarrow> dget d' k = dget d k" "entry_ok f H' (f s) (dget d' (f s))"
    and "H' = add_mset s H \<or> H = add_mset s H'"
  shows "counts f d' H'"
  unfolding counts_def
proof (intro conjI allI)
  fix k
  show "entry_ok f H' k (dget d' k)"
  proof (cases "k = f s")
    case False
    with assms(1,3,5) show ?thesis by (metis counts_entry entry_other)
  qed (use assms(4) in simp)
qed (use assms in simp)

lemma counts_wf: "counts f d H \<Longrightarrow> dwf d"
  by (simp add: counts_def)

lemma counts_remove_last:
  assumes "counts f d (add_mset s H)" "dget d (f s) = Some (s, 1)"
  shows "counts f (ddel (f s) d) H"
  using assms(1)
proof (rule counts_update [where s = s])
  show "entry_ok f H (f s) (dget (ddel (f s) d) (f s))"
    using counts_entry [OF assms(1), of "f s"] unfolding assms(2) entry_same dget_ddel by (simp add: entry_none)
qed (use counts_wf [OF assms(1)] in auto)

lemma counts_remove:
  assumes "counts f d (add_mset s H)" "dget d (f s) = Some (s, n)" "n \<noteq> 1"
  shows "counts f (dset (f s) (s, n - 1) d) H"
  using assms(1)
proof (rule counts_update [where s = s])
  show "entry_ok f H (f s) (dget (dset (f s) (s, n - 1) d) (f s))"
    using counts_entry [OF assms(1), of "f s"] assms(3) unfolding assms(2) entry_same by (simp add: entry_some)
qed (use counts_wf [OF assms(1)] in auto)

lemma counts_add_first:
  assumes "counts f d H" "dget d (f s) = None"
  shows "counts f (dset (f s) (s, Suc 0) d) (add_mset s H)"
  using assms(1)
proof (rule counts_update [where s = s])
  have "\<forall>x\<in>#H. f x \<noteq> f s" using counts_absent [OF assms(1)] assms(2) by blast
  moreover from this have "count (image_mset f H) (f s) = 0" by (simp only: count_image_zero)
  ultimately show "entry_ok f (add_mset s H) (f s) (dget (dset (f s) (s, Suc 0) d) (f s))" by (simp add: entry_same)
qed (use counts_wf [OF assms(1)] in auto)

lemma counts_add:
  assumes "counts f d H" "dget d (f s) = Some (s, n)"
  shows "counts f (dset (f s) (s, Suc n) d) (add_mset s H)"
  using assms(1)
proof (rule counts_update [where s = s])
  show "entry_ok f (add_mset s H) (f s) (dget (dset (f s) (s, Suc n) d) (f s))"
    using counts_entry [OF assms(1), of "f s"] unfolding assms(2) entry_some by (simp add: entry_same)
qed (use counts_wf [OF assms(1)] in auto)

text \<open>\<open>holds env H st\<close>: the table of references counts exactly the holders \<open>H\<close>, and the byte
  gauge is the charge of each retained event once plus that of the frozen batches.\<close>

definition holds :: "eng_env \<Rightarrow> Sample multiset \<Rightarrow> engine \<Rightarrow> bool" where
  "holds env H st \<longleftrightarrow> counts identity (en_refs st) H \<and> dwf (en_frozen st)
     \<and> en_used_bytes st = dsum (\<lambda>(s, n). charge_of env s) (en_refs st) + dsum (batch_charge env) (en_frozen st)"

definition same_rest :: "engine \<Rightarrow> engine \<Rightarrow> bool" where
  "same_rest st st' \<longleftrightarrow> st' = st\<lparr>en_refs := en_refs st', en_used_bytes := en_used_bytes st'\<rparr>"

lemma same_rest_refl [simp]: "same_rest st st"
  by (simp add: same_rest_def)

lemma same_rest_trans: "same_rest a b \<Longrightarrow> same_rest b c \<Longrightarrow> same_rest a c"
  by (cases a; cases b; cases c) (simp add: same_rest_def)

lemma same_rest_upd [simp]: "same_rest st (st\<lparr>en_refs := r, en_used_bytes := u\<rparr>)"
  "same_rest st (st\<lparr>en_refs := r\<rparr>)" "same_rest st (st\<lparr>en_used_bytes := u, en_refs := r\<rparr>)"
  by (simp_all add: same_rest_def)

lemma same_rest_fields:
  assumes "same_rest st st'"
  shows "en_gateway st' = en_gateway st" "en_boot_id st' = en_boot_id st" "en_boot st' = en_boot st"
    "en_capacity st' = en_capacity st" "en_max_bytes st' = en_max_bytes st" "en_snapshot st' = en_snapshot st"
    "en_generation st' = en_generation st" "en_points st' = en_points st" "en_latest st' = en_latest st"
    "en_baselines st' = en_baselines st" "en_shadows st' = en_shadows st" "en_epochs st' = en_epochs st"
    "en_seen st' = en_seen st" "en_next_report_due st' = en_next_report_due st" "en_owned st' = en_owned st"
    "en_queue st' = en_queue st" "en_frozen st' = en_frozen st" "en_owners st' = en_owners st"
    "en_history st' = en_history st" "en_classes st' = en_classes st" "en_watermark st' = en_watermark st"
  using assms by (cases st; cases st'; simp add: same_rest_def)+

lemma forget_spec:
  assumes "holds env (add_mset s H) st"
  shows "\<exists>st'. forget env s st = (Inr (), st') \<and> holds env H st' \<and> same_rest st st'
    \<and> en_used_bytes st' \<le> en_used_bytes st"
proof -
  let ?k = "identity s" and ?w = "\<lambda>(s, n :: nat). charge_of env s"
  have c: "counts identity (en_refs st) (add_mset s H)" using assms by (simp add: holds_def)
  then obtain n where n: "dget (en_refs st) ?k = Some (s, n)" using counts_member by fastforce
  have wf: "dwf (en_refs st)" using c by (rule counts_wf)
  show ?thesis
  proof (cases "n = 1")
    case True
    then have "holds env H (st\<lparr>en_used_bytes := en_used_bytes st - charge_of env s, en_refs := ddel ?k (en_refs st)\<rparr>)"
      using assms counts_remove_last [OF c] n dsum_ddel [OF wf n, of ?w] by (simp add: holds_def)
    with True n show ?thesis by (simp add: forget_def)
  next
    case False
    then have "holds env H (st\<lparr>en_refs := dset ?k (s, n - 1) (en_refs st)\<rparr>)"
      using assms counts_remove [OF c n] dsum_dset_old [OF wf n, of ?w "(s, n - 1)"] by (simp add: holds_def)
    with False n show ?thesis by (simp add: forget_def)
  qed
qed

definition compatible :: "Sample \<Rightarrow> engine \<Rightarrow> bool" where
  "compatible s st \<longleftrightarrow> (\<forall>x n. dget (en_refs st) (identity s) = Some (x, n) \<longrightarrow> x = s)"

lemma holds_compatible: "holds env H st \<Longrightarrow> s \<in># H \<Longrightarrow> compatible s st"
  unfolding holds_def compatible_def using counts_member by fastforce

lemma holds_present: "holds env H st \<Longrightarrow> s \<in># H \<Longrightarrow> identity s \<in> fst ` set (en_refs st)"
proof -
  assume "holds env H st" "s \<in># H"
  then have "dget (en_refs st) (identity s) \<noteq> None" unfolding holds_def using counts_member by fastforce
  then show ?thesis by (simp add: map_of_eq_None_iff)
qed

lemma holds_absent: "holds env H st \<Longrightarrow> \<forall>x\<in>#H. identity x \<noteq> identity s \<Longrightarrow> dget (en_refs st) (identity s) = None"
proof -
  assume "holds env H st" and ne: "\<forall>x\<in>#H. identity x \<noteq> identity s"
  then have "counts identity (en_refs st) H" by (simp add: holds_def)
  from counts_absent [OF this, of "identity s"] ne show ?thesis by blast
qed

lemma retain_spec:
  assumes "holds env H st" "compatible s st"
  shows "\<exists>st'. retain env s st = (Inr (), st') \<and> holds env (add_mset s H) st' \<and> same_rest st st'
    \<and> en_used_bytes st' = en_used_bytes st + (if identity s \<in> fst ` set (en_refs st) then 0 else charge_of env s)"
proof (cases "dget (en_refs st) (identity s)")
  case None
  then have out: "identity s \<notin> fst ` set (en_refs st)" by (simp add: map_of_eq_None_iff)
  then have "holds env (add_mset s H) (st\<lparr>en_refs := dset (identity s) (s, 1) (en_refs st),
      en_used_bytes := en_used_bytes st + charge_of env s\<rparr>)"
    using assms(1) None by (simp add: holds_def counts_add_first dsum_dset_new)
  with None out show ?thesis by (simp add: retain_def)
next
  case (Some p)
  let ?w = "\<lambda>(s, n :: nat). charge_of env s"
  from Some obtain n where n: "dget (en_refs st) (identity s) = Some (s, n)"
    using assms(2) by (cases p) (auto simp: compatible_def)
  have c: "counts identity (en_refs st) H" and wf: "dwf (en_refs st)" using assms(1) counts_wf by (auto simp: holds_def)
  have inn: "identity s \<in> fst ` set (en_refs st)"
  proof -
    have "dget (en_refs st) (identity s) \<noteq> None" using n by simp
    then show ?thesis by (simp add: map_of_eq_None_iff)
  qed
  have "holds env (add_mset s H) (st\<lparr>en_refs := dset (identity s) (s, n + 1) (en_refs st)\<rparr>)"
    using assms(1) counts_add [OF c n] dsum_dset_old [OF wf n, of ?w "(s, n + 1)"] by (simp add: holds_def)
  with n inn show ?thesis by (simp add: retain_def)
qed

lemma forget_all_spec:
  assumes "holds env (mset xs + H) st"
  shows "\<exists>st'. sfold (forget env) xs st = (Inr (), st') \<and> holds env H st' \<and> same_rest st st'
    \<and> en_used_bytes st' \<le> en_used_bytes st"
  using assms
proof (induction xs arbitrary: st)
  case (Cons x xs)
  then obtain s1 where s1: "forget env x st = (Inr (), s1)" "holds env (mset xs + H) s1" "same_rest st s1"
      "en_used_bytes s1 \<le> en_used_bytes st"
    using forget_spec [of env x "mset xs + H" st] by auto
  from Cons.IH [OF s1(2)] s1 show ?case by (fastforce intro: same_rest_trans)
qed simp

lemma retain_all_spec:
  assumes "holds env H st" "distinct (map identity xs)" "\<And>x y. x \<in> set xs \<Longrightarrow> y \<in># H \<Longrightarrow> identity y \<noteq> identity x"
  shows "\<exists>st'. sfold (retain env) xs st = (Inr (), st') \<and> holds env (mset xs + H) st' \<and> same_rest st st'
    \<and> en_used_bytes st' = en_used_bytes st + (\<Sum>x\<leftarrow>xs. charge_of env x)"
  using assms
proof (induction xs arbitrary: st H)
  case (Cons x xs)
  have none: "dget (en_refs st) (identity x) = None" using Cons.prems by (intro holds_absent) auto
  then have out: "identity x \<notin> fst ` set (en_refs st)" by (simp add: map_of_eq_None_iff)
  obtain s1 where s1: "retain env x st = (Inr (), s1)" "holds env (add_mset x H) s1" "same_rest st s1"
      "en_used_bytes s1 = en_used_bytes st + charge_of env x"
    using retain_spec [of env H st x] Cons.prems(1) none out by (auto simp: compatible_def)
  have "\<exists>st'. sfold (retain env) xs s1 = (Inr (), st') \<and> holds env (mset xs + add_mset x H) st' \<and> same_rest s1 st'
    \<and> en_used_bytes st' = en_used_bytes s1 + (\<Sum>x\<leftarrow>xs. charge_of env x)"
    using Cons.prems by (intro Cons.IH [OF s1(2)]) (auto simp: rev_image_eqI)
  with s1 show ?case by (auto intro: same_rest_trans)
qed simp

section \<open>The invariant\<close>

definition holders :: "engine \<Rightarrow> Sample multiset" where
  "holders st = mset (dvals (en_latest st)) + mset (map fst (dvals (en_baselines st))) + mset (dvals (en_owned st))"

definition frozen_samples :: "(nat, ReportBatch) dict \<Rightarrow> Sample multiset" where
  "frozen_samples d = (\<Sum>b\<leftarrow>dvals d. mset (bb_samples b))"

definition queued :: "engine \<Rightarrow> Sample multiset" where
  "queued st = mset (map fst (en_queue st)) + mset (map fst (en_history st)) + frozen_samples (en_frozen st)"

definition dicts_ok :: "engine \<Rightarrow> bool" where
  "dicts_ok st \<longleftrightarrow> dwf (en_latest st) \<and> dwf (en_baselines st) \<and> dwf (en_owned st)
     \<and> (\<forall>k s t. dget (en_baselines st) k = Some (s, t) \<longrightarrow> key_of s = k)
     \<and> (\<forall>i s. dget (en_owned st) i = Some s \<longrightarrow> identity s = i \<and> i = (Some (en_boot_id st), Some (seq_of s)))"

definition owners_ok :: "(identity, Sample) dict \<Rightarrow> (epoch \<times> point_key, (nat, Sample) dict) dict \<Rightarrow> bool" where
  "owners_ok owned owners \<longleftrightarrow>
     (\<forall>ek m n s. dget owners ek = Some m \<longrightarrow> dget m n = Some s \<longrightarrow>
        dget owned (identity s) = Some s \<and> (epoch_of s, key_of s) = ek \<and> seq_of s = n)
     \<and> (\<forall>i s. dget owned i = Some s \<longrightarrow>
        (\<exists>m. dget owners (epoch_of s, key_of s) = Some m \<and> dget m (seq_of s) = Some s))"

text \<open>A frozen batch: between 1 and 500 events of pairwise different points under one
  configuration version, encoded within the message limit.\<close>

definition batch_ok :: "eng_env \<Rightarrow> ReportBatch \<Rightarrow> bool" where
  "batch_ok env b \<longleftrightarrow> bb_samples b \<noteq> [] \<and> length (bb_samples b) \<le> 500 \<and> distinct (map key_of (bb_samples b))
     \<and> (\<forall>s\<in>set (bb_samples b). s_config_version s = bb_version b)
     \<and> tm_values (bb_payload b) = bb_samples b \<and> tm_sequence (bb_payload b) = bb_sequence b
     \<and> tm_config_version (bb_payload b) = bb_version b \<and> ee_payload_len env (bb_payload b) \<le> 131072"

definition frozen_ok :: "eng_env \<Rightarrow> engine \<Rightarrow> bool" where
  "frozen_ok env st \<longleftrightarrow> length (en_frozen st) \<le> 8
     \<and> (\<forall>n b. dget (en_frozen st) n = Some b \<longrightarrow> bb_sequence b = n \<and> n \<le> bt_sequence (en_boot st) \<and> batch_ok env b)
     \<and> dwf (ac_frozen_batches (bt_accounting (en_boot st)))
     \<and> fst ` set (ac_frozen_batches (bt_accounting (en_boot st))) \<subseteq> fst ` set (en_frozen st)"

definition slots_ok :: "(point_key, epoch) dict \<Rightarrow> (point_key, int) dict \<Rightarrow> bool" where
  "slots_ok epochs due \<longleftrightarrow> fst ` set epochs \<subseteq> fst ` set due"

text \<open>What a checkpoint must satisfy for a restarted engine to resume from it.\<close>

definition checkpoint_ok :: "eng_env \<Rightarrow> nat \<Rightarrow> report_checkpoint \<Rightarrow> bool" where
  "checkpoint_ok env max_bytes k \<longleftrightarrow> dwf (rk_baselines k)
     \<and> (\<forall>key s t. dget (rk_baselines k) key = Some (s, t) \<longrightarrow> key_of s = key)
     \<and> distinct (map (identity \<circ> fst) (dvals (rk_baselines k)))
     \<and> (\<Sum>s\<leftarrow>map fst (dvals (rk_baselines k)). charge_of env s) \<le> int max_bytes
     \<and> slots_ok (rk_epochs k) (rk_next_due k)"

definition boot_resumes :: "eng_env \<Rightarrow> nat \<Rightarrow> ProcessBootContext \<Rightarrow> bool" where
  "boot_resumes env max_bytes b = (case bt_report_checkpoint b of None \<Rightarrow> True | Some k \<Rightarrow> checkpoint_ok env max_bytes k)"

definition attached :: "engine \<Rightarrow> bool" where
  "attached st \<longleftrightarrow> (\<exists>k. bt_report_checkpoint (en_boot st) = Some k \<and> rk_identity k = (en_snapshot st, en_generation st))"

definition pristine :: "engine \<Rightarrow> bool" where
  "pristine st \<longleftrightarrow> en_snapshot st = None \<and> en_latest st = [] \<and> en_baselines st = [] \<and> en_owned st = [] \<and> en_queue st = []
     \<and> en_history st = [] \<and> en_frozen st = [] \<and> en_epochs st = []"

definition points_ok :: "(point_key, PointConfig) dict \<Rightarrow> bool" where
  "points_ok d \<longleftrightarrow> (\<forall>k p. dget d k = Some p \<longrightarrow> 0 < pc_report_interval_ms p)"

text \<open>Everything but the reference counts.\<close>

definition shape :: "eng_env \<Rightarrow> engine \<Rightarrow> bool" where
  "shape env st \<longleftrightarrow> dicts_ok st \<and> mset (dvals (en_owned st)) = queued st
     \<and> length (en_owned st) \<le> en_capacity st \<and> owners_ok (en_owned st) (en_owners st)
     \<and> frozen_ok env st \<and> slots_ok (en_epochs st) (en_next_report_due st) \<and> points_ok (en_points st)
     \<and> (attached st \<or> pristine st)"

definition eng_ok :: "eng_env \<Rightarrow> engine \<Rightarrow> bool" where
  "eng_ok env st \<longleftrightarrow> shape env st \<and> holds env (holders st) st \<and> en_used_bytes st \<le> int (en_max_bytes st)
     \<and> boot_resumes env (en_max_bytes st) (en_boot st)"

lemma same_rest_holders: "same_rest st st' \<Longrightarrow> holders st' = holders st \<and> queued st' = queued st"
  by (simp add: holders_def queued_def same_rest_fields)

lemma same_rest_shape:
  assumes "same_rest st st'" "shape env st"
  shows "shape env st'"
  using assms(2)
  unfolding shape_def dicts_ok_def frozen_ok_def attached_def pristine_def queued_def same_rest_fields [OF assms(1)] .

text \<open>The bytes of the baselines are part of the gauge: a resumed engine fits in the same limit.\<close>

lemma dsum_keys: "dwf d \<Longrightarrow> dsum w d = (\<Sum>k\<in>fst ` set d. w (the (dget d k)))"
proof (induction d)
  case (Cons p d)
  have out: "fst p \<notin> fst ` set d" using Cons.prems by (simp add: dwf_def)
  then have "\<And>k. k \<in> fst ` set d \<Longrightarrow> k \<noteq> fst p" by metis
  then have "(\<Sum>k\<in>fst ` set d. w (the (dget (p # d) k))) = (\<Sum>k\<in>fst ` set d. w (the (dget d k)))"
    by (intro sum.cong) (auto simp: map_of_Cons_code)
  moreover have "fst p \<notin> fst ` set d" "dwf d" using Cons.prems by (auto simp: dwf_def)
  ultimately show ?case using Cons.IH by simp
qed simp

lemma held_charges:
  assumes "holds env H st" "distinct (map identity xs)" "set xs \<subseteq> set_mset H"
  shows "(\<Sum>s\<leftarrow>xs. charge_of env s) \<le> en_used_bytes st"
proof -
  let ?w = "\<lambda>(s, n :: nat). charge_of env s"
  have c: "counts identity (en_refs st) H" using assms(1) by (simp add: holds_def)
  have val: "?w (the (dget (en_refs st) (identity s))) = charge_of env s" if s: "s \<in> set xs" for s
  proof -
    obtain n where "dget (en_refs st) (identity s) = Some (s, n)" using counts_member [OF c, of s] s assms(3) by blast
    then show ?thesis by simp
  qed
  have sub: "identity ` set xs \<subseteq> fst ` set (en_refs st)"
    using holds_present [OF assms(1)] assms(3) by blast
  have "(\<Sum>s\<leftarrow>xs. charge_of env s) = (\<Sum>s\<leftarrow>xs. ?w (the (dget (en_refs st) (identity s))))"
    using val by (intro arg_cong [of _ _ sum_list] map_cong) auto
  also have "\<dots> = (\<Sum>k\<leftarrow>map identity xs. ?w (the (dget (en_refs st) k)))" by (simp add: comp_def)
  also have "\<dots> = (\<Sum>k\<in>set (map identity xs). ?w (the (dget (en_refs st) k)))"
    using assms(2) by (rule sum_list_distinct_conv_sum_set)
  also have "\<dots> \<le> (\<Sum>k\<in>fst ` set (en_refs st). ?w (the (dget (en_refs st) k)))"
    using sub by (intro sum_mono2) (auto split: prod.split)
  also have "\<dots> = dsum ?w (en_refs st)" using c by (intro dsum_keys [symmetric]) (rule counts_wf)
  also have "\<dots> \<le> en_used_bytes st"
    using assms(1) dsum_nonneg [of "batch_charge env" "en_frozen st"] by (simp add: holds_def batch_charge_def)
  finally show ?thesis .
qed

lemma held_unique: "holds env H st \<Longrightarrow> x \<in># H \<Longrightarrow> y \<in># H \<Longrightarrow> identity x = identity y \<Longrightarrow> x = y"
proof -
  assume "holds env H st" and xy: "x \<in># H" "y \<in># H" and eq: "identity x = identity y"
  then have c: "counts identity (en_refs st) H" by (simp add: holds_def)
  from counts_member [OF c xy(1)] obtain n where n: "dget (en_refs st) (identity x) = Some (x, n)" ..
  from counts_member [OF c xy(2)] obtain m where m: "dget (en_refs st) (identity y) = Some (y, m)" ..
  from n m show ?thesis unfolding eq by simp
qed

lemma baselines_distinct:
  assumes "holds env H st" "set (map fst (dvals (en_baselines st))) \<subseteq> set_mset H" "dicts_ok st"
  shows "distinct (map (identity \<circ> fst) (dvals (en_baselines st)))"
proof -
  have wf: "dwf (en_baselines st)" using assms(3) by (simp add: dicts_ok_def)
  have keys: "key_of (fst (snd p)) = fst p" if "p \<in> set (en_baselines st)" for p
  proof -
    have "dget (en_baselines st) (fst p) = Some (fst (snd p), snd (snd p))" using that wf by (simp add: dwf_mem_iff [symmetric])
    with assms(3) show ?thesis unfolding dicts_ok_def by blast
  qed
  have "p = q" if "p \<in> set (en_baselines st)" "q \<in> set (en_baselines st)" "identity (fst (snd p)) = identity (fst (snd q))" for p q
  proof -
    have "fst (snd p) = fst (snd q)" using that assms(2) by (intro held_unique [OF assms(1)]) auto
    then have "fst p = fst q" using keys that by metis
    moreover have "dget (en_baselines st) (fst p) = Some (snd p)" "dget (en_baselines st) (fst q) = Some (snd q)"
      using that wf by (simp_all add: dwf_mem_iff [symmetric])
    ultimately have "fst p = fst q" "snd p = snd q" by simp_all
    then show "p = q" by (rule prod_eqI)
  qed
  then have "inj_on (\<lambda>p. identity (fst (snd p))) (set (en_baselines st))" by (intro inj_onI) blast
  moreover have "distinct (en_baselines st)" using wf by (simp add: dwf_def distinct_map)
  ultimately show ?thesis by (simp add: distinct_map comp_def)
qed

text \<open>After a synchronisation the checkpoint is one a new engine can resume from.\<close>

lemma sync_resumes:
  assumes "boot_resumes env (en_max_bytes st) (en_boot st)" "holds env (holders st) st" "dicts_ok st"
    and "en_used_bytes st \<le> int (en_max_bytes st)" "slots_ok (en_epochs st) (en_next_report_due st)"
  shows "boot_resumes env (en_max_bytes st) (en_boot (sync st))"
proof -
  have sub: "set (map fst (dvals (en_baselines st))) \<subseteq> set_mset (holders st)" by (auto simp: holders_def)
  have d: "distinct (map (identity \<circ> fst) (dvals (en_baselines st)))"
    using assms(2) sub assms(3) by (rule baselines_distinct)
  then have "distinct (map identity (map fst (dvals (en_baselines st))))" by (simp add: comp_def)
  then have "(\<Sum>s\<leftarrow>map fst (dvals (en_baselines st)). charge_of env s) \<le> en_used_bytes st"
    using assms(2) sub by (intro held_charges)
  with assms d show ?thesis
    by (auto simp: boot_resumes_def sync_def checkpoint_ok_def dicts_ok_def split: option.splits)
qed

section \<open>Updates outside the invariant\<close>

lemma holds_cong:
  "holds env H a \<Longrightarrow> en_refs b = en_refs a \<Longrightarrow> en_frozen b = en_frozen a \<Longrightarrow> en_used_bytes b = en_used_bytes a \<Longrightarrow> holds env H b"
  by (simp add: holds_def)

lemma eng_ok_cong:
  assumes "eng_ok env a"
    and "en_boot_id b = en_boot_id a" "en_capacity b = en_capacity a" "en_max_bytes b = en_max_bytes a"
      "en_used_bytes b = en_used_bytes a" "en_refs b = en_refs a" "en_snapshot b = en_snapshot a"
      "en_generation b = en_generation a" "en_points b = en_points a" "en_latest b = en_latest a"
      "en_baselines b = en_baselines a" "en_epochs b = en_epochs a" "en_next_report_due b = en_next_report_due a"
      "en_owned b = en_owned a" "en_queue b = en_queue a" "en_history b = en_history a" "en_frozen b = en_frozen a"
      "en_owners b = en_owners a"
      "bt_report_checkpoint (en_boot b) = bt_report_checkpoint (en_boot a)"
      "bt_sequence (en_boot a) \<le> bt_sequence (en_boot b)"
      "ac_frozen_batches (bt_accounting (en_boot b)) = ac_frozen_batches (bt_accounting (en_boot a))"
  shows "eng_ok env b"
proof -
  have "shape env a" using assms(1) by (simp add: eng_ok_def)
  then have "shape env b"
    using assms(2-) unfolding shape_def dicts_ok_def frozen_ok_def attached_def pristine_def queued_def
    by (elim conjE, intro conjI) (simp_all, meson order_trans)
  moreover have "holds env (holders b) b"
    using assms by (auto simp: eng_ok_def holders_def intro: holds_cong)
  ultimately show ?thesis using assms by (simp add: eng_ok_def boot_resumes_def)
qed

lemma bound_frozen [simp]: "ac_frozen_batches (acct_bound env a) = ac_frozen_batches a"
  by (rule acct_bound_keeps [where P = "\<lambda>x. ac_frozen_batches x = ac_frozen_batches a"]) auto

lemma gap_frozen [simp]: "ac_frozen_batches (acct_gap env r oc ss e a) = ac_frozen_batches a"
  by (simp add: acct_gap_def Let_def split: list.split)

lemma decision_frozen [simp]: "ac_frozen_batches (snd (decision s a)) = ac_frozen_batches a"
  by (simp add: decision_def)

lemma undecided_frozen [simp]: "ac_frozen_batches (snd (undecided env s r v a)) = ac_frozen_batches a"
  using decision_frozen [of s a] by (cases "decision s a") (simp add: undecided_def Let_def)

lemma decided_frozen [simp]: "ac_frozen_batches (snd (decided env s sel adm r a)) = ac_frozen_batches a"
  using decision_frozen [of s a] by (cases "decision s a") (simp add: decided_def Let_def reason_counters_def)

lemma eng_account_ok:
  assumes "eng_ok env st"
    and "ac_frozen_batches (f (bt_accounting (en_boot st))) = ac_frozen_batches (bt_accounting (en_boot st))"
  shows "eng_ok env (eng_account f st)"
  by (rule eng_ok_cong [OF assms(1)]) (simp_all add: eng_account_def assms(2))

lemma eng_okD:
  assumes "eng_ok env st"
  shows "shape env st" "holds env (holders st) st" "dicts_ok st" "en_used_bytes st \<le> int (en_max_bytes st)"
    "slots_ok (en_epochs st) (en_next_report_due st)" "boot_resumes env (en_max_bytes st) (en_boot st)"
    "points_ok (en_points st)" "frozen_ok env st" "owners_ok (en_owned st) (en_owners st)"
    "mset (dvals (en_owned st)) = queued st" "attached st \<or> pristine st" "length (en_owned st) \<le> en_capacity st"
  using assms by (simp_all add: eng_ok_def shape_def)

lemma eng_ok_sync: "eng_ok env st \<Longrightarrow> eng_ok env (sync st)"
proof -
  assume ok: "eng_ok env st"
  have "shape env (sync st)"
    using eng_okD(1) [OF ok] unfolding shape_def dicts_ok_def frozen_ok_def attached_def pristine_def queued_def sync_def
    by auto
  moreover have "holds env (holders (sync st)) (sync st)"
    using eng_okD(2) [OF ok] by (simp add: sync_def holders_def holds_def)
  moreover have "boot_resumes env (en_max_bytes (sync st)) (en_boot (sync st))"
    using sync_resumes [OF eng_okD(6) [OF ok] eng_okD(2) [OF ok] eng_okD(3) [OF ok] eng_okD(4) [OF ok] eng_okD(5) [OF ok]]
    by (simp add: sync_def)
  ultimately show ?thesis using eng_okD(4) [OF ok] by (simp add: eng_ok_def sync_def)
qed

section \<open>Views: baselines and latest values\<close>

lemma forget_baseline_spec:
  assumes "holds env (holders st) st" "dwf (en_baselines st)"
  shows "\<exists>r u. forget_baseline env k st = (Inr (), st\<lparr>en_baselines := ddel k (en_baselines st), en_refs := r, en_used_bytes := u\<rparr>)
    \<and> holds env (holders (st\<lparr>en_baselines := ddel k (en_baselines st)\<rparr>)) (st\<lparr>en_refs := r, en_used_bytes := u\<rparr>)
    \<and> u \<le> en_used_bytes st \<and> holders (st\<lparr>en_baselines := ddel k (en_baselines st)\<rparr>) \<subseteq># holders st"
proof (cases "dget (en_baselines st) k")
  case None
  then have "ddel k (en_baselines st) = en_baselines st" by (intro ddel_absent) (simp add: map_of_eq_None_iff)
  with None assms show ?thesis
    by (intro exI [of _ "en_refs st"] exI [of _ "en_used_bytes st"]) (simp add: forget_baseline_def)
next
  case (Some p)
  let ?st = "st\<lparr>en_baselines := ddel k (en_baselines st)\<rparr>"
  have h: "holders st = add_mset (fst p) (holders ?st)"
    using arg_cong [OF mset_dvals_ddel [OF assms(2) Some], of "image_mset fst"] by (simp add: holders_def multiset.map_comp)
  have "holds env (add_mset (fst p) (holders ?st)) ?st" using assms(1) h by (auto intro: holds_cong)
  from forget_spec [OF this] obtain st' where st': "forget env (fst p) ?st = (Inr (), st')" "holds env (holders ?st) st'"
    "same_rest ?st st'" "en_used_bytes st' \<le> en_used_bytes st" by auto
  then have eq: "st' = ?st\<lparr>en_refs := en_refs st', en_used_bytes := en_used_bytes st'\<rparr>" by (simp add: same_rest_def)
  have "holds env (holders ?st) (st\<lparr>en_refs := en_refs st', en_used_bytes := en_used_bytes st'\<rparr>)"
    using st'(2) by (rule holds_cong) (simp_all add: same_rest_fields [OF st'(3)])
  then show ?thesis
    using Some st' eq h
    by (intro exI [of _ "en_refs st'"] exI [of _ "en_used_bytes st'"])
      (auto simp: forget_baseline_def split: prod.split)
qed

lemma forget_latest_spec:
  assumes "holds env (holders st) st" "dwf (en_latest st)"
  shows "\<exists>r u. forget_latest env k st = (Inr (), st\<lparr>en_latest := ddel k (en_latest st), en_refs := r, en_used_bytes := u\<rparr>)
    \<and> holds env (holders (st\<lparr>en_latest := ddel k (en_latest st)\<rparr>)) (st\<lparr>en_refs := r, en_used_bytes := u\<rparr>)
    \<and> u \<le> en_used_bytes st \<and> holders (st\<lparr>en_latest := ddel k (en_latest st)\<rparr>) \<subseteq># holders st"
proof (cases "dget (en_latest st) k")
  case None
  then have "ddel k (en_latest st) = en_latest st" by (intro ddel_absent) (simp add: map_of_eq_None_iff)
  with None assms show ?thesis
    by (intro exI [of _ "en_refs st"] exI [of _ "en_used_bytes st"]) (simp add: forget_latest_def)
next
  case (Some x)
  let ?st = "st\<lparr>en_latest := ddel k (en_latest st)\<rparr>"
  have h: "holders st = add_mset x (holders ?st)"
    using mset_dvals_ddel [OF assms(2) Some] by (simp add: holders_def)
  have "holds env (add_mset x (holders ?st)) ?st" using assms(1) h by (auto intro: holds_cong)
  from forget_spec [OF this] obtain st' where st': "forget env x ?st = (Inr (), st')" "holds env (holders ?st) st'"
    "same_rest ?st st'" "en_used_bytes st' \<le> en_used_bytes st" by auto
  then have eq: "st' = ?st\<lparr>en_refs := en_refs st', en_used_bytes := en_used_bytes st'\<rparr>" by (simp add: same_rest_def)
  have "holds env (holders ?st) (st\<lparr>en_refs := en_refs st', en_used_bytes := en_used_bytes st'\<rparr>)"
    using st'(2) by (rule holds_cong) (simp_all add: same_rest_fields [OF st'(3)])
  then show ?thesis
    using Some st' eq h
    by (intro exI [of _ "en_refs st'"] exI [of _ "en_used_bytes st'"])
      (auto simp: forget_latest_def)
qed

text \<open>No reference to another event carries this event's identity.\<close>

definition fresh :: "Sample \<Rightarrow> engine \<Rightarrow> bool" where
  "fresh s st \<longleftrightarrow> (\<forall>x\<in>#holders st. identity x \<noteq> identity s)"

definition same_cfg :: "engine \<Rightarrow> engine \<Rightarrow> bool" where
  "same_cfg st st' \<longleftrightarrow> en_points st' = en_points st \<and> en_snapshot st' = en_snapshot st \<and> en_generation st' = en_generation st
     \<and> en_boot_id st' = en_boot_id st \<and> bt_report_checkpoint (en_boot st') = bt_report_checkpoint (en_boot st)"

lemma same_cfg_attached: "same_cfg st st' \<Longrightarrow> attached st' = attached st"
  by (simp add: same_cfg_def attached_def)

lemma same_cfg_trans: "same_cfg a b \<Longrightarrow> same_cfg b c \<Longrightarrow> same_cfg a c"
  by (simp add: same_cfg_def)

lemma fresh_mono: "fresh s st \<Longrightarrow> holders st' \<subseteq># holders st \<Longrightarrow> fresh s st'"
  unfolding fresh_def by (meson mset_subset_eqD)

text \<open>A state that differs only in its view, with the reference counts to match.\<close>

lemma eng_ok_view:
  assumes ok: "eng_ok env st" and att: "attached st" and h: "holds env (holders st') st'"
    and used: "en_used_bytes st' \<le> int (en_max_bytes st)"
    and eq: "st' = st\<lparr>en_latest := l, en_baselines := b, en_epochs := ep, en_next_report_due := d, en_shadows := sh,
        en_seen := se, en_refs := r, en_used_bytes := u\<rparr>"
    and wf: "dwf l" "dwf b" "slots_ok ep d" "\<forall>k s t. dget b k = Some (s, t) \<longrightarrow> key_of s = k"
  shows "eng_ok env st'"
proof -
  have "shape env st'"
    using eng_okD(1) [OF ok] att wf
    unfolding shape_def dicts_ok_def frozen_ok_def attached_def queued_def eq by simp
  then show ?thesis using h used eng_okD(6) [OF ok] unfolding eng_ok_def eq by simp
qed

lemma note_epoch_spec:
  assumes ok: "eng_ok env st" and att: "attached st" and fr: "fresh s st"
  shows "\<exists>st'. note_epoch env s st = (Inr (), st') \<and> eng_ok env st' \<and> fresh s st' \<and> same_cfg st st'
    \<and> key_of s \<in> fst ` set (en_next_report_due st') \<and> en_boot st' = en_boot st \<and> en_seen st' = en_seen st"
proof (cases "dget (en_epochs st) (key_of s) = Some (epoch_of s)")
  case True
  then have "key_of s \<in> fst ` set (en_epochs st)" by (metis map_of_eq_None_iff option.distinct(1))
  then have "key_of s \<in> fst ` set (en_next_report_due st)" using eng_okD(5) [OF ok] by (auto simp: slots_ok_def)
  with True ok fr show ?thesis by (simp add: note_epoch_def same_cfg_def)
next
  case False
  let ?k = "key_of s"
  let ?st = "st\<lparr>en_epochs := dset ?k (epoch_of s) (en_epochs st)\<rparr>"
  have h: "holds env (holders ?st) ?st" using eng_okD(2) [OF ok] by (simp add: holders_def holds_def)
  have d: "dwf (en_baselines ?st)" "\<forall>k s t. dget (en_baselines st) k = Some (s, t) \<longrightarrow> key_of s = k" "dwf (en_latest st)"
    using eng_okD(3) [OF ok] by (auto simp: dicts_ok_def)
  from forget_baseline_spec [OF h d(1), of ?k] obtain r u where
    f: "forget_baseline env ?k ?st = (Inr (), ?st\<lparr>en_baselines := ddel ?k (en_baselines st), en_refs := r, en_used_bytes := u\<rparr>)"
    and hh: "holds env (holders (?st\<lparr>en_baselines := ddel ?k (en_baselines st)\<rparr>)) (?st\<lparr>en_refs := r, en_used_bytes := u\<rparr>)"
    and u: "u \<le> en_used_bytes st" and sub: "holders (?st\<lparr>en_baselines := ddel ?k (en_baselines st)\<rparr>) \<subseteq># holders ?st" by auto
  define st' where "st' = st\<lparr>en_latest := en_latest st, en_baselines := ddel ?k (en_baselines st),
      en_epochs := dset ?k (epoch_of s) (en_epochs st),
      en_next_report_due := dset ?k (the (s_nominal_origin_mono_ms s)) (en_next_report_due st),
      en_shadows := ddel ?k (en_shadows st), en_seen := en_seen st, en_refs := r, en_used_bytes := u\<rparr>"
  have run: "note_epoch env s st = (Inr (), st')"
    using False f by (simp add: note_epoch_def Let_def st'_def)
  have hol: "holders st' = holders (?st\<lparr>en_baselines := ddel ?k (en_baselines st)\<rparr>)" by (simp add: st'_def holders_def)
  have h': "holds env (holders st') st'" unfolding hol using hh by (rule holds_cong) (simp_all add: st'_def)
  have "eng_ok env st'"
    using ok att h' _ st'_def
    by (rule eng_ok_view) (use u eng_okD(4,5) [OF ok] d in \<open>auto simp: st'_def slots_ok_def\<close>)
  moreover have "holders st' \<subseteq># holders st" using sub unfolding hol by (simp add: holders_def)
  then have "fresh s st'" using fr by (rule fresh_mono [rotated])
  ultimately show ?thesis using run by (simp add: same_cfg_def st'_def)
qed

lemma holders_latest_new:
  "k \<notin> fst ` set (en_latest st) \<Longrightarrow> holders (st\<lparr>en_latest := dset k s (en_latest st)\<rparr>) = add_mset s (holders st)"
  by (simp add: holders_def mset_dvals_new del: mset_map)

lemma fresh_unowned: "fresh s st \<Longrightarrow> dicts_ok st \<Longrightarrow> dget (en_owned st) (identity s) = None"
proof (cases "dget (en_owned st) (identity s)")
  case (Some x)
  moreover assume "fresh s st" "dicts_ok st"
  moreover have "x \<in># holders st" using dget_in_dvals [OF Some] by (auto simp: holders_def)
  ultimately show ?thesis unfolding fresh_def dicts_ok_def by blast
qed

lemma note_latest_spec:
  assumes ok: "eng_ok env st" and att: "attached st" and fr: "fresh s st"
  shows "\<exists>st'. note_latest env s st = (Inr (), st') \<and> eng_ok env st' \<and> same_cfg st st' \<and> compatible s st'
    \<and> dget (en_owned st') (identity s) = None \<and> en_next_report_due st' = en_next_report_due st
    \<and> en_boot st' = en_boot st \<and> en_seen st' = en_seen st"
proof -
  let ?k = "key_of s"
  note d = eng_okD(3) [OF ok]
  from forget_latest_spec [OF eng_okD(2) [OF ok], of ?k] d obtain r u where
    f: "forget_latest env ?k st = (Inr (), st\<lparr>en_latest := ddel ?k (en_latest st), en_refs := r, en_used_bytes := u\<rparr>)"
    and hh: "holds env (holders (st\<lparr>en_latest := ddel ?k (en_latest st)\<rparr>)) (st\<lparr>en_refs := r, en_used_bytes := u\<rparr>)"
    and u: "u \<le> en_used_bytes st" and sub: "holders (st\<lparr>en_latest := ddel ?k (en_latest st)\<rparr>) \<subseteq># holders st"
    by (auto simp: dicts_ok_def)
  define s1 where "s1 = st\<lparr>en_latest := ddel ?k (en_latest st), en_baselines := en_baselines st, en_epochs := en_epochs st,
      en_next_report_due := en_next_report_due st, en_shadows := en_shadows st, en_seen := en_seen st, en_refs := r, en_used_bytes := u\<rparr>"
  have hol: "holders s1 = holders (st\<lparr>en_latest := ddel ?k (en_latest st)\<rparr>)" by (simp add: s1_def holders_def)
  have h1: "holds env (holders s1) s1" unfolding hol using hh by (rule holds_cong) (simp_all add: s1_def)
  have ok1: "eng_ok env s1"
    using ok att h1 _ s1_def
    by (rule eng_ok_view) (use u eng_okD(4,5) [OF ok] d in \<open>auto simp: s1_def dicts_ok_def\<close>)
  have fr1: "fresh s s1" using fr sub unfolding hol [symmetric] by (rule fresh_mono)
  have cfg1: "same_cfg st s1" by (simp add: same_cfg_def s1_def)
  have none: "dget (en_refs s1) (identity s) = None" using h1 fr1 by (intro holds_absent) (auto simp: fresh_def)
  have un: "dget (en_owned s1) (identity s) = None" using fr1 eng_okD(3) [OF ok1] by (rule fresh_unowned)
  have run: "note_latest env s st = (if en_used_bytes s1 + charge_of env s \<le> int (en_max_bytes s1) - reserve s1
       then retain env s (s1\<lparr>en_latest := dset ?k s (en_latest s1)\<rparr>) else (Inr (), s1))"
    using f by (simp add: note_latest_def s1_def)
  show ?thesis
  proof (cases "en_used_bytes s1 + charge_of env s \<le> int (en_max_bytes s1) - reserve s1")
    case False
    with run ok1 cfg1 none un show ?thesis by (auto simp: compatible_def s1_def)
  next
    case True
    let ?s2 = "s1\<lparr>en_latest := dset ?k s (en_latest s1)\<rparr>"
    have out: "?k \<notin> fst ` set (en_latest s1)" by (simp add: s1_def)
    have h2: "holds env (holders s1) ?s2" using h1 by (rule holds_cong) simp_all
    have c2: "compatible s ?s2" using none by (simp add: compatible_def)
    from retain_spec [OF h2 c2] obtain st' where r': "retain env s ?s2 = (Inr (), st')" "holds env (add_mset s (holders s1)) st'"
      "same_rest ?s2 st'" "en_used_bytes st' \<le> en_used_bytes s1 + charge_of env s" by (auto split: if_splits)
    have eq: "st' = s1\<lparr>en_latest := dset ?k s (en_latest s1), en_baselines := en_baselines s1, en_epochs := en_epochs s1,
        en_next_report_due := en_next_report_due s1, en_shadows := en_shadows s1, en_seen := en_seen s1,
        en_refs := en_refs st', en_used_bytes := en_used_bytes st'\<rparr>"
      using r'(3) by (simp add: same_rest_def)
    have hol': "holders st' = add_mset s (holders s1)"
      using same_rest_holders [OF r'(3)] holders_latest_new [OF out] by simp
    have h': "holds env (holders st') st'" using r'(2) hol' by simp
    have "eng_ok env st'"
      using ok1 _ h' _ eq
    proof (rule eng_ok_view)
      show "attached s1" using att cfg1 same_cfg_attached by blast
      show "en_used_bytes st' \<le> int (en_max_bytes s1)" using r'(4) True by (simp add: reserve_def)
    qed (use eng_okD(3,5) [OF ok1] in \<open>auto simp: dicts_ok_def\<close>)
    moreover have "compatible s st'" using h' by (rule holds_compatible) (simp add: hol')
    moreover have "same_cfg st st'" using cfg1 eq by (simp add: same_cfg_def same_rest_fields [OF r'(3)])
    ultimately show ?thesis
      using run True r' un by (simp add: same_rest_fields [OF r'(3)] s1_def)
  qed
qed

section \<open>Selection\<close>

lemma eng_account_fields [simp]:
  "en_refs (eng_account f st) = en_refs st" "en_owned (eng_account f st) = en_owned st"
  "en_points (eng_account f st) = en_points st" "en_snapshot (eng_account f st) = en_snapshot st"
  "en_generation (eng_account f st) = en_generation st" "en_boot_id (eng_account f st) = en_boot_id st"
  "en_boot (eng_account f st) = boot_account f (en_boot st)" "en_max_bytes (eng_account f st) = en_max_bytes st"
  "en_used_bytes (eng_account f st) = en_used_bytes st" "en_next_report_due (eng_account f st) = en_next_report_due st"
  "en_capacity (eng_account f st) = en_capacity st" "en_seen (eng_account f st) = en_seen st"
  by (simp_all add: eng_account_def)

lemma cyclic_due_spec:
  assumes ok: "eng_ok env st" and att: "attached st" and due: "key_of s \<in> fst ` set (en_next_report_due st)"
    and p: "0 < pc_report_interval_ms p" and s: "sample_ok s" "s_capture_boot_id s \<noteq> None"
  shows "\<exists>b st'. cyclic_due p s st = (Inr b, st') \<and> eng_ok env st' \<and> same_cfg st st'
    \<and> en_refs st' = en_refs st \<and> en_owned st' = en_owned st \<and> en_used_bytes st' = en_used_bytes st"
proof (cases "pc_report_mode p = ''change'' \<or> s_kind s \<noteq> PHYSICAL_RESULT")
  case True
  with ok show ?thesis by (auto simp: cyclic_due_def same_cfg_def)
next
  case False
  then obtain q where q: "s_nominal_poll_due_mono_ms s = Some q" "q \<le> the (s_completed_mono_ms s)"
    using s by (auto simp: sample_ok_def)
  from due obtain d where d: "dget (en_next_report_due st) (key_of s) = Some d"
    by (metis map_of_eq_None_iff not_Some_eq)
  let ?c = "(q - d) div pc_report_interval_ms p + 1"
  let ?v = "st\<lparr>en_next_report_due := dset (key_of s) (d + ?c * pc_report_interval_ms p) (en_next_report_due st)\<rparr>"
  have v: "eng_ok env ?v"
  proof (rule eng_ok_view [OF ok att])
    show "holds env (holders ?v) ?v" using eng_okD(2) [OF ok] by (simp add: holders_def holds_def)
    show "?v = st\<lparr>en_latest := en_latest st, en_baselines := en_baselines st, en_epochs := en_epochs st,
        en_next_report_due := dset (key_of s) (d + ?c * pc_report_interval_ms p) (en_next_report_due st), en_shadows := en_shadows st,
        en_seen := en_seen st, en_refs := en_refs st, en_used_bytes := en_used_bytes st\<rparr>" by simp
  qed (use eng_okD(3,4,5) [OF ok] in \<open>auto simp: dicts_ok_def slots_ok_def\<close>)
  let ?w = "\<lambda>n. st\<lparr>en_missed_report_slots := n,
      en_next_report_due := dset (key_of s) (d + ?c * pc_report_interval_ms p) (en_next_report_due st)\<rparr>"
  have w: "eng_ok env (?w n)" for n by (rule eng_ok_cong [OF v]) simp_all
  have "eng_ok env (eng_account (acct_add missedReportSlotsTotal m) (?w n))" for n m
    by (rule eng_account_ok [OF w]) simp
  then show ?thesis
    using False q d p ok by (auto simp: cyclic_due_def Let_def same_cfg_def)
qed

lemma owners_admit:
  assumes "owners_ok owned owners" "dget owned (identity s) = None"
    and "identity s = (Some b, Some (seq_of s))"
    and "\<And>i x. dget owned i = Some x \<Longrightarrow> i = (Some b, Some (seq_of x))"
  shows "owners_ok (dset (identity s) s owned)
    (dset (epoch_of s, key_of s) (dset (seq_of s) s (dget_or owners (epoch_of s, key_of s) [])) owners)"
  unfolding owners_ok_def
proof (intro conjI allI impI)
  fix ek m n x
  let ?ek = "(epoch_of s, key_of s)"
  assume m: "dget (dset ?ek (dset (seq_of s) s (dget_or owners ?ek [])) owners) ek = Some m" and x: "dget m n = Some x"
  consider (new) "ek = ?ek" "n = seq_of s" "x = s"
    | (old) m0 where "dget owners ek = Some m0" "dget m0 n = Some x"
  proof (cases "ek = ?ek \<and> n = seq_of s")
    case True
    then have "x = s" using m x by auto
    with True show thesis using new by blast
  next
    case False
    show thesis
    proof (cases "dget owners ek")
      case None
      with m have "ek = ?ek" by (auto split: if_splits)
      with None m x False show thesis by (auto simp: dget_or_def)
    next
      case (Some m0)
      have "dget m0 n = Some x"
      proof (cases "ek = ?ek")
        case True
        with Some have "dget_or owners ?ek [] = m0" by (simp add: dget_or_def)
        with m x True False show ?thesis by auto
      next
        case False
        with m x Some show ?thesis by simp
      qed
      with Some show thesis by (rule old)
    qed
  qed
  then show "dget (dset (identity s) s owned) (identity x) = Some x" "(epoch_of x, key_of x) = ek" "seq_of x = n"
  proof (atomize (full), cases)
    case new
    then show "dget (dset (identity s) s owned) (identity x) = Some x \<and> (epoch_of x, key_of x) = ek \<and> seq_of x = n" by simp
  next
    case (old m0)
    then have "dget owned (identity x) = Some x \<and> (epoch_of x, key_of x) = ek \<and> seq_of x = n"
      using assms(1) unfolding owners_ok_def by blast
    with assms(2) show "dget (dset (identity s) s owned) (identity x) = Some x \<and> (epoch_of x, key_of x) = ek \<and> seq_of x = n"
      by auto
  qed
next
  fix i x
  assume i: "dget (dset (identity s) s owned) i = Some x"
  let ?new = "dset (epoch_of s, key_of s) (dset (seq_of s) s (dget_or owners (epoch_of s, key_of s) [])) owners"
  show "\<exists>m. dget ?new (epoch_of x, key_of x) = Some m \<and> dget m (seq_of x) = Some x"
  proof (cases "i = identity s")
    case True
    with i show ?thesis by simp
  next
    case False
    then have old: "dget owned i = Some x" using i by simp
    then obtain m where m: "dget owners (epoch_of x, key_of x) = Some m" "dget m (seq_of x) = Some x"
      using assms(1) unfolding owners_ok_def by blast
    have "seq_of x \<noteq> seq_of s" using assms(4) [OF old] assms(3) False by metis
    with m show ?thesis by (auto simp: dget_or_def)
  qed
qed

lemma admit_spec:
  assumes ok: "eng_ok env st" and att: "attached st" and c: "compatible s st" and un: "dget (en_owned st) (identity s) = None"
    and i: "identity s = (Some (en_boot_id st), Some (seq_of s))" and adm: "can_admit env s st"
  shows "\<exists>st'. sbind (supd (admit_owned s)) (\<lambda>_. sbind (retain env s) (\<lambda>_. sbind (supd (admit_queue s)) (\<lambda>_. sret True))) st
      = (Inr True, st') \<and> eng_ok env st'"
proof -
  let ?s1 = "admit_owned s st"
  have h1: "holds env (holders st) ?s1" using eng_okD(2) [OF ok] by (rule holds_cong) (simp_all add: admit_owned_def)
  have c1: "compatible s ?s1" using c by (simp add: compatible_def admit_owned_def)
  from retain_spec [OF h1 c1] obtain s2 where r: "retain env s ?s1 = (Inr (), s2)" "holds env (add_mset s (holders st)) s2"
    "same_rest ?s1 s2" "en_used_bytes s2 = en_used_bytes st + (if identity s \<in> fst ` set (en_refs st) then 0 else charge_of env s)"
    by (auto simp: admit_owned_def)
  define st' where "st' = admit_queue s s2"
  note f = same_rest_fields [OF r(3)]
  have out: "identity s \<notin> fst ` set (en_owned st)" using un by (simp add: map_of_eq_None_iff)
  have owned': "en_owned st' = dset (identity s) s (en_owned st)" by (simp add: st'_def admit_queue_def Let_def f admit_owned_def)
  have ms: "mset (dvals (en_owned st')) = add_mset s (mset (dvals (en_owned st)))" unfolding owned' using out by (rule mset_dvals_new)
  have hol: "holders st' = add_mset s (holders st)"
    unfolding holders_def ms by (simp add: st'_def admit_queue_def Let_def f admit_owned_def)
  have h': "holds env (holders st') st'" unfolding hol using r(2) by (rule holds_cong) (simp_all add: st'_def admit_queue_def Let_def)
  have que: "queued st' = add_mset s (queued st)"
    by (simp add: st'_def admit_queue_def Let_def queued_def f admit_owned_def)
  note sh = eng_okD(1) [OF ok, unfolded shape_def]
  have dic: "dicts_ok st'"
    using sh i by (auto simp: dicts_ok_def st'_def admit_queue_def Let_def f admit_owned_def split: if_splits)
  have ids: "k = (Some (en_boot_id st), Some (seq_of x))" if "dget (en_owned st) k = Some x" for k x
    using sh that unfolding dicts_ok_def by blast
  have own: "owners_ok (en_owned st') (en_owners st')"
    using owners_admit [OF eng_okD(9) [OF ok] un i ids]
    by (simp add: st'_def admit_queue_def Let_def f admit_owned_def)
  have len: "length (en_owned st') \<le> en_capacity st'"
    using adm out unfolding owned' by (simp add: length_dset can_admit_def st'_def admit_queue_def Let_def f admit_owned_def)
  have fz: "frozen_ok env st'" using sh by (simp add: frozen_ok_def st'_def admit_queue_def Let_def f admit_owned_def)
  have rest: "slots_ok (en_epochs st') (en_next_report_due st')" "points_ok (en_points st')" "attached st'"
    using sh att by (auto simp: attached_def st'_def admit_queue_def Let_def f admit_owned_def)
  have used: "en_used_bytes st' \<le> int (en_max_bytes st')"
    using r(4) adm by (auto simp: st'_def admit_queue_def Let_def f admit_owned_def can_admit_def reserve_def split: if_splits)
  have res: "boot_resumes env (en_max_bytes st') (en_boot st')"
    using eng_okD(6) [OF ok] by (simp add: st'_def admit_queue_def Let_def f admit_owned_def)
  have "eng_ok env st'"
    unfolding eng_ok_def shape_def using dic ms que sh own len fz rest used res h' by simp
  with r show ?thesis by (auto simp: st'_def)
qed

lemma accept_selected_spec:
  assumes ok: "eng_ok env st" and att: "attached st" and c: "compatible s st" and un: "dget (en_owned st) (identity s) = None"
    and i: "identity s = (Some (en_boot_id st), Some (seq_of s))"
  shows "\<exists>b st'. accept_selected env s st = (Inr b, st') \<and> eng_ok env st'"
proof -
  let ?ae = "ce_acct (ee_cap env)"
  define s1 where "s1 = st\<lparr>en_eligible_events := en_eligible_events st + 1\<rparr>"
  have ok1: "eng_ok env s1" by (rule eng_ok_cong [OF ok]) (simp_all add: s1_def)
  have acc: "eng_ok env (eng_account (\<lambda>a. snd (decided ?ae s sel adm r a)) x)" if "eng_ok env x" for sel adm r x
    by (rule eng_account_ok [OF that]) simp
  have ctr: "eng_ok env (s1\<lparr>en_time_invalid_events := a, en_known_unsent_events := b\<rparr>)"
      "eng_ok env (s1\<lparr>en_admission_rejected_events := a, en_known_unsent_events := b\<rparr>)" for a b
    by (rule eng_ok_cong [OF ok1]; simp)+
  let ?e = "eng_account (\<lambda>a. snd (decided ?ae s True True None a)) s1"
  consider (time) "s_timestamp s = None \<or> \<not> (s_time_valid s \<or> s_time_source s = ''SYSTEM_RTC_COMPAT'')"
    | (full) "\<not> (s_timestamp s = None \<or> \<not> (s_time_valid s \<or> s_time_source s = ''SYSTEM_RTC_COMPAT''))" "\<not> can_admit env s s1"
    | (dup) "\<not> (s_timestamp s = None \<or> \<not> (s_time_valid s \<or> s_time_source s = ''SYSTEM_RTC_COMPAT''))" "can_admit env s s1"
        "\<not> fst (decided ?ae s True True None (bt_accounting (en_boot s1)))"
    | (admit) "\<not> (s_timestamp s = None \<or> \<not> (s_time_valid s \<or> s_time_source s = ''SYSTEM_RTC_COMPAT''))" "can_admit env s s1"
        "fst (decided ?ae s True True None (bt_accounting (en_boot s1)))"
    by blast
  then show ?thesis
  proof cases
    case time
    then show ?thesis using acc [OF ctr(1)] by (auto simp add: accept_selected_def Let_def s1_def)
  next
    case full
    then show ?thesis using acc [OF ctr(2)] by (auto simp add: accept_selected_def Let_def s1_def del: de_Morgan_disj de_Morgan_conj)
  next
    case dup
    then show ?thesis using acc [OF ok1] by (auto simp add: accept_selected_def Let_def s1_def del: de_Morgan_disj de_Morgan_conj)
  next
    case admit
    have "\<exists>st'. sbind (supd (admit_owned s)) (\<lambda>_. sbind (retain env s) (\<lambda>_. sbind (supd (admit_queue s)) (\<lambda>_. sret True))) ?e
        = (Inr True, st') \<and> eng_ok env st'"
    proof (rule admit_spec)
      show "eng_ok env ?e" by (rule acc [OF ok1])
    qed (use att c un i admit in \<open>auto simp: s1_def attached_def compatible_def can_admit_def reserve_def\<close>)
    then obtain st' where run: "sbind (supd (admit_owned s)) (\<lambda>_. sbind (retain env s) (\<lambda>_. sbind (supd (admit_queue s)) (\<lambda>_. sret True))) ?e
        = (Inr True, st')" and ok': "eng_ok env st'" by blast
    have "accept_selected env s st = (Inr True, st')"
      using admit run by (simp add: accept_selected_def Let_def s1_def sbind_def)
    with ok' show ?thesis by blast
  qed
qed

lemma belongs_attached: "belongs s st \<Longrightarrow> eng_ok env st \<Longrightarrow> attached st"
  using eng_okD(11) [of env st] by (auto simp: belongs_def pristine_def split: option.splits)

lemma belongs_point: "belongs s st \<Longrightarrow> \<exists>p. dget (en_points st) (key_of s) = Some p"
  by (auto simp: belongs_def simp flip: not_None_eq simp: map_of_eq_None_iff)

text \<open>An event of this boot whose identity is new is processed without an exception.\<close>

lemma accept_spec:
  assumes ok: "eng_ok env st" and s: "sample_ok s" "s_nominal_origin_mono_ms s \<noteq> None" and fr: "fresh s st"
    and boot: "s_capture_boot_id s = Some (en_boot_id st)"
  shows "\<exists>b st'. accept env s st = (Inr b, st') \<and> eng_ok env st'"
proof (cases "belongs s st")
  case False
  have "eng_ok env (st\<lparr>en_discarded := n\<rparr>)" for n by (rule eng_ok_cong [OF ok]) simp_all
  then have "eng_ok env (eng_account (\<lambda>a. snd (undecided (ce_acct (ee_cap env)) s r v a)) (st\<lparr>en_discarded := n\<rparr>))" for n r v
    by (rule eng_account_ok) simp
  with False show ?thesis by (auto simp: accept_def)
next
  case True
  have att: "attached st" using True ok by (rule belongs_attached)
  obtain p where p: "dget (en_points st) (key_of s) = Some p" using belongs_point [OF True] ..
  have pos: "0 < pc_report_interval_ms p" using eng_okD(7) [OF ok] p unfolding points_ok_def by blast
  have seq: "s_sample_seq s = Some (seq_of s)" "s_completed_mono_ms s \<noteq> None"
    using s(1) boot by (auto simp: sample_ok_def seq_of_def)
  have ident: "identity s = (Some (en_boot_id st), Some (seq_of s))" using boot seq by (simp add: identity_def)
  show ?thesis
  proof (cases "seq_of s \<le> dget_or (en_seen st) (key_of s) 0")
    case True
    then have "accept env s st = (Inr False, st)" using \<open>belongs s st\<close> s boot seq by (simp add: accept_def)
    with ok show ?thesis by blast
  next
    case False
    define s0 where "s0 = st\<lparr>en_seen := dset (key_of s) (seq_of s) (en_seen st)\<rparr>"
    have ok0: "eng_ok env s0" by (rule eng_ok_cong [OF ok]) (simp_all add: s0_def)
    have cfg0: "same_cfg st s0" and fr0: "fresh s s0" using fr by (simp_all add: same_cfg_def s0_def fresh_def holders_def)
    have att0: "attached s0" using att cfg0 same_cfg_attached by blast
    obtain s1 where s1: "note_epoch env s s0 = (Inr (), s1)" "eng_ok env s1" "fresh s s1" "same_cfg s0 s1"
      "key_of s \<in> fst ` set (en_next_report_due s1)"
      using note_epoch_spec [OF ok0 att0 fr0] by blast
    have att1: "attached s1" using att0 s1(4) same_cfg_attached by blast
    obtain s2 where s2: "note_latest env s s1 = (Inr (), s2)" "eng_ok env s2" "same_cfg s1 s2" "compatible s s2"
      "dget (en_owned s2) (identity s) = None" "en_next_report_due s2 = en_next_report_due s1"
      using note_latest_spec [OF s1(2) att1 s1(3)] by blast
    have att2: "attached s2" using att1 s2(3) same_cfg_attached by blast
    obtain due s3 where s3: "cyclic_due p s s2 = (Inr due, s3)" "eng_ok env s3" "same_cfg s2 s3"
      "en_refs s3 = en_refs s2" "en_owned s3 = en_owned s2"
      using cyclic_due_spec [OF s2(2) att2 _ pos s(1)] s1(5) s2(6) boot by auto
    have cfg3: "same_cfg st s3" using cfg0 s1(4) s2(3) s3(3) by (meson same_cfg_trans)
    then have att3: "attached s3" using att same_cfg_attached by blast
    let ?moved = "changed p s (baseline (key_of s) s2)"
    have "\<exists>b s4. (if ?moved \<or> due then accept_selected env s
             else sbind (supd (\<lambda>st. eng_account (\<lambda>a. snd (decided (ce_acct (ee_cap env)) s False False None a))
                      (st\<lparr>en_policy_filtered_events := en_policy_filtered_events st + 1\<rparr>))) (\<lambda>_. sret False)) s3 = (Inr b, s4)
        \<and> eng_ok env s4"
    proof (cases "?moved \<or> due")
      case True
      have "identity s = (Some (en_boot_id s3), Some (seq_of s))" using ident cfg3 by (simp add: same_cfg_def)
      with True show ?thesis
        using accept_selected_spec [OF s3(2) att3, of s] s2(4,5) s3(4,5) by (simp add: compatible_def)
    next
      case False
      have "eng_ok env (s3\<lparr>en_policy_filtered_events := n\<rparr>)" for n by (rule eng_ok_cong [OF s3(2)]) simp_all
      then have "eng_ok env (eng_account (\<lambda>a. snd (decided (ce_acct (ee_cap env)) s False False None a))
          (s3\<lparr>en_policy_filtered_events := n\<rparr>))" for n by (rule eng_account_ok) simp
      with False show ?thesis by (auto simp: sbind_def)
    qed
    then obtain b s4 where s4: "(if ?moved \<or> due then accept_selected env s
             else sbind (supd (\<lambda>st. eng_account (\<lambda>a. snd (decided (ce_acct (ee_cap env)) s False False None a))
                      (st\<lparr>en_policy_filtered_events := en_policy_filtered_events st + 1\<rparr>))) (\<lambda>_. sret False)) s3 = (Inr b, s4)"
      and ok4: "eng_ok env s4" by blast
    have "accept env s st = (Inr b, sync s4)"
      using \<open>belongs s st\<close> False s boot seq p s1(1) s2(1) s3(1) s4
      by (simp add: accept_def sbind_def s0_def [symmetric])
    with eng_ok_sync [OF ok4] show ?thesis by blast
  qed
qed

lemma open_gate_spec: "eng_ok env st \<Longrightarrow> eng_ok env (open_gate w st)"
proof -
  assume ok: "eng_ok env st"
  have "queued (open_gate w st) = queued st" by (simp add: queued_def open_gate_def)
  then have "shape env (open_gate w st)"
    using eng_okD(1) [OF ok] unfolding shape_def dicts_ok_def frozen_ok_def attached_def pristine_def
    by (auto simp: open_gate_def)
  then show ?thesis
    using eng_okD(2,4,6) [OF ok] by (simp add: eng_ok_def open_gate_def holders_def holds_def)
qed

section \<open>Configuration\<close>

lemma counts_empty: "counts f d {#} \<Longrightarrow> d = []"
proof (cases d)
  case (Cons p d')
  moreover assume "counts f d {#}"
  ultimately have "entry_ok f {#} (fst p) (Some (snd p))" using counts_entry [of f d "{#}" "fst p"] by simp
  then show ?thesis by (cases "snd p") (auto simp: entry_ok_def)
qed simp

lemma checkpoint_for_identity [simp]: "rk_identity (checkpoint_for i k) = i"
  by (auto simp: checkpoint_for_def Let_def split: option.split)

lemma checkpoint_for_ok:
  "case k of None \<Rightarrow> True | Some c \<Rightarrow> checkpoint_ok env m c \<Longrightarrow> checkpoint_ok env m (checkpoint_for i k)"
  by (auto simp: checkpoint_for_def Let_def checkpoint_ok_def slots_ok_def split: option.splits)

lemma checkpoint_for_other: "k = None \<or> k = Some c \<and> rk_identity c \<noteq> i \<Longrightarrow> rk_baselines (checkpoint_for i k) = []"
  by (auto simp: checkpoint_for_def Let_def)

lemma configure_spec:
  assumes ok: "eng_ok env st" and pts: "points_ok (points_of snapshot)"
  shows "\<exists>st'. configure env snapshot now generation st = (Inr (), st') \<and> eng_ok env st'"
proof (cases "snapshot = en_snapshot st \<and> generation = en_generation st")
  case True
  with ok show ?thesis by (simp add: configure_def)
next
  case False
  define s1 where "s1 = st\<lparr>en_cache_reset_points := en_cache_reset_points st + length (en_latest st),
      en_snapshot := snapshot, en_generation := generation, en_points := points_of snapshot\<rparr>"
  let ?L = "dvals (en_latest st)" and ?B = "map fst (dvals (en_baselines st))" and ?O = "mset (dvals (en_owned st))"
  have "holds env (mset ?L + (mset ?B + ?O)) s1"
    using eng_okD(2) [OF ok] by (simp add: holds_def holders_def s1_def union_assoc)
  from forget_all_spec [OF this] obtain s2 where s2: "sfold (forget env) ?L s1 = (Inr (), s2)"
    "holds env (mset ?B + ?O) s2" "same_rest s1 s2" "en_used_bytes s2 \<le> en_used_bytes s1" by blast
  from forget_all_spec [OF s2(2)] obtain s3 where s3: "sfold (forget env) ?B s2 = (Inr (), s3)"
    "holds env ?O s3" "same_rest s2 s3" "en_used_bytes s3 \<le> en_used_bytes s2" by blast
  have r13: "same_rest s1 s3" using s2(3) s3(3) by (rule same_rest_trans)
  note f3 = same_rest_fields [OF r13]
  define k where "k = checkpoint_for (snapshot, generation) (bt_report_checkpoint (en_boot st))"
  define s4 where "s4 = load_checkpoint (s3\<lparr>en_latest := [], en_shadows := []\<rparr>)"
  have base4: "en_baselines s4 = rk_baselines k" "en_epochs s4 = rk_epochs k" "en_next_report_due s4 = rk_next_due k"
    "en_boot s4 = (en_boot st)\<lparr>bt_report_checkpoint := Some k\<rparr>"
    by (simp_all add: s4_def load_checkpoint_def Let_def k_def f3 s1_def)
  have h4: "holds env ?O s4" using s3(2) by (rule holds_cong) (simp_all add: s4_def load_checkpoint_def Let_def)
  have kok: "checkpoint_ok env (en_max_bytes st) k"
    unfolding k_def using eng_okD(6) [OF ok] by (intro checkpoint_for_ok) (simp add: boot_resumes_def)
  let ?X = "map fst (dvals (rk_baselines k))"
  have dist: "distinct (map identity ?X)" using kok by (simp add: checkpoint_ok_def comp_def)
  have sum: "(\<Sum>x\<leftarrow>?X. charge_of env x) \<le> int (en_max_bytes st)" using kok by (simp add: checkpoint_ok_def)
  have cases: "?X = [] \<or> ?O = {#} \<and> en_used_bytes s4 = 0"
  proof (cases "attached st")
    case True
    then obtain c where "bt_report_checkpoint (en_boot st) = Some c" "rk_identity c = (en_snapshot st, en_generation st)"
      unfolding attached_def by blast
    then have "rk_baselines k = []" using False unfolding k_def by (intro checkpoint_for_other [of _ c]) auto
    then show ?thesis by simp
  next
    case False
    then have pr: "pristine st" using eng_okD(11) [OF ok] by blast
    then have "?O = {#}" by (simp add: pristine_def)
    with h4 have "en_refs s4 = []" "en_frozen s4 = []"
      using pr by (auto simp: holds_def pristine_def s4_def load_checkpoint_def Let_def f3 s1_def dest: counts_empty)
    with h4 \<open>?O = {#}\<close> show ?thesis by (simp add: holds_def)
  qed
  then have disj: "identity y \<noteq> identity x" if "x \<in> set ?X" "y \<in># ?O" for x y using that by auto
  from retain_all_spec [OF h4 dist disj] obtain s5 where s5: "sfold (retain env) ?X s4 = (Inr (), s5)"
    "holds env (mset ?X + ?O) s5" "same_rest s4 s5" "en_used_bytes s5 = en_used_bytes s4 + (\<Sum>x\<leftarrow>?X. charge_of env x)" by blast
  note f5 = same_rest_fields [OF s5(3)]
  define st' where "st' = s5\<lparr>en_next_batch := now + interval_s snapshot\<rparr>"
  have run: "configure env snapshot now generation st = (Inr (), st')"
    using False s2(1) s3(1) s5(1)
    by (auto simp add: configure_def Let_def sbind_def s1_def [symmetric] s4_def [symmetric] base4 st'_def)
  have fields: "en_boot_id st' = en_boot_id st" "en_owned st' = en_owned st" "en_queue st' = en_queue st" "en_history st' = en_history st"
    "en_frozen st' = en_frozen st" "en_owners st' = en_owners st" "en_capacity st' = en_capacity st" "en_max_bytes st' = en_max_bytes st"
    "en_latest st' = []" "en_snapshot st' = snapshot" "en_generation st' = generation" "en_points st' = points_of snapshot"
    by (simp_all add: st'_def f5 s4_def load_checkpoint_def Let_def f3 s1_def)
  have hol: "holders st' = mset ?X + ?O" unfolding holders_def fields by (simp add: st'_def f5 base4)
  have "holds env (holders st') st'" unfolding hol using s5(2) by (rule holds_cong) (simp_all add: st'_def)
  moreover have "en_used_bytes st' \<le> int (en_max_bytes st')"
  proof -
    have "en_used_bytes s4 \<le> int (en_max_bytes st)"
      using s3(4) s2(4) eng_okD(4) [OF ok] by (simp add: s4_def load_checkpoint_def Let_def s1_def)
    with cases sum s5(4) show ?thesis by (auto simp: st'_def f5 fields [unfolded st'_def])
  qed
  moreover have "shape env st'"
    using eng_okD(1) [OF ok] kok pts
    unfolding shape_def dicts_ok_def frozen_ok_def attached_def queued_def fields
    by (simp add: st'_def f5 base4 checkpoint_ok_def k_def)
  moreover have "boot_resumes env (en_max_bytes st') (en_boot st')"
    using kok unfolding fields by (simp add: boot_resumes_def st'_def f5 base4)
  ultimately show ?thesis using run by (simp add: eng_ok_def)
qed

section \<open>Batches\<close>

lemma pick_prefix: "\<exists>n. pick env q pending used limit = pending @ map fst (take n q)"
proof (induction env q pending used limit rule: pick.induct)
  case (1 env pending used limit)
  then show ?case by simp
next
  case (2 env s l rest pending used limit)
  let ?stop = "pending \<noteq> [] \<and> (key_of s \<in> key_of ` set pending \<or> s_config_version s \<noteq> s_config_version (hd pending)
      \<or> length pending \<ge> min limit l \<or> used + (ee_value_len env s + 1) > 131072)"
  show ?case
  proof (cases ?stop)
    case True
    then show ?thesis by (intro exI [of _ 0]) (simp add: Let_def)
  next
    case False
    from 2 [OF refl False] obtain n where
      "pick env rest (pending @ [s]) (used + (ee_value_len env s + 1)) (min limit l) = (pending @ [s]) @ map fst (take n rest)" by blast
    with False show ?thesis by (intro exI [of _ "Suc n"]) (simp add: Let_def)
  qed
qed

lemma pick_take: "pick env (take 500 q) [] 512 500 = map fst (take (length (pick env (take 500 q) [] 512 500)) q)"
proof -
  obtain n where "pick env (take 500 q) [] 512 500 = map fst (take n (take 500 q))"
    using pick_prefix [of env "take 500 q" "[]" 512 500] by auto
  then show ?thesis by (simp add: min_def)
qed

lemma frozen_samples_new: "n \<notin> fst ` set d \<Longrightarrow> frozen_samples (dset n b d) = frozen_samples d + mset (bb_samples b)"
  by (simp add: frozen_samples_def dset_absent)

lemma frozen_samples_ddel:
  "dwf d \<Longrightarrow> dget d n = Some b \<Longrightarrow> frozen_samples d = mset (bb_samples b) + frozen_samples (ddel n d)"
proof -
  assume "dwf d" "dget d n = Some b"
  from arg_cong [OF mset_dvals_ddel [OF this], of "\<lambda>M. \<Sum>\<^sub># (image_mset (\<lambda>b. mset (bb_samples b)) M)"]
  show ?thesis by (simp add: frozen_samples_def sum_mset_sum_list [symmetric] multiset.map_comp comp_def)
qed

definition one_version :: "Sample list \<Rightarrow> bool" where
  "one_version p \<longleftrightarrow> (\<forall>x\<in>set p. s_config_version x = s_config_version (hd p))"

lemma one_version_snoc:
  "one_version p \<Longrightarrow> p = [] \<or> s_config_version s = s_config_version (hd p) \<Longrightarrow> one_version (p @ [s])"
  by (cases p) (auto simp: one_version_def)

lemma pick_sound:
  assumes "distinct (map key_of pending)" "one_version pending" "length pending \<le> max 1 limit" "limit \<le> 500"
  shows "distinct (map key_of (pick env q pending used limit)) \<and> one_version (pick env q pending used limit)
    \<and> length (pick env q pending used limit) \<le> 500"
  using assms
proof (induction env q pending used limit rule: pick.induct)
  case (1 env pending used limit)
  then show ?case by simp
next
  case (2 env s l rest pending used limit)
  let ?stop = "pending \<noteq> [] \<and> (key_of s \<in> key_of ` set pending \<or> s_config_version s \<noteq> s_config_version (hd pending)
      \<or> length pending \<ge> min limit l \<or> used + (ee_value_len env s + 1) > 131072)"
  show ?case
  proof (cases ?stop)
    case True
    then have "pick env ((s, l) # rest) pending used limit = pending" by (simp add: Let_def)
    moreover have "length pending \<le> 500" using "2.prems" by simp
    ultimately show ?thesis using "2.prems" by simp
  next
    case False
    then have eq: "pick env ((s, l) # rest) pending used limit =
        pick env rest (pending @ [s]) (used + (ee_value_len env s + 1)) (min limit l)"
      unfolding pick.simps Let_def by (rule if_not_P)
    have "distinct (map key_of (pending @ [s]))" using False "2.prems"(1) by (cases pending) auto
    moreover have "one_version (pending @ [s])" using False "2.prems"(2) by (intro one_version_snoc) auto
    moreover have "length (pending @ [s]) \<le> max 1 (min limit l)" using False by (cases pending) auto
    moreover have "min limit l \<le> 500" using "2.prems"(4) by simp
    ultimately show ?thesis unfolding eq by (rule 2(1) [OF refl False])
  qed
qed

lemma make_batch_ok:
  assumes "q \<noteq> []" "ee_payload_len env (bb_payload (make_batch env now wall_ms n (pick env (take 500 q) [] 512 500) st)) \<le> 131072"
  shows "batch_ok env (make_batch env now wall_ms n (pick env (take 500 q) [] 512 500) st)"
proof -
  let ?p = "pick env (take 500 q) [] 512 500"
  have "distinct (map key_of ?p) \<and> one_version ?p \<and> length ?p \<le> 500"
    by (rule pick_sound) (simp_all add: one_version_def)
  moreover have "?p \<noteq> []" using assms(1) by (intro pick_not_Nil) simp
  moreover have "\<forall>x\<in>set ?p. s_config_version x = s_config_version (hd ?p)"
    using calculation(1) unfolding one_version_def by blast
  ultimately show ?thesis using assms(2) unfolding batch_ok_def make_batch_def payload_for_def
      ReportBatch.simps telemetry.simps by blast
qed

lemma materialized_ok:
  assumes "frozen_ok env st"
  shows "fst (materialized ae n mid (bt_accounting (en_boot st))) = None
    \<and> ac_frozen_batches (snd (materialized ae n mid (bt_accounting (en_boot st)))) =
        dset n mid (ac_frozen_batches (bt_accounting (en_boot st)))"
proof -
  let ?a = "ac_frozen_batches (bt_accounting (en_boot st))"
  have "length ?a = card (fst ` set ?a)" using assms by (intro dwf_length) (simp add: frozen_ok_def)
  also have "\<dots> \<le> card (fst ` set (en_frozen st))" using assms by (intro card_mono) (auto simp: frozen_ok_def)
  also have "\<dots> \<le> length (en_frozen st)" using card_length [of "dkeys (en_frozen st)"] by simp
  also have "\<dots> \<le> 8" using assms by (simp add: frozen_ok_def)
  finally show ?thesis by (simp add: materialized_def)
qed

lemma frozen_state_ok:
  assumes ok: "eng_ok env st" and room: "length (en_frozen st) < 8"
    and b: "bb_samples b = map fst (take (length (bb_samples b)) (queue_of c st))" "bb_sequence b = bt_sequence (en_boot st) + 1"
    and q: "queue_of c st \<noteq> []" and fits: "en_used_bytes st + batch_charge env b \<le> int (en_max_bytes st)"
    and a: "ac_frozen_batches a = dset (bb_sequence b) mid (ac_frozen_batches (bt_accounting (en_boot st)))"
    and bok: "batch_ok env b"
  shows "eng_ok env (frozen_state env c b a st)"
proof -
  let ?st' = "frozen_state env c b a st"
  have att: "attached st" using eng_okD(11) [OF ok] q by (cases c) (auto simp: pristine_def queue_of_def)
  have fz: "frozen_ok env st" by (rule eng_okD(8) [OF ok])
  have new: "bb_sequence b \<notin> fst ` set (en_frozen st)"
  proof
    assume "bb_sequence b \<in> fst ` set (en_frozen st)"
    then obtain x where "dget (en_frozen st) (bb_sequence b) = Some x" by (metis map_of_eq_None_iff not_Some_eq)
    with fz b(2) show False by (fastforce simp: frozen_ok_def)
  qed
  have fields: "en_owned ?st' = en_owned st" "en_latest ?st' = en_latest st" "en_baselines ?st' = en_baselines st"
    "en_refs ?st' = en_refs st" "en_used_bytes ?st' = en_used_bytes st + batch_charge env b" "en_max_bytes ?st' = en_max_bytes st"
    "en_frozen ?st' = dset (bb_sequence b) b (en_frozen st)" "en_capacity ?st' = en_capacity st" "en_owners ?st' = en_owners st"
    "en_boot_id ?st' = en_boot_id st" "en_epochs ?st' = en_epochs st" "en_next_report_due ?st' = en_next_report_due st"
    "en_points ?st' = en_points st" "en_snapshot ?st' = en_snapshot st" "en_generation ?st' = en_generation st"
    "en_boot ?st' = (en_boot st)\<lparr>bt_sequence := bb_sequence b, bt_accounting := a\<rparr>"
    by (cases c; simp add: frozen_state_def set_queue_def)+
  have split: "mset (map fst (queue_of c st)) = mset (bb_samples b) + mset (map fst (drop (length (bb_samples b)) (queue_of c st)))"
    by (subst b(1)) (simp only: mset_append [symmetric] map_append [symmetric] append_take_drop_id)
  have que: "queued ?st' = queued st"
    using split by (cases c) (simp_all add: queued_def fields frozen_samples_new [OF new] frozen_state_def set_queue_def queue_of_def
        ac_simps del: mset_map)
  have hol: "holders ?st' = holders st" by (simp add: holders_def fields)
  have h: "holds env (holders st) ?st'"
    using eng_okD(2) [OF ok] new by (simp add: holds_def fields dsum_dset_new)
  have "frozen_ok env ?st'"
    using fz room new b(2) a bok by (auto simp: frozen_ok_def fields length_dset split: if_splits intro: le_SucI)
  then have "shape env ?st'"
    using eng_okD(1) [OF ok] att que unfolding shape_def dicts_ok_def attached_def fields by simp
  then show ?thesis
    using h hol fits eng_okD(6) [OF ok] by (simp add: eng_ok_def fields boot_resumes_def)
qed

lemma freeze_one_ok:
  assumes ok: "eng_ok env st" and room: "length (en_frozen st) < 8"
  shows "eng_ok env (snd (freeze_one env now wall_ms st))"
proof (cases "choose_class st")
  case None
  with ok show ?thesis by (simp add: freeze_one_def)
next
  case (Some c)
  have q: "queue_of c st \<noteq> []" using Some by (rule choose_queue)
  show ?thesis
  proof (cases "next_sequence (en_boot st)")
    case (Inl e)
    with Some ok show ?thesis by (simp add: freeze_one_def)
  next
    case (Inr p)
    then obtain n boot where s: "next_sequence (en_boot st) = Inr (n, boot)" by (cases p) auto
    note seq = next_sequenceD [OF s]
    define b where "b = make_batch env now wall_ms n (pick env (take 500 (queue_of c st)) [] 512 500) st"
    have okb: "eng_ok env (st\<lparr>en_boot := boot\<rparr>)" by (rule eng_ok_cong [OF ok]) (use seq in simp_all)
    obtain err a where m: "materialized (ce_acct (ee_cap env)) (bb_sequence b) (tm_message_id (bb_payload b))
        (bt_accounting (en_boot st)) = (err, a)" by fastforce
    have mo: "err = None" "ac_frozen_batches a = dset (bb_sequence b) (tm_message_id (bb_payload b)) (ac_frozen_batches (bt_accounting (en_boot st)))"
      using materialized_ok [OF eng_okD(8) [OF ok], of "ce_acct (ee_cap env)" "bb_sequence b" "tm_message_id (bb_payload b)"] m by auto
    have bs: "bb_samples b = map fst (take (length (bb_samples b)) (queue_of c st))" "bb_sequence b = bt_sequence (en_boot st) + 1"
      using pick_take [of env "queue_of c st"] seq by (auto simp: b_def make_batch_def)
    have run: "freeze_one env now wall_ms st = freeze_batch env c b (st\<lparr>en_boot := boot\<rparr>)"
      using Some s by (simp add: freeze_one_def b_def)
    show ?thesis
    proof (cases "ee_payload_len env (bb_payload b) > 131072 \<or> en_used_bytes st + batch_charge env b > int (en_max_bytes st)")
      case True
      then have "snd (freeze_one env now wall_ms st) = st\<lparr>en_boot := boot\<rparr>" by (auto simp: run freeze_batch_def)
      with okb show ?thesis by simp
    next
      case False
      then have "snd (freeze_one env now wall_ms st) = frozen_state env c b a st"
        using m mo seq bs(2) unfolding run
        by (cases c) (simp_all add: freeze_batch_def Let_def frozen_state_def eng_account_def boot_account_def queue_of_def set_queue_def)
      moreover have "batch_ok env b" using make_batch_ok [OF q] False by (simp add: b_def)
      ultimately show ?thesis using frozen_state_ok [OF ok room bs q _ mo(2)] False by simp
    qed
  qed
qed

lemma prepare_loop_ok: "eng_ok env st \<Longrightarrow> eng_ok env (snd (prepare_loop env now wall_ms st))"
proof (induction env now wall_ms st rule: prepare_loop.induct)
  case (1 env now wall_ms st)
  show ?case
  proof (cases "length (en_frozen st) < 8 \<and> (en_queue st \<noteq> [] \<or> en_history st \<noteq> [])")
    case False
    with 1 show ?thesis by (subst prepare_loop.simps) auto
  next
    case True
    obtain r s1 where f: "freeze_one env now wall_ms st = (r, s1)" by fastforce
    have ok1: "eng_ok env s1" using freeze_one_ok [OF "1.prems", of now wall_ms] True f by simp
    show ?thesis
    proof (cases "\<exists>b. r = Inr (Some b)")
      case True
      then obtain b where b: "r = Inr (Some b)" by blast
      have "eng_ok env (snd (prepare_loop env now wall_ms s1))"
        by (rule "1.IH" [OF \<open>length (en_frozen st) < 8 \<and> _\<close> f [symmetric] b refl ok1])
      with \<open>length (en_frozen st) < 8 \<and> _\<close> f b show ?thesis
        by (subst prepare_loop.simps) (auto split: prod.splits sum.splits)
    next
      case False
      with \<open>length (en_frozen st) < 8 \<and> _\<close> f ok1 show ?thesis
        by (subst prepare_loop.simps) (auto split: sum.splits option.splits)
    qed
  qed
qed

lemma prepare_ok: "eng_ok env st \<Longrightarrow> eng_ok env (snd (prepare env now wall_ms force st))"
proof -
  assume ok: "eng_ok env st"
  have "eng_ok env (st\<lparr>en_next_batch := t\<rparr>)" for t by (rule eng_ok_cong [OF ok]) simp_all
  from prepare_loop_ok [OF this] ok show ?thesis
    by (auto simp: prepare_def Let_def split: prod.splits sum.splits) (metis snd_conv)+
qed

section \<open>Commit\<close>

text \<open>The invariant while the events \<open>X\<close> of a committed batch are still owned but no longer
  queued.\<close>

definition eng_mid :: "eng_env \<Rightarrow> Sample multiset \<Rightarrow> engine \<Rightarrow> bool" where
  "eng_mid env X st \<longleftrightarrow> dicts_ok st \<and> mset (dvals (en_owned st)) = queued st + X
     \<and> length (en_owned st) \<le> en_capacity st \<and> owners_ok (en_owned st) (en_owners st)
     \<and> frozen_ok env st \<and> slots_ok (en_epochs st) (en_next_report_due st) \<and> points_ok (en_points st)
     \<and> attached st \<and> holds env (holders st) st \<and> en_used_bytes st \<le> int (en_max_bytes st)
     \<and> boot_resumes env (en_max_bytes st) (en_boot st)"

lemma eng_mid_done: "eng_mid env {#} st \<Longrightarrow> eng_ok env st"
  by (simp add: eng_mid_def eng_ok_def shape_def)

lemma adopt_spec:
  assumes "eng_mid env X st" and s: "s \<in># mset (dvals (en_owned st))"
    and h: "holds env H st1" and H: "holders st2 = add_mset s H" "s \<in># H"
    and u: "en_used_bytes st1 \<le> en_used_bytes st"
    and eq: "st2 = st1\<lparr>en_baselines := dset (key_of s) (s, t) (en_baselines st1)\<rparr>"
      "st1 = st\<lparr>en_refs := r, en_used_bytes := v\<rparr>"
  shows "\<exists>st'. retain env s st2 = (Inr (), st') \<and> eng_mid env X st' \<and> en_owned st' = en_owned st"
proof -
  have h2: "holds env H st2" using h by (rule holds_cong) (simp_all add: eq)
  have "identity s \<in> fst ` set (en_refs st2)" using h2 H(2) by (rule holds_present)
  moreover from retain_spec [OF h2 holds_compatible [OF h2 H(2)]] obtain st' where
    r: "retain env s st2 = (Inr (), st')" "holds env (add_mset s H) st'" "same_rest st2 st'"
    "en_used_bytes st' = en_used_bytes st2 + (if identity s \<in> fst ` set (en_refs st2) then 0 else charge_of env s)" by blast
  ultimately have used: "en_used_bytes st' \<le> en_used_bytes st" using u by (simp add: eq)
  have h': "holds env (holders st') st'" using r(2) same_rest_holders [OF r(3)] H(1) by simp
  have d: "dicts_ok st'" using assms(1) unfolding eng_mid_def dicts_ok_def same_rest_fields [OF r(3)] by (auto simp: eq)
  have "eng_mid env X st'"
    using assms(1) d h' used unfolding eng_mid_def queued_def frozen_ok_def attached_def same_rest_fields [OF r(3)]
    by (simp add: eq)
  then show ?thesis using r by (simp add: same_rest_fields [OF r(3)] eq)
qed

lemma commit_baseline_spec:
  assumes mid: "eng_mid env X st" and s: "s \<in># mset (dvals (en_owned st))"
  shows "\<exists>st'. commit_baseline env s st = (Inr (), st') \<and> eng_mid env X st' \<and> en_owned st' = en_owned st"
proof (cases "dget (en_epochs st) (key_of s) = Some (epoch_of s)")
  case False
  with mid show ?thesis by (simp add: commit_baseline_def)
next
  case True
  let ?t = "of_int (the (s_completed_mono_ms s)) / 1000 :: rat" and ?k = "key_of s"
  let ?R = "mset (dvals (en_latest st)) + mset (map fst (dvals (ddel ?k (en_baselines st)))) + mset (dvals (en_owned st))"
  have h: "holds env (holders st) st" and wf: "dwf (en_baselines st)" using mid by (auto simp: eng_mid_def dicts_ok_def)
  show ?thesis
  proof (cases "dget (en_baselines st) ?k")
    case None
    then have out: "?k \<notin> fst ` set (en_baselines st)" by (simp add: map_of_eq_None_iff)
    let ?st2 = "st\<lparr>en_baselines := dset ?k (s, ?t) (en_baselines st)\<rparr>"
    have hol: "holders ?st2 = add_mset s (holders st)" using out by (simp add: holders_def dset_absent)
    have "\<exists>st'. retain env s ?st2 = (Inr (), st') \<and> eng_mid env X st' \<and> en_owned st' = en_owned st"
      using mid s h hol _ order.refl refl
    proof (rule adopt_spec)
      show "st = st\<lparr>en_refs := en_refs st, en_used_bytes := en_used_bytes st\<rparr>" by simp
    qed (use s in \<open>simp add: holders_def\<close>)
    with True None show ?thesis by (simp add: commit_baseline_def adopt_def)
  next
    case (Some p)
    have hold: "holders st = add_mset (fst p) ?R"
      using arg_cong [OF mset_dvals_ddel [OF wf Some], of "image_mset fst"] by (simp add: holders_def multiset.map_comp)
    show ?thesis
    proof (cases "seq_of s > seq_of (fst p)")
      case False
      with True Some mid show ?thesis by (cases p) (simp add: commit_baseline_def)
    next
      case newer: True
      from forget_spec [of env "fst p" ?R st] h hold obtain st1 where f: "forget env (fst p) st = (Inr (), st1)"
        "holds env ?R st1" "same_rest st st1" "en_used_bytes st1 \<le> en_used_bytes st" by auto
      let ?st2 = "st1\<lparr>en_baselines := dset ?k (s, ?t) (en_baselines st1)\<rparr>"
      have hol: "holders ?st2 = add_mset s ?R"
        using arg_cong [OF mset_dvals_old [OF wf Some, of "(s, ?t)"], of "image_mset fst"]
        by (simp add: holders_def same_rest_fields [OF f(3)] multiset.map_comp)
      have "\<exists>st'. retain env s ?st2 = (Inr (), st') \<and> eng_mid env X st' \<and> en_owned st' = en_owned st"
        using mid s f(2) hol _ f(4) refl
      proof (rule adopt_spec)
        show "st1 = st\<lparr>en_refs := en_refs st1, en_used_bytes := en_used_bytes st1\<rparr>" using f(3) by (simp add: same_rest_def)
      qed (use s in simp)
      with True Some newer f show ?thesis by (cases p) (simp add: commit_baseline_def adopt_def)
    qed
  qed
qed

lemma owners_release:
  assumes "owners_ok owned owners" "dget owned (identity s) = Some s" "dget owners (epoch_of s, key_of s) = Some m"
    and "\<And>i x. dget owned i = Some x \<Longrightarrow> identity x = i \<and> i = (Some b, Some (seq_of x))"
  shows "owners_ok (ddel (identity s) owned)
    (if ddel (seq_of s) m = [] then ddel (epoch_of s, key_of s) owners else dset (epoch_of s, key_of s) (ddel (seq_of s) m) owners)"
    (is "owners_ok ?owned ?owners")
  unfolding owners_ok_def
proof (intro conjI allI impI)
  fix ek m' n x
  assume m': "dget ?owners ek = Some m'" and x: "dget m' n = Some x"
  have "\<exists>m0. dget owners ek = Some m0 \<and> dget m0 n = Some x \<and> \<not> (ek = (epoch_of s, key_of s) \<and> n = seq_of s)"
  proof (cases "ek = (epoch_of s, key_of s)")
    case True
    with m' have "m' = ddel (seq_of s) m" by (auto split: if_splits)
    with x True assms(3) show ?thesis by (auto split: if_splits)
  next
    case False
    with m' x show ?thesis by (auto split: if_splits)
  qed
  then obtain m0 where m0: "dget owners ek = Some m0" "dget m0 n = Some x" "\<not> (ek = (epoch_of s, key_of s) \<and> n = seq_of s)" by blast
  then have old: "dget owned (identity x) = Some x \<and> (epoch_of x, key_of x) = ek \<and> seq_of x = n"
    using assms(1) unfolding owners_ok_def by blast
  then have "identity x \<noteq> identity s" using assms(2) m0(3) by auto
  with old show "dget ?owned (identity x) = Some x" "(epoch_of x, key_of x) = ek" "seq_of x = n" by simp_all
next
  fix i x
  assume i: "dget ?owned i = Some x"
  then have ne: "i \<noteq> identity s" and old: "dget owned i = Some x" by (auto split: if_splits)
  then obtain m0 where m0: "dget owners (epoch_of x, key_of x) = Some m0" "dget m0 (seq_of x) = Some x"
    using assms(1) unfolding owners_ok_def by blast
  have sq: "seq_of x \<noteq> seq_of s" using assms(4) [OF old] assms(4) [OF assms(2)] ne by metis
  show "\<exists>m. dget ?owners (epoch_of x, key_of x) = Some m \<and> dget m (seq_of x) = Some x"
  proof (cases "(epoch_of x, key_of x) = (epoch_of s, key_of s)")
    case True
    then have g: "dget (ddel (seq_of s) m) (seq_of x) = Some x" using m0 assms(3) sq by simp
    then have "ddel (seq_of s) m \<noteq> []" by (metis map_of.simps(1) option.distinct(1))
    with True g show ?thesis by (simp del: dget_ddel)
  next
    case False
    with m0 show ?thesis by (simp only: dget_ddel dget_dset if_False split: if_split) simp
  qed
qed

lemma release_spec:
  assumes mid: "eng_mid env (add_mset s X) st"
  shows "\<exists>st'. release env s st = (Inr (), st') \<and> eng_mid env X st'"
proof -
  have d: "dicts_ok st" and own: "owners_ok (en_owned st) (en_owners st)" and ms: "mset (dvals (en_owned st)) = queued st + add_mset s X"
    using mid by (auto simp: eng_mid_def)
  have ids: "identity x = i \<and> i = (Some (en_boot_id st), Some (seq_of x))" if "dget (en_owned st) i = Some x" for i x
    using d that unfolding dicts_ok_def by blast
  have wf: "dwf (en_owned st)" using d by (simp add: dicts_ok_def)
  have "s \<in># mset (dvals (en_owned st))" unfolding ms by simp
  then obtain i where "dget (en_owned st) i = Some s" using in_dvals_dget [OF wf] by blast
  with ids have so: "dget (en_owned st) (identity s) = Some s" by metis
  obtain m where m: "dget (en_owners st) (epoch_of s, key_of s) = Some m" using own so unfolding owners_ok_def by blast
  let ?s1 = "st\<lparr>en_owned := ddel (identity s) (en_owned st)\<rparr>"
  have owned1: "mset (dvals (en_owned st)) = add_mset s (mset (dvals (en_owned ?s1)))" using mset_dvals_ddel [OF wf so] by simp
  have "holders st = add_mset s (holders ?s1)" unfolding holders_def owned1 by simp
  with mid have "holds env (add_mset s (holders ?s1)) ?s1" by (auto simp: eng_mid_def intro: holds_cong)
  from forget_spec [OF this] obtain s2 where s2: "forget env s ?s1 = (Inr (), s2)" "holds env (holders ?s1) s2"
    "same_rest ?s1 s2" "en_used_bytes s2 \<le> en_used_bytes st" by auto
  note f = same_rest_fields [OF s2(3)]
  let ?m = "ddel (seq_of s) m" and ?ek = "(epoch_of s, key_of s)"
  define ow where "ow = (if ?m = [] then ddel ?ek (en_owners st) else dset ?ek ?m (en_owners st))"
  have ro: "\<exists>sh. release_owner s s2 = (Inr (), s2\<lparr>en_owners := ow, en_shadows := sh\<rparr>)"
  proof (cases "dget (en_epochs s2) (key_of s) = Some (epoch_of s)")
    case True
    with m show ?thesis by (auto simp: release_owner_def Let_def f ow_def)
  next
    case False
    with m show ?thesis by (intro exI [of _ "en_shadows s2"]) (simp add: release_owner_def Let_def f ow_def)
  qed
  then obtain sh where run: "release_owner s s2 = (Inr (), s2\<lparr>en_owners := ow, en_shadows := sh\<rparr>)" ..
  let ?st' = "s2\<lparr>en_owners := ow, en_shadows := sh\<rparr>"
  have oo: "owners_ok (ddel (identity s) (en_owned st)) ow" unfolding ow_def using own so m ids by (rule owners_release)
  have h': "holds env (holders ?st') ?st'"
    using s2(2) same_rest_holders [OF s2(3)] by (auto simp: holders_def f intro: holds_cong)
  have q: "mset (dvals (en_owned ?st')) = queued ?st' + X" using ms owned1 by (simp add: queued_def f)
  have d': "dicts_ok ?st'" using d by (auto simp: dicts_ok_def f split: if_splits)
  have len: "length (en_owned ?st') \<le> en_capacity ?st'" using mid length_delete_le [of "identity s" "en_owned st"]
    by (simp add: eng_mid_def f)
  have "eng_mid env X ?st'"
    using mid h' q d' len oo s2(4) unfolding eng_mid_def frozen_ok_def attached_def
    by (simp add: f)
  with run s2(1) show ?thesis by (simp add: release_def sbind_def)
qed

lemma commit_all_spec:
  assumes "eng_mid env (mset xs) st"
  shows "\<exists>st'. sfold (\<lambda>s. sbind (commit_baseline env s) (\<lambda>_. release env s)) xs st = (Inr (), st') \<and> eng_mid env {#} st'"
  using assms
proof (induction xs arbitrary: st)
  case (Cons x xs)
  have "x \<in># mset (dvals (en_owned st))" using Cons.prems by (simp add: eng_mid_def del: mset_map)
  with Cons.prems obtain s1 where s1: "commit_baseline env x st = (Inr (), s1)" "eng_mid env (mset (x # xs)) s1"
    using commit_baseline_spec by blast
  then obtain s2 where s2: "release env x s1 = (Inr (), s2)" "eng_mid env (mset xs) s2"
    using release_spec [of env x "mset xs" s1] by auto
  from Cons.IH [OF s2(2)] s1 s2 show ?case by (simp add: sbind_def)
qed simp

text \<open>The storage session removes a batch from the accounts' frozen table when it has stored it
  (\<open>committed_acct\<close>), before the engine is told.\<close>

lemma committed_spec:
  "eng_ok env st \<Longrightarrow> bb_sequence b \<notin> fst ` set (ac_frozen_batches (bt_accounting (en_boot st)))
   \<Longrightarrow> \<exists>st'. committed env b st = (Inr (), st') \<and> eng_ok env st'"
proof (cases "dget (en_frozen st) (bb_sequence b) = Some b")
  case False
  moreover assume "eng_ok env st"
  ultimately show ?thesis by (simp add: committed_def)
next
  case True
  assume ok: "eng_ok env st" and stored: "bb_sequence b \<notin> fst ` set (ac_frozen_batches (bt_accounting (en_boot st)))"
  let ?s1 = "drop_frozen_batch env b st"
  have wf: "dwf (en_frozen st)" using eng_okD(2) [OF ok] by (simp add: holds_def)
  have att: "attached st" using eng_okD(11) [OF ok] True by (auto simp: pristine_def)
  have "holds env (holders ?s1) ?s1"
    using eng_okD(2) [OF ok] dsum_ddel [OF wf True] by (simp add: holds_def holders_def drop_frozen_batch_def)
  moreover have "queued st = queued ?s1 + mset (bb_samples b)"
    using frozen_samples_ddel [OF wf True] by (simp add: queued_def drop_frozen_batch_def)
  moreover have "frozen_ok env ?s1"
    using eng_okD(8) [OF ok] stored length_delete_le [of "bb_sequence b" "en_frozen st"]
    by (auto simp: frozen_ok_def drop_frozen_batch_def rev_image_eqI)
  ultimately have "eng_mid env (mset (bb_samples b)) ?s1"
    using eng_okD(3-) [OF ok] att
    by (simp add: eng_mid_def dicts_ok_def attached_def drop_frozen_batch_def batch_charge_def del: mset_map)
  from commit_all_spec [OF this] obtain st' where
    "sfold (\<lambda>s. sbind (commit_baseline env s) (\<lambda>_. release env s)) (bb_samples b) ?s1 = (Inr (), st')" "eng_mid env {#} st'" by blast
  then have "committed env b st = (Inr (), sync st') \<and> eng_ok env (sync st')"
    using True eng_mid_done eng_ok_sync by (simp add: committed_def sbind_def)
  then show ?thesis by blast
qed

section \<open>Abandoning volatile events\<close>

lemma drop_frozen_keys:
  "fst ` set (ac_frozen_batches (drop_frozen seqs a)) = fst ` set (ac_frozen_batches a) - set seqs"
  "dwf (ac_frozen_batches a) \<Longrightarrow> dwf (ac_frozen_batches (drop_frozen seqs a))"
proof -
  let ?f = "\<lambda>a seq. if seq \<in> set (dkeys (ac_frozen_batches a))
      then a\<lparr>ac_frozen_batches := ddel seq (ac_frozen_batches a), ac_pending_batches := ac_pending_batches a - 1\<rparr> else a"
  show "fst ` set (ac_frozen_batches (drop_frozen seqs a)) = fst ` set (ac_frozen_batches a) - set seqs"
    unfolding drop_frozen_def
  proof (induction seqs arbitrary: a)
    case (Cons x xs)
    have "fst ` set (ac_frozen_batches (?f a x)) = fst ` set (ac_frozen_batches a) - {x}" by auto
    with Cons.IH [of "?f a x"] show ?case by (simp only: foldl_Cons list.set) blast
  qed simp
  show "dwf (ac_frozen_batches a) \<Longrightarrow> dwf (ac_frozen_batches (drop_frozen seqs a))"
    unfolding drop_frozen_def by (induction seqs arbitrary: a) auto
qed

lemma abandon_frozen:
  "ac_frozen_batches (abandon_acct env samples seqs a) =
     ac_frozen_batches (drop_frozen seqs (acct_add knownUnsentEventsTotal (length samples) (a\<lparr>ac_pending := ac_pending a - int (length samples)\<rparr>)))"
proof -
  have "ac_frozen_batches (foldl (\<lambda>a part. acct_gap env r oc part e a) b parts) = ac_frozen_batches b" for r oc e b parts
    by (induction parts arbitrary: b) auto
  moreover have "ac_frozen_batches (foldl (\<lambda>a s. acct_record env k (f s) a) b ss) = ac_frozen_batches b" for k f b and ss :: "Sample list"
    by (induction ss arbitrary: b) auto
  ultimately show ?thesis by (simp add: abandon_acct_def Let_def)
qed

lemma abandon_spec:
  assumes ok: "eng_ok env st"
  shows "\<exists>st'. abandon env st = (Inr (length (en_owned st)), st') \<and> eng_ok env st' \<and> en_owned st' = [] \<and> en_frozen st' = []
    \<and> en_queue st' = [] \<and> en_history st' = []"
proof -
  let ?acct = "abandon_acct (ce_acct (ee_cap env)) (dvals (en_owned st)) (dkeys (en_frozen st))"
  define s1 where "s1 = (eng_account ?acct st)\<lparr>en_known_unsent_events := en_known_unsent_events st + length (en_owned st)\<rparr>"
  let ?V = "mset (dvals (en_latest st)) + mset (map fst (dvals (en_baselines st)))"
  have "holds env (mset (dvals (en_owned st)) + ?V) s1"
    using eng_okD(2) [OF ok] by (auto simp: holders_def s1_def eng_account_def ac_simps intro: holds_cong)
  from forget_all_spec [OF this] obtain s2 where s2: "sfold (forget env) (dvals (en_owned st)) s1 = (Inr (), s2)"
    "holds env ?V s2" "same_rest s1 s2" "en_used_bytes s2 \<le> en_used_bytes s1" by blast
  note f = same_rest_fields [OF s2(3)]
  define st' where "st' = s2\<lparr>en_used_bytes := en_used_bytes s2 - dsum (batch_charge env) (en_frozen s2), en_queue := [], en_history := [],
      en_frozen := [], en_classes := [], en_owned := [], en_owners := [], en_shadows := []\<rparr>"
  have run: "abandon env st = (Inr (length (en_owned st)), st')"
    using s2(1) by (simp add: abandon_def Let_def sbind_def s1_def [symmetric] st'_def)
  have hol: "holders st' = ?V" by (simp add: holders_def st'_def f s1_def eng_account_def)
  have h': "holds env (holders st') st'" unfolding hol using s2(2) by (simp add: holds_def st'_def)
  have "frozen_ok env st'"
  proof -
    have "fst ` set (ac_frozen_batches (?acct (bt_accounting (en_boot st)))) = {}" "dwf (ac_frozen_batches (?acct (bt_accounting (en_boot st))))"
      using eng_okD(8) [OF ok] unfolding abandon_frozen by (auto simp: drop_frozen_keys frozen_ok_def)
    then show ?thesis by (simp add: frozen_ok_def st'_def f s1_def eng_account_def)
  qed
  then have "shape env st'"
    using eng_okD(1) [OF ok] unfolding shape_def dicts_ok_def attached_def pristine_def owners_ok_def queued_def
    by (auto simp: st'_def f s1_def eng_account_def frozen_samples_def)
  moreover have "en_used_bytes st' \<le> int (en_max_bytes st')"
    using s2(4) eng_okD(4) [OF ok] dsum_nonneg [of "batch_charge env" "en_frozen s2"]
    by (simp add: st'_def f s1_def eng_account_def batch_charge_def)
  moreover have "boot_resumes env (en_max_bytes st') (en_boot st')"
    using eng_okD(6) [OF ok] by (simp add: boot_resumes_def st'_def f s1_def eng_account_def)
  ultimately show ?thesis using run h' by (auto simp: eng_ok_def st'_def)
qed

section \<open>Every reachable engine\<close>

text \<open>The operations of the engine, and the changes the storage session makes to the accounts
  it shares (it only ever removes frozen batches).\<close>

inductive eng_step :: "eng_env \<Rightarrow> engine \<Rightarrow> engine \<Rightarrow> bool" for env where
  st_configure: "points_ok (points_of snapshot) \<Longrightarrow> eng_step env st (snd (configure env snapshot now generation st))"
| st_open_gate: "eng_step env st (open_gate w st)"
| st_accept: "sample_ok s \<Longrightarrow> s_nominal_origin_mono_ms s \<noteq> None \<Longrightarrow> fresh s st \<Longrightarrow> s_capture_boot_id s = Some (en_boot_id st)
     \<Longrightarrow> eng_step env st (snd (accept env s st))"
| st_prepare: "eng_step env st (snd (prepare env now wall_ms force st))"
| st_committed: "bb_sequence b \<notin> fst ` set (ac_frozen_batches (bt_accounting (en_boot st))) \<Longrightarrow> eng_step env st (snd (committed env b st))"
| st_abandon: "eng_step env st (snd (abandon env st))"
| st_accounts: "dwf (ac_frozen_batches (f (bt_accounting (en_boot st)))) \<Longrightarrow>
     fst ` set (ac_frozen_batches (f (bt_accounting (en_boot st)))) \<subseteq> fst ` set (ac_frozen_batches (bt_accounting (en_boot st)))
     \<Longrightarrow> eng_step env st (eng_account f st)"

definition eng_init :: "eng_env \<Rightarrow> engine \<Rightarrow> bool" where
  "eng_init env st \<longleftrightarrow> (\<exists>gw boot_id boot capacity max_bytes. engine_new gw boot_id boot capacity max_bytes = Inr st
     \<and> boot_resumes env max_bytes boot \<and> ac_frozen_batches (bt_accounting boot) = [])"

lemma eng_init_ok: "eng_init env st \<Longrightarrow> eng_ok env st"
  by (auto simp: eng_init_def engine_new_def eng_ok_def shape_def dicts_ok_def queued_def frozen_samples_def owners_ok_def
      frozen_ok_def slots_ok_def points_ok_def pristine_def holds_def counts_def entry_ok_def holders_def split: if_splits)

lemma accounts_step_ok:
  assumes ok: "eng_ok env st" and wf: "dwf (ac_frozen_batches (f (bt_accounting (en_boot st))))"
    and sub: "fst ` set (ac_frozen_batches (f (bt_accounting (en_boot st)))) \<subseteq> fst ` set (ac_frozen_batches (bt_accounting (en_boot st)))"
  shows "eng_ok env (eng_account f st)"
proof -
  have "frozen_ok env (eng_account f st)" using eng_okD(8) [OF ok] wf unfolding frozen_ok_def
    by (simp add: eng_account_def order_trans [OF sub])
  then have "shape env (eng_account f st)"
    using eng_okD(1) [OF ok] unfolding shape_def dicts_ok_def attached_def pristine_def queued_def by (simp add: eng_account_def)
  then show ?thesis using eng_okD(2,4,6) [OF ok]
    by (simp add: eng_ok_def eng_account_def holders_def holds_def boot_resumes_def)
qed

lemma eng_step_ok: "eng_step env st st' \<Longrightarrow> eng_ok env st \<Longrightarrow> eng_ok env st'"
proof (induction rule: eng_step.induct)
  case (st_configure snapshot st now generation)
  then show ?case using configure_spec [of env st snapshot now generation] by auto
next
  case (st_accept s st)
  then show ?case using accept_spec [of env st s] by auto
next
  case (st_committed b st)
  then show ?case using committed_spec [of env st b] by auto
next
  case (st_abandon st)
  then show ?case using abandon_spec [of env st] by auto
qed (simp_all add: open_gate_spec prepare_ok accounts_step_ok)

interpretation engine: invariant_system "eng_init env" "eng_step env" "eng_ok env" for env
  by unfold_locales (auto intro: eng_init_ok eng_step_ok)

section \<open>A concrete engine\<close>

definition demo_eng_env :: eng_env where
  "demo_eng_env = \<lparr>ee_cap = demo_cap, ee_value_len = (\<lambda>_. 90), ee_payload_len = (\<lambda>t. 200 + 91 * length (tm_values t)), ee_uuid = digits\<rparr>"

definition demo_snapshot :: ConfigSnapshot where
  "demo_snapshot = \<lparr>cs_gateway_id = ''PLC-01'', cs_message_id = ''m'', cs_config_version = 1, cs_timestamp = 0, cs_enabled = True,
     cs_report = \<lparr>rc_batch_interval_ms = 1000, rc_max_batch_points = 100\<rparr>, cs_devices = [demo_device], cs_content_json = [], cs_wire_json = []\<rparr>"

definition demo_engine :: engine where
  "demo_engine = projr (engine_new ''PLC-01'' ''boot-1'' demo_boot 4 65536)"

lemma demo_engine_init: "eng_init demo_eng_env demo_engine"
proof -
  have "engine_new ''PLC-01'' ''boot-1'' demo_boot 4 65536 = Inr demo_engine"
    by (simp add: demo_engine_def engine_new_def demo_boot_def boot_new_def acct_new_def)
  moreover have "boot_resumes demo_eng_env 65536 demo_boot" "ac_frozen_batches (bt_accounting demo_boot) = []"
    by (simp_all add: boot_resumes_def demo_boot_def boot_new_def acct_new_def)
  ultimately show ?thesis unfolding eng_init_def by blast
qed

section \<open>Properties\<close>

text \<open>C2. No selected event is lost or duplicated by the engine: in every reachable state the
  owned events are exactly the events waiting in the new queue, in the history queue and in the
  frozen batches, each in one place, with pairwise different identities, and there are at
  most \<open>capacity\<close> of them.\<close>

theorem engine_owns_each_event_once:
  assumes "eng_init env st0" "(eng_step env)\<^sup>*\<^sup>* st0 st"
  shows "mset (dvals (en_owned st)) = mset (map fst (en_queue st)) + mset (map fst (en_history st))
       + (\<Sum>b\<leftarrow>dvals (en_frozen st). mset (bb_samples b))
    \<and> distinct (map identity (dvals (en_owned st))) \<and> length (en_owned st) \<le> en_capacity st"
proof -
  have ok: "eng_ok env st" by (rule engine.reachable_inv [OF assms])
  have wf: "dwf (en_owned st)" using eng_okD(3) [OF ok] by (simp add: dicts_ok_def)
  have "identity (snd p) = fst p" if "p \<in> set (en_owned st)" for p
  proof -
    have "dget (en_owned st) (fst p) = Some (snd p)" using that wf by (simp add: dwf_mem_iff [symmetric])
    with eng_okD(3) [OF ok] show ?thesis unfolding dicts_ok_def by blast
  qed
  then have "map identity (dvals (en_owned st)) = dkeys (en_owned st)" by simp
  with wf have "distinct (map identity (dvals (en_owned st)))" by (simp only: dwf_def)
  with eng_okD(10,12) [OF ok] show ?thesis unfolding queued_def frozen_samples_def by blast
qed

theorem engine_owns_each_event_once_witness:
  "eng_init demo_eng_env demo_engine \<and> length (en_owned (open_gate 0 demo_engine)) \<le> en_capacity (open_gate 0 demo_engine)"
proof -
  have "(eng_step demo_eng_env)\<^sup>*\<^sup>* demo_engine (open_gate 0 demo_engine)"
    by (intro r_into_rtranclp eng_step.st_open_gate)
  from engine_owns_each_event_once [OF demo_engine_init this] demo_engine_init show ?thesis by blast
qed

text \<open>C3. Memory is accounted exactly and bounded: in every reachable state the byte gauge is
  the charge of each retained event counted once, however many views, baselines and queues
  refer to it, plus the charge of the frozen batches, it never exceeds the limit, and the
  reference table counts exactly those references.\<close>

theorem engine_bytes_exact:
  assumes "eng_init env st0" "(eng_step env)\<^sup>*\<^sup>* st0 st"
  shows "en_used_bytes st = dsum (\<lambda>(s, n). charge_of env s) (en_refs st) + dsum (batch_charge env) (en_frozen st)
    \<and> en_used_bytes st \<le> int (en_max_bytes st)
    \<and> (\<forall>i. (case dget (en_refs st) i of None \<Rightarrow> 0 | Some (s, n) \<Rightarrow> n) =
         count (image_mset identity (mset (dvals (en_latest st)) + mset (map fst (dvals (en_baselines st))) + mset (dvals (en_owned st)))) i)"
proof -
  have ok: "eng_ok env st" by (rule engine.reachable_inv [OF assms])
  then have h: "holds env (holders st) st" by (rule eng_okD(2))
  have "(case dget (en_refs st) i of None \<Rightarrow> 0 | Some (s, n) \<Rightarrow> n) = count (image_mset identity (holders st)) i" for i
  proof (cases "dget (en_refs st) i")
    case None
    have "entry_ok identity (holders st) i None" using h None counts_entry [of identity "en_refs st" "holders st" i] by (simp add: holds_def)
    with None show ?thesis by (simp add: entry_none)
  next
    case (Some p)
    have "entry_ok identity (holders st) i (Some p)" using h Some counts_entry [of identity "en_refs st" "holders st" i] by (simp add: holds_def)
    with Some show ?thesis by (cases p) (simp add: entry_ok_def)
  qed
  with h eng_okD(4) [OF ok] show ?thesis unfolding holders_def holds_def by blast
qed

theorem engine_bytes_exact_witness:
  "eng_init demo_eng_env demo_engine \<and> en_used_bytes (open_gate 0 demo_engine) \<le> int (en_max_bytes (open_gate 0 demo_engine))"
proof -
  have "(eng_step demo_eng_env)\<^sup>*\<^sup>* demo_engine (open_gate 0 demo_engine)"
    by (intro r_into_rtranclp eng_step.st_open_gate)
  from engine_bytes_exact [OF demo_engine_init this] demo_engine_init show ?thesis by blast
qed





text \<open>Cyclic reporting never drifts and never reports a slot twice: when a physical result
  falls due, the next report slot moves along the configured grid to the first slot after the
  result's nominal time, and exactly the skipped slots are counted as missed.\<close>

theorem cyclic_due_grid:
  assumes "cyclic_due p s st = (Inr True, st')" "dget (en_next_report_due st) (key_of s) = Some due"
    and "0 < pc_report_interval_ms p" "s_nominal_poll_due_mono_ms s = Some q"
  shows "\<exists>k\<ge>1. dget (en_next_report_due st') (key_of s) = Some (due + k * pc_report_interval_ms p)
    \<and> q < due + k * pc_report_interval_ms p \<and> due + (k - 1) * pc_report_interval_ms p \<le> q
    \<and> en_missed_report_slots st' = en_missed_report_slots st + nat (k - 1)"
proof -
  define i where "i = pc_report_interval_ms p"
  define k where "k = (q - due) div i + 1"
  have i: "0 < i" using assms(3) by (simp add: i_def)
  have q: "due \<le> q" and st': "dget (en_next_report_due st') (key_of s) = Some (due + k * i)"
    "en_missed_report_slots st' = en_missed_report_slots st + nat (k - 1)"
    using assms by (auto simp: cyclic_due_def Let_def eng_account_def i_def k_def split: if_splits)
  have d: "(q - due) div i * i + (q - due) mod i = q - due" by (rule div_mult_mod_eq)
  have m: "0 \<le> (q - due) mod i" "(q - due) mod i < i" "0 \<le> (q - due) div i" using i q by (simp_all add: pos_imp_zdiv_nonneg_iff)
  have k: "k * i = (q - due) div i * i + i" "(k - 1) * i = (q - due) div i * i" by (simp_all add: k_def distrib_right)
  have "1 \<le> k" "q < due + k * i" "due + (k - 1) * i \<le> q"
    using d m k unfolding k by (simp add: k_def, linarith+)
  with st' show ?thesis unfolding i_def by (intro exI [of _ k]) simp
qed

definition demo_cyclic :: PointConfig where
  "demo_cyclic = (demo_point ''P1'' ''uint16'' 0)\<lparr>pc_report_mode := ''cyclic''\<rparr>"

theorem cyclic_due_grid_witness:
  "\<exists>st' k. cyclic_due demo_cyclic (demo_sample 1) (demo_engine\<lparr>en_next_report_due := [((''D1'', ''P1''), 0)]\<rparr>) = (Inr True, st')
     \<and> 1 \<le> k \<and> 2000 < k * 1000 \<and> (k - 1) * 1000 \<le> (2000 :: int)"
proof -
  let ?st = "demo_engine\<lparr>en_next_report_due := [((''D1'', ''P1''), 0)]\<rparr>"
  obtain st' where c: "cyclic_due demo_cyclic (demo_sample 1) ?st = (Inr True, st')"
    by (simp add: cyclic_due_def demo_cyclic_def demo_point_def demo_sample_def key_of_def Let_def)
  from cyclic_due_grid [OF c, of 0 2000] c show ?thesis
    by (auto simp: demo_cyclic_def demo_point_def demo_sample_def key_of_def)
qed

end
