(* ===== verification/PlatformTime.thy ===== *)
theory PlatformTime
  imports Boot
begin

text \<open>
  The process-owned logical UTC of \<^verbatim>\<open>core/platform_time.py\<close>: connection and revision
  bookkeeping, extrapolation with a bounded slew, snapshots with their error bound, tokens and
  purposes, and the request/response rounds that synchronise it with the hub.

  The monotonic clock, the system clock, the jitter and \<^verbatim>\<open>uuid4\<close> are parameters, streams
  indexed by the number of readings taken so far (\<open>tp_reads\<close>). A response is the message that
  passed validation, or None. The lock makes every method one step. Milliseconds that the source
  computes in \<^verbatim>\<open>float\<close> are exact rationals.
\<close>

section \<open>State\<close>

datatype time_state = UNSYNCED | SYNCING | SYNCED | HOLDOVER | EXPIRED | SUSPECT | MAINTENANCE

datatype purpose = CAPTURE | ACK_APPLY | ENQUEUE | CONTROL_SEND | SEND

record TimeToken =
  tk_boot_id :: string
  tk_clock_revision :: nat
  tk_connection_revision :: nat
  tk_issued_mono_ms :: int

record TimeSnapshot =
  ts_boot_id :: string
  ts_mono_ms :: int
  ts_utc_ms :: "int option"
  ts_system_utc_ms :: "int option"
  ts_uncertainty_ms :: "int option"
  ts_source :: string
  ts_state :: time_state
  ts_time_valid :: bool
  ts_sync_age_ms :: "int option"
  ts_clock_revision :: nat
  ts_time_basis_ref :: "string option"
  ts_connection_revision :: nat

record time_request =
  tq_gateway :: string
  tq_request_id :: string
  tq_boot_id :: string
  tq_session_id :: "string option"
  tq_client_mono_ms :: int

record time_response =
  tr_request :: time_request
  tr_received_at :: int
  tr_sent_at :: int

text \<open>A candidate: target UTC, time of receipt, path delay, round trip, error.\<close>

record candidate =
  cd_target :: rat
  cd_received :: int
  cd_path :: int
  cd_rtt :: int
  cd_error :: rat

record time_env =
  te_mono :: "nat \<Rightarrow> int"
  te_system :: "nat \<Rightarrow> int"
  te_jitter :: "nat \<Rightarrow> rat \<Rightarrow> rat \<Rightarrow> rat"
  te_uuid :: "nat \<Rightarrow> string"

record ptime =
  tp_gateway :: string
  tp_boot_id :: string
  tp_platform :: bool
  tp_basis :: "string option"
  tp_drift_ppm :: rat
  tp_drift_evidence :: "string option"
  tp_revision :: nat
  tp_connection_revision :: nat
  tp_generation :: nat
  tp_generation_started :: int
  tp_session :: "string option"
  tp_session_synced :: bool
  tp_heartbeat_submitted :: bool
  tp_get_submitted :: bool
  tp_state :: time_state
  tp_reason :: "string option"
  tp_utc :: "rat option"
  tp_last_mono :: int
  tp_sync_mono :: "int option"
  tp_uncertainty :: rat
  tp_residual :: rat
  tp_floor :: "int option"
  tp_last_observed_mono :: int
  tp_pending :: "time_request option"
  tp_round_start :: "int option"
  tp_attempts :: nat
  tp_candidates :: "candidate list"
  tp_next_sync :: int
  tp_failures :: nat
  tp_suspect_confirm :: bool
  tp_reads :: nat

section \<open>Construction and readings\<close>

definition read_mono :: "time_env \<Rightarrow> ptime \<Rightarrow> int \<times> ptime" where
  "read_mono env st = (te_mono env (tp_reads st), st\<lparr>tp_reads := tp_reads st + 1\<rparr>)"

fun strip_blank :: "string \<Rightarrow> bool" where
  "strip_blank s = list_all (\<lambda>c. of_char c \<in> {9, 10, 11, 12, 13, 28, 29, 30, 31, 32, 133, 160 :: nat}) s"

definition drift_ok :: "string option \<Rightarrow> pynum option \<Rightarrow> string option \<Rightarrow> bool" where
  "drift_ok basis drift_ppm evidence \<longleftrightarrow>
     (case basis of None \<Rightarrow> False | Some b \<Rightarrow> id_fullmatch b)
     \<and> (case drift_ppm of None \<Rightarrow> False | Some d \<Rightarrow> num_finite d \<and> 0 \<le> num_value d \<and> num_value d \<le> 1000)
     \<and> (case evidence of None \<Rightarrow> False | Some e \<Rightarrow> \<not> strip_blank e \<and> length e \<le> 256)"

definition ptime_new :: "time_env \<Rightarrow> string \<Rightarrow> string \<Rightarrow> string \<Rightarrow> string option \<Rightarrow> pynum option \<Rightarrow> string option \<Rightarrow> ptime res" where
  "ptime_new env gw boot_id mode basis drift_ppm evidence =
     (if \<not> id_fullmatch gw \<or> \<not> id_fullmatch boot_id \<or> mode \<notin> {''HUB_MQTT'', ''SYSTEM_RTC''}
      then Inl (ValueError ''Invalid time identity/mode'')
      else if mode = ''HUB_MQTT'' \<and> \<not> drift_ok basis drift_ppm evidence
      then Inl (ValueError ''Platform time requires a basis and an evidenced drift bound'')
      else Inr \<lparr>tp_gateway = gw, tp_boot_id = boot_id, tp_platform = (mode = ''HUB_MQTT''), tp_basis = basis,
        tp_drift_ppm = (case drift_ppm of None \<Rightarrow> 0 | Some d \<Rightarrow> num_value d), tp_drift_evidence = evidence,
        tp_revision = 0, tp_connection_revision = 0, tp_generation = 0, tp_generation_started = te_mono env 0,
        tp_session = None, tp_session_synced = False, tp_heartbeat_submitted = False, tp_get_submitted = False,
        tp_state = UNSYNCED, tp_reason = None, tp_utc = None, tp_last_mono = te_mono env 1, tp_sync_mono = None,
        tp_uncertainty = 0, tp_residual = 0, tp_floor = None, tp_last_observed_mono = te_mono env 1,
        tp_pending = None, tp_round_start = None, tp_attempts = 0, tp_candidates = [], tp_next_sync = 0,
        tp_failures = 0, tp_suspect_confirm = False, tp_reads = 2\<rparr>)"

definition bump :: "time_env \<Rightarrow> (unit, ptime) prog" where
  "bump env st =
     (if max (tp_revision st) (max (tp_connection_revision st) (tp_generation st)) \<ge> MAX_SAFE
      then (Inl (TimeUnavailable ''Time revision exhausted''), st)
      else let st = st\<lparr>tp_revision := tp_revision st + 1, tp_generation := tp_generation st + 1\<rparr>;
               (now, st) = read_mono env st
           in (Inr (), st\<lparr>tp_generation_started := now\<rparr>))"

definition close_gates :: "time_state \<Rightarrow> string \<Rightarrow> ptime \<Rightarrow> ptime" where
  "close_gates state reason st =
     st\<lparr>tp_state := state, tp_reason := Some reason, tp_session_synced := False, tp_heartbeat_submitted := False,
        tp_get_submitted := False, tp_pending := None, tp_next_sync := 0\<rparr>"

definition invalidate :: "time_env \<Rightarrow> time_state \<Rightarrow> string \<Rightarrow> (unit, ptime) prog" where
  "invalidate env state reason st =
     sbind (if tp_state st \<in> {UNSYNCED, EXPIRED, SUSPECT, MAINTENANCE} then sret () else bump env)
       (\<lambda>_. supd (close_gates state reason)) st"

section \<open>Connections\<close>

definition connect_core :: "string \<Rightarrow> ptime \<Rightarrow> ptime" where
  "connect_core session st =
     st\<lparr>tp_connection_revision := tp_connection_revision st + 1, tp_session := Some session,
        tp_session_synced := \<not> tp_platform st, tp_heartbeat_submitted := False, tp_get_submitted := False,
        tp_pending := None, tp_round_start := None, tp_attempts := 0, tp_candidates := [], tp_next_sync := 0\<rparr>"

definition connect :: "string \<Rightarrow> (unit, ptime) prog" where
  "connect session st =
     (if \<not> id_fullmatch session then (Inl (ValueError ''Invalid session''), st)
      else if tp_connection_revision st \<ge> MAX_SAFE then (Inl (TimeUnavailable ''Connection revision exhausted''), st)
      else (Inr (), connect_core session st))"

definition disconnect :: "(unit, ptime) prog" where
  "disconnect = sbind (connect ''disconnected'') (\<lambda>_. supd (\<lambda>st. st\<lparr>tp_session := None, tp_session_synced := False,
     tp_heartbeat_submitted := False, tp_get_submitted := False\<rparr>))"

definition require_maintenance :: "time_env \<Rightarrow> (unit, ptime) prog" where
  "require_maintenance env = invalidate env MAINTENANCE ''ROLLBACK_REQUIRES_MAINTENANCE''"

definition load_history_boundary :: "time_env \<Rightarrow> string option \<Rightarrow> int option \<Rightarrow> (unit, ptime) prog" where
  "load_history_boundary env basis utc_lower st =
     (case utc_lower of None \<Rightarrow> (Inr (), st)
      | Some l \<Rightarrow>
         (if basis \<noteq> tp_basis st then require_maintenance env st
          else let f = max (case tp_floor st of None \<Rightarrow> 0 | Some f \<Rightarrow> f) l; st = st\<lparr>tp_floor := Some f\<rparr>
               in case tp_utc st of None \<Rightarrow> (Inr (), st)
                  | Some u \<Rightarrow> if u + tp_uncertainty st < of_int f then require_maintenance env st else (Inr (), st)))"

section \<open>Extrapolation and snapshots\<close>

definition slew :: "int \<Rightarrow> rat \<Rightarrow> rat" where
  "slew elapsed residual = max (- (of_int elapsed * 5 / 1000)) (min (of_int elapsed * 5 / 1000) residual)"

definition extrapolate :: "int \<Rightarrow> ptime \<Rightarrow> ptime" where
  "extrapolate now st =
     (case tp_utc st of None \<Rightarrow> st
      | Some u \<Rightarrow>
         (let elapsed = max 0 (now - tp_last_mono st); correction = slew elapsed (tp_residual st)
          in st\<lparr>tp_utc := Some (u + of_int elapsed + correction), tp_residual := tp_residual st - correction\<rparr>))
     \<lparr>tp_last_mono := now\<rparr>"

definition advance :: "time_env \<Rightarrow> int \<Rightarrow> (unit, ptime) prog" where
  "advance env now st =
     sbind (if now < tp_last_observed_mono st
            then sbind (invalidate env MAINTENANCE ''CLOCK_CONTINUITY_REQUIRES_MAINTENANCE'') (\<lambda>_. supd (\<lambda>st. st\<lparr>tp_utc := None\<rparr>))
            else sret ())
       (\<lambda>_. supd (\<lambda>st. extrapolate now (st\<lparr>tp_last_observed_mono := now\<rparr>))) st"

definition sync_age :: "int \<Rightarrow> ptime \<Rightarrow> int option" where
  "sync_age now st = map_option (\<lambda>m. max 0 (now - m)) (tp_sync_mono st)"

definition sync_error :: "int \<Rightarrow> ptime \<Rightarrow> int option" where
  "sync_error now st =
     map_option (\<lambda>age. \<lceil>tp_uncertainty st + of_int age * tp_drift_ppm st / 1000000 + \<bar>tp_residual st\<bar>\<rceil>) (sync_age now st)"

definition snapshot_valid :: "int \<Rightarrow> ptime \<Rightarrow> bool" where
  "snapshot_valid now st \<longleftrightarrow>
     tp_platform st \<and> tp_state st \<in> {SYNCED, HOLDOVER}
     \<and> (case (tp_utc st, sync_age now st, sync_error now st) of
          (Some u, Some age, Some err) \<Rightarrow> age < 3600000 \<and> err < 1000 \<and> 0 \<le> u - of_int err \<and> u + of_int err \<le> of_nat MAX_SAFE
        | _ \<Rightarrow> False)"

definition system_utc :: "time_env \<Rightarrow> ptime \<Rightarrow> int option" where
  "system_utc env st = (let t = te_system env (tp_reads st) in if 0 \<le> t \<and> t \<le> int MAX_SAFE then Some t else None)"

definition settle_snapshot :: "time_env \<Rightarrow> bool \<Rightarrow> (unit, ptime) prog" where
  "settle_snapshot env valid st =
     (if valid then (Inr (), st\<lparr>tp_state := (if tp_session_synced st then SYNCED else HOLDOVER)\<rparr>)
      else if tp_platform st \<and> tp_state st \<in> {SYNCED, HOLDOVER} then invalidate env EXPIRED ''HOLDOVER_EXPIRED'' st
      else (Inr (), st))"

definition snapshot_of :: "time_env \<Rightarrow> int \<Rightarrow> int option \<Rightarrow> int option \<Rightarrow> bool \<Rightarrow> ptime \<Rightarrow> TimeSnapshot" where
  "snapshot_of env now age err valid st =
     \<lparr>ts_boot_id = tp_boot_id st, ts_mono_ms = now, ts_utc_ms = (if valid then map_option floor (tp_utc st) else None),
      ts_system_utc_ms = system_utc env st, ts_uncertainty_ms = err,
      ts_source = (if tp_platform st then ''HUB_MQTT'' else ''SYSTEM_RTC''), ts_state = tp_state st, ts_time_valid = valid,
      ts_sync_age_ms = age, ts_clock_revision = tp_revision st, ts_time_basis_ref = (if tp_platform st then tp_basis st else None),
      ts_connection_revision = tp_connection_revision st\<rparr>"

definition snapshot :: "time_env \<Rightarrow> (TimeSnapshot, ptime) prog" where
  "snapshot env st =
     (let (now, st) = read_mono env st
      in sbind (advance env now) (\<lambda>_ st.
           let valid = snapshot_valid now st
           in sbind (settle_snapshot env valid)
                (\<lambda>_ t. (Inr (snapshot_of env now (sync_age now st) (sync_error now st) valid t), t)) st) st)"

section \<open>Tokens\<close>

definition token :: "time_env \<Rightarrow> (TimeToken, ptime) prog" where
  "token env = sbind (snapshot env) (\<lambda>s. sret \<lparr>tk_boot_id = ts_boot_id s, tk_clock_revision = ts_clock_revision s,
     tk_connection_revision = ts_connection_revision s, tk_issued_mono_ms = ts_mono_ms s\<rparr>)"

definition token_current :: "TimeToken option \<Rightarrow> int \<Rightarrow> ptime \<Rightarrow> bool" where
  "token_current tok at_ms st =
     (case tok of None \<Rightarrow> True
      | Some t \<Rightarrow> tk_boot_id t = tp_boot_id st \<and> tk_clock_revision t = tp_revision st
          \<and> tk_connection_revision t = tp_connection_revision st
          \<and> 0 \<le> at_ms - tk_issued_mono_ms t \<and> at_ms - tk_issued_mono_ms t < 2000)"

definition purpose_ok :: "TimeSnapshot \<Rightarrow> purpose \<Rightarrow> ptime \<Rightarrow> bool" where
  "purpose_ok s p st =
     (case p of CAPTURE \<Rightarrow> True
      | ACK_APPLY \<Rightarrow> tp_session st \<noteq> None
      | _ \<Rightarrow> (if tp_platform st then ts_time_valid s else ts_system_utc_ms s \<noteq> None)
           \<and> (p = ENQUEUE \<or> tp_session st \<noteq> None \<and> tp_session_synced st
                \<and> (p = CONTROL_SEND \<or> tp_heartbeat_submitted st \<and> tp_get_submitted st)))"

fun purpose_name :: "purpose \<Rightarrow> string" where
  "purpose_name CAPTURE = ''CAPTURE''"
| "purpose_name ACK_APPLY = ''ACK_APPLY''"
| "purpose_name ENQUEUE = ''ENQUEUE''"
| "purpose_name CONTROL_SEND = ''CONTROL_SEND''"
| "purpose_name SEND = ''SEND''"

definition valid_for :: "time_env \<Rightarrow> TimeToken option \<Rightarrow> purpose \<Rightarrow> (bool, ptime) prog" where
  "valid_for env tok p = sbind (snapshot env) (\<lambda>s st. (Inr (token_current tok (ts_mono_ms s) st \<and> purpose_ok s p st), st))"

definition require_time :: "time_env \<Rightarrow> TimeToken option \<Rightarrow> purpose \<Rightarrow> (TimeSnapshot, ptime) prog" where
  "require_time env tok p st =
     (if tp_platform st \<and> tok = None \<and> p \<in> {ENQUEUE, CONTROL_SEND, SEND}
      then (Inl (TimeUnavailable ''Explicit current time token required''), st)
      else sbind (valid_for env tok p) (\<lambda>ok. if ok then snapshot env else sraise (TimeUnavailable (''Time context invalid for '' @ purpose_name p))) st)"

definition control_submitted :: "time_env \<Rightarrow> string \<Rightarrow> TimeToken option \<Rightarrow> (unit, ptime) prog" where
  "control_submitted env kind tok =
     sbind (require_time env tok CONTROL_SEND) (\<lambda>_. supd (\<lambda>st.
       if kind = ''heartbeat'' then st\<lparr>tp_heartbeat_submitted := True\<rparr>
       else if kind = ''config/get'' \<and> tp_heartbeat_submitted st then st\<lparr>tp_get_submitted := True\<rparr> else st))"

definition read_capture :: "time_env \<Rightarrow> int \<Rightarrow> (CaptureTime, ptime) prog" where
  "read_capture env completed_mono_ms =
     sbind (snapshot env) (\<lambda>s st.
       (let valid = (ts_time_valid s \<and> tp_generation_started st \<le> completed_mono_ms \<and> completed_mono_ms \<le> ts_mono_ms s + 1)
        in (Inr \<lparr>ct_utc_ms = (if valid then ts_utc_ms s else if \<not> tp_platform st then ts_system_utc_ms s else None),
              ct_time_valid = valid, ct_clock_revision = int (tp_revision st), ct_generation = int (tp_generation st),
              ct_source = (if tp_platform st then ''HUB_MQTT'' else ''SYSTEM_RTC_COMPAT''),
              ct_generation_started_mono_ms = Some (tp_generation_started st)\<rparr>, st)))"

section \<open>Synchronisation rounds\<close>

definition adopt_settle :: "time_env \<Rightarrow> rat \<Rightarrow> int \<Rightarrow> bool \<Rightarrow> ptime \<Rightarrow> ptime" where
  "adopt_settle env err now single st =
     st\<lparr>tp_suspect_confirm := False, tp_uncertainty := err, tp_sync_mono := Some now, tp_state := SYNCED, tp_reason := None,
        tp_session_synced := (tp_session st \<noteq> None),
        tp_next_sync := now + (if single then 10000 else py_round (300000 * te_jitter env (tp_reads st) (9 / 10) (11 / 10)))\<rparr>"

definition adopt_target :: "time_env \<Rightarrow> rat \<Rightarrow> rat \<Rightarrow> int \<Rightarrow> bool \<Rightarrow> (unit, ptime) prog" where
  "adopt_target env target err now single =
     sbind (\<lambda>st. case tp_utc st of
         Some u \<Rightarrow> (if tp_state st \<in> {EXPIRED, UNSYNCED, SYNCING}
           then sbind (bump env) (\<lambda>_. supd (\<lambda>st. st\<lparr>tp_utc := Some target, tp_residual := 0\<rparr>)) st
           else (Inr (), st\<lparr>tp_residual := target - u\<rparr>))
       | None \<Rightarrow> sbind (bump env) (\<lambda>_. supd (\<lambda>st. st\<lparr>tp_utc := Some target, tp_residual := 0\<rparr>)) st)
       (\<lambda>_. supd (adopt_settle env err now single))"

definition adopt_time :: "time_env \<Rightarrow> rat \<Rightarrow> rat \<Rightarrow> int \<Rightarrow> bool \<Rightarrow> (unit, ptime) prog" where
  "adopt_time env target err now single =
     sbind (advance env now) (\<lambda>_ st.
       if (case tp_floor st of None \<Rightarrow> False | Some f \<Rightarrow> target + err < of_int f) then require_maintenance env st
       else case tp_utc st of
         Some u \<Rightarrow>
           (if \<bar>target - u\<bar> > 1000
            then sbind (invalidate env SUSPECT ''CLOCK_DISCONTINUITY'') (\<lambda>_ st.
              if \<not> tp_suspect_confirm st then (Inr (), st\<lparr>tp_suspect_confirm := True, tp_next_sync := now\<rparr>)
              else if target + err < u then require_maintenance env st
              else sbind (bump env) (\<lambda>_ st. adopt_target env target err now single (st\<lparr>tp_utc := None\<rparr>)) st) st
            else adopt_target env target err now single st)
       | None \<Rightarrow> adopt_target env target err now single st)"

definition aligned :: "int \<Rightarrow> candidate \<Rightarrow> rat" where
  "aligned now c = cd_target c + of_int (now - cd_received c)"

definition consistent :: "int \<Rightarrow> candidate list \<Rightarrow> bool" where
  "consistent now cs \<longleftrightarrow> Max (set (map (aligned now) cs)) - Min (set (map (aligned now) cs)) \<le> 500"

text \<open>\<^verbatim>\<open>min(..., key=lambda c: c[2])\<close>: the first candidate with the smallest path.\<close>

fun best :: "candidate list \<Rightarrow> candidate \<Rightarrow> candidate" where
  "best [] c = c"
| "best (d # ds) c = best ds (if cd_path d < cd_path c then d else c)"

definition backoff_delay :: "nat \<Rightarrow> rat" where
  "backoff_delay failures = [5000, 10000, 20000, 40000, 60000] ! (failures - 1)"

definition round_failed :: "time_env \<Rightarrow> int \<Rightarrow> string \<Rightarrow> ptime \<Rightarrow> ptime" where
  "round_failed env now reason st =
     (let failures = min (tp_failures st + 1) 5;
          st = st\<lparr>tp_reason := Some reason, tp_failures := failures,
                  tp_next_sync := now + min 60000 (py_round (backoff_delay failures * te_jitter env (tp_reads st) 1 (12 / 10))),
                  tp_round_start := None, tp_pending := None, tp_candidates := []\<rparr>
      in if tp_utc st = None \<and> tp_state st \<noteq> MAINTENANCE then st\<lparr>tp_state := UNSYNCED\<rparr> else st)"

definition finish_round :: "time_env \<Rightarrow> int \<Rightarrow> (unit, ptime) prog" where
  "finish_round env now st =
     (let cs = tp_candidates st; good = filter (\<lambda>c. cd_rtt c \<le> 500) cs; pool = (if length cs \<ge> 3 then cs else good)
      in if cs = [] then (Inr (), round_failed env now ''TIMEOUT'' st)
         else if consistent now cs \<and> (length cs \<ge> 3 \<or> good \<noteq> [])
         then let c = best (tl pool) (hd pool)
              in sbind (adopt_time env (aligned now c) (cd_error c + of_int (now - cd_received c) * tp_drift_ppm st / 1000000)
                          now (length cs < 3))
                   (\<lambda>_. supd (\<lambda>st. st\<lparr>tp_round_start := None, tp_pending := None, tp_candidates := [], tp_failures := 0\<rparr>)) st
         else (Inr (), round_failed env now ''INCONSISTENT_SAMPLES'' st))"

definition issue_request :: "time_env \<Rightarrow> int \<Rightarrow> (time_request option, ptime) prog" where
  "issue_request env now st =
     (let q = \<lparr>tq_gateway = tp_gateway st, tq_request_id = ''time-'' @ te_uuid env (tp_reads st), tq_boot_id = tp_boot_id st,
               tq_session_id = tp_session st, tq_client_mono_ms = now\<rparr>
      in (Inr (Some q), st\<lparr>tp_pending := Some q, tp_attempts := tp_attempts st + 1\<rparr>))"

definition start_round :: "int \<Rightarrow> ptime \<Rightarrow> ptime" where
  "start_round now st =
     (case tp_round_start st of Some _ \<Rightarrow> st
      | None \<Rightarrow> (let st = st\<lparr>tp_round_start := Some now, tp_attempts := 0, tp_candidates := []\<rparr>
                in if tp_utc st = None then st\<lparr>tp_state := SYNCING\<rparr> else st))"

definition round_over :: "int \<Rightarrow> ptime \<Rightarrow> bool" where
  "round_over now st = (case tp_round_start st of None \<Rightarrow> False
     | Some r \<Rightarrow> now \<ge> r + 30000 \<or> tp_attempts st \<ge> 10 \<and> tp_pending st = None)"

definition request_tail :: "time_env \<Rightarrow> int \<Rightarrow> (time_request option, ptime) prog" where
  "request_tail env now st =
     (if now < tp_next_sync st then (Inr None, st)
      else let st = start_round now st
           in if (case tp_round_start st of None \<Rightarrow> False | Some r \<Rightarrow> now \<ge> r + 30000) \<or> tp_attempts st \<ge> 10
              then sbind (finish_round env now) (\<lambda>_. sret None) st
              else issue_request env now st)"

definition request_pending :: "time_env \<Rightarrow> int \<Rightarrow> (time_request option, ptime) prog" where
  "request_pending env now st =
     (case tp_pending st of
        None \<Rightarrow> request_tail env now st
      | Some q \<Rightarrow>
         (if now < tq_client_mono_ms q + 2000 then (Inr None, st)
          else sbind (if tp_attempts st \<ge> 10 then finish_round env now else sret ()) (\<lambda>_. request_tail env now)
                 (st\<lparr>tp_pending := None\<rparr>)))"

definition request_round :: "time_env \<Rightarrow> int \<Rightarrow> (time_request option, ptime) prog" where
  "request_round env now st =
     sbind (if round_over now st then finish_round env now else sret ()) (\<lambda>_. request_pending env now) st"

definition request :: "time_env \<Rightarrow> (time_request option, ptime) prog" where
  "request env =
     sbind (snapshot env) (\<lambda>s st.
       if \<not> tp_platform st \<or> tp_session st = None \<or> tp_state st = MAINTENANCE then (Inr None, st)
       else request_round env (ts_mono_ms s) st)"

definition candidate_of :: "time_request \<Rightarrow> time_response \<Rightarrow> int \<Rightarrow> int \<Rightarrow> rat \<Rightarrow> candidate" where
  "candidate_of q m received now drift_ppm =
     (let rtt = received - tq_client_mono_ms q; path = rtt - (tr_sent_at m - tr_received_at m)
      in \<lparr>cd_target = of_int (tr_sent_at m) + of_int (max 0 path) / 2, cd_received = received, cd_path = max 0 path, cd_rtt = rtt,
          cd_error = of_int (max 0 path) / 2 + of_int (max 0 (- path)) + 22 + of_int (now - received) * drift_ppm / 1000000\<rparr>)"

definition timely :: "time_request \<Rightarrow> time_response \<Rightarrow> int \<Rightarrow> int \<Rightarrow> bool" where
  "timely q m received now \<longleftrightarrow>
     (let rtt = received - tq_client_mono_ms q; processing = tr_sent_at m - tr_received_at m
      in 0 \<le> rtt \<and> rtt < 2000 \<and> 0 \<le> processing \<and> processing \<le> 500 \<and> rtt - processing \<ge> -50 \<and> received \<le> now)"

text \<open>\<open>response\<close>; \<open>m\<close> is None when the payload does not pass \<open>validate_message\<close>.\<close>

definition response :: "time_env \<Rightarrow> time_response option \<Rightarrow> int \<Rightarrow> string option \<Rightarrow> bool \<Rightarrow> (bool, ptime) prog" where
  "response env m received session retained st =
     (let (now, st) = read_mono env st
      in case tp_pending st of
           None \<Rightarrow> (Inr False, st\<lparr>tp_reason := Some (if retained \<or> session \<noteq> tp_session st then ''SOURCE_MISMATCH'' else ''STALE_REQUEST'')\<rparr>)
         | Some q \<Rightarrow>
            (if retained \<or> session \<noteq> tp_session st then (Inr False, st\<lparr>tp_reason := Some ''SOURCE_MISMATCH''\<rparr>)
             else case tp_round_start st of None \<Rightarrow> (Inl TypeError, st)
              | Some r \<Rightarrow>
                 (if now \<ge> r + 30000 \<or> now \<ge> tq_client_mono_ms q + 2000
                  then (Inr False, st\<lparr>tp_pending := None, tp_reason := Some ''STALE_REQUEST''\<rparr>)
                  else case m of None \<Rightarrow> (Inr False, st\<lparr>tp_reason := Some ''INVALID_RESPONSE''\<rparr>)
                   | Some m \<Rightarrow>
                      (if tr_request m \<noteq> q then (Inr False, st\<lparr>tp_reason := Some ''STALE_REQUEST''\<rparr>)
                       else if \<not> timely q m received now
                       then (Inr False, st\<lparr>tp_reason := Some ''HIGH_DELAY'', tp_pending := None\<rparr>)
                       else let c = candidate_of q m received now (tp_drift_ppm st)
                            in if \<not> (0 \<le> cd_target c - cd_error c \<and> cd_target c + cd_error c \<le> of_nat MAX_SAFE)
                               then (Inr False, st\<lparr>tp_reason := Some ''INVALID_RESPONSE'', tp_pending := None\<rparr>)
                               else sbind (supd (\<lambda>st. st\<lparr>tp_candidates := tp_candidates st @ [c], tp_pending := None\<rparr>)) (\<lambda>_ st.
                                    sbind (if length (tp_candidates st) \<ge> 3 then finish_round env now else sret ())
                                      (\<lambda>_. sret True) st) st))))"

text \<open>\<open>diagnostics\<close>: a snapshot with the reason, the session and control gates, the attempts of the
  round and whether a request is outstanding.\<close>

definition diagnostics :: "time_env \<Rightarrow> (TimeSnapshot \<times> string option \<times> bool \<times> bool \<times> nat \<times> bool \<times> string option, ptime) prog" where
  "diagnostics env = sbind (snapshot env) (\<lambda>s st. (Inr (s, tp_reason st, tp_session_synced st,
     tp_heartbeat_submitted st \<and> tp_get_submitted st, tp_attempts st, tp_pending st \<noteq> None, tp_drift_evidence st), st))"

end
