(* ===== verification/PlatformTimeInv.thy ===== *)
theory PlatformTimeInv
  imports PlatformTime
begin

text \<open>
  What holds of every state the logical clock reaches. \<open>pt_step\<close> has one rule per public method
  of \<^verbatim>\<open>PlatformTime\<close>. The locale \<open>time_rule\<close> states what a predicate on states (and on the
  reading \<open>now\<close> in hand) has to satisfy under the assignments the methods are made of, and derives
  once that every method keeps it; it is interpreted for the two revision counters, for the
  well-formedness of the state and for the soundness of the clock against a true UTC.
\<close>

section \<open>The transition system\<close>

inductive pt_step :: "time_env \<Rightarrow> (time_request \<Rightarrow> time_response \<Rightarrow> int \<Rightarrow> bool) \<Rightarrow> ptime \<Rightarrow> ptime \<Rightarrow> bool"
  for env honest where
  st_connect: "pt_step env honest st (snd (connect session st))"
| st_disconnect: "pt_step env honest st (snd (disconnect st))"
| st_maintenance: "pt_step env honest st (snd (require_maintenance env st))"
| st_history: "pt_step env honest st (snd (load_history_boundary env basis utc_lower st))"
| st_snapshot: "pt_step env honest st (snd (snapshot env st))"
| st_token: "pt_step env honest st (snd (token env st))"
| st_valid: "pt_step env honest st (snd (valid_for env tok p st))"
| st_require: "pt_step env honest st (snd (require_time env tok p st))"
| st_control: "pt_step env honest st (snd (control_submitted env kind tok st))"
| st_capture: "pt_step env honest st (snd (read_capture env completed st))"
| st_diagnostics: "pt_step env honest st (snd (diagnostics env st))"
| st_request: "pt_step env honest st (snd (request env st))"
| st_response: "(\<And>q x. tp_pending st = Some q \<Longrightarrow> m = Some x \<Longrightarrow> honest q x received)
    \<Longrightarrow> pt_step env honest st (snd (response env m received session retained st))"

definition pt_init :: "time_env \<Rightarrow> ptime \<Rightarrow> bool" where
  "pt_init env st \<longleftrightarrow> (\<exists>gw boot_id mode basis ppm evidence. ptime_new env gw boot_id mode basis ppm evidence = Inr st)"

section \<open>One rule per assignment\<close>

locale time_rule =
  fixes env :: time_env
    and Q :: "int \<Rightarrow> ptime \<Rightarrow> bool"
    and G :: "int \<Rightarrow> rat \<Rightarrow> rat \<Rightarrow> bool"
    and H :: "time_request \<Rightarrow> time_response \<Rightarrow> int \<Rightarrow> bool"
  assumes read_rule: "Q now st \<Longrightarrow> Q (te_mono env (tp_reads st)) (st\<lparr>tp_reads := tp_reads st + 1\<rparr>)"
    and bump_rule: "Q now st \<Longrightarrow> Q now (st\<lparr>tp_revision := tp_revision st + 1, tp_generation := tp_generation st + 1,
          tp_reads := tp_reads st + 1, tp_generation_started := te_mono env (tp_reads st)\<rparr>)"
    and close_rule: "Q now st \<Longrightarrow> state \<notin> {SYNCED, HOLDOVER} \<Longrightarrow> Q now (close_gates state reason st)"
    and lost_rule: "Q now st \<Longrightarrow> tp_state st \<notin> {SYNCED, HOLDOVER} \<Longrightarrow> Q now (st\<lparr>tp_utc := None\<rparr>)"
    and extrapolate_rule: "Q now st \<Longrightarrow> Q now (extrapolate now (st\<lparr>tp_last_observed_mono := now\<rparr>))"
    and state_rule: "Q now st \<Longrightarrow> tp_utc st \<noteq> None \<Longrightarrow> Q now (st\<lparr>tp_state := x\<rparr>)"
    and connect_rule: "Q now st \<Longrightarrow> Q now (connect_core session st)"
    and disconnect_rule: "Q now st \<Longrightarrow> Q now (st\<lparr>tp_session := None, tp_session_synced := False,
          tp_heartbeat_submitted := False, tp_get_submitted := False\<rparr>)"
    and floor_rule: "Q now st \<Longrightarrow> Q now (st\<lparr>tp_floor := f\<rparr>)"
    and heartbeat_rule: "Q now st \<Longrightarrow> Q now (st\<lparr>tp_heartbeat_submitted := True\<rparr>)"
    and get_rule: "Q now st \<Longrightarrow> tp_heartbeat_submitted st \<Longrightarrow> Q now (st\<lparr>tp_get_submitted := True\<rparr>)"
    and confirm_rule: "Q now st \<Longrightarrow> Q now (st\<lparr>tp_suspect_confirm := True, tp_next_sync := n\<rparr>)"
    and set_rule: "Q now st \<Longrightarrow> tp_last_mono st = now \<Longrightarrow> G now target err
          \<Longrightarrow> Q now (adopt_settle env err now single (st\<lparr>tp_utc := Some target, tp_residual := 0\<rparr>))"
    and slew_rule: "Q now st \<Longrightarrow> tp_last_mono st = now \<Longrightarrow> G now target err \<Longrightarrow> tp_utc st = Some u
          \<Longrightarrow> Q now (adopt_settle env err now single (st\<lparr>tp_residual := target - u\<rparr>))"
    and candidate_rule: "Q now st \<Longrightarrow> c \<in> set (tp_candidates st)
          \<Longrightarrow> G now (aligned now c) (cd_error c + of_int (now - cd_received c) * tp_drift_ppm st / 1000000)"
    and failed_rule: "Q now st \<Longrightarrow> Q now (round_failed env now reason st)"
    and done_rule: "Q now st \<Longrightarrow> Q now (st\<lparr>tp_round_start := None, tp_pending := None, tp_candidates := [], tp_failures := 0\<rparr>)"
    and start_rule: "Q now st \<Longrightarrow> Q now (start_round now st)"
    and issue_rule: "Q now st \<Longrightarrow> tp_round_start st \<noteq> None \<Longrightarrow> tp_attempts st < 10 \<Longrightarrow> Q now (snd (issue_request env now st))"
    and pending_rule: "Q now st \<Longrightarrow> Q now (st\<lparr>tp_pending := None\<rparr>)"
    and reason_rule: "Q now st \<Longrightarrow> Q now (st\<lparr>tp_reason := r\<rparr>)"
    and answer_rule: "Q now st \<Longrightarrow> tp_pending st = Some q \<Longrightarrow> timely q m received now \<Longrightarrow> H q m received
          \<Longrightarrow> Q now (st\<lparr>tp_candidates := tp_candidates st @ [candidate_of q m received now (tp_drift_ppm st)], tp_pending := None\<rparr>)"

section \<open>Frame facts\<close>

lemma last_mono_frame [simp]:
  "tp_last_mono (close_gates s r st) = tp_last_mono st"
  "tp_last_mono (snd (bump env st)) = tp_last_mono st"
  "tp_utc (snd (bump env st)) = tp_utc st"
  "tp_state (snd (bump env st)) = tp_state st"
  "tp_candidates (snd (bump env st)) = tp_candidates st"
  by (simp_all add: close_gates_def bump_def Let_def read_mono_def)

lemma last_mono_invalidate [simp]: "tp_last_mono (snd (invalidate env s r st)) = tp_last_mono st"
  by (simp add: invalidate_def sbind_def split: prod.splits sum.splits)
     (metis last_mono_frame(2) snd_conv)

lemma invalidate_state: "invalidate env s r st = (Inr x, t) \<Longrightarrow> tp_state t = s"
  by (auto simp: invalidate_def res_simps close_gates_def)

lemma extrapolate_last [simp]: "tp_last_mono (extrapolate now st) = now"
  by (simp add: extrapolate_def Let_def split: option.splits)

lemma advance_last: "advance env now st = (Inr x, t) \<Longrightarrow> tp_last_mono t = now"
  by (auto simp: advance_def res_simps)

lemma best_mem: "best cs c \<in> insert c (set cs)"
  by (induction cs arbitrary: c) (simp_all, metis insertE insertI1 insertI2)

lemma snapshot_InrE:
  assumes "snapshot env st = (Inr s, t)"
  obtains x where "advance env (te_mono env (tp_reads st)) (st\<lparr>tp_reads := tp_reads st + 1\<rparr>) = (Inr (), x)"
    "settle_snapshot env (snapshot_valid (te_mono env (tp_reads st)) x) x = (Inr (), t)"
    "s = snapshot_of env (te_mono env (tp_reads st)) (sync_age (te_mono env (tp_reads st)) x)
           (sync_error (te_mono env (tp_reads st)) x) (snapshot_valid (te_mono env (tp_reads st)) x) t"
  using assms that by (auto simp: snapshot_def read_mono_def Let_def res_simps)

section \<open>Every method keeps the predicate\<close>

context time_rule
begin

lemma bump_keeps: "keeps (Q now) (bump env)"
  by (rule keepsI) (simp add: bump_def read_mono_def Let_def bump_rule [simplified])

lemma invalidate_keeps: "s \<notin> {SYNCED, HOLDOVER} \<Longrightarrow> keeps (Q now) (invalidate env s r)"
  unfolding invalidate_def by (rule keeps_at, intro keeps_sbind keeps_if bump_keeps keeps_sret keeps_supd close_rule) auto

lemma maintenance_keeps: "keeps (Q now) (require_maintenance env)"
  unfolding require_maintenance_def by (rule invalidate_keeps) simp

lemma advance_keeps: "keeps (Q now) (advance env now)"
proof (rule keepsI)
  fix st assume q: "Q now st"
  obtain x t where i: "invalidate env MAINTENANCE ''CLOCK_CONTINUITY_REQUIRES_MAINTENANCE'' st = (x, t)" by fastforce
  then have "Q now t" using keeps_result [OF invalidate_keeps i q] by simp
  moreover have "x = Inr u \<Longrightarrow> Q now (t\<lparr>tp_utc := None\<rparr>)" for u
    using lost_rule [OF \<open>Q now t\<close>] invalidate_state [of env MAINTENANCE _ st u t] i by simp
  ultimately show "Q now (snd (advance env now st))"
    using q i by (auto simp: advance_def sbind_def extrapolate_rule split: sum.splits)
qed

lemma advanced: "advance env now st = (Inr x, t) \<Longrightarrow> Q now st \<Longrightarrow> Q now t \<and> tp_last_mono t = now"
  using keeps_result [OF advance_keeps] advance_last by blast

lemma settle_snapshot_keeps: "(valid \<Longrightarrow> tp_utc st \<noteq> None) \<Longrightarrow> Q now st \<Longrightarrow> Q now (snd (settle_snapshot env valid st))"
  by (auto simp: settle_snapshot_def intro: state_rule keepsD [OF invalidate_keeps])

lemma snapshot_rule:
  assumes "snapshot env st = (r, t)" "Q now0 st"
  shows "\<exists>now. Q now t \<and> (\<forall>s. r = Inr s \<longrightarrow> ts_mono_ms s = now)"
proof -
  let ?now = "te_mono env (tp_reads st)"
  obtain y x where a: "advance env ?now (st\<lparr>tp_reads := tp_reads st + 1\<rparr>) = (y, x)" by fastforce
  then have x: "Q ?now x" using keeps_result [OF advance_keeps a read_rule [OF assms(2)]] by simp
  have u: "snapshot_valid ?now x \<Longrightarrow> tp_utc x \<noteq> None" by (auto simp: snapshot_valid_def split: option.splits)
  have "Q ?now t"
    using assms(1) a x settle_snapshot_keeps [of "snapshot_valid ?now x", OF u x]
    by (auto simp: snapshot_def read_mono_def Let_def sbind_def split: prod.splits sum.splits)
  moreover have "r = Inr s \<longrightarrow> ts_mono_ms s = ?now" for s
    using assms(1) by (auto elim: snapshot_InrE simp: snapshot_of_def)
  ultimately show ?thesis by blast
qed

lemma snapshot_keeps: "keeps (\<lambda>st. \<exists>now. Q now st) (snapshot env)"
  by (rule keepsI) (metis snapshot_rule prod.collapse)

lemma set_target_keeps: 
  assumes "Q now st" "tp_last_mono st = now" "G now target err"
  shows "Q now (snd (sbind (sbind (bump env) (\<lambda>_. supd (\<lambda>st. st\<lparr>tp_utc := Some target, tp_residual := 0\<rparr>)))
    (\<lambda>_. supd (adopt_settle env err now single)) st))"
proof -
  obtain x t where b: "bump env st = (x, t)" by fastforce
  then have "Q now t" "tp_last_mono t = now"
    using keeps_result [OF bump_keeps b] assms last_mono_frame(2) [of env st] by auto
  with b assms(3) show ?thesis by (cases x) (auto simp: sbind_def set_rule)
qed

lemma adopt_target_keeps: 
  assumes "Q now st" "tp_last_mono st = now" "G now target err"
  shows "Q now (snd (adopt_target env target err now single st))"
proof (cases "tp_utc st")
  case None
  then show ?thesis using set_target_keeps [OF assms] by (simp add: adopt_target_def sbind_def)
next
  case (Some u)
  show ?thesis
  proof (cases "tp_state st \<in> {EXPIRED, UNSYNCED, SYNCING}")
    case True
    then show ?thesis using Some set_target_keeps [OF assms] by (simp add: adopt_target_def sbind_def)
  next
    case False
    then show ?thesis using Some slew_rule [OF assms] by (simp add: adopt_target_def sbind_def)
  qed
qed

lemma retarget_keeps: 
  assumes "Q now st" "tp_last_mono st = now" "G now target err" "tp_state st \<notin> {SYNCED, HOLDOVER}"
  shows "Q now (snd (sbind (bump env) (\<lambda>_ st. adopt_target env target err now single (st\<lparr>tp_utc := None\<rparr>)) st))"
proof -
  obtain x t where b: "bump env st = (x, t)" by fastforce
  then have "Q now t" "tp_last_mono t = now" "tp_state t \<notin> {SYNCED, HOLDOVER}"
    using keeps_result [OF bump_keeps b] assms last_mono_frame(2,4) [of env st] by auto
  with b assms(3) show ?thesis by (cases x) (auto simp: sbind_def intro: adopt_target_keeps lost_rule)
qed

lemma suspect_keeps: 
  assumes "Q now st" "tp_last_mono st = now" "G now target err"
  shows "Q now (snd (sbind (invalidate env SUSPECT r) (\<lambda>_ st.
              if \<not> tp_suspect_confirm st then (Inr (), st\<lparr>tp_suspect_confirm := True, tp_next_sync := n\<rparr>)
              else if target + err < u then require_maintenance env st
              else sbind (bump env) (\<lambda>_ st. adopt_target env target err now single (st\<lparr>tp_utc := None\<rparr>)) st) st))"
proof -
  obtain x t where i: "invalidate env SUSPECT r st = (x, t)" by fastforce
  have t: "Q now t" "tp_last_mono t = now" "x = Inr w \<Longrightarrow> tp_state t \<notin> {SYNCED, HOLDOVER}" for w
    using keeps_result [OF invalidate_keeps i assms(1)] assms(2) last_mono_invalidate [of env SUSPECT r st]
      invalidate_state [of env SUSPECT r st w t] i by auto
  show ?thesis
  proof (cases x)
    case (Inl e)
    with i t show ?thesis by (simp add: sbind_def)
  next
    case (Inr w)
    have "Q now (snd (sbind (bump env) (\<lambda>_ st. adopt_target env target err now single (st\<lparr>tp_utc := None\<rparr>)) t))"
      by (rule retarget_keeps [OF t(1,2) assms(3) t(3) [OF Inr]])
    with i Inr t show ?thesis by (auto simp: confirm_rule intro: keepsD [OF maintenance_keeps])
  qed
qed

lemma adopt_keeps: 
  assumes "Q now st" "G now target err"
  shows "Q now (snd (adopt_time env target err now single st))"
proof -
  obtain x t where a: "advance env now st = (x, t)" by fastforce
  then have t: "Q now t" "x = Inr w \<Longrightarrow> tp_last_mono t = now" for w
    using keeps_result [OF advance_keeps a assms(1)] advanced assms(1) by auto
  show ?thesis
  proof (cases x)
    case (Inl e)
    with a t show ?thesis by (simp add: adopt_time_def)
  next
    case (Inr w)
    note tt = t(1) t(2) [OF Inr] assms(2)
    show ?thesis
      using a Inr tt by (auto simp: adopt_time_def keepsD [OF maintenance_keeps] adopt_target_keeps suspect_keeps split: option.splits)
  qed
qed

lemma finish_keeps: "keeps (Q now) (finish_round env now)"
proof (rule keepsI)
  fix st assume q: "Q now st"
  have g: "G now (aligned now (best (tl cs) (hd cs))) (cd_error (best (tl cs) (hd cs)) + of_int (now - cd_received (best (tl cs) (hd cs))) * tp_drift_ppm st / 1000000)"
    if "cs \<noteq> []" "set cs \<subseteq> set (tp_candidates st)" for cs
    using candidate_rule [OF q] best_mem [of "tl cs" "hd cs"] that by (metis list.exhaust_sel list.set_intros set_ConsD subset_code(1) insertE list.set_intros(1,2))
  have a: "Q now (snd (sbind (adopt_time env (aligned now c) e now b) (\<lambda>_. supd (\<lambda>st. st\<lparr>tp_round_start := None, tp_pending := None, tp_candidates := [], tp_failures := 0\<rparr>)) st))"
    if "G now (aligned now c) e" for c e b
    using adopt_keeps [OF q that, of b] by (auto simp: sbind_def done_rule split: prod.splits sum.splits)
  show "Q now (snd (finish_round env now st))"
    using q by (auto simp: finish_round_def Let_def failed_rule simp del: of_int_diff intro!: a g)
qed

lemma request_tail_keeps: "keeps (Q now) (request_tail env now)"
proof (rule keepsI)
  fix st assume q: "Q now st"
  then have s: "Q now (start_round now st)" by (rule start_rule)
  have "tp_round_start (start_round now st) \<noteq> None" by (simp add: start_round_def Let_def split: option.splits)
  then have "tp_attempts (start_round now st) < 10 \<Longrightarrow> Q now (snd (issue_request env now (start_round now st)))"
    using issue_rule s by blast
  moreover have "Q now (snd (sbind (finish_round env now) (\<lambda>_. sret None) (start_round now st)))"
    using s by (intro keepsD [OF keeps_sbind [OF finish_keeps]]) auto
  ultimately show "Q now (snd (request_tail env now st))"
    using q by (auto simp: request_tail_def Let_def)
qed

lemma request_pending_keeps: "keeps (Q now) (request_pending env now)"
  by (rule keepsI) (auto simp: request_pending_def split: option.split
      intro!: keepsD [OF request_tail_keeps] keepsD [OF keeps_sbind [OF finish_keeps request_tail_keeps]] pending_rule)

lemma request_round_keeps: "keeps (Q now) (request_round env now)"
  unfolding request_round_def
  by (rule keeps_at, intro keeps_sbind keeps_if finish_keeps keeps_sret request_pending_keeps)

lemma request_keeps: "keeps (\<lambda>st. \<exists>now. Q now st) (request env)"
proof (rule keepsI)
  fix st assume "\<exists>now. Q now st"
  then obtain now0 where q: "Q now0 st" ..
  obtain r t where sn: "snapshot env st = (r, t)" by fastforce
  obtain now where t: "Q now t" "\<And>s. r = Inr s \<Longrightarrow> ts_mono_ms s = now" using snapshot_rule [OF sn q] by blast
  show "\<exists>now. Q now (snd (request env st))"
    using sn t keepsD [OF request_round_keeps t(1)] by (cases r) (auto simp: request_def)
qed

lemma response_keeps: 
  assumes "Q now0 st" and "\<And>q x. tp_pending st = Some q \<Longrightarrow> m = Some x \<Longrightarrow> H q x received"
  shows "\<exists>now. Q now (snd (response env m received session retained st))"
proof -
  let ?now = "te_mono env (tp_reads st)" and ?st = "st\<lparr>tp_reads := tp_reads st + 1\<rparr>"
  have r: "Q ?now ?st" using read_rule [OF assms(1)] by simp
  have a: "Q ?now (snd (sbind (supd (\<lambda>st. st\<lparr>tp_candidates := tp_candidates st @ [candidate_of q x received ?now (tp_drift_ppm ?st)], tp_pending := None\<rparr>)) (\<lambda>_ st.
             sbind (if length (tp_candidates st) \<ge> 3 then finish_round env ?now else sret ()) (\<lambda>_. sret True) st) ?st))"
    if "tp_pending st = Some q" "m = Some x" "timely q x received ?now" for q x
  proof -
    have "Q ?now (?st\<lparr>tp_candidates := tp_candidates ?st @ [candidate_of q x received ?now (tp_drift_ppm ?st)], tp_pending := None\<rparr>)"
      using answer_rule [OF r] that assms(2) by simp
    then show ?thesis by (auto simp: sbind_def split: prod.splits sum.splits dest: keeps_result [OF finish_keeps])
  qed
  have pr: "Q ?now (?st\<lparr>tp_pending := None, tp_reason := w\<rparr>)" for w
    using reason_rule [OF pending_rule [OF r]] by simp
  have rp: "Q ?now (?st\<lparr>tp_reason := w, tp_pending := None\<rparr>)" for w
    using pending_rule [OF reason_rule [OF r]] by simp
  have "Q ?now (snd (response env m received session retained st))"
    using r reason_rule [OF r] pr rp a
    by (simp add: response_def read_mono_def Let_def split: option.split del: sprog_simps)
  then show ?thesis ..
qed

lemma history_keeps: "keeps (Q now) (load_history_boundary env basis utc_lower)"
  by (rule keepsI) (auto simp: load_history_boundary_def Let_def floor_rule split: option.splits
      intro!: keepsD [OF maintenance_keeps] floor_rule)

lemma connect_keeps: "keeps (Q now) (connect session)"
  by (rule keepsI) (simp add: connect_def connect_rule)

lemma disconnect_keeps: "keeps (Q now) disconnect"
  unfolding disconnect_def by (intro keeps_sbind keeps_supd connect_keeps disconnect_rule)

lemma valid_keeps: "keeps (\<lambda>st. \<exists>now. Q now st) (valid_for env tok p)"
  unfolding valid_for_def by (intro keeps_sbind snapshot_keeps keepsI) simp

lemma require_keeps: "keeps (\<lambda>st. \<exists>now. Q now st) (require_time env tok p)"
  unfolding require_time_def 
  by (rule keepsI) (auto intro!: keepsD [OF keeps_sbind [OF valid_keeps]] keeps_if snapshot_keeps)

lemma control_keeps: "keeps (\<lambda>st. \<exists>now. Q now st) (control_submitted env kind tok)"
  unfolding control_submitted_def
  by (intro keeps_sbind require_keeps keeps_supd) (auto intro: heartbeat_rule get_rule)

lemma capture_keeps: "keeps (\<lambda>st. \<exists>now. Q now st) (read_capture env completed)"
  unfolding read_capture_def by (intro keeps_sbind snapshot_keeps keepsI) (simp add: Let_def)

lemma token_keeps: "keeps (\<lambda>st. \<exists>now. Q now st) (token env)"
  unfolding token_def by (intro keeps_sbind snapshot_keeps keeps_sret)

lemma diagnostics_keeps: "keeps (\<lambda>st. \<exists>now. Q now st) (diagnostics env)"
  unfolding diagnostics_def by (intro keeps_sbind snapshot_keeps keepsI) simp

lemma step_rule: "pt_step env H st t \<Longrightarrow> \<exists>now. Q now st \<Longrightarrow> \<exists>now. Q now t"
proof (induction rule: pt_step.induct)
  case (st_response st m received session retained)
  then show ?case using response_keeps by blast
qed (auto dest: keepsD [OF connect_keeps] keepsD [OF disconnect_keeps] keepsD [OF maintenance_keeps] keepsD [OF history_keeps]
  intro: keepsD [OF snapshot_keeps] keepsD [OF token_keeps] keepsD [OF valid_keeps] keepsD [OF require_keeps]
    keepsD [OF control_keeps] keepsD [OF capture_keeps] keepsD [OF request_keeps] keepsD [OF diagnostics_keeps])

end

section \<open>Revisions only grow\<close>

lemmas assignment_defs = close_gates_def extrapolate_def connect_core_def adopt_settle_def round_failed_def
  start_round_def issue_request_def Let_def

abbreviation any_reply :: "time_request \<Rightarrow> time_response \<Rightarrow> int \<Rightarrow> bool" where
  "any_reply \<equiv> \<lambda>_ _ _. True"

interpretation revision_floor: time_rule env "\<lambda>_ st. r \<le> tp_revision st" "\<lambda>_ _ _. True" any_reply for env r
  by unfold_locales (auto simp: assignment_defs split: option.split)

interpretation connection_floor: time_rule env "\<lambda>_ st. r \<le> tp_connection_revision st" "\<lambda>_ _ _. True" any_reply for env r
  by unfold_locales (auto simp: assignment_defs split: option.split)

section \<open>Well-formed states\<close>

definition pt_ok :: "ptime \<Rightarrow> bool" where
  "pt_ok st \<longleftrightarrow> tp_revision st = tp_generation st
     \<and> (tp_get_submitted st \<longrightarrow> tp_heartbeat_submitted st)
     \<and> (tp_session_synced st \<longrightarrow> tp_session st \<noteq> None)
     \<and> (tp_pending st \<noteq> None \<longrightarrow> tp_round_start st \<noteq> None)
     \<and> (tp_state st \<in> {SYNCED, HOLDOVER} \<longrightarrow> tp_utc st \<noteq> None)
     \<and> (tp_utc st \<noteq> None \<longrightarrow> tp_sync_mono st \<noteq> None)
     \<and> tp_attempts st \<le> 10 \<and> tp_failures st \<le> 5"

interpretation well_formed: time_rule env "\<lambda>_ st. pt_ok st" "\<lambda>_ _ _. True" any_reply for env
  by unfold_locales (auto simp: pt_ok_def assignment_defs split: option.split)

lemma pt_init_ok: "pt_init env st \<Longrightarrow> pt_ok st"
  by (auto simp: pt_init_def ptime_new_def pt_ok_def split: if_splits)

interpretation clock: monotone_system "pt_init env" "pt_step env any_reply" pt_ok tp_revision for env
proof
  fix s t assume "pt_step env any_reply s t"
  then show "pt_ok s \<Longrightarrow> pt_ok t" and "tp_revision s \<le> tp_revision t"
    using well_formed.step_rule revision_floor.step_rule by blast+
qed (rule pt_init_ok)

interpretation connections: monotone_system "pt_init env" "pt_step env any_reply" pt_ok tp_connection_revision for env
proof
  fix s t assume "pt_step env any_reply s t"
  then show "tp_connection_revision s \<le> tp_connection_revision t"
    using connection_floor.step_rule by blast
qed

section \<open>Soundness against a true UTC\<close>

text \<open>\<open>U\<close> gives the true UTC, in milliseconds, at every reading of the monotonic clock. The clock
  drifts by at most \<open>ppm\<close> from it. A reply is honest when the true time of receipt is the time it
  was sent plus part of the path delay, up to the allowance for quantisation and for the tolerated
  negative path.\<close>

definition tracks :: "(int \<Rightarrow> rat) \<Rightarrow> rat \<Rightarrow> bool" where
  "tracks U ppm \<longleftrightarrow> (\<forall>a b. a \<le> b \<longrightarrow> \<bar>U b - U a - of_int (b - a)\<bar> \<le> of_int (b - a) * ppm / 1000000)"

definition honest_reply :: "(int \<Rightarrow> rat) \<Rightarrow> time_request \<Rightarrow> time_response \<Rightarrow> int \<Rightarrow> bool" where
  "honest_reply U q m received \<longleftrightarrow>
     (let path = received - tq_client_mono_ms q - (tr_sent_at m - tr_received_at m)
      in of_int (tr_sent_at m) - 22 - of_int (max 0 (- path)) \<le> U received
         \<and> U received \<le> of_int (tr_sent_at m) + of_int (max 0 path) + 22 + of_int (max 0 (- path)))"

definition near :: "(int \<Rightarrow> rat) \<Rightarrow> int \<Rightarrow> rat \<Rightarrow> rat \<Rightarrow> bool" where
  "near U at_ms t err \<longleftrightarrow> \<bar>U at_ms - t\<bar> \<le> err"

lemma near_drift:
  assumes "tracks U ppm" "a \<le> b" "near U a t err"
  shows "near U b (t + of_int (b - a)) (err + of_int (b - a) * ppm / 1000000)"
proof -
  have "\<bar>U b - U a - of_int (b - a)\<bar> \<le> of_int (b - a) * ppm / 1000000"
    using assms(1,2) by (simp add: tracks_def)
  then show ?thesis using assms(3) unfolding near_def by linarith
qed

definition utc_sound :: "(int \<Rightarrow> rat) \<Rightarrow> ptime \<Rightarrow> bool" where
  "utc_sound U st \<longleftrightarrow> (\<forall>u. tp_utc st = Some u \<longrightarrow> (\<exists>m. tp_sync_mono st = Some m \<and> m \<le> tp_last_mono st
     \<and> near U (tp_last_mono st) (u + tp_residual st)
         (tp_uncertainty st + of_int (tp_last_mono st - m) * tp_drift_ppm st / 1000000)))"

definition candidates_sound :: "(int \<Rightarrow> rat) \<Rightarrow> int \<Rightarrow> ptime \<Rightarrow> bool" where
  "candidates_sound U now st \<longleftrightarrow> (\<forall>c \<in> set (tp_candidates st). cd_received c \<le> now \<and> near U (cd_received c) (cd_target c) (cd_error c))"

definition sound_at :: "time_env \<Rightarrow> (int \<Rightarrow> rat) \<Rightarrow> rat \<Rightarrow> int \<Rightarrow> ptime \<Rightarrow> bool" where
  "sound_at env U ppm now st \<longleftrightarrow> tp_drift_ppm st = ppm \<and> tp_last_mono st \<le> now \<and> now \<le> te_mono env (tp_reads st)
     \<and> utc_sound U st \<and> candidates_sound U now st"

lemma sound_cong:
  "tp_drift_ppm st' = tp_drift_ppm st \<Longrightarrow> tp_last_mono st' = tp_last_mono st \<Longrightarrow> tp_utc st' = tp_utc st \<Longrightarrow> tp_reads st' = tp_reads st
   \<Longrightarrow> tp_sync_mono st' = tp_sync_mono st \<Longrightarrow> tp_uncertainty st' = tp_uncertainty st \<Longrightarrow> tp_residual st' = tp_residual st
   \<Longrightarrow> tp_candidates st' = tp_candidates st \<or> tp_candidates st' = [] \<Longrightarrow> sound_at env U ppm now st \<Longrightarrow> sound_at env U ppm now st'"
  by (auto simp: sound_at_def utc_sound_def candidates_sound_def)

lemma extrapolate_sound:
  assumes "tracks U ppm" "sound_at env U ppm now st"
  shows "utc_sound U (extrapolate now st)"
proof (cases "tp_utc st")
  case None
  then show ?thesis by (simp add: utc_sound_def extrapolate_def)
next
  case (Some u)
  with assms(2) obtain m where m: "tp_sync_mono st = Some m" "m \<le> tp_last_mono st" "tp_last_mono st \<le> now" "tp_drift_ppm st = ppm"
    "near U (tp_last_mono st) (u + tp_residual st) (tp_uncertainty st + of_int (tp_last_mono st - m) * ppm / 1000000)"
    by (auto simp: sound_at_def utc_sound_def)
  define c where "c = slew (now - tp_last_mono st) (tp_residual st)"
  have "tp_uncertainty st + of_int (tp_last_mono st - m) * ppm / 1000000 + of_int (now - tp_last_mono st) * ppm / 1000000
      = tp_uncertainty st + of_int (now - m) * ppm / 1000000"
    by (simp add: field_simps)
  moreover have "u + tp_residual st + of_int (now - tp_last_mono st) = u + of_int (now - tp_last_mono st) + c + (tp_residual st - c)"
    by simp
  ultimately have n: "near U now (u + of_int (now - tp_last_mono st) + c + (tp_residual st - c)) (tp_uncertainty st + of_int (now - m) * ppm / 1000000)"
    using near_drift [OF assms(1) m(3,5)] by metis
  have "extrapolate now st = st\<lparr>tp_utc := Some (u + of_int (now - tp_last_mono st) + c), tp_residual := tp_residual st - c, tp_last_mono := now\<rparr>"
    using Some m(3) by (simp add: extrapolate_def Let_def c_def)
  with n m show ?thesis by (simp add: utc_sound_def del: of_int_diff)
qed

lemma aligned_near:
  assumes "tracks U ppm" "sound_at env U ppm now st" "c \<in> set (tp_candidates st)"
  shows "near U now (aligned now c) (cd_error c + of_int (now - cd_received c) * tp_drift_ppm st / 1000000)"
  using assms near_drift [OF assms(1), of "cd_received c" now "cd_target c" "cd_error c"]
  by (simp add: sound_at_def candidates_sound_def aligned_def)

lemma reply_near:
  assumes "honest_reply U q m received" "received \<le> now" "0 \<le> ppm"
  shows "near U received (cd_target (candidate_of q m received now ppm)) (cd_error (candidate_of q m received now ppm))"
proof -
  have "0 \<le> of_int (now - received) * ppm / 1000000" using assms(2,3) by simp
  with assms(1) show ?thesis
    unfolding near_def candidate_of_def honest_reply_def Let_def by (simp add: abs_le_iff)
qed

lemma sound_rules:
  assumes "tracks U ppm" "0 \<le> ppm" and mono: "\<And>i. te_mono env i \<le> te_mono env (Suc i)"
  shows "time_rule env (sound_at env U ppm) (near U) (honest_reply U)"
proof
  fix now st assume s: "sound_at env U ppm now st"
  show "sound_at env U ppm (te_mono env (tp_reads st)) (st\<lparr>tp_reads := tp_reads st + 1\<rparr>)"
    using s mono [of "tp_reads st"] by (force simp: sound_at_def utc_sound_def candidates_sound_def)
  show "sound_at env U ppm now (st\<lparr>tp_revision := tp_revision st + 1, tp_generation := tp_generation st + 1,
          tp_reads := tp_reads st + 1, tp_generation_started := te_mono env (tp_reads st)\<rparr>)"
    using s mono [of "tp_reads st"] by (force simp: sound_at_def utc_sound_def candidates_sound_def)
  show "sound_at env U ppm now (st\<lparr>tp_utc := None\<rparr>)" if "tp_state st \<notin> {SYNCED, HOLDOVER}"
    using s by (simp add: sound_at_def utc_sound_def candidates_sound_def)
  have "sound_at env U ppm now (st\<lparr>tp_last_observed_mono := now\<rparr>)" using s by (auto intro: sound_cong)
  from extrapolate_sound [OF assms(1) this]
  show "sound_at env U ppm now (extrapolate now (st\<lparr>tp_last_observed_mono := now\<rparr>))"
    using s by (auto simp: sound_at_def candidates_sound_def extrapolate_def Let_def split: option.split)
  show "sound_at env U ppm now (adopt_settle env err now single (st\<lparr>tp_utc := Some target, tp_residual := 0\<rparr>))"
    if "tp_last_mono st = now" "near U now target err" for target err single
    using s that by (simp add: sound_at_def utc_sound_def candidates_sound_def adopt_settle_def)
  show "sound_at env U ppm now (adopt_settle env err now single (st\<lparr>tp_residual := target - u\<rparr>))"
    if "tp_last_mono st = now" "near U now target err" "tp_utc st = Some u" for target err u single
    using s that by (simp add: sound_at_def utc_sound_def candidates_sound_def adopt_settle_def)
  show "near U now (aligned now c) (cd_error c + of_int (now - cd_received c) * tp_drift_ppm st / 1000000)"
    if "c \<in> set (tp_candidates st)" for c
    using aligned_near [OF assms(1) s that] .
  show "sound_at env U ppm now (st\<lparr>tp_candidates := tp_candidates st @ [candidate_of q m received now (tp_drift_ppm st)], tp_pending := None\<rparr>)"
    if "timely q m received now" "honest_reply U q m received" for q m received
  proof -
    have r: "received \<le> now" using that(1) by (simp add: timely_def Let_def)
    have "cd_received (candidate_of q m received now ppm) = received" by (simp add: candidate_of_def Let_def)
    then show ?thesis
      using s r reply_near [OF that(2) r assms(2)] by (auto simp: sound_at_def candidates_sound_def utc_sound_def)
  qed
qed (auto simp: assignment_defs split: option.split elim!: sound_cong [rotated -1])

lemma init_sound: "pt_init env st \<Longrightarrow> (\<And>i. te_mono env i \<le> te_mono env (Suc i)) \<Longrightarrow> sound_at env U (tp_drift_ppm st) (te_mono env 1) st"
  by (auto simp: pt_init_def ptime_new_def sound_at_def utc_sound_def candidates_sound_def numeral_2_eq_2 split: if_splits)

lemma sound_steps:
  assumes "tracks U ppm" "0 \<le> ppm" "\<And>i. te_mono env i \<le> te_mono env (Suc i)"
  shows "(pt_step env (honest_reply U))\<^sup>*\<^sup>* st t \<Longrightarrow> \<exists>now. sound_at env U ppm now st \<Longrightarrow> \<exists>now. sound_at env U ppm now t"
  by (induction rule: rtranclp_induct) (auto dest: time_rule.step_rule [OF sound_rules [OF assms]])

text \<open>What a valid snapshot shows of the state it leaves.\<close>

lemma settle_valid: 
  assumes "settle_snapshot env True x = (Inr (), t)"
  shows "sync_age now t = sync_age now x" "sync_error now t = sync_error now x" "tp_last_mono t = tp_last_mono x"
    "tp_state t = (if tp_session_synced t then SYNCED else HOLDOVER)" "snapshot_valid now x \<Longrightarrow> snapshot_valid now t"
proof -
  have "t = x\<lparr>tp_state := (if tp_session_synced x then SYNCED else HOLDOVER)\<rparr>"
    using assms by (simp add: settle_snapshot_def)
  then show "sync_age now t = sync_age now x" "sync_error now t = sync_error now x" "tp_last_mono t = tp_last_mono x"
    "tp_state t = (if tp_session_synced t then SYNCED else HOLDOVER)" "snapshot_valid now x \<Longrightarrow> snapshot_valid now t"
    by (simp_all add: sync_age_def sync_error_def snapshot_valid_def)
qed

lemma snapshot_valid_spec:
  assumes "snapshot env st = (Inr s, t)" "ts_time_valid s"
  shows "tp_last_mono t = ts_mono_ms s" "ts_utc_ms s = map_option floor (tp_utc t)" "ts_uncertainty_ms s = sync_error (ts_mono_ms s) t"
    "snapshot_valid (ts_mono_ms s) t" "tp_state t = (if tp_session_synced t then SYNCED else HOLDOVER)"
proof -
  obtain x where x: "advance env (te_mono env (tp_reads st)) (st\<lparr>tp_reads := tp_reads st + 1\<rparr>) = (Inr (), x)"
    "settle_snapshot env (snapshot_valid (te_mono env (tp_reads st)) x) x = (Inr (), t)"
    "s = snapshot_of env (te_mono env (tp_reads st)) (sync_age (te_mono env (tp_reads st)) x)
           (sync_error (te_mono env (tp_reads st)) x) (snapshot_valid (te_mono env (tp_reads st)) x) t"
    using assms(1) by (rule snapshot_InrE)
  with assms(2) have v: "snapshot_valid (te_mono env (tp_reads st)) x" "ts_mono_ms s = te_mono env (tp_reads st)"
    by (simp_all add: snapshot_of_def)
  note sv = settle_valid [OF x(2) [unfolded eqTrueI [OF v(1)]]]
  show "tp_last_mono t = ts_mono_ms s" using sv advance_last [OF x(1)] v(2) by simp
  show "ts_utc_ms s = map_option floor (tp_utc t)" "ts_uncertainty_ms s = sync_error (ts_mono_ms s) t"
    using x(3) v sv by (simp_all add: snapshot_of_def)
  show "snapshot_valid (ts_mono_ms s) t" "tp_state t = (if tp_session_synced t then SYNCED else HOLDOVER)"
    using sv v by simp_all
qed

lemma invalidate_unsynced: "keeps (\<lambda>st. \<not> tp_session_synced st) (invalidate env s r)"
  by (rule keepsI) (auto simp: invalidate_def bump_def read_mono_def Let_def sbind_def close_gates_def)

lemma advance_unsynced: "keeps (\<lambda>st. \<not> tp_session_synced st) (advance env now)"
  unfolding advance_def
  by (rule keeps_at, intro keeps_sbind keeps_if invalidate_unsynced keeps_supd keeps_sret)
     (auto simp: extrapolate_def Let_def split: option.splits)

lemma settle_unsynced: "keeps (\<lambda>st. \<not> tp_session_synced st) (settle_snapshot env valid)"
  by (rule keepsI) (simp add: settle_snapshot_def keepsD [OF invalidate_unsynced, simplified])

lemma snapshot_unsynced: "\<not> tp_session_synced st \<Longrightarrow> \<not> tp_session_synced (snd (snapshot env st))"
  by (auto simp: snapshot_def read_mono_def Let_def sbind_def split: prod.splits sum.splits
      dest!: keeps_result [OF advance_unsynced] keeps_result [OF settle_unsynced])

section \<open>A concrete synchronisation\<close>

definition demo_time_env :: time_env where
  "demo_time_env = \<lparr>te_mono = (\<lambda>i. 10 * int i), te_system = (\<lambda>_. 1000), te_jitter = (\<lambda>_ a b. a), te_uuid = (\<lambda>_. ''1'')\<rparr>"

definition demo_clock :: ptime where
  "demo_clock = \<lparr>tp_gateway = ''gw'', tp_boot_id = ''boot'', tp_platform = True, tp_basis = Some ''hub'',
        tp_drift_ppm = 20, tp_drift_evidence = Some ''lab'', tp_revision = 0, tp_connection_revision = 0, tp_generation = 0, tp_generation_started = 0,
        tp_session = None, tp_session_synced = False, tp_heartbeat_submitted = False, tp_get_submitted = False,
        tp_state = UNSYNCED, tp_reason = None, tp_utc = None, tp_last_mono = 10, tp_sync_mono = None,
        tp_uncertainty = 0, tp_residual = 0, tp_floor = None, tp_last_observed_mono = 10,
        tp_pending = None, tp_round_start = None, tp_attempts = 0, tp_candidates = [], tp_next_sync = 0,
        tp_failures = 0, tp_suspect_confirm = False, tp_reads = 2\<rparr>"

lemma demo_clock_new: "ptime_new demo_time_env ''gw'' ''boot'' ''HUB_MQTT'' (Some ''hub'') (Some (PyInt 20)) (Some ''lab'') = Inr demo_clock"
  by (simp add: ptime_new_def demo_clock_def demo_time_env_def drift_ok_def id_alnum_def id_char_def)

definition demo_connected :: ptime where
  "demo_connected = demo_clock\<lparr>tp_connection_revision := 1, tp_session := Some ''s1''\<rparr>"

lemma demo_connect: "snd (connect ''s1'' demo_clock) = demo_connected"
  by (simp add: demo_connected_def demo_clock_def connect_def connect_core_def id_alnum_def id_char_def MAX_SAFE_def)

definition demo_round :: "ptime \<Rightarrow> ptime" where
  "demo_round st = (let t = snd (request demo_time_env st) in
     snd (response demo_time_env (case tp_pending t of None \<Rightarrow> None | Some q \<Rightarrow>
       Some \<lparr>tr_request = q, tr_received_at = 1000000 + tq_client_mono_ms q + 5, tr_sent_at = 1000000 + tq_client_mono_ms q + 5\<rparr>)
       (10 * int (tp_reads t)) (tp_session t) False t))"

lemmas time_eval = demo_round_def request_def request_round_def request_pending_def request_tail_def round_over_def snapshot_def
  read_mono_def advance_def assignment_defs snapshot_valid_def settle_snapshot_def snapshot_of_def sync_age_def sync_error_def
  sbind_resume response_def timely_def candidate_of_def finish_round_def consistent_def aligned_def adopt_time_def adopt_target_def
  invalidate_def bump_def demo_time_env_def slew_def MAX_SAFE_def system_utc_def demo_connected_def demo_clock_def

definition demo_synced :: ptime where
  "demo_synced = demo_connected\<lparr>tp_revision := 1, tp_generation := 1, tp_generation_started := 80, tp_session_synced := True, tp_state := SYNCED,
     tp_utc := Some 1000070, tp_last_mono := 70, tp_sync_mono := Some 70, tp_uncertainty := 33751 / 1250, tp_last_observed_mono := 70,
     tp_attempts := 3, tp_next_sync := 270070, tp_reads := 9\<rparr>"

lemma demo_three_rounds: "demo_round (demo_round (demo_round demo_connected)) = demo_synced"
  by (simp add: time_eval demo_synced_def cong: eval_congs)

definition demo_utc :: "int \<Rightarrow> rat" where
  "demo_utc x = 1000000 + of_int x"

lemma demo_honest: "honest_reply demo_utc q \<lparr>tr_request = q, tr_received_at = 1000005 + tq_client_mono_ms q,
    tr_sent_at = 1000005 + tq_client_mono_ms q\<rparr> received"
  by (simp add: honest_reply_def demo_utc_def Let_def max_def)

lemma demo_round_steps: "(pt_step demo_time_env (honest_reply demo_utc))\<^sup>*\<^sup>* st (demo_round st)"
proof -
  have "pt_step demo_time_env (honest_reply demo_utc) (snd (request demo_time_env st)) (demo_round st)"
    unfolding demo_round_def Let_def by (rule st_response) (auto simp: demo_honest split: option.splits)
  with st_request show ?thesis by (meson rtranclp.rtrancl_refl rtranclp.rtrancl_into_rtrancl)
qed

lemma demo_reachable: "(pt_step demo_time_env (honest_reply demo_utc))\<^sup>*\<^sup>* demo_clock demo_synced"
proof -
  have "pt_step demo_time_env (honest_reply demo_utc) demo_clock demo_connected" unfolding demo_connect [symmetric] by (rule st_connect)
  then show ?thesis using demo_round_steps unfolding demo_three_rounds [symmetric] by (meson converse_rtranclp_into_rtranclp rtranclp_trans)
qed

lemma demo_init: "pt_init demo_time_env demo_clock"
  unfolding pt_init_def using demo_clock_new by blast

section \<open>Properties\<close>

text \<open>C26. The error bound of the logical clock is sound. Suppose the monotonic clock never runs backwards and drifts from
  true UTC by at most the configured bound, and every answer the hub gives is honest up to the path delay. Then whatever the
  sequence of calls, a valid snapshot reports a UTC and an error below one second such that the true UTC lies within that error
  of it (one millisecond more above, because the reported UTC is rounded down).\<close>

theorem clock_error_bound_sound:
  assumes "pt_init env st0" "(pt_step env (honest_reply U))\<^sup>*\<^sup>* st0 st"
    and "tracks U (tp_drift_ppm st0)" "0 \<le> tp_drift_ppm st0" "\<And>i. te_mono env i \<le> te_mono env (Suc i)"
    and "snapshot env st = (Inr s, t)" "ts_time_valid s"
  shows "\<exists>u e. ts_utc_ms s = Some u \<and> ts_uncertainty_ms s = Some e \<and> e < 1000
    \<and> of_int (u - e) \<le> U (ts_mono_ms s) \<and> U (ts_mono_ms s) < of_int (u + e + 1)"
proof -
  note rules = sound_rules [OF assms(3-5)]
  obtain now where "sound_at env U (tp_drift_ppm st0) now st"
    using sound_steps [OF assms(3-5,2)] init_sound [OF assms(1,5)] by blast
  from time_rule.snapshot_rule [OF rules assms(6) this]
  have t: "sound_at env U (tp_drift_ppm st0) (ts_mono_ms s) t" by auto
  note v = snapshot_valid_spec [OF assms(6,7)] note v4 = v(4)
  from v4 obtain x m e where x: "tp_utc t = Some x" "tp_sync_mono t = Some m" "sync_error (ts_mono_ms s) t = Some e" "e < 1000"
    by (auto simp: snapshot_valid_def sync_error_def sync_age_def split: option.splits)
  then have n: "m \<le> ts_mono_ms s" "near U (ts_mono_ms s) (x + tp_residual t)
      (tp_uncertainty t + of_int (ts_mono_ms s - m) * tp_drift_ppm t / 1000000)"
    using t v by (auto simp: sound_at_def utc_sound_def)
  have e: "tp_uncertainty t + of_int (ts_mono_ms s - m) * tp_drift_ppm t / 1000000 + \<bar>tp_residual t\<bar> \<le> of_int e"
    using x(2,3) n(1) by (auto simp: sync_error_def sync_age_def simp del: of_int_diff)
  have "\<bar>U (ts_mono_ms s) - x\<bar> \<le> of_int e" using n(2) e unfolding near_def by linarith
  moreover have "of_int \<lfloor>x\<rfloor> \<le> x" "x < of_int \<lfloor>x\<rfloor> + 1" by linarith+
  ultimately have "of_int (\<lfloor>x\<rfloor> - e) \<le> U (ts_mono_ms s) \<and> U (ts_mono_ms s) < of_int (\<lfloor>x\<rfloor> + e + 1)"
    unfolding of_int_diff of_int_add of_int_1 by linarith
  then show ?thesis using v x by auto
qed

theorem clock_error_bound_sound_witness:
  "\<exists>s t. snapshot demo_time_env demo_synced = (Inr s, t) \<and> ts_time_valid s \<and> (\<exists>u e. ts_utc_ms s = Some u \<and> ts_uncertainty_ms s = Some e
     \<and> e < 1000 \<and> of_int (u - e) \<le> demo_utc (ts_mono_ms s) \<and> demo_utc (ts_mono_ms s) < of_int (u + e + 1))"
proof -
  obtain s t where s: "snapshot demo_time_env demo_synced = (Inr s, t)" "ts_time_valid s"
    by (simp add: demo_synced_def time_eval cong: eval_congs)
  have "tracks demo_utc (tp_drift_ppm demo_clock)" "0 \<le> tp_drift_ppm demo_clock"
    by (simp_all add: tracks_def demo_utc_def demo_clock_def)
  moreover have "te_mono demo_time_env i \<le> te_mono demo_time_env (Suc i)" for i by (simp add: demo_time_env_def)
  ultimately show ?thesis using clock_error_bound_sound [OF demo_init demo_reachable _ _ _ s] s by blast
qed

text \<open>C29. A time token does not survive a change of the clock or of the connection: once either revision has moved past the
  one the token was issued under, no later sequence of calls makes the token valid for any purpose again.\<close>

theorem stale_token_never_valid:
  assumes "token env s0 = (Inr tok, s1)" "pt_ok s1" "(pt_step env any_reply)\<^sup>*\<^sup>* s1 s2"
    and "tp_revision s2 \<noteq> tp_revision s1 \<or> tp_connection_revision s2 \<noteq> tp_connection_revision s1"
    and "(pt_step env any_reply)\<^sup>*\<^sup>* s2 s3"
  shows "fst (valid_for env (Some tok) p s3) \<noteq> Inr True"
proof -
  have tok: "tk_clock_revision tok = tp_revision s1" "tk_connection_revision tok = tp_connection_revision s1"
    using assms(1) by (auto simp: token_def res_simps snapshot_of_def elim!: snapshot_InrE)
  have ok: "pt_ok s2" "pt_ok s3" using assms(2,3,5) clock.inv_steps by blast+
  have "tp_revision s1 < tp_revision s2 \<or> tp_connection_revision s1 < tp_connection_revision s2"
    using assms(4) clock.gauge_steps [OF assms(3,2)] connections.gauge_steps [OF assms(3,2)] by linarith
  then have l: "tp_revision s1 < tp_revision s3 \<or> tp_connection_revision s1 < tp_connection_revision s3"
    using clock.gauge_steps [OF assms(5) ok(1)] connections.gauge_steps [OF assms(5) ok(1)] by linarith
  obtain r t where sn: "snapshot env s3 = (r, t)" by fastforce
  have "pt_step env any_reply s3 t" using st_snapshot [of env any_reply s3] sn by simp
  then have "tp_revision s3 \<le> tp_revision t" "tp_connection_revision s3 \<le> tp_connection_revision t"
    using clock.gauge_step connections.gauge_step ok(2) by blast+
  with l tok have "\<not> token_current (Some tok) at_ms t" for at_ms by (auto simp: token_current_def)
  with sn show ?thesis by (cases r) (auto simp: valid_for_def)
qed

theorem stale_token_never_valid_witness:
  "\<exists>tok s1. token demo_time_env demo_synced = (Inr tok, s1) \<and> fst (valid_for demo_time_env (Some tok) SEND (snd (connect ''s2'' s1))) \<noteq> Inr True"
proof -
  obtain tok s1 where t: "token demo_time_env demo_synced = (Inr tok, s1)" "pt_ok s1"
      "tp_connection_revision (snd (connect ''s2'' s1)) \<noteq> tp_connection_revision s1"
    by (simp add: token_def connect_def id_alnum_def id_char_def pt_ok_def demo_synced_def time_eval cong: eval_congs)
  have "(pt_step demo_time_env any_reply)\<^sup>*\<^sup>* s1 (snd (connect ''s2'' s1))" by (intro r_into_rtranclp st_connect)
  then show ?thesis using stale_token_never_valid [OF t(1,2)] t by blast
qed



text \<open>Corrections are slewed, not stepped. While time goes from \<open>tp_last_mono\<close> to \<open>now\<close>, the logical UTC advances
  by the elapsed time within half a percent, so it never runs backwards; UTC and residual together advance by exactly the elapsed time,
  the residual keeps its sign and shrinks, and it is gone once the elapsed time is two hundred times the residual.\<close>

theorem slew_bounded:
  assumes "tp_last_mono st \<le> now" "tp_utc st = Some u" "elapsed = of_int (now - tp_last_mono st)"
  shows "\<exists>v. tp_utc (extrapolate now st) = Some v \<and> u + elapsed * 995 / 1000 \<le> v \<and> v \<le> u + elapsed * 1005 / 1000
    \<and> v + tp_residual (extrapolate now st) = u + tp_residual st + elapsed
    \<and> \<bar>tp_residual (extrapolate now st)\<bar> \<le> \<bar>tp_residual st\<bar> \<and> 0 \<le> tp_residual (extrapolate now st) * tp_residual st
    \<and> (200 * \<bar>tp_residual st\<bar> \<le> elapsed \<longrightarrow> tp_residual (extrapolate now st) = 0)"
proof -
  define c where "c = slew (now - tp_last_mono st) (tp_residual st)"
  have e: "0 \<le> elapsed" using assms(1,3) by simp
  have x: "tp_utc (extrapolate now st) = Some (u + elapsed + c)" "tp_residual (extrapolate now st) = tp_residual st - c"
    using assms by (simp_all add: extrapolate_def Let_def c_def)
  have c: "c = max (- (elapsed * 5 / 1000)) (min (elapsed * 5 / 1000) (tp_residual st))"
    using assms(3) by (simp add: c_def slew_def)
  have s: "0 \<le> tp_residual st - c \<and> 0 \<le> tp_residual st \<or> tp_residual st - c \<le> 0 \<and> tp_residual st \<le> 0"
    "\<bar>tp_residual st - c\<bar> \<le> \<bar>tp_residual st\<bar>" "- (elapsed * 5 / 1000) \<le> c" "c \<le> elapsed * 5 / 1000"
    "200 * \<bar>tp_residual st\<bar> \<le> elapsed \<longrightarrow> tp_residual st - c = 0"
    using e unfolding c by (auto simp: max_def min_def)
  have "0 \<le> (tp_residual st - c) * tp_residual st" using s(1) by (auto intro: mult_nonneg_nonneg mult_nonpos_nonpos)
  with x s(2-5) show ?thesis by auto
qed

theorem slew_bounded_witness:
  "\<exists>v. tp_utc (extrapolate 1070 (demo_synced\<lparr>tp_residual := 3\<rparr>)) = Some v \<and> v \<le> 1000070 + 1000 * 1005 / 1000
     \<and> tp_residual (extrapolate 1070 (demo_synced\<lparr>tp_residual := 3\<rparr>)) = 0"
  using slew_bounded [of "demo_synced\<lparr>tp_residual := 3\<rparr>" 1070 1000070 1000] by (auto simp: demo_synced_def)



section \<open>Two ways past the maintenance fence\<close>

text \<open>A regression of the monotonic clock noticed while a round is adopted: \<open>_advance\<close> enters MAINTENANCE and drops the UTC,
  but \<open>_adopt\<close> goes on and ends in SYNCED.\<close>

lemma regression_fence_lost:
  assumes "now < tp_last_observed_mono st" "tp_state st = SYNCED" "tp_floor st = None"
    and "max (tp_revision st) (max (tp_connection_revision st) (tp_generation st)) + 1 < MAX_SAFE"
  shows "\<exists>t. advance env now st = (Inr (), t) \<and> tp_state t = MAINTENANCE"
    and "\<exists>t. adopt_time env target err now single st = (Inr (), t) \<and> tp_state t = SYNCED \<and> tp_utc t = Some target"
  using assms by (simp_all add: adopt_time_def adopt_target_def adopt_settle_def advance_def invalidate_def close_gates_def extrapolate_def bump_def
      read_mono_def sbind_resume Let_def cong: eval_congs)

text \<open>A round whose result lies below the history boundary, finished inside \<open>request\<close>: \<open>_finish_round\<close> enters
  MAINTENANCE, but \<open>request\<close> goes on to start a new round, which replaces MAINTENANCE by SYNCING, and issues a request.\<close>

definition demo_floor :: ptime where
  "demo_floor = demo_connected\<lparr>tp_state := SYNCING, tp_floor := Some 2000000, tp_round_start := Some 20, tp_attempts := 1,
     tp_candidates := [\<lparr>cd_target = 1000030, cd_received = 30, cd_path = 10, cd_rtt = 10, cd_error = 27\<rparr>], tp_reads := 4000\<rparr>"

lemma floor_fence_lost:
  "\<exists>t. finish_round demo_time_env 40000 demo_floor = (Inr (), t) \<and> tp_state t = MAINTENANCE"
  "\<exists>q t. request demo_time_env demo_floor = (Inr (Some q), t) \<and> tp_state t = SYNCING"
  by (simp_all add: demo_floor_def time_eval require_maintenance_def cong: eval_congs)

end
