(* ===== verification/Batches.thy ===== *)
theory Batches
  imports PlatformTime
begin

text \<open>
  The durable side of the Outbox: \<^verbatim>\<open>storage/database.py\<close> (opening a telemetry database and
  its transactions), the SQL adapter of \<^verbatim>\<open>storage/batch_repository.py\<close> and the migration of
  \<^verbatim>\<open>storage/outbox_migration.py\<close>.

  The table \<^verbatim>\<open>batches\<close> is a dictionary from message id to row and payload, the single row of
  \<^verbatim>\<open>meta\<close> a few fields. SQLite and the file system are parameters, streams indexed by the
  number of database operations so far: the bytes on disk, the free bytes, whether a reader blocks
  the checkpoint, and whether the statements and the COMMIT of a transaction succeed. A transaction
  that fails leaves the tables as they were.
\<close>

section \<open>State\<close>

record sql_env =
  sq_total :: "nat \<Rightarrow> nat"
  sq_free :: "nat \<Rightarrow> nat"
  sq_busy :: "nat \<Rightarrow> bool"
  sq_commit :: "nat \<Rightarrow> bool"

record batch_db =
  db_batches :: "(string, batch_row \<times> string) dict"
  db_next_order :: nat
  db_trusted_basis :: "string option"
  db_trusted_high :: "int option"
  db_dropped :: nat
  db_dead_pruned :: nat

text \<open>What the SQL adapter works on: the database, the time provider the commit guard asks, the
  guard itself (token and purpose of the \<open>require\<close> call), the row dictionary handed to
  \<open>insert\<close>, which the guard updates in place, and the operation counter.\<close>

record repo =
  rp_db :: batch_db
  rp_time :: "ptime option"
  rp_row :: "batch_row option"
  rp_guard :: "(TimeToken option \<times> purpose) option"
  rp_ops :: nat
  rp_max_physical :: nat
  rp_min_free :: nat

section \<open>Opening a database file\<close>

text \<open>A database file as \<open>Database.__init__\<close> sees it; \<open>sf_tables\<close> are the names in
  \<^verbatim>\<open>sqlite_master\<close>, \<open>sf_gateway\<close> the row of \<^verbatim>\<open>meta\<close>, \<open>sf_quick\<close> the result of
  \<^verbatim>\<open>quick_check\<close>.\<close>

record 'c sfile =
  sf_app :: nat
  sf_version :: nat
  sf_tables :: "string list"
  sf_gateway :: "string option"
  sf_quick :: bool
  sf_content :: 'c

definition blank_file :: "'c \<Rightarrow> 'c sfile" where
  "blank_file c = \<lparr>sf_app = 0, sf_version = 0, sf_tables = [], sf_gateway = None, sf_quick = True, sf_content = c\<rparr>"

definition file_new :: "'c sfile \<Rightarrow> bool" where
  "file_new f \<longleftrightarrow> sf_app f = 0 \<and> sf_version f = 0 \<and> sf_tables f = []"

definition database_open :: "string \<Rightarrow> nat \<Rightarrow> string list \<Rightarrow> nat \<Rightarrow> 'c \<Rightarrow> bool \<Rightarrow> 'c sfile \<Rightarrow> 'c sfile res" where
  "database_open gateway application_id tables format_version fresh commit f =
     (if \<not> id_fullmatch gateway then Inl (ValueError ''Invalid gateway'')
      else if \<not> file_new f \<and> (sf_app f \<noteq> application_id \<or> sf_version f \<noteq> format_version
                 \<or> set (sf_tables f) \<noteq> insert ''meta'' (set tables))
      then Inl (StoreFormatError ''Unknown telemetry database format'')
      else if \<not> file_new f \<and> sf_gateway f \<noteq> Some gateway
      then Inl (StoreIdentityError ''Telemetry database gateway identity is invalid'')
      else if \<not> sf_quick f then Inl (StoreFormatError ''Telemetry database integrity check failed'')
      else if \<not> commit then Inl (StoreError ''Telemetry transaction failed'')
      else Inr (if file_new f
                then f\<lparr>sf_app := application_id, sf_version := format_version, sf_tables := ''meta'' # tables,
                       sf_gateway := Some gateway, sf_content := fresh\<rparr>
                else f))"

section \<open>Transactions\<close>

text \<open>\<open>Database.transaction\<close>: the body, the commit guard (which may run further statements) and
  the COMMIT. Any exception rolls the tables back; what the guard did to the clock stays.\<close>

definition transaction :: "sql_env \<Rightarrow> (batch_db \<Rightarrow> batch_db res) \<Rightarrow> (batch_db \<Rightarrow> (batch_db, repo) prog) \<Rightarrow> (unit, repo) prog" where
  "transaction env body guard st =
     (case body (rp_db st) of
        Inl e \<Rightarrow> (Inl e, st\<lparr>rp_ops := rp_ops st + 1\<rparr>)
      | Inr d \<Rightarrow> sbind (guard d) (\<lambda>d' st.
          if sq_commit env (rp_ops st) then (Inr (), st\<lparr>rp_db := d', rp_ops := rp_ops st + 1\<rparr>)
          else (Inl (StoreError ''Telemetry transaction failed''), st\<lparr>rp_ops := rp_ops st + 1\<rparr>)) st)"

text \<open>\<open>self.time_provider.require(token, purpose)\<close> as the commit guard; None without a guard.\<close>

definition ask_time :: "(ptime \<Rightarrow> 'a res \<times> ptime) \<Rightarrow> (('a option, repo) prog)" where
  "ask_time f st =
     (case rp_time st of None \<Rightarrow> (Inr None, st)
      | Some p \<Rightarrow> (case f p of (Inl e, p') \<Rightarrow> (Inl e, st\<lparr>rp_time := Some p'\<rparr>)
                 | (Inr x, p') \<Rightarrow> (Inr (Some x), st\<lparr>rp_time := Some p'\<rparr>)))"

definition commit_guard :: "time_env \<Rightarrow> (TimeSnapshot option, repo) prog" where
  "commit_guard te st =
     (case rp_guard st of None \<Rightarrow> (Inr None, st) | Some (tok, p) \<Rightarrow> ask_time (require_time te tok p) st)"

definition guarded :: "time_env \<Rightarrow> batch_db \<Rightarrow> (batch_db, repo) prog" where
  "guarded te d = sbind (commit_guard te) (\<lambda>_. sret d)"

section \<open>The SQL adapter\<close>

definition RESERVE :: nat where
  "RESERVE = 2 * 1024 * 1024"

text \<open>\<open>preflight\<close> and \<open>guard\<close>, on the sizes the file system reports.\<close>

definition preflight :: "nat \<Rightarrow> nat \<Rightarrow> unit res" where
  "preflight on_disk free =
     require_res (\<not> (on_disk + RESERVE > 256 * 1024 * 1024 \<or> free < 66 * 1024 * 1024))
       (StoreError ''Telemetry physical storage reserve exhausted before open'')"

definition storage_guard :: "sql_env \<Rightarrow> (unit, repo) prog" where
  "storage_guard env st =
     (let n = rp_ops st; st = st\<lparr>rp_ops := n + 1\<rparr>
      in if sq_total env n + RESERVE > rp_max_physical st \<or> sq_free env n < rp_min_free st + RESERVE
         then (Inl (StoreError ''Telemetry physical storage reserve exhausted''), st)
         else if sq_busy env n then (Inl (StoreError ''Telemetry WAL cannot be bounded while a reader holds it''), st)
         else (Inr (), st))"

text \<open>\<open>rows\<close>: the size column is computed from the payload.\<close>

definition stored_rows :: "batch_db \<Rightarrow> batch_row list" where
  "stored_rows d = sort_key r_local_order (map (\<lambda>(row, raw). row\<lparr>r_size := length raw\<rparr>) (dvals (db_batches d)))"

definition stored_payload :: "batch_db \<Rightarrow> string \<Rightarrow> string option" where
  "stored_payload d key = map_option snd (dget (db_batches d) key)"

definition remember_time :: "batch_row \<Rightarrow> batch_db \<Rightarrow> batch_db res" where
  "remember_time row d =
     (if r_time_trust row \<noteq> HUB_TRUSTED then Inr d
      else if db_trusted_basis d \<noteq> None \<and> db_trusted_basis d \<noteq> r_time_basis_ref row
      then Inl (StoreError ''Outbox time basis requires explicit maintenance'')
      else case (r_enqueued_utc_ms row, r_uncertainty_ms row) of
             (Some u, Some e) \<Rightarrow>
               (let lower = max 0 (u - e); old = (case db_trusted_high d of None \<Rightarrow> 0 | Some h \<Rightarrow> h)
                in Inr (d\<lparr>db_trusted_basis := r_time_basis_ref row, db_trusted_high := Some (max lower old)\<rparr>))
           | _ \<Rightarrow> Inl TypeError)"

definition insert_row :: "batch_row \<Rightarrow> string \<Rightarrow> batch_db \<Rightarrow> batch_db res" where
  "insert_row row raw d =
     (if r_message_id row \<in> set (dkeys (db_batches d))
         \<or> r_local_order row \<in> set (map (\<lambda>(r, _). r_local_order r) (dvals (db_batches d)))
      then Inl (StoreError ''Telemetry transaction failed'')
      else Inr (d\<lparr>db_batches := dset (r_message_id row)
                    (row\<lparr>r_attempts := 0, r_next_due := 0, r_state := PENDING, r_reason := None, r_terminal_source := None\<rparr>, raw)
                    (db_batches d),
                  db_next_order := r_local_order row + 1\<rparr>))"

definition change_row :: "string \<Rightarrow> (batch_row \<Rightarrow> batch_row) \<Rightarrow> batch_db \<Rightarrow> batch_db" where
  "change_row key f d =
     (case dget (db_batches d) key of None \<Rightarrow> d
      | Some (row, raw) \<Rightarrow> d\<lparr>db_batches := dset key (f row, raw) (db_batches d)\<rparr>)"

text \<open>The closure \<open>accepted\<close> of \<open>insert\<close>: the guard's snapshot replaces the enqueue time of a
  trusted row, in the dictionary first and then in the table.\<close>

definition accepted :: "time_env \<Rightarrow> batch_row \<Rightarrow> batch_db \<Rightarrow> (batch_db, repo) prog" where
  "accepted te row d =
     sbind (commit_guard te) (\<lambda>current st.
       case current of
         Some s \<Rightarrow>
           (if r_time_trust row = HUB_TRUSTED
            then let stamp = (\<lambda>r. r\<lparr>r_enqueued_utc_ms := ts_utc_ms s, r_uncertainty_ms := ts_uncertainty_ms s\<rparr>)
                 in (remember_time (stamp row) (change_row (r_message_id row) stamp d), st\<lparr>rp_row := Some (stamp row)\<rparr>)
            else (Inr d, st))
       | None \<Rightarrow> (Inr d, st))"

definition insert_batch :: "sql_env \<Rightarrow> time_env \<Rightarrow> batch_row \<Rightarrow> string \<Rightarrow> (unit, repo) prog" where
  "insert_batch env te row raw =
     sbind (supd (\<lambda>st. st\<lparr>rp_row := Some row\<rparr>)) (\<lambda>_.
     sbind (storage_guard env) (\<lambda>_. transaction env (insert_row row raw) (accepted te row)))"

datatype batch_field = SetAttempts nat | SetNextDue rat | SetState batch_state | SetReason "string option"

fun set_field :: "batch_field \<Rightarrow> batch_row \<Rightarrow> batch_row" where
  "set_field (SetAttempts n) r = r\<lparr>r_attempts := n\<rparr>"
| "set_field (SetNextDue x) r = r\<lparr>r_next_due := x\<rparr>"
| "set_field (SetState x) r = r\<lparr>r_state := x\<rparr>"
| "set_field (SetReason x) r = r\<lparr>r_reason := x\<rparr>"

definition update_batch :: "sql_env \<Rightarrow> time_env \<Rightarrow> string \<Rightarrow> batch_field list \<Rightarrow> (unit, repo) prog" where
  "update_batch env te key flds =
     sbind (storage_guard env) (\<lambda>_. transaction env (\<lambda>d. Inr (change_row key (fold set_field flds) d)) (guarded te))"

definition delete_row :: "string \<Rightarrow> batch_db \<Rightarrow> batch_db" where
  "delete_row key d = d\<lparr>db_batches := ddel key (db_batches d)\<rparr>"

definition delete_batch :: "sql_env \<Rightarrow> string \<Rightarrow> (unit, repo) prog" where
  "delete_batch env key = sbind (storage_guard env) (\<lambda>_. transaction env (\<lambda>d. Inr (delete_row key d)) sret)"

definition count_pruned :: "nat \<Rightarrow> batch_db \<Rightarrow> batch_db" where
  "count_pruned n d = d\<lparr>db_dead_pruned := min (db_dead_pruned d + n) MAX_SAFE\<rparr>"

definition prune_batch :: "sql_env \<Rightarrow> string \<Rightarrow> (unit, repo) prog" where
  "prune_batch env key =
     sbind (storage_guard env) (\<lambda>_. transaction env (\<lambda>d. Inr (count_pruned 1 (delete_row key d))) sret)"

definition terminal_rows :: "string \<Rightarrow> string \<Rightarrow> string list \<Rightarrow> terminal_source option \<Rightarrow> batch_db \<Rightarrow> batch_db" where
  "terminal_rows key reason pruned source d =
     (let d = change_row key (\<lambda>r. r\<lparr>r_state := DEAD, r_reason := Some reason, r_terminal_source := source\<rparr>) d;
          d = fold delete_row pruned d
      in if pruned \<noteq> [] then count_pruned (length pruned) d else d)"

definition terminal_with_source :: "sql_env \<Rightarrow> time_env \<Rightarrow> string \<Rightarrow> string \<Rightarrow> string list \<Rightarrow> terminal_source option \<Rightarrow> (unit, repo) prog" where
  "terminal_with_source env te key reason pruned source =
     sbind (storage_guard env) (\<lambda>_. transaction env (\<lambda>d. Inr (terminal_rows key reason pruned source d)) (guarded te))"

text \<open>\<open>count_attempt\<close>: True counts \<^verbatim>\<open>dropped\<close>, False \<^verbatim>\<open>dead_pruned\<close>.\<close>

definition count_attempt :: "sql_env \<Rightarrow> bool \<Rightarrow> (unit, repo) prog" where
  "count_attempt env dropped =
     sbind (storage_guard env) (\<lambda>_. transaction env (\<lambda>d. Inr
       (if dropped then d\<lparr>db_dropped := min (db_dropped d + 1) MAX_SAFE\<rparr> else count_pruned 1 d)) sret)"

section \<open>Migration from version 1\<close>

text \<open>A version 1 row: rowid, key, payload, hash, created, attempts, next due, state, reason.\<close>

record v1_row =
  v1_rowid :: int
  v1_message_id :: string
  v1_payload :: string
  v1_hash :: string
  v1_created :: rat
  v1_attempts :: int
  v1_next_due :: rat
  v1_state :: string
  v1_reason :: "string option"

record v1_db =
  v1_rows :: "v1_row list"
  v1_columns :: "string list"
  v1_dropped :: int
  v1_dead_pruned :: int

text \<open>What the migration asks of the outside: the message id of a payload that passes the data
  contract of the gateway, the digest, whether the paths, the backup and the final commit succeed.\<close>

record migrate_env =
  mg_message :: "string \<Rightarrow> string \<Rightarrow> string option"
  mg_sha256 :: "string \<Rightarrow> string"
  mg_paths :: bool
  mg_backup :: bool
  mg_commit :: "unit res"

definition APP_ID :: nat where
  "APP_ID = 0x504F5554"

definition v1_row_ok :: "migrate_env \<Rightarrow> string \<Rightarrow> v1_row \<Rightarrow> bool" where
  "v1_row_ok env gateway r \<longleftrightarrow> mg_sha256 env (v1_payload r) = v1_hash r
     \<and> mg_message env gateway (v1_payload r) = Some (v1_message_id r)
     \<and> 1 \<le> v1_rowid r \<and> v1_rowid r < int MAX_SAFE \<and> 0 \<le> v1_attempts r \<and> v1_attempts r \<le> int MAX_SAFE
     \<and> v1_state r \<in> {''PENDING'', ''DEAD''}"

definition migrate_row :: "v1_row \<Rightarrow> string \<times> batch_row \<times> string" where
  "migrate_row r = (v1_message_id r,
     \<lparr>r_message_id = v1_message_id r, r_hash = v1_hash r, r_created = v1_created r, r_size = length (v1_payload r),
      r_attempts = nat (v1_attempts r), r_next_due = v1_next_due r, r_state = (if v1_state r = ''PENDING'' then PENDING else DEAD),
      r_reason = v1_reason r, r_local_order = nat (v1_rowid r), r_enqueued_utc_ms = None, r_uncertainty_ms = None,
      r_time_trust = LEGACY_UNVERIFIED, r_time_basis_ref = None, r_enqueue_boot_id = None, r_clock_revision = None,
      r_terminal_source = None, r_wire_timestamp = 0\<rparr>, v1_payload r)"

definition migrate_content :: "v1_db \<Rightarrow> batch_db" where
  "migrate_content d =
     \<lparr>db_batches = map migrate_row (v1_rows d), db_next_order = Max (insert 0 (set (map (nat \<circ> v1_rowid) (v1_rows d)))) + 1,
      db_trusted_basis = None, db_trusted_high = None, db_dropped = nat (v1_dropped d), db_dead_pruned = nat (v1_dead_pruned d)\<rparr>"

definition migrate_existing :: "migrate_env \<Rightarrow> string \<Rightarrow> v1_db sfile \<Rightarrow> batch_db sfile res" where
  "migrate_existing env gateway f =
     (if \<not> mg_paths env then Inl (ValueError ''Existing DB and a new persistent backup path are required'')
      else if sf_app f \<noteq> APP_ID \<or> sf_version f \<noteq> 1 \<or> set (sf_tables f) \<noteq> {''meta'', ''batches''} \<or> \<not> sf_quick f
      then Inl (StoreFormatError ''Migration requires intact Outbox v1'')
      else if sf_gateway f \<noteq> Some gateway then Inl (StoreIdentityError ''Migration gateway mismatch'')
      else if set (v1_columns (sf_content f)) \<noteq> {''message_id'', ''payload'', ''hash'', ''created'', ''attempts'', ''next_due'', ''state'', ''reason''}
      then Inl (StoreFormatError ''Unknown v1 batch layout'')
      else if \<not> (0 \<le> v1_dropped (sf_content f) \<and> v1_dropped (sf_content f) \<le> int MAX_SAFE
                \<and> 0 \<le> v1_dead_pruned (sf_content f) \<and> v1_dead_pruned (sf_content f) \<le> int MAX_SAFE)
      then Inl (StoreFormatError ''Invalid v1 counters'')
      else if \<not> list_all (v1_row_ok env gateway) (v1_rows (sf_content f))
      then Inl (StoreFormatError ''Invalid v1 batch; retain source for explicit repair'')
      else if \<not> mg_backup env then Inl (StoreFormatError ''Backup verification failed'')
      else rbind (mg_commit env) (\<lambda>_. Inr \<lparr>sf_app = sf_app f, sf_version = 2, sf_tables = sf_tables f, sf_gateway = sf_gateway f,
             sf_quick = sf_quick f, sf_content = migrate_content (sf_content f)\<rparr>))"

end
