(* ===== verification/Outbox.thy ===== *)
theory Outbox
  imports Batches
begin

text \<open>
  The Outbox: the process-owned session of \<^verbatim>\<open>storage/outbox_session.py\<close> and the store of
  \<^verbatim>\<open>storage/outbox.py\<close> over the SQL adapter (the production repository; repositories injected by
  tests are not modelled). Parameters: the session clock, a stream indexed by the readings taken;
  \<open>hashlib.sha256\<close>; the data and acknowledgement contracts, which give the decoded message of a
  valid payload; the retained size of a row; and the callback \<open>on_fact\<close>, whose n-th call returns True
  when it neither returned False nor raised.
\<close>

section \<open>State\<close>

record wire =
  w_message_id :: string
  w_timestamp :: int

record ack =
  ak_message_id :: string
  ak_stored :: bool
  ak_codes :: "string list"

record outbox_env =
  oe_sql :: sql_env
  oe_time :: time_env
  oe_acct :: acct_env
  oe_clock :: "nat \<Rightarrow> rat"
  oe_sha256 :: "string \<Rightarrow> string"
  oe_data :: "string \<Rightarrow> string \<Rightarrow> wire option"
  oe_ack :: "string \<Rightarrow> string \<Rightarrow> ack option"
  oe_row_bytes :: "batch_row \<Rightarrow> nat"
  oe_on_fact :: "(nat \<Rightarrow> string \<Rightarrow> string \<Rightarrow> BatchState \<Rightarrow> bool) option"

datatype session_fact = f_stored | f_known_unsent | f_isolated | f_uncertain | f_late_stored | f_unknown_acks
  | f_conflicting_acks | f_enqueue_rejected_attempts

record OutboxSession =
  os_max_bytes :: int
  os_max_records :: nat
  os_accounting :: "acct option"
  os_entries :: "(string, BatchState) dict"
  os_staged :: "(string, BatchState) dict"
  os_watermark :: nat
  os_prefer_new :: bool
  os_next_send :: rat
  os_rate :: "(rat \<times> nat) list"
  os_sdk_next_send :: rat
  os_sdk_rate :: "(rat \<times> nat) list"
  os_detail_truncated :: bool
  os_accounting_complete :: bool
  os_counter_overflow :: bool
  os_facts :: "session_fact \<Rightarrow> nat"
  os_next_order :: nat
  os_ticks :: nat
  os_calls :: nat

record outbox =
  ob_gateway :: string
  ob_max_batches :: nat
  ob_max_bytes :: nat
  ob_max_dead :: nat
  ob_session :: OutboxSession
  ob_repo :: repo

section \<open>The session\<close>

definition session_new :: "int \<Rightarrow> nat \<Rightarrow> acct option \<Rightarrow> OutboxSession" where
  "session_new max_bytes max_records accounting =
     \<lparr>os_max_bytes = (case accounting of None \<Rightarrow> max_bytes | Some a \<Rightarrow> max_bytes - int (ac_max_metadata_bytes a)),
      os_max_records = max_records, os_accounting = accounting, os_entries = [], os_staged = [], os_watermark = 0,
      os_prefer_new = True, os_next_send = 0, os_rate = [], os_sdk_next_send = 0, os_sdk_rate = [],
      os_detail_truncated = False, os_accounting_complete = True, os_counter_overflow = False, os_facts = (\<lambda>_. 0),
      os_next_order = 1, os_ticks = 0, os_calls = 0\<rparr>"

definition charge :: "outbox_env \<Rightarrow> BatchState \<Rightarrow> int" where
  "charge env e = int (oe_row_bytes env ((b_row e)\<lparr>r_reason := None\<rparr>) + length (b_events e) * 8 + 1536)"

definition add_fact :: "session_fact \<Rightarrow> nat \<Rightarrow> OutboxSession \<Rightarrow> OutboxSession" where
  "add_fact name count os =
     (let v = os_facts os name + count;
          os = (if v > MAX_SAFE then os\<lparr>os_counter_overflow := True, os_accounting_complete := False\<rparr> else os)
      in os\<lparr>os_facts := (os_facts os)(name := min v MAX_SAFE)\<rparr>)"

definition used_bytes :: "outbox_env \<Rightarrow> OutboxSession \<Rightarrow> int" where
  "used_bytes env os = dsum (charge env) (os_entries os) + dsum (charge env) (os_staged os)"

text \<open>\<open>stage\<close>: the entry, or None when the quota is exhausted. The flag says that the entry was
  created by this call, so that it shares the caller's row.\<close>

definition stage :: "outbox_env \<Rightarrow> string \<Rightarrow> batch_row \<Rightarrow> nat list \<Rightarrow> string option \<Rightarrow> category \<Rightarrow> OutboxSession \<Rightarrow> (BatchState \<times> bool) option \<times> OutboxSession" where
  "stage env key row events capture_boot category os =
     (case (dget (os_entries os) key, dget (os_staged os) key) of
        (Some old, _) \<Rightarrow> (Some (old, False), os)
      | (None, Some old) \<Rightarrow> (Some (old, False), os)
      | (None, None) \<Rightarrow>
          (let e = \<lparr>b_row = row, b_category = category, b_due = 0, b_active = False, b_source = None, b_events = events,
                    b_capture_boot = capture_boot, b_ever_sent = False, b_previous_sent = False\<rparr>
           in if length (os_entries os) + length (os_staged os) \<ge> os_max_records os
                 \<or> used_bytes env os + charge env e > os_max_bytes os
              then (None, os)
              else (Some (e, True), os\<lparr>os_staged := dset key e (os_staged os)\<rparr>)))"

definition put_entry :: "string \<Rightarrow> BatchState \<Rightarrow> OutboxSession \<Rightarrow> OutboxSession" where
  "put_entry key e os = os\<lparr>os_entries := dset key e (os_entries os)\<rparr>"

definition account :: "(acct \<Rightarrow> acct) \<Rightarrow> OutboxSession \<Rightarrow> OutboxSession" where
  "account f os = os\<lparr>os_accounting := map_option f (os_accounting os)\<rparr>"

definition attach_new :: "outbox_env \<Rightarrow> batch_row \<Rightarrow> (unit, OutboxSession) prog" where
  "attach_new env row os =
     (let key = r_message_id row
      in case stage env key row [] None History os of
           (None, os) \<Rightarrow> (Inl (StoreError ''Outbox metadata quota exceeded while opening''), os)
         | (Some (e, _), os) \<Rightarrow>
             (let e = e\<lparr>b_due := oe_clock env (os_ticks os) + (if r_attempts row > 0 then 60 else 0), b_ever_sent := r_attempts row > 0\<rparr>;
                  e = (if r_terminal_source row \<noteq> None then e\<lparr>b_source := r_terminal_source row\<rparr> else e);
                  os = os\<lparr>os_staged := ddel key (os_staged os), os_ticks := os_ticks os + 1\<rparr>;
                  os = (put_entry key e os)\<lparr>os_accounting_complete := False\<rparr>
              in (Inr (), account (restored (oe_acct env) e) os)))"

definition attach_row :: "outbox_env \<Rightarrow> batch_row \<Rightarrow> (unit, OutboxSession) prog" where
  "attach_row env row os =
     (case dget (os_entries os) (r_message_id row) of
        Some e \<Rightarrow> (if r_hash (b_row e) \<noteq> r_hash row then (Inl (StoreFormatError ''Outbox process identity conflict''), os)
                  else (Inr (), put_entry (r_message_id row) (e\<lparr>b_row := row\<rparr>) os))
      | None \<Rightarrow> attach_new env row os)"

definition attach_finish :: "string list \<Rightarrow> (unit, OutboxSession) prog" where
  "attach_finish ids os =
     (if \<exists>key \<in> set (dkeys (os_entries os)). key \<notin> set ids
      then (Inl (StoreFormatError ''Outbox records disappeared within the current process''), os\<lparr>os_accounting_complete := False\<rparr>)
      else (Inr (), os))"

definition open_gate_outbox :: "nat \<Rightarrow> OutboxSession \<Rightarrow> OutboxSession" where
  "open_gate_outbox watermark os =
     os\<lparr>os_watermark := watermark,
        os_entries := map (\<lambda>(k, e). (k, e\<lparr>b_category := History\<rparr>)) (os_entries os),
        os_staged := map (\<lambda>(k, e). (k, e\<lparr>b_category := History\<rparr>)) (os_staged os)\<rparr>"

definition emit_fact :: "outbox_env \<Rightarrow> string \<Rightarrow> string \<Rightarrow> BatchState \<Rightarrow> fact \<Rightarrow> OutboxSession \<Rightarrow> OutboxSession" where
  "emit_fact env kind key e extra os =
     (let os = (if kind \<in> {''reserved'', ''sdk_rejected'', ''retryable_reject'', ''conflict''}
                then account (record_batch (oe_acct env) kind e extra) os else os)
      in case oe_on_fact env of None \<Rightarrow> os
         | Some f \<Rightarrow> (let ok = f (os_calls os) kind key e; os = os\<lparr>os_calls := os_calls os + 1\<rparr>
                     in if ok then os else os\<lparr>os_detail_truncated := True, os_accounting_complete := False\<rparr>))"

fun outcome_fact :: "outcome \<Rightarrow> session_fact" where
  "outcome_fact ISOLATED = f_isolated"
| "outcome_fact UNCERTAIN = f_uncertain"
| "outcome_fact KNOWN_UNSENT = f_known_unsent"

definition session_terminal :: "outbox_env \<Rightarrow> string \<Rightarrow> terminal_source \<Rightarrow> (unit, OutboxSession) prog" where
  "session_terminal env key source os =
     (case dget (os_entries os) key of None \<Rightarrow> (Inl KeyError, os)
      | Some e \<Rightarrow>
         (if b_source e \<noteq> None then (Inr (), os)
          else let e = e\<lparr>b_source := Some source, b_active := False\<rparr>;
                   os = add_fact (outcome_fact (terminal_outcome e source)) (length (b_events e)) (put_entry key e os);
                   os = account (terminal_acct (oe_acct env) e source) os
               in (Inr (), emit_fact env ''terminal'' key e
                     [(''source'', AStr (source_name source)), (''outcome'', AStr (outcome_name (terminal_outcome e source)))] os)))"

section \<open>The store: lifting and helpers\<close>

definition on_repo :: "('a, repo) prog \<Rightarrow> ('a, outbox) prog" where
  "on_repo m st = (case m (ob_repo st) of (r, rp) \<Rightarrow> (r, st\<lparr>ob_repo := rp\<rparr>))"

definition on_session :: "('a, OutboxSession) prog \<Rightarrow> ('a, outbox) prog" where
  "on_session m st = (case m (ob_session st) of (r, os) \<Rightarrow> (r, st\<lparr>ob_session := os\<rparr>))"

definition upd_session :: "(OutboxSession \<Rightarrow> OutboxSession) \<Rightarrow> (unit, outbox) prog" where
  "upd_session f = supd (\<lambda>st. st\<lparr>ob_session := f (ob_session st)\<rparr>)"

definition read_clock :: "outbox_env \<Rightarrow> (rat, outbox) prog" where
  "read_clock env = on_session (\<lambda>os. (Inr (oe_clock env (os_ticks os)), os\<lparr>os_ticks := os_ticks os + 1\<rparr>))"

text \<open>\<open>try: ... finally: self._commit_guard=None\<close>.\<close>

definition with_guard :: "(TimeToken option \<times> purpose) option \<Rightarrow> ('a, outbox) prog \<Rightarrow> ('a, outbox) prog" where
  "with_guard g m st =
     (case m (st\<lparr>ob_repo := (ob_repo st)\<lparr>rp_guard := g\<rparr>\<rparr>) of (r, st) \<Rightarrow> (r, st\<lparr>ob_repo := (ob_repo st)\<lparr>rp_guard := None\<rparr>\<rparr>))"

definition entries :: "outbox \<Rightarrow> (string, BatchState) dict" where
  "entries st = os_entries (ob_session st)"

section \<open>Opening\<close>

definition trusted_ok :: "batch_row \<Rightarrow> bool" where
  "trusted_ok row \<longleftrightarrow> r_time_trust row = HUB_TRUSTED \<longrightarrow>
     (case r_enqueued_utc_ms row of None \<Rightarrow> False | Some u \<Rightarrow> 0 \<le> u \<and> u \<le> int MAX_SAFE)
     \<and> (case r_uncertainty_ms row of None \<Rightarrow> False | Some u \<Rightarrow> 0 \<le> u \<and> u < 1000)
     \<and> (case r_time_basis_ref row of None \<Rightarrow> False | Some b \<Rightarrow> id_fullmatch b)
     \<and> (case r_enqueue_boot_id row of None \<Rightarrow> False | Some b \<Rightarrow> id_fullmatch b)
     \<and> (case r_clock_revision row of None \<Rightarrow> False | Some n \<Rightarrow> 0 \<le> n \<and> n \<le> int MAX_SAFE)"

text \<open>One row of the generator \<open>bounded_rows\<close>, with the count and size so far.\<close>

definition bounded_row :: "outbox_env \<Rightarrow> batch_row \<Rightarrow> nat \<times> nat \<Rightarrow> outbox \<Rightarrow> (batch_row \<times> nat \<times> nat) res" where
  "bounded_row env row acc st =
     (let (count, sz) = acc
      in if \<not> (1 \<le> r_local_order row \<and> r_local_order row < MAX_SAFE) then Inl (StoreFormatError ''Stored local order is corrupt'')
         else case stored_payload (rp_db (ob_repo st)) (r_message_id row) of
           None \<Rightarrow> Inl (StoreFormatError ''Stored telemetry batch is corrupt'')
         | Some raw \<Rightarrow>
            (case oe_data env (ob_gateway st) raw of
               None \<Rightarrow> Inl (StoreFormatError ''Stored telemetry batch is corrupt'')
             | Some w \<Rightarrow>
                (if oe_sha256 env raw \<noteq> r_hash row then Inl (StoreFormatError ''Stored telemetry batch is corrupt'')
                 else if w_message_id w \<noteq> r_message_id row then Inl (StoreFormatError ''Stored batch identity is corrupt'')
                 else if \<not> trusted_ok row then Inl (StoreFormatError ''Stored trusted time metadata is corrupt'')
                 else if count + 1 > ob_max_batches st \<or> sz + r_size row > ob_max_bytes st
                 then Inl (StoreFormatError ''Existing Outbox exceeds configured quota'')
                 else Inr (row\<lparr>r_wire_timestamp := w_timestamp w\<rparr>, count + 1, sz + r_size row))))"

text \<open>\<open>session.attach(bounded_rows())\<close>: the generator and the loop of \<open>attach\<close> alternate.\<close>

fun attach_rows :: "outbox_env \<Rightarrow> batch_row list \<Rightarrow> nat \<times> nat \<Rightarrow> (unit, outbox) prog" where
  "attach_rows env [] acc st = (Inr (), st)"
| "attach_rows env (row # rows) acc st =
     (case bounded_row env row acc st of
        Inl e \<Rightarrow> (Inl e, st)
      | Inr (row, acc) \<Rightarrow> sbind (on_session (attach_row env row)) (\<lambda>_. attach_rows env rows acc) st)"

definition dead_count :: "OutboxSession \<Rightarrow> nat" where
  "dead_count os = length (filter (\<lambda>e. r_state (b_row e) = DEAD) (dvals (os_entries os)))"

definition attach_outbox :: "outbox_env \<Rightarrow> (unit, outbox) prog" where
  "attach_outbox env st =
     (let rows = stored_rows (rp_db (ob_repo st))
      in sbind (attach_rows env rows (0, 0)) (\<lambda>_.
         sbind (on_session (attach_finish (map r_message_id rows))) (\<lambda>_ st.
           if dead_count (ob_session st) > ob_max_dead st then (Inl (StoreFormatError ''Existing Outbox exceeds DEAD quota''), st)
           else (Inr (), st))) st)"

definition fresh_batches :: batch_db where
  "fresh_batches = \<lparr>db_batches = [], db_next_order = 1, db_trusted_basis = None, db_trusted_high = None, db_dropped = 0, db_dead_pruned = 0\<rparr>"

text \<open>\<open>OutboxStore.__init__\<close> on the file found at the path (None: no file), its size and the free
  space. The session survives a failed opening.\<close>

definition outbox_open :: "outbox_env \<Rightarrow> string \<Rightarrow> nat \<Rightarrow> nat \<Rightarrow> nat \<Rightarrow> OutboxSession \<Rightarrow> ptime option \<Rightarrow> batch_db sfile option \<Rightarrow> unit res \<times> OutboxSession \<times> outbox option" where
  "outbox_open env gateway max_batches max_bytes max_dead os time file =
     (if max_batches < 1 \<or> max_bytes < 1 \<or> max_dead < 1
      then (Inl (ValueError ''Outbox limits must be positive integers''), os, None)
      else case preflight (sq_total (oe_sql env) 0) (sq_free (oe_sql env) 0) of
        Inl e \<Rightarrow> (Inl e, os, None)
      | Inr _ \<Rightarrow>
        (let os = (if file \<noteq> None then account (acct_recovery (oe_acct env)) os else os);
             f = (case file of None \<Rightarrow> blank_file fresh_batches | Some f \<Rightarrow> f)
         in case database_open gateway APP_ID [''batches''] 2 fresh_batches (sq_commit (oe_sql env) 0) f of
              Inl e \<Rightarrow> (Inl e, os, None)
            | Inr f \<Rightarrow>
               (case attach_outbox env \<lparr>ob_gateway = gateway, ob_max_batches = max_batches, ob_max_bytes = max_bytes, ob_max_dead = max_dead,
                       ob_session = os, ob_repo = \<lparr>rp_db = sf_content f, rp_time = time, rp_row = None, rp_guard = None, rp_ops = 1,
                         rp_max_physical = 256 * 1024 * 1024, rp_min_free = 64 * 1024 * 1024\<rparr>\<rparr> of
                  (Inl e, st) \<Rightarrow> (Inl e, ob_session st, None)
                | (Inr _, st) \<Rightarrow> (Inr (), ob_session st, Some st))))"

section \<open>Termination, pruning and expiry\<close>

text \<open>The keys a bound of \<open>max_dead\<close> removes: the oldest of the given ones.\<close>

definition oldest_beyond :: "nat \<Rightarrow> (nat \<times> string) list \<Rightarrow> string list" where
  "oldest_beyond max_dead dead = map snd (take (length dead - max_dead) (sort_key fst dead))"

definition dead_keys :: "(string \<Rightarrow> BatchState \<Rightarrow> bool) \<Rightarrow> (string, BatchState) dict \<Rightarrow> (nat \<times> string) list" where
  "dead_keys also d = map (\<lambda>(k, e). (r_local_order (b_row e), k)) (filter (\<lambda>(k, e). also k e \<or> r_state (b_row e) = DEAD) d)"

text \<open>An entry that was pruned from the database leaves the session.\<close>

definition forget_pruned :: "outbox_env \<Rightarrow> string \<Rightarrow> (unit, OutboxSession) prog" where
  "forget_pruned env key os =
     (case dget (os_entries os) key of None \<Rightarrow> (Inl KeyError, os)
      | Some e \<Rightarrow>
         (let os = account (removed (oe_acct env) e False True) os;
              os = os\<lparr>os_entries := ddel key (os_entries os)\<rparr>;
              os = emit_fact env ''pruned'' key e [] os
          in (Inr (), os\<lparr>os_detail_truncated := True\<rparr>)))"

definition prune :: "outbox_env \<Rightarrow> (unit, outbox) prog" where
  "prune env st =
     sfold (\<lambda>key. sbind (on_repo (prune_batch (oe_sql env) key)) (\<lambda>_. on_session (forget_pruned env key)))
       (oldest_beyond (ob_max_dead st) (dead_keys (\<lambda>_ _. False) (entries st))) st"

definition mark_dead :: "string \<Rightarrow> string \<Rightarrow> terminal_source \<Rightarrow> (unit, OutboxSession) prog" where
  "mark_dead key reason source os =
     (case dget (os_entries os) key of None \<Rightarrow> (Inl KeyError, os)
      | Some e \<Rightarrow> (Inr (), put_entry key (e\<lparr>b_row := (b_row e)\<lparr>r_state := DEAD, r_reason := Some reason, r_terminal_source := Some source\<rparr>\<rparr>) os))"

definition terminal :: "outbox_env \<Rightarrow> string \<Rightarrow> string \<Rightarrow> terminal_source \<Rightarrow> (unit, outbox) prog" where
  "terminal env key reason source st =
     (let pruned = oldest_beyond (ob_max_dead st) (dead_keys (\<lambda>k _. k = key) (entries st))
      in sbind (on_repo (terminal_with_source (oe_sql env) (oe_time env) key reason pruned (Some source))) (\<lambda>_.
         sbind (on_session (mark_dead key reason source)) (\<lambda>_.
         sbind (on_session (session_terminal env key source)) (\<lambda>_.
           sfold (\<lambda>old. on_session (forget_pruned env old)) pruned))) st)"

definition ask :: "(ptime \<Rightarrow> 'a res \<times> ptime) \<Rightarrow> ('a option, outbox) prog" where
  "ask f = on_repo (ask_time f)"

text \<open>The lower bound of a batch's age, when its enqueue time and the clock are comparable. None stands for
  the TypeError of Python's arithmetic on None.\<close>

definition comparable :: "TimeSnapshot \<Rightarrow> batch_row \<Rightarrow> bool" where
  "comparable s row \<longleftrightarrow> r_time_trust row = HUB_TRUSTED \<and> r_time_basis_ref row = ts_time_basis_ref s"

definition age_lower :: "TimeSnapshot \<Rightarrow> batch_row \<Rightarrow> int option" where
  "age_lower s row =
     (if \<not> comparable s row then Some 0
      else case (ts_utc_ms s, ts_uncertainty_ms s, r_enqueued_utc_ms row, r_uncertainty_ms row) of
             (Some u, Some e, Some u0, Some e0) \<Rightarrow> Some (max 0 (u - e - u0 - e0))
           | _ \<Rightarrow> None)"

definition expire_entry :: "outbox_env \<Rightarrow> TimeSnapshot \<Rightarrow> rat \<Rightarrow> string \<Rightarrow> (unit, outbox) prog" where
  "expire_entry env s mono_now key st =
     (case dget (entries st) key of None \<Rightarrow> (Inr (), st)
      | Some e \<Rightarrow>
         (case age_lower s (b_row e) of None \<Rightarrow> (Inl TypeError, st)
          | Some lower \<Rightarrow>
             (if r_state (b_row e) = PENDING \<and> comparable s (b_row e) \<and> lower \<ge> 7 * 86400 * 1000
                 \<and> \<not> (b_active e \<and> mono_now < b_due e)
              then sbind (ask (token (oe_time env))) (\<lambda>tok.
                     with_guard (Some (tok, ENQUEUE)) (terminal env key ''EXPIRED_DATA'' AGE_EXPIRED)) st
              else (Inr (), st))))"

definition expire_outbox :: "outbox_env \<Rightarrow> (unit, outbox) prog" where
  "expire_outbox env =
     sbind (ask (snapshot (oe_time env))) (\<lambda>current st.
       case current of None \<Rightarrow> (Inr (), st)
       | Some s \<Rightarrow>
          (if \<not> ts_time_valid s then (Inr (), st)
           else sbind (read_clock env) (\<lambda>mono_now st.
                  sbind (sfold (expire_entry env s mono_now) (dkeys (entries st))) (\<lambda>_. prune env) st) st))"

section \<open>Enqueue\<close>

record association =
  av_events :: "nat list"
  av_capture_boot :: "string option"

definition new_row :: "outbox_env \<Rightarrow> string \<Rightarrow> wire \<Rightarrow> rat option \<Rightarrow> nat \<Rightarrow> TimeSnapshot option \<Rightarrow> batch_row" where
  "new_row env raw w now order current =
     (let trusted = (case current of None \<Rightarrow> False | Some s \<Rightarrow> ts_time_valid s);
          pick = (\<lambda>f. if trusted then (case current of None \<Rightarrow> None | Some s \<Rightarrow> f s) else None)
      in \<lparr>r_message_id = w_message_id w, r_hash = oe_sha256 env raw, r_created = (case now of None \<Rightarrow> 0 | Some t \<Rightarrow> t),
          r_size = length raw, r_attempts = 0, r_next_due = 0, r_state = PENDING, r_reason = None, r_local_order = order,
          r_enqueued_utc_ms = pick ts_utc_ms, r_uncertainty_ms = pick ts_uncertainty_ms,
          r_time_trust = (if trusted then HUB_TRUSTED else SYSTEM_UNVERIFIED),
          r_time_basis_ref = (if trusted then (case current of None \<Rightarrow> None | Some s \<Rightarrow> ts_time_basis_ref s) else None),
          r_enqueue_boot_id = map_option ts_boot_id current, r_clock_revision = map_option (int \<circ> ts_clock_revision) current,
          r_terminal_source = None, r_wire_timestamp = w_timestamp w\<rparr>)"

definition new_category :: "nat list \<Rightarrow> nat \<Rightarrow> category" where
  "new_category events watermark = (if events \<noteq> [] \<and> Max (set events) \<le> watermark then History else New)"

definition rejected_attempt :: "OutboxSession \<Rightarrow> OutboxSession" where
  "rejected_attempt = account (acct_add enqueueRejectedAttemptsTotal 1)"

text \<open>The row dictionary after \<open>insert\<close>, updated in place by the commit guard.\<close>

definition current_row :: "batch_row \<Rightarrow> outbox \<Rightarrow> batch_row" where
  "current_row row st = (case rp_row (ob_repo st) of None \<Rightarrow> row | Some r \<Rightarrow> r)"

text \<open>\<open>insert\<close> raised: the attempt is counted; a staged entry created by this call shares the row.\<close>

definition insert_failed :: "string \<Rightarrow> batch_row \<Rightarrow> bool \<Rightarrow> outbox \<Rightarrow> outbox" where
  "insert_failed key row fresh st =
     (let os = (if fresh then (case dget (os_staged (ob_session st)) key of None \<Rightarrow> ob_session st
                  | Some e \<Rightarrow> (ob_session st)\<lparr>os_staged := dset key (e\<lparr>b_row := current_row row st\<rparr>) (os_staged (ob_session st))\<rparr>)
                else ob_session st)
      in st\<lparr>ob_session := rejected_attempt os\<rparr>)"

definition inserted :: "outbox_env \<Rightarrow> string \<Rightarrow> BatchState \<Rightarrow> batch_row \<Rightarrow> outbox \<Rightarrow> outbox" where
  "inserted env key e row st =
     (let e = e\<lparr>b_row := current_row row st\<rparr>;
          os = (ob_session st)\<lparr>os_next_order := r_local_order row + 1\<rparr>;
          os = put_entry key e (os\<lparr>os_staged := ddel key (os_staged os)\<rparr>);
          os = account (committed_acct (oe_acct env) e) os
      in st\<lparr>ob_session := emit_fact env ''committed'' key e [] os\<rparr>)"

definition insert_staged :: "outbox_env \<Rightarrow> string \<Rightarrow> string \<Rightarrow> BatchState \<Rightarrow> bool \<Rightarrow> batch_row \<Rightarrow> (TimeToken option \<times> purpose) option \<Rightarrow> (bool, outbox) prog" where
  "insert_staged env key raw e fresh row g st =
     (case with_guard g (on_repo (insert_batch (oe_sql env) (oe_time env) row raw)) st of
        (Inl x, st) \<Rightarrow> (Inl x, insert_failed key row fresh st)
      | (Inr _, st) \<Rightarrow> (Inr True, inserted env key e row st))"

definition over_quota :: "nat \<Rightarrow> outbox \<Rightarrow> bool" where
  "over_quota sz st \<longleftrightarrow> length (entries st) \<ge> ob_max_batches st
     \<or> sum_list (map (r_size \<circ> b_row) (dvals (entries st))) + sz > ob_max_bytes st"

definition enqueue_new :: "outbox_env \<Rightarrow> string \<Rightarrow> wire \<Rightarrow> rat option \<Rightarrow> association option \<Rightarrow> TimeToken option \<Rightarrow> TimeSnapshot option \<Rightarrow> (bool, outbox) prog" where
  "enqueue_new env raw w now assoc tok current st =
     (if over_quota (length raw) st
      then sbind (upd_session (rejected_attempt \<circ> add_fact f_enqueue_rejected_attempts 1)) (\<lambda>_.
           sbind (on_repo (count_attempt (oe_sql env) True)) (\<lambda>_. sret False)) st
      else let order = db_next_order (rp_db (ob_repo st)) in
           if \<not> (1 \<le> order \<and> order < MAX_SAFE) then (Inl (StoreFormatError ''Outbox local order exhausted''), st)
           else let row = new_row env raw w now order current;
                    events = (case assoc of None \<Rightarrow> [] | Some a \<Rightarrow> av_events a);
                    boot = (case assoc of None \<Rightarrow> None | Some a \<Rightarrow> av_capture_boot a)
                in case stage env (w_message_id w) row events boot (new_category events (os_watermark (ob_session st))) (ob_session st) of
                     (None, os) \<Rightarrow> (Inr False, st\<lparr>ob_session := rejected_attempt os\<rparr>)
                   | (Some (e, fresh), os) \<Rightarrow>
                       insert_staged env (w_message_id w) raw e fresh row (map_option (\<lambda>_. (tok, ENQUEUE)) current) (st\<lparr>ob_session := os\<rparr>))"

definition enqueue :: "outbox_env \<Rightarrow> string \<Rightarrow> rat option \<Rightarrow> association option \<Rightarrow> TimeToken option \<Rightarrow> (bool, outbox) prog" where
  "enqueue env raw now assoc tok =
     sbind (ask (require_time (oe_time env) tok ENQUEUE)) (\<lambda>current st.
       case oe_data env (ob_gateway st) raw of
         None \<Rightarrow> (Inl (ValueError ''Invalid telemetry batch''), st)
       | Some w \<Rightarrow>
          (if w_message_id w \<in> set (dkeys (entries st))
           then (if stored_payload (rp_db (ob_repo st)) (w_message_id w) \<noteq> Some raw
                 then (Inl (ValueError ''Batch identity conflict''), st) else (Inr True, st))
           else sbind (expire_outbox env) (\<lambda>_. enqueue_new env raw w now assoc tok current) st))"

section \<open>Reserve\<close>

fun drop_old_rate :: "rat \<Rightarrow> (rat \<times> nat) list \<Rightarrow> (rat \<times> nat) list" where
  "drop_old_rate mono_now [] = []"
| "drop_old_rate mono_now ((t, n) # rate) = (if mono_now - t \<ge> 1 then drop_old_rate mono_now rate else (t, n) # rate)"

definition deactivate_due :: "rat \<Rightarrow> (string, BatchState) dict \<Rightarrow> (string, BatchState) dict" where
  "deactivate_due mono_now d = map (\<lambda>(k, e). (k, if b_active e \<and> mono_now \<ge> b_due e then e\<lparr>b_active := False\<rparr> else e)) d"

definition sendable :: "rat \<Rightarrow> BatchState \<Rightarrow> bool" where
  "sendable mono_now e \<longleftrightarrow> r_state (b_row e) = PENDING \<and> \<not> b_active e \<and> b_due e \<le> mono_now"

text \<open>A batch from another time basis, or one from the future, waits for maintenance.\<close>

definition held_back :: "TimeSnapshot \<Rightarrow> batch_row \<Rightarrow> bool res" where
  "held_back s row =
     (if r_time_trust row = HUB_TRUSTED \<and> r_time_basis_ref row \<noteq> ts_time_basis_ref s then Inr True
      else case (ts_utc_ms s, ts_uncertainty_ms s) of
             (Some u, Some e) \<Rightarrow> Inr (r_wire_timestamp row > u + e + 300000) | _ \<Rightarrow> Inl TypeError)"

definition platform_time :: "outbox \<Rightarrow> bool" where
  "platform_time st = (case rp_time (ob_repo st) of None \<Rightarrow> False | Some p \<Rightarrow> tp_platform p)"

text \<open>The loop that fills \<open>eligible\<close>, both categories in one list.\<close>

fun eligible :: "outbox_env \<Rightarrow> TimeToken option \<Rightarrow> rat \<Rightarrow> BatchState list \<Rightarrow> (BatchState list, outbox) prog" where
  "eligible env tok mono_now [] st = (Inr [], st)"
| "eligible env tok mono_now (e # es) st =
     (if \<not> sendable mono_now e then eligible env tok mono_now es st
      else sbind (if platform_time st then ask (require_time (oe_time env) tok SEND) else sret None) (\<lambda>current st.
             case (case current of None \<Rightarrow> Inr False | Some s \<Rightarrow> held_back s (b_row e)) of
               Inl x \<Rightarrow> (Inl x, st)
             | Inr True \<Rightarrow> eligible env tok mono_now es st
             | Inr False \<Rightarrow> sbind (eligible env tok mono_now es) (\<lambda>r. sret (e # r)) st) st)"

definition choices :: "category \<Rightarrow> BatchState list \<Rightarrow> BatchState list \<Rightarrow> BatchState list" where
  "choices c active es =
     (if length (filter (\<lambda>e. b_category e = c) active) \<ge> 7 then [] else filter (\<lambda>e. b_category e = c) es)"

fun other_category :: "category \<Rightarrow> category" where
  "other_category New = History"
| "other_category History = New"

fun category_name :: "category \<Rightarrow> string" where
  "category_name New = ''new''"
| "category_name History = ''history''"

definition choose_category :: "bool \<Rightarrow> BatchState list \<Rightarrow> BatchState list \<Rightarrow> category" where
  "choose_category prefer_new active es =
     (let c = (if prefer_new then New else History) in if choices c active es = [] then other_category c else c)"

fun first_order :: "BatchState list \<Rightarrow> BatchState \<Rightarrow> BatchState" where
  "first_order [] e = e"
| "first_order (d # ds) e = first_order ds (if r_local_order (b_row d) < r_local_order (b_row e) then d else e)"

definition corrupt :: "outbox_env \<Rightarrow> outbox \<Rightarrow> BatchState \<Rightarrow> bool" where
  "corrupt env st e =
     (case stored_payload (rp_db (ob_repo st)) (r_message_id (b_row e)) of None \<Rightarrow> True
      | Some raw \<Rightarrow> oe_sha256 env raw \<noteq> r_hash (b_row e) \<or> oe_data env (ob_gateway st) raw = None)"

definition sent_entry :: "nat \<Rightarrow> rat \<Rightarrow> BatchState \<Rightarrow> BatchState" where
  "sent_entry attempts mono_now e =
     e\<lparr>b_row := (b_row e)\<lparr>r_attempts := attempts\<rparr>, b_previous_sent := b_ever_sent e,
       b_due := mono_now + (if attempts = 1 then 30 else 60), b_active := True, b_ever_sent := True\<rparr>"

definition sent_session :: "outbox_env \<Rightarrow> string \<Rightarrow> BatchState \<Rightarrow> category \<Rightarrow> nat \<Rightarrow> nat \<Rightarrow> rat \<Rightarrow> OutboxSession \<Rightarrow> OutboxSession" where
  "sent_session env key e c attempts sz mono_now os =
     (let e = sent_entry attempts mono_now e;
          os = (put_entry key e os)\<lparr>os_next_send := mono_now + 1 / 4, os_rate := os_rate os @ [(mono_now, sz)], os_prefer_new := c \<noteq> New\<rparr>
      in emit_fact env ''reserved'' key e [(''attempt'', AInt (int attempts)), (''category'', AStr (category_name c))] os)"

definition reserve_entry :: "outbox_env \<Rightarrow> TimeToken option \<Rightarrow> category \<Rightarrow> BatchState \<Rightarrow> (string option, outbox) prog" where
  "reserve_entry env tok c e st =
     (let key = r_message_id (b_row e)
      in if corrupt env st e
         then (Inl (StoreFormatError ''Stored telemetry batch is corrupt''),
               st\<lparr>ob_session := account (incomplete False False) ((ob_session st)\<lparr>os_accounting_complete := False\<rparr>)\<rparr>)
         else let raw = the (stored_payload (rp_db (ob_repo st)) key)
              in if sum_list (map snd (os_rate (ob_session st))) + length raw > 512 * 1024 then (Inr None, st)
                 else let attempts = min (r_attempts (b_row e) + 1) MAX_SAFE
                      in sbind (with_guard (if rp_time (ob_repo st) = None then None else Some (tok, SEND))
                                  (on_repo (update_batch (oe_sql env) (oe_time env) key [SetAttempts attempts, SetNextDue 0]))) (\<lambda>_.
                         sbind (read_clock env) (\<lambda>mono_now.
                         sbind (upd_session (sent_session env key e c attempts (length raw) mono_now)) (\<lambda>_. sret (Some raw)))) st)"

definition reserve_pick :: "outbox_env \<Rightarrow> TimeToken option \<Rightarrow> rat \<Rightarrow> (string option, outbox) prog" where
  "reserve_pick env tok mono_now st =
     (let es = dvals (entries st); active = filter b_active es
      in if length active \<ge> 8 then (Inr None, st)
         else sbind (eligible env tok mono_now es) (\<lambda>found st.
           (let c = choose_category (os_prefer_new (ob_session st)) active found
            in case choices c active found of [] \<Rightarrow> (Inr None, st)
               | e # es \<Rightarrow> reserve_entry env tok c (first_order es e) st)) st)"

definition reserve :: "outbox_env \<Rightarrow> TimeToken option \<Rightarrow> (string option, outbox) prog" where
  "reserve env tok =
     sbind (ask (require_time (oe_time env) tok SEND)) (\<lambda>_.
     sbind (read_clock env) (\<lambda>mono_now.
     sbind (expire_outbox env) (\<lambda>_.
     sbind (upd_session (\<lambda>os. os\<lparr>os_rate := drop_old_rate mono_now (os_rate os)\<rparr>)) (\<lambda>_ st.
       if mono_now < os_next_send (ob_session st) \<or> length (os_rate (ob_session st)) \<ge> 4 then (Inr None, st)
       else sbind (upd_session (\<lambda>os. os\<lparr>os_entries := deactivate_due mono_now (os_entries os)\<rparr>)) (\<lambda>_. reserve_pick env tok mono_now) st))))"

section \<open>Outcomes\<close>

definition submission_failed :: "outbox_env \<Rightarrow> string \<Rightarrow> (unit, outbox) prog" where
  "submission_failed env key = upd_session (\<lambda>os.
     case dget (os_entries os) key of None \<Rightarrow> os
     | Some e \<Rightarrow> (if r_state (b_row e) = PENDING
         then let e = e\<lparr>b_ever_sent := b_previous_sent e, b_active := False\<rparr>
              in emit_fact env ''sdk_rejected'' key e [] (put_entry key e os)
         else os))"

definition stored_session :: "outbox_env \<Rightarrow> string \<Rightarrow> BatchState \<Rightarrow> OutboxSession \<Rightarrow> OutboxSession" where
  "stored_session env key e os =
     (let late = (b_source e = Some AGE_EXPIRED); n = length (b_events e);
          os = add_fact f_stored n (account (removed (oe_acct env) e True False) os);
          os = (if late then add_fact f_late_stored n os else os);
          os = emit_fact env ''stored'' key e [(''late'', ABool late)] os
      in os\<lparr>os_entries := ddel key (os_entries os)\<rparr>)"

definition RETRYABLE :: "string set" where
  "RETRYABLE = {''UNKNOWN_CONFIG_VERSION'', ''RESOURCE_LIMIT'', ''STORAGE_ERROR''}"

text \<open>\<^verbatim>\<open>list(dict.fromkeys(...))\<close>: the first occurrences, in order.\<close>

fun first_occurrences :: "'a list \<Rightarrow> 'a list" where
  "first_occurrences [] = []"
| "first_occurrences (x # xs) = x # filter (\<lambda>y. y \<noteq> x) (first_occurrences xs)"

definition ack_rejected :: "outbox_env \<Rightarrow> string \<Rightarrow> BatchState \<Rightarrow> string list \<Rightarrow> (bool, outbox) prog" where
  "ack_rejected env key e codes =
     (if codes \<noteq> [] \<and> set codes \<subseteq> RETRYABLE
      then sbind (read_clock env) (\<lambda>mono_now.
           sbind (upd_session (\<lambda>os. let e = e\<lparr>b_due := mono_now + 60, b_active := False\<rparr>
             in emit_fact env ''retryable_reject'' key e [] (put_entry key e os))) (\<lambda>_. sret True))
      else sbind (terminal env key (join_commas codes) PERMANENT_REJECT) (\<lambda>_. sret True))"

definition ack_stored :: "outbox_env \<Rightarrow> string \<Rightarrow> BatchState \<Rightarrow> (bool, outbox) prog" where
  "ack_stored env key e =
     (if r_state (b_row e) = DEAD \<and> (b_source e \<noteq> Some AGE_EXPIRED \<or> \<not> b_ever_sent e)
      then sbind (upd_session (\<lambda>os. emit_fact env ''conflict'' key e [] (add_fact f_conflicting_acks 1 os))) (\<lambda>_. sret False)
      else sbind (on_repo (delete_batch (oe_sql env) key)) (\<lambda>_.
           sbind (upd_session (stored_session env key e)) (\<lambda>_. sret True)))"

definition acknowledge :: "outbox_env \<Rightarrow> string \<Rightarrow> (bool, outbox) prog" where
  "acknowledge env payload st =
     (case oe_ack env (ob_gateway st) payload of None \<Rightarrow> (Inr False, st)
      | Some a \<Rightarrow>
         (case dget (entries st) (ak_message_id a) of
            None \<Rightarrow> sbind (upd_session (add_fact f_unknown_acks 1)) (\<lambda>_. sret False) st
          | Some e \<Rightarrow>
             (if r_attempts (b_row e) = 0 then sbind (upd_session (add_fact f_unknown_acks 1)) (\<lambda>_. sret False) st
              else case stored_payload (rp_db (ob_repo st)) (ak_message_id a) of
                None \<Rightarrow> (Inl (StoreFormatError ''Stored ACK association is corrupt''), st)
              | Some raw \<Rightarrow>
                 (if oe_sha256 env raw \<noteq> r_hash (b_row e) \<or> oe_data env (ob_gateway st) raw = None
                  then (Inl (StoreFormatError ''Stored ACK association is corrupt''), st)
                  else if ak_stored a then ack_stored env (ak_message_id a) e st
                  else if r_state (b_row e) = DEAD then (Inr False, st)
                  else ack_rejected env (ak_message_id a) e (first_occurrences (ak_codes a)) st))))"

record outbox_stats =
  st_pending :: nat
  st_dead :: nat
  st_payload_bytes :: nat
  st_age_unknown_batches :: nat
  st_maintenance_batches :: nat
  st_dropped :: nat
  st_dead_pruned :: nat

definition needs_maintenance :: "TimeSnapshot option \<Rightarrow> BatchState \<Rightarrow> bool" where
  "needs_maintenance current e =
     (r_state (b_row e) = PENDING \<and> (case current of None \<Rightarrow> False
        | Some s \<Rightarrow> ts_time_valid s \<and> held_back s (b_row e) = Inr True))"

definition age_unknown :: "TimeSnapshot option \<Rightarrow> BatchState \<Rightarrow> bool" where
  "age_unknown current e =
     (case current of None \<Rightarrow> True | Some s \<Rightarrow> \<not> ts_time_valid s \<or> \<not> comparable s (b_row e))"

definition stats :: "outbox_env \<Rightarrow> (outbox_stats, outbox) prog" where
  "stats env = sbind (ask (snapshot (oe_time env))) (\<lambda>current st.
     (let es = dvals (entries st); d = rp_db (ob_repo st)
      in (Inr \<lparr>st_pending = length (filter (\<lambda>e. r_state (b_row e) = PENDING) es), st_dead = length (filter (\<lambda>e. r_state (b_row e) = DEAD) es),
            st_payload_bytes = sum_list (map (r_size \<circ> b_row) es), st_age_unknown_batches = length (filter (age_unknown current) es),
            st_maintenance_batches = length (filter (needs_maintenance current) es), st_dropped = db_dropped d, st_dead_pruned = db_dead_pruned d\<rparr>, st)))"

definition time_boundary :: "outbox \<Rightarrow> string option \<times> int option" where
  "time_boundary st = (db_trusted_basis (rp_db (ob_repo st)), db_trusted_high (rp_db (ob_repo st)))"

end
