(* ===== verification/OutboxInv.thy ===== *)
theory OutboxInv
  imports Outbox PlatformTimeInv "HOL-Library.Multiset"
begin

text \<open>
  Correctness of the Outbox. An abstract outbox is a map from message id to what matters of a batch
  (\<open>abatch\<close>), with five transitions (\<open>abox_step\<close>): a batch is inserted, attempted, killed,
  confirmed or pruned. The session and the database both have a view as such a map; the invariant
  \<open>ob_ok\<close> says that the two views are equal, that the stored bytes are those the hash and the
  contract vouch for, that the local orders are distinct and that the quotas hold. Every operation of
  the store keeps the invariant and refines a sequence of abstract transitions, also when
  SQLite, the disk or the clock fails in the middle.
\<close>

section \<open>The abstract outbox\<close>

record abatch =
  a_id :: string
  a_hash :: string
  a_attempts :: nat
  a_state :: batch_state
  a_order :: nat
  a_size :: nat
  a_source :: "terminal_source option"

type_synonym abox = "string \<Rightarrow> abatch option"

inductive abox_step :: "abox \<Rightarrow> abox \<Rightarrow> bool" where
  ab_insert: "m k = None \<Longrightarrow> a_id a = k \<Longrightarrow> a_attempts a = 0 \<Longrightarrow> a_state a = PENDING \<Longrightarrow> a_source a = None
    \<Longrightarrow> (\<And>k' b. m k' = Some b \<Longrightarrow> a_order b < a_order a) \<Longrightarrow> abox_step m (m(k \<mapsto> a))"
| ab_attempt: "m k = Some a \<Longrightarrow> a_state a = PENDING \<Longrightarrow> abox_step m (m(k \<mapsto> a\<lparr>a_attempts := min (a_attempts a + 1) MAX_SAFE\<rparr>))"
| ab_kill: "m k = Some a \<Longrightarrow> a_state a = PENDING \<Longrightarrow> abox_step m (m(k \<mapsto> a\<lparr>a_state := DEAD, a_source := Some src\<rparr>))"
| ab_stored: "m k = Some a \<Longrightarrow> 0 < a_attempts a \<Longrightarrow> a_state a = PENDING \<or> a_source a = Some AGE_EXPIRED \<Longrightarrow> abox_step m (m(k := None))"
| ab_prune: "m k = Some a \<Longrightarrow> a_state a = DEAD \<Longrightarrow> abox_step m (m(k := None))"

definition core :: "batch_row \<Rightarrow> terminal_source option \<Rightarrow> abatch" where
  "core r src = \<lparr>a_id = r_message_id r, a_hash = r_hash r, a_attempts = r_attempts r, a_state = r_state r, a_order = r_local_order r,
     a_size = r_size r, a_source = src\<rparr>"

definition entry_core :: "BatchState \<Rightarrow> abatch" where
  "entry_core e = core (b_row e) (b_source e)"

lemma entry_core_sel [simp]:
  "a_id (entry_core e) = r_message_id (b_row e)" "a_hash (entry_core e) = r_hash (b_row e)" "a_attempts (entry_core e) = r_attempts (b_row e)"
  "a_state (entry_core e) = r_state (b_row e)" "a_order (entry_core e) = r_local_order (b_row e)" "a_size (entry_core e) = r_size (b_row e)"
  "a_source (entry_core e) = b_source e"
  by (simp_all add: entry_core_def core_def)

definition stored_core :: "batch_row \<times> string \<Rightarrow> abatch" where
  "stored_core p = core ((fst p)\<lparr>r_size := length (snd p)\<rparr>) (r_terminal_source (fst p))"

definition view :: "(string, BatchState) dict \<Rightarrow> abox" where
  "view d k = map_option entry_core (dget d k)"

definition dview :: "batch_db \<Rightarrow> abox" where
  "dview d k = map_option stored_core (dget (db_batches d) k)"

definition quota_ok :: "nat \<Rightarrow> nat \<Rightarrow> nat \<Rightarrow> abox \<Rightarrow> bool" where
  "quota_ok max_batches max_bytes max_dead m \<longleftrightarrow> finite (dom m) \<and> card (dom m) \<le> max_batches
     \<and> (\<Sum>k\<in>dom m. a_size (the (m k))) \<le> max_bytes \<and> card {k. \<exists>a. m k = Some a \<and> a_state a = DEAD} \<le> max_dead"

definition order_ok :: "nat \<Rightarrow> abox \<Rightarrow> bool" where
  "order_ok n m \<longleftrightarrow> (\<forall>k a. m k = Some a \<longrightarrow> a_id a = k \<and> a_order a < n \<and> (a_state a = PENDING \<longrightarrow> a_source a = None)
     \<and> (\<forall>k' b. m k' = Some b \<longrightarrow> a_order b = a_order a \<longrightarrow> k' = k))"

definition payload_ok :: "outbox_env \<Rightarrow> string \<Rightarrow> string \<Rightarrow> batch_row \<times> string \<Rightarrow> bool" where
  "payload_ok env gateway k p \<longleftrightarrow> r_message_id (fst p) = k \<and> oe_sha256 env (snd p) = r_hash (fst p)
     \<and> (\<exists>w. oe_data env gateway (snd p) = Some w \<and> w_message_id w = k)"

definition active_keys :: "(string, BatchState) dict \<Rightarrow> string set" where
  "active_keys d = {k. \<exists>e. dget d k = Some e \<and> b_active e}"

definition ob_ok :: "outbox_env \<Rightarrow> outbox \<Rightarrow> bool" where
  "ob_ok env st \<longleftrightarrow> dwf (entries st) \<and> dwf (db_batches (rp_db (ob_repo st)))
     \<and> view (entries st) = dview (rp_db (ob_repo st))
     \<and> (\<forall>k p. dget (db_batches (rp_db (ob_repo st))) k = Some p \<longrightarrow> payload_ok env (ob_gateway st) k p)
     \<and> quota_ok (ob_max_batches st) (ob_max_bytes st) (ob_max_dead st) (view (entries st))
     \<and> order_ok (db_next_order (rp_db (ob_repo st))) (view (entries st))
     \<and> card (active_keys (entries st)) \<le> 8
     \<and> (\<forall>k e. dget (os_staged (ob_session st)) k = Some e \<longrightarrow> b_source e = None \<and> \<not> b_active e)
     \<and> length (os_rate (ob_session st)) \<le> 4 \<and> sum_list (map snd (os_rate (ob_session st))) \<le> 512 * 1024"

text \<open>The invariant together with a run of the abstract outbox that started at \<open>m\<close>.\<close>

definition tracks_box :: "outbox_env \<Rightarrow> abox \<Rightarrow> outbox \<Rightarrow> bool" where
  "tracks_box env m st \<longleftrightarrow> ob_ok env st \<and> abox_step\<^sup>*\<^sup>* m (view (entries st))"

lemma ob_ok_mirror: "ob_ok env st \<Longrightarrow> view (entries st) = dview (rp_db (ob_repo st))"
  by (simp add: ob_ok_def)

section \<open>Views of updated tables\<close>

lemma view_dset [simp]: "view (dset k e d) = (view d)(k \<mapsto> entry_core e)"
  by (auto simp: view_def fun_eq_iff)

lemma view_ddel [simp]: "view (ddel k d) = (view d)(k := None)"
  by (auto simp: view_def fun_eq_iff)

lemma view_same: "(\<And>k. map_option entry_core (dget d' k) = map_option entry_core (dget d k)) \<Longrightarrow> view d' = view d"
  by (simp add: view_def fun_eq_iff)

lemma dview_delete_row [simp]: "dview (delete_row k d) = (dview d)(k := None)"
  by (auto simp: dview_def delete_row_def fun_eq_iff)

lemma dview_change_row: "dview (change_row k f d) = (case dget (db_batches d) k of None \<Rightarrow> dview d
    | Some (row, raw) \<Rightarrow> (dview d)(k \<mapsto> stored_core (f row, raw)))"
  by (auto simp: dview_def change_row_def fun_eq_iff split: option.split)

lemma dwf_change_row [simp]: "dwf (db_batches d) \<Longrightarrow> dwf (db_batches (change_row k f d))"
  by (auto simp: change_row_def split: option.splits)

lemma dwf_delete_row [simp]: "dwf (db_batches d) \<Longrightarrow> dwf (db_batches (delete_row k d))"
  by (simp add: delete_row_def)

lemma delete_row_get: "dget (db_batches (delete_row k d)) k' = (if k' = k then None else dget (db_batches d) k')"
  by (simp add: delete_row_def)

lemma delete_row_frame [simp]: "db_next_order (delete_row k d) = db_next_order d"
  by (simp add: delete_row_def)

lemma fold_delete_row: "dview (fold delete_row ks d) = (dview d) |` (- set ks)"
  "dwf (db_batches d) \<Longrightarrow> dwf (db_batches (fold delete_row ks d))"
  "db_next_order (fold delete_row ks d) = db_next_order d"
  "dget (db_batches (fold delete_row ks d)) k = (if k \<in> set ks then None else dget (db_batches d) k)"
  by (induction ks arbitrary: d) (auto simp: fun_eq_iff restrict_map_def delete_row_get)

lemma count_pruned_frame [simp]: "dview (count_pruned n d) = dview d" "db_batches (count_pruned n d) = db_batches d"
  "db_next_order (count_pruned n d) = db_next_order d"
  by (simp_all add: count_pruned_def dview_def fun_eq_iff)

lemma change_row_frame [simp]: "db_next_order (change_row k f d) = db_next_order d"
  by (simp add: change_row_def split: option.split)

section \<open>What a database operation does\<close>

text \<open>A repository program that leaves the tables alone when it raises and otherwise applies \<open>f\<close>.\<close>

definition effect :: "(batch_db \<Rightarrow> batch_db \<Rightarrow> bool) \<Rightarrow> ('a, repo) prog \<Rightarrow> bool" where
  "effect R m \<longleftrightarrow> (\<forall>s x t. (m s = (Inl x, t) \<longrightarrow> rp_db t = rp_db s)) \<and> (\<forall>s x t. m s = (Inr x, t) \<longrightarrow> R (rp_db s) (rp_db t))"

lemma effectI:
  assumes "\<And>s x t. m s = (Inl x, t) \<Longrightarrow> rp_db t = rp_db s" "\<And>s x t. m s = (Inr x, t) \<Longrightarrow> R (rp_db s) (rp_db t)"
  shows "effect R m"
  using assms unfolding effect_def by blast

lemma effect_Inl: "effect R m \<Longrightarrow> m s = (Inl x, t) \<Longrightarrow> rp_db t = rp_db s"
  unfolding effect_def by blast

lemma effect_Inr: "effect R m \<Longrightarrow> m s = (Inr x, t) \<Longrightarrow> R (rp_db s) (rp_db t)"
  unfolding effect_def by blast

lemma storage_guard_db: "storage_guard env s = (r, t) \<Longrightarrow> rp_db t = rp_db s \<and> rp_row t = rp_row s"
  by (auto simp: storage_guard_def Let_def split: if_splits)

lemma effect_storage_guard:
  assumes "effect R m"
  shows "effect R (sbind (storage_guard env) (\<lambda>_. m))"
proof (rule effectI)
  fix s x t
  obtain r u where g: "storage_guard env s = (r, u)" by fastforce
  note u = storage_guard_db [OF g]
  show "rp_db t = rp_db s" if "sbind (storage_guard env) (\<lambda>_. m) s = (Inl x, t)"
    using that g u effect_Inl [OF assms, of u x t] by (cases r) (auto simp: sbind_def)
  show "R (rp_db s) (rp_db t)" if "sbind (storage_guard env) (\<lambda>_. m) s = (Inr y, t)" for y
    using that g u effect_Inr [OF assms, of u y t] by (cases r) (auto simp: sbind_def)
qed

lemma ask_time_db: "ask_time f s = (r, t) \<Longrightarrow> rp_db t = rp_db s"
  by (auto simp: ask_time_def split: option.splits prod.splits sum.splits)

lemma commit_guard_db: "commit_guard te s = (r, t) \<Longrightarrow> rp_db t = rp_db s"
  by (auto simp: commit_guard_def split: option.splits prod.splits dest: ask_time_db)

lemma effect_transaction:
  assumes "\<And>s d x t. body (rp_db s) = Inr d \<Longrightarrow> guard d s = (x, t) \<Longrightarrow> rp_db t = rp_db s"
    and "\<And>s d d' t. body (rp_db s) = Inr d \<Longrightarrow> guard d s = (Inr d', t) \<Longrightarrow> R (rp_db s) d'"
  shows "effect R (transaction env body guard)"
  by (rule effectI) (auto simp: transaction_def sbind_def split: sum.splits prod.splits if_splits dest: assms)

lemma guarded_db: "guarded te d s = (r, t) \<Longrightarrow> rp_db t = rp_db s" "guarded te d s = (Inr d', t) \<Longrightarrow> d' = d"
  by (auto simp: guarded_def sbind_def split: prod.splits sum.splits dest: commit_guard_db)

lemma effect_update: "effect (\<lambda>d d'. d' = change_row key (fold set_field flds) d) (update_batch env te key flds)"
  unfolding update_batch_def by (intro effect_storage_guard effect_transaction) (auto dest: guarded_db)

lemma effect_delete: "effect (\<lambda>d d'. d' = delete_row key d) (delete_batch env key)"
  unfolding delete_batch_def by (intro effect_storage_guard effect_transaction) auto

lemma effect_prune: "effect (\<lambda>d d'. d' = count_pruned 1 (delete_row key d)) (prune_batch env key)"
  unfolding prune_batch_def by (intro effect_storage_guard effect_transaction) auto

lemma effect_terminal: "effect (\<lambda>d d'. d' = terminal_rows key reason pruned src d) (terminal_with_source env te key reason pruned src)"
  unfolding terminal_with_source_def by (intro effect_storage_guard effect_transaction) (auto dest: guarded_db)

lemma effect_count: "effect (\<lambda>d d'. db_batches d' = db_batches d \<and> db_next_order d' = db_next_order d) (count_attempt env b)"
  unfolding count_attempt_def by (intro effect_storage_guard effect_transaction) (auto simp: count_pruned_def)

lemma effect_ask: "effect (\<lambda>d d'. d' = d) (ask_time f)"
  by (rule effectI) (auto dest: ask_time_db)

text \<open>Inserting stores the row and its bytes; the guard may stamp the enqueue time, which the view does not show.\<close>

definition stamped :: "batch_row \<Rightarrow> batch_row \<Rightarrow> bool" where
  "stamped row row' \<longleftrightarrow> (\<exists>u e. row' = row\<lparr>r_enqueued_utc_ms := u, r_uncertainty_ms := e\<rparr>)"

lemma stamped_refl: "stamped row row"
  unfolding stamped_def by (rule exI [of _ "r_enqueued_utc_ms row"], rule exI [of _ "r_uncertainty_ms row"]) simp

definition as_inserted :: "batch_row \<Rightarrow> batch_row" where
  "as_inserted row = row\<lparr>r_attempts := 0, r_next_due := 0, r_state := PENDING, r_reason := None, r_terminal_source := None\<rparr>"

lemma as_inserted_stamp: "as_inserted (r\<lparr>r_enqueued_utc_ms := u, r_uncertainty_ms := e\<rparr>) = (as_inserted r)\<lparr>r_enqueued_utc_ms := u, r_uncertainty_ms := e\<rparr>"
  by (cases r) (simp add: as_inserted_def)

lemma change_row_inserted: "db_batches d' = dset k (row, raw) d \<Longrightarrow> db_batches (change_row k f d') = dset k (f row, raw) d"
  by (simp add: change_row_def)

lemma remember_time_frame: "remember_time row d = Inr d' \<Longrightarrow> db_batches d' = db_batches d \<and> db_next_order d' = db_next_order d"
  by (auto simp: remember_time_def Let_def split: if_splits option.splits)

lemma insert_row_Inr:
  "insert_row row raw d = Inr d' \<Longrightarrow> r_message_id row \<notin> fst ` set (db_batches d)
    \<and> db_batches d' = dset (r_message_id row) (as_inserted row, raw) (db_batches d) \<and> db_next_order d' = r_local_order row + 1"
  by (auto simp: insert_row_def as_inserted_def split: if_splits)

lemma accepted_Inr:
  assumes "accepted te row d s = (Inr d', t)" "db_batches d = dset (r_message_id row) (as_inserted row, raw) b" "rp_row s = Some row"
  shows "\<exists>row'. stamped row row' \<and> rp_row t = Some row' \<and> db_batches d' = dset (r_message_id row) (as_inserted row', raw) b
    \<and> db_next_order d' = db_next_order d"
proof -
  obtain c u where c: "commit_guard te s = (Inr c, u)" using assms(1) by (auto simp: accepted_def res_simps)
  have u: "rp_row u = rp_row s"
    using c by (auto simp: commit_guard_def ask_time_def split: option.splits prod.splits sum.splits)
  show ?thesis
  proof (cases "\<exists>x. c = Some x \<and> r_time_trust row = HUB_TRUSTED")
    case False
    with assms c u have "d' = d" "rp_row t = Some row" by (auto simp: accepted_def split: option.splits if_splits)
    with assms(2) stamped_refl [of row] show ?thesis by auto
  next
    case True
    then obtain x where x: "c = Some x" "r_time_trust row = HUB_TRUSTED" by blast
    let ?f = "\<lambda>r. r\<lparr>r_enqueued_utc_ms := ts_utc_ms x, r_uncertainty_ms := ts_uncertainty_ms x\<rparr>"
    have r: "remember_time (?f row) (change_row (r_message_id row) ?f d) = Inr d'" "rp_row t = Some (?f row)"
      using assms(1) c x by (auto simp: accepted_def Let_def)
    have "stamped row (?f row)" unfolding stamped_def by blast
    moreover have "db_batches d' = dset (r_message_id row) (as_inserted (?f row), raw) b" "db_next_order d' = db_next_order d"
      using remember_time_frame [OF r(1)] change_row_inserted [OF assms(2), of ?f] by (simp_all add: as_inserted_stamp)
    ultimately show ?thesis using r(2) by blast
  qed
qed

lemma accepted_db: "accepted te row d s = (r, t) \<Longrightarrow> rp_db t = rp_db s"
  by (auto simp: accepted_def sbind_def Let_def split: prod.splits sum.splits option.splits if_splits dest!: commit_guard_db)

lemma insert_batch_Inl: "insert_batch env te row raw s = (Inl x, t) \<Longrightarrow> rp_db t = rp_db s"
  by (auto simp: insert_batch_def transaction_def sbind_def split: prod.splits sum.splits if_splits dest!: storage_guard_db accepted_db)

lemma insert_batch_Inr:
  assumes "insert_batch env te row raw s = (Inr x, t)"
  shows "\<exists>row'. stamped row row' \<and> rp_row t = Some row' \<and> r_message_id row \<notin> fst ` set (db_batches (rp_db s))
    \<and> db_batches (rp_db t) = dset (r_message_id row) (as_inserted row', raw) (db_batches (rp_db s))
    \<and> db_next_order (rp_db t) = r_local_order row + 1"
proof -
  obtain s1 where g: "storage_guard env (s\<lparr>rp_row := Some row\<rparr>) = (Inr (), s1)"
    and tr: "transaction env (insert_row row raw) (accepted te row) s1 = (Inr x, t)"
    using assms by (auto simp: insert_batch_def res_simps)
  have s1: "rp_db s1 = rp_db s" "rp_row s1 = Some row" using storage_guard_db [OF g] by simp_all
  obtain d d' u where d: "insert_row row raw (rp_db s1) = Inr d" "accepted te row d s1 = (Inr d', u)"
    and t: "rp_db t = d'" "rp_row t = rp_row u"
    using tr by (auto simp: transaction_def res_simps split: sum.splits if_splits)
  note i = insert_row_Inr [OF d(1)]
  from accepted_Inr [OF d(2) conjunct1 [OF conjunct2 [OF i]] s1(2)] obtain row' where
    "stamped row row'" "rp_row u = Some row'" "db_batches d' = dset (r_message_id row) (as_inserted row', raw) (db_batches (rp_db s1))"
    "db_next_order d' = db_next_order d" by blast
  then show ?thesis using t i s1 by auto
qed

section \<open>Frames of the lifted programs\<close>

lemma on_repo_Inl: 
  assumes "effect R m" "on_repo m st = (Inl x, t)"
  shows "\<exists>rp. t = st\<lparr>ob_repo := rp\<rparr> \<and> rp_db rp = rp_db (ob_repo st)"
  using assms(2) effect_Inl [OF assms(1)] unfolding on_repo_def by (fastforce split: prod.splits)

lemma on_repo_Inr: 
  assumes "effect R m" "on_repo m st = (Inr x, t)"
  shows "\<exists>rp. t = st\<lparr>ob_repo := rp\<rparr> \<and> R (rp_db (ob_repo st)) (rp_db rp)"
  using assms(2) effect_Inr [OF assms(1)] unfolding on_repo_def by (fastforce split: prod.splits)

lemma ob_ok_cong:
  assumes "entries t = entries s" "rp_db (ob_repo t) = rp_db (ob_repo s)" "ob_gateway t = ob_gateway s" "ob_max_batches t = ob_max_batches s"
    "ob_max_bytes t = ob_max_bytes s" "ob_max_dead t = ob_max_dead s" "os_rate (ob_session t) = os_rate (ob_session s)"
    "os_staged (ob_session t) = os_staged (ob_session s)"
  shows "tracks_box env m t = tracks_box env m s"
  using assms by (simp add: tracks_box_def ob_ok_def)

lemma ask_keeps: "keeps (tracks_box env m) (ask f)"
proof (rule keepsI)
  fix st assume t: "tracks_box env m st"
  obtain r u where a: "ask f st = (r, u)" by fastforce
  then have "\<exists>rp. u = st\<lparr>ob_repo := rp\<rparr> \<and> rp_db rp = rp_db (ob_repo st)"
    by (cases r) (auto simp: ask_def dest: on_repo_Inl [OF effect_ask] on_repo_Inr [OF effect_ask])
  with a t show "tracks_box env m (snd (ask f st))" using ob_ok_cong [of u st env m] by (auto simp: entries_def)
qed

lemma read_clock_eq: "read_clock env st = (Inr (oe_clock env (os_ticks (ob_session st))), st\<lparr>ob_session := (ob_session st)\<lparr>os_ticks := os_ticks (ob_session st) + 1\<rparr>\<rparr>)"
  by (simp add: read_clock_def on_session_def)

lemma read_clock_keeps: "keeps (tracks_box env m) (read_clock env)"
proof (rule keepsI)
  fix st assume "tracks_box env m st"
  moreover have "tracks_box env m (snd (read_clock env st)) = tracks_box env m st"
    by (rule ob_ok_cong) (simp_all add: read_clock_eq entries_def)
  ultimately show "tracks_box env m (snd (read_clock env st))" by simp
qed

definition set_guard :: "(TimeToken option \<times> purpose) option \<Rightarrow> outbox \<Rightarrow> outbox" where
  "set_guard g st = st\<lparr>ob_repo := (ob_repo st)\<lparr>rp_guard := g\<rparr>\<rparr>"

lemma with_guard_eq: "with_guard g f st = (fst (f (set_guard g st)), set_guard None (snd (f (set_guard g st))))"
  by (simp add: with_guard_def set_guard_def split: prod.split)

lemma set_guard_frame [simp]:
  "ob_session (set_guard g st) = ob_session st" "rp_db (ob_repo (set_guard g st)) = rp_db (ob_repo st)" "entries (set_guard g st) = entries st"
  "rp_row (ob_repo (set_guard g st)) = rp_row (ob_repo st)" "ob_gateway (set_guard g st) = ob_gateway st"
  "ob_max_batches (set_guard g st) = ob_max_batches st" "ob_max_bytes (set_guard g st) = ob_max_bytes st" "ob_max_dead (set_guard g st) = ob_max_dead st"
  "tracks_box env m (set_guard g st) = tracks_box env m st"
  by (simp_all add: set_guard_def entries_def tracks_box_def ob_ok_def)

lemma with_guard_keeps: "keeps (tracks_box env m) f \<Longrightarrow> keeps (tracks_box env m) (with_guard g f)"
  by (simp add: keeps_def with_guard_eq)

lemma session_frame [simp]:
  "os_entries (emit_fact env kind key e x os) = os_entries os" "os_rate (emit_fact env kind key e x os) = os_rate os"
  "os_staged (emit_fact env kind key e x os) = os_staged os"
  "os_entries (account f os) = os_entries os" "os_rate (account f os) = os_rate os" "os_staged (account f os) = os_staged os"
  "os_entries (add_fact n c os) = os_entries os" "os_rate (add_fact n c os) = os_rate os" "os_staged (add_fact n c os) = os_staged os"
  "os_entries (put_entry key e os) = dset key e (os_entries os)" "os_rate (put_entry key e os) = os_rate os"
  "os_staged (put_entry key e os) = os_staged os"
  by (simp_all add: emit_fact_def account_def add_fact_def put_entry_def Let_def split: option.split)

section \<open>Counting on views\<close>

lemma dom_view: "dom (view d) = fst ` set d"
  by (auto simp: view_def dom_def map_of_eq_None_iff simp flip: not_None_eq) 

lemma card_dom_view: "dwf d \<Longrightarrow> card (dom (view d)) = length d"
  unfolding dom_view dwf_def by (metis distinct_card length_map list.set_map)

lemma sum_view: "dwf d \<Longrightarrow> (\<Sum>k\<in>dom (view d). a_size (the (view d k))) = sum_list (map (r_size \<circ> b_row) (dvals d))"
proof (induction d)
  case Nil
  then show ?case by (simp add: dom_view)
next
  case (Cons p d)
  then have p: "fst p \<notin> fst ` set d" and d: "dwf d" by (auto simp: dwf_def)
  have v: "view (p # d) k = (if k = fst p then Some (entry_core (snd p)) else view d k)" for k
    by (cases p) (simp add: view_def)
  have "(\<Sum>k\<in>dom (view (p # d)). a_size (the (view (p # d) k))) = a_size (entry_core (snd p)) + (\<Sum>k\<in>dom (view d). a_size (the (view (p # d) k)))"
    using p by (simp add: dom_view v)
  also have "(\<Sum>k\<in>dom (view d). a_size (the (view (p # d) k))) = (\<Sum>k\<in>dom (view d). a_size (the (view d k)))"
    using p by (intro sum.cong) (auto simp: v dom_view image_iff)
  finally show ?case using Cons.IH [OF d] by (simp add: entry_core_def core_def)
qed

definition dead_set :: "abox \<Rightarrow> string set" where
  "dead_set m = {k. \<exists>a. m k = Some a \<and> a_state a = DEAD}"

lemma dead_set_dom: "dead_set m \<subseteq> dom m"
  by (auto simp: dead_set_def)

lemma quota_shrink:
  assumes "quota_ok a b c m" "dom m' \<subseteq> dom m" "\<And>k. k \<in> dom m' \<Longrightarrow> a_size (the (m' k)) = a_size (the (m k))" "card (dead_set m') \<le> c"
  shows "quota_ok a b c m'"
proof -
  have f: "finite (dom m)" "finite (dom m')" using assms(1,2) by (auto simp: quota_ok_def intro: finite_subset)
  have "(\<Sum>k\<in>dom m'. a_size (the (m' k))) \<le> (\<Sum>k\<in>dom m. a_size (the (m k)))"
    using assms(2,3) f by (simp add: sum_mono2)
  moreover have "card (dom m') \<le> card (dom m)" using assms(2) f by (simp add: card_mono)
  ultimately show ?thesis using assms(1,4) f by (simp add: quota_ok_def dead_set_def)
qed

lemma dead_shrink: "finite (dom m) \<Longrightarrow> dead_set m' \<subseteq> dead_set m \<Longrightarrow> card (dead_set m') \<le> card (dead_set m)"
  by (meson card_mono dead_set_dom finite_subset)

lemma quota_dead: "quota_ok a b c m \<Longrightarrow> finite (dom m) \<and> card (dead_set m) \<le> c"
  by (simp add: quota_ok_def dead_set_def)

section \<open>Transitions of the abstract outbox keep quotas and orders\<close>

lemma quota_remove: "quota_ok a b c m \<Longrightarrow> quota_ok a b c (m(k := None))"
proof (rule quota_shrink [of a b c m])
  assume q: "quota_ok a b c m"
  have "dead_set (m(k := None)) \<subseteq> dead_set m" by (auto simp: dead_set_def split: if_splits)
  then show "card (dead_set (m(k := None))) \<le> c" using quota_dead [OF q] dead_shrink by (meson order.trans)
qed (auto split: if_splits)

lemma quota_attempt: "quota_ok a b c m \<Longrightarrow> m k = Some x \<Longrightarrow> quota_ok a b c (m(k \<mapsto> x\<lparr>a_attempts := n\<rparr>))"
proof (rule quota_shrink [of a b c m])
  assume q: "quota_ok a b c m" and x: "m k = Some x"
  have "dead_set (m(k \<mapsto> x\<lparr>a_attempts := n\<rparr>)) = dead_set m" using x by (auto simp: dead_set_def split: if_splits)
  then show "card (dead_set (m(k \<mapsto> x\<lparr>a_attempts := n\<rparr>))) \<le> c" using quota_dead [OF q] by simp
qed (auto split: if_splits)

lemma quota_insert:
  assumes "quota_ok a b c m" "m k = None" "card (dom m) < a" "(\<Sum>k\<in>dom m. a_size (the (m k))) + a_size x \<le> b" "a_state x = PENDING"
  shows "quota_ok a b c (m(k \<mapsto> x))"
proof -
  have f: "finite (dom m)" "k \<notin> dom m" using assms by (auto simp: quota_ok_def)
  have "(\<Sum>j\<in>dom m. a_size (the ((m(k \<mapsto> x)) j))) = (\<Sum>j\<in>dom m. a_size (the (m j)))"
    using f by (intro sum.cong) auto
  then have "(\<Sum>j\<in>dom (m(k \<mapsto> x)). a_size (the ((m(k \<mapsto> x)) j))) \<le> b" using f assms(4) by simp
  moreover have "dead_set (m(k \<mapsto> x)) = dead_set m" using assms(2,5) by (auto simp: dead_set_def split: if_splits)
  then have "card (dead_set (m(k \<mapsto> x))) \<le> c" using quota_dead [OF assms(1)] by simp
  moreover have "finite (dom (m(k \<mapsto> x)))" "card (dom (m(k \<mapsto> x))) \<le> a" using f assms(3) by simp_all
  ultimately show ?thesis unfolding quota_ok_def dead_set_def by blast
qed

lemma order_remove: "order_ok n m \<Longrightarrow> order_ok n (m(k := None))"
  by (auto simp: order_ok_def split: if_splits)

lemma order_change: "order_ok n m \<Longrightarrow> m k = Some x \<Longrightarrow> a_id y = k \<Longrightarrow> a_order y = a_order x \<Longrightarrow> (a_state y = PENDING \<Longrightarrow> a_source y = None)
    \<Longrightarrow> order_ok n (m(k \<mapsto> y))"
  by (auto simp: order_ok_def split: if_splits)

lemma order_insert: "order_ok n m \<Longrightarrow> m k = None \<Longrightarrow> a_id y = k \<Longrightarrow> a_order y = n \<Longrightarrow> a_source y = None \<Longrightarrow> order_ok (n + 1) (m(k \<mapsto> y))"
  unfolding order_ok_def by (auto split: if_splits simp: less_Suc_eq) (metis less_irrefl)+

lemma order_restrict: "order_ok n m \<Longrightarrow> order_ok n (m |` A)"
  by (auto simp: order_ok_def restrict_map_def split: if_splits)

lemma prune_steps: "\<forall>k \<in> set ks. k \<in> dead_set m \<Longrightarrow> distinct ks \<Longrightarrow> abox_step\<^sup>*\<^sup>* m (m |` (- set ks))"
proof (induction ks arbitrary: m)
  case (Cons k ks)
  then obtain a where "m k = Some a" "a_state a = DEAD" by (auto simp: dead_set_def)
  then have "abox_step m (m(k := None))" by (rule ab_prune)
  moreover have "abox_step\<^sup>*\<^sup>* (m(k := None)) ((m(k := None)) |` (- set ks))"
    using Cons.prems by (intro Cons.IH) (auto simp: dead_set_def)
  moreover have "(m(k := None)) |` (- set ks) = m |` (- set (k # ks))" by (auto simp: restrict_map_def fun_eq_iff)
  ultimately show ?case by (metis converse_rtranclp_into_rtranclp)
qed (simp add: restrict_map_def)

section \<open>Choosing what to prune\<close>

lemma oldest_beyond_props:
  assumes "distinct (map snd ds)"
  shows "distinct (oldest_beyond n ds)" "set (oldest_beyond n ds) \<subseteq> snd ` set ds" "length (oldest_beyond n ds) = length ds - n"
proof -
  have "mset (map snd (sort_key fst ds)) = mset (map snd ds)" by (metis mset_map mset_sort)
  then have "distinct (map snd (sort_key fst ds))" using assms mset_eq_imp_distinct_iff by blast
  then show "distinct (oldest_beyond n ds)" by (simp add: oldest_beyond_def take_map [symmetric] del: take_map)
  show "set (oldest_beyond n ds) \<subseteq> snd ` set ds" by (force simp: oldest_beyond_def dest: in_set_takeD)
  show "length (oldest_beyond n ds) = length ds - n" by (simp add: oldest_beyond_def)
qed

lemma dead_keys_props:
  assumes "dwf d"
  shows "distinct (map snd (dead_keys also_p d))" "snd ` set (dead_keys also_p d) = {k. \<exists>e. dget d k = Some e \<and> (also_p k e \<or> r_state (b_row e) = DEAD)}"
proof -
  have "map snd (dead_keys also_p d) = map fst (filter (\<lambda>(k, e). also_p k e \<or> r_state (b_row e) = DEAD) d)"
    by (simp add: dead_keys_def comp_def case_prod_beta)
  then show "distinct (map snd (dead_keys also_p d))" using assms by (simp add: dwf_def distinct_map_filter)
  show "snd ` set (dead_keys also_p d) = {k. \<exists>e. dget d k = Some e \<and> (also_p k e \<or> r_state (b_row e) = DEAD)}"
    using dwf_mem_iff [OF assms] by (force simp: dead_keys_def)
qed

section \<open>Changing session and database together\<close>

text \<open>The states an operation leaves: only the session and the repository differ, and of the session only what is listed.\<close>

definition moved :: "outbox \<Rightarrow> OutboxSession \<Rightarrow> repo \<Rightarrow> outbox" where
  "moved st os rp = st\<lparr>ob_session := os, ob_repo := rp\<rparr>"

lemma moved_simps [simp]:
  "ob_session (moved st os rp) = os" "ob_repo (moved st os rp) = rp" "entries (moved st os rp) = os_entries os"
  "ob_gateway (moved st os rp) = ob_gateway st" "ob_max_batches (moved st os rp) = ob_max_batches st"
  "ob_max_bytes (moved st os rp) = ob_max_bytes st" "ob_max_dead (moved st os rp) = ob_max_dead st"
  by (simp_all add: moved_def entries_def)

lemma moved_moved [simp]: "moved (moved st os rp) os' rp' = moved st os' rp'" "moved st (ob_session st) (ob_repo st) = st"
  by (simp_all add: moved_def)

lemma set_guard_moved [simp]: "set_guard g (moved st os rp) = moved st os (rp\<lparr>rp_guard := g\<rparr>)"
  by (simp add: set_guard_def moved_def)

definition calm :: "OutboxSession \<Rightarrow> OutboxSession \<Rightarrow> bool" where
  "calm os os' \<longleftrightarrow> os_rate os' = os_rate os \<and> os_staged os' = os_staged os \<and> active_keys (os_entries os') \<subseteq> active_keys (os_entries os)"

lemma calm_refl [simp]: "calm os os"
  by (simp add: calm_def)

lemma calm_trans: "calm a b \<Longrightarrow> calm b c \<Longrightarrow> calm a c"
  by (auto simp: calm_def)

lemma calm_fun: "os_entries os' = os_entries os \<Longrightarrow> os_rate os' = os_rate os \<Longrightarrow> os_staged os' = os_staged os \<Longrightarrow> calm os os'"
  by (simp add: calm_def)

lemma finite_active [simp]: "finite (active_keys d)"
  by (rule finite_subset [of _ "fst ` set d"]) (auto simp: active_keys_def dest: dget_Some_key)

lemma active_dset: "active_keys (dset k e d) \<subseteq> (if b_active e then insert k (active_keys d) else active_keys d)"
  by (auto simp: active_keys_def split: if_splits)

lemma active_ddel: "active_keys (ddel k d) \<subseteq> active_keys d"
  by (auto simp: active_keys_def split: if_splits)

lemma tracks_moved:
  assumes "tracks_box env m st" "calm (ob_session st) os" "dwf (os_entries os)" "dwf (db_batches (rp_db rp))"
    and "view (os_entries os) = dview (rp_db rp)" "abox_step\<^sup>*\<^sup>* (view (entries st)) (view (os_entries os))"
    and "\<And>k p. dget (db_batches (rp_db rp)) k = Some p \<Longrightarrow> payload_ok env (ob_gateway st) k p"
    and "quota_ok (ob_max_batches st) (ob_max_bytes st) (ob_max_dead st) (view (os_entries os))"
    and "order_ok (db_next_order (rp_db rp)) (view (os_entries os))"
  shows "tracks_box env m (moved st os rp)"
proof -
  have "card (active_keys (os_entries os)) \<le> card (active_keys (entries st))"
    using assms(2) by (intro card_mono) (auto simp: calm_def entries_def)
  moreover have "abox_step\<^sup>*\<^sup>* m (view (os_entries os))" using assms(1,6) by (auto simp: tracks_box_def)
  ultimately show ?thesis using assms by (auto simp: tracks_box_def ob_ok_def calm_def)
qed

lemma tracksD:
  assumes "tracks_box env m st"
  shows "dwf (entries st)" "dwf (db_batches (rp_db (ob_repo st)))" "view (entries st) = dview (rp_db (ob_repo st))"
    "dget (db_batches (rp_db (ob_repo st))) k = Some p \<Longrightarrow> payload_ok env (ob_gateway st) k p"
    "quota_ok (ob_max_batches st) (ob_max_bytes st) (ob_max_dead st) (view (entries st))"
    "order_ok (db_next_order (rp_db (ob_repo st))) (view (entries st))"
  using assms unfolding tracks_box_def ob_ok_def by blast+

lemma tracks_calm:
  assumes "tracks_box env m st" "calm (ob_session st) os" "dwf (os_entries os)" "view (os_entries os) = view (entries st)"
  shows "tracks_box env m (st\<lparr>ob_session := os\<rparr>)"
proof -
  have "tracks_box env m (moved st os (ob_repo st))"
    by (rule tracks_moved [OF assms(1-3)]) (use assms(4) tracksD [OF assms(1)] in auto)
  then show ?thesis by (simp add: moved_def)
qed

lemma upd_session_keeps:
  assumes "\<And>os. calm os (f os)" "\<And>os. dwf (os_entries os) \<Longrightarrow> dwf (os_entries (f os)) \<and> view (os_entries (f os)) = view (os_entries os)"
  shows "keeps (tracks_box env m) (upd_session f)"
proof (rule keepsI)
  fix st assume t: "tracks_box env m st"
  then have d: "dwf (os_entries (ob_session st))" by (simp add: tracks_box_def ob_ok_def entries_def)
  show "tracks_box env m (snd (upd_session f st))"
    using tracks_calm [OF t assms(1)] assms(2) [OF d] by (simp add: upd_session_def entries_def)
qed

lemma view_entry: "dget d k = Some e \<Longrightarrow> view d k = Some (entry_core e)"
  by (simp add: view_def)

lemma stored_of_entry:
  assumes "tracks_box env m st" "dget (entries st) k = Some e"
  obtains row raw where "dget (db_batches (rp_db (ob_repo st))) k = Some (row, raw)" "stored_core (row, raw) = entry_core e"
    "payload_ok env (ob_gateway st) k (row, raw)"
proof -
  have "dview (rp_db (ob_repo st)) k = Some (entry_core e)" using tracksD(3) [OF assms(1)] view_entry [OF assms(2)] by metis
  then obtain p where "dget (db_batches (rp_db (ob_repo st))) k = Some p" "stored_core p = entry_core e" by (auto simp: dview_def)
  with that tracksD(4) [OF assms(1)] show ?thesis by (metis prod.collapse)
qed

section \<open>Pruning\<close>

lemma forget_pruned_eq:
  assumes "dget (os_entries os) key = Some e"
  shows "\<exists>os'. forget_pruned env key os = (Inr (), os') \<and> os_entries os' = ddel key (os_entries os) \<and> calm os os'"
  using assms active_ddel by (simp add: forget_pruned_def Let_def calm_def)

lemma on_session_Inr: "m (ob_session st) = (Inr x, os) \<Longrightarrow> on_session m st = (Inr x, moved st os (ob_repo st))"
  by (simp add: on_session_def moved_def)

lemma forget_many:
  assumes "distinct ks" "set ks \<subseteq> fst ` set (entries st)"
  shows "\<exists>os. sfold (\<lambda>old. on_session (forget_pruned env old)) ks st = (Inr (), moved st os (ob_repo st))
    \<and> view (os_entries os) = view (entries st) |` (- set ks) \<and> (dwf (entries st) \<longrightarrow> dwf (os_entries os)) \<and> calm (ob_session st) os"
  using assms
proof (induction ks arbitrary: st)
  case Nil
  then show ?case by (intro exI [of _ "ob_session st"]) (simp add: entries_def)
next
  case (Cons k ks)
  then obtain e where "dget (os_entries (ob_session st)) k = Some e" by (metis entries_def list.set_intros(1) map_of_eq_None_iff not_None_eq subsetD)
  from forget_pruned_eq [OF this] obtain os where f: "forget_pruned env k (ob_session st) = (Inr (), os)"
    "os_entries os = ddel k (entries st)" "calm (ob_session st) os" unfolding entries_def by blast
  let ?st = "moved st os (ob_repo st)"
  have "distinct ks" "set ks \<subseteq> fst ` set (entries ?st)" using Cons.prems f(2) by auto
  from Cons.IH [OF this] obtain os' where o: "sfold (\<lambda>old. on_session (forget_pruned env old)) ks ?st = (Inr (), moved st os' (ob_repo st))"
    "view (os_entries os') = view (entries ?st) |` (- set ks)" "dwf (entries ?st) \<longrightarrow> dwf (os_entries os')" "calm os os'" by auto
  have "view (os_entries os') = view (entries st) |` (- set (k # ks))"
    using o(2) f(2) by (auto simp: restrict_map_def fun_eq_iff)
  moreover have "dwf (entries st) \<longrightarrow> dwf (os_entries os')" using o(3) f(2) by simp
  ultimately show ?case using o(1,4) f(1,3) on_session_Inr [of "forget_pruned env k" st] calm_trans by auto
qed

lemma prune_one:
  assumes t: "tracks_box env m st" and k: "k \<in> dead_set (view (entries st))"
    and r: "sbind (on_repo (prune_batch (oe_sql env) k)) (\<lambda>_. on_session (forget_pruned env k)) st = (x, u)"
  shows "tracks_box env m u \<and> (x = Inr () \<longrightarrow> view (entries u) = (view (entries st))(k := None))"
proof -
  obtain y s where p: "on_repo (prune_batch (oe_sql env) k) st = (y, s)" by fastforce
  from k obtain e where e: "dget (entries st) k = Some e" "r_state (b_row e) = DEAD"
    by (auto simp: dead_set_def view_def entry_core_def core_def)
  show ?thesis
  proof (cases y)
    case (Inl z)
    with on_repo_Inl [OF effect_prune] p obtain rp where "s = st\<lparr>ob_repo := rp\<rparr>" "rp_db rp = rp_db (ob_repo st)" by blast
    with r p Inl t ob_ok_cong [of s st env m] show ?thesis by (auto simp: entries_def)
  next
    case (Inr z)
    with on_repo_Inr [OF effect_prune] p obtain rp where s: "s = st\<lparr>ob_repo := rp\<rparr>" "rp_db rp = count_pruned 1 (delete_row k (rp_db (ob_repo st)))" by blast
    from e forget_pruned_eq obtain os where f: "forget_pruned env k (ob_session st) = (Inr (), os)"
      "os_entries os = ddel k (entries st)" "calm (ob_session st) os" unfolding entries_def by blast
    have u: "x = Inr ()" "u = moved st os rp" using r p Inr f s by (auto simp: on_session_def moved_def)
    have "abox_step (view (entries st)) ((view (entries st))(k := None))"
      using e by (intro ab_prune) (auto simp: view_def entry_core_def core_def)
    then have "tracks_box env m u" unfolding u
      using t tracksD [OF t] f s
      by (intro tracks_moved) (auto simp: quota_remove order_remove delete_row_get split: if_splits)
    with u f show ?thesis by simp
  qed
qed

lemma prune_many:
  assumes "tracks_box env m st" "distinct ks" "set ks \<subseteq> dead_set (view (entries st))"
  shows "tracks_box env m (snd (sfold (\<lambda>k. sbind (on_repo (prune_batch (oe_sql env) k)) (\<lambda>_. on_session (forget_pruned env k))) ks st))"
  using assms
proof (induction ks arbitrary: st)
  case (Cons k ks)
  let ?f = "\<lambda>k. sbind (on_repo (prune_batch (oe_sql env) k)) (\<lambda>_. on_session (forget_pruned env k))"
  obtain x u where r: "?f k st = (x, u)" by fastforce
  note o = prune_one [OF Cons.prems(1) _ r]
  show ?case
  proof (cases x)
    case (Inl e)
    then show ?thesis using r o Cons.prems(3) by (simp add: sbind_def)
  next
    case (Inr y)
    then have "set ks \<subseteq> dead_set (view (entries u))" using o Cons.prems(2,3) by (auto simp: dead_set_def)
    then show ?thesis using Inr r o Cons by (simp add: sbind_def)
  qed
qed simp

lemma prune_keeps: "keeps (tracks_box env m) (prune env)"
proof (rule keepsI)
  fix st assume t: "tracks_box env m st"
  note d = dead_keys_props [OF tracksD(1) [OF t], of "\<lambda>_ _. False"]
  let ?ks = "oldest_beyond (ob_max_dead st) (dead_keys (\<lambda>_ _. False) (entries st))"
  have "{k. \<exists>e. dget (entries st) k = Some e \<and> (False \<or> r_state (b_row e) = DEAD)} \<subseteq> dead_set (view (entries st))"
    by (auto simp: dead_set_def view_def entry_core_def core_def)
  then have "set ?ks \<subseteq> dead_set (view (entries st))"
    using oldest_beyond_props(2) [OF d(1), of "ob_max_dead st"] unfolding d(2) by (rule subset_trans [rotated])
  moreover have "distinct ?ks" by (rule oldest_beyond_props(1) [OF d(1)])
  ultimately show "tracks_box env m (snd (prune env st))" unfolding prune_def using prune_many [OF t] by blast
qed

section \<open>Terminating a batch\<close>

lemma terminal_rows_db:
  assumes "dget (db_batches d) key = Some (row, raw)" "dwf (db_batches d)"
    "row' = row\<lparr>r_state := DEAD, r_reason := Some reason, r_terminal_source := src\<rparr>"
  shows "dview (terminal_rows key reason ks src d) = (dview d)(key \<mapsto> stored_core (row', raw)) |` (- set ks)"
    "dwf (db_batches (terminal_rows key reason ks src d))" "db_next_order (terminal_rows key reason ks src d) = db_next_order d"
    "dget (db_batches (terminal_rows key reason ks src d)) k = (if k \<in> set ks then None else if k = key then Some (row', raw) else dget (db_batches d) k)"
proof -
  let ?f = "\<lambda>r. r\<lparr>r_state := DEAD, r_reason := Some reason, r_terminal_source := src\<rparr>" let ?d = "change_row key ?f d"
  have c: "dview ?d = (dview d)(key \<mapsto> stored_core (row', raw))" "dwf (db_batches ?d)" "db_next_order ?d = db_next_order d"
    "dget (db_batches ?d) k = (if k = key then Some (row', raw) else dget (db_batches d) k)" for k
    using assms by (simp_all add: dview_change_row) (simp add: change_row_def)
  have r: "terminal_rows key reason ks src d = (if ks \<noteq> [] then count_pruned (length ks) (fold delete_row ks ?d) else fold delete_row ks ?d)"
    by (simp add: terminal_rows_def Let_def)
  show "dview (terminal_rows key reason ks src d) = (dview d)(key \<mapsto> stored_core (row', raw)) |` (- set ks)"
    "dwf (db_batches (terminal_rows key reason ks src d))" "db_next_order (terminal_rows key reason ks src d) = db_next_order d"
    "dget (db_batches (terminal_rows key reason ks src d)) k = (if k \<in> set ks then None else if k = key then Some (row', raw) else dget (db_batches d) k)"
    unfolding r using c fold_delete_row [where ks = ks and d = ?d] by (cases "ks = []"; simp)+
qed

lemma terminal_session:
  assumes "dget (os_entries os) key = Some e" "b_source e = None"
  shows "\<exists>os'. mark_dead key reason source os = (Inr (), put_entry key (e\<lparr>b_row := (b_row e)\<lparr>r_state := DEAD, r_reason := Some reason, r_terminal_source := Some source\<rparr>\<rparr>) os)
    \<and> session_terminal env key source (put_entry key (e\<lparr>b_row := (b_row e)\<lparr>r_state := DEAD, r_reason := Some reason, r_terminal_source := Some source\<rparr>\<rparr>) os) = (Inr (), os')
    \<and> view (os_entries os') = (view (os_entries os))(key \<mapsto> (entry_core e)\<lparr>a_state := DEAD, a_source := Some source\<rparr>)
    \<and> (dwf (os_entries os) \<longrightarrow> dwf (os_entries os')) \<and> calm os os'"
  using assms by (auto simp: mark_dead_def session_terminal_def Let_def calm_def entry_core_def core_def active_keys_def split: if_splits)

lemma dead_after_terminal:
  assumes "dwf d" "dget d key = Some e" "a_state x = DEAD"
  shows "card (dead_set ((view d)(key \<mapsto> x) |` (- set (oldest_beyond n (dead_keys (\<lambda>k _. k = key) d))))) \<le> n"
proof -
  let ?ds = "dead_keys (\<lambda>k _. k = key) d" let ?ks = "oldest_beyond n ?ds"
  note d = dead_keys_props [OF assms(1), of "\<lambda>k _. k = key"]
  note o = oldest_beyond_props [OF d(1), of n]
  have "dead_set ((view d)(key \<mapsto> x) |` (- set ?ks)) = snd ` set ?ds - set ?ks"
    unfolding d(2) using assms(2,3) by (auto simp: dead_set_def restrict_map_def view_def entry_core_def core_def split: if_splits)
  moreover have "card (snd ` set ?ds) = length ?ds" using d(1) by (metis distinct_card length_map list.set_map)
  moreover have "card (set ?ks) = length ?ds - n" using o(1,3) by (simp add: distinct_card)
  ultimately show ?thesis using o(2) by (simp add: card_Diff_subset)
qed

lemma kill_prune_steps:
  assumes "m key = Some a" "a_state a = PENDING" "distinct ks" "set ks \<subseteq> insert key (dead_set m)"
  shows "abox_step\<^sup>*\<^sup>* m (m(key \<mapsto> a\<lparr>a_state := DEAD, a_source := Some src\<rparr>) |` (- set ks))"
proof -
  let ?m = "m(key \<mapsto> a\<lparr>a_state := DEAD, a_source := Some src\<rparr>)"
  have "\<forall>k \<in> set ks. k \<in> dead_set ?m" using assms(4) by (auto simp: dead_set_def)
  from prune_steps [OF this assms(3)] ab_kill [where m = m and k = key and a = a and src = src] assms(1,2) show ?thesis by (metis converse_rtranclp_into_rtranclp)
qed

lemma terminal_keeps:
  assumes t: "tracks_box env m st" and e: "dget (entries st) key = Some e" "r_state (b_row e) = PENDING"
  shows "tracks_box env m (snd (terminal env key reason source st))"
proof -
  let ?ks = "oldest_beyond (ob_max_dead st) (dead_keys (\<lambda>k _. k = key) (entries st))"
  note w = tracksD [OF t]
  note dk = dead_keys_props [OF w(1), of "\<lambda>k _. k = key"] note ob = oldest_beyond_props [OF dk(1), of "ob_max_dead st"]
  have src: "b_source e = None"
    using w(6) [unfolded order_ok_def, rule_format, OF view_entry [OF e(1)]] e(2) by (simp add: entry_core_def core_def)
  obtain y s where r: "on_repo (terminal_with_source (oe_sql env) (oe_time env) key reason ?ks (Some source)) st = (y, s)" by fastforce
  show ?thesis
  proof (cases y)
    case (Inl z)
    with on_repo_Inl [OF effect_terminal] r obtain rp where "s = st\<lparr>ob_repo := rp\<rparr>" "rp_db rp = rp_db (ob_repo st)" by blast
    with r Inl t ob_ok_cong [of s st env m] show ?thesis by (auto simp: terminal_def Let_def entries_def)
  next
    case (Inr z)
    with on_repo_Inr [OF effect_terminal] r obtain rp where s: "s = st\<lparr>ob_repo := rp\<rparr>"
      "rp_db rp = terminal_rows key reason ?ks (Some source) (rp_db (ob_repo st))" by blast
    from terminal_session [OF e(1) [unfolded entries_def] src] obtain os where os:
      "mark_dead key reason source (ob_session st) = (Inr (), put_entry key (e\<lparr>b_row := (b_row e)\<lparr>r_state := DEAD, r_reason := Some reason, r_terminal_source := Some source\<rparr>\<rparr>) (ob_session st))"
      "session_terminal env key source (put_entry key (e\<lparr>b_row := (b_row e)\<lparr>r_state := DEAD, r_reason := Some reason, r_terminal_source := Some source\<rparr>\<rparr>) (ob_session st)) = (Inr (), os)"
      "view (os_entries os) = (view (entries st))(key \<mapsto> (entry_core e)\<lparr>a_state := DEAD, a_source := Some source\<rparr>)"
      "dwf (os_entries os)" "calm (ob_session st) os"
      using w(1) unfolding entries_def by blast
    let ?v = "(view (entries st))(key \<mapsto> (entry_core e)\<lparr>a_state := DEAD, a_source := Some source\<rparr>)"
    let ?st = "moved st os rp"
    have sub: "set ?ks \<subseteq> insert key (dead_set (view (entries st)))"
      using ob(2) unfolding dk(2) by (auto simp: dead_set_def view_def entry_core_def core_def)
    then have "set ?ks \<subseteq> dom (view (os_entries os))" unfolding os(3) using e(1) dead_set_dom [of "view (entries st)"] by auto
    then have "set ?ks \<subseteq> fst ` set (entries ?st)" by (simp add: dom_view)
    from forget_many [OF ob(1) this] obtain os' where os': "sfold (\<lambda>old. on_session (forget_pruned env old)) ?ks ?st = (Inr (), moved st os' rp)"
      "view (os_entries os') = ?v |` (- set ?ks)" "dwf (os_entries os')" "calm os os'" using os(3,4) by auto
    have res: "snd (terminal env key reason source st) = moved st os' rp"
    proof -
      have s': "s = moved st (ob_session st) rp" using s(1) by (simp add: moved_def)
      show ?thesis
        using r Inr os'(1) on_session_Inr [of "mark_dead key reason source" s] on_session_Inr [of "session_terminal env key source"] os(1,2)
        unfolding s' by (simp add: terminal_def Let_def)
    qed
    obtain row raw where db: "dget (db_batches (rp_db (ob_repo st))) key = Some (row, raw)" "stored_core (row, raw) = entry_core e"
      "payload_ok env (ob_gateway st) key (row, raw)" using stored_of_entry [OF t e(1)] .
    note td = terminal_rows_db [OF db(1) w(2) refl, where ks = ?ks and reason = reason and src = "Some source"]
    have core: "stored_core (row\<lparr>r_state := DEAD, r_reason := Some reason, r_terminal_source := Some source\<rparr>, raw)
        = (entry_core e)\<lparr>a_state := DEAD, a_source := Some source\<rparr>"
      unfolding db(2) [symmetric] by (simp add: stored_core_def core_def)
    have v: "view (os_entries os') = dview (rp_db rp)" unfolding os'(2) s(2) td(1) core w(3) ..
    have p: "payload_ok env (ob_gateway st) k p" if "dget (db_batches (rp_db rp)) k = Some p" for k p
      using that db(3) w(4) unfolding s(2) td(4) by (auto simp: payload_ok_def split: if_splits)
    have ve: "view (entries st) key = Some (entry_core e)" "a_state (entry_core e) = PENDING" "a_id (entry_core e) = key"
      using conjunct1 [OF w(6) [unfolded order_ok_def, rule_format, OF view_entry [OF e(1)]]] e(2) by (simp_all add: view_entry [OF e(1)])
    have q: "quota_ok (ob_max_batches st) (ob_max_bytes st) (ob_max_dead st) (?v |` (- set ?ks))"
      using ve by (intro quota_shrink [OF w(5)] dead_after_terminal [OF w(1) e(1)]) (auto simp: restrict_map_def split: if_splits)
    have o: "order_ok (db_next_order (rp_db rp)) (?v |` (- set ?ks))"
      unfolding s(2) td(3) using ve by (intro order_restrict order_change [OF w(6)]) auto
    have n: "abox_step\<^sup>*\<^sup>* (view (entries st)) (view (os_entries os'))"
      unfolding os'(2) by (rule kill_prune_steps [OF ve(1,2) ob(1) sub])
    have d: "dwf (db_batches (rp_db rp))" unfolding s(2) by (rule td(2))
    show ?thesis unfolding res
      by (rule tracks_moved [OF t calm_trans [OF os(5) os'(4)] os'(3) d v n p q [folded os'(2)] o [folded os'(2)]])
  qed
qed

section \<open>Expiry\<close>

lemma expire_entry_keeps: "keeps (tracks_box env m) (expire_entry env s now key)"
proof (rule keepsI)
  fix st assume t: "tracks_box env m st"
  have k: "tracks_box env m (snd (sbind (ask (token (oe_time env))) (\<lambda>tok. with_guard (Some (tok, ENQUEUE)) (terminal env key ''EXPIRED_DATA'' AGE_EXPIRED)) st))"
    if e: "dget (entries st) key = Some e" "r_state (b_row e) = PENDING" for e
  proof -
    obtain x u where a: "ask (token (oe_time env)) st = (x, u)" by fastforce
    have u: "tracks_box env m u" using keeps_result [OF ask_keeps a t] .
    have "entries u = entries st" using a by (auto simp: ask_def on_repo_def entries_def split: prod.splits)
    with e have "tracks_box env m (snd (terminal env key ''EXPIRED_DATA'' AGE_EXPIRED (set_guard g u)))" for g
      using u by (intro terminal_keeps [of _ _ _ _ e]) auto
    with a u show ?thesis by (cases x) (auto simp: sbind_def with_guard_eq)
  qed
  then show "tracks_box env m (snd (expire_entry env s now key st))"
    using t by (auto simp: expire_entry_def split: option.split)
qed

lemma sfold_keeps: "(\<And>x. keeps P (f x)) \<Longrightarrow> keeps P (sfold f xs)"
proof (induction xs)
  case (Cons x xs)
  then have "keeps P (sbind (f x) (\<lambda>_. sfold f xs))" by (intro keeps_sbind) auto
  then show ?case by (simp add: keeps_def)
qed (simp add: keeps_def)

lemma expire_keeps: "keeps (tracks_box env m) (expire_outbox env)"
proof -
  have k: "keeps (tracks_box env m) (\<lambda>st. sbind (sfold (expire_entry env s now) (dkeys (entries st))) (\<lambda>_. prune env) st)" for s now
    by (rule keeps_at, intro keeps_sbind sfold_keeps expire_entry_keeps prune_keeps)
  have "keeps (tracks_box env m) (sbind (read_clock env) (\<lambda>now st. sbind (sfold (expire_entry env s now) (dkeys (entries st))) (\<lambda>_. prune env) st))" for s
    by (intro keeps_sbind read_clock_keeps k)
  then show ?thesis
    unfolding expire_outbox_def
    by (intro keeps_sbind ask_keeps keepsI) (auto split: option.split dest: keepsD)
qed

section \<open>Enqueue\<close>

lemma stage_frame:
  assumes "stage env key row events boot c os = (r, os')"
  shows "os_entries os' = os_entries os" "os_rate os' = os_rate os"
    "(\<forall>k e. dget (os_staged os) k = Some e \<longrightarrow> b_source e = None \<and> \<not> b_active e) \<Longrightarrow> dget (os_staged os') k = Some e \<Longrightarrow> b_source e = None \<and> \<not> b_active e"
    "r = Some (x, fresh) \<Longrightarrow> dget (os_entries os) key = None \<Longrightarrow> dget (os_staged os') key = Some x"
  using assms by (auto simp: stage_def Let_def split: option.splits if_splits)

lemma staged_moved:
  assumes "tracks_box env m st" "os_entries os = entries st" "os_rate os = os_rate (ob_session st)"
    "\<And>k e. dget (os_staged os) k = Some e \<Longrightarrow> b_source e = None \<and> \<not> b_active e" "rp_db rp = rp_db (ob_repo st)"
  shows "tracks_box env m (moved st os rp)"
  using assms by (auto simp: tracks_box_def ob_ok_def)

lemma tracks_staged: "tracks_box env m st \<Longrightarrow> dget (os_staged (ob_session st)) k = Some e \<Longrightarrow> b_source e = None \<and> \<not> b_active e"
  by (auto simp: tracks_box_def ob_ok_def)

lemma inserted_tracks:
  assumes t: "tracks_box env m st" and i: "insert_batch (oe_sql env) (oe_time env) row raw rp0 = (Inr y, rp)" "rp_db rp0 = rp_db (ob_repo st)"
    and w: "oe_data env (ob_gateway st) raw = Some w" and q: "\<not> over_quota (length raw) st"
    and row: "row = new_row env raw w now (db_next_order (rp_db (ob_repo st))) current"
    and e: "dget (entries st) (w_message_id w) = None \<Longrightarrow> b_source e = None \<and> \<not> b_active e"
  shows "tracks_box env m (inserted env (w_message_id w) e row (moved st (ob_session st) rp))"
proof -
  let ?k = "w_message_id w"
  obtain row' where r: "stamped row row'" "rp_row rp = Some row'" "r_message_id row \<notin> fst ` set (db_batches (rp_db (ob_repo st)))"
    "db_batches (rp_db rp) = dset (r_message_id row) (as_inserted row', raw) (db_batches (rp_db (ob_repo st)))"
    "db_next_order (rp_db rp) = db_next_order (rp_db (ob_repo st)) + 1"
    using insert_batch_Inr [OF i(1)] i(2) row by (auto simp: new_row_def Let_def)
  obtain u v where row': "row' = row\<lparr>r_enqueued_utc_ms := u, r_uncertainty_ms := v\<rparr>" using r(1) unfolding stamped_def by blast
  have f: "r_message_id row = ?k" "r_hash row = oe_sha256 env raw" "r_size row = length raw" "r_attempts row = 0" "r_state row = PENDING"
    "r_local_order row = db_next_order (rp_db (ob_repo st))" "r_terminal_source row = None"
    unfolding row by (simp_all add: new_row_def Let_def)
  note d = tracksD [OF t]
  have new: "view (entries st) ?k = None" unfolding d(3) using r(3) f(1) by (simp add: dview_def map_of_eq_None_iff)
  then have e': "b_source e = None" "\<not> b_active e" using e by (auto simp: view_def)
  let ?e = "e\<lparr>b_row := row'\<rparr>" let ?a = "entry_core ?e"
  define os where "os = ob_session (inserted env ?k e row (moved st (ob_session st) rp))"
  have m: "inserted env ?k e row (moved st (ob_session st) rp) = moved st os rp"
    unfolding os_def by (simp add: inserted_def Let_def moved_def)
  have os: "os_entries os = dset ?k ?e (entries st)" "os_rate os = os_rate (ob_session st)" "os_staged os = ddel ?k (os_staged (ob_session st))"
    unfolding os_def using r(2) by (simp_all add: inserted_def Let_def current_row_def entries_def)
  have v: "view (os_entries os) = (view (entries st))(?k \<mapsto> ?a)" unfolding os(1) by simp
  have dv: "dview (rp_db rp) = (dview (rp_db (ob_repo st)))(?k \<mapsto> stored_core (as_inserted row', raw))"
    unfolding dview_def r(4) f(1) by (auto simp: fun_eq_iff)
  have ac: "stored_core (as_inserted row', raw) = ?a"
    using f e'(1) by (simp add: row' stored_core_def as_inserted_def entry_core_def core_def)
  have q': "card (dom (view (entries st))) < ob_max_batches st" "(\<Sum>k\<in>dom (view (entries st)). a_size (the (view (entries st) k))) + a_size ?a \<le> ob_max_bytes st"
    using q f(3) by (simp_all add: over_quota_def card_dom_view [OF d(1)] sum_view [OF d(1)] row')
  have "abox_step (view (entries st)) ((view (entries st))(?k \<mapsto> ?a))"
    using new f e' d(6) by (intro ab_insert) (auto simp: row' order_ok_def)
  then have "ob_ok env (moved st os rp) \<and> abox_step\<^sup>*\<^sup>* m (view (os_entries os))"
  proof -
    assume s: "abox_step (view (entries st)) ((view (entries st))(?k \<mapsto> ?a))"
    have "abox_step\<^sup>*\<^sup>* m (view (os_entries os))" using t s unfolding v tracks_box_def by auto
    moreover have "quota_ok (ob_max_batches st) (ob_max_bytes st) (ob_max_dead st) (view (os_entries os))"
      unfolding v using quota_insert [OF d(5) new q'] f by (simp add: row')
    moreover have "order_ok (db_next_order (rp_db rp)) (view (os_entries os))"
      unfolding v r(5) using order_insert [OF d(6) new] f e' by (simp add: row')
    moreover have "view (os_entries os) = dview (rp_db rp)" unfolding v dv ac d(3) ..
    moreover have "payload_ok env (ob_gateway st) k p" if "dget (db_batches (rp_db rp)) k = Some p" for k p
      using that d(4) w f unfolding r(4) by (auto simp: payload_ok_def row' as_inserted_def split: if_splits)
    moreover have "card (active_keys (os_entries os)) \<le> card (active_keys (entries st))"
      unfolding os(1) using active_dset [of ?k ?e "entries st"] e'(2) by (intro card_mono) auto
    moreover have "dwf (db_batches (rp_db rp))" "dwf (os_entries os)" unfolding r(4) os(1) using d(1,2) by auto
    ultimately show ?thesis using t tracks_staged [OF t] os(2,3) by (auto simp: tracks_box_def ob_ok_def)
  qed
  then show ?thesis unfolding m by (simp add: tracks_box_def)
qed

lemma insert_failed_tracks:
  assumes "tracks_box env m st" "rp_db rp = rp_db (ob_repo st)"
  shows "tracks_box env m (insert_failed key row fresh (moved st (ob_session st) rp))"
proof -
  let ?x = "insert_failed key row fresh (moved st (ob_session st) rp)"
  have "?x = moved st (ob_session ?x) rp" by (simp add: insert_failed_def Let_def moved_def)
  moreover have "tracks_box env m (moved st (ob_session ?x) rp)"
    by (rule staged_moved [OF assms(1)])
       (use assms tracks_staged [OF assms(1)] in \<open>auto simp: insert_failed_def Let_def rejected_attempt_def entries_def split: option.splits if_splits\<close>)
  ultimately show ?thesis by metis
qed

lemma insert_staged_keeps:
  assumes t: "tracks_box env m st" and w: "oe_data env (ob_gateway st) raw = Some w" and q: "\<not> over_quota (length raw) st"
    and row: "row = new_row env raw w now (db_next_order (rp_db (ob_repo st))) current"
    and e: "dget (entries st) (w_message_id w) = None \<Longrightarrow> b_source e = None \<and> \<not> b_active e"
  shows "tracks_box env m (snd (insert_staged env (w_message_id w) raw e fresh row g st))"
proof -
  let ?rp = "(ob_repo st)\<lparr>rp_guard := g\<rparr>"
  obtain r rp where i: "insert_batch (oe_sql env) (oe_time env) row raw ?rp = (r, rp)" by fastforce
  have "on_repo (insert_batch (oe_sql env) (oe_time env) row raw) (set_guard g st) = (r, moved st (ob_session st) rp)"
    using i by (simp add: on_repo_def set_guard_def moved_def)
  then have wg: "with_guard g (on_repo (insert_batch (oe_sql env) (oe_time env) row raw)) st = (r, moved st (ob_session st) (rp\<lparr>rp_guard := None\<rparr>))"
    by (simp add: with_guard_eq)
  show ?thesis
  proof (cases r)
    case (Inl x)
    then have "rp_db (rp\<lparr>rp_guard := None\<rparr>) = rp_db (ob_repo st)" using insert_batch_Inl i by fastforce
    from insert_failed_tracks [OF t this] show ?thesis using wg Inl by (simp add: insert_staged_def)
  next
    case (Inr y)
    have "tracks_box env m (inserted env (w_message_id w) e row (moved st (ob_session st) rp))"
      by (rule inserted_tracks [OF t i [unfolded Inr] _ w q row e]) simp_all
    moreover have "inserted env (w_message_id w) e row (moved st (ob_session st) (rp\<lparr>rp_guard := None\<rparr>))
        = set_guard None (inserted env (w_message_id w) e row (moved st (ob_session st) rp))"
      by (simp add: inserted_def Let_def current_row_def moved_def set_guard_def)
    ultimately show ?thesis using wg Inr by (simp add: insert_staged_def)
  qed
qed

lemma rejected_session [simp]: "os_entries (rejected_attempt os) = os_entries os" "os_rate (rejected_attempt os) = os_rate os"
  "os_staged (rejected_attempt os) = os_staged os"
  by (simp_all add: rejected_attempt_def)

lemma count_keeps: "keeps (tracks_box env m) (on_repo (count_attempt sql b))"
proof (rule keepsI)
  fix st assume t: "tracks_box env m st"
  obtain r u where c: "on_repo (count_attempt sql b) st = (r, u)" by fastforce
  then obtain rp where "u = st\<lparr>ob_repo := rp\<rparr>" "db_batches (rp_db rp) = db_batches (rp_db (ob_repo st))" "db_next_order (rp_db rp) = db_next_order (rp_db (ob_repo st))"
    by (cases r) (auto dest!: on_repo_Inl [OF effect_count] on_repo_Inr [OF effect_count])
  with c t show "tracks_box env m (snd (on_repo (count_attempt sql b) st))"
    by (auto simp: tracks_box_def ob_ok_def entries_def dview_def [abs_def])
qed

lemma enqueue_new_keeps:
  assumes t: "tracks_box env m st" and w: "oe_data env (ob_gateway st) raw = Some w"
  shows "tracks_box env m (snd (enqueue_new env raw w now assoc tok current st))"
proof (cases "over_quota (length raw) st")
  case True
  have "keeps (tracks_box env m) (sbind (upd_session (rejected_attempt \<circ> add_fact f_enqueue_rejected_attempts 1)) (\<lambda>_.
           sbind (on_repo (count_attempt (oe_sql env) True)) (\<lambda>_. sret False)))"
    by (intro keeps_sbind upd_session_keeps count_keeps keeps_sret) (auto intro: calm_fun)
  with True t show ?thesis by (simp add: enqueue_new_def keepsD)
next
  case False
  let ?order = "db_next_order (rp_db (ob_repo st))"
  let ?row = "new_row env raw w now ?order current"
  let ?ev = "case assoc of None \<Rightarrow> [] | Some a \<Rightarrow> av_events a" and ?boot = "case assoc of None \<Rightarrow> None | Some a \<Rightarrow> av_capture_boot a"
  obtain r os where s: "stage env (w_message_id w) ?row ?ev ?boot (new_category ?ev (os_watermark (ob_session st))) (ob_session st) = (r, os)" by fastforce
  note f = stage_frame [OF s]
  have st: "\<And>k e. dget (os_staged os) k = Some e \<Longrightarrow> b_source e = None \<and> \<not> b_active e" using f(3) tracks_staged [OF t] by blast
  have o: "tracks_box env m (moved st os (ob_repo st))"
    by (rule staged_moved [OF t]) (use f(1,2) st in \<open>auto simp: entries_def\<close>)
  have rj: "tracks_box env m (moved st (rejected_attempt os) (ob_repo st))"
    by (rule staged_moved [OF t]) (use f(1,2) st in \<open>auto simp: entries_def\<close>)
  have ins: "tracks_box env m (snd (insert_staged env (w_message_id w) raw e fresh ?row g (moved st os (ob_repo st))))" if "r = Some (e, fresh)" for e fresh g
  proof (rule insert_staged_keeps [OF o])
    show "\<not> over_quota (length raw) (moved st os (ob_repo st))" using False f(1) by (simp add: over_quota_def entries_def)
    show "b_source e = None \<and> \<not> b_active e" if "dget (entries (moved st os (ob_repo st))) (w_message_id w) = None"
      using f(1) f(4) [OF \<open>r = Some (e, fresh)\<close>] that st by auto
  qed (use w in auto)
  show ?thesis
    using False s t rj ins by (auto simp: enqueue_new_def Let_def moved_def split: option.split)
qed

text \<open>What no operation of the store changes. A frame is a predicate that depends on neither the repository nor, of the session, on
  anything but the rate of the hand-off, which belongs to the caller.\<close>

definition same_sdk :: "OutboxSession \<Rightarrow> OutboxSession \<Rightarrow> bool" where
  "same_sdk os os' \<longleftrightarrow> os_sdk_rate os' = os_sdk_rate os \<and> os_sdk_next_send os' = os_sdk_next_send os"

lemma sdk_fields [simp]:
  "os_sdk_rate (add_fact f k os) = os_sdk_rate os" "os_sdk_next_send (add_fact f k os) = os_sdk_next_send os"
  "os_sdk_rate (put_entry key e os) = os_sdk_rate os" "os_sdk_next_send (put_entry key e os) = os_sdk_next_send os"
  "os_sdk_rate (account g os) = os_sdk_rate os" "os_sdk_next_send (account g os) = os_sdk_next_send os"
  "os_sdk_rate (emit_fact env kind key e extra os) = os_sdk_rate os" "os_sdk_next_send (emit_fact env kind key e extra os) = os_sdk_next_send os"
  "os_sdk_rate (open_gate_outbox w os) = os_sdk_rate os" "os_sdk_next_send (open_gate_outbox w os) = os_sdk_next_send os"
  "os_sdk_rate (rejected_attempt os) = os_sdk_rate os" "os_sdk_next_send (rejected_attempt os) = os_sdk_next_send os"
  by (simp_all add: add_fact_def put_entry_def account_def emit_fact_def open_gate_outbox_def rejected_attempt_def Let_def split: option.split)

lemma same_sdk_refl [simp]: "same_sdk os os"
  by (simp add: same_sdk_def)

lemma same_sdk_session:
  "session_terminal env key source os = (r, os') \<Longrightarrow> same_sdk os os'" "forget_pruned env key os = (r, os') \<Longrightarrow> same_sdk os os'"
  "mark_dead key reason source os = (r, os') \<Longrightarrow> same_sdk os os'" "stage env key row events cb c os = (r2, os') \<Longrightarrow> same_sdk os os'"
  by (auto simp: session_terminal_def forget_pruned_def mark_dead_def stage_def Let_def same_sdk_def split: option.splits if_splits)

lemma same_sdk_stored: "same_sdk os (stored_session env key e os)"
  by (simp add: stored_session_def Let_def same_sdk_def)

lemma same_sdk_sent: "same_sdk os (sent_session env key e c a sz t os)"
  by (simp add: sent_session_def Let_def same_sdk_def)

locale store_frame =
  fixes P :: "outbox \<Rightarrow> bool"
  assumes repo: "P st \<Longrightarrow> P (st\<lparr>ob_repo := rp\<rparr>)"
    and session: "P st \<Longrightarrow> same_sdk (ob_session st) os \<Longrightarrow> P (st\<lparr>ob_session := os\<rparr>)"
begin

lemma repo_op: "keeps P (on_repo m)"
  by (auto simp: keeps_def on_repo_def split: prod.split intro: repo)

lemma session_op: "(\<And>os r os'. m os = (r, os') \<Longrightarrow> same_sdk os os') \<Longrightarrow> keeps P (on_session m)"
  by (auto simp: keeps_def on_session_def split: prod.split intro: session)

lemma session_upd: "(\<And>os. same_sdk os (f os)) \<Longrightarrow> keeps P (upd_session f)"
  by (auto simp: keeps_def upd_session_def intro: session)

lemma ask_op: "keeps P (ask f)"
  by (simp add: ask_def repo_op)

lemma clock_op: "keeps P (read_clock env)"
  unfolding read_clock_def by (rule session_op) (auto simp: same_sdk_def)

lemma guard_op: "keeps P f \<Longrightarrow> keeps P (with_guard x f)"
  by (auto simp: keeps_def with_guard_def repo split: prod.split) (metis repo snd_conv)

lemma known_sessions: "keeps P (on_session (session_terminal env key source))" "keeps P (on_session (forget_pruned env key))"
  "keeps P (on_session (mark_dead key reason source))"
  by (auto intro: session_op same_sdk_session)

lemmas frame_ops = keeps_sbind keeps_sret repo_op known_sessions ask_op clock_op guard_op sfold_keeps

lemma terminal_op: "keeps P (terminal env key reason source)"
  unfolding terminal_def Let_def by (rule keeps_at, intro frame_ops)

lemma prune_op: "keeps P (prune env)"
  unfolding prune_def by (rule keeps_at, intro frame_ops)

lemma expire_entry_op: "keeps P (expire_entry env s now key)"
proof -
  have "keeps P (sbind (ask (token (oe_time env))) (\<lambda>tok. with_guard (Some (tok, ENQUEUE)) (terminal env key ''EXPIRED_DATA'' AGE_EXPIRED)))"
    by (intro frame_ops terminal_op)
  from keepsD [OF this] show ?thesis by (auto simp: expire_entry_def intro!: keepsI split: option.split)
qed

lemma expire_op: "keeps P (expire_outbox env)"
proof -
  have k: "keeps P (\<lambda>st. sbind (sfold (expire_entry env s now) (dkeys (entries st))) (\<lambda>_. prune env) st)" for s now
    by (rule keeps_at, intro frame_ops expire_entry_op prune_op)
  have "keeps P (sbind (read_clock env) (\<lambda>now st. sbind (sfold (expire_entry env s now) (dkeys (entries st))) (\<lambda>_. prune env) st))" for s
    by (intro frame_ops k)
  from keepsD [OF this] show ?thesis
    unfolding expire_outbox_def by (intro frame_ops keepsI) (auto split: option.split)
qed

lemma insert_staged_op: "keeps P (insert_staged env key raw e fresh row x)"
proof (rule keepsI)
  fix st assume "P st"
  then have "P (snd (with_guard x (on_repo (insert_batch (oe_sql env) (oe_time env) row raw)) st))"
    using keepsD [OF guard_op [OF repo_op]] by blast
  then show "P (snd (insert_staged env key raw e fresh row x st))"
    by (auto simp: insert_staged_def insert_failed_def inserted_def Let_def same_sdk_def split: prod.splits sum.splits option.split intro!: session)
qed

lemma enqueue_new_op: "keeps P (enqueue_new env raw w now assoc tok c)"
proof (rule keepsI)
  fix st assume p: "P st"
  have i: "P (snd (insert_staged env key raw e fresh row x (st\<lparr>ob_session := os\<rparr>)))" if "same_sdk (ob_session st) os" for key e fresh row x os
    using keepsD [OF insert_staged_op session [OF p that]] .
  have "keeps P (sbind (upd_session (rejected_attempt \<circ> add_fact f_enqueue_rejected_attempts 1)) (\<lambda>_.
         sbind (on_repo (count_attempt (oe_sql env) True)) (\<lambda>_. sret False)))"
    by (intro frame_ops session_upd) (simp add: same_sdk_def)
  from keepsD [OF this p] show "P (snd (enqueue_new env raw w now assoc tok c st))"
    using p i same_sdk_session(4)
    by (auto simp: enqueue_new_def Let_def same_sdk_def split: option.split prod.split intro!: session)
qed

lemma enqueue_op: "keeps P (enqueue env raw now assoc tok)"
proof -
  have "keeps P (sbind (expire_outbox env) (\<lambda>_. enqueue_new env raw w now assoc tok c))" for w c
    by (intro keeps_sbind expire_op enqueue_new_op)
  from keepsD [OF this] show ?thesis
    unfolding enqueue_def by (intro frame_ops keepsI) (auto split: option.split)
qed

lemma eligible_op: "keeps P (eligible env tok now es)"
proof (induction es)
  case (Cons e es)
  have "keeps P (sbind (if platform_time s then ask (require_time (oe_time env) tok SEND) else sret None) (\<lambda>current st.
             case (case current of None \<Rightarrow> Inr False | Some s \<Rightarrow> held_back s (b_row e)) of
               Inl x \<Rightarrow> (Inl x, st)
             | Inr True \<Rightarrow> eligible env tok now es st
             | Inr False \<Rightarrow> sbind (eligible env tok now es) (\<lambda>r. sret (e # r)) st))" for s
  proof (intro keeps_sbind keeps_if keepsI)
    fix current st assume p: "P st"
    have "keeps P (sbind (eligible env tok now es) (\<lambda>r. sret (e # r)))" by (intro frame_ops Cons.IH)
    from keepsD [OF this p] keepsD [OF Cons.IH p] p
    show "P (snd (case (case current of None \<Rightarrow> Inr False | Some s \<Rightarrow> held_back s (b_row e)) of
               Inl x \<Rightarrow> (Inl x, st)
             | Inr True \<Rightarrow> eligible env tok now es st
             | Inr False \<Rightarrow> sbind (eligible env tok now es) (\<lambda>r. sret (e # r)) st))"
      by (auto split: sum.split bool.split)
  qed (auto intro: keepsD [OF ask_op])
  from keepsD [OF this] keepsD [OF Cons.IH] show ?case by (auto intro!: keepsI)
qed (simp add: keeps_def)

lemma reserve_entry_op: "keeps P (reserve_entry env tok c e)"
proof (rule keepsI)
  fix st assume p: "P st"
  have "keeps P (sbind (with_guard g (on_repo m)) (\<lambda>_. sbind (read_clock env) (\<lambda>now.
      sbind (upd_session (sent_session env key e c attempts n now)) (\<lambda>_. sret (Some raw)))))" for g m key attempts n raw
    by (intro frame_ops session_upd same_sdk_sent)
  from keepsD [OF this p] show "P (snd (reserve_entry env tok c e st))"
    using p by (auto simp: reserve_entry_def Let_def same_sdk_def intro!: session)
qed

lemma reserve_pick_op: "keeps P (reserve_pick env tok now)"
proof (rule keepsI)
  fix st assume p: "P st"
  have "keeps P (sbind (eligible env tok now es) (\<lambda>found st.
           (let c = choose_category (os_prefer_new (ob_session st)) active found
            in case choices c active found of [] \<Rightarrow> (Inr None, st) | e # es \<Rightarrow> reserve_entry env tok c (first_order es e) st)))" for es active
    by (intro keeps_sbind eligible_op keepsI) (auto simp: Let_def split: list.split intro: keepsD [OF reserve_entry_op])
  from keepsD [OF this p] show "P (snd (reserve_pick env tok now st))"
    using p by (simp add: reserve_pick_def Let_def)
qed

lemma reserve_op: "keeps P (reserve env tok)"
proof -
  have "keeps P (sbind (upd_session (\<lambda>os. os\<lparr>os_entries := deactivate_due now (os_entries os)\<rparr>)) (\<lambda>_. reserve_pick env tok now))" for now
    by (intro keeps_sbind session_upd reserve_pick_op) (simp add: same_sdk_def)
  from keepsD [OF this] show ?thesis
    unfolding reserve_def by (intro frame_ops expire_op session_upd keepsI) (auto simp: same_sdk_def)
qed

lemma submission_failed_op: "keeps P (submission_failed env key)"
  unfolding submission_failed_def by (rule session_upd) (auto simp: same_sdk_def Let_def split: option.split)

lemma ack_op: "keeps P (ack_stored env key e)" "keeps P (ack_rejected env key e codes)"
proof -
  have "keeps P (upd_session (\<lambda>os. emit_fact env ''conflict'' key e [] (add_fact f_conflicting_acks 1 os)))"
    by (rule session_upd) (simp add: same_sdk_def)
  then show "keeps P (ack_stored env key e)"
    unfolding ack_stored_def by (intro keeps_if frame_ops session_upd same_sdk_stored) (simp add: same_sdk_def)
  show "keeps P (ack_rejected env key e codes)"
    unfolding ack_rejected_def Let_def by (intro keeps_if frame_ops session_upd terminal_op) (simp add: same_sdk_def)
qed

lemma acknowledge_op: "keeps P (acknowledge env payload)"
proof (rule keepsI)
  fix st assume p: "P st"
  have "keeps P (sbind (upd_session (add_fact f_unknown_acks 1)) (\<lambda>_. sret x))" for x :: bool
    by (intro frame_ops session_upd) (simp add: same_sdk_def)
  from keepsD [OF this p] keepsD [OF ack_op(1) p] keepsD [OF ack_op(2) p] p show "P (snd (acknowledge env payload st))"
    by (auto simp: acknowledge_def split: option.split)
qed

lemma open_gate_op: "keeps P (upd_session (open_gate_outbox w))"
  by (rule session_upd) (simp add: same_sdk_def)

lemma stats_op: "keeps P (stats env)"
  unfolding stats_def by (intro frame_ops keepsI) (simp add: Let_def)

lemma attach_rows_op: "keeps P (attach_rows env rows acc)"
proof (induction rows arbitrary: acc)
  case (Cons row rows)
  have "keeps P (on_session (attach_row env row'))" for row'
    by (rule session_op) (auto simp: attach_row_def attach_new_def stage_def same_sdk_def Let_def split: option.splits if_splits)
  then have "keeps P (sbind (on_session (attach_row env row')) (\<lambda>_. attach_rows env rows acc'))" for row' acc'
    by (intro keeps_sbind Cons.IH)
  from keepsD [OF this] show ?case by (auto intro!: keepsI split: sum.split)
qed (simp add: keeps_def)

lemma attach_op: "keeps P (attach_outbox env)"
proof (rule keepsI)
  fix st assume p: "P st"
  have "keeps P (on_session (attach_finish ids))" for ids by (rule session_op) (auto simp: attach_finish_def same_sdk_def split: if_splits)
  then have "keeps P (sbind (attach_rows env rows (0, 0)) (\<lambda>_. sbind (on_session (attach_finish ids)) (\<lambda>_ st.
       if dead_count (ob_session st) > ob_max_dead st then (Inl (StoreFormatError ''Existing Outbox exceeds DEAD quota''), st) else (Inr (), st))))" for rows ids
    by (intro keeps_sbind attach_rows_op keepsI) (auto dest: keepsD)
  from keepsD [OF this p] show "P (snd (attach_outbox env st))" by (simp add: attach_outbox_def Let_def)
qed

end

interpretation gateway: store_frame "\<lambda>st. ob_gateway st = g" for g
  by unfold_locales simp_all

lemma enqueue_keeps: "keeps (tracks_box env m) (enqueue env raw now assoc tok)"
  unfolding enqueue_def
proof (intro keeps_sbind ask_keeps keepsI)
  fix current st assume t: "tracks_box env m st"
  have n: "tracks_box env m (snd (sbind (expire_outbox env) (\<lambda>_. enqueue_new env raw w now assoc tok current) st))"
    if w: "oe_data env (ob_gateway st) raw = Some w" for w
  proof -
    obtain r u where x: "expire_outbox env st = (r, u)" by fastforce
    have "tracks_box env m u" "ob_gateway u = ob_gateway st"
      using keeps_result [OF expire_keeps x t] keeps_result [OF gateway.expire_op x refl] by auto
    with x w show ?thesis by (cases r) (auto intro: enqueue_new_keeps)
  qed
  then show "tracks_box env m (snd (case oe_data env (ob_gateway st) raw of
         None \<Rightarrow> (Inl (ValueError ''Invalid telemetry batch''), st)
       | Some w \<Rightarrow>
          (if w_message_id w \<in> set (dkeys (entries st))
           then (if stored_payload (rp_db (ob_repo st)) (w_message_id w) \<noteq> Some raw
                 then (Inl (ValueError ''Batch identity conflict''), st) else (Inr True, st))
           else sbind (expire_outbox env) (\<lambda>_. enqueue_new env raw w now assoc tok current) st)))"
    using t by (auto split: option.split)
qed

section \<open>Reserve\<close>

lemma eligible_props:
  assumes "eligible env tok now es st = (r, u)" "tracks_box env m st"
  shows "tracks_box env m u \<and> ob_session u = ob_session st \<and> (\<forall>found. r = Inr found \<longrightarrow> set found \<subseteq> {e \<in> set es. sendable now e})"
  using assms
proof (induction es arbitrary: st r u)
  case (Cons e es)
  let ?ask = "if platform_time st then ask (require_time (oe_time env) tok SEND) else sret None"
  obtain x v where a: "?ask st = (x, v)" by fastforce
  have v: "tracks_box env m v" "ob_session v = ob_session st"
    using a Cons.prems(2) keeps_result [OF ask_keeps, of "require_time (oe_time env) tok SEND" st]
    by (auto simp: ask_def on_repo_def split: if_splits prod.splits)
  obtain r2 u2 where e2: "eligible env tok now es v = (r2, u2)" by fastforce
  obtain r1 u1 where e1: "eligible env tok now es st = (r1, u1)" by fastforce
  note ih2 = Cons.IH [OF e2 v(1)] note ih1 = Cons.IH [OF e1 Cons.prems(2)]
  show ?case
  proof (cases "sendable now e")
    case False
    with Cons.prems(1) e1 ih1 show ?thesis by auto
  next
    case True
    show ?thesis
    proof (cases x)
      case (Inl y)
      with True a v Cons.prems(1) show ?thesis by auto
    next
      case (Inr c)
      with True a v Cons.prems(1) e2 ih2 show ?thesis
        by (auto simp: sbind_def split: sum.splits bool.splits prod.splits option.splits)
    qed
  qed
qed simp

lemma first_order_mem: "first_order es e \<in> insert e (set es)"
  by (induction es arbitrary: e) (simp_all, metis insertE insertI1 insertI2)

lemma choices_sub: "set (choices c active es) \<subseteq> set es"
  by (auto simp: choices_def)

lemma update_view:
  assumes "tracks_box env m st" "dget (entries st) key = Some e"
    and "rp_db rp = change_row key (fold set_field [SetAttempts n, SetNextDue 0]) (rp_db (ob_repo st))"
  shows "dview (rp_db rp) = (view (entries st))(key \<mapsto> (entry_core e)\<lparr>a_attempts := n\<rparr>)" "dwf (db_batches (rp_db rp))"
    "db_next_order (rp_db rp) = db_next_order (rp_db (ob_repo st))"
    "dget (db_batches (rp_db rp)) k = Some p \<Longrightarrow> payload_ok env (ob_gateway st) k p"
proof -
  obtain row raw where r: "dget (db_batches (rp_db (ob_repo st))) key = Some (row, raw)" "stored_core (row, raw) = entry_core e"
    "payload_ok env (ob_gateway st) key (row, raw)" using stored_of_entry [OF assms(1,2)] .
  have c: "stored_core (row\<lparr>r_attempts := n, r_next_due := 0\<rparr>, raw) = (entry_core e)\<lparr>a_attempts := n\<rparr>"
    unfolding r(2) [symmetric] by (simp add: stored_core_def core_def)
  have d: "rp_db rp = (rp_db (ob_repo st))\<lparr>db_batches := dset key (row\<lparr>r_attempts := n, r_next_due := 0\<rparr>, raw) (db_batches (rp_db (ob_repo st)))\<rparr>"
    unfolding assms(3) change_row_def using r(1) by simp
  have "dview (rp_db rp) = (dview (rp_db (ob_repo st)))(key \<mapsto> (entry_core e)\<lparr>a_attempts := n\<rparr>)"
    unfolding d dview_def [abs_def] using c by (auto simp: fun_eq_iff)
  then show "dview (rp_db rp) = (view (entries st))(key \<mapsto> (entry_core e)\<lparr>a_attempts := n\<rparr>)"
    by (simp only: tracksD(3) [OF assms(1)])
  show "dwf (db_batches (rp_db rp))" "db_next_order (rp_db rp) = db_next_order (rp_db (ob_repo st))"
    unfolding d using tracksD(2) [OF assms(1)] by simp_all
  have "payload_ok env (ob_gateway st) key (row\<lparr>r_attempts := n, r_next_due := 0\<rparr>, raw)" using r(3) by (simp add: payload_ok_def)
  then show "dget (db_batches (rp_db rp)) k = Some p \<Longrightarrow> payload_ok env (ob_gateway st) k p"
    using tracksD(4) [OF assms(1)] unfolding d by (cases "k = key") auto
qed

lemma reserve_entry_keeps:
  assumes t: "tracks_box env m st" and e: "dget (entries st) key = Some e" "r_state (b_row e) = PENDING"
    and a: "card (active_keys (entries st)) < 8" and l: "length (os_rate (ob_session st)) < 4"
  shows "tracks_box env m (snd (reserve_entry env tok c e st))"
proof -
  have id: "r_message_id (b_row e) = key"
    using conjunct1 [OF tracksD(6) [OF t, unfolded order_ok_def, rule_format, OF view_entry [OF e(1)]]] by simp
  let ?n = "min (r_attempts (b_row e) + 1) MAX_SAFE" let ?g = "if rp_time (ob_repo st) = None then None else Some (tok, SEND)"
  obtain row raw where r: "dget (db_batches (rp_db (ob_repo st))) key = Some (row, raw)" "stored_core (row, raw) = entry_core e"
    "payload_ok env (ob_gateway st) key (row, raw)" using stored_of_entry [OF t e(1)] .
  have h: "r_hash row = r_hash (b_row e)" using arg_cong [OF r(2), of a_hash] by (simp add: stored_core_def core_def)
  have p: "stored_payload (rp_db (ob_repo st)) key = Some raw" using r(1) by (simp add: stored_payload_def)
  have nc: "\<not> corrupt env st e" using r(3) h id p by (auto simp: corrupt_def payload_ok_def)
  let ?upd = "on_repo (update_batch (oe_sql env) (oe_time env) key [SetAttempts ?n, SetNextDue 0])"
  obtain y s where u: "with_guard ?g ?upd st = (y, s)" by fastforce
  then obtain s0 where s0: "?upd (set_guard ?g st) = (y, s0)" "s = set_guard None s0"
    by (cases "?upd (set_guard ?g st)") (simp add: with_guard_eq)
  have main: "tracks_box env m (snd (sbind (with_guard ?g ?upd) (\<lambda>_. sbind (read_clock env) (\<lambda>now.
      sbind (upd_session (sent_session env key e c ?n (length raw) now)) (\<lambda>_. sret (Some raw)))) st))"
    if q: "\<not> sum_list (map snd (os_rate (ob_session st))) + length raw > 512 * 1024"
  proof (cases y)
    case (Inl z)
    with on_repo_Inl [OF effect_update] s0(1) obtain rp where "s0 = (set_guard ?g st)\<lparr>ob_repo := rp\<rparr>" "rp_db rp = rp_db (ob_repo st)" by fastforce
    then have "tracks_box env m s" using t ob_ok_cong [of s0 st env m] s0(2) by (simp add: entries_def)
    with u Inl show ?thesis by simp
  next
    case (Inr z)
    with on_repo_Inr [OF effect_update] s0(1) obtain rp where rp: "s0 = (set_guard ?g st)\<lparr>ob_repo := rp\<rparr>"
      "rp_db rp = change_row key (fold set_field [SetAttempts ?n, SetNextDue 0]) (rp_db (ob_repo st))" by fastforce
    note v = update_view [OF t e(1) rp(2)]
    let ?now = "oe_clock env (os_ticks (ob_session st))"
    define os where "os = sent_session env key e c ?n (length raw) ?now ((ob_session st)\<lparr>os_ticks := os_ticks (ob_session st) + 1\<rparr>)"
    have res: "snd (sbind (with_guard ?g ?upd) (\<lambda>_. sbind (read_clock env) (\<lambda>now.
      sbind (upd_session (sent_session env key e c ?n (length raw) now)) (\<lambda>_. sret (Some raw)))) st) = moved st os (rp\<lparr>rp_guard := None\<rparr>)"
      using u Inr s0(2) rp(1) by (simp add: read_clock_eq upd_session_def os_def moved_def set_guard_def sbind_def)
    let ?e = "sent_entry ?n ?now e"
    have os: "os_entries os = dset key ?e (entries st)" "os_rate os = os_rate (ob_session st) @ [(?now, length raw)]" "os_staged os = os_staged (ob_session st)"
      by (simp_all add: os_def sent_session_def Let_def entries_def)
    have ec: "entry_core ?e = (entry_core e)\<lparr>a_attempts := ?n\<rparr>" by (simp add: sent_entry_def entry_core_def core_def)
    have vw: "view (os_entries os) = (view (entries st))(key \<mapsto> (entry_core e)\<lparr>a_attempts := ?n\<rparr>)" unfolding os(1) view_dset ec ..
    have act: "card (active_keys (os_entries os)) \<le> 8"
    proof -
      have "card (active_keys (os_entries os)) \<le> card (insert key (active_keys (entries st)))"
        unfolding os(1) using active_dset [of key ?e "entries st"] by (intro card_mono) (auto split: if_splits)
      also have "\<dots> \<le> 8" using a by (simp add: card_insert_if)
      finally show ?thesis .
    qed
    have n: "abox_step\<^sup>*\<^sup>* m (view (os_entries os))"
    proof -
      have "abox_step (view (entries st)) (view (os_entries os))"
        unfolding vw using ab_attempt [where m = "view (entries st)" and k = key and a = "entry_core e"] view_entry [OF e(1)] e(2) by simp
      then show ?thesis using t by (auto simp: tracks_box_def)
    qed
    have qo: "quota_ok (ob_max_batches st) (ob_max_bytes st) (ob_max_dead st) (view (os_entries os))"
      "order_ok (db_next_order (rp_db rp)) (view (os_entries os))"
      unfolding vw v(3) using quota_attempt [OF tracksD(5) [OF t] view_entry [OF e(1)]]
        order_change [OF tracksD(6) [OF t] view_entry [OF e(1)]] id e(2)
        tracksD(6) [OF t, unfolded order_ok_def, rule_format, OF view_entry [OF e(1)]] by auto
    show ?thesis unfolding res tracks_box_def ob_ok_def
      using tracksD(1) [OF t] tracks_staged [OF t] v(1,2,4) vw os act n qo l q by auto
  qed
  show ?thesis
    using nc p t main by (simp add: reserve_entry_def Let_def id)
qed

lemma active_keys_list: "dwf d \<Longrightarrow> card (active_keys d) = length (filter b_active (dvals d))"
proof -
  assume d: "dwf d"
  have "active_keys d = set (map fst (filter (b_active \<circ> snd) d))"
    using dwf_mem_iff [OF d] by (force simp: active_keys_def)
  moreover have "distinct (map fst (filter (b_active \<circ> snd) d))" using d by (simp add: dwf_def distinct_map_filter)
  ultimately have "card (active_keys d) = length (filter (b_active \<circ> snd) d)" by (metis distinct_card length_map)
  also have "\<dots> = length (filter b_active (dvals d))" by (simp add: filter_map)
  finally show ?thesis .
qed

lemma reserve_pick_keeps:
  assumes t: "tracks_box env m st" and l: "length (os_rate (ob_session st)) < 4"
  shows "tracks_box env m (snd (reserve_pick env tok now st))"
proof -
  let ?es = "dvals (entries st)"
  obtain r u where el: "eligible env tok now ?es st = (r, u)" by fastforce
  note p = eligible_props [OF el t]
  have pick: "tracks_box env m (snd (reserve_entry env tok c (first_order es e) u))"
    if "r = Inr found" "choices c active found = e # es" "\<not> length (filter b_active ?es) \<ge> 8" for found c active e es
  proof -
    have "first_order es e \<in> set ?es \<and> sendable now (first_order es e)"
      using first_order_mem [of es e] that(2) choices_sub [of c active found] p that(1) by auto
    then obtain key where k: "dget (entries u) key = Some (first_order es e)" "r_state (b_row (first_order es e)) = PENDING"
      using p dwf_mem_iff [OF tracksD(1) [OF t]] by (auto simp: entries_def sendable_def)
    show ?thesis
      by (rule reserve_entry_keeps [OF _ k])
         (use p that(3) l active_keys_list [OF tracksD(1) [OF t]] in \<open>auto simp: entries_def\<close>)
  qed
  show ?thesis
  proof (cases r)
    case (Inl x)
    with el p t show ?thesis by (simp add: reserve_pick_def Let_def)
  next
    case (Inr found)
    with el p t pick [OF Inr] show ?thesis by (auto simp: reserve_pick_def Let_def split: list.split)
  qed
qed

lemma deactivate_get: "dget (deactivate_due now d) k = map_option (\<lambda>e. if b_active e \<and> now \<ge> b_due e then e\<lparr>b_active := False\<rparr> else e) (dget d k)"
  by (induction d) (auto simp: deactivate_due_def)

lemma deactivate_props: "dwf d \<Longrightarrow> dwf (deactivate_due now d)" "view (deactivate_due now d) = view d" "active_keys (deactivate_due now d) \<subseteq> active_keys d"
proof -
  show "dwf d \<Longrightarrow> dwf (deactivate_due now d)" by (simp add: dwf_def deactivate_due_def comp_def case_prod_beta)
  show "view (deactivate_due now d) = view d"
  proof (rule view_same)
    fix k show "map_option entry_core (dget (deactivate_due now d) k) = map_option entry_core (dget d k)"
      by (cases "dget d k") (auto simp: deactivate_get entry_core_def)
  qed
  show "active_keys (deactivate_due now d) \<subseteq> active_keys d" by (auto simp: active_keys_def deactivate_get split: if_splits)
qed

lemma drop_old_rate_props: "length (drop_old_rate now r) \<le> length r \<and> sum_list (map snd (drop_old_rate now r)) \<le> sum_list (map snd r)"
  by (induction r rule: drop_old_rate.induct) auto

lemma drop_rate_keeps: "keeps (tracks_box env m) (upd_session (\<lambda>os. os\<lparr>os_rate := drop_old_rate now (os_rate os)\<rparr>))"
proof (rule keepsI)
  fix st assume t: "tracks_box env m st"
  note d = drop_old_rate_props [of now "os_rate (ob_session st)"]
  show "tracks_box env m (snd (upd_session (\<lambda>os. os\<lparr>os_rate := drop_old_rate now (os_rate os)\<rparr>) st))"
    using t d unfolding tracks_box_def ob_ok_def upd_session_def entries_def by auto
qed

lemma deactivate_keeps: "keeps (tracks_box env m) (upd_session (\<lambda>os. os\<lparr>os_entries := deactivate_due now (os_entries os)\<rparr>))"
  by (rule upd_session_keeps) (auto simp: calm_def deactivate_props dest: set_mp [OF deactivate_props(3)])

lemma reserve_keeps: "keeps (tracks_box env m) (reserve env tok)"
proof -
  have "tracks_box env m (snd (sbind (upd_session (\<lambda>os. os\<lparr>os_entries := deactivate_due now (os_entries os)\<rparr>)) (\<lambda>_. reserve_pick env tok now) st))"
    if t: "tracks_box env m st" and l: "length (os_rate (ob_session st)) < 4" for st now
  proof -
    let ?st = "snd (upd_session (\<lambda>os. os\<lparr>os_entries := deactivate_due now (os_entries os)\<rparr>) st)"
    have "tracks_box env m ?st" "length (os_rate (ob_session ?st)) < 4" using keepsD [OF deactivate_keeps t] l by (simp_all add: upd_session_def)
    from reserve_pick_keeps [OF this] show ?thesis by (simp add: upd_session_def sbind_def)
  qed
  then show ?thesis
    unfolding reserve_def
    by (intro keeps_sbind ask_keeps read_clock_keeps expire_keeps drop_rate_keeps keepsI) auto
qed

section \<open>Outcomes\<close>

lemma put_same_core:
  assumes "dget d k = Some e" "entry_core e' = entry_core e" "b_active e' \<Longrightarrow> b_active e"
  shows "view (dset k e' d) = view d" "active_keys (dset k e' d) \<subseteq> active_keys d"
  using assms by (auto simp: view_def fun_eq_iff active_keys_def split: if_splits)

lemma submission_failed_keeps: "keeps (tracks_box env m) (submission_failed env key)"
  unfolding submission_failed_def
proof (rule upd_session_keeps)
  fix os
  let ?f = "\<lambda>os. case dget (os_entries os) key of None \<Rightarrow> os
     | Some e \<Rightarrow> (if r_state (b_row e) = PENDING
         then let e = e\<lparr>b_ever_sent := b_previous_sent e, b_active := False\<rparr>
              in emit_fact env ''sdk_rejected'' key e [] (put_entry key e os)
         else os)"
  have c: "entry_core (e\<lparr>b_ever_sent := x, b_active := False\<rparr>) = entry_core e" for e x by (simp add: entry_core_def)
  show "calm os (?f os)"
    using put_same_core(2) [OF _ c] by (fastforce simp: calm_def Let_def split: option.split)
  show "dwf (os_entries (?f os)) \<and> view (os_entries (?f os)) = view (os_entries os)" if "dwf (os_entries os)"
    using that put_same_core(1) [OF _ c] by (fastforce simp: Let_def split: option.split)
qed

lemma ack_stored_keeps:
  assumes t: "tracks_box env m st" and e: "dget (entries st) key = Some e" and a: "0 < r_attempts (b_row e)"
  shows "tracks_box env m (snd (ack_stored env key e st))"
proof (cases "r_state (b_row e) = DEAD \<and> (b_source e \<noteq> Some AGE_EXPIRED \<or> \<not> b_ever_sent e)")
  case True
  have "keeps (tracks_box env m) (sbind (upd_session (\<lambda>os. emit_fact env ''conflict'' key e [] (add_fact f_conflicting_acks 1 os))) (\<lambda>_. sret False))"
    by (intro keeps_sbind upd_session_keeps keeps_sret) (auto intro: calm_fun)
  with True t show ?thesis by (auto simp: ack_stored_def keepsD)
next
  case False
  obtain y s where d: "on_repo (delete_batch (oe_sql env) key) st = (y, s)" by fastforce
  show ?thesis
  proof (cases y)
    case (Inl z)
    with on_repo_Inl [OF effect_delete] d obtain rp where "s = st\<lparr>ob_repo := rp\<rparr>" "rp_db rp = rp_db (ob_repo st)" by blast
    with d Inl t ob_ok_cong [of s st env m] False show ?thesis by (auto simp: ack_stored_def entries_def)
  next
    case (Inr z)
    with on_repo_Inr [OF effect_delete] d obtain rp where s: "s = st\<lparr>ob_repo := rp\<rparr>" "rp_db rp = delete_row key (rp_db (ob_repo st))" by blast
    define os where "os = stored_session env key e (ob_session st)"
    have os: "os_entries os = ddel key (entries st)" "os_rate os = os_rate (ob_session st)" "os_staged os = os_staged (ob_session st)"
      by (simp_all add: os_def stored_session_def Let_def entries_def)
    have r: "snd (ack_stored env key e st) = moved st os rp"
      using d Inr False s by (auto simp: ack_stored_def upd_session_def os_def moved_def)
    have st: "a_state (entry_core e) = PENDING \<or> a_source (entry_core e) = Some AGE_EXPIRED" using False by (cases "r_state (b_row e)") auto
    have "abox_step (view (entries st)) ((view (entries st))(key := None))"
      using ab_stored [where m = "view (entries st)" and k = key and a = "entry_core e"] view_entry [OF e] a st by simp
    then show ?thesis unfolding r
      using t tracksD [OF t] os s active_ddel [of key "entries st"]
      by (intro tracks_moved) (auto simp: calm_def entries_def quota_remove order_remove delete_row_get split: if_splits)
  qed
qed

lemma ack_rejected_keeps:
  assumes t: "tracks_box env m st" and e: "dget (entries st) key = Some e" "r_state (b_row e) = PENDING"
  shows "tracks_box env m (snd (ack_rejected env key e codes st))"
proof (cases "codes \<noteq> [] \<and> set codes \<subseteq> RETRYABLE")
  case True
  let ?now = "oe_clock env (os_ticks (ob_session st))" let ?e = "e\<lparr>b_due := ?now + 60, b_active := False\<rparr>"
  let ?os = "emit_fact env ''retryable_reject'' key ?e [] (put_entry key ?e ((ob_session st)\<lparr>os_ticks := os_ticks (ob_session st) + 1\<rparr>))"
  have "entry_core ?e = entry_core e" by (simp add: entry_core_def)
  note c = put_same_core [OF e(1) this]
  have "tracks_box env m (st\<lparr>ob_session := ?os\<rparr>)"
    using c tracksD(1) [OF t] by (intro tracks_calm [OF t]) (auto simp: calm_def entries_def)
  moreover have "snd (ack_rejected env key e codes st) = st\<lparr>ob_session := ?os\<rparr>"
    using True by (simp add: ack_rejected_def read_clock_eq upd_session_def Let_def)
  ultimately show ?thesis by simp
next
  case False
  have "tracks_box env m (snd (terminal env key (join_commas codes) PERMANENT_REJECT st))" by (rule terminal_keeps [OF t e])
  with False show ?thesis by (auto simp: ack_rejected_def sbind_def split: prod.splits sum.splits)
qed

lemma acknowledge_keeps: "keeps (tracks_box env m) (acknowledge env payload)"
proof (rule keepsI)
  fix st assume t: "tracks_box env m st"
  have u: "tracks_box env m (snd (sbind (upd_session (add_fact f_unknown_acks 1)) (\<lambda>_. sret x) st))" for x :: bool
  proof -
    have "keeps (tracks_box env m) (sbind (upd_session (add_fact f_unknown_acks 1)) (\<lambda>_. sret x))"
      by (intro keeps_sbind upd_session_keeps keeps_sret) (auto intro: calm_fun)
    from keepsD [OF this t] show ?thesis .
  qed
  have ar: "tracks_box env m (snd (ack_rejected env key e codes st))" if "dget (entries st) key = Some e" "r_state (b_row e) \<noteq> DEAD" for key e codes
    using ack_rejected_keeps [OF t that(1)] that(2) by (cases "r_state (b_row e)") auto
  show "tracks_box env m (snd (acknowledge env payload st))"
    using t u ack_stored_keeps [OF t] ar
    by (auto simp: acknowledge_def split: option.split)
qed

lemma open_gate_keeps: "keeps (tracks_box env m) (upd_session (open_gate_outbox w))"
proof (rule keepsI)
  fix st assume t: "tracks_box env m st"
  have g: "dget (map (\<lambda>(k, e). (k, e\<lparr>b_category := History\<rparr>)) d) k = map_option (\<lambda>e. e\<lparr>b_category := History\<rparr>) (dget d k)" for d :: "(string, BatchState) dict" and k
    by (simp add: map_of_map)
  let ?d = "map (\<lambda>(k, e). (k, e\<lparr>b_category := History\<rparr>)) (entries st)"
  have d: "view ?d = view (entries st)" "active_keys ?d = active_keys (entries st)" "dwf (entries st) \<Longrightarrow> dwf ?d"
  proof -
    show "view ?d = view (entries st)"
    proof (rule view_same)
      fix k show "map_option entry_core (dget ?d k) = map_option entry_core (dget (entries st) k)"
        by (cases "dget (entries st) k") (auto simp: g entry_core_def)
    qed
  qed (auto simp: g active_keys_def dwf_def comp_def case_prod_beta)
  show "tracks_box env m (snd (upd_session (open_gate_outbox w) st))"
    using t d tracks_staged [OF t] unfolding tracks_box_def ob_ok_def upd_session_def
    by (auto simp: open_gate_outbox_def entries_def g)
qed

lemma stats_keeps: "keeps (tracks_box env m) (stats env)"
  unfolding stats_def by (intro keeps_sbind ask_keeps keepsI) (simp add: Let_def)

section \<open>The store as a transition system\<close>

text \<open>Besides the operations of the store, its owner's clock moves (\<open>ob_clock\<close>): the time provider is
  shared with the rest of the agent.\<close>

inductive outbox_step :: "outbox_env \<Rightarrow> outbox \<Rightarrow> outbox \<Rightarrow> bool" for env where
  so_enqueue: "outbox_step env st (snd (enqueue env raw now assoc tok st))"
| so_reserve: "outbox_step env st (snd (reserve env tok st))"
| so_submission_failed: "outbox_step env st (snd (submission_failed env key st))"
| so_acknowledge: "outbox_step env st (snd (acknowledge env payload st))"
| so_open_gate: "outbox_step env st (snd (upd_session (open_gate_outbox w) st))"
| so_stats: "outbox_step env st (snd (stats env st))"
| so_clock: "outbox_step env st (st\<lparr>ob_repo := (ob_repo st)\<lparr>rp_time := time\<rparr>\<rparr>)"

lemma outbox_step_tracks: "outbox_step env st t \<Longrightarrow> tracks_box env m st \<Longrightarrow> tracks_box env m t"
proof (induction rule: outbox_step.induct)
  case (so_clock st time)
  have "tracks_box env m (st\<lparr>ob_repo := (ob_repo st)\<lparr>rp_time := time\<rparr>\<rparr>) = tracks_box env m st"
    by (rule ob_ok_cong) (simp_all add: entries_def)
  with so_clock show ?case by simp
qed (auto intro: keepsD [OF enqueue_keeps] keepsD [OF reserve_keeps] keepsD [OF submission_failed_keeps]
    keepsD [OF acknowledge_keeps] keepsD [OF open_gate_keeps] keepsD [OF stats_keeps])

text \<open>A database file the store may find: SQLite keeps its keys distinct, and the store that wrote it kept its
  orders distinct and below the next one. What the payloads hold is checked when opening.\<close>

definition db_wf :: "batch_db \<Rightarrow> bool" where
  "db_wf d \<longleftrightarrow> dwf (db_batches d) \<and> order_ok (db_next_order d) (dview d)"

lemma attach_new_eq:
  assumes "dget (os_entries os) (r_message_id row) = None" "os_staged os = []" "attach_new env row os = (Inr (), os')"
  shows "\<exists>e. os_entries os' = dset (r_message_id row) e (os_entries os) \<and> entry_core e = core row (r_terminal_source row) \<and> \<not> b_active e
    \<and> os_staged os' = [] \<and> os_rate os' = os_rate os"
  using assms by (auto simp: attach_new_def stage_def Let_def entry_core_def core_def split: if_splits)

lemma attach_rows_tracks:
  assumes "attach_rows env rows acc st = (Inr (), t)" "distinct (map r_message_id rows)" "set (map r_message_id rows) \<inter> fst ` set (entries st) = {}"
    and "dwf (entries st)" "os_staged (ob_session st) = []" "os_rate (ob_session st) = []" "active_keys (entries st) = {}"
    and "card (dom (view (entries st))) = fst acc" "(\<Sum>k\<in>dom (view (entries st)). a_size (the (view (entries st) k))) = snd acc"
    and "fst acc \<le> ob_max_batches st" "snd acc \<le> ob_max_bytes st"
  shows "t = moved st (ob_session t) (ob_repo st) \<and> dwf (entries t) \<and> os_staged (ob_session t) = [] \<and> os_rate (ob_session t) = []
    \<and> active_keys (entries t) = {} \<and> card (dom (view (entries t))) \<le> ob_max_batches st
    \<and> (\<Sum>k\<in>dom (view (entries t)). a_size (the (view (entries t) k))) \<le> ob_max_bytes st
    \<and> view (entries t) = view (entries st) ++ map_of (map (\<lambda>r. (r_message_id r, core r (r_terminal_source r))) rows)
    \<and> (\<forall>r \<in> set rows. \<exists>raw w. stored_payload (rp_db (ob_repo st)) (r_message_id r) = Some raw \<and> oe_sha256 env raw = r_hash r
         \<and> oe_data env (ob_gateway st) raw = Some w \<and> w_message_id w = r_message_id r)"
  using assms
proof (induction rows arbitrary: acc st)
  case Nil
  then show ?case by (simp add: entries_def)
next
  case (Cons row rows)
  from Cons.prems(1) obtain row' acc' where b: "bounded_row env row acc st = Inr (row', acc')" and
    a: "sbind (on_session (attach_row env row')) (\<lambda>_. attach_rows env rows acc') st = (Inr (), t)"
    by (auto split: sum.splits)
  obtain raw w where r: "stored_payload (rp_db (ob_repo st)) (r_message_id row) = Some raw" "oe_sha256 env raw = r_hash row"
    "oe_data env (ob_gateway st) raw = Some w" "w_message_id w = r_message_id row" "row' = row\<lparr>r_wire_timestamp := w_timestamp w\<rparr>"
    "acc' = (fst acc + 1, snd acc + r_size row)" "fst acc + 1 \<le> ob_max_batches st" "snd acc + r_size row \<le> ob_max_bytes st"
    using b by (cases acc) (auto simp: bounded_row_def split: if_splits option.splits)
  have k: "r_message_id row' = r_message_id row" "core row' (r_terminal_source row') = core row (r_terminal_source row)" "r_message_id row \<notin> fst ` set (entries st)"
    using r(5) Cons.prems(3) by (auto simp: core_def)
  from a obtain u where u: "on_session (attach_row env row') st = (Inr (), u)" "attach_rows env rows acc' u = (Inr (), t)" by (auto simp: res_simps)
  have none: "dget (os_entries (ob_session st)) (r_message_id row') = None" using k by (simp add: map_of_eq_None_iff entries_def)
  from u(1) obtain os where os: "attach_new env row' (ob_session st) = (Inr (), os)" "u = moved st os (ob_repo st)"
    using none by (auto simp: on_session_def attach_row_def moved_def split: prod.splits)
  from attach_new_eq [OF none Cons.prems(5) os(1)] obtain e where e: "os_entries os = dset (r_message_id row) e (entries st)"
    "entry_core e = core row (r_terminal_source row)" "\<not> b_active e" "os_staged os = []" "os_rate os = []"
    using k(1,2) Cons.prems(6) by (auto simp: entries_def)
  have v: "view (entries u) = (view (entries st))(r_message_id row \<mapsto> core row (r_terminal_source row))" using os(2) e by simp
  have nd: "r_message_id row \<notin> dom (view (entries st))" using k(3) by (simp add: dom_view)
  have f: "finite (dom (view (entries st)))" by (simp add: dom_view)
  have sz: "(\<Sum>k\<in>dom (view (entries u)). a_size (the (view (entries u) k))) = snd acc'"
  proof -
    have "(\<Sum>j\<in>dom (view (entries st)). a_size (the (view (entries u) j))) = (\<Sum>j\<in>dom (view (entries st)). a_size (the (view (entries st) j)))"
      using nd unfolding v by (intro sum.cong) auto
    then have "(\<Sum>j\<in>dom (view (entries u)). a_size (the (view (entries u) j))) = a_size (core row (r_terminal_source row)) + snd acc"
      using f nd Cons.prems(9) unfolding v by simp
    then show ?thesis using r(6) by (simp add: core_def)
  qed
  have cd: "card (dom (view (entries u))) = fst acc'"
    using f nd Cons.prems(8) r(6) unfolding v dom_fun_upd by simp
  have ac: "active_keys (entries u) = {}" using os(2) e(1,3) active_dset [of "r_message_id row" e "entries st"] Cons.prems(7) by simp
  have ih: "t = moved u (ob_session t) (ob_repo u) \<and> dwf (entries t) \<and> os_staged (ob_session t) = [] \<and> os_rate (ob_session t) = []
    \<and> active_keys (entries t) = {} \<and> card (dom (view (entries t))) \<le> ob_max_batches u
    \<and> (\<Sum>k\<in>dom (view (entries t)). a_size (the (view (entries t) k))) \<le> ob_max_bytes u
    \<and> view (entries t) = view (entries u) ++ map_of (map (\<lambda>r. (r_message_id r, core r (r_terminal_source r))) rows)
    \<and> (\<forall>r \<in> set rows. \<exists>raw w. stored_payload (rp_db (ob_repo u)) (r_message_id r) = Some raw \<and> oe_sha256 env raw = r_hash r
         \<and> oe_data env (ob_gateway u) raw = Some w \<and> w_message_id w = r_message_id r)"
    by (rule Cons.IH [OF u(2) _ _ _ _ _ ac cd sz])
       (use Cons.prems(2-4) os(2) e r(6-8) k(3) in \<open>auto\<close>)
  have "view (entries u) ++ map_of (map (\<lambda>r. (r_message_id r, core r (r_terminal_source r))) rows)
      = view (entries st) ++ map_of (map (\<lambda>r. (r_message_id r, core r (r_terminal_source r))) (row # rows))"
  proof -
    have "map_of (map (\<lambda>r. (r_message_id r, core r (r_terminal_source r))) rows) (r_message_id row) = None"
      using Cons.prems(2) by (auto simp: map_of_eq_None_iff image_image)
    then show ?thesis unfolding v by (auto simp: fun_eq_iff map_add_def split: option.splits)
  qed
  with ih have v': "view (entries t) = view (entries st) ++ map_of (map (\<lambda>r. (r_message_id r, core r (r_terminal_source r))) (row # rows))"
    by (simp only:)
  have t: "t = moved st (ob_session t) (ob_repo st)" using conjunct1 [OF ih] unfolding os(2) moved_moved moved_simps .
  have b: "\<forall>r \<in> set (row # rows). \<exists>raw w. stored_payload (rp_db (ob_repo st)) (r_message_id r) = Some raw \<and> oe_sha256 env raw = r_hash r
         \<and> oe_data env (ob_gateway st) raw = Some w \<and> w_message_id w = r_message_id r"
    using ih r(1-4) unfolding os(2) by simp
  from conjunct2 [OF ih] show ?case unfolding os(2) moved_simps using t v' b by blast
qed

lemma dead_count_view: "dwf (os_entries os) \<Longrightarrow> dead_count os = card (dead_set (view (os_entries os)))"
proof -
  assume d: "dwf (os_entries os)"
  let ?p = "\<lambda>e. r_state (b_row e) = DEAD"
  have "dead_set (view (os_entries os)) = set (map fst (filter (?p \<circ> snd) (os_entries os)))"
    using dwf_mem_iff [OF d] by (force simp: dead_set_def view_def)
  moreover have "distinct (map fst (filter (?p \<circ> snd) (os_entries os)))" using d by (simp add: dwf_def distinct_map_filter)
  ultimately have "card (dead_set (view (os_entries os))) = length (filter (?p \<circ> snd) (os_entries os))" by (metis distinct_card length_map)
  then show ?thesis by (simp add: dead_count_def filter_map)
qed

lemma stored_rows_view:
  assumes "db_wf d"
  shows "distinct (map r_message_id (stored_rows d))"
    "map_of (map (\<lambda>r. (r_message_id r, core r (r_terminal_source r))) (stored_rows d)) = dview d"
    "dget (db_batches d) k = Some (row, raw) \<Longrightarrow> row\<lparr>r_size := length raw\<rparr> \<in> set (stored_rows d) \<and> r_message_id row = k"
proof -
  let ?f = "\<lambda>(row, raw). row\<lparr>r_size := length raw\<rparr>" let ?g = "\<lambda>r. (r_message_id r, core r (r_terminal_source r))"
  have w: "dwf (db_batches d)" "order_ok (db_next_order d) (dview d)" using assms by (auto simp: db_wf_def)
  have id: "r_message_id (fst p) = k" if "(k, p) \<in> set (db_batches d)" for k p
  proof -
    have "dview d k = Some (stored_core p)" using that dwf_mem_iff [OF w(1)] by (simp add: dview_def)
    from conjunct1 [OF w(2) [unfolded order_ok_def, rule_format, OF this]] show ?thesis by (simp add: stored_core_def core_def)
  qed
  have ids: "map (r_message_id \<circ> ?f) (dvals (db_batches d)) = dkeys (db_batches d)"
    using id by (auto simp: case_prod_beta)
  have ms: "mset (stored_rows d) = mset (map ?f (dvals (db_batches d)))" by (simp add: stored_rows_def)
  have "mset (map r_message_id (stored_rows d)) = mset (dkeys (db_batches d))"
    using arg_cong [OF ms, of "image_mset r_message_id"] ids by (metis map_map mset_map)
  then show dist: "distinct (map r_message_id (stored_rows d))" using w(1) unfolding dwf_def by (metis mset_eq_imp_distinct_iff)
  have set_rows: "set (stored_rows d) = (\<lambda>(k, p). ?f p) ` set (db_batches d)" by (force simp: stored_rows_def)
  have pairs: "set (map ?g (stored_rows d)) = set (map (\<lambda>(k, p). (k, stored_core p)) (db_batches d))"
    unfolding set_map set_rows image_image using id by (intro image_cong) (auto simp: stored_core_def)
  have "map_of (map ?g (stored_rows d)) = map_of (map (\<lambda>(k, p). (k, stored_core p)) (db_batches d))"
    by (rule map_of_inject_set [THEN iffD2, OF _ _ pairs]) (use dist w(1) in \<open>auto simp: dwf_def comp_def case_prod_beta\<close>)
  also have "\<dots> = dview d" by (auto simp: dview_def fun_eq_iff map_of_map)
  finally show "map_of (map ?g (stored_rows d)) = dview d" .
  show "row\<lparr>r_size := length raw\<rparr> \<in> set (stored_rows d) \<and> r_message_id row = k" if "dget (db_batches d) k = Some (row, raw)"
    using dget_Some_mem [OF that] id [of k "(row, raw)"] unfolding set_rows by force
qed

lemma attach_outbox_ok:
  assumes a: "attach_outbox env st = (Inr (), t)" and d: "db_wf (rp_db (ob_repo st))"
    and s: "entries st = []" "os_staged (ob_session st) = []" "os_rate (ob_session st) = []"
  shows "tracks_box env (dview (rp_db (ob_repo st))) t"
proof -
  let ?d = "rp_db (ob_repo st)" let ?rows = "stored_rows ?d"
  note rw = stored_rows_view [OF d]
  obtain u where u: "attach_rows env ?rows (0, 0) st = (Inr (), u)"
    and f: "on_session (attach_finish (map r_message_id ?rows)) u = (Inr (), t)" "\<not> dead_count (ob_session t) > ob_max_dead t"
    using a by (auto simp: attach_outbox_def Let_def res_simps split: if_splits)
  have t: "t = u" using f(1) by (auto simp: on_session_def attach_finish_def split: if_splits)
  have e: "view (entries st) = Map.empty" "active_keys (entries st) = {}" using s(1) by (auto simp: view_def active_keys_def fun_eq_iff)
  note r = attach_rows_tracks [OF u rw(1)]
  have r: "u = moved st (ob_session u) (ob_repo st)" "dwf (entries u)" "os_staged (ob_session u) = []" "os_rate (ob_session u) = []"
    "active_keys (entries u) = {}" "card (dom (view (entries u))) \<le> ob_max_batches st"
    "(\<Sum>k\<in>dom (view (entries u)). a_size (the (view (entries u) k))) \<le> ob_max_bytes st" "view (entries u) = dview ?d"
    "\<And>r. r \<in> set ?rows \<Longrightarrow> \<exists>raw w. stored_payload ?d (r_message_id r) = Some raw \<and> oe_sha256 env raw = r_hash r
         \<and> oe_data env (ob_gateway st) raw = Some w \<and> w_message_id w = r_message_id r"
    using attach_rows_tracks [OF u rw(1)] s e rw(2) by auto
  have rp: "ob_repo u = ob_repo st" "ob_gateway u = ob_gateway st" "ob_max_batches u = ob_max_batches st" "ob_max_bytes u = ob_max_bytes st"
    by (subst r(1), simp)+
  have p: "payload_ok env (ob_gateway st) k p" if "dget (db_batches ?d) k = Some p" for k p
    using that r(9) [of "(fst p)\<lparr>r_size := length (snd p)\<rparr>"] rw(3) [of k "fst p" "snd p"]
    by (auto simp: payload_ok_def stored_payload_def)
  have q: "quota_ok (ob_max_batches u) (ob_max_bytes u) (ob_max_dead u) (view (entries u))"
    using r(2,6,7) rp f(2) dead_count_view [of "ob_session u"] unfolding quota_ok_def dead_set_def [symmetric] t
    by (auto simp: dom_view entries_def)
  show ?thesis
    unfolding tracks_box_def ob_ok_def t using r(2-5,8) rp p q d by (auto simp: db_wf_def)
qed

definition outbox_init :: "outbox_env \<Rightarrow> outbox \<Rightarrow> bool" where
  "outbox_init env st \<longleftrightarrow> (\<exists>gw mb my md sb sr a time fl os. outbox_open env gw mb my md (session_new sb sr a) time fl = (Inr (), os, Some st)
     \<and> (\<forall>f. fl = Some f \<longrightarrow> \<not> file_new f \<longrightarrow> db_wf (sf_content f)))"

lemma database_open_content: "database_open gw app tables ver fresh commit f = Inr f' \<Longrightarrow> sf_content f' = (if file_new f then fresh else sf_content f)"
  by (auto simp: database_open_def split: if_splits)

lemma attach_rows_repo: "attach_rows env rows acc st = (r, t) \<Longrightarrow> ob_repo t = ob_repo st"
proof (induction rows arbitrary: acc st)
  case (Cons row rows)
  have o: "on_session m st = (x, u) \<Longrightarrow> ob_repo u = ob_repo st" for m :: "(unit, OutboxSession) prog" and x u
    by (auto simp: on_session_def split: prod.splits)
  from Cons show ?case by (auto simp: sbind_def split: sum.splits prod.splits dest: o)
qed simp

lemma opened_db:
  assumes "outbox_open env gw mb my md os time fl = (Inr (), os', Some st)"
  shows "rp_db (ob_repo st) = (case fl of None \<Rightarrow> fresh_batches | Some g \<Rightarrow> if file_new g then fresh_batches else sf_content g)"
proof -
  have a: "attach_outbox env x = (Inr (), y) \<Longrightarrow> ob_repo y = ob_repo x" for x y
    by (auto simp: attach_outbox_def Let_def res_simps on_session_def attach_finish_def split: prod.splits if_splits dest!: attach_rows_repo)
  show ?thesis
    using assms unfolding outbox_open_def Let_def
    by (cases fl) (auto split: if_splits sum.splits prod.splits dest!: a database_open_content simp: blank_file_def)
qed

lemma fresh_batches_wf: "db_wf fresh_batches"
  by (simp add: db_wf_def fresh_batches_def order_ok_def dview_def)

lemma outbox_init_ok: "outbox_init env st \<Longrightarrow> ob_ok env st"
proof -
  assume "outbox_init env st"
  then obtain gw mb my md sb sr a time fl os where o: "outbox_open env gw mb my md (session_new sb sr a) time fl = (Inr (), os, Some st)"
    and fw: "\<And>f. fl = Some f \<Longrightarrow> \<not> file_new f \<Longrightarrow> db_wf (sf_content f)" unfolding outbox_init_def by blast
  let ?os = "if fl \<noteq> None then account (acct_recovery (oe_acct env)) (session_new sb sr a) else session_new sb sr a"
  let ?f = "case fl of None \<Rightarrow> blank_file fresh_batches | Some f \<Rightarrow> f"
  let ?st = "\<lambda>f. \<lparr>ob_gateway = gw, ob_max_batches = mb, ob_max_bytes = my, ob_max_dead = md,
                       ob_session = ?os, ob_repo = \<lparr>rp_db = sf_content f, rp_time = time, rp_row = None, rp_guard = None, rp_ops = 1,
                         rp_max_physical = 256 * 1024 * 1024, rp_min_free = 64 * 1024 * 1024\<rparr>\<rparr>"
  obtain f where f: "database_open gw APP_ID [''batches''] 2 fresh_batches (sq_commit (oe_sql env) 0) ?f = Inr f" "attach_outbox env (?st f) = (Inr (), st)"
    using o unfolding outbox_open_def Let_def by (auto split: if_splits sum.splits prod.splits)
  have "db_wf (sf_content f)"
    using database_open_content [OF f(1)] fw fresh_batches_wf by (cases fl) (auto simp: blank_file_def file_new_def)
  then have "tracks_box env (dview (rp_db (ob_repo (?st f)))) st"
    by (intro attach_outbox_ok [OF f(2)]) (auto simp: entries_def session_new_def)
  then show ?thesis by (simp add: tracks_box_def)
qed

interpretation outbox_store: invariant_system "outbox_init env" "outbox_step env" "ob_ok env" for env
proof
  show "ob_ok env t" if "outbox_step env s t" "ob_ok env s" for s t
    using outbox_step_tracks [OF that(1), where m = "view (entries s)"] that(2) by (simp add: tracks_box_def)
qed (rule outbox_init_ok)

section \<open>A concrete store\<close>

definition demo_sql :: sql_env where
  "demo_sql = \<lparr>sq_total = (\<lambda>_. 0), sq_free = (\<lambda>_. 1000000000), sq_busy = (\<lambda>_. False), sq_commit = (\<lambda>_. True)\<rparr>"

text \<open>A payload is its own message id and digest; an acknowledgement is the id it confirms.\<close>

definition demo_outbox_env :: outbox_env where
  "demo_outbox_env = \<lparr>oe_sql = demo_sql, oe_time = demo_time_env, oe_acct = demo_env, oe_clock = of_nat, oe_sha256 = id,
     oe_data = (\<lambda>_ raw. if raw = [] then None else Some \<lparr>w_message_id = raw, w_timestamp = 0\<rparr>),
     oe_ack = (\<lambda>_ p. Some \<lparr>ak_message_id = p, ak_stored = True, ak_codes = []\<rparr>), oe_row_bytes = (\<lambda>_. 100), oe_on_fact = None\<rparr>"

definition demo_box :: outbox where
  "demo_box = \<lparr>ob_gateway = ''gw'', ob_max_batches = 10, ob_max_bytes = 1000, ob_max_dead = 2, ob_session = session_new 100000 10 None,
     ob_repo = \<lparr>rp_db = fresh_batches, rp_time = None, rp_row = None, rp_guard = None, rp_ops = 1,
       rp_max_physical = 256 * 1024 * 1024, rp_min_free = 64 * 1024 * 1024\<rparr>\<rparr>"

lemmas outbox_eval = demo_sql_def demo_outbox_env_def demo_box_def session_new_def fresh_batches_def sbind_resume
  ask_def ask_time_def on_repo_def on_session_def upd_session_def entries_def enqueue_def enqueue_new_def over_quota_def expire_outbox_def
  new_row_def new_category_def stage_def used_bytes_def charge_def insert_staged_def with_guard_def insert_batch_def storage_guard_def
  RESERVE_def transaction_def insert_row_def accepted_def commit_guard_def inserted_def current_row_def put_entry_def account_def emit_fact_def
  stored_payload_def MAX_SAFE_def Let_def

lemma demo_box_init: "outbox_init demo_outbox_env demo_box"
proof -
  have "outbox_open demo_outbox_env ''gw'' 10 1000 2 (session_new 100000 10 None) None None = (Inr (), ob_session demo_box, Some demo_box)"
    by (simp add: outbox_open_def preflight_def require_res_def database_open_def blank_file_def file_new_def id_alnum_def id_char_def
        attach_outbox_def attach_finish_def stored_rows_def dead_count_def outbox_eval cong: eval_congs)
  then show ?thesis unfolding outbox_init_def by blast
qed

definition demo_sent :: outbox where
  "demo_sent = snd (reserve demo_outbox_env None (snd (enqueue demo_outbox_env ''m1'' None None None demo_box)))"

lemma demo_sent_reachable: "(outbox_step demo_outbox_env)\<^sup>*\<^sup>* demo_box demo_sent"
  unfolding demo_sent_def by (meson converse_rtranclp_into_rtranclp r_into_rtranclp so_enqueue so_reserve)

lemmas reserve_eval = reserve_def reserve_pick_def read_clock_def sendable_def platform_time_def choose_category_def choices_def reserve_entry_def
  corrupt_def update_batch_def guarded_def change_row_def sent_session_def sent_entry_def deactivate_due_def

lemma demo_sent_eval: "\<exists>e. dget (entries demo_sent) ''m1'' = Some e \<and> r_attempts (b_row e) = 1 \<and> r_state (b_row e) = PENDING \<and> length (entries demo_sent) = 1"
  by (simp add: demo_sent_def outbox_eval reserve_eval cong: eval_congs)

section \<open>Properties\<close>

text \<open>C5. The Outbox refines the abstract outbox. In every reachable state the session and the database show the same batches
  (id, hash, attempts, state, order, size and terminal source), and each operation, whether it succeeds or raises at whatever point
  because of SQLite, the disk quota or the clock, changes them by a sequence of abstract transitions: insert with a fresh id and the
  largest order, one more attempt of a pending batch, termination, confirmed removal of a batch that was sent, pruning of a dead one.\<close>

theorem outbox_refines_abstract:
  assumes "outbox_init env s0" "(outbox_step env)\<^sup>*\<^sup>* s0 s" "outbox_step env s t"
  shows "abox_step\<^sup>*\<^sup>* (view (entries s)) (view (entries t)) \<and> view (entries t) = dview (rp_db (ob_repo t))"
proof -
  have "tracks_box env (view (entries s)) s" using outbox_store.reachable_inv [OF assms(1,2)] by (simp add: tracks_box_def)
  from outbox_step_tracks [OF assms(3) this] tracksD(3) show ?thesis by (auto simp: tracks_box_def)
qed

theorem outbox_refines_abstract_witness:
  "abox_step\<^sup>*\<^sup>* (view (entries demo_sent)) (view (entries (snd (acknowledge demo_outbox_env ''m1'' demo_sent))))"
  using outbox_refines_abstract [OF demo_box_init demo_sent_reachable so_acknowledge] by blast

text \<open>C6. The Outbox stays within its limits. In every reachable state the number of batches, their payload bytes and the number of
  dead batches are at most the configured limits, at most eight batches are awaiting an answer, and the send window holds at most four
  sends and 512 KiB.\<close>

theorem outbox_within_limits:
  assumes "outbox_init env s0" "(outbox_step env)\<^sup>*\<^sup>* s0 s"
  shows "length (entries s) \<le> ob_max_batches s \<and> sum_list (map (r_size \<circ> b_row) (dvals (entries s))) \<le> ob_max_bytes s
    \<and> dead_count (ob_session s) \<le> ob_max_dead s \<and> length (filter b_active (dvals (entries s))) \<le> 8
    \<and> length (os_rate (ob_session s)) \<le> 4 \<and> sum_list (map snd (os_rate (ob_session s))) \<le> 512 * 1024"
proof -
  have ok: "ob_ok env s" using outbox_store.reachable_inv [OF assms] .
  then have d: "dwf (entries s)" and q: "quota_ok (ob_max_batches s) (ob_max_bytes s) (ob_max_dead s) (view (entries s))"
    by (auto simp: ob_ok_def)
  show ?thesis
    using q ok card_dom_view [OF d] sum_view [OF d] active_keys_list [OF d] dead_count_view [of "ob_session s"] d
    unfolding quota_ok_def ob_ok_def dead_set_def [symmetric] by (auto simp: entries_def)
qed

theorem outbox_within_limits_witness: "length (filter b_active (dvals (entries demo_sent))) \<le> 8 \<and> length (entries demo_sent) = 1"
  using outbox_within_limits [OF demo_box_init demo_sent_reachable] demo_sent_eval by blast

lemma insert_staged_stores:
  assumes "insert_staged env key raw e fresh row g st = (Inr b, t)"
  shows "stored_payload (rp_db (ob_repo t)) (r_message_id row) = Some raw"
proof -
  obtain u where w: "with_guard g (on_repo (insert_batch (oe_sql env) (oe_time env) row raw)) st = (Inr (), u)" "t = inserted env key e row u"
    using assms by (auto simp: insert_staged_def split: prod.splits sum.splits)
  then obtain rp where i: "insert_batch (oe_sql env) (oe_time env) row raw ((ob_repo st)\<lparr>rp_guard := g\<rparr>) = (Inr (), rp)" "rp_db (ob_repo u) = rp_db rp"
    by (auto simp: with_guard_def on_repo_def split: prod.splits)
  from insert_batch_Inr [OF i(1)] show ?thesis using w(2) i(2) by (auto simp: stored_payload_def inserted_def Let_def)
qed

text \<open>What \<open>enqueue\<close> accepted is in the database, under the id it carries.\<close>

lemma enqueue_stores:
  assumes "enqueue env raw now assoc tok s = (Inr True, t)"
  shows "\<exists>w. oe_data env (ob_gateway s) raw = Some w \<and> stored_payload (rp_db (ob_repo t)) (w_message_id w) = Some raw"
proof -
  obtain c u where c: "ask (require_time (oe_time env) tok ENQUEUE) s = (Inr c, u)" using assms by (auto simp: enqueue_def res_simps)
  have u: "ob_gateway u = ob_gateway s" using keeps_result [OF gateway.ask_op c refl] .
  from assms c obtain w where w: "oe_data env (ob_gateway s) raw = Some w" unfolding u [symmetric]
    by (auto simp: enqueue_def split: option.splits)
  have "stored_payload (rp_db (ob_repo t)) (w_message_id w) = Some raw"
  proof (cases "w_message_id w \<in> set (dkeys (entries u))")
    case True
    then show ?thesis using assms c w u by (auto simp: enqueue_def split: if_splits)
  next
    case False
    then obtain v where v: "enqueue_new env raw w now assoc tok c v = (Inr True, t)" using assms c w u by (auto simp: enqueue_def res_simps)
    have "\<not> over_quota (length raw) v" using v by (auto simp: enqueue_new_def res_simps upd_session_def)
    then show ?thesis
      using v insert_staged_stores by (fastforce simp: enqueue_new_def Let_def new_row_def split: if_splits option.splits prod.splits)
  qed
  with w show ?thesis by blast
qed



text \<open>C36. A restart loses nothing. When a new process opens the database a reachable store left behind, with a fresh session, it
  starts from exactly the same batches with the same payloads.\<close>

theorem restart_preserves_batches:
  assumes "outbox_init env s0" "(outbox_step env)\<^sup>*\<^sup>* s0 s"
    and "sf_content f = rp_db (ob_repo s)" "\<not> file_new f"
    and "outbox_open env' gw mb my md (session_new sb sr a) time (Some f) = (Inr (), os, Some t)"
  shows "view (entries t) = view (entries s) \<and> stored_payload (rp_db (ob_repo t)) = stored_payload (rp_db (ob_repo s)) \<and> ob_ok env' t"
proof -
  have ok: "ob_ok env s" using outbox_store.reachable_inv [OF assms(1,2)] .
  then have wf: "db_wf (sf_content f)" by (auto simp: db_wf_def ob_ok_def assms(3))
  have "outbox_init env' t" unfolding outbox_init_def using assms(5) wf by blast
  then have ok': "ob_ok env' t" by (rule outbox_init_ok)
  have "rp_db (ob_repo t) = rp_db (ob_repo s)" using opened_db [OF assms(5)] assms(3,4) by simp
  then show ?thesis using ok' ob_ok_mirror [OF ok] ob_ok_mirror [OF ok'] by simp
qed



theorem restart_preserves_batches_witness:
  "\<exists>os t. outbox_open demo_outbox_env ''gw'' 10 1000 2 (session_new 100000 10 None) None
      (Some \<lparr>sf_app = APP_ID, sf_version = 2, sf_tables = [''meta'', ''batches''], sf_gateway = Some ''gw'', sf_quick = True, sf_content = rp_db (ob_repo demo_sent)\<rparr>)
      = (Inr (), os, Some t) \<and> view (entries t) = view (entries demo_sent)"
proof -
  let ?f = "\<lparr>sf_app = APP_ID, sf_version = 2, sf_tables = [''meta'', ''batches''], sf_gateway = Some ''gw'', sf_quick = True, sf_content = rp_db (ob_repo demo_sent)\<rparr>"
  obtain os t where o: "outbox_open demo_outbox_env ''gw'' 10 1000 2 (session_new 100000 10 None) None (Some ?f) = (Inr (), os, Some t)"
    by (simp add: demo_sent_def outbox_eval reserve_eval outbox_open_def preflight_def require_res_def database_open_def file_new_def id_alnum_def id_char_def
        APP_ID_def attach_outbox_def attach_finish_def stored_rows_def dead_count_def bounded_row_def trusted_ok_def attach_row_def attach_new_def cong: eval_congs)
  have "\<not> file_new ?f" by (simp add: file_new_def)
  from restart_preserves_batches [OF demo_box_init demo_sent_reachable _ this o] o show ?thesis by auto
qed

text \<open>C37. The migration from version 1 keeps every batch. When it succeeds on a database whose ids and rowids are distinct, as SQLite
  guarantees, every version 1 row is in the new table with the same payload, hash, attempts and state, ordered as before; the tables are
  well formed, so new batches go behind all migrated ones; and the result is a file that the store opens as its own format.\<close>

theorem migration_preserves_batches:
  assumes "migrate_existing env gw f = Inr f'" "distinct (map v1_message_id (v1_rows (sf_content f)))"
    and "distinct (map v1_rowid (v1_rows (sf_content f)))" "id_fullmatch gw"
  shows "db_wf (sf_content f')
    \<and> (\<forall>r \<in> set (v1_rows (sf_content f)). \<exists>row. dget (db_batches (sf_content f')) (v1_message_id r) = Some (row, v1_payload r)
         \<and> r_hash row = v1_hash r \<and> int (r_attempts row) = v1_attempts r \<and> int (r_local_order row) = v1_rowid r
         \<and> (r_state row = PENDING \<longleftrightarrow> v1_state r = ''PENDING'') \<and> int (db_next_order (sf_content f')) > v1_rowid r)
    \<and> length (db_batches (sf_content f')) = length (v1_rows (sf_content f))
    \<and> database_open gw APP_ID [''batches''] 2 fresh_batches True f' = Inr f'"
proof -
  let ?d = "sf_content f" let ?rows = "v1_rows ?d"
  have f': "f' = \<lparr>sf_app = sf_app f, sf_version = 2, sf_tables = sf_tables f, sf_gateway = sf_gateway f, sf_quick = sf_quick f, sf_content = migrate_content ?d\<rparr>"
    and c: "sf_app f = APP_ID" "set (sf_tables f) = {''meta'', ''batches''}" "sf_quick f" "sf_gateway f = Some gw"
    and ok: "\<And>r. r \<in> set ?rows \<Longrightarrow> v1_row_ok env gw r"
    using assms(1) by (auto simp: migrate_existing_def res_simps list_all_iff split: if_splits)
  have b: "db_batches (sf_content f') = map migrate_row ?rows" by (simp add: f' migrate_content_def)
  have keys: "map fst (map migrate_row ?rows) = map v1_message_id ?rows" by (simp add: migrate_row_def)
  have wf: "dwf (db_batches (sf_content f'))" unfolding dwf_def b keys by (rule assms(2))
  have get: "dget (db_batches (sf_content f')) (v1_message_id r) = Some (snd (migrate_row r))" if "r \<in> set ?rows" for r
    using that by (intro dwf_mem_iff [OF wf, THEN iffD1]) (auto simp: b migrate_row_def image_iff intro!: bexI [of _ r])
  have nx: "v1_rowid r < int (db_next_order (sf_content f'))" if "r \<in> set ?rows" for r
  proof -
    have "nat (v1_rowid r) \<le> Max (insert 0 (set (map (nat \<circ> v1_rowid) ?rows)))" using that by (intro Max_ge) auto
    then show ?thesis by (simp add: f' migrate_content_def)
  qed
  have pos: "1 \<le> v1_rowid r \<and> 0 \<le> v1_attempts r" if "r \<in> set ?rows" for r using ok [OF that] by (simp add: v1_row_ok_def)
  have dv: "dview (sf_content f') k = Some a \<Longrightarrow> \<exists>r \<in> set ?rows. k = v1_message_id r \<and> a = stored_core (snd (migrate_row r))" for k a
  proof -
    assume "dview (sf_content f') k = Some a"
    then obtain p where p: "(k, p) \<in> set (map migrate_row ?rows)" "a = stored_core p" unfolding dview_def b by (auto dest: map_of_SomeD)
    then obtain r where "r \<in> set ?rows" "(k, p) = migrate_row r" by auto
    then show ?thesis using p(2) by (intro bexI [of _ r]) (simp_all add: migrate_row_def)
  qed
  have "order_ok (db_next_order (sf_content f')) (dview (sf_content f'))"
    unfolding order_ok_def
  proof (intro allI impI)
    fix k a assume "dview (sf_content f') k = Some a"
    from dv [OF this] obtain r where r: "r \<in> set ?rows" "k = v1_message_id r" "a = stored_core (snd (migrate_row r))" by blast
    have "k' = k" if "dview (sf_content f') k' = Some b" "a_order b = a_order a" for k' b
    proof -
      from dv [OF that(1)] obtain r' where r': "r' \<in> set ?rows" "k' = v1_message_id r'" "b = stored_core (snd (migrate_row r'))" by blast
      have "nat (v1_rowid r') = nat (v1_rowid r)" using that(2) r r' by (simp add: stored_core_def core_def migrate_row_def)
      then have "v1_rowid r' = v1_rowid r" using pos [OF r(1)] pos [OF r'(1)] by linarith
      then have "r' = r" using assms(3) r(1) r'(1) by (meson distinct_map inj_on_def)
      then show ?thesis using r r' by simp
    qed
    then show "a_id a = k \<and> a_order a < db_next_order (sf_content f') \<and> (a_state a = PENDING \<longrightarrow> a_source a = None)
      \<and> (\<forall>k' b. dview (sf_content f') k' = Some b \<longrightarrow> a_order b = a_order a \<longrightarrow> k' = k)"
      using r nx [OF r(1)] pos [OF r(1)] by (simp add: stored_core_def core_def migrate_row_def nat_less_iff)
  qed
  moreover have "database_open gw APP_ID [''batches''] 2 fresh_batches True f' = Inr f'"
    using c assms(4) by (simp add: database_open_def f' file_new_def)
  moreover have "\<exists>row. dget (db_batches (sf_content f')) (v1_message_id r) = Some (row, v1_payload r)
         \<and> r_hash row = v1_hash r \<and> int (r_attempts row) = v1_attempts r \<and> int (r_local_order row) = v1_rowid r
         \<and> (r_state row = PENDING \<longleftrightarrow> v1_state r = ''PENDING'') \<and> int (db_next_order (sf_content f')) > v1_rowid r"
    if "r \<in> set ?rows" for r
    using get [OF that] nx [OF that] pos [OF that] by (simp add: migrate_row_def)
  ultimately show ?thesis using wf b by (simp add: db_wf_def)
qed

definition demo_v1 :: "v1_db sfile" where
  "demo_v1 = \<lparr>sf_app = APP_ID, sf_version = 1, sf_tables = [''meta'', ''batches''], sf_gateway = Some ''gw'', sf_quick = True,
     sf_content = \<lparr>v1_rows = [\<lparr>v1_rowid = 7, v1_message_id = ''m1'', v1_payload = ''m1'', v1_hash = ''m1'', v1_created = 0, v1_attempts = 2,
        v1_next_due = 0, v1_state = ''PENDING'', v1_reason = None\<rparr>],
       v1_columns = [''message_id'', ''payload'', ''hash'', ''created'', ''attempts'', ''next_due'', ''state'', ''reason''], v1_dropped = 0, v1_dead_pruned = 0\<rparr>\<rparr>"

theorem migration_preserves_batches_witness:
  "\<exists>f'. migrate_existing \<lparr>mg_message = (\<lambda>_ raw. Some raw), mg_sha256 = id, mg_paths = True, mg_backup = True, mg_commit = Inr ()\<rparr> ''gw'' demo_v1 = Inr f'
     \<and> db_wf (sf_content f') \<and> length (db_batches (sf_content f')) = 1"
proof -
  let ?e = "\<lparr>mg_message = (\<lambda>_ raw. Some raw), mg_sha256 = id, mg_paths = True, mg_backup = True, mg_commit = Inr ()\<rparr>"
  obtain f' where m: "migrate_existing ?e ''gw'' demo_v1 = Inr f'"
    by (simp add: migrate_existing_def demo_v1_def v1_row_ok_def MAX_SAFE_def insert_commute)
  have "db_wf (sf_content f') \<and> length (db_batches (sf_content f')) = length (v1_rows (sf_content demo_v1))"
    using migration_preserves_batches [OF m] by (simp add: demo_v1_def id_alnum_def id_char_def)
  then show ?thesis using m by (auto simp: demo_v1_def)
qed

end
