(* ===== verification/Runtime.thy ===== *)
theory Runtime
  imports Boot
begin

text \<open>
  The device runtime of \<^verbatim>\<open>devices/runtime.py\<close>: transitions between sets of runners with
  activation, rollback and publication. A runner is a number (its \<^verbatim>\<open>id()\<close>); the factory, the outcome of
  each \<^verbatim>\<open>start\<close> and \<^verbatim>\<open>stop\<close> (a deadline that passes is the outcome \<open>TimeoutError\<close> of the call it
  interrupts) and the clock are parameters. \<open>rt_running\<close> is what the contract of runners says of them: one
  whose start was called may run until a stop of it returns.
\<close>

section \<open>State\<close>

record transition =
  tn_snapshot :: ConfigSnapshot
  tn_proposed :: "(string, nat) dict"
  tn_old :: "(string, nat) dict"
  tn_stopped :: "nat list"
  tn_started :: "nat list"
  tn_activated :: bool

record runtime =
  rt_runners :: "(string, nat) dict"
  rt_managed :: "(nat, unit) dict"
  rt_pending :: "transition option"
  rt_snapshot :: "ConfigSnapshot option"
  rt_sample_generation :: int
  rt_sample_published_at :: rat
  rt_boot :: ProcessBootContext
  rt_calls :: nat
  rt_made :: nat
  rt_running :: "nat set"

record runtime_env =
  re_factory :: "(nat \<Rightarrow> DeviceConfig \<Rightarrow> exn + nat) option"
  re_call :: "nat \<Rightarrow> bool \<Rightarrow> nat \<Rightarrow> exn option"
  re_clock :: "nat \<Rightarrow> rat"

definition runtime_new :: "ProcessBootContext \<Rightarrow> runtime" where
  "runtime_new boot = \<lparr>rt_runners = [], rt_managed = [], rt_pending = None, rt_snapshot = None, rt_sample_generation = 0,
     rt_sample_published_at = 0, rt_boot = boot, rt_calls = 0, rt_made = 0, rt_running = {}\<rparr>"

text \<open>\<open>await runner.start()\<close> and \<open>await runner.stop()\<close>.\<close>

definition call_runner :: "runtime_env \<Rightarrow> bool \<Rightarrow> nat \<Rightarrow> (unit, runtime) prog" where
  "call_runner env start r rt =
     (let failure = re_call env (rt_calls rt) start r
      in (case failure of None \<Rightarrow> Inr () | Some e \<Rightarrow> Inl e,
          rt\<lparr>rt_calls := rt_calls rt + 1,
             rt_running := (if start then insert r (rt_running rt) else if failure = None then rt_running rt - {r} else rt_running rt)\<rparr>))"

section \<open>Preparation\<close>

definition sample_context :: "string \<Rightarrow> nat \<Rightarrow> runtime \<Rightarrow> SampleContext option res" where
  "sample_context did r rt =
     (case rt_snapshot rt of None \<Rightarrow> Inr None
      | Some s \<Rightarrow> (if dget (rt_runners rt) did \<noteq> Some r then Inr None
                  else case List.find (\<lambda>d. dc_device_id d = did) (cs_devices s) of
                    None \<Rightarrow> Inl (RuntimeError ''StopIteration'')
                  | Some d \<Rightarrow> Inr (Some \<lparr>sc_config_version = cs_config_version s, sc_device = d, sc_generation = rt_sample_generation rt,
                                       sc_gateway_id = cs_gateway_id s\<rparr>)))"

definition execution_key :: "DeviceConfig \<Rightarrow> string \<times> ConnectionConfig \<times> (string \<times> string \<times> int \<times> pynum \<times> pynum \<times> ModbusAddress option \<times> OpcUaAddress option) list" where
  "execution_key d = (dc_protocol d, dc_connection d,
     map (\<lambda>p. (pc_point_id p, pc_data_type p, pc_poll_interval_ms p, pc_scale p, pc_offset p, pc_modbus p, pc_opcua p)) (filter pc_enabled (dc_points d)))"

definition by_device :: "DeviceConfig list \<Rightarrow> (string, DeviceConfig) dict" where
  "by_device ds = fold (\<lambda>d. dset (dc_device_id d) d) ds []"

definition active_devices :: "ConfigSnapshot \<Rightarrow> (string, DeviceConfig) dict" where
  "active_devices s = by_device (filter (\<lambda>d. cs_enabled s \<and> dc_enabled d \<and> list_ex pc_enabled (dc_points d)) (cs_devices s))"

definition known_devices :: "runtime \<Rightarrow> (string, DeviceConfig) dict" where
  "known_devices rt = (case rt_snapshot rt of None \<Rightarrow> [] | Some s \<Rightarrow> by_device (cs_devices s))"

text \<open>The runner of one device: the current one when nothing it executes changed, else a new one.\<close>

definition propose_one :: "runtime_env \<Rightarrow> runtime \<Rightarrow> string \<times> DeviceConfig \<Rightarrow> (string, nat) dict \<times> nat \<Rightarrow> ((string, nat) dict \<times> nat) res" where
  "propose_one env rt kd acc =
     (let (key, device) = kd; (proposed, n) = acc;
          fresh = (case re_factory env of
              None \<Rightarrow> Inl (UnsupportedDriver ''No device driver factory is installed.'')
            | Some f \<Rightarrow> rbind (f n device) (\<lambda>r. Inr (dset key r proposed, n + 1)))
      in case dget (rt_runners rt) key of
           None \<Rightarrow> fresh
         | Some r \<Rightarrow> rbind (dindex (known_devices rt) key) (\<lambda>old.
             if execution_key old = execution_key device then Inr (dset key r proposed, n) else fresh))"

definition propose :: "runtime_env \<Rightarrow> ConfigSnapshot \<Rightarrow> runtime \<Rightarrow> ((string, nat) dict \<times> nat) res" where
  "propose env s rt = rfold (propose_one env rt) (active_devices s) ([], rt_made rt)"

definition prepare_runtime :: "runtime_env \<Rightarrow> ConfigSnapshot \<Rightarrow> (unit, runtime) prog" where
  "prepare_runtime env s rt =
     (if rt_pending rt \<noteq> None then (Inl (RuntimeError ''A runtime transition is already pending.''), rt)
      else case propose env s rt of
             Inl e \<Rightarrow> (Inl e, rt\<lparr>rt_made := rt_made rt + length (active_devices s)\<rparr>)
           | Inr (proposed, n) \<Rightarrow>
               (if \<not> distinct (dvals proposed) then (Inl (RuntimeError ''Each device requires its own runner instance.''), rt\<lparr>rt_made := n\<rparr>)
                else (Inr (), rt\<lparr>rt_made := n, rt_managed := fold (\<lambda>r. dset r ()) (dvals proposed) (rt_managed rt),
                        rt_pending := Some \<lparr>tn_snapshot = s, tn_proposed = proposed, tn_old = rt_runners rt, tn_stopped = [], tn_started = [],
                                           tn_activated = False\<rparr>\<rparr>)))"

section \<open>Transitions\<close>

definition upd_transition :: "(transition \<Rightarrow> transition) \<Rightarrow> (unit, runtime) prog" where
  "upd_transition f = supd (\<lambda>rt. rt\<lparr>rt_pending := map_option f (rt_pending rt)\<rparr>)"

definition stop_replaced :: "runtime_env \<Rightarrow> (string, nat) dict \<Rightarrow> string \<times> nat \<Rightarrow> (unit, runtime) prog" where
  "stop_replaced env proposed kr =
     (if dget proposed (fst kr) = Some (snd kr) then sret ()
      else sbind (upd_transition (\<lambda>t. t\<lparr>tn_stopped := tn_stopped t @ [snd kr]\<rparr>)) (\<lambda>_. call_runner env False (snd kr)))"

definition start_new :: "runtime_env \<Rightarrow> (string, nat) dict \<Rightarrow> string \<times> nat \<Rightarrow> (unit, runtime) prog" where
  "start_new env old kr =
     (if dget old (fst kr) = Some (snd kr) then sret ()
      else sbind (upd_transition (\<lambda>t. t\<lparr>tn_started := tn_started t @ [snd kr]\<rparr>)) (\<lambda>_. call_runner env True (snd kr)))"

definition activate :: "runtime_env \<Rightarrow> (unit, runtime) prog" where
  "activate env rt =
     (case rt_pending rt of None \<Rightarrow> (Inl AttributeError, rt)
      | Some t \<Rightarrow>
          sbind (sfold (stop_replaced env (tn_proposed t)) (tn_old t)) (\<lambda>_.
          sbind (sfold (start_new env (tn_old t)) (tn_proposed t)) (\<lambda>_.
            upd_transition (\<lambda>t. t\<lparr>tn_activated := True\<rparr>))) rt)"

definition rollback :: "runtime_env \<Rightarrow> (unit, runtime) prog" where
  "rollback env rt =
     (case rt_pending rt of None \<Rightarrow> (Inl AttributeError, rt)
      | Some t \<Rightarrow>
          sbind (sfold (call_runner env False) (rev (tn_started t))) (\<lambda>_.
          sbind (sfold (\<lambda>r. sbind (call_runner env False r) (\<lambda>_. call_runner env True r)) (tn_stopped t)) (\<lambda>_.
            supd (\<lambda>rt. rt\<lparr>rt_managed := fold (\<lambda>(k, r). if dget (tn_old t) k = Some r then id else ddel r) (tn_proposed t) (rt_managed rt),
                          rt_pending := None\<rparr>))) rt)"

definition publish_boot :: "runtime_env \<Rightarrow> ConfigSnapshot \<Rightarrow> runtime \<Rightarrow> runtime" where
  "publish_boot env s rt =
     (if rt_snapshot rt = Some s then rt
      else let boot = rt_boot rt;
               boot = (if bt_sampling_snapshot boot = Some s then boot
                       else boot\<lparr>bt_sampling_generation := bt_sampling_generation boot + 1, bt_sampling_snapshot := Some s,
                                 bt_sampling_published_at := re_clock env (rt_calls rt)\<rparr>)
           in rt\<lparr>rt_boot := boot, rt_sample_generation := bt_sampling_generation boot, rt_sample_published_at := bt_sampling_published_at boot\<rparr>)"

definition publish :: "runtime_env \<Rightarrow> (unit, runtime) prog" where
  "publish env rt =
     (case rt_pending rt of None \<Rightarrow> (Inl (RuntimeError ''Runtime transition is not ready for publication.''), rt)
      | Some t \<Rightarrow>
          (if \<not> tn_activated t then (Inl (RuntimeError ''Runtime transition is not ready for publication.''), rt)
           else let rt = publish_boot env (tn_snapshot t) (rt\<lparr>rt_runners := tn_proposed t\<rparr>)
                in (Inr (), rt\<lparr>rt_snapshot := Some (tn_snapshot t), rt_managed := fold ddel (tn_stopped t) (rt_managed rt), rt_pending := None\<rparr>)))"

text \<open>\<open>shutdown\<close>: every managed runner is stopped, failures are collected.\<close>

fun stop_managed :: "runtime_env \<Rightarrow> nat list \<Rightarrow> runtime \<Rightarrow> bool \<times> runtime" where
  "stop_managed env [] rt = (True, rt)"
| "stop_managed env (r # rs) rt =
     (case call_runner env False r rt of
        (Inl e, rt) \<Rightarrow> (False, snd (stop_managed env rs rt))
      | (Inr _, rt) \<Rightarrow> stop_managed env rs (rt\<lparr>rt_managed := ddel r (rt_managed rt)\<rparr>))"

definition shutdown :: "runtime_env \<Rightarrow> (unit, runtime) prog" where
  "shutdown env rt =
     (case stop_managed env (dkeys (rt_managed rt)) rt of
        (False, rt) \<Rightarrow> (Inl (RuntimeRecoveryError ''One or more device runners could not stop.''), rt)
      | (True, rt) \<Rightarrow> (Inr (), rt\<lparr>rt_runners := [], rt_pending := None, rt_snapshot := None\<rparr>))"

end
