(* ===== verification/Contracts.thy ===== *)
theory Contracts
  imports Accounting
begin

text \<open>
  The message contracts of \<^verbatim>\<open>contracts.py\<close> and the parsing of configurations of
  \<^verbatim>\<open>config/models.py\<close> and \<^verbatim>\<open>config/patch.py\<close>. JSON values are a datatype whose objects list
  their members as written. Parameters: the decoder of \<^verbatim>\<open>json.loads\<close> (None where it raises), the
  encoder of \<^verbatim>\<open>json.dumps\<close>, the errors of the JSON Schema library, the byte limits of the topic
  rules, and SHA-256. What the Python code adds to them is defined here; a member that is missing or of the
  wrong type raises, as indexing does.
\<close>

section \<open>JSON\<close>

datatype json = JNull | JBool bool | JNum pynum | JStr string | JArr "json list" | JObj "(string \<times> json) list"

record contract_env =
  cv_loads :: "string \<Rightarrow> json option"
  cv_dumps :: "json \<Rightarrow> string"
  cv_canonical :: "json \<Rightarrow> string"
  cv_schema :: "string \<Rightarrow> json \<Rightarrow> (string list \<times> string) list"
  cv_limit :: "string \<Rightarrow> nat option"
  cv_sha256 :: "string \<Rightarrow> string"

record issue =
  is_code :: string
  is_path :: string
  is_message :: string

definition Issue :: "string \<Rightarrow> string \<Rightarrow> string \<Rightarrow> issue" where
  "Issue code path message = \<lparr>is_code = code, is_path = path, is_message = message\<rparr>"

fun jget :: "string \<Rightarrow> json \<Rightarrow> json res" where
  "jget k (JObj ps) = dindex ps k"
| "jget k _ = Inl TypeError"

text \<open>\<^verbatim>\<open>d.get(key)\<close>, None as \<open>JNull\<close>, and \<^verbatim>\<open>key in d\<close>.\<close>

fun jget_or_null :: "string \<Rightarrow> json \<Rightarrow> json res" where
  "jget_or_null k (JObj ps) = Inr (dget_or ps k JNull)"
| "jget_or_null k _ = Inl AttributeError"

fun jhas :: "string \<Rightarrow> json \<Rightarrow> bool" where
  "jhas k (JObj ps) \<longleftrightarrow> k \<in> set (dkeys ps)"
| "jhas k _ \<longleftrightarrow> False"

fun jlist :: "json \<Rightarrow> json list res" where
  "jlist (JArr xs) = Inr xs"
| "jlist _ = Inl TypeError"

fun jnum :: "json \<Rightarrow> pynum res" where
  "jnum (JNum n) = Inr n"
| "jnum _ = Inl TypeError"

fun jstr :: "json \<Rightarrow> string res" where
  "jstr (JStr s) = Inr s"
| "jstr _ = Inl TypeError"

text \<open>\<^verbatim>\<open>==\<close>: numbers by value, and a bool equals 0 or 1.\<close>

fun jvalue :: "json \<Rightarrow> rat option" where
  "jvalue (JNum n) = (if num_finite n then Some (num_value n) else None)"
| "jvalue (JBool b) = Some (if b then 1 else 0)"
| "jvalue _ = None"

definition jeq :: "json \<Rightarrow> json \<Rightarrow> bool" where
  "jeq a b \<longleftrightarrow> (case (jvalue a, jvalue b) of (Some x, Some y) \<Rightarrow> x = y | _ \<Rightarrow> a = b)"

definition jget_num :: "string \<Rightarrow> json \<Rightarrow> rat res" where
  "jget_num k m = rbind (jget k m) (\<lambda>v. rbind (jnum v) (\<lambda>n. Inr (num_value n)))"

definition jget_list :: "string \<Rightarrow> json \<Rightarrow> json list res" where
  "jget_list k m = rbind (jget k m) jlist"

section \<open>Decoding\<close>

text \<open>The hooks of \<^verbatim>\<open>json.loads\<close>: no repeated member, no number that is not finite.\<close>

fun strict :: "json \<Rightarrow> bool" where
  "strict (JNum n) \<longleftrightarrow> num_finite n"
| "strict (JArr xs) \<longleftrightarrow> list_all strict xs"
| "strict (JObj ps) \<longleftrightarrow> distinct (map fst ps) \<and> list_all (\<lambda>p. strict (snd p)) ps"
| "strict _ \<longleftrightarrow> True"

fun children :: "json \<Rightarrow> json list" where
  "children (JArr xs) = xs"
| "children (JObj ps) = map snd ps"
| "children _ = []"

fun nodes :: "json \<Rightarrow> nat" where
  "nodes (JArr xs) = Suc (sum_list (map nodes xs))"
| "nodes (JObj ps) = Suc (sum_list (map (\<lambda>p. nodes (snd p)) ps))"
| "nodes _ = 1"

lemma nodes_children: "sum_list (map nodes (children m)) < nodes m"
  by (cases m) (simp_all add: comp_def)

text \<open>\<open>_check_depth\<close>: the loop over \<open>pending\<close>, top of the stack first.\<close>

function check_depth :: "(json \<times> nat) list \<Rightarrow> bool" where
  "check_depth [] = True"
| "check_depth ((item, d) # pending) =
     (if d > 64 then False else check_depth (rev (map (\<lambda>v. (v, d + 1)) (children item)) @ pending))"
  by pat_completeness auto
termination
  by (relation "measure (\<lambda>pending. sum_list (map (nodes \<circ> fst) pending))")
     (auto simp: nodes_children comp_def rev_map [symmetric] sum_list_rev)

text \<open>\<open>_pointer\<close>: each part escaped, behind a slash.\<close>

definition escape :: "string \<Rightarrow> string" where
  "escape part = concat (map (\<lambda>c. if c = CHR ''~'' then ''~0'' else if c = CHR ''/'' then ''~1'' else [c]) part)"

definition pointer :: "string list \<Rightarrow> string" where
  "pointer parts = concat (map (\<lambda>p. CHR ''/'' # escape p) parts)"

section \<open>Semantic rules\<close>

fun is_int :: "json \<Rightarrow> bool" where
  "is_int (JNum (PyInt _)) \<longleftrightarrow> True"
| "is_int _ \<longleftrightarrow> False"

text \<open>A comprehension \<^verbatim>\<open>[f(x) for x in xs]\<close> whose body may raise.\<close>

fun rmap :: "('a \<Rightarrow> 'b res) \<Rightarrow> 'a list \<Rightarrow> 'b list res" where
  "rmap f [] = Inr []"
| "rmap f (x # xs) = rbind (f x) (\<lambda>y. rbind (rmap f xs) (\<lambda>ys. Inr (y # ys)))"

definition token_issues :: "string list \<Rightarrow> json \<Rightarrow> issue list res" where
  "token_issues ks m = rbind (rmap (\<lambda>k. rbind (jget k m) (\<lambda>v. Inr (k, is_int v))) ks) (\<lambda>r.
     Inr (map (\<lambda>(k, _). Issue ''SCHEMA_INVALID'' (CHR ''/'' # k) ''Expected an integer token.'') (filter (\<lambda>(_, ok). \<not> ok) r)))"

definition active_identity_issues :: "json \<Rightarrow> issue list res" where
  "active_identity_issues m =
     rbind (jget ''activeConfigVersion'' m) (\<lambda>v. rbind (jget ''activeMessageId'' m) (\<lambda>i.
       Inr (if jeq v (JNum (PyInt 0)) \<noteq> (i = JNull)
            then [Issue ''ACK_VERSION_MISMATCH'' ''/activeMessageId'' ''The active message identity must match configured state.''] else [])))"

text \<open>The loop over the points of a device: index, point ids and node ids seen so far.\<close>

definition point_rules :: "string \<Rightarrow> json \<Rightarrow> json \<Rightarrow> json list \<Rightarrow> json list \<Rightarrow> (issue list \<times> json list \<times> json list) res" where
  "point_rules pp protocol point points node_ids =
     rbind (jget ''pointId'' point) (\<lambda>pid.
     rbind (jget_num ''staleAfterMs'' point) (\<lambda>stale.
     rbind (jget_num ''pollIntervalMs'' point) (\<lambda>poll.
       (let i1 = (if pid \<in> set points then [Issue ''DUPLICATE_POINT_ID'' (pp @ ''/pointId'') ''Point identity must be unique within its child device.''] else []);
            i2 = (if stale < poll then [Issue ''INVALID_STALE_INTERVAL'' (pp @ ''/staleAfterMs'') ''Stale interval cannot be shorter than polling interval.''] else [])
        in if protocol = JStr ''modbus_tcp''
           then rbind (jget ''dataType'' point) (\<lambda>dt. rbind (jget ''modbus'' point) (\<lambda>mb. rbind (jget_num ''address'' mb) (\<lambda>addr.
                  (let width = (if dt \<in> {JStr ''int32'', JStr ''uint32'', JStr ''float32''} then 2 else 1)
                   in Inr (i1 @ i2 @ (if addr + width - 1 > 65535 then [Issue ''INVALID_ADDRESS'' (pp @ ''/modbus/address'') ''Complete value width exceeds the address range.''] else []),
                           pid # points, node_ids)))))
           else if protocol = JStr ''opcua''
           then rbind (jget ''opcua'' point) (\<lambda>ua. rbind (jget ''nodeId'' ua) (\<lambda>node.
                  Inr (i1 @ i2 @ (if node \<in> set node_ids then [Issue ''DUPLICATE_NODE_ID'' (pp @ ''/opcua/nodeId'') ''OPC UA node identity must be unique within its child device.''] else []),
                       pid # points, node # node_ids)))
           else Inr (i1 @ i2, pid # points, node_ids)))))"

fun point_issues :: "string \<Rightarrow> json \<Rightarrow> nat \<Rightarrow> json list \<Rightarrow> json list \<Rightarrow> json list \<Rightarrow> issue list res" where
  "point_issues dp protocol pix [] points node_ids = Inr []"
| "point_issues dp protocol pix (p # ps) points node_ids =
     rbind (point_rules (dp @ ''/points/'' @ digits pix) protocol p points node_ids) (\<lambda>(is1, points, node_ids).
     rbind (point_issues dp protocol (pix + 1) ps points node_ids) (\<lambda>is2. Inr (is1 @ is2)))"

fun device_issues :: "nat \<Rightarrow> json list \<Rightarrow> json list \<Rightarrow> nat \<Rightarrow> (issue list \<times> nat) res" where
  "device_issues di [] devices tot = Inr ([], tot)"
| "device_issues di (d # ds) devices tot =
     (let dp = ''/config/devices/'' @ digits di
      in rbind (jget ''deviceId'' d) (\<lambda>did.
         rbind (jget_list ''points'' d) (\<lambda>points.
         rbind (if points = [] then Inr JNull else jget ''protocol'' d) (\<lambda>protocol.
         rbind (point_issues dp protocol 0 points [] []) (\<lambda>is1.
         rbind (device_issues (di + 1) ds (did # devices) (tot + length points)) (\<lambda>(is2, tot).
           Inr ((if did \<in> set devices then [Issue ''DUPLICATE_DEVICE_ID'' (dp @ ''/deviceId'') ''Child device identity must be unique within the PLC.''] else [])
                @ is1 @ is2, tot)))))))"

definition config_issues :: "json list \<Rightarrow> issue list res" where
  "config_issues devices =
     rbind (device_issues 0 devices [] 0) (\<lambda>(iss, tot).
       Inr (iss @ (if tot > 2000 then [Issue ''POINT_LIMIT_EXCEEDED'' ''/config/devices'' ''Total configured points exceed the PLC limit.''] else [])))"

text \<open>\<^verbatim>\<open>path.replace('/config/devices/0', new)\<close>: every occurrence, from the left.\<close>

function replace_all :: "string \<Rightarrow> string \<Rightarrow> string \<Rightarrow> string" where
  "replace_all old new s =
     (if s = [] \<or> old = [] then s
      else if take (length old) s = old then new @ replace_all old new (drop (length old) s)
      else hd s # replace_all old new (tl s))"
  by pat_completeness auto
termination
  by (relation "measure (\<lambda>(old, new, s). length s)") (auto simp: neq_Nil_conv)

declare replace_all.simps [simp del]

definition patch_device_issues :: "string \<Rightarrow> json \<Rightarrow> json \<Rightarrow> issue list res" where
  "patch_device_issues path did operation =
     (if \<not> jhas ''device'' operation then Inr []
      else rbind (jget ''device'' operation) (\<lambda>device.
           rbind (jget ''deviceId'' device) (\<lambda>own.
           rbind (config_issues [device]) (\<lambda>iss.
             Inr ((if \<not> jeq own did then [Issue ''OPERATION_CONFLICT'' (path @ ''/device/deviceId'') ''Operation and device identity differ.''] else [])
                  @ map (\<lambda>i. i\<lparr>is_path := replace_all ''/config/devices/0'' (path @ ''/device'') (is_path i)\<rparr>) iss)))))"

fun operation_issues :: "nat \<Rightarrow> json list \<Rightarrow> json list \<Rightarrow> issue list res" where
  "operation_issues index [] seen = Inr []"
| "operation_issues index (operation # ops) seen =
     (let path = ''/operations/'' @ digits index
      in rbind (jget ''deviceId'' operation) (\<lambda>did.
         rbind (patch_device_issues path did operation) (\<lambda>is1.
         rbind (operation_issues (index + 1) ops (did # seen)) (\<lambda>is2.
           Inr ((if did \<in> set seen then [Issue ''OPERATION_CONFLICT'' (path @ ''/deviceId'') ''One operation per device is required.''] else []) @ is1 @ is2)))))"

definition patch_issues :: "json \<Rightarrow> issue list res" where
  "patch_issues m =
     rbind (jget_num ''configVersion'' m) (\<lambda>v. rbind (jget_num ''baseConfigVersion'' m) (\<lambda>b.
       if v \<le> b then Inr [Issue ''STALE_VERSION'' ''/configVersion'' ''Target version must exceed its base.'']
       else rbind (jget_list ''operations'' m) (\<lambda>ops. operation_issues 0 ops [])))"

fun value_issues :: "nat \<Rightarrow> json list \<Rightarrow> (json \<times> json) list \<Rightarrow> issue list res" where
  "value_issues index [] seen = Inr []"
| "value_issues index (v # vs) seen =
     rbind (jget ''deviceId'' v) (\<lambda>d. rbind (jget ''pointId'' v) (\<lambda>p.
       if (d, p) \<in> set seen then Inr [Issue ''DUPLICATE_VALUE'' (''/values/'' @ digits index) ''A batch contains a repeated device/point identity.'']
       else value_issues (index + 1) vs ((d, p) # seen)))"

definition heartbeat_issues :: "json \<Rightarrow> issue list res" where
  "heartbeat_issues m =
     rbind (jget ''points'' m) (\<lambda>counts. rbind (jget_num ''good'' counts) (\<lambda>good. rbind (jget_num ''bad'' counts) (\<lambda>bad.
     rbind (jget_num ''total'' counts) (\<lambda>tot. rbind (jget ''agentState'' m) (\<lambda>state. rbind (jget ''activeConfigVersion'' m) (\<lambda>active.
     rbind (jget_list ''devices'' m) (\<lambda>devices. rbind (rmap (jget ''deviceId'') devices) (\<lambda>ids.
       (let waiting = (state = JStr ''WAITING_CONFIG'')
        in Inr ((if good + bad \<noteq> tot then [Issue ''INCONSISTENT_COUNTS'' ''/points'' ''Good plus bad must equal total.''] else [])
           @ (if waiting \<noteq> jeq active (JNum (PyInt 0)) then [Issue ''INCONSISTENT_STATE'' ''/agentState'' ''Only an unconfigured agent can be WAITING_CONFIG.''] else [])
           @ (if waiting \<and> (devices \<noteq> [] \<or> tot \<noteq> 0) then [Issue ''INCONSISTENT_STATE'' ''/devices'' ''An unconfigured agent cannot report configured devices or points.''] else [])
           @ (if \<not> distinct ids then [Issue ''DUPLICATE_DEVICE_ID'' ''/devices'' ''Repeated device status identity.''] else []))))))))))) "

definition patch_ack_issues :: "json \<Rightarrow> issue list res" where
  "patch_ack_issues m =
     rbind (jget ''status'' m) (\<lambda>status. rbind (jget ''appliedConfigVersion'' m) (\<lambda>applied. rbind (jget ''configVersion'' m) (\<lambda>v.
     rbind (if status = JStr ''APPLIED'' \<and> jeq applied v
            then rbind (jget_num ''activeConfigVersion'' m) (\<lambda>a. rbind (jnum applied) (\<lambda>b. Inr (a < num_value b)))
            else Inr (status = JStr ''APPLIED'')) (\<lambda>bad.
       if bad then Inr [Issue ''ACK_VERSION_MISMATCH'' ''/appliedConfigVersion'' ''APPLIED must identify a committed requested version.'']
       else active_identity_issues m))))"

definition config_ack_issues :: "json \<Rightarrow> issue list res" where
  "config_ack_issues m =
     rbind (jget ''status'' m) (\<lambda>status.
       if status \<noteq> JStr ''APPLIED'' then Inr []
       else rbind (jget ''configVersion'' m) (\<lambda>v. rbind (jget ''activeConfigVersion'' m) (\<lambda>a.
         Inr (if \<not> jeq v a then [Issue ''ACK_VERSION_MISMATCH'' ''/activeConfigVersion'' ''APPLIED must report the requested version.''] else []))))"

definition semantic_issues :: "string \<Rightarrow> json \<Rightarrow> issue list res" where
  "semantic_issues kind m =
     (if kind = ''timeRequest'' then token_issues [''schemaVersion'', ''clientMonoMs''] m
      else if kind = ''timeResponse'' then token_issues [''schemaVersion'', ''clientMonoMs'', ''serverReceivedAt'', ''serverSentAt''] m
      else if kind = ''configSet'' then rbind (jget ''config'' m) (\<lambda>c. rbind (jget_list ''devices'' c) config_issues)
      else if kind = ''configPatch'' then patch_issues m
      else if kind = ''configPatchAck'' then patch_ack_issues m
      else if kind = ''configGet'' \<and> jhas ''activeMessageId'' m then active_identity_issues m
      else if kind = ''configAck'' then config_ack_issues m
      else if kind = ''data'' then rbind (jget_list ''values'' m) (\<lambda>vs. value_issues 0 vs [])
      else if kind = ''heartbeat'' then heartbeat_issues m
      else Inr [])"

definition MAX_ISSUES :: nat where
  "MAX_ISSUES = 32"

text \<open>\<open>validate_message\<close>: the issues, or the decoded message when there are none.\<close>

definition decode_message :: "contract_env \<Rightarrow> string \<Rightarrow> json option" where
  "decode_message env payload =
     (case cv_loads env payload of None \<Rightarrow> None | Some m \<Rightarrow> if strict m \<and> check_depth [(m, 0)] then Some m else None)"

definition validate_message :: "contract_env \<Rightarrow> string \<Rightarrow> string \<Rightarrow> string option \<Rightarrow> issue list res" where
  "validate_message env kind payload gateway =
     (case cv_limit env kind of
        None \<Rightarrow> Inr [Issue ''UNSUPPORTED_MESSAGE'' '''' ''Message kind is not supported.'']
      | Some limit \<Rightarrow>
         (if length payload > limit then Inr [Issue ''PAYLOAD_TOO_LARGE'' '''' ''Payload exceeds the byte limit.'']
          else case decode_message env payload of
             None \<Rightarrow> Inr [Issue ''INVALID_JSON'' '''' ''Expected finite, unique-key UTF-8 JSON.'']
           | Some m \<Rightarrow>
              (let errors = take MAX_ISSUES (cv_schema env kind m)
               in if errors \<noteq> []
                  then Inr (map (\<lambda>(path, v). Issue ''SCHEMA_INVALID'' (pointer path) (''Schema constraint failed: '' @ v @ ''.'')) errors)
                  else rbind (case gateway of None \<Rightarrow> Inr True | Some g \<Rightarrow> rbind (jget ''gatewayId'' m) (\<lambda>v. Inr (jeq v (JStr g)))) (\<lambda>ok.
                       if \<not> ok then Inr [Issue ''GATEWAY_MISMATCH'' ''/gatewayId'' ''Gateway differs from the trusted context.'']
                       else rbind (semantic_issues kind m) (\<lambda>iss. Inr (take MAX_ISSUES iss))))))"

end
