(* ===== verification/ConfigModel.thy ===== *)
theory ConfigModel
  imports Contracts
begin

text \<open>
  From wire messages to configuration snapshots: \<^verbatim>\<open>ConfigSnapshot.parse\<close> of
  \<^verbatim>\<open>config/models.py\<close> and the device commands of \<^verbatim>\<open>config/patch.py\<close>. A result
  \<open>Inr (Inl issues)\<close> is the exception \<open>ConfigValidationError\<close>, \<open>Inl e\<close> any other exception.
\<close>

section \<open>Normalisation and typed fields\<close>

definition normalize_num :: "pynum \<Rightarrow> pynum" where
  "normalize_num n = (case n of PyFloat x \<Rightarrow> if x = of_int \<lfloor>x\<rfloor> then PyInt \<lfloor>x\<rfloor> else n | _ \<Rightarrow> n)"

fun normalize :: "json \<Rightarrow> json" where
  "normalize (JNum n) = JNum (normalize_num n)"
| "normalize (JArr xs) = JArr (map normalize xs)"
| "normalize (JObj ps) = JObj (map (\<lambda>p. (fst p, normalize (snd p))) ps)"
| "normalize m = m"

definition get_str :: "string \<Rightarrow> json \<Rightarrow> string res" where
  "get_str k m = rbind (jget k m) jstr"

fun jint :: "json \<Rightarrow> int res" where
  "jint (JNum (PyInt n)) = Inr n"
| "jint _ = Inl TypeError"

definition get_int :: "string \<Rightarrow> json \<Rightarrow> int res" where
  "get_int k m = rbind (jget k m) jint"

definition get_num :: "string \<Rightarrow> json \<Rightarrow> pynum res" where
  "get_num k m = rbind (jget k m) jnum"

fun jbool :: "json \<Rightarrow> bool res" where
  "jbool (JBool b) = Inr b"
| "jbool _ = Inl TypeError"

definition get_bool :: "string \<Rightarrow> json \<Rightarrow> bool res" where
  "get_bool k m = rbind (jget k m) jbool"

definition get_opt_str :: "string \<Rightarrow> json \<Rightarrow> string option res" where
  "get_opt_str k m = rbind (jget_or_null k m) (\<lambda>v. if v = JNull then Inr None else rbind (jstr v) (\<lambda>s. Inr (Some s)))"

section \<open>Parsing\<close>

definition parse_address :: "json \<Rightarrow> string \<Rightarrow> (ModbusAddress option \<times> OpcUaAddress option) res" where
  "parse_address p protocol =
     (if protocol = ''opcua''
      then rbind (jget ''opcua'' p) (\<lambda>u. rbind (get_str ''nodeId'' u) (\<lambda>n. Inr (None, Some \<lparr>ua_node_id = n\<rparr>)))
      else rbind (jget ''modbus'' p) (\<lambda>m. rbind (get_str ''area'' m) (\<lambda>area. rbind (get_int ''address'' m) (\<lambda>addr.
           rbind (get_opt_str ''byteOrder'' m) (\<lambda>order. Inr (Some \<lparr>mb_area = area, mb_address = addr, mb_byte_order = order\<rparr>, None))))))"

definition parse_point :: "string \<Rightarrow> json \<Rightarrow> PointConfig res" where
  "parse_point protocol p =
     rbind (get_str ''pointId'' p) (\<lambda>pid. rbind (get_str ''name'' p) (\<lambda>nm. rbind (get_bool ''enabled'' p) (\<lambda>en.
     rbind (get_str ''dataType'' p) (\<lambda>dt. rbind (get_int ''pollIntervalMs'' p) (\<lambda>poll. rbind (get_num ''scale'' p) (\<lambda>scale.
     rbind (get_num ''offset'' p) (\<lambda>offs. rbind (get_opt_str ''unit'' p) (\<lambda>un. rbind (get_str ''reportMode'' p) (\<lambda>rm.
     rbind (get_int ''reportIntervalMs'' p) (\<lambda>ri. rbind (get_num ''deadband'' p) (\<lambda>db. rbind (get_int ''staleAfterMs'' p) (\<lambda>stale.
     rbind (parse_address p protocol) (\<lambda>(mb, ua).
       Inr \<lparr>pc_point_id = pid, pc_name = nm, pc_enabled = en, pc_data_type = dt, pc_poll_interval_ms = poll, pc_scale = scale, pc_offset = offs,
            pc_unit = un, pc_report_mode = rm, pc_report_interval_ms = ri, pc_deadband = db, pc_stale_after_ms = stale, pc_modbus = mb, pc_opcua = ua\<rparr>)))))))))))))"

definition parse_connection :: "string \<Rightarrow> json \<Rightarrow> ConnectionConfig res" where
  "parse_connection protocol c =
     rbind (get_int ''connectTimeoutMs'' c) (\<lambda>ct. rbind (get_int ''requestTimeoutMs'' c) (\<lambda>rt. rbind (get_int ''retryCount'' c) (\<lambda>rc.
     rbind (get_str ''host'' c) (\<lambda>host. rbind (get_int ''port'' c) (\<lambda>port.
       if protocol = ''opcua''
       then rbind (get_str ''path'' c) (\<lambda>path. rbind (get_str ''securityPolicy'' c) (\<lambda>sp. rbind (get_str ''securityMode'' c) (\<lambda>sm.
            rbind (get_opt_str ''username'' c) (\<lambda>un. rbind (get_opt_str ''passwordEnv'' c) (\<lambda>pe.
              Inr \<lparr>cc_host = host, cc_port = port, cc_unit_id = None, cc_connect_timeout_ms = ct, cc_request_timeout_ms = rt, cc_retry_count = nat rc,
                   cc_path = Some path, cc_security_policy = Some sp, cc_security_mode = Some sm, cc_username = un, cc_password_env = pe\<rparr>)))))
       else rbind (get_int ''unitId'' c) (\<lambda>unit.
              Inr \<lparr>cc_host = host, cc_port = port, cc_unit_id = Some unit, cc_connect_timeout_ms = ct, cc_request_timeout_ms = rt, cc_retry_count = nat rc,
                   cc_path = None, cc_security_policy = None, cc_security_mode = None, cc_username = None, cc_password_env = None\<rparr>))))))"

definition parse_device :: "json \<Rightarrow> DeviceConfig res" where
  "parse_device d =
     rbind (get_str ''deviceId'' d) (\<lambda>did. rbind (get_str ''name'' d) (\<lambda>nm. rbind (get_bool ''enabled'' d) (\<lambda>en. rbind (get_str ''protocol'' d) (\<lambda>protocol.
     rbind (jget ''connection'' d) (\<lambda>c. rbind (parse_connection protocol c) (\<lambda>conn.
     rbind (jget_list ''points'' d) (\<lambda>ps. rbind (rmap (parse_point protocol) ps) (\<lambda>points.
       Inr \<lparr>dc_device_id = did, dc_name = nm, dc_enabled = en, dc_protocol = protocol, dc_connection = conn, dc_points = points\<rparr>))))))))"

text \<open>\<^verbatim>\<open>xs.sort(key=lambda x: x[k])\<close>, stable.\<close>

definition sort_by :: "string \<Rightarrow> json list \<Rightarrow> json list res" where
  "sort_by k xs = rbind (rmap (\<lambda>x. rbind (get_str k x) (\<lambda>s. Inr (s, x))) xs) (\<lambda>ps. Inr (map snd (sort_key fst ps)))"

fun jset :: "string \<Rightarrow> json \<Rightarrow> json \<Rightarrow> json" where
  "jset k v (JObj ps) = JObj (dset k v ps)"
| "jset k v m = m"

definition sort_points :: "json \<Rightarrow> json res" where
  "sort_points d = rbind (jget_list ''points'' d) (\<lambda>ps. rbind (sort_by ''pointId'' ps) (\<lambda>sorted. Inr (jset ''points'' (JArr sorted) d)))"

definition sort_config :: "json \<Rightarrow> json res" where
  "sort_config c =
     rbind (jget_list ''devices'' c) (\<lambda>ds. rbind (sort_by ''deviceId'' ds) (\<lambda>ds. rbind (rmap sort_points ds) (\<lambda>ds.
       Inr (jset ''devices'' (JArr ds) c))))"

definition build_snapshot :: "contract_env \<Rightarrow> string \<Rightarrow> json \<Rightarrow> ConfigSnapshot res" where
  "build_snapshot env payload wire =
     rbind (jget ''config'' wire) (\<lambda>c0. rbind (sort_config c0) (\<lambda>config.
     rbind (get_str ''gatewayId'' wire) (\<lambda>gw. rbind (get_str ''messageId'' wire) (\<lambda>mid. rbind (get_int ''configVersion'' wire) (\<lambda>v.
     rbind (get_int ''timestamp'' wire) (\<lambda>ts. rbind (get_bool ''enabled'' config) (\<lambda>en. rbind (jget ''report'' config) (\<lambda>rep.
     rbind (get_int ''batchIntervalMs'' rep) (\<lambda>bi. rbind (get_int ''maxBatchPoints'' rep) (\<lambda>mp.
     rbind (jget_list ''devices'' config) (\<lambda>ds. rbind (rmap parse_device ds) (\<lambda>devices.
       Inr \<lparr>cs_gateway_id = gw, cs_message_id = mid, cs_config_version = nat v, cs_timestamp = ts, cs_enabled = en,
            cs_report = \<lparr>rc_batch_interval_ms = bi, rc_max_batch_points = nat mp\<rparr>, cs_devices = devices,
            cs_content_json = cv_canonical env config, cs_wire_json = payload\<rparr>))))))))))))"

definition parse_config :: "contract_env \<Rightarrow> string \<Rightarrow> string \<Rightarrow> (issue list + ConfigSnapshot) res" where
  "parse_config env payload gateway =
     rbind (validate_message env ''configSet'' payload (Some gateway)) (\<lambda>issues.
       if issues \<noteq> [] then Inr (Inl issues)
       else case cv_loads env payload of None \<Rightarrow> Inl (ValueError ''json'')
            | Some m \<Rightarrow> rbind (build_snapshot env payload (normalize m)) (\<lambda>s. Inr (Inr s)))"

definition content_hash :: "contract_env \<Rightarrow> ConfigSnapshot \<Rightarrow> string" where
  "content_hash env s = cv_sha256 env (cs_content_json s)"

section \<open>Device commands\<close>

definition parse_command :: "contract_env \<Rightarrow> string \<Rightarrow> string \<Rightarrow> (issue list + json) res" where
  "parse_command env payload gateway =
     rbind (validate_message env ''configPatch'' payload (Some gateway)) (\<lambda>issues.
       if issues \<noteq> [] then Inr (Inl issues)
       else case cv_loads env payload of None \<Rightarrow> Inl (ValueError ''json'') | Some m \<Rightarrow> Inr (Inr m))"

definition patch_reject :: "string \<Rightarrow> string \<Rightarrow> (issue list + 'a) res" where
  "patch_reject code path = Inr (Inl [Issue code path ''Device command cannot be applied to its base.''])"

text \<open>The loop over the operations, on the dictionary of devices.\<close>

fun apply_operations :: "nat \<Rightarrow> json list \<Rightarrow> (string, json) dict \<Rightarrow> (issue list + (string, json) dict) res" where
  "apply_operations index [] devices = Inr (Inr devices)"
| "apply_operations index (operation # ops) devices =
     rbind (get_str ''deviceId'' operation) (\<lambda>key. rbind (get_str ''op'' operation) (\<lambda>op.
       (let path = ''/operations/'' @ digits index @ ''/deviceId''; present = (key \<in> set (dkeys devices))
        in if op = ''add'' \<and> present then patch_reject ''DEVICE_EXISTS'' path
           else if op \<in> {''replace'', ''remove''} \<and> \<not> present then patch_reject ''DEVICE_NOT_FOUND'' path
           else if op = ''remove'' then apply_operations (index + 1) ops (ddel key devices)
           else rbind (jget ''device'' operation) (\<lambda>d. apply_operations (index + 1) ops (dset key d devices)))))"

definition base_matches :: "json \<Rightarrow> ConfigSnapshot option \<Rightarrow> bool res" where
  "base_matches command active =
     rbind (jget ''baseConfigVersion'' command) (\<lambda>v. rbind (jget ''baseMessageId'' command) (\<lambda>i.
       Inr (jeq v (JNum (PyInt (case active of None \<Rightarrow> 0 | Some s \<Rightarrow> int (cs_config_version s))))
            \<and> i = (case active of None \<Rightarrow> JNull | Some s \<Rightarrow> JStr (cs_message_id s)))))"

definition base_config :: "contract_env \<Rightarrow> ConfigSnapshot option \<Rightarrow> json res" where
  "base_config env active =
     (case active of None \<Rightarrow> Inr (JObj [(''devices'', JArr [])])
      | Some s \<Rightarrow> (case cv_loads env (cs_content_json s) of None \<Rightarrow> Inl (ValueError ''json'') | Some m \<Rightarrow> Inr m))"

text \<open>\<^verbatim>\<open>config.update(command.get('gateway', {}))\<close>.\<close>

fun jupdate :: "json \<Rightarrow> json \<Rightarrow> json res" where
  "jupdate (JObj ps) (JObj qs) = Inr (JObj (fold (\<lambda>(k, v). dset k v) qs ps))"
| "jupdate _ _ = Inl TypeError"

definition index_devices :: "json list \<Rightarrow> (string, json) dict res" where
  "index_devices ds = rbind (rmap (\<lambda>d. rbind (get_str ''deviceId'' d) (\<lambda>k. Inr (k, d))) ds) (\<lambda>ps. Inr (fold (\<lambda>(k, d). dset k d) ps []))"

definition full_message :: "json \<Rightarrow> json \<Rightarrow> json res" where
  "full_message command config =
     rbind (rmap (\<lambda>k. rbind (jget k command) (\<lambda>v. Inr (k, v))) [''schemaVersion'', ''gatewayId'', ''timestamp'', ''messageId'', ''configVersion'']) (\<lambda>ps.
       Inr (JObj (ps @ [(''config'', config)])))"

definition materialize :: "contract_env \<Rightarrow> json \<Rightarrow> ConfigSnapshot option \<Rightarrow> string \<Rightarrow> (issue list + ConfigSnapshot) res" where
  "materialize env command active gateway =
     rbind (base_matches command active) (\<lambda>ok.
       if \<not> ok then patch_reject ''BASE_CONFIG_MISMATCH'' ''/baseConfigVersion''
       else rbind (base_config env active) (\<lambda>c0.
            rbind (if jhas ''gateway'' command then rbind (jget ''gateway'' command) (jupdate c0) else Inr c0) (\<lambda>c1.
            rbind (jget_list ''devices'' c1) (\<lambda>ds. rbind (index_devices ds) (\<lambda>devices.
            rbind (jget_list ''operations'' command) (\<lambda>ops. rbind (apply_operations 0 ops devices) (\<lambda>r.
              case r of Inl issues \<Rightarrow> Inr (Inl issues)
              | Inr devices \<Rightarrow> rbind (full_message command (jset ''devices'' (JArr (dvals devices)) c1)) (\<lambda>m.
                  parse_config env (cv_dumps env m) gateway))))))))"

end
