(* ===== verification/ConfigStore.thy ===== *)
theory ConfigStore
  imports ConfigModel
begin

text \<open>
  The durable configuration store of \<^verbatim>\<open>config/store.py\<close>: preparation, commit and failure of
  configuration snapshots, exact replay of commands, and recovery when the database is opened. The
  tables \<^verbatim>\<open>snapshots\<close> and \<^verbatim>\<open>requests\<close> are dictionaries by primary key. SQLite is a parameter
  (a stream that says whether the n-th transaction commits), as is \<^verbatim>\<open>uuid4\<close>; a transaction that
  raises leaves the tables as they were. The lock file and the PRAGMAs are not modelled.
\<close>

section \<open>State\<close>

datatype snapshot_state = S_PREPARED | S_COMMITTED | S_FAILED | S_INTERRUPTED

datatype request_status = R_PREPARED | R_APPLIED | R_FAILED | R_INTERRUPTED

record stored_snapshot =
  sv_payload :: string
  sv_hash :: string
  sv_state :: snapshot_state
  sv_token :: "string option"

record receipt =
  rq_version :: nat
  rq_status :: request_status
  rq_digest :: "string option"
  rq_kind :: "string option"

record config_db =
  cd_snapshots :: "(nat, stored_snapshot) dict"
  cd_requests :: "(string, receipt) dict"
  cd_active :: "nat option"
  cd_previous :: "nat option"

record store_env =
  xe_contract :: contract_env
  xe_uuid :: "nat \<Rightarrow> string"
  xe_commit :: "nat \<Rightarrow> bool"

record config_store =
  co_gateway :: string
  co_max_snapshots :: nat
  co_max_requests :: nat
  co_max_bytes :: nat
  co_db :: config_db
  co_ops :: nat

datatype prepare_status = P_REJECTED | P_PREPARED | P_APPLIED

record PrepareResult =
  pr_status :: prepare_status
  pr_active_config_version :: nat
  pr_token :: "string option"
  pr_code :: "string option"
  pr_issues :: "issue list"
  pr_snapshot :: "ConfigSnapshot option"
  pr_applied_config_version :: "nat option"

section \<open>Transactions and reading\<close>

text \<open>\<open>_transaction\<close>: the body works on the tables and gives its result with the tables to commit.\<close>

definition with_transaction :: "store_env \<Rightarrow> (nat \<Rightarrow> config_db \<Rightarrow> ('a \<times> config_db) res) \<Rightarrow> ('a, config_store) prog" where
  "with_transaction env body st =
     (case body (co_ops st) (co_db st) of
        Inl e \<Rightarrow> (Inl e, st\<lparr>co_ops := co_ops st + 1\<rparr>)
      | Inr (x, d) \<Rightarrow>
          (if xe_commit env (co_ops st) then (Inr x, st\<lparr>co_db := d, co_ops := co_ops st + 1\<rparr>)
           else (Inl (StoreError ''Configuration transaction failed; it was not committed.''), st\<lparr>co_ops := co_ops st + 1\<rparr>)))"

definition active_version :: "config_db \<Rightarrow> nat" where
  "active_version d = (case cd_active d of None \<Rightarrow> 0 | Some v \<Rightarrow> v)"

definition previous_version :: "config_db \<Rightarrow> nat" where
  "previous_version d = (case cd_previous d of None \<Rightarrow> 0 | Some v \<Rightarrow> v)"

definition decode_row :: "store_env \<Rightarrow> string \<Rightarrow> nat \<Rightarrow> stored_snapshot \<Rightarrow> ConfigSnapshot res" where
  "decode_row env gateway version row =
     rbind (parse_config (xe_contract env) (sv_payload row) gateway) (\<lambda>r.
       case r of Inl _ \<Rightarrow> Inl (StoreFormatError ''Stored configuration is not valid; recovery stopped.'')
       | Inr s \<Rightarrow> (if cs_config_version s \<noteq> version \<or> content_hash (xe_contract env) s \<noteq> sv_hash row
                  then Inl (StoreFormatError ''Stored configuration identity/content check failed.'') else Inr s))"

definition load_active :: "store_env \<Rightarrow> string \<Rightarrow> config_db \<Rightarrow> ConfigSnapshot option res" where
  "load_active env gateway d =
     (if active_version d = 0 then Inr None
      else case dget (cd_snapshots d) (active_version d) of
             None \<Rightarrow> Inl (StoreFormatError ''Active pointer does not reference committed configuration.'')
           | Some row \<Rightarrow> (if sv_state row \<noteq> S_COMMITTED
               then Inl (StoreFormatError ''Active pointer does not reference committed configuration.'')
               else rbind (decode_row env gateway (active_version d) row) (\<lambda>s. Inr (Some s))))"

section \<open>Preparation\<close>

definition reject :: "nat \<Rightarrow> string \<Rightarrow> PrepareResult" where
  "reject active code = \<lparr>pr_status = P_REJECTED, pr_active_config_version = active, pr_token = None, pr_code = Some code, pr_issues = [],
     pr_snapshot = None, pr_applied_config_version = None\<rparr>"

definition reject_issues :: "nat \<Rightarrow> issue list \<Rightarrow> PrepareResult" where
  "reject_issues active issues = (reject active (is_code (hd issues)))\<lparr>pr_issues := issues\<rparr>"

definition token_taken :: "string option \<Rightarrow> nat \<Rightarrow> config_db \<Rightarrow> bool" where
  "token_taken tok version d \<longleftrightarrow> tok \<noteq> None \<and> (\<exists>(v, row) \<in> set (cd_snapshots d). v \<noteq> version \<and> sv_token row = tok)"

text \<open>The writes of \<open>_prepare\<close>: the candidate row and the receipt of the request. The CHECK on
  versions and the UNIQUE constraint on tokens make the transaction fail.\<close>

definition write_candidate :: "ConfigSnapshot \<Rightarrow> string \<Rightarrow> bool \<Rightarrow> string option \<Rightarrow> config_db \<Rightarrow> config_db res" where
  "write_candidate s hash applied tok d =
     (let v = cs_config_version s
      in if v = 0 \<or> token_taken tok v d then Inl (StoreError ''Configuration transaction failed; it was not committed.'')
         else Inr (case dget (cd_snapshots d) v of
             None \<Rightarrow> d\<lparr>cd_snapshots := dset v \<lparr>sv_payload = cs_wire_json s, sv_hash = hash, sv_state = S_PREPARED, sv_token = tok\<rparr> (cd_snapshots d)\<rparr>
           | Some row \<Rightarrow> (if applied then d else d\<lparr>cd_snapshots := dset v (row\<lparr>sv_state := S_PREPARED, sv_token := tok\<rparr>) (cd_snapshots d)\<rparr>)))"

definition write_receipt :: "ConfigSnapshot \<Rightarrow> bool \<Rightarrow> string option \<Rightarrow> string option \<Rightarrow> config_db \<Rightarrow> config_db" where
  "write_receipt s applied digest kind d =
     (let status = (if applied then R_APPLIED else R_PREPARED)
      in d\<lparr>cd_requests := dset (cs_message_id s)
             (case dget (cd_requests d) (cs_message_id s) of
                None \<Rightarrow> \<lparr>rq_version = cs_config_version s, rq_status = status, rq_digest = digest, rq_kind = kind\<rparr>
              | Some r \<Rightarrow> r\<lparr>rq_status := status\<rparr>) (cd_requests d)\<rparr>)"

definition other_prepared :: "nat \<Rightarrow> config_db \<Rightarrow> bool" where
  "other_prepared version d \<longleftrightarrow> (\<exists>(v, row) \<in> set (cd_snapshots d). v \<noteq> version \<and> sv_state row = S_PREPARED)"

definition over_limits :: "config_store \<Rightarrow> ConfigSnapshot \<Rightarrow> config_db \<Rightarrow> bool" where
  "over_limits st s d \<longleftrightarrow>
     dget (cd_requests d) (cs_message_id s) = None \<and> length (cd_requests d) \<ge> co_max_requests st
     \<or> dget (cd_snapshots d) (cs_config_version s) = None
       \<and> (length (cd_snapshots d) \<ge> co_max_snapshots st
          \<or> sum_list (map (length \<circ> sv_payload) (dvals (cd_snapshots d))) + length (cs_wire_json s) > co_max_bytes st)"

text \<open>The refusals of \<open>_prepare\<close> in their order, None when the candidate is accepted.\<close>

definition refusal :: "store_env \<Rightarrow> config_store \<Rightarrow> ConfigSnapshot \<Rightarrow> string option \<Rightarrow> string option \<Rightarrow> config_db \<Rightarrow> string option res" where
  "refusal env st s digest kind d =
     (if (case dget (cd_requests d) (cs_message_id s) of None \<Rightarrow> False
          | Some r \<Rightarrow> rq_version r \<noteq> cs_config_version s \<or> rq_kind r \<noteq> kind \<or> rq_digest r \<noteq> digest)
      then Inr (Some ''MESSAGE_ID_CONFLICT'')
      else if cs_config_version s < active_version d then Inr (Some ''STALE_VERSION'')
      else rbind (case dget (cd_snapshots d) (cs_config_version s) of None \<Rightarrow> Inr False
                  | Some row \<Rightarrow> rbind (decode_row env (co_gateway st) (cs_config_version s) row) (\<lambda>old. Inr (cs_content_json old \<noteq> cs_content_json s))) (\<lambda>differs.
           Inr (if differs then Some ''VERSION_CONFLICT''
                else if cs_config_version s \<noteq> active_version d \<and> other_prepared (cs_config_version s) d then Some ''RESOURCE_LIMIT''
                else if over_limits st s d then Some ''RESOURCE_LIMIT'' else None)))"

definition new_token :: "store_env \<Rightarrow> nat \<Rightarrow> ConfigSnapshot \<Rightarrow> config_db \<Rightarrow> string option" where
  "new_token env n s d =
     (if cs_config_version s = active_version d then None
      else case dget (cd_snapshots d) (cs_config_version s) of
             Some row \<Rightarrow> (if sv_state row = S_PREPARED then sv_token row else Some (xe_uuid env n))
           | None \<Rightarrow> Some (xe_uuid env n))"

definition prepare_snapshot :: "store_env \<Rightarrow> config_store \<Rightarrow> ConfigSnapshot \<Rightarrow> string option \<Rightarrow> string option \<Rightarrow> nat \<Rightarrow> config_db \<Rightarrow> (PrepareResult \<times> config_db) res" where
  "prepare_snapshot env st s digest kind n d =
     rbind (refusal env st s digest kind d) (\<lambda>r.
       case r of Some code \<Rightarrow> Inr (reject (active_version d) code, d)
       | None \<Rightarrow>
          (let applied = (cs_config_version s = active_version d); tok = new_token env n s d
           in rbind (write_candidate s (content_hash (xe_contract env) s) applied tok d) (\<lambda>d'.
                Inr (\<lparr>pr_status = (if applied then P_APPLIED else P_PREPARED), pr_active_config_version = active_version d, pr_token = tok, pr_code = None,
                      pr_issues = [], pr_snapshot = (if kind \<noteq> None then Some s else None),
                      pr_applied_config_version = (if kind \<noteq> None \<and> applied then Some (cs_config_version s) else None)\<rparr>,
                     write_receipt s applied digest kind d'))))"

definition prepare_config :: "store_env \<Rightarrow> string \<Rightarrow> (PrepareResult, config_store) prog" where
  "prepare_config env payload st =
     (case parse_config (xe_contract env) payload (co_gateway st) of
        Inl e \<Rightarrow> (Inl e, st)
      | Inr (Inl issues) \<Rightarrow> (Inr (reject_issues (active_version (co_db st)) issues), st)
      | Inr (Inr s) \<Rightarrow> with_transaction env (prepare_snapshot env st s None None) st)"

text \<open>\<open>prepare_patch\<close> in the transaction: exact replay of an applied command first, then the conflicts, then the
  candidate built from the active configuration.\<close>

definition replay :: "store_env \<Rightarrow> config_store \<Rightarrow> string \<Rightarrow> nat \<Rightarrow> string \<Rightarrow> config_db \<Rightarrow> PrepareResult option res" where
  "replay env st mid version digest d =
     (case dget (cd_requests d) mid of None \<Rightarrow> Inr None
      | Some r \<Rightarrow>
         (if rq_version r \<noteq> version \<or> rq_kind r \<noteq> Some ''configPatch'' \<or> rq_digest r \<noteq> Some digest
          then Inr (Some (reject (active_version d) ''MESSAGE_ID_CONFLICT''))
          else if rq_status r \<noteq> R_APPLIED then Inr None
          else case dget (cd_snapshots d) (rq_version r) of
                 None \<Rightarrow> Inl (StoreFormatError ''Applied command receipt is inconsistent.'')
               | Some row \<Rightarrow>
                  (if sv_state row \<noteq> S_COMMITTED \<or> rq_version r > active_version d
                   then Inl (StoreFormatError ''Applied command receipt is inconsistent.'')
                   else rbind (decode_row env (co_gateway st) (rq_version r) row) (\<lambda>s.
                     if cs_message_id s \<noteq> mid then Inl (StoreFormatError ''Applied command receipt is inconsistent.'')
                     else Inr (Some \<lparr>pr_status = P_APPLIED, pr_active_config_version = active_version d, pr_token = None, pr_code = None, pr_issues = [],
                            pr_snapshot = None, pr_applied_config_version = Some (rq_version r)\<rparr>)))))"

definition patch_body :: "store_env \<Rightarrow> config_store \<Rightarrow> json \<Rightarrow> string \<Rightarrow> nat \<Rightarrow> string \<Rightarrow> nat \<Rightarrow> config_db \<Rightarrow> (PrepareResult \<times> config_db) res" where
  "patch_body env st command mid version digest n d =
     rbind (replay env st mid version digest d) (\<lambda>r.
       case r of Some result \<Rightarrow> Inr (result, d)
       | None \<Rightarrow>
          rbind (case dget (cd_snapshots d) version of None \<Rightarrow> Inr False
                 | Some row \<Rightarrow> rbind (decode_row env (co_gateway st) version row) (\<lambda>s. Inr (cs_message_id s \<noteq> mid))) (\<lambda>conflict.
            if conflict then Inr (reject (active_version d) ''VERSION_CONFLICT'', d)
            else rbind (load_active env (co_gateway st) d) (\<lambda>active.
                 rbind (materialize (xe_contract env) command active (co_gateway st)) (\<lambda>m.
                   case m of Inl issues \<Rightarrow> Inr (reject_issues (active_version d) issues, d)
                   | Inr s \<Rightarrow> prepare_snapshot env st s (Some digest) (Some ''configPatch'') n d))))"

definition prepare_patch :: "store_env \<Rightarrow> string \<Rightarrow> (PrepareResult, config_store) prog" where
  "prepare_patch env payload st =
     (case parse_command (xe_contract env) payload (co_gateway st) of
        Inl e \<Rightarrow> (Inl e, st)
      | Inr (Inl issues) \<Rightarrow> (Inr (reject_issues (active_version (co_db st)) issues), st)
      | Inr (Inr command) \<Rightarrow>
          (case (get_str ''messageId'' command, get_int ''configVersion'' (normalize command)) of
             (Inr mid, Inr v) \<Rightarrow> with_transaction env (patch_body env st command mid (nat v) (cv_sha256 (xe_contract env) payload)) st
           | (Inl e, _) \<Rightarrow> (Inl e, st) | (_, Inl e) \<Rightarrow> (Inl e, st)))"

section \<open>Commit and failure\<close>

definition candidate :: "string \<Rightarrow> config_db \<Rightarrow> (nat \<times> stored_snapshot) res" where
  "candidate tok d =
     (if tok = [] then Inl (InvalidCandidate ''A valid preparation token is required.'')
      else case List.find (\<lambda>(v, row). sv_token row = Some tok) (cd_snapshots d) of
             None \<Rightarrow> Inl (InvalidCandidate ''Preparation token is no longer active.'') | Some p \<Rightarrow> Inr p)"

definition set_requests :: "nat \<Rightarrow> request_status \<Rightarrow> config_db \<Rightarrow> config_db" where
  "set_requests v status d = d\<lparr>cd_requests := map (\<lambda>(k, r). (k, if rq_version r = v then r\<lparr>rq_status := status\<rparr> else r)) (cd_requests d)\<rparr>"

definition commit_body :: "store_env \<Rightarrow> string \<Rightarrow> string \<Rightarrow> nat \<Rightarrow> config_db \<Rightarrow> (ConfigSnapshot \<times> config_db) res" where
  "commit_body env gateway tok n d =
     rbind (candidate tok d) (\<lambda>(v, row).
       if sv_state row = S_COMMITTED \<and> v = active_version d then rbind (decode_row env gateway v row) (\<lambda>s. Inr (s, d))
       else if sv_state row \<noteq> S_PREPARED \<or> v \<le> active_version d then Inl (InvalidCandidate ''Only a newer prepared candidate can be committed.'')
       else rbind (decode_row env gateway v row) (\<lambda>s.
              Inr (s, set_requests v R_APPLIED (d\<lparr>cd_snapshots := dset v (row\<lparr>sv_state := S_COMMITTED\<rparr>) (cd_snapshots d),
                                               cd_previous := cd_active d, cd_active := Some v\<rparr>))))"

definition commit :: "store_env \<Rightarrow> string \<Rightarrow> (ConfigSnapshot, config_store) prog" where
  "commit env tok st = with_transaction env (commit_body env (co_gateway st) tok) st"

definition fail_body :: "string \<Rightarrow> nat \<Rightarrow> config_db \<Rightarrow> (unit \<times> config_db) res" where
  "fail_body tok n d =
     rbind (candidate tok d) (\<lambda>(v, row).
       if sv_state row \<noteq> S_PREPARED then Inl (InvalidCandidate ''Only a prepared candidate can fail.'')
       else Inr ((), set_requests v R_FAILED (d\<lparr>cd_snapshots := dset v (row\<lparr>sv_state := S_FAILED, sv_token := None\<rparr>) (cd_snapshots d)\<rparr>)))"

definition fail :: "store_env \<Rightarrow> string \<Rightarrow> (unit, config_store) prog" where
  "fail env tok st = with_transaction env (fail_body tok) st"

section \<open>Opening\<close>

text \<open>\<open>_initialize\<close> on the content of an existing database of the right format (None: a new file): interrupted
  preparations are recovered and the committed configuration is validated.\<close>

definition interrupt :: "config_db \<Rightarrow> config_db" where
  "interrupt d =
     d\<lparr>cd_requests := map (\<lambda>(k, r). (k, if rq_status r = R_PREPARED then r\<lparr>rq_status := R_INTERRUPTED\<rparr> else r)) (cd_requests d),
       cd_snapshots := map (\<lambda>(v, row). (v, if sv_state row = S_PREPARED then row\<lparr>sv_state := S_INTERRUPTED, sv_token := None\<rparr> else row)) (cd_snapshots d)\<rparr>"

definition empty_config :: config_db where
  "empty_config = \<lparr>cd_snapshots = [], cd_requests = [], cd_active = None, cd_previous = None\<rparr>"

definition APPLICATION_ID :: nat where
  "APPLICATION_ID = 0x50494F54"

text \<open>What the opening reads of a file: format, identity, integrity, whether the receipt columns have a known
  format, and the tables.\<close>

record config_file =
  cf_new :: bool
  cf_application_id :: nat
  cf_version :: nat
  cf_gateway :: "string option"
  cf_quick :: bool
  cf_columns :: bool
  cf_content :: config_db

definition initialize :: "store_env \<Rightarrow> string \<Rightarrow> config_file \<Rightarrow> config_db res" where
  "initialize env gateway f =
     (if \<not> cf_new f \<and> (cf_application_id f \<noteq> APPLICATION_ID \<or> cf_version f \<noteq> 1)
      then Inl (StoreFormatError ''Unknown configuration database format/version.'')
      else if \<not> cf_new f \<and> cf_gateway f \<noteq> Some gateway then Inl (StoreIdentityError ''Database belongs to another PLC identity.'')
      else if \<not> cf_quick f then Inl (StoreFormatError ''Configuration database integrity check failed.'')
      else if \<not> cf_new f \<and> \<not> cf_columns f then Inl (StoreFormatError ''Unknown command receipt column format.'')
      else let d = interrupt (if cf_new f then empty_config else cf_content f)
           in rbind (load_active env gateway d) (\<lambda>_.
                if xe_commit env 0 then Inr d else Inl (StoreError ''Configuration transaction failed; it was not committed.'')))"

definition store_open :: "store_env \<Rightarrow> string \<Rightarrow> nat \<Rightarrow> nat \<Rightarrow> nat \<Rightarrow> config_file \<Rightarrow> config_store res" where
  "store_open env gateway max_snapshots max_requests max_bytes f =
     (if \<not> id_fullmatch gateway then Inl (ValueError ''Invalid local gateway identity.'')
      else if max_snapshots < 1 \<or> max_requests < 1 \<or> max_bytes < 1 then Inl (ValueError ''Configuration storage limits must be positive integers.'')
      else rbind (initialize env gateway f) (\<lambda>d.
             Inr \<lparr>co_gateway = gateway, co_max_snapshots = max_snapshots, co_max_requests = max_requests, co_max_bytes = max_bytes,
                  co_db = d, co_ops = 1\<rparr>))"

end
