(* ===== verification/Lifecycle.thy ===== *)
theory Lifecycle
  imports Runtime ConfigStore
begin

text \<open>
  The coordinator of \<^verbatim>\<open>core/lifecycle.py\<close>: start, the queue of configuration requests, the application
  of one request (prepare, activate, commit, publish, with restoration of the old runners on failure), and
  shutdown. It composes the configuration store and the device runtime. Parameters: the storage worker of
  \<^verbatim>\<open>core/storage_worker.py\<close>, which runs a call, refuses it, or runs it and loses its result, and the environments
  of the store and of the runtime. Requests are applied one at a time by the coordinator task; the application of a
  request is one step here, with the closing flag as it stands when the step begins. Cancellation is not modelled.
\<close>

section \<open>State\<close>

datatype agent_state = A_NEW | A_STARTING | A_WAITING_CONFIG | A_RUNNING | A_DISABLED | A_APPLYING | A_STOPPING | A_STOPPED | A_FAILED

datatype apply_status = X_APPLIED | X_REJECTED | X_FAILED

record ApplyResult =
  ar_status :: apply_status
  ar_active_config_version :: "nat option"
  ar_code :: "string option"
  ar_issues :: "issue list"
  ar_applied_config_version :: "nat option"
  ar_active_message_id :: "string option"

record agent =
  ag_state :: agent_state
  ag_last_error :: "string option"
  ag_active :: "ConfigSnapshot option"
  ag_durable :: "nat option"
  ag_capacity :: nat
  ag_queue :: "(string \<times> nat \<times> string) list"
  ag_replies :: "(nat, ApplyResult) dict"
  ag_next :: nat
  ag_closing :: bool
  ag_failed :: bool
  ag_runtime :: runtime
  ag_store :: config_store
  ag_jobs :: nat

text \<open>What the storage worker does with its n-th job.\<close>

datatype job = Ran | Refused | ResultLost

record agent_env =
  ge_job :: "nat \<Rightarrow> job"
  ge_store :: "nat \<Rightarrow> store_env"
  ge_runtime :: runtime_env
  ge_close :: bool

definition agent_new :: "nat \<Rightarrow> runtime \<Rightarrow> config_store \<Rightarrow> agent" where
  "agent_new capacity rt st = \<lparr>ag_state = A_NEW, ag_last_error = None, ag_active = None, ag_durable = Some 0, ag_capacity = capacity,
     ag_queue = [], ag_replies = [], ag_next = 0, ag_closing = False, ag_failed = False, ag_runtime = rt, ag_store = st, ag_jobs = 0\<rparr>"

definition active_message_id :: "agent \<Rightarrow> string option" where
  "active_message_id a = (case ag_active a of None \<Rightarrow> None
     | Some s \<Rightarrow> if Some (cs_config_version s) = ag_durable a then Some (cs_message_id s) else None)"

definition result :: "apply_status \<Rightarrow> string option \<Rightarrow> issue list \<Rightarrow> nat option \<Rightarrow> agent \<Rightarrow> ApplyResult" where
  "result status code issues applied a = \<lparr>ar_status = status, ar_active_config_version = ag_durable a, ar_code = code, ar_issues = issues,
     ar_applied_config_version = applied, ar_active_message_id = active_message_id a\<rparr>"

definition steady :: "agent \<Rightarrow> agent" where
  "steady a =
     (if ag_state a = A_FAILED then a
      else a\<lparr>ag_state := (if ag_closing a then A_STOPPING
        else case ag_active a of None \<Rightarrow> A_WAITING_CONFIG | Some s \<Rightarrow> if cs_enabled s then A_RUNNING else A_DISABLED)\<rparr>)"

section \<open>Calls of the store and of the runtime\<close>

definition store_call :: "agent_env \<Rightarrow> (store_env \<Rightarrow> ('a, config_store) prog) \<Rightarrow> ('a, agent) prog" where
  "store_call env m a =
     (let n = ag_jobs a; b = a\<lparr>ag_jobs := n + 1\<rparr>
      in case ge_job env n of
           Refused \<Rightarrow> (Inl WorkerFull, b)
         | Ran \<Rightarrow> (let (r, st) = m (ge_store env n) (ag_store a) in (r, b\<lparr>ag_store := st\<rparr>))
         | ResultLost \<Rightarrow> (Inl (RuntimeError ''result lost''), b\<lparr>ag_store := snd (m (ge_store env n) (ag_store a))\<rparr>))"

definition load_call :: "store_env \<Rightarrow> (ConfigSnapshot option, config_store) prog" where
  "load_call env st = (load_active env (co_gateway st) (co_db st), st)"

definition prepare_call :: "string \<Rightarrow> string \<Rightarrow> store_env \<Rightarrow> (PrepareResult, config_store) prog" where
  "prepare_call kind payload env = (if kind = ''configPatch'' then prepare_patch env payload else prepare_config env payload)"

definition parse_call :: "string \<Rightarrow> store_env \<Rightarrow> (ConfigSnapshot, config_store) prog" where
  "parse_call payload env st =
     (case parse_config (xe_contract env) payload (co_gateway st) of
        Inl e \<Rightarrow> (Inl e, st) | Inr (Inl _) \<Rightarrow> (Inl (ValueError ''Configuration failed contract validation.''), st) | Inr (Inr s) \<Rightarrow> (Inr s, st))"

definition on_runtime :: "('a, runtime) prog \<Rightarrow> ('a, agent) prog" where
  "on_runtime m a = (let (r, rt) = m (ag_runtime a) in (r, a\<lparr>ag_runtime := rt\<rparr>))"

text \<open>\<open>_fatal\<close>: the agent is failed for good and every runner is stopped.\<close>

definition fatal :: "agent_env \<Rightarrow> string \<Rightarrow> agent \<Rightarrow> agent" where
  "fatal env code a =
     (let (r, b) = on_runtime (shutdown (ge_runtime env)) (a\<lparr>ag_state := A_FAILED, ag_last_error := Some code\<rparr>)
      in (case r of Inr _ \<Rightarrow> b | Inl _ \<Rightarrow> b\<lparr>ag_last_error := Some ''SHUTDOWN_FAILED''\<rparr>)\<lparr>ag_failed := True\<rparr>)"

definition fatal_result :: "agent_env \<Rightarrow> string \<Rightarrow> string \<Rightarrow> agent \<Rightarrow> ApplyResult res \<times> agent" where
  "fatal_result env error code a = (let b = fatal env error a in (Inr (result X_FAILED (Some code) [] None b), b))"

definition steady_result :: "apply_status \<Rightarrow> string option \<Rightarrow> issue list \<Rightarrow> nat option \<Rightarrow> agent \<Rightarrow> ApplyResult res \<times> agent" where
  "steady_result status code issues applied a = (let b = steady a in (Inr (result status code issues applied b), b))"

section \<open>Applying one request\<close>

text \<open>\<open>_restore\<close>: the old runners back, then the candidate marked as failed.\<close>

definition restore :: "agent_env \<Rightarrow> string \<Rightarrow> string \<Rightarrow> (ApplyResult, agent) prog" where
  "restore env tok code a =
     (case on_runtime (rollback (ge_runtime env)) a of
        (Inl _, a) \<Rightarrow> (case store_call env (\<lambda>e. fail e tok) a of (_, a) \<Rightarrow> fatal_result env ''ROLLBACK_FAILED'' ''ROLLBACK_FAILED'' a)
      | (Inr _, a) \<Rightarrow>
          (case store_call env (\<lambda>e. fail e tok) a of
             (Inl _, a) \<Rightarrow> fatal_result env ''STORAGE_ERROR'' ''STORAGE_ERROR'' a
           | (Inr _, a) \<Rightarrow> steady_result X_FAILED (Some code) [] None a))"

definition committed_result :: "agent_env \<Rightarrow> string \<Rightarrow> ConfigSnapshot \<Rightarrow> (ApplyResult, agent) prog" where
  "committed_result env kind committed a =
     (case on_runtime (publish (ge_runtime env)) (a\<lparr>ag_durable := Some (cs_config_version committed)\<rparr>) of
        (Inl e, a) \<Rightarrow> (Inl e, a)
      | (Inr _, a) \<Rightarrow> steady_result X_APPLIED None [] (if kind = ''configPatch'' then Some (cs_config_version committed) else None)
                       (a\<lparr>ag_active := Some committed\<rparr>))"

text \<open>After the activation: the commit, whose outcome is read back when its result is an exception.\<close>

definition uncertain_commit :: "agent_env \<Rightarrow> string \<Rightarrow> string \<Rightarrow> ConfigSnapshot \<Rightarrow> (ApplyResult, agent) prog" where
  "uncertain_commit env kind tok s a =
     (case store_call env load_call a of
        (Inl _, a) \<Rightarrow> fatal_result env ''COMMIT_OUTCOME_UNKNOWN'' ''COMMIT_OUTCOME_UNKNOWN'' (a\<lparr>ag_durable := None\<rparr>)
      | (Inr found, a) \<Rightarrow>
          (case found of
             Some c \<Rightarrow>
               (if cs_config_version c = cs_config_version s \<and> cs_content_json c = cs_content_json s then committed_result env kind c a
                else if found = ag_active a then restore env tok ''STORAGE_ERROR'' a
                else fatal_result env ''UNEXPECTED_COMMITTED_VERSION'' ''COMMIT_OUTCOME_UNKNOWN'' (a\<lparr>ag_durable := Some (cs_config_version c)\<rparr>))
           | None \<Rightarrow>
               (if found = ag_active a then restore env tok ''STORAGE_ERROR'' a
                else fatal_result env ''UNEXPECTED_COMMITTED_VERSION'' ''COMMIT_OUTCOME_UNKNOWN'' (a\<lparr>ag_durable := Some 0\<rparr>))))"

definition activate_commit :: "agent_env \<Rightarrow> string \<Rightarrow> string \<Rightarrow> ConfigSnapshot \<Rightarrow> (ApplyResult, agent) prog" where
  "activate_commit env kind tok s a =
     (case on_runtime (activate (ge_runtime env)) a of
        (Inl e, a) \<Rightarrow> restore env tok (if e = TimeoutError then ''APPLY_TIMEOUT'' else ''APPLY_FAILED'') a
      | (Inr _, a) \<Rightarrow>
          (case store_call env (\<lambda>e. commit e tok) a of
             (Inr c, a) \<Rightarrow> committed_result env kind c a
           | (Inl _, a) \<Rightarrow> uncertain_commit env kind tok s a))"

definition preflight_failed :: "agent_env \<Rightarrow> string \<Rightarrow> exn \<Rightarrow> (ApplyResult, agent) prog" where
  "preflight_failed env tok e a =
     (case store_call env (\<lambda>e. fail e tok) a of
        (Inl _, a) \<Rightarrow> fatal_result env ''STORAGE_ERROR'' ''STORAGE_ERROR'' a
      | (Inr _, a) \<Rightarrow> steady_result X_REJECTED
          (Some (case e of UnsupportedDriver _ \<Rightarrow> ''UNSUPPORTED_DRIVER'' | _ \<Rightarrow> ''PREFLIGHT_FAILED'')) [] None a)"

definition apply_candidate :: "agent_env \<Rightarrow> string \<Rightarrow> string \<Rightarrow> PrepareResult \<Rightarrow> (ApplyResult, agent) prog" where
  "apply_candidate env kind payload p a =
     (let tok = (case pr_token p of None \<Rightarrow> [] | Some t \<Rightarrow> t)
      in case (if kind = ''configPatch'' then (Inr (pr_snapshot p), a)
               else case store_call env (parse_call payload) a of (Inl e, a) \<Rightarrow> (Inl e, a) | (Inr s, a) \<Rightarrow> (Inr (Some s), a)) of
           (Inl e, a) \<Rightarrow> (Inl e, a)
         | (Inr None, a) \<Rightarrow> preflight_failed env tok AttributeError a
         | (Inr (Some s), a) \<Rightarrow>
             (case on_runtime (prepare_runtime (ge_runtime env) s) a of
                (Inl e, a) \<Rightarrow> preflight_failed env tok e a
              | (Inr _, a) \<Rightarrow> activate_commit env kind tok s a))"

definition apply_request :: "agent_env \<Rightarrow> string \<Rightarrow> string \<Rightarrow> (ApplyResult, agent) prog" where
  "apply_request env payload kind a =
     (case store_call env (prepare_call kind payload) (a\<lparr>ag_state := (if ag_closing a then A_STOPPING else A_APPLYING)\<rparr>) of
        (Inl (StoreFormatError _), a) \<Rightarrow> fatal_result env ''STORAGE_CORRUPT'' ''STORAGE_ERROR'' a
      | (Inl e, a) \<Rightarrow> (if is_store_error e then steady_result X_FAILED (Some ''STORAGE_ERROR'') [] None a else (Inl e, a))
      | (Inr p, a) \<Rightarrow>
          (case pr_status p of
             P_REJECTED \<Rightarrow> steady_result X_REJECTED (pr_code p) (pr_issues p) None a
           | P_APPLIED \<Rightarrow>
               (if map_option cs_config_version (ag_active a) \<noteq> Some (pr_active_config_version p)
                then fatal_result env ''RUNTIME_VERSION_MISMATCH'' ''RUNTIME_VERSION_MISMATCH'' a
                else steady_result X_APPLIED None [] (pr_applied_config_version p) a)
           | P_PREPARED \<Rightarrow> apply_candidate env kind payload p a))"

section \<open>The queue\<close>

definition reply :: "nat \<Rightarrow> ApplyResult \<Rightarrow> agent \<Rightarrow> agent" where
  "reply f r a = (if dget (ag_replies a) f = None then a\<lparr>ag_replies := dset f r (ag_replies a)\<rparr> else a)"

definition refuse :: "string \<Rightarrow> string \<times> nat \<times> string \<Rightarrow> agent \<Rightarrow> agent" where
  "refuse code item a = reply (fst (snd item)) (result X_REJECTED (Some code) [] None a) a"

definition drain :: "string \<Rightarrow> agent \<Rightarrow> agent" where
  "drain code a = fold (refuse code) (ag_queue a) (a\<lparr>ag_queue := []\<rparr>)"

definition MAX_PAYLOAD :: nat where
  "MAX_PAYLOAD = 2097152"

text \<open>\<open>submit\<close>: an answer at once, or the future that \<open>serve\<close> resolves.\<close>

definition submit :: "string \<Rightarrow> string \<Rightarrow> agent \<Rightarrow> (ApplyResult + nat) \<times> agent" where
  "submit payload kind a =
     (let rejected = (\<lambda>code. (Inl (result X_REJECTED (Some code) [] None a), a))
      in if ag_closing a then rejected ''STOPPING''
         else if ag_state a \<notin> {A_WAITING_CONFIG, A_RUNNING, A_DISABLED, A_APPLYING} then rejected ''NOT_RUNNING''
         else if length payload > MAX_PAYLOAD then rejected ''PAYLOAD_TOO_LARGE''
         else if kind \<noteq> ''configSet'' \<and> kind \<noteq> ''configPatch'' then rejected ''UNSUPPORTED_MESSAGE''
         else if length (ag_queue a) \<ge> ag_capacity a then rejected ''RESOURCE_LIMIT''
         else (Inr (ag_next a), a\<lparr>ag_queue := ag_queue a @ [(payload, ag_next a, kind)], ag_next := ag_next a + 1\<rparr>))"

text \<open>One turn of \<open>_serve\<close>.\<close>

definition serve :: "agent_env \<Rightarrow> agent \<Rightarrow> agent" where
  "serve env a =
     (case ag_queue a of [] \<Rightarrow> a
      | (payload, f, kind) # rest \<Rightarrow>
          (let (r, b) = (case apply_request env payload kind (a\<lparr>ag_queue := rest\<rparr>) of
                 (Inr r, b) \<Rightarrow> (r, b)
               | (Inl _, b) \<Rightarrow> (let c = fatal env ''COORDINATOR_FAILED'' b in (result X_FAILED (Some ''INTERNAL_ERROR'') [] None c, c)));
               b = reply f r b
           in if ag_state b = A_FAILED then drain ''NOT_RUNNING'' b else b))"

section \<open>Start and close\<close>

definition startup_failed :: "agent_env \<Rightarrow> agent \<Rightarrow> agent" where
  "startup_failed env a = fatal env ''STARTUP_FAILED'' a"

definition start_snapshot :: "agent_env \<Rightarrow> ConfigSnapshot \<Rightarrow> (unit, agent) prog" where
  "start_snapshot env s =
     sbind (on_runtime (prepare_runtime (ge_runtime env) s)) (\<lambda>_.
     sbind (on_runtime (activate (ge_runtime env))) (\<lambda>_.
     sbind (on_runtime (publish (ge_runtime env))) (\<lambda>_.
       supd (\<lambda>a. a\<lparr>ag_active := Some s\<rparr>))))"

text \<open>\<open>start\<close> on an opened store (a store that does not open is the failure of the first job).\<close>

definition start :: "agent_env \<Rightarrow> (unit, agent) prog" where
  "start env a =
     (if ag_state a \<noteq> A_NEW \<or> ag_closing a then (Inl (RuntimeError ''A lifecycle instance can only start once.''), a)
      else case store_call env load_call (a\<lparr>ag_state := A_STARTING\<rparr>) of
             (Inl _, a) \<Rightarrow> (Inl (RuntimeError ''Agent startup failed; no running state was announced.''), startup_failed env a)
           | (Inr found, a) \<Rightarrow>
               (let a = a\<lparr>ag_durable := Some (case found of None \<Rightarrow> 0 | Some s \<Rightarrow> cs_config_version s)\<rparr>
                in case (case found of None \<Rightarrow> (Inr (), a) | Some s \<Rightarrow> start_snapshot env s a) of
                     (Inl _, a) \<Rightarrow> (Inl (RuntimeError ''Agent startup failed; no running state was announced.''), startup_failed env a)
                   | (Inr _, a) \<Rightarrow> (Inr (), steady a)))"

text \<open>\<open>close\<close> and \<open>_close\<close>: waiting requests are answered, runners stopped, the store closed (\<open>ge_close\<close> says whether
  closing it raised nothing).\<close>

definition close :: "agent_env \<Rightarrow> agent \<Rightarrow> agent" where
  "close env a =
     (let a = a\<lparr>ag_closing := True, ag_state := (if ag_state a = A_FAILED then A_FAILED else A_STOPPING)\<rparr>;
          a = drain ''STOPPING'' a;
          (r, a) = on_runtime (shutdown (ge_runtime env)) a;
          a = (case r of Inr _ \<Rightarrow> a | Inl _ \<Rightarrow> a\<lparr>ag_state := A_FAILED, ag_last_error := Some ''SHUTDOWN_FAILED''\<rparr>);
          a = (if ge_close env then a else a\<lparr>ag_state := A_FAILED, ag_last_error := Some ''STORAGE_CLOSE_FAILED''\<rparr>)
      in if ag_state a = A_FAILED then a\<lparr>ag_failed := True\<rparr> else a\<lparr>ag_state := A_STOPPED\<rparr>)"

end
