(* ===== verification/ConfigModelInv.thy ===== *)
theory ConfigModelInv
  imports ConfigModel ReadPlan "HOL-Library.Multiset"
begin

text \<open>
  What a message that passes the contracts guarantees of the configuration parsed from it, and the
  depth check of \<^verbatim>\<open>contracts.py\<close> against the nesting depth it stands for.
\<close>

section \<open>Depth\<close>

text \<open>The nesting of a value: scalars and empty containers have depth 0.\<close>

fun jdepth :: "json \<Rightarrow> nat" where
  "jdepth (JArr xs) = foldr (\<lambda>x n. max (Suc (jdepth x)) n) xs 0"
| "jdepth (JObj ps) = foldr (\<lambda>p n. max (Suc (jdepth (snd p))) n) ps 0"
| "jdepth _ = 0"

lemma foldr_max_le: "foldr (\<lambda>x n. max (f x) n) xs 0 \<le> (b::nat) \<longleftrightarrow> (\<forall>x \<in> set xs. f x \<le> b)"
  by (induction xs) auto

lemma jdepth_le: "d + jdepth m \<le> b \<longleftrightarrow> d \<le> b \<and> (\<forall>c \<in> set (children m). d + 1 + jdepth c \<le> b)"
proof -
  have "jdepth m \<le> b - d \<longleftrightarrow> (\<forall>c \<in> set (children m). Suc (jdepth c) \<le> b - d)"
    by (cases m) (auto simp: foldr_max_le)
  then show ?thesis by (cases "d \<le> b") (auto simp: le_diff_conv2 add.commute)
qed

lemma check_depth_iff: "check_depth pending \<longleftrightarrow> (\<forall>(m, d) \<in> set pending. d + jdepth m \<le> 64)"
proof (induction pending rule: check_depth.induct)
  case (2 item d pending)
  show ?case
  proof (cases "d > 64")
    case False
    then have "check_depth ((item, d) # pending) \<longleftrightarrow> (\<forall>c \<in> set (children item). d + 1 + jdepth c \<le> 64) \<and> (\<forall>(m, d) \<in> set pending. d + jdepth m \<le> 64)"
      using 2 [OF False] by (auto simp: ball_Un)
    with False jdepth_le [of d item 64] show ?thesis by auto
  qed auto
qed simp

section \<open>Sequences of results\<close>

lemma rmap_iff: "rmap f xs = Inr ys \<longleftrightarrow> list_all2 (\<lambda>x y. f x = Inr y) xs ys"
  by (induction xs arbitrary: ys) (auto simp: rbind_Inr_iff list_all2_Cons1)

lemma list_all2_map_eq: "list_all2 (\<lambda>x y. f x = Inr y) xs ys \<Longrightarrow> (\<And>x y. x \<in> set xs \<Longrightarrow> f x = Inr y \<Longrightarrow> g y = h x) \<Longrightarrow> map g ys = map h xs"
  by (induction rule: list_all2_induct) auto

section \<open>Numbers and strings under normalisation\<close>

lemma normalize_num_value [simp]: "num_value (normalize_num n) = num_value n"
  by (cases n) (auto simp: normalize_num_def)

lemma jget_normalize: "jget k (normalize m) = rbind (jget k m) (\<lambda>v. Inr (normalize v))"
proof (cases m)
  case (JObj ps)
  have "dget (map (\<lambda>p. (fst p, normalize (snd p))) ps) k = map_option normalize (dget ps k)"
    by (induction ps) auto
  with JObj show ?thesis by (simp add: dindex_def split: option.split)
qed simp_all

lemma get_str_normalize: "get_str k (normalize m) = get_str k m"
proof -
  have "jstr (normalize v) = jstr v" for v by (cases v) auto
  then show ?thesis by (auto simp: get_str_def jget_normalize rbind_def split: sum.split)
qed

lemma get_str_iff: "get_str k m = Inr s \<longleftrightarrow> jget k m = Inr (JStr s)"
proof -
  have "jstr v = Inr s \<longleftrightarrow> v = JStr s" for v by (cases v) auto
  then show ?thesis by (auto simp: get_str_def rbind_Inr_iff)
qed

lemma get_int_normalize: "get_int k (normalize m) = Inr n \<Longrightarrow> jget_num k m = Inr (of_int n)"
proof -
  assume "get_int k (normalize m) = Inr n"
  then obtain v where v: "jget k m = Inr v" "jint (normalize v) = Inr n"
    by (auto simp: get_int_def jget_normalize rbind_Inr_iff)
  then obtain x where "v = JNum x" "normalize_num x = PyInt n"
  proof (cases v)
    case (JNum x)
    with v(2) have "normalize_num x = PyInt n" by (cases "normalize_num x") auto
    with JNum show thesis by (rule that)
  qed auto
  with v normalize_num_value [of x] show ?thesis by (simp add: jget_num_def)
qed

lemma jget_list_normalize: "jget_list k (normalize m) = Inr ys \<Longrightarrow> \<exists>xs. jget_list k m = Inr xs \<and> ys = map normalize xs"
proof -
  assume "jget_list k (normalize m) = Inr ys"
  then obtain v where v: "jget k m = Inr v" "jlist (normalize v) = Inr ys"
    by (auto simp: jget_list_def jget_normalize rbind_Inr_iff)
  then show ?thesis by (cases v) (auto simp: jget_list_def)
qed

section \<open>What an empty list of issues means\<close>

text \<open>A point by itself, as the wire has it.\<close>

definition point_fine :: "json \<Rightarrow> json \<Rightarrow> bool" where
  "point_fine protocol p \<longleftrightarrow>
     (\<forall>stale poll. jget_num ''staleAfterMs'' p = Inr stale \<and> jget_num ''pollIntervalMs'' p = Inr poll \<longrightarrow> poll \<le> stale)
     \<and> (protocol = JStr ''modbus_tcp'' \<longrightarrow> (\<forall>dt mb a. jget ''dataType'' p = Inr dt \<and> jget ''modbus'' p = Inr mb \<and> jget_num ''address'' mb = Inr a
          \<longrightarrow> a + (if dt \<in> {JStr ''int32'', JStr ''uint32'', JStr ''float32''} then 2 else 1) - 1 \<le> 65535))"

definition node_of :: "json \<Rightarrow> json res" where
  "node_of p = rbind (jget ''opcua'' p) (jget ''nodeId'')"

lemma point_rules_fine:
  assumes "point_rules pp protocol p points ns = Inr ([], points', ns')"
  shows "point_fine protocol p \<and> (\<exists>pid. jget ''pointId'' p = Inr pid \<and> pid \<notin> set points \<and> points' = pid # points)
    \<and> (if protocol = JStr ''opcua'' then \<exists>node. node_of p = Inr node \<and> node \<notin> set ns \<and> ns' = node # ns else ns' = ns)"
proof -
  from assms obtain pid stale poll where g: "jget ''pointId'' p = Inr pid" "jget_num ''staleAfterMs'' p = Inr stale" "jget_num ''pollIntervalMs'' p = Inr poll"
    unfolding point_rules_def by (auto simp: rbind_Inr_iff)
  consider (mb) "protocol = JStr ''modbus_tcp''" | (ua) "protocol = JStr ''opcua''" | (no) "protocol \<noteq> JStr ''modbus_tcp''" "protocol \<noteq> JStr ''opcua''" by blast
  then show ?thesis
  proof cases
    case mb
    with assms obtain dt m a where "jget ''dataType'' p = Inr dt" "jget ''modbus'' p = Inr m" "jget_num ''address'' m = Inr a"
      by (auto simp: point_rules_def g rbind_Inr_iff Let_def)
    with mb g assms show ?thesis
      by (auto simp: point_rules_def point_fine_def Let_def split: if_split_asm)
  next
    case ua
    with assms obtain u node where "jget ''opcua'' p = Inr u" "jget ''nodeId'' u = Inr node"
      by (auto simp: point_rules_def g rbind_Inr_iff Let_def)
    with ua g assms show ?thesis
      by (auto simp: point_rules_def point_fine_def node_of_def Let_def split: if_split_asm)
  next
    case no
    with g assms show ?thesis by (auto simp: point_rules_def point_fine_def Let_def split: if_split_asm)
  qed
qed

lemma point_issues_none:
  assumes "point_issues dp protocol pix ps points ns = Inr []"
  shows "list_all (point_fine protocol) ps
    \<and> (\<exists>pids. list_all2 (\<lambda>p y. jget ''pointId'' p = Inr y) ps pids \<and> distinct pids \<and> set pids \<inter> set points = {})
    \<and> (protocol = JStr ''opcua'' \<longrightarrow> (\<exists>nodes. list_all2 (\<lambda>p y. node_of p = Inr y) ps nodes \<and> distinct nodes \<and> set nodes \<inter> set ns = {}))"
  using assms
proof (induction ps arbitrary: pix points ns)
  case (Cons p ps)
  from Cons.prems obtain points' ns' where r: "point_rules (dp @ ''/points/'' @ digits pix) protocol p points ns = Inr ([], points', ns')"
      and rest: "point_issues dp protocol (pix + 1) ps points' ns' = Inr []"
    by (auto simp: rbind_Inr_iff)
  from Cons.IH [OF rest] obtain pids where ih: "list_all (point_fine protocol) ps" "list_all2 (\<lambda>p y. jget ''pointId'' p = Inr y) ps pids"
      "distinct pids" "set pids \<inter> set points' = {}"
    and nodes: "protocol = JStr ''opcua'' \<longrightarrow> (\<exists>nodes. list_all2 (\<lambda>p y. node_of p = Inr y) ps nodes \<and> distinct nodes \<and> set nodes \<inter> set ns' = {})"
    by blast
  from point_rules_fine [OF r] obtain pid where pid: "point_fine protocol p" "jget ''pointId'' p = Inr pid" "pid \<notin> set points" "points' = pid # points"
    and node: "if protocol = JStr ''opcua'' then \<exists>node. node_of p = Inr node \<and> node \<notin> set ns \<and> ns' = node # ns else ns' = ns"
    by blast
  have "\<exists>pids. list_all2 (\<lambda>p y. jget ''pointId'' p = Inr y) (p # ps) pids \<and> distinct pids \<and> set pids \<inter> set points = {}"
    by (rule exI [of _ "pid # pids"]) (use ih pid in auto)
  moreover have "\<exists>nodes. list_all2 (\<lambda>p y. node_of p = Inr y) (p # ps) nodes \<and> distinct nodes \<and> set nodes \<inter> set ns = {}" if "protocol = JStr ''opcua''"
  proof -
    from that node nodes obtain n nds where "node_of p = Inr n" "n \<notin> set ns" "ns' = n # ns"
      "list_all2 (\<lambda>p y. node_of p = Inr y) ps nds" "distinct nds" "set nds \<inter> set ns' = {}" by auto
    then show ?thesis by (intro exI [of _ "n # nds"]) auto
  qed
  ultimately show ?case using ih(1) pid(1) by simp
qed auto

definition device_fine :: "json \<Rightarrow> bool" where
  "device_fine d \<longleftrightarrow> (\<forall>ps. jget_list ''points'' d = Inr ps \<and> ps \<noteq> [] \<longrightarrow>
     (\<exists>protocol dp. jget ''protocol'' d = Inr protocol \<and> point_issues dp protocol 0 ps [] [] = Inr []))"

lemma device_issues_none:
  assumes "device_issues di ds devices tot = Inr ([], tot')"
  shows "\<exists>dids pss. list_all2 (\<lambda>d y. jget ''deviceId'' d = Inr y) ds dids \<and> distinct dids \<and> set dids \<inter> set devices = {}
    \<and> list_all2 (\<lambda>d y. jget_list ''points'' d = Inr y) ds pss \<and> tot' = tot + sum_list (map length pss) \<and> list_all device_fine ds"
  using assms
proof (induction ds arbitrary: di devices tot)
  case (Cons d ds)
  from Cons.prems obtain did points protocol where d: "jget ''deviceId'' d = Inr did" "jget_list ''points'' d = Inr points" "did \<notin> set devices"
      "(if points = [] then Inr JNull else jget ''protocol'' d) = Inr protocol"
      "point_issues (''/config/devices/'' @ digits di) protocol 0 points [] [] = Inr []"
    and rest: "device_issues (di + 1) ds (did # devices) (tot + length points) = Inr ([], tot')"
    by (auto simp: Let_def rbind_Inr_iff split: if_split_asm)
  from Cons.IH [OF rest] obtain dids pss where ih: "list_all2 (\<lambda>d y. jget ''deviceId'' d = Inr y) ds dids" "distinct dids"
    "set dids \<inter> set (did # devices) = {}" "list_all2 (\<lambda>d y. jget_list ''points'' d = Inr y) ds pss"
    "tot' = tot + length points + sum_list (map length pss)" "list_all device_fine ds" by blast
  have "device_fine d" using d by (auto simp: device_fine_def)
  with d ih show ?case by (intro exI [of _ "did # dids"] exI [of _ "points # pss"]) auto
qed auto

section \<open>Sorting\<close>

lemma sort_by_result:
  assumes "sort_by k xs = Inr ys"
  shows "mset ys = mset xs \<and> (\<exists>ks. list_all2 (\<lambda>y s. get_str k y = Inr s) ys ks \<and> sorted ks)"
proof -
  from assms obtain ps where ps: "list_all2 (\<lambda>x p. rbind (get_str k x) (\<lambda>s. Inr (s, x)) = Inr p) xs ps" and ys: "ys = map snd (sort_key fst ps)"
    by (auto simp: sort_by_def rbind_Inr_iff rmap_iff)
  have "map snd ps = xs" using list_all2_map_eq [OF ps, of snd "\<lambda>x. x"] by (auto simp: rbind_Inr_iff)
  moreover have each: "get_str k (snd p) = Inr (fst p)" if "p \<in> set ps" for p
    using ps that by (induction rule: list_all2_induct) (auto simp: rbind_Inr_iff)
  ultimately have "mset ys = mset xs" unfolding ys by (metis mset_map mset_sort)
  moreover have "list_all2 (\<lambda>y s. get_str k y = Inr s) ys (map fst (sort_key fst ps))"
    unfolding ys by (simp add: list_all2_map1 list_all2_map2 list_all2_same each)
  ultimately show ?thesis using sorted_sort_key [of fst ps] by blast
qed

lemma mset_map_split: "mset ys = mset (map f xs) \<Longrightarrow> \<exists>xs'. mset xs' = mset xs \<and> ys = map f xs'"
proof (induction ys arbitrary: xs)
  case (Cons y ys)
  then have "y \<in> set (map f xs)" by (metis list.set_intros(1) set_mset_mset)
  then obtain x where "x \<in> set xs" "y = f x" by auto
  then obtain a b where ab: "xs = a @ x # b" by (meson split_list)
  with Cons.prems \<open>y = f x\<close> have "mset ys = mset (map f (a @ b))" by simp
  from Cons.IH [OF this] obtain xs' where "mset xs' = mset (a @ b)" "ys = map f xs'" by blast
  with ab \<open>y = f x\<close> show ?case by (intro exI [of _ "x # xs'"]) simp
qed simp

lemma jget_jset: "jget_list k' m = Inr ys \<Longrightarrow> jget k (jset k' v m) = (if k = k' then Inr v else jget k m)"
  by (cases m) (auto simp: jget_list_def dindex_def)

section \<open>Parsed points and devices\<close>

definition point_wf :: "string \<Rightarrow> PointConfig \<Rightarrow> bool" where
  "point_wf protocol p \<longleftrightarrow> pc_poll_interval_ms p \<le> pc_stale_after_ms p
     \<and> (protocol = ''modbus_tcp'' \<longrightarrow> (\<exists>a. pc_modbus p = Some a \<and> mb_address a + width p - 1 \<le> 65535))"

definition device_wf :: "DeviceConfig \<Rightarrow> bool" where
  "device_wf d \<longleftrightarrow> sorted_wrt (<) (map pc_point_id (dc_points d)) \<and> (\<forall>p \<in> set (dc_points d). point_wf (dc_protocol d) p)
     \<and> (dc_protocol d = ''opcua'' \<longrightarrow> (\<forall>p \<in> set (dc_points d). pc_opcua p \<noteq> None)
          \<and> distinct (map (\<lambda>p. ua_node_id (the (pc_opcua p))) (dc_points d)))"

definition snapshot_wf :: "ConfigSnapshot \<Rightarrow> bool" where
  "snapshot_wf s \<longleftrightarrow> sorted_wrt (<) (map dc_device_id (cs_devices s)) \<and> (\<forall>d \<in> set (cs_devices s). device_wf d)
     \<and> sum_list (map (length \<circ> dc_points) (cs_devices s)) \<le> 2000"

lemma parse_point_fields:
  assumes "parse_point protocol (normalize p) = Inr pc"
  shows "jget ''pointId'' p = Inr (JStr (pc_point_id pc)) \<and> jget ''dataType'' p = Inr (JStr (pc_data_type pc))
    \<and> jget_num ''staleAfterMs'' p = Inr (of_int (pc_stale_after_ms pc)) \<and> jget_num ''pollIntervalMs'' p = Inr (of_int (pc_poll_interval_ms pc))
    \<and> (if protocol = ''opcua'' then \<exists>u. pc_opcua pc = Some u \<and> node_of p = Inr (JStr (ua_node_id u))
       else \<exists>mb a. pc_modbus pc = Some a \<and> jget ''modbus'' p = Inr mb \<and> jget_num ''address'' mb = Inr (of_int (mb_address a)))"
proof -
  from assms obtain mb ua where adr: "parse_address (normalize p) protocol = Inr (mb, ua)" "pc_modbus pc = mb" "pc_opcua pc = ua"
    and f: "get_str ''pointId'' (normalize p) = Inr (pc_point_id pc)" "get_str ''dataType'' (normalize p) = Inr (pc_data_type pc)"
      "get_int ''staleAfterMs'' (normalize p) = Inr (pc_stale_after_ms pc)" "get_int ''pollIntervalMs'' (normalize p) = Inr (pc_poll_interval_ms pc)"
    unfolding parse_point_def by (auto simp: rbind_Inr_iff)
  have "if protocol = ''opcua'' then \<exists>u. pc_opcua pc = Some u \<and> node_of p = Inr (JStr (ua_node_id u))
       else \<exists>mb a. pc_modbus pc = Some a \<and> jget ''modbus'' p = Inr mb \<and> jget_num ''address'' mb = Inr (of_int (mb_address a))"
  proof (cases "protocol = ''opcua''")
    case True
    with adr obtain u n where "jget ''opcua'' p = Inr u" "get_str ''nodeId'' (normalize u) = Inr n" "pc_opcua pc = Some \<lparr>ua_node_id = n\<rparr>"
      by (auto simp: parse_address_def rbind_Inr_iff jget_normalize)
    with True show ?thesis by (simp add: get_str_normalize get_str_iff node_of_def)
  next
    case False
    with adr(1) obtain m n x y where "jget ''modbus'' p = Inr m" "get_int ''address'' (normalize m) = Inr n"
        "mb = Some \<lparr>mb_area = x, mb_address = n, mb_byte_order = y\<rparr>"
      by (auto simp: parse_address_def rbind_Inr_iff jget_normalize)
    with False adr(2) show ?thesis by (simp add: get_int_normalize)
  qed
  with f show ?thesis by (simp add: get_str_normalize get_str_iff get_int_normalize)
qed

lemma parse_point_wf:
  assumes p: "parse_point protocol (normalize p) = Inr pc" and fine: "point_fine (JStr protocol) p"
  shows "point_wf protocol pc"
proof -
  note f = parse_point_fields [OF p]
  have "of_int (pc_poll_interval_ms pc) \<le> (of_int (pc_stale_after_ms pc) :: rat)"
    using f fine by (simp add: point_fine_def)
  moreover have "\<exists>a. pc_modbus pc = Some a \<and> mb_address a + width pc - 1 \<le> 65535" if mb: "protocol = ''modbus_tcp''"
  proof -
    from f mb obtain m a where a: "pc_modbus pc = Some a" "jget ''modbus'' p = Inr m" "jget_num ''address'' m = Inr (of_int (mb_address a))" by auto
    with fine f mb have "of_int (mb_address a) + (of_int (width pc) :: rat) - 1 \<le> 65535"
      by (auto simp: point_fine_def width_def split: if_split_asm)
    then have "of_int (mb_address a + width pc - 1) \<le> (of_int 65535 :: rat)" by simp
    with a show ?thesis by (simp only: of_int_le_iff) simp
  qed
  ultimately show ?thesis by (simp add: point_wf_def)
qed

lemma distinct_wire: "list_all2 (\<lambda>p y. K p = Inr y) ps ys \<Longrightarrow> distinct ys \<Longrightarrow> distinct (map K ps)"
proof -
  assume l: "list_all2 (\<lambda>p y. K p = Inr y) ps ys" and d: "distinct ys"
  have "map K ps = map Inr ys" using list_all2_map_eq [OF l, of Inr K] by simp
  with d show ?thesis by (simp add: distinct_map)
qed

lemma distinct_parsed:
  fixes K :: "json \<Rightarrow> json res"
  assumes "mset rs = mset ps" "distinct (map K ps)" "list_all2 (\<lambda>r pc. f r = Inr pc) rs pcs" "\<And>r pc. f r = Inr pc \<Longrightarrow> K r = Inr (JStr (g pc))"
  shows "distinct (map g pcs)"
proof -
  have "distinct (map K rs)" using assms(1,2) by (metis mset_eq_imp_distinct_iff mset_map)
  moreover have "map (\<lambda>pc. Inr (JStr (g pc))) pcs = map K rs" by (rule list_all2_map_eq [OF assms(3)]) (simp add: assms(4))
  then have "map (\<lambda>s. Inr (JStr s)) (map g pcs) = map K rs" by (simp add: comp_def)
  ultimately show ?thesis using distinct_map [of "\<lambda>s. Inr (JStr s) :: json res" "map g pcs"] by simp
qed

lemma parsed_keys:
  assumes "list_all2 (\<lambda>y s. get_str k y = Inr s) (map normalize rs) ks" "list_all2 (\<lambda>r pc. f r = Inr pc) rs pcs"
    "\<And>r pc. f r = Inr pc \<Longrightarrow> jget k r = Inr (JStr (g pc))"
  shows "map g pcs = ks"
proof -
  from assms(1) have "list_all2 (\<lambda>r s. get_str k (normalize r) = Inr s) rs ks" by (simp add: list_all2_map1)
  from list_all2_map_eq [OF this, of Inr "get_str k"] have "map Inr ks = map (get_str k) rs" by (simp add: get_str_normalize)
  moreover have "map (\<lambda>pc. Inr (g pc)) pcs = map (get_str k) rs"
    by (rule list_all2_map_eq [OF assms(2)]) (metis assms(3) get_str_iff)
  ultimately have "map Inr (map g pcs) = map (Inr :: string \<Rightarrow> string res) ks" by (simp add: comp_def)
  then show ?thesis by (rule map_injective) simp
qed

lemma list_all2_right: "list_all2 R xs ys \<Longrightarrow> y \<in> set ys \<Longrightarrow> \<exists>x \<in> set xs. R x y"
  by (induction rule: list_all2_induct) auto

text \<open>The points of a device: those of the wire message, in the order of their identifiers.\<close>

lemma parse_points_wf:
  assumes sorted: "sort_by ''pointId'' (map normalize ps) = Inr qs" and parsed: "rmap (parse_point protocol) qs = Inr pcs"
    and none: "ps \<noteq> [] \<Longrightarrow> point_issues dp (JStr protocol) 0 ps [] [] = Inr []"
  shows "length pcs = length ps \<and> sorted_wrt (<) (map pc_point_id pcs) \<and> (\<forall>p \<in> set pcs. point_wf protocol p)
    \<and> (protocol = ''opcua'' \<longrightarrow> (\<forall>p \<in> set pcs. pc_opcua p \<noteq> None) \<and> distinct (map (\<lambda>p. ua_node_id (the (pc_opcua p))) pcs))"
proof -
  from sort_by_result [OF sorted] obtain ks where "mset qs = mset (map normalize ps)" and ks: "list_all2 (\<lambda>y s. get_str ''pointId'' y = Inr s) qs ks" "sorted ks"
    by blast
  from mset_map_split [OF this(1)] obtain rs where rs: "mset rs = mset ps" "qs = map normalize rs" by blast
  from parsed have pr: "list_all2 (\<lambda>r pc. parse_point protocol (normalize r) = Inr pc) rs pcs" by (simp add: rmap_iff rs(2) list_all2_map1)
  have len: "length pcs = length ps" using list_all2_lengthD [OF pr] rs(1) by (metis size_mset)
  show ?thesis
  proof (cases "ps = []")
    case False
    from point_issues_none [OF none [OF False]] obtain pids where fine: "list_all (point_fine (JStr protocol)) ps"
      and pids: "list_all2 (\<lambda>p y. jget ''pointId'' p = Inr y) ps pids" "distinct pids"
      and nodes: "protocol = ''opcua'' \<longrightarrow> (\<exists>nodes. list_all2 (\<lambda>p y. node_of p = Inr y) ps nodes \<and> distinct nodes)" by auto
    have "set rs = set ps" using rs(1) by (metis set_mset_mset)
    have "point_wf protocol pc" if "pc \<in> set pcs" for pc
    proof -
      from list_all2_right [OF pr that] obtain r where "r \<in> set rs" "parse_point protocol (normalize r) = Inr pc" by blast
      with \<open>set rs = set ps\<close> fine show ?thesis by (auto simp: list_all_iff intro: parse_point_wf)
    qed
    moreover have "map pc_point_id pcs = ks"
      by (rule parsed_keys [OF ks(1) [unfolded rs(2)] pr]) (simp add: parse_point_fields)
    moreover have "distinct (map pc_point_id pcs)"
      by (rule distinct_parsed [OF rs(1) distinct_wire [OF pids] pr]) (simp add: parse_point_fields)
    moreover have "(\<forall>p \<in> set pcs. pc_opcua p \<noteq> None) \<and> distinct (map (\<lambda>p. ua_node_id (the (pc_opcua p))) pcs)" if ua: "protocol = ''opcua''"
    proof -
      from nodes ua obtain nds where nds: "list_all2 (\<lambda>p y. node_of p = Inr y) ps nds" "distinct nds" by blast
      have node: "\<exists>u. pc_opcua pc = Some u \<and> node_of r = Inr (JStr (ua_node_id u))" if "parse_point protocol (normalize r) = Inr pc" for r pc
        using parse_point_fields [OF that] ua by simp
      have "distinct (map (\<lambda>p. ua_node_id (the (pc_opcua p))) pcs)"
        by (rule distinct_parsed [OF rs(1) distinct_wire [OF nds] pr]) (use node in fastforce)
      moreover have "\<forall>p \<in> set pcs. pc_opcua p \<noteq> None"
        by (metis list_all2_right [OF pr] node option.distinct(1))
      ultimately show ?thesis by blast
    qed
    ultimately show ?thesis using len ks(2) by (simp add: strict_sorted_iff)
  qed (use pr rs(1) in auto)
qed

lemma parse_device_wf:
  assumes sp: "sort_points (normalize d) = Inr sd" and pd: "parse_device sd = Inr dev" and fine: "device_fine d"
  shows "device_wf dev \<and> jget ''deviceId'' d = Inr (JStr (dc_device_id dev))
    \<and> (\<exists>ps. jget_list ''points'' d = Inr ps \<and> length (dc_points dev) = length ps)"
proof -
  from sp obtain nps qs where nps: "jget_list ''points'' (normalize d) = Inr nps" and qs: "sort_by ''pointId'' nps = Inr qs"
    and sd: "sd = jset ''points'' (JArr qs) (normalize d)" by (auto simp: sort_points_def rbind_Inr_iff)
  from jget_list_normalize [OF nps] obtain ps where ps: "jget_list ''points'' d = Inr ps" "nps = map normalize ps" by blast
  have other: "get_str k sd = get_str k d" if "k \<noteq> ''points''" for k
    using that by (simp add: get_str_def sd jget_jset [OF nps]) (simp add: get_str_def [symmetric] get_str_normalize)
  from pd obtain pts where "get_str ''deviceId'' sd = Inr (dc_device_id dev)" "get_str ''protocol'' sd = Inr (dc_protocol dev)"
      and pts: "jget_list ''points'' sd = Inr pts" "rmap (parse_point (dc_protocol dev)) pts = Inr (dc_points dev)"
    by (auto simp: parse_device_def rbind_Inr_iff)
  then have ids: "jget ''deviceId'' d = Inr (JStr (dc_device_id dev))" "jget ''protocol'' d = Inr (JStr (dc_protocol dev))"
    by (simp_all add: other get_str_iff)
  have "pts = qs" using pts(1) by (simp add: jget_list_def sd jget_jset [OF nps])
  obtain dp where none: "ps \<noteq> [] \<Longrightarrow> point_issues dp (JStr (dc_protocol dev)) 0 ps [] [] = Inr []"
    using fine ps(1) ids(2) by (cases "ps = []") (auto simp: device_fine_def)
  from parse_points_wf [OF qs [unfolded ps(2)] pts(2) [unfolded \<open>pts = qs\<close>] none] ids ps(1) show ?thesis
    by (simp add: device_wf_def)
qed

lemma sort_config_devices:
  assumes "sort_config (normalize c) = Inr config"
  shows "\<exists>ds sds. jget_list ''devices'' c = Inr ds \<and> jget_list ''devices'' config = Inr sds
    \<and> rbind (sort_by ''deviceId'' (map normalize ds)) (rmap sort_points) = Inr sds"
proof -
  from assms obtain nds qs sds where nds: "jget_list ''devices'' (normalize c) = Inr nds" "sort_by ''deviceId'' nds = Inr qs" "rmap sort_points qs = Inr sds"
    and config: "config = jset ''devices'' (JArr sds) (normalize c)" by (auto simp: sort_config_def rbind_Inr_iff)
  from jget_list_normalize [OF nds(1)] nds config show ?thesis
    by (auto simp: jget_list_def jget_jset [OF nds(1)])
qed

text \<open>All devices of a message without issues.\<close>

lemma parse_devices_wf:
  assumes none: "config_issues ds = Inr []" and sorted: "rbind (sort_by ''deviceId'' (map normalize ds)) (rmap sort_points) = Inr sds"
    and parsed: "rmap parse_device sds = Inr devs"
  shows "sorted_wrt (<) (map dc_device_id devs) \<and> (\<forall>d \<in> set devs. device_wf d) \<and> sum_list (map (length \<circ> dc_points) devs) \<le> 2000"
proof -
  from none obtain n where "device_issues 0 ds [] 0 = Inr ([], n)" and n: "n \<le> 2000"
    by (auto simp: config_issues_def rbind_Inr_iff split: if_split_asm)
  from device_issues_none [OF this(1)] obtain dids pss where dids: "list_all2 (\<lambda>d y. jget ''deviceId'' d = Inr y) ds dids" "distinct dids"
    and pss: "list_all2 (\<lambda>d y. jget_list ''points'' d = Inr y) ds pss" "n = sum_list (map length pss)" and fine: "list_all device_fine ds" by auto
  from sorted obtain qs where "sort_by ''deviceId'' (map normalize ds) = Inr qs" and sds: "rmap sort_points qs = Inr sds" by (auto simp: rbind_Inr_iff)
  from sort_by_result [OF this(1)] obtain ks where "mset qs = mset (map normalize ds)" and ks: "list_all2 (\<lambda>y s. get_str ''deviceId'' y = Inr s) qs ks" "sorted ks"
    by blast
  from mset_map_split [OF this(1)] obtain rs where rs: "mset rs = mset ds" "qs = map normalize rs" by blast
  define f where "f r = rbind (if device_fine r then sort_points (normalize r) else Inl TypeError) parse_device" for r
  have "set rs = set ds" using rs(1) by (metis set_mset_mset)
  then have fr: "device_fine r" if "r \<in> set rs" for r using fine that by (simp add: list_all_iff)
  from sds have "list_all2 (\<lambda>r y. sort_points (normalize r) = Inr y) rs sds" by (simp add: rmap_iff rs(2) list_all2_map1)
  moreover from parsed have "list_all2 (\<lambda>x y. parse_device x = Inr y) sds devs" by (simp add: rmap_iff)
  ultimately have pr: "list_all2 (\<lambda>r dev. f r = Inr dev) rs devs"
    using fr by (fastforce simp: list_all2_conv_all_nth f_def)
  have each: "device_wf dev \<and> jget ''deviceId'' r = Inr (JStr (dc_device_id dev)) \<and> (\<exists>ps. jget_list ''points'' r = Inr ps \<and> length (dc_points dev) = length ps)"
    if "f r = Inr dev" for r dev
    using that parse_device_wf by (auto simp: f_def rbind_Inr_iff split: if_split_asm)
  have "map dc_device_id devs = ks" by (rule parsed_keys [OF ks(1) [unfolded rs(2)] pr]) (simp add: each)
  moreover have "distinct (map dc_device_id devs)" by (rule distinct_parsed [OF rs(1) distinct_wire [OF dids] pr]) (simp add: each)
  moreover have "device_wf dev" if "dev \<in> set devs" for dev using list_all2_right [OF pr that] each by blast
  moreover have "sum_list (map (length \<circ> dc_points) devs) = n"
  proof -
    let ?len = "\<lambda>d. length (projr (jget_list ''points'' d))"
    have "map (length \<circ> dc_points) devs = map ?len rs" by (rule list_all2_map_eq [OF pr]) (drule each, auto)
    moreover have "map length pss = map ?len ds" by (rule list_all2_map_eq [OF pss(1)]) simp
    moreover have "mset (map ?len rs) = mset (map ?len ds)" using rs(1) by simp
    then have "sum_list (map ?len rs) = sum_list (map ?len ds)" unfolding sum_mset_sum_list [symmetric] by (rule arg_cong)
    ultimately show ?thesis using pss(2) by simp
  qed
  ultimately show ?thesis using ks(2) n by (simp add: strict_sorted_iff)
qed

section \<open>A concrete message\<close>

definition demo_point_json :: json where
  "demo_point_json = JObj [(''pointId'', JStr ''p''), (''name'', JStr ''n''), (''enabled'', JBool True), (''dataType'', JStr ''int32''),
     (''pollIntervalMs'', JNum (PyInt 1000)), (''scale'', JNum (PyInt 1)), (''offset'', JNum (PyInt 0)), (''reportMode'', JStr ''onChange''),
     (''reportIntervalMs'', JNum (PyInt 1000)), (''deadband'', JNum (PyInt 0)), (''staleAfterMs'', JNum (PyInt 3000)),
     (''modbus'', JObj [(''area'', JStr ''holding''), (''address'', JNum (PyInt 65534))])]"

definition demo_device_json :: json where
  "demo_device_json = JObj [(''deviceId'', JStr ''d''), (''name'', JStr ''n''), (''enabled'', JBool True), (''protocol'', JStr ''modbus_tcp''),
     (''connection'', JObj [(''host'', JStr ''h''), (''port'', JNum (PyInt 502)), (''unitId'', JNum (PyInt 1)),
        (''connectTimeoutMs'', JNum (PyInt 1000)), (''requestTimeoutMs'', JNum (PyInt 1000)), (''retryCount'', JNum (PyInt 0))]),
     (''points'', JArr [demo_point_json])]"

definition demo_command :: json where
  "demo_command = JObj [(''schemaVersion'', JNum (PyInt 1)), (''gatewayId'', JStr ''g''), (''messageId'', JStr ''m''), (''configVersion'', JNum (PyInt 1)),
     (''timestamp'', JNum (PyInt 5)), (''baseConfigVersion'', JNum (PyInt 0)), (''baseMessageId'', JNull),
     (''gateway'', JObj [(''enabled'', JBool True), (''report'', JObj [(''batchIntervalMs'', JNum (PyInt 1000)), (''maxBatchPoints'', JNum (PyInt 10))])]),
     (''operations'', JArr [JObj [(''op'', JStr ''add''), (''deviceId'', JStr ''d''), (''device'', demo_device_json)]])]"

definition demo_message :: json where
  "demo_message = JObj [(''schemaVersion'', JNum (PyInt 1)), (''gatewayId'', JStr ''g''), (''timestamp'', JNum (PyInt 5)), (''messageId'', JStr ''m''),
     (''configVersion'', JNum (PyInt 1)),
     (''config'', JObj [(''devices'', JArr [demo_device_json]), (''enabled'', JBool True),
        (''report'', JObj [(''batchIntervalMs'', JNum (PyInt 1000)), (''maxBatchPoints'', JNum (PyInt 10))])])]"

definition demo_contract :: contract_env where
  "demo_contract = \<lparr>cv_loads = (\<lambda>p. if p = ''set'' then Some demo_message else if p = ''patch'' then Some demo_command else None),
     cv_dumps = (\<lambda>m. if m = demo_message then ''set'' else ''other''), cv_canonical = (\<lambda>_. ''c''),
     cv_schema = (\<lambda>_ _. []), cv_limit = (\<lambda>_. Some 1000), cv_sha256 = (\<lambda>s. s)\<rparr>"

lemmas demo_messages = demo_message_def demo_command_def demo_device_json_def demo_point_json_def

lemmas parse_defs = parse_config_def parse_command_def validate_message_def decode_message_def semantic_issues_def config_issues_def
  point_rules_def patch_issues_def patch_device_issues_def build_snapshot_def sort_config_def sort_points_def sort_by_def
  parse_device_def parse_point_def parse_connection_def parse_address_def get_str_def get_int_def get_num_def get_bool_def get_opt_str_def
  jget_num_def jget_list_def dindex_def dget_or_def normalize_num_def jeq_def MAX_ISSUES_def

definition demo_snapshot :: ConfigSnapshot where
  "demo_snapshot = \<lparr>cs_gateway_id = ''g'', cs_message_id = ''m'', cs_config_version = 1, cs_timestamp = 5, cs_enabled = True,
     cs_report = \<lparr>rc_batch_interval_ms = 1000, rc_max_batch_points = 10\<rparr>,
     cs_devices = [\<lparr>dc_device_id = ''d'', dc_name = ''n'', dc_enabled = True, dc_protocol = ''modbus_tcp'',
       dc_connection = \<lparr>cc_host = ''h'', cc_port = 502, cc_unit_id = Some 1, cc_connect_timeout_ms = 1000, cc_request_timeout_ms = 1000,
         cc_retry_count = 0, cc_path = None, cc_security_policy = None, cc_security_mode = None, cc_username = None, cc_password_env = None\<rparr>,
       dc_points = [\<lparr>pc_point_id = ''p'', pc_name = ''n'', pc_enabled = True, pc_data_type = ''int32'', pc_poll_interval_ms = 1000,
         pc_scale = PyInt 1, pc_offset = PyInt 0, pc_unit = None, pc_report_mode = ''onChange'', pc_report_interval_ms = 1000, pc_deadband = PyInt 0,
         pc_stale_after_ms = 3000, pc_modbus = Some \<lparr>mb_area = ''holding'', mb_address = 65534, mb_byte_order = None\<rparr>, pc_opcua = None\<rparr>]\<rparr>],
     cs_content_json = ''c'', cs_wire_json = ''set''\<rparr>"

lemma demo_parse: "parse_config demo_contract ''set'' ''g'' = Inr (Inr demo_snapshot)"
  by (simp add: demo_contract_def demo_messages parse_defs demo_snapshot_def Let_def)

lemma demo_parse_command: "parse_command demo_contract ''patch'' ''g'' = Inr (Inr demo_command)"
  by (simp add: demo_contract_def demo_messages parse_defs Let_def)

lemma demo_materialize: "materialize demo_contract demo_command None ''g'' = Inr (Inr demo_snapshot)"
proof -
  have "full_message demo_command (JObj [(''devices'', JArr [demo_device_json]), (''enabled'', JBool True),
        (''report'', JObj [(''batchIntervalMs'', JNum (PyInt 1000)), (''maxBatchPoints'', JNum (PyInt 10))])]) = Inr demo_message"
    by (simp add: full_message_def demo_command_def demo_message_def dindex_def)
  then show ?thesis
    using demo_parse
    by (simp add: materialize_def base_matches_def base_config_def index_devices_def demo_command_def jget_list_def jeq_def dindex_def get_str_def)
       (simp add: demo_device_json_def dindex_def demo_contract_def)
qed

text \<open>What parses is well formed.\<close>

lemma parsed_wf:
  assumes "parse_config env payload gateway = Inr (Inr s)"
  shows "snapshot_wf s \<and> cs_gateway_id s = gateway \<and> cs_wire_json s = payload"
proof -
  from assms obtain m where v: "validate_message env ''configSet'' payload (Some gateway) = Inr []" and m: "cv_loads env payload = Some m"
    and b: "build_snapshot env payload (normalize m) = Inr s"
    by (auto simp: parse_config_def rbind_Inr_iff split: if_split_asm option.split_asm)
  from v m obtain g iss where g: "jget ''gatewayId'' m = Inr g" "jeq g (JStr gateway)" and iss: "semantic_issues ''configSet'' m = Inr iss" "take MAX_ISSUES iss = []"
    by (auto simp: validate_message_def decode_message_def rbind_Inr_iff Let_def split: if_split_asm option.split_asm)
  from iss(2) have "iss = []" by (simp add: MAX_ISSUES_def)
  with iss(1) obtain c ds where c: "jget ''config'' m = Inr c" "jget_list ''devices'' c = Inr ds" "config_issues ds = Inr []"
    by (auto simp: semantic_issues_def rbind_Inr_iff)
  from b obtain nc config dl where n: "jget ''config'' (normalize m) = Inr nc" "sort_config nc = Inr config" "jget_list ''devices'' config = Inr dl"
      "rmap parse_device dl = Inr (cs_devices s)" and gw: "get_str ''gatewayId'' (normalize m) = Inr (cs_gateway_id s)" and w: "cs_wire_json s = payload"
    by (auto simp: build_snapshot_def rbind_Inr_iff)
  from n(1) c(1) have "nc = normalize c" by (simp add: jget_normalize)
  from sort_config_devices [OF n(2) [unfolded this]] c(2) n(3)
  have sorted: "rbind (sort_by ''deviceId'' (map normalize ds)) (rmap sort_points) = Inr dl" by auto
  from gw g have "cs_gateway_id s = gateway" by (auto simp: get_str_normalize get_str_iff jeq_def)
  with parse_devices_wf [OF c(3) sorted n(4)] w show ?thesis by (simp add: snapshot_wf_def)
qed

section \<open>Properties\<close>

text \<open>C33. The loop of the depth check accepts a message exactly when its nesting is at most 64, and it ends on
  every message.\<close>

theorem check_depth_exact: "check_depth [(m, 0)] \<longleftrightarrow> jdepth m \<le> 64"
  by (simp add: check_depth_iff)

text \<open>C16. A configuration that parses is well formed whatever the JSON Schema let through: it names the local gateway,
  its devices are in strictly increasing order of their identifiers and the points of a device too (so both are
  unique), no point goes stale before its next poll, every Modbus value lies wholly below register 65536, the node
  identifiers of an OPC UA device differ, and there are at most 2000 points.\<close>

theorem parsed_config_well_formed:
  assumes "parse_config env payload gateway = Inr (Inr s)"
  shows "snapshot_wf s \<and> cs_gateway_id s = gateway \<and> cs_wire_json s = payload"
  by (rule parsed_wf [OF assms])

theorem parsed_config_well_formed_witness: "snapshot_wf demo_snapshot \<and> cs_gateway_id demo_snapshot = ''g'' \<and> cs_wire_json demo_snapshot = ''set''"
  by (rule parsed_config_well_formed [OF demo_parse])

end
