(* ===== verification/ConfigStoreInv.thy ===== *)
theory ConfigStoreInv
  imports ConfigStore ConfigModelInv
begin

text \<open>
  Correctness of the configuration store: the invariant of its tables, that the active version only
  grows, and that a committed configuration is what every later opening loads. Each step of
  \<open>config_step\<close> is one call with its own SQLite outcome and identifiers; a restart of the process is
  the step \<open>cs_reopen\<close>, which may come between any two calls.
\<close>

section \<open>What a stored row decodes to\<close>

definition decodes :: "contract_env \<Rightarrow> string \<Rightarrow> nat \<Rightarrow> stored_snapshot \<Rightarrow> ConfigSnapshot \<Rightarrow> bool" where
  "decodes C gw v row s \<longleftrightarrow>
     parse_config C (sv_payload row) gw = Inr (Inr s) \<and> cs_config_version s = v \<and> content_hash C s = sv_hash row"

lemma decode_row_iff [res_simps]: "decode_row env gw v row = Inr s \<longleftrightarrow> decodes (xe_contract env) gw v row s"
proof (cases "parse_config (xe_contract env) (sv_payload row) gw")
  case (Inr r)
  then show ?thesis by (cases r) (auto simp: decode_row_def decodes_def)
qed (simp add: decode_row_def decodes_def)

lemma decodes_fun: "decodes C gw v row s \<Longrightarrow> decodes C gw v row s' \<Longrightarrow> s = s'"
  by (auto simp: decodes_def)

lemma decodes_cong: "sv_payload r = sv_payload q \<Longrightarrow> sv_hash r = sv_hash q \<Longrightarrow> decodes C gw v r = decodes C gw v q"
  by (auto simp: decodes_def fun_eq_iff)

lemma decodes_state [simp]: "decodes C gw v (row\<lparr>sv_state := st, sv_token := tok\<rparr>) = decodes C gw v row"
  "decodes C gw v (row\<lparr>sv_state := st\<rparr>) = decodes C gw v row"
  by (rule decodes_cong; simp)+

lemma parse_config_wire: "parse_config C p gw = Inr (Inr s) \<Longrightarrow> cs_wire_json s = p"
  by (auto simp: parse_config_def build_snapshot_def res_simps split: if_splits option.splits)

text \<open>A command that is materialised is a complete message, with the identity of the command.\<close>

definition codec_ok :: "contract_env \<Rightarrow> bool" where
  "codec_ok C \<longleftrightarrow> (\<forall>m m'. cv_loads C (cv_dumps C m) = Some m' \<longrightarrow> m' = m)"

definition from_command :: "contract_env \<Rightarrow> string \<Rightarrow> nat \<Rightarrow> ConfigSnapshot \<Rightarrow> bool" where
  "from_command C mid v s \<longleftrightarrow> (codec_ok C \<longrightarrow> cs_message_id s = mid \<and> cs_config_version s = v)"

lemma rmap_fields: "rmap (\<lambda>k. rbind (jget k m) (\<lambda>v. Inr (k, v))) ks = Inr ps \<Longrightarrow> k \<in> set ks \<Longrightarrow> Inr (the (dget ps k)) = jget k m \<and> dget ps k \<noteq> None"
  by (induction ks arbitrary: ps) (auto simp: res_simps)

lemma full_message_get:
  "full_message command config = Inr m \<Longrightarrow> k \<in> {''messageId'', ''configVersion''} \<Longrightarrow> jget k m = jget k command"
  unfolding full_message_def rbind_Inr_iff
  by (elim exE conjE, drule rmap_fields [where k = k]) (auto simp: dindex_def split: option.splits)

lemma build_snapshot_identity:
  "build_snapshot C p m = Inr s \<Longrightarrow> get_str ''messageId'' m = Inr (cs_message_id s)
     \<and> (\<exists>v. get_int ''configVersion'' m = Inr v \<and> cs_config_version s = nat v)"
  by (auto simp: build_snapshot_def res_simps)

lemma handled_iff: "(case r of Inl e \<Rightarrow> Inr (Inl e) | Inr x \<Rightarrow> f x) = Inr (Inr y) \<longleftrightarrow> (\<exists>x. r = Inr x \<and> f x = Inr (Inr y))"
  by (cases r) auto

lemma result_iff: "(case r of Inl e \<Rightarrow> Inr (h e) | Inr x \<Rightarrow> f x) = Inr y \<longleftrightarrow> (\<exists>e. r = Inl e \<and> y = h e) \<or> (\<exists>x. r = Inr x \<and> f x = Inr y)"
  by (cases r) auto

lemma materialize_message:
  assumes "materialize C command active gw = Inr (Inr s)"
  shows "\<exists>config m. full_message command config = Inr m \<and> parse_config C (cv_dumps C m) gw = Inr (Inr s)"
  using assms unfolding materialize_def patch_reject_def
  by (auto simp: rbind_Inr_iff handled_iff split: if_split_asm)

lemma materialize_parses: "materialize C command active gw = Inr (Inr s) \<Longrightarrow> parse_config C (cs_wire_json s) gw = Inr (Inr s)"
  using materialize_message parse_config_wire by metis

lemma materialize_identity:
  assumes m: "materialize C command active gw = Inr (Inr s)"
    and ids: "get_str ''messageId'' command = Inr mid" "get_int ''configVersion'' (normalize command) = Inr v"
  shows "from_command C mid (nat v) s"
  unfolding from_command_def
proof
  assume codec: "codec_ok C"
  from materialize_message [OF m] obtain config m
    where full: "full_message command config = Inr m" and "parse_config C (cv_dumps C m) gw = Inr (Inr s)"
    by blast
  then have b: "build_snapshot C (cv_dumps C m) (normalize m) = Inr s"
    using codec by (fastforce simp: parse_config_def codec_ok_def res_simps split: if_splits option.splits)
  have "get_str ''messageId'' m = get_str ''messageId'' command"
    "get_int ''configVersion'' (normalize m) = get_int ''configVersion'' (normalize command)"
    using full_message_get [OF full] by (simp_all add: get_str_def get_int_def jget_normalize)
  with build_snapshot_identity [OF b] ids show "cs_message_id s = mid \<and> cs_config_version s = nat v"
    by (simp add: get_str_normalize)
qed

section \<open>The invariant of the tables\<close>

definition row_ok :: "contract_env \<Rightarrow> string \<Rightarrow> nat \<Rightarrow> nat \<Rightarrow> stored_snapshot \<Rightarrow> bool" where
  "row_ok C gw active v row \<longleftrightarrow>
     0 < v \<and> (\<exists>s. decodes C gw v row s)
     \<and> (sv_state row = S_PREPARED \<longrightarrow> active < v \<and> sv_token row \<noteq> None)
     \<and> (sv_state row = S_COMMITTED \<longrightarrow> v \<le> active)"

definition receipt_ok :: "contract_env \<Rightarrow> string \<Rightarrow> (nat, stored_snapshot) dict \<Rightarrow> string \<Rightarrow> receipt \<Rightarrow> bool" where
  "receipt_ok C gw rows mid r \<longleftrightarrow>
     (\<exists>row. dget rows (rq_version r) = Some row
        \<and> (rq_status r = R_APPLIED \<longrightarrow> sv_state row = S_COMMITTED)
        \<and> (rq_status r = R_PREPARED \<longrightarrow> sv_state row = S_PREPARED)
        \<and> (rq_kind r = Some ''configPatch'' \<and> codec_ok C \<longrightarrow> (\<exists>s. decodes C gw (rq_version r) row s \<and> cs_message_id s = mid)))"

definition unique_rows :: "(nat, stored_snapshot) dict \<Rightarrow> bool" where
  "unique_rows rows \<longleftrightarrow> (\<forall>v w r q. dget rows v = Some r \<longrightarrow> dget rows w = Some q \<longrightarrow>
     sv_state r = S_PREPARED \<and> sv_state q = S_PREPARED \<or> sv_token r \<noteq> None \<and> sv_token r = sv_token q \<longrightarrow> v = w)"

definition db_ok :: "contract_env \<Rightarrow> string \<Rightarrow> config_db \<Rightarrow> bool" where
  "db_ok C gw d \<longleftrightarrow>
     dwf (cd_snapshots d) \<and> dwf (cd_requests d) \<and> unique_rows (cd_snapshots d)
     \<and> (\<forall>v row. dget (cd_snapshots d) v = Some row \<longrightarrow> row_ok C gw (active_version d) v row)
     \<and> (\<forall>v. cd_active d = Some v \<longrightarrow> (\<exists>row. dget (cd_snapshots d) v = Some row \<and> sv_state row = S_COMMITTED))
     \<and> (\<forall>mid r. dget (cd_requests d) mid = Some r \<longrightarrow> receipt_ok C gw (cd_snapshots d) mid r)"

definition payload_bytes :: "config_db \<Rightarrow> nat" where
  "payload_bytes d = sum_list (map (length \<circ> sv_payload) (dvals (cd_snapshots d)))"

definition limits_ok :: "config_store \<Rightarrow> config_db \<Rightarrow> bool" where
  "limits_ok st d \<longleftrightarrow> length (cd_snapshots d) \<le> co_max_snapshots st \<and> length (cd_requests d) \<le> co_max_requests st
     \<and> payload_bytes d \<le> co_max_bytes st"

definition store_ok :: "contract_env \<Rightarrow> config_store \<Rightarrow> bool" where
  "store_ok C st \<longleftrightarrow> id_fullmatch (co_gateway st) \<and> 1 \<le> co_max_snapshots st \<and> 1 \<le> co_max_requests st \<and> 1 \<le> co_max_bytes st
     \<and> db_ok C (co_gateway st) (co_db st) \<and> limits_ok st (co_db st)"

definition committed_rows :: "config_db \<Rightarrow> (nat \<times> stored_snapshot) set" where
  "committed_rows d = {(v, row). dget (cd_snapshots d) v = Some row \<and> sv_state row = S_COMMITTED}"

section \<open>What each write keeps\<close>

lemma db_okD:
  assumes "db_ok C gw d"
  shows "dwf (cd_snapshots d)" "dwf (cd_requests d)" "unique_rows (cd_snapshots d)"
    "\<And>v row. dget (cd_snapshots d) v = Some row \<Longrightarrow> row_ok C gw (active_version d) v row"
    "\<And>v. cd_active d = Some v \<Longrightarrow> \<exists>row. dget (cd_snapshots d) v = Some row \<and> sv_state row = S_COMMITTED"
    "\<And>mid r. dget (cd_requests d) mid = Some r \<Longrightarrow> receipt_ok C gw (cd_snapshots d) mid r"
  using assms by (auto simp: db_ok_def)

lemma db_okI:
  assumes "dwf (cd_snapshots d)" "dwf (cd_requests d)" "unique_rows (cd_snapshots d)"
    "\<And>v row. dget (cd_snapshots d) v = Some row \<Longrightarrow> row_ok C gw (active_version d) v row"
    "\<And>v. cd_active d = Some v \<Longrightarrow> \<exists>row. dget (cd_snapshots d) v = Some row \<and> sv_state row = S_COMMITTED"
    "\<And>mid r. dget (cd_requests d) mid = Some r \<Longrightarrow> receipt_ok C gw (cd_snapshots d) mid r"
  shows "db_ok C gw d"
  using assms by (simp add: db_ok_def)

lemma mem_dget: "dwf d \<Longrightarrow> (\<exists>(k, v) \<in> set d. P k v) \<longleftrightarrow> (\<exists>k v. dget d k = Some v \<and> P k v)"
  using dwf_mem_iff [of d] by (simp add: Bex_def split_paired_Ex)

lemma active_row_committed:
  assumes ok: "db_ok C gw d" and "0 < active_version d"
  obtains row s where "dget (cd_snapshots d) (active_version d) = Some row" "sv_state row = S_COMMITTED"
    "decodes C gw (active_version d) row s"
proof -
  from assms(2) have "cd_active d = Some (active_version d)" by (cases "cd_active d") (auto simp: active_version_def)
  from db_okD(5) [OF ok this] obtain row where row: "dget (cd_snapshots d) (active_version d) = Some row" "sv_state row = S_COMMITTED"
    by blast
  moreover from db_okD(4) [OF ok row(1)] obtain s where "decodes C gw (active_version d) row s" by (auto simp: row_ok_def)
  ultimately show thesis by (rule that)
qed

lemma load_active_ok:
  assumes "db_ok (xe_contract env) gw d"
  shows "\<exists>r. load_active env gw d = Inr r"
proof (cases "active_version d = 0")
  case False
  then obtain row s where "dget (cd_snapshots d) (active_version d) = Some row" "sv_state row = S_COMMITTED"
      "decodes (xe_contract env) gw (active_version d) row s"
    using active_row_committed [OF assms] by blast
  with False show ?thesis by (simp add: load_active_def decode_row_iff [symmetric])
qed (simp add: load_active_def)

text \<open>A newer candidate takes or keeps its row.\<close>

lemma put_row_ok:
  assumes ok: "db_ok C gw d" and newer: "active_version d < v" and state: "sv_state row = S_PREPARED" "sv_token row \<noteq> None"
    and dec: "decodes C gw v row s" and alone: "\<not> other_prepared v d" and fresh: "\<not> token_taken (sv_token row) v d"
    and same: "\<And>old. dget (cd_snapshots d) v = Some old \<Longrightarrow> decodes C gw v old = decodes C gw v row"
  shows "db_ok C gw (d\<lparr>cd_snapshots := dset v row (cd_snapshots d)\<rparr>)"
proof -
  let ?d = "d\<lparr>cd_snapshots := dset v row (cd_snapshots d)\<rparr>"
  note ok' = db_okD [OF ok]
  have [simp]: "active_version ?d = active_version d" by (simp add: active_version_def)
  show ?thesis
  proof (rule db_okI)
    have "\<not> (\<exists>w q. dget (cd_snapshots d) w = Some q \<and> w \<noteq> v \<and> (sv_state q = S_PREPARED \<or> sv_token q = sv_token row))"
      using alone fresh state(2) unfolding other_prepared_def token_taken_def by (auto simp: mem_dget [OF ok'(1)])
    with ok'(3) show "unique_rows (cd_snapshots ?d)"
      unfolding unique_rows_def by (auto split: if_split_asm; metis)
    show "row_ok C gw (active_version ?d) w q" if "dget (cd_snapshots ?d) w = Some q" for w q
      using that ok'(4) newer state dec by (auto simp: row_ok_def split: if_split_asm)
    show "\<exists>q. dget (cd_snapshots ?d) w = Some q \<and> sv_state q = S_COMMITTED" if "cd_active ?d = Some w" for w
      using ok'(5) [of w] newer that by (auto simp: active_version_def)
    show "receipt_ok C gw (cd_snapshots ?d) mid r" if "dget (cd_requests ?d) mid = Some r" for mid r
      using ok'(6) [of mid r] that ok'(4) newer state same by (fastforce simp: receipt_ok_def row_ok_def)
  qed (use ok' in auto)
qed

lemma write_receipt_ok:
  assumes ok: "db_ok C gw d" and row: "dget (cd_snapshots d) (cs_config_version s) = Some row"
    and state: "if applied then sv_state row = S_COMMITTED else sv_state row = S_PREPARED"
    and old: "\<And>r. dget (cd_requests d) (cs_message_id s) = Some r \<Longrightarrow> rq_version r = cs_config_version s \<and> rq_kind r = kind"
    and cmd: "kind = Some ''configPatch'' \<Longrightarrow> codec_ok C \<Longrightarrow> \<exists>s'. decodes C gw (cs_config_version s) row s' \<and> cs_message_id s' = cs_message_id s"
  shows "db_ok C gw (write_receipt s applied digest kind d)"
proof -
  have same: "cd_snapshots (write_receipt s applied digest kind d) = cd_snapshots d"
    "cd_active (write_receipt s applied digest kind d) = cd_active d"
    "active_version (write_receipt s applied digest kind d) = active_version d"
    by (simp_all add: write_receipt_def active_version_def)
  note ok' = db_okD [OF ok]
  show ?thesis
  proof (rule db_okI)
    show "dwf (cd_requests (write_receipt s applied digest kind d))" using ok' by (auto simp: write_receipt_def Let_def)
    fix mid r assume "dget (cd_requests (write_receipt s applied digest kind d)) mid = Some r"
    then show "receipt_ok C gw (cd_snapshots (write_receipt s applied digest kind d)) mid r"
      using ok'(6) row state old cmd unfolding same
      by (auto simp: write_receipt_def Let_def receipt_ok_def split: if_split_asm option.split_asm)
  qed (use ok' in \<open>auto simp: same\<close>)
qed

section \<open>Preparation\<close>

definition accepted :: "store_env \<Rightarrow> config_store \<Rightarrow> ConfigSnapshot \<Rightarrow> string option \<Rightarrow> string option \<Rightarrow> config_db \<Rightarrow> bool" where
  "accepted env st s digest kind d \<longleftrightarrow>
     (\<forall>r. dget (cd_requests d) (cs_message_id s) = Some r \<longrightarrow> rq_version r = cs_config_version s \<and> rq_kind r = kind \<and> rq_digest r = digest)
     \<and> active_version d \<le> cs_config_version s
     \<and> (cs_config_version s \<noteq> active_version d \<longrightarrow> \<not> other_prepared (cs_config_version s) d)
     \<and> \<not> over_limits st s d
     \<and> (\<forall>old. dget (cd_snapshots d) (cs_config_version s) = Some old \<longrightarrow>
          (\<exists>s'. decodes (xe_contract env) (co_gateway st) (cs_config_version s) old s' \<and> cs_content_json s' = cs_content_json s))"

lemma refusal_None: "refusal env st s digest kind d = Inr None \<Longrightarrow> accepted env st s digest kind d"
  by (auto simp: refusal_def accepted_def res_simps split: if_split_asm option.split_asm)

lemma prepare_snapshot_cases:
  assumes "prepare_snapshot env st s digest kind n d = Inr (r, d')"
  shows "pr_status r = P_REJECTED \<and> pr_token r = None \<and> d' = d
    \<or> (\<exists>d1. let applied = (cs_config_version s = active_version d); tok = new_token env n s d in
         accepted env st s digest kind d \<and> write_candidate s (content_hash (xe_contract env) s) applied tok d = Inr d1
         \<and> d' = write_receipt s applied digest kind d1 \<and> pr_status r = (if applied then P_APPLIED else P_PREPARED) \<and> pr_token r = tok)"
proof (cases "refusal env st s digest kind d")
  case (Inr c)
  show ?thesis
  proof (cases c)
    case None
    with Inr have "accepted env st s digest kind d" by (simp add: refusal_None)
    with Inr None assms show ?thesis by (simp add: prepare_snapshot_def Let_def rbind_Inr_iff) auto
  next
    case (Some code)
    with Inr assms show ?thesis by (auto simp: prepare_snapshot_def reject_def)
  qed
qed (use assms in \<open>simp add: prepare_snapshot_def\<close>)

lemma write_candidate_cases:
  assumes "write_candidate s hash applied tok d = Inr d1"
  shows "0 < cs_config_version s \<and> \<not> token_taken tok (cs_config_version s) d
    \<and> (case dget (cd_snapshots d) (cs_config_version s) of
         None \<Rightarrow> d1 = d\<lparr>cd_snapshots := dset (cs_config_version s) \<lparr>sv_payload = cs_wire_json s, sv_hash = hash, sv_state = S_PREPARED, sv_token = tok\<rparr> (cd_snapshots d)\<rparr>
       | Some row \<Rightarrow> d1 = (if applied then d else d\<lparr>cd_snapshots := dset (cs_config_version s) (row\<lparr>sv_state := S_PREPARED, sv_token := tok\<rparr>) (cd_snapshots d)\<rparr>))"
  using assms by (auto simp: write_candidate_def Let_def split: if_split_asm option.split_asm)

lemma new_token_fresh:
  assumes ok: "db_ok C gw d" and "cs_config_version s \<noteq> active_version d"
  shows "new_token env n s d \<noteq> None"
  using assms(2) db_okD(4) [OF ok] by (auto simp: new_token_def row_ok_def split: option.split)

text \<open>The row of an accepted candidate, old or new.\<close>

lemma write_candidate_newer:
  assumes ok: "db_ok C gw d" and parse: "parse_config C (cs_wire_json s) gw = Inr (Inr s)"
    and newer: "active_version d < cs_config_version s" and alone: "\<not> other_prepared (cs_config_version s) d"
    and tok: "tok \<noteq> None" and w: "write_candidate s (content_hash C s) False tok d = Inr d1"
  shows "\<exists>row s'. d1 = d\<lparr>cd_snapshots := dset (cs_config_version s) row (cd_snapshots d)\<rparr> \<and> db_ok C gw d1
    \<and> sv_state row = S_PREPARED \<and> sv_token row = tok \<and> decodes C gw (cs_config_version s) row s'
    \<and> (case dget (cd_snapshots d) (cs_config_version s) of None \<Rightarrow> s' = s \<and> sv_payload row = cs_wire_json s
       | Some old \<Rightarrow> decodes C gw (cs_config_version s) old s' \<and> sv_payload row = sv_payload old)"
proof (cases "dget (cd_snapshots d) (cs_config_version s)")
  case None
  let ?row = "\<lparr>sv_payload = cs_wire_json s, sv_hash = content_hash C s, sv_state = S_PREPARED, sv_token = tok\<rparr>"
  have dec: "decodes C gw (cs_config_version s) ?row s" using parse by (simp add: decodes_def)
  have d1: "d1 = d\<lparr>cd_snapshots := dset (cs_config_version s) ?row (cd_snapshots d)\<rparr>" and fresh: "\<not> token_taken tok (cs_config_version s) d"
    using write_candidate_cases [OF w] None by auto
  have "db_ok C gw d1" unfolding d1
    by (rule put_row_ok [OF ok newer _ _ dec alone]) (use None tok fresh in auto)
  with d1 dec None show ?thesis by (intro exI [of _ ?row] exI [of _ s]) simp
next
  case (Some old)
  let ?row = "old\<lparr>sv_state := S_PREPARED, sv_token := tok\<rparr>"
  from db_okD(4) [OF ok Some] obtain s' where dec: "decodes C gw (cs_config_version s) old s'" by (auto simp: row_ok_def)
  then have dec': "decodes C gw (cs_config_version s) ?row s'" by simp
  have d1: "d1 = d\<lparr>cd_snapshots := dset (cs_config_version s) ?row (cd_snapshots d)\<rparr>" and fresh: "\<not> token_taken tok (cs_config_version s) d"
    using write_candidate_cases [OF w] Some by auto
  have "db_ok C gw d1" unfolding d1
    by (rule put_row_ok [OF ok newer _ _ dec' alone]) (use Some tok fresh in auto)
  with d1 dec Some show ?thesis by (intro exI [of _ ?row] exI [of _ s']) simp
qed

lemma accepted_ok:
  assumes ok: "db_ok C gw d" and parse: "parse_config C (cs_wire_json s) gw = Inr (Inr s)" and C: "xe_contract env = C"
    and acc: "accepted env st s digest kind d"
    and w: "write_candidate s (content_hash C s) (cs_config_version s = active_version d) (new_token env n s d) d = Inr d1"
    and cmd: "\<And>row s'. kind = Some ''configPatch'' \<Longrightarrow> codec_ok C \<Longrightarrow> dget (cd_snapshots d) (cs_config_version s) = Some row
      \<Longrightarrow> decodes C gw (cs_config_version s) row s' \<Longrightarrow> cs_message_id s' = cs_message_id s"
  shows "db_ok C gw (write_receipt s (cs_config_version s = active_version d) digest kind d1)"
proof (cases "cs_config_version s = active_version d")
  case True
  then have "0 < active_version d" using write_candidate_cases [OF w] by auto
  then obtain row s' where row: "dget (cd_snapshots d) (active_version d) = Some row" "sv_state row = S_COMMITTED"
      "decodes C gw (active_version d) row s'"
    using active_row_committed [OF ok] by blast
  with True w have d1: "d1 = d" using write_candidate_cases [OF w] by auto
  show ?thesis unfolding d1
    by (rule write_receipt_ok [OF ok, of s row]) (use True row acc cmd in \<open>auto simp: accepted_def\<close>)
next
  case False
  with acc have newer: "active_version d < cs_config_version s" and alone: "\<not> other_prepared (cs_config_version s) d"
    by (auto simp: accepted_def)
  from False w have "write_candidate s (content_hash C s) False (new_token env n s d) d = Inr d1" by simp
  from write_candidate_newer [OF ok parse newer alone new_token_fresh [OF ok False] this] obtain row s'
    where d1: "d1 = d\<lparr>cd_snapshots := dset (cs_config_version s) row (cd_snapshots d)\<rparr>" "db_ok C gw d1" "sv_state row = S_PREPARED"
      and dec: "decodes C gw (cs_config_version s) row s'"
      and old: "case dget (cd_snapshots d) (cs_config_version s) of None \<Rightarrow> s' = s \<and> sv_payload row = cs_wire_json s
        | Some old \<Rightarrow> decodes C gw (cs_config_version s) old s' \<and> sv_payload row = sv_payload old"
    by blast
  show ?thesis
    by (rule write_receipt_ok [OF d1(2), of s row])
       (use d1 dec old False acc cmd in \<open>auto simp: accepted_def split: option.split_asm\<close>)
qed

text \<open>Quotas: bytes are the sum over the rows.\<close>

lemma payload_bytes_dsum: "int (payload_bytes d) = dsum (int \<circ> length \<circ> sv_payload) (cd_snapshots d)"
proof -
  have "int (sum_list (map (length \<circ> sv_payload) (dvals rows))) = dsum (int \<circ> length \<circ> sv_payload) rows" for rows :: "(nat, stored_snapshot) dict"
    by (induction rows) auto
  then show ?thesis by (simp add: payload_bytes_def)
qed

lemma limits_write_receipt:
  assumes "limits_ok st d" "dget (cd_requests d) (cs_message_id s) = None \<Longrightarrow> length (cd_requests d) < co_max_requests st"
  shows "limits_ok st (write_receipt s applied digest kind d)"
  using assms dget_None_iff [of "cd_requests d" "cs_message_id s"]
  by (auto simp: limits_ok_def write_receipt_def Let_def length_dset payload_bytes_def)

lemma limits_put_row:
  assumes lim: "limits_ok st d" and wf: "dwf (cd_snapshots d)"
    and new: "dget (cd_snapshots d) v = None \<Longrightarrow> length (cd_snapshots d) < co_max_snapshots st
      \<and> payload_bytes d + length (sv_payload row) \<le> co_max_bytes st"
    and old: "\<And>q. dget (cd_snapshots d) v = Some q \<Longrightarrow> sv_payload row = sv_payload q"
  shows "limits_ok st (d\<lparr>cd_snapshots := dset v row (cd_snapshots d)\<rparr>)"
proof -
  let ?d = "d\<lparr>cd_snapshots := dset v row (cd_snapshots d)\<rparr>"
  have "payload_bytes ?d \<le> co_max_bytes st \<and> length (cd_snapshots ?d) \<le> co_max_snapshots st"
  proof (cases "dget (cd_snapshots d) v")
    case None
    then have absent: "v \<notin> set (dkeys (cd_snapshots d))" by (simp add: map_of_eq_None_iff)
    then have "int (payload_bytes ?d) = int (payload_bytes d) + int (length (sv_payload row))"
      by (simp add: payload_bytes_dsum dsum_dset_new)
    with new [OF None] absent show ?thesis by (simp add: length_dset)
  next
    case (Some q)
    then have "int (payload_bytes ?d) = int (payload_bytes d)"
      using old [OF Some] by (simp add: payload_bytes_dsum dsum_dset_old [OF wf Some])
    moreover have "v \<in> set (dkeys (cd_snapshots d))" using Some by (rule dget_Some_key)
    ultimately show ?thesis using lim by (simp add: limits_ok_def length_dset)
  qed
  with lim show ?thesis by (simp add: limits_ok_def)
qed

lemma write_candidate_limits:
  assumes lim: "limits_ok st d" and wf: "dwf (cd_snapshots d)" and over: "\<not> over_limits st s d"
    and w: "write_candidate s hash applied tok d = Inr d1"
  shows "limits_ok st d1 \<and> cd_requests d1 = cd_requests d"
proof (cases "dget (cd_snapshots d) (cs_config_version s)")
  case None
  with over show ?thesis using write_candidate_cases [OF w]
    by (auto intro!: limits_put_row [OF lim wf] simp: over_limits_def payload_bytes_def)
next
  case (Some row)
  then show ?thesis using write_candidate_cases [OF w] lim
    by (auto intro!: limits_put_row [OF lim wf])
qed

lemma prepare_snapshot_ok:
  assumes ok: "db_ok C gw d" and lim: "limits_ok st d" and parse: "parse_config C (cs_wire_json s) gw = Inr (Inr s)" and C: "xe_contract env = C"
    and run: "prepare_snapshot env st s digest kind n d = Inr (r, d')"
    and cmd: "\<And>row s'. kind = Some ''configPatch'' \<Longrightarrow> codec_ok C \<Longrightarrow> dget (cd_snapshots d) (cs_config_version s) = Some row
      \<Longrightarrow> decodes C gw (cs_config_version s) row s' \<Longrightarrow> cs_message_id s' = cs_message_id s"
  shows "db_ok C gw d' \<and> limits_ok st d'"
  using prepare_snapshot_cases [OF run]
proof (elim disjE exE)
  fix d1
  assume "let applied = cs_config_version s = active_version d; tok = new_token env n s d
    in accepted env st s digest kind d \<and> write_candidate s (content_hash (xe_contract env) s) applied tok d = Inr d1 \<and>
       d' = write_receipt s applied digest kind d1 \<and> pr_status r = (if applied then P_APPLIED else P_PREPARED) \<and> pr_token r = tok"
  then have acc: "accepted env st s digest kind d"
    and w: "write_candidate s (content_hash C s) (cs_config_version s = active_version d) (new_token env n s d) d = Inr d1"
    and d': "d' = write_receipt s (cs_config_version s = active_version d) digest kind d1"
    by (simp_all add: Let_def C)
  from acc have over: "\<not> over_limits st s d" by (simp add: accepted_def)
  have d1: "limits_ok st d1" "cd_requests d1 = cd_requests d"
    using write_candidate_limits [OF lim db_okD(1) [OF ok] over w] by auto
  have "limits_ok st d'" unfolding d'
    by (rule limits_write_receipt [OF d1(1)]) (use over d1 in \<open>auto simp: over_limits_def\<close>)
  moreover have "db_ok C gw d'" unfolding d' by (rule accepted_ok [OF ok parse C acc w]) (rule cmd)
  ultimately show ?thesis by blast
qed (use ok lim in auto)

section \<open>Commit, failure and recovery\<close>

lemma candidate_row:
  assumes ok: "db_ok C gw d" and c: "candidate tok d = Inr (v, row)"
  shows "dget (cd_snapshots d) v = Some row \<and> sv_token row = Some tok"
proof -
  from c have "List.find (\<lambda>(v, row). sv_token row = Some tok) (cd_snapshots d) = Some (v, row)"
    by (auto simp: candidate_def split: if_split_asm option.split_asm)
  then have "(v, row) \<in> set (cd_snapshots d) \<and> sv_token row = Some tok" by (auto simp: find_Some_iff in_set_conv_nth)
  with db_okD(1) [OF ok] show ?thesis by (simp add: dwf_mem_iff)
qed

lemma dget_set_requests [simp]:
  "dget (cd_requests (set_requests v status d)) mid
     = map_option (\<lambda>r. if rq_version r = v then r\<lparr>rq_status := status\<rparr> else r) (dget (cd_requests d) mid)"
  by (simp add: set_requests_def map_of_map)

lemma set_requests_same [simp]:
  "cd_snapshots (set_requests v status d) = cd_snapshots d" "cd_active (set_requests v status d) = cd_active d"
  "active_version (set_requests v status d) = active_version d" "length (cd_requests (set_requests v status d)) = length (cd_requests d)"
  "dwf (cd_requests (set_requests v status d)) = dwf (cd_requests d)" "payload_bytes (set_requests v status d) = payload_bytes d"
  by (simp_all add: set_requests_def active_version_def payload_bytes_def dwf_def comp_def case_prod_unfold)

lemma unique_rows_sub:
  assumes u: "unique_rows rows"
    and sub: "\<And>v r'. dget rows' v = Some r' \<Longrightarrow> \<exists>r. dget rows v = Some r \<and> (sv_state r' = S_PREPARED \<longrightarrow> sv_state r = S_PREPARED)
      \<and> (sv_token r' = None \<or> sv_token r' = sv_token r)"
  shows "unique_rows rows'"
  unfolding unique_rows_def
proof (intro allI impI)
  fix v w r' q' assume r': "dget rows' v = Some r'" and q': "dget rows' w = Some q'"
    and h: "sv_state r' = S_PREPARED \<and> sv_state q' = S_PREPARED \<or> sv_token r' \<noteq> None \<and> sv_token r' = sv_token q'"
  from sub [OF r'] obtain r where "dget rows v = Some r" "sv_state r' = S_PREPARED \<longrightarrow> sv_state r = S_PREPARED" "sv_token r' = None \<or> sv_token r' = sv_token r"
    by blast
  moreover from sub [OF q'] obtain q where "dget rows w = Some q" "sv_state q' = S_PREPARED \<longrightarrow> sv_state q = S_PREPARED" "sv_token q' = None \<or> sv_token q' = sv_token q"
    by blast
  ultimately show "v = w" using u h unfolding unique_rows_def by metis
qed

text \<open>A prepared row leaves that state, and its receipts follow.\<close>

definition settled :: "nat \<Rightarrow> stored_snapshot \<Rightarrow> request_status \<Rightarrow> nat option \<Rightarrow> nat option \<Rightarrow> config_db \<Rightarrow> config_db" where
  "settled v row status prev active d =
     set_requests v status (d\<lparr>cd_snapshots := dset v row (cd_snapshots d), cd_previous := prev, cd_active := active\<rparr>)"

lemma settled_ok:
  assumes ok: "db_ok C gw d" and row: "dget (cd_snapshots d) v = Some row" "sv_state row = S_PREPARED"
    and row': "row' = row\<lparr>sv_state := state, sv_token := tok\<rparr>" "tok = None \<or> tok = sv_token row"
    and kind: "state = S_COMMITTED \<and> status = R_APPLIED \<and> active = Some v
      \<or> state = S_FAILED \<and> status = R_FAILED \<and> active = cd_active d"
  shows "db_ok C gw (settled v row' status prev active d)"
proof (rule db_okI)
  note ok' = db_okD [OF ok]
  let ?d = "settled v row' status prev active d"
  have newer: "active_version d < v" and dec: "\<exists>s. decodes C gw v row s" and "0 < v"
    using ok'(4) [OF row(1)] row(2) by (auto simp: row_ok_def)
  have only: "w = v" if "dget (cd_snapshots d) w = Some q" "sv_state q = S_PREPARED" for w q
    using ok'(3) that row unfolding unique_rows_def by blast
  have act: "active_version ?d = (if state = S_COMMITTED then v else active_version d)"
    using kind by (auto simp: settled_def active_version_def)
  show "unique_rows (cd_snapshots ?d)"
    by (rule unique_rows_sub [OF ok'(3)]) (use row row' in \<open>auto simp: settled_def split: if_split_asm\<close>)
  show "row_ok C gw (active_version ?d) w q" if "dget (cd_snapshots ?d) w = Some q" for w q
  proof (cases "w = v")
    case True
    with that have "q = row'" by (simp add: settled_def)
    with True dec \<open>0 < v\<close> newer kind act show ?thesis by (auto simp: row_ok_def row'(1))
  next
    case False
    with that have q: "dget (cd_snapshots d) w = Some q" by (simp add: settled_def)
    from ok'(4) [OF q] only [OF q] False newer act show ?thesis by (auto simp: row_ok_def)
  qed
  show "\<exists>q. dget (cd_snapshots ?d) w = Some q \<and> sv_state q = S_COMMITTED" if "cd_active ?d = Some w" for w
    using that kind ok'(5) [of w] newer by (auto simp: settled_def row' active_version_def split: option.split_asm)
  show "receipt_ok C gw (cd_snapshots ?d) mid r" if r: "dget (cd_requests ?d) mid = Some r" for mid r
  proof -
    from r obtain q where q: "dget (cd_requests d) mid = Some q" "r = (if rq_version q = v then q\<lparr>rq_status := status\<rparr> else q)"
      by (auto simp: settled_def)
    with ok'(6) [OF q(1)] row kind show ?thesis
      by (auto simp: receipt_ok_def settled_def row')
  qed
qed (use db_okD [OF ok] in \<open>auto simp: settled_def\<close>)

lemma settled_limits:
  assumes "limits_ok st d" "dwf (cd_snapshots d)" "dget (cd_snapshots d) v = Some row" "sv_payload row' = sv_payload row"
  shows "limits_ok st (settled v row' status prev active d)"
proof -
  have "limits_ok st (d\<lparr>cd_snapshots := dset v row' (cd_snapshots d)\<rparr>)"
    by (rule limits_put_row) (use assms in auto)
  then show ?thesis by (simp add: limits_ok_def settled_def payload_bytes_def)
qed

lemma interrupt_ok:
  assumes ok: "db_ok C gw d"
  shows "db_ok C gw (interrupt d)"
proof (rule db_okI)
  note ok' = db_okD [OF ok]
  define stop where "stop row = (if sv_state row = S_PREPARED then row\<lparr>sv_state := S_INTERRUPTED, sv_token := None\<rparr> else row)" for row :: stored_snapshot
  have stop: "sv_state (stop row) \<noteq> S_PREPARED" "sv_state (stop row) = S_COMMITTED \<longleftrightarrow> sv_state row = S_COMMITTED"
      "decodes C gw v (stop row) = decodes C gw v row" "sv_token (stop row) = None \<or> sv_token (stop row) = sv_token row" for row v
    by (auto simp: stop_def)
  have rows: "dget (cd_snapshots (interrupt d)) v = map_option stop (dget (cd_snapshots d) v)" for v
    by (simp add: interrupt_def map_of_map stop_def [abs_def])
  have reqs: "dget (cd_requests (interrupt d)) mid
      = map_option (\<lambda>r. if rq_status r = R_PREPARED then r\<lparr>rq_status := R_INTERRUPTED\<rparr> else r) (dget (cd_requests d) mid)" for mid
    by (simp add: interrupt_def map_of_map)
  have act: "active_version (interrupt d) = active_version d" "cd_active (interrupt d) = cd_active d"
    by (simp_all add: interrupt_def active_version_def)
  show "dwf (cd_snapshots (interrupt d))" "dwf (cd_requests (interrupt d))"
    using ok'(1,2) by (simp_all add: interrupt_def dwf_def comp_def case_prod_unfold)
  show "unique_rows (cd_snapshots (interrupt d))"
    by (rule unique_rows_sub [OF ok'(3)]) (use stop in \<open>auto simp: rows\<close>)
  show "row_ok C gw (active_version (interrupt d)) v q" if "dget (cd_snapshots (interrupt d)) v = Some q" for v q
    using that ok'(4) unfolding act rows by (auto simp: row_ok_def stop)
  show "\<exists>q. dget (cd_snapshots (interrupt d)) v = Some q \<and> sv_state q = S_COMMITTED" if "cd_active (interrupt d) = Some v" for v
    using that ok'(5) [of v] unfolding act rows by (auto simp: stop)
  show "receipt_ok C gw (cd_snapshots (interrupt d)) mid r" if r: "dget (cd_requests (interrupt d)) mid = Some r" for mid r
  proof -
    from r obtain q where q: "dget (cd_requests d) mid = Some q" "r = (if rq_status q = R_PREPARED then q\<lparr>rq_status := R_INTERRUPTED\<rparr> else q)"
      by (auto simp: reqs)
    from ok'(6) [OF q(1)] obtain row where "dget (cd_snapshots d) (rq_version q) = Some row"
        "rq_status q = R_APPLIED \<longrightarrow> sv_state row = S_COMMITTED"
        "rq_kind q = Some ''configPatch'' \<and> codec_ok C \<longrightarrow> (\<exists>s. decodes C gw (rq_version q) row s \<and> cs_message_id s = mid)"
      by (auto simp: receipt_ok_def)
    then show ?thesis unfolding receipt_ok_def by (intro exI [of _ "stop row"]) (simp add: rows stop q(2))
  qed
qed

lemma interrupt_limits: "limits_ok st (interrupt d) = limits_ok st d"
proof -
  have "map (length \<circ> sv_payload) (dvals (cd_snapshots (interrupt d))) = map (length \<circ> sv_payload) (dvals (cd_snapshots d))"
    by (simp add: interrupt_def case_prod_unfold)
  then have "payload_bytes (interrupt d) = payload_bytes d" unfolding payload_bytes_def by (rule arg_cong)
  then show ?thesis by (simp add: limits_ok_def) (simp add: interrupt_def)
qed

section \<open>The operations\<close>

text \<open>What a transaction may leave: tables that are again correct, and no older active version.\<close>

definition leaves :: "contract_env \<Rightarrow> config_store \<Rightarrow> config_db \<Rightarrow> bool" where
  "leaves C st d \<longleftrightarrow> db_ok C (co_gateway st) d \<and> limits_ok st d \<and> active_version (co_db st) \<le> active_version d
     \<and> committed_rows (co_db st) \<subseteq> committed_rows d"

definition advances :: "contract_env \<Rightarrow> config_store \<Rightarrow> config_store \<Rightarrow> bool" where
  "advances C st t \<longleftrightarrow> store_ok C t \<and> active_version (co_db st) \<le> active_version (co_db t) \<and> committed_rows (co_db st) \<subseteq> committed_rows (co_db t)
     \<and> co_gateway t = co_gateway st \<and> co_max_snapshots t = co_max_snapshots st \<and> co_max_requests t = co_max_requests st \<and> co_max_bytes t = co_max_bytes st"

lemma leaves_self: "store_ok C st \<Longrightarrow> leaves C st (co_db st)"
  by (simp add: leaves_def store_ok_def)

lemma advances_leaves:
  "store_ok C st \<Longrightarrow> leaves C st d \<Longrightarrow> advances C st (st\<lparr>co_db := d, co_ops := n\<rparr>)"
  by (auto simp: advances_def store_ok_def leaves_def limits_ok_def)

lemma advances_self: "store_ok C st \<Longrightarrow> advances C st st" "store_ok C st \<Longrightarrow> advances C st (st\<lparr>co_ops := n\<rparr>)"
  by (auto simp: advances_def store_ok_def leaves_def limits_ok_def)

lemma with_transaction_advances:
  assumes "store_ok C st" "\<And>x d. body (co_ops st) (co_db st) = Inr (x, d) \<Longrightarrow> leaves C st d"
  shows "advances C st (snd (with_transaction env body st))"
  using assms by (auto simp: with_transaction_def intro: advances_leaves advances_self split: sum.split)

lemma write_candidate_active:
  assumes "write_candidate s hash applied tok d = Inr d1" shows "active_version d1 = active_version d"
  using write_candidate_cases [OF assms] by (auto simp: active_version_def split: option.split_asm if_split_asm)

lemma write_receipt_active [simp]: "active_version (write_receipt s applied digest kind d) = active_version d"
  by (simp add: write_receipt_def active_version_def)

lemma prepare_snapshot_active: "prepare_snapshot env st s digest kind n d = Inr (r, d') \<Longrightarrow> active_version d' = active_version d"
  by (drule prepare_snapshot_cases) (auto simp: Let_def dest: write_candidate_active)

lemma committed_put: "(\<And>old. dget (cd_snapshots d) v = Some old \<Longrightarrow> sv_state old \<noteq> S_COMMITTED)
    \<Longrightarrow> cd_snapshots d' = dset v row (cd_snapshots d) \<Longrightarrow> committed_rows d \<subseteq> committed_rows d'"
  by (auto simp: committed_rows_def)

lemma prepare_snapshot_committed:
  assumes ok: "db_ok C gw d" and run: "prepare_snapshot env st s digest kind n d = Inr (r, d')"
  shows "committed_rows d \<subseteq> committed_rows d'"
  using prepare_snapshot_cases [OF run]
proof (elim disjE exE)
  fix d1
  assume "let applied = cs_config_version s = active_version d; tok = new_token env n s d
    in accepted env st s digest kind d \<and> write_candidate s (content_hash (xe_contract env) s) applied tok d = Inr d1 \<and>
       d' = write_receipt s applied digest kind d1 \<and> pr_status r = (if applied then P_APPLIED else P_PREPARED) \<and> pr_token r = tok"
  then have le: "active_version d \<le> cs_config_version s"
    and w: "write_candidate s (content_hash (xe_contract env) s) (cs_config_version s = active_version d) (new_token env n s d) d = Inr d1"
    and d': "cd_snapshots d' = cd_snapshots d1"
    by (auto simp: Let_def accepted_def write_receipt_def)
  have old: "sv_state row \<noteq> S_COMMITTED" if "cs_config_version s \<noteq> active_version d" "dget (cd_snapshots d) (cs_config_version s) = Some row" for row
    using db_okD(4) [OF ok that(2)] that(1) le by (auto simp: row_ok_def)
  have "d1 = d \<or> (\<exists>row. cd_snapshots d1 = dset (cs_config_version s) row (cd_snapshots d)
      \<and> (cs_config_version s \<noteq> active_version d \<or> dget (cd_snapshots d) (cs_config_version s) = None))"
    using write_candidate_cases [OF w] by (auto split: option.split_asm if_split_asm)
  with old d' show ?thesis
    by (elim disjE exE conjE) (auto simp: committed_rows_def)
qed simp

lemma prepare_snapshot_leaves:
  assumes "store_ok (xe_contract env) st" "parse_config (xe_contract env) (cs_wire_json s) (co_gateway st) = Inr (Inr s)"
    "prepare_snapshot env st s digest kind n (co_db st) = Inr (r, d')"
    "\<And>row s'. kind = Some ''configPatch'' \<Longrightarrow> codec_ok (xe_contract env) \<Longrightarrow> dget (cd_snapshots (co_db st)) (cs_config_version s) = Some row
      \<Longrightarrow> decodes (xe_contract env) (co_gateway st) (cs_config_version s) row s' \<Longrightarrow> cs_message_id s' = cs_message_id s"
  shows "leaves (xe_contract env) st d'"
proof -
  have "db_ok (xe_contract env) (co_gateway st) d' \<and> limits_ok st d'"
    by (rule prepare_snapshot_ok [OF _ _ assms(2) refl assms(3)]) (use assms(1,4) in \<open>auto simp: store_ok_def\<close>)
  moreover have "committed_rows (co_db st) \<subseteq> committed_rows d'"
    using assms(1) by (intro prepare_snapshot_committed [OF _ assms(3)]) (auto simp: store_ok_def)
  ultimately show ?thesis using prepare_snapshot_active [OF assms(3)] by (simp add: leaves_def)
qed

lemma prepare_config_advances:
  assumes ok: "store_ok (xe_contract env) st"
  shows "advances (xe_contract env) st (snd (prepare_config env payload st))"
proof (cases "\<exists>s. parse_config (xe_contract env) payload (co_gateway st) = Inr (Inr s)")
  case True
  then obtain s where s: "parse_config (xe_contract env) payload (co_gateway st) = Inr (Inr s)" by blast
  from parse_config_wire [OF s] s have parse: "parse_config (xe_contract env) (cs_wire_json s) (co_gateway st) = Inr (Inr s)" by simp
  show ?thesis unfolding prepare_config_def s
    by simp (rule with_transaction_advances [OF ok], erule prepare_snapshot_leaves [OF ok parse], simp)
next
  case False
  with ok show ?thesis by (auto simp: prepare_config_def intro: advances_self split: sum.split)
qed

lemma replay_status: "replay env st mid v digest d = Inr (Some r) \<Longrightarrow> pr_status r \<noteq> P_PREPARED"
  by (auto simp: replay_def reject_def rbind_Inr_iff split: option.split_asm if_split_asm)

lemma patch_body_cases:
  assumes run: "patch_body env st command mid v digest n d = Inr (r, d')"
  shows "d' = d \<and> pr_status r \<noteq> P_PREPARED
    \<or> (\<exists>s active. (case dget (cd_snapshots d) v of None \<Rightarrow> Inr False
          | Some row \<Rightarrow> rbind (decode_row env (co_gateway st) v row) (\<lambda>s. Inr (cs_message_id s \<noteq> mid))) = Inr False
        \<and> materialize (xe_contract env) command active (co_gateway st) = Inr (Inr s)
        \<and> prepare_snapshot env st s (Some digest) (Some ''configPatch'') n d = Inr (r, d'))"
proof -
  from run obtain rep where rep: "replay env st mid v digest d = Inr rep" by (auto simp: patch_body_def rbind_Inr_iff)
  show ?thesis
  proof (cases rep)
    case None
    then show ?thesis using run unfolding patch_body_def rep
      by (auto simp: rbind_Inr_iff result_iff reject_def reject_issues_def split: if_split_asm)
  next
    case (Some r')
    with run rep have "d' = d" "r = r'" by (simp_all add: patch_body_def)
    with replay_status rep Some show ?thesis by blast
  qed
qed

lemma patch_body_leaves:
  assumes ok: "store_ok (xe_contract env) st"
    and ids: "get_str ''messageId'' command = Inr mid" "get_int ''configVersion'' (normalize command) = Inr v"
    and run: "patch_body env st command mid (nat v) digest n (co_db st) = Inr (r, d')"
  shows "leaves (xe_contract env) st d'"
proof -
  let ?d = "co_db st"
  let ?clash = "case dget (cd_snapshots ?d) (nat v) of None \<Rightarrow> Inr False
     | Some row \<Rightarrow> rbind (decode_row env (co_gateway st) (nat v) row) (\<lambda>s. Inr (cs_message_id s \<noteq> mid))"
  consider "d' = ?d"
    | s active where "?clash = Inr False" "materialize (xe_contract env) command active (co_gateway st) = Inr (Inr s)"
        "prepare_snapshot env st s (Some digest) (Some ''configPatch'') n ?d = Inr (r, d')"
    using patch_body_cases [OF run] by blast
  then show ?thesis
  proof cases
    case 1
    with ok show ?thesis by (simp add: leaves_self)
  next
    case 2
    show ?thesis
    proof (rule prepare_snapshot_leaves [OF ok materialize_parses [OF 2(2)] 2(3)])
      fix row s' assume "codec_ok (xe_contract env)"
      with materialize_identity [OF 2(2) ids] have id: "cs_message_id s = mid" "cs_config_version s = nat v"
        by (simp_all add: from_command_def)
      assume row: "dget (cd_snapshots ?d) (cs_config_version s) = Some row"
        "decodes (xe_contract env) (co_gateway st) (cs_config_version s) row s'"
      then have "decode_row env (co_gateway st) (nat v) row = Inr s'" by (simp add: decode_row_iff id)
      with 2(1) row id show "cs_message_id s' = cs_message_id s" by simp
    qed
  qed
qed

lemma prepare_patch_advances:
  assumes ok: "store_ok (xe_contract env) st"
  shows "advances (xe_contract env) st (snd (prepare_patch env payload st))"
proof (cases "\<exists>command mid v. parse_command (xe_contract env) payload (co_gateway st) = Inr (Inr command)
    \<and> get_str ''messageId'' command = Inr mid \<and> get_int ''configVersion'' (normalize command) = Inr v")
  case True
  then obtain command mid v where c: "parse_command (xe_contract env) payload (co_gateway st) = Inr (Inr command)"
    "get_str ''messageId'' command = Inr mid" "get_int ''configVersion'' (normalize command) = Inr v" by blast
  then show ?thesis unfolding prepare_patch_def
    by simp (rule with_transaction_advances [OF ok], erule patch_body_leaves [OF ok c(2,3)])
next
  case False
  with ok show ?thesis by (auto simp: prepare_patch_def intro: advances_self split: sum.split)
qed

lemma commit_body_cases:
  assumes "commit_body env gw tok n d = Inr (s, d')"
  shows "\<exists>v row. candidate tok d = Inr (v, row) \<and> decodes (xe_contract env) gw v row s
    \<and> (sv_state row = S_COMMITTED \<and> v = active_version d \<and> d' = d
       \<or> sv_state row = S_PREPARED \<and> active_version d < v
         \<and> d' = settled v (row\<lparr>sv_state := S_COMMITTED, sv_token := sv_token row\<rparr>) R_APPLIED (cd_active d) (Some v) d)"
  using assms unfolding commit_body_def settled_def
  by (auto simp: rbind_Inr_iff decode_row_iff split: if_split_asm)

lemma fail_body_cases:
  assumes "fail_body tok n d = Inr (u, d')"
  shows "\<exists>v row. candidate tok d = Inr (v, row) \<and> sv_state row = S_PREPARED
    \<and> d' = settled v (row\<lparr>sv_state := S_FAILED, sv_token := None\<rparr>) R_FAILED (cd_previous d) (cd_active d) d"
  using assms unfolding fail_body_def settled_def by (auto simp: rbind_Inr_iff split: if_split_asm)

lemma settled_active: "active_version (settled v row status prev active d) = (case active of None \<Rightarrow> 0 | Some w \<Rightarrow> w)"
  by (simp add: settled_def active_version_def)

lemma settled_leaves:
  assumes ok: "store_ok C st" and c: "candidate tok (co_db st) = Inr (v, row)" and prepared: "sv_state row = S_PREPARED"
    and t: "tok' = None \<or> tok' = sv_token row"
    and kind: "state = S_COMMITTED \<and> status = R_APPLIED \<and> active = Some v
      \<or> state = S_FAILED \<and> status = R_FAILED \<and> active = cd_active (co_db st)"
  shows "leaves C st (settled v (row\<lparr>sv_state := state, sv_token := tok'\<rparr>) status prev active (co_db st))"
proof -
  from ok have db: "db_ok C (co_gateway st) (co_db st)" and lim: "limits_ok st (co_db st)" by (auto simp: store_ok_def)
  from candidate_row [OF db c] have row: "dget (cd_snapshots (co_db st)) v = Some row" by simp
  from db_okD(4) [OF db row] prepared have "active_version (co_db st) < v" by (simp add: row_ok_def)
  then have "active_version (co_db st) \<le> active_version (settled v (row\<lparr>sv_state := state, sv_token := tok'\<rparr>) status prev active (co_db st))"
    using kind by (auto simp: settled_active) (simp add: active_version_def)
  moreover have "committed_rows (co_db st) \<subseteq> committed_rows (settled v (row\<lparr>sv_state := state, sv_token := tok'\<rparr>) status prev active (co_db st))"
    using row prepared by (auto simp: committed_rows_def settled_def)
  ultimately show ?thesis using settled_ok [OF db row prepared refl t kind] settled_limits [OF lim db_okD(1) [OF db] row]
    by (simp add: leaves_def)
qed

lemma commit_advances:
  assumes ok: "store_ok (xe_contract env) st"
  shows "advances (xe_contract env) st (snd (commit env tok st))"
  unfolding commit_def
proof (rule with_transaction_advances [OF ok])
  fix s d assume "commit_body env (co_gateway st) tok (co_ops st) (co_db st) = Inr (s, d)"
  from commit_body_cases [OF this] ok show "leaves (xe_contract env) st d"
    by (blast intro: leaves_self settled_leaves)
qed

lemma fail_advances:
  assumes ok: "store_ok (xe_contract env) st"
  shows "advances (xe_contract env) st (snd (fail env tok st))"
  unfolding fail_def
proof (rule with_transaction_advances [OF ok])
  fix s d assume "fail_body tok (co_ops st) (co_db st) = Inr (s, d)"
  from fail_body_cases [OF this] ok show "leaves (xe_contract env) st d"
    by (auto intro: settled_leaves)
qed

text \<open>The process stops and the file is opened again with the same settings.\<close>

definition closed_file :: "config_store \<Rightarrow> config_file" where
  "closed_file st = \<lparr>cf_new = False, cf_application_id = APPLICATION_ID, cf_version = 1, cf_gateway = Some (co_gateway st),
     cf_quick = True, cf_columns = True, cf_content = co_db st\<rparr>"

definition reopen :: "store_env \<Rightarrow> config_store \<Rightarrow> config_store res" where
  "reopen env st = store_open env (co_gateway st) (co_max_snapshots st) (co_max_requests st) (co_max_bytes st) (closed_file st)"

lemma reopen_result:
  assumes ok: "store_ok (xe_contract env) st"
  shows "reopen env st = (if xe_commit env 0 then Inr (st\<lparr>co_db := interrupt (co_db st), co_ops := 1\<rparr>)
    else Inl (StoreError ''Configuration transaction failed; it was not committed.''))"
proof -
  from ok have "db_ok (xe_contract env) (co_gateway st) (interrupt (co_db st))" by (simp add: store_ok_def interrupt_ok)
  from load_active_ok [OF this] obtain r where "load_active env (co_gateway st) (interrupt (co_db st)) = Inr r" by blast
  with ok show ?thesis by (cases st) (auto simp: reopen_def store_open_def initialize_def closed_file_def store_ok_def)
qed

lemma interrupt_active [simp]: "active_version (interrupt d) = active_version d"
  by (simp add: interrupt_def active_version_def)

lemma interrupt_committed [simp]: "committed_rows (interrupt d) = committed_rows d"
proof -
  have "dget (cd_snapshots (interrupt d)) v
      = map_option (\<lambda>row. if sv_state row = S_PREPARED then row\<lparr>sv_state := S_INTERRUPTED, sv_token := None\<rparr> else row) (dget (cd_snapshots d) v)" for v
    by (simp add: interrupt_def map_of_map)
  then show ?thesis by (fastforce simp: committed_rows_def split: if_split_asm)
qed

lemma reopen_advances:
  assumes ok: "store_ok (xe_contract env) st" and t: "reopen env st = Inr t"
  shows "advances (xe_contract env) st t"
proof -
  from ok have "leaves (xe_contract env) st (interrupt (co_db st))"
    by (simp add: leaves_def store_ok_def interrupt_ok interrupt_limits)
  with ok t show ?thesis by (auto simp: reopen_result [OF ok] intro: advances_leaves split: if_split_asm)
qed

section \<open>The store as a transition system\<close>

inductive config_step :: "contract_env \<Rightarrow> config_store \<Rightarrow> config_store \<Rightarrow> bool" for C where
  cs_prepare: "xe_contract env = C \<Longrightarrow> config_step C st (snd (prepare_config env payload st))"
| cs_patch: "xe_contract env = C \<Longrightarrow> config_step C st (snd (prepare_patch env payload st))"
| cs_commit: "xe_contract env = C \<Longrightarrow> config_step C st (snd (commit env tok st))"
| cs_fail: "xe_contract env = C \<Longrightarrow> config_step C st (snd (fail env tok st))"
| cs_reopen: "xe_contract env = C \<Longrightarrow> reopen env st = Inr t \<Longrightarrow> config_step C st t"

definition config_init :: "contract_env \<Rightarrow> config_store \<Rightarrow> bool" where
  "config_init C st \<longleftrightarrow> (\<exists>env gw ms mr mb f. xe_contract env = C \<and> cf_new f \<and> store_open env gw ms mr mb f = Inr st)"

lemma config_step_advances: "config_step C s t \<Longrightarrow> store_ok C s \<Longrightarrow> advances C s t"
  by (induction rule: config_step.induct)
     (blast intro: prepare_config_advances prepare_patch_advances commit_advances fail_advances reopen_advances)+

lemma empty_config_ok: "db_ok C gw empty_config" "interrupt empty_config = empty_config"
  by (simp_all add: db_ok_def empty_config_def unique_rows_def interrupt_def)

lemma config_init_ok: "config_init C st \<Longrightarrow> store_ok C st"
  by (auto simp: config_init_def store_open_def initialize_def rbind_Inr_iff Let_def store_ok_def empty_config_ok split: if_split_asm)
     (simp_all add: limits_ok_def empty_config_def payload_bytes_def)

interpretation config_store: monotone_system "config_init C" "config_step C" "store_ok C" "\<lambda>st. active_version (co_db st)" for C
  by unfold_locales (auto dest: config_step_advances config_init_ok simp: advances_def)

interpretation committed: monotone_system "config_init C" "config_step C" "store_ok C" "\<lambda>st. committed_rows (co_db st)" for C
  using config_step_advances by unfold_locales (auto simp: advances_def)

section \<open>Commit of a prepared candidate\<close>

lemma candidate_find:
  assumes ok: "db_ok C gw d" and row: "dget (cd_snapshots d) v = Some row" and tok: "sv_token row = Some tok" "tok \<noteq> []"
  shows "candidate tok d = Inr (v, row)"
proof -
  have "(v, row) \<in> set (cd_snapshots d)" using row by (rule dget_Some_mem)
  with tok have "List.find (\<lambda>(v, row). sv_token row = Some tok) (cd_snapshots d) \<noteq> None" by (auto simp: find_None_iff)
  then obtain w q where f: "List.find (\<lambda>(v, row). sv_token row = Some tok) (cd_snapshots d) = Some (w, q)" by auto
  with tok have c: "candidate tok d = Inr (w, q)" by (simp add: candidate_def)
  from candidate_row [OF ok c] row tok db_okD(3) [OF ok] have "v = w" unfolding unique_rows_def by fastforce
  with candidate_row [OF ok c] row c show ?thesis by simp
qed

text \<open>The row a preparation leaves for its token.\<close>

lemma prepared_snapshot_row:
  assumes ok: "store_ok (xe_contract env) st" and parse: "parse_config (xe_contract env) (cs_wire_json s) (co_gateway st) = Inr (Inr s)"
    and run: "prepare_snapshot env st s digest kind n (co_db st) = Inr (r, d)" and r: "pr_status r = P_PREPARED"
  shows "\<exists>row s'. dget (cd_snapshots d) (cs_config_version s) = Some row \<and> sv_state row = S_PREPARED \<and> sv_token row = pr_token r
    \<and> decodes (xe_contract env) (co_gateway st) (cs_config_version s) row s' \<and> cs_content_json s' = cs_content_json s
    \<and> (dget (cd_snapshots (co_db st)) (cs_config_version s) = None \<longrightarrow> s' = s)"
proof -
  let ?C = "xe_contract env" and ?d = "co_db st" and ?v = "cs_config_version s"
  from ok have db: "db_ok ?C (co_gateway st) ?d" by (simp add: store_ok_def)
  from prepare_snapshot_cases [OF run] r obtain d1 where acc: "accepted env st s digest kind ?d" and ne: "?v \<noteq> active_version ?d"
    and w: "write_candidate s (content_hash ?C s) False (new_token env n s ?d) ?d = Inr d1"
    and t: "d = write_receipt s False digest kind d1" and tok: "pr_token r = new_token env n s ?d"
    by (auto simp: Let_def split: if_split_asm)
  from acc ne have newer: "active_version ?d < ?v" and alone: "\<not> other_prepared ?v ?d" by (auto simp: accepted_def)
  from write_candidate_newer [OF db parse newer alone new_token_fresh [OF db ne] w] obtain row s' where
    row: "d1 = ?d\<lparr>cd_snapshots := dset ?v row (cd_snapshots ?d)\<rparr>" "sv_state row = S_PREPARED" "sv_token row = new_token env n s ?d"
      "decodes ?C (co_gateway st) ?v row s'"
    and old: "case dget (cd_snapshots ?d) ?v of None \<Rightarrow> s' = s \<and> sv_payload row = cs_wire_json s
        | Some old \<Rightarrow> decodes ?C (co_gateway st) ?v old s' \<and> sv_payload row = sv_payload old" by blast
  have "cs_content_json s' = cs_content_json s"
    using old acc by (auto simp: accepted_def dest: decodes_fun split: option.split_asm)
  moreover have "dget (cd_snapshots d) ?v = Some row" by (simp add: t row(1) write_receipt_def)
  ultimately show ?thesis using row old tok by (auto split: option.split_asm)
qed

lemma prepare_config_snapshot:
  assumes "parse_config (xe_contract env) payload (co_gateway st) = Inr (Inr s)" "prepare_config env payload st = (Inr r, t)"
  shows "prepare_snapshot env st s None None (co_ops st) (co_db st) = Inr (r, co_db t)
    \<and> parse_config (xe_contract env) (cs_wire_json s) (co_gateway st) = Inr (Inr s)"
  using assms parse_config_wire [OF assms(1)]
  by (auto simp: prepare_config_def with_transaction_def split: sum.split_asm if_split_asm)

lemma prepared_row:
  assumes ok: "store_ok (xe_contract env) st" and parse: "parse_config (xe_contract env) payload (co_gateway st) = Inr (Inr s)"
    and run: "prepare_config env payload st = (Inr r, t)" and r: "pr_status r = P_PREPARED"
  shows "\<exists>row s'. dget (cd_snapshots (co_db t)) (cs_config_version s) = Some row \<and> sv_state row = S_PREPARED \<and> sv_token row = pr_token r
    \<and> decodes (xe_contract env) (co_gateway st) (cs_config_version s) row s' \<and> cs_content_json s' = cs_content_json s
    \<and> (dget (cd_snapshots (co_db st)) (cs_config_version s) = None \<longrightarrow> s' = s)"
  using prepared_snapshot_row [OF ok] prepare_config_snapshot [OF parse run] r by blast

lemma prepared_patch_row:
  assumes ok: "store_ok (xe_contract env) st" and run: "prepare_patch env payload st = (Inr r, t)" and r: "pr_status r = P_PREPARED"
  shows "\<exists>s row s'. pr_snapshot r = Some s \<and> parse_config (xe_contract env) (cs_wire_json s) (co_gateway st) = Inr (Inr s) \<and> dget (cd_snapshots (co_db t)) (cs_config_version s) = Some row \<and> sv_state row = S_PREPARED
    \<and> sv_token row = pr_token r \<and> decodes (xe_contract env) (co_gateway st) (cs_config_version s) row s' \<and> cs_content_json s' = cs_content_json s"
proof -
  from run r obtain command mid v where "with_transaction env (patch_body env st command mid v (cv_sha256 (xe_contract env) payload)) st = (Inr r, t)"
    by (auto simp: prepare_patch_def reject_issues_def reject_def split: sum.split_asm)
  then have "patch_body env st command mid v (cv_sha256 (xe_contract env) payload) (co_ops st) (co_db st) = Inr (r, co_db t)"
    by (auto simp: with_transaction_def split: sum.split_asm if_split_asm)
  then obtain active s where m: "materialize (xe_contract env) command active (co_gateway st) = Inr (Inr s)"
    and p: "prepare_snapshot env st s (Some (cv_sha256 (xe_contract env) payload)) (Some ''configPatch'') (co_ops st) (co_db st) = Inr (r, co_db t)"
    using r patch_body_cases by blast
  have "pr_snapshot r = Some s" using p r
    by (auto simp: prepare_snapshot_def rbind_Inr_iff reject_def Let_def split: option.split_asm)
  with prepared_snapshot_row [OF ok materialize_parses [OF m] p r] materialize_parses [OF m] show ?thesis by blast
qed

text \<open>Committing a prepared row, and loading it.\<close>

lemma commit_prepared:
  assumes ok: "store_ok (xe_contract env) t" and row: "dget (cd_snapshots (co_db t)) v = Some row" "sv_state row = S_PREPARED"
      "sv_token row = Some tok" "tok \<noteq> []" "decodes (xe_contract env) (co_gateway t) v row s" and c: "xe_commit env (co_ops t)"
  shows "\<exists>u. commit env tok t = (Inr s, u) \<and> store_ok (xe_contract env) u \<and> co_gateway u = co_gateway t
    \<and> active_version (co_db u) = v \<and> (v, row\<lparr>sv_state := S_COMMITTED\<rparr>) \<in> committed_rows (co_db u)"
proof -
  from ok have db: "db_ok (xe_contract env) (co_gateway t) (co_db t)" by (simp add: store_ok_def)
  from db_okD(4) [OF db row(1)] row(2) have newer: "active_version (co_db t) < v" by (simp add: row_ok_def)
  let ?u = "snd (commit env tok t)"
  have run: "commit env tok t = (Inr s, ?u)" "active_version (co_db ?u) = v" "(v, row\<lparr>sv_state := S_COMMITTED\<rparr>) \<in> committed_rows (co_db ?u)"
    using candidate_find [OF db row(1,3,4)] row(2,5) newer c
    by (simp_all add: commit_def with_transaction_def commit_body_def decode_row_iff [symmetric] active_version_def committed_rows_def)
  with commit_advances [OF ok, of tok] show ?thesis by (intro exI [of _ ?u]) (simp add: advances_def)
qed

lemma load_committed:
  assumes "active_version d = v" "0 < v" "(v, row) \<in> committed_rows d" "decodes (xe_contract env) gw v row s"
  shows "load_active env gw d = Inr (Some s)"
  using assms by (simp add: load_active_def committed_rows_def decode_row_iff [symmetric])

section \<open>A concrete store\<close>

definition demo_store_env :: store_env where
  "demo_store_env = \<lparr>xe_contract = demo_contract, xe_uuid = (\<lambda>_. ''t1''), xe_commit = (\<lambda>_. True)\<rparr>"

definition demo_file :: config_file where
  "demo_file = \<lparr>cf_new = True, cf_application_id = 0, cf_version = 0, cf_gateway = None, cf_quick = True, cf_columns = True, cf_content = empty_config\<rparr>"

definition demo_store :: config_store where
  "demo_store = \<lparr>co_gateway = ''g'', co_max_snapshots = 32, co_max_requests = 4096, co_max_bytes = 65536, co_db = empty_config, co_ops = 1\<rparr>"

lemma demo_codec: "codec_ok demo_contract"
  by (auto simp: codec_ok_def demo_contract_def)

lemma demo_store_init: "config_init demo_contract demo_store"
  unfolding config_init_def
  by (intro exI [of _ demo_store_env] exI [of _ "''g''"] exI [of _ 32] exI [of _ 4096] exI [of _ 65536] exI [of _ demo_file])
     (simp add: demo_store_env_def demo_file_def store_open_def initialize_def load_active_def empty_config_ok active_version_def
        id_alnum_def demo_store_def empty_config_def interrupt_def Let_def)

definition demo_row :: "snapshot_state \<Rightarrow> stored_snapshot" where
  "demo_row state = \<lparr>sv_payload = ''set'', sv_hash = ''c'', sv_state = state, sv_token = Some ''t1''\<rparr>"

definition demo_receipt :: "request_status \<Rightarrow> receipt" where
  "demo_receipt status = \<lparr>rq_version = 1, rq_status = status, rq_digest = Some ''patch'', rq_kind = Some ''configPatch''\<rparr>"

definition demo_patched :: config_store where
  "demo_patched = demo_store\<lparr>co_db := \<lparr>cd_snapshots = [(1, demo_row S_PREPARED)], cd_requests = [(''m'', demo_receipt R_PREPARED)],
     cd_active = None, cd_previous = None\<rparr>, co_ops := 2\<rparr>"

definition demo_active :: config_store where
  "demo_active = demo_store\<lparr>co_db := \<lparr>cd_snapshots = [(1, demo_row S_COMMITTED)], cd_requests = [(''m'', demo_receipt R_APPLIED)],
     cd_active = Some 1, cd_previous = None\<rparr>, co_ops := 3\<rparr>"

lemmas store_defs = with_transaction_def prepare_snapshot_def refusal_def accepted_def other_prepared_def over_limits_def new_token_def
  write_candidate_def write_receipt_def token_taken_def active_version_def load_active_def replay_def content_hash_def empty_config_def Let_def

lemma demo_fields: "cs_config_version demo_snapshot = 1" "cs_wire_json demo_snapshot = ''set''" "cs_content_json demo_snapshot = ''c''"
  "cs_message_id demo_snapshot = ''m''" "cv_sha256 demo_contract x = x"
  by (simp_all add: demo_snapshot_def demo_contract_def)

lemma demo_patch_run: "snd (prepare_patch demo_store_env ''patch'' demo_store) = demo_patched"
  using demo_parse_command demo_materialize
  by (simp add: prepare_patch_def patch_body_def store_defs demo_store_def demo_store_env_def demo_patched_def demo_row_def demo_receipt_def
      get_str_def get_int_def demo_command_def dindex_def normalize_num_def demo_fields)

lemma demo_commit_run: "commit demo_store_env ''t1'' demo_patched = (Inr demo_snapshot, demo_active)"
  using demo_parse
  by (simp add: commit_def commit_body_def candidate_def decode_row_def set_requests_def store_defs demo_store_def demo_store_env_def
      demo_patched_def demo_active_def demo_row_def demo_receipt_def demo_fields)

lemma demo_set_run:
  "\<exists>t. prepare_config demo_store_env ''set'' demo_store
     = (Inr \<lparr>pr_status = P_PREPARED, pr_active_config_version = 0, pr_token = Some ''t1'', pr_code = None, pr_issues = [],
             pr_snapshot = None, pr_applied_config_version = None\<rparr>, t)"
  using demo_parse
  by (simp add: prepare_config_def store_defs demo_store_def demo_store_env_def demo_fields)

lemma demo_store_reachable:
  "(config_step demo_contract)\<^sup>*\<^sup>* demo_store demo_patched" "(config_step demo_contract)\<^sup>*\<^sup>* demo_store demo_active"
proof -
  have "config_step demo_contract demo_store demo_patched"
    using cs_patch [of demo_store_env demo_contract demo_store "''patch''"] by (simp add: demo_patch_run) (simp add: demo_store_env_def)
  moreover have "config_step demo_contract demo_patched demo_active"
    using cs_commit [of demo_store_env demo_contract demo_patched "''t1''"] by (simp add: demo_commit_run) (simp add: demo_store_env_def)
  ultimately show "(config_step demo_contract)\<^sup>*\<^sup>* demo_store demo_patched" "(config_step demo_contract)\<^sup>*\<^sup>* demo_store demo_active"
    by auto
qed

section \<open>Properties\<close>

text \<open>C14. In every state the configuration store reaches, through any calls, failed transactions and restarts: the
  active version names a committed row that still validates and hashes to its recorded value; at most one row is
  PREPARED and it is newer than the active version; a receipt says APPLIED only for a committed version that is
  not newer than the active one; every stored row decodes; and the three quotas hold.\<close>

theorem config_store_consistent:
  assumes "config_init C s0" "(config_step C)\<^sup>*\<^sup>* s0 st"
  shows "(\<forall>v. cd_active (co_db st) = Some v \<longrightarrow>
         (\<exists>row s. dget (cd_snapshots (co_db st)) v = Some row \<and> sv_state row = S_COMMITTED \<and> decodes C (co_gateway st) v row s))
    \<and> (\<forall>v row. dget (cd_snapshots (co_db st)) v = Some row \<longrightarrow> (\<exists>s. decodes C (co_gateway st) v row s))
    \<and> (\<forall>v row. dget (cd_snapshots (co_db st)) v = Some row \<and> sv_state row = S_PREPARED \<longrightarrow> active_version (co_db st) < v
         \<and> (\<forall>w q. dget (cd_snapshots (co_db st)) w = Some q \<and> sv_state q = S_PREPARED \<longrightarrow> w = v))
    \<and> (\<forall>mid r. dget (cd_requests (co_db st)) mid = Some r \<and> rq_status r = R_APPLIED \<longrightarrow>
         rq_version r \<le> active_version (co_db st) \<and> (\<exists>row. (rq_version r, row) \<in> committed_rows (co_db st)))
    \<and> length (cd_snapshots (co_db st)) \<le> co_max_snapshots st \<and> length (cd_requests (co_db st)) \<le> co_max_requests st
    \<and> payload_bytes (co_db st) \<le> co_max_bytes st"
proof -
  let ?d = "co_db st"
  from config_store.reachable_inv [OF assms(1,2)] have ok: "db_ok C (co_gateway st) ?d" and lim: "limits_ok st ?d"
    by (auto simp: store_ok_def)
  note ok' = db_okD [OF ok]
  have "\<exists>row s. dget (cd_snapshots ?d) v = Some row \<and> sv_state row = S_COMMITTED \<and> decodes C (co_gateway st) v row s" if "cd_active ?d = Some v" for v
    using ok'(5) [OF that] ok'(4) by (fastforce simp: row_ok_def)
  moreover have "rq_version r \<le> active_version ?d \<and> (\<exists>row. (rq_version r, row) \<in> committed_rows ?d)"
    if "dget (cd_requests ?d) mid = Some r" "rq_status r = R_APPLIED" for mid r
    using ok'(6) [OF that(1)] that(2) ok'(4) by (fastforce simp: receipt_ok_def row_ok_def committed_rows_def)
  moreover have "w = v" if "dget (cd_snapshots ?d) v = Some r" "dget (cd_snapshots ?d) w = Some q" "sv_state r = S_PREPARED" "sv_state q = S_PREPARED" for v w r q
    using ok'(3) that unfolding unique_rows_def by blast
  ultimately show ?thesis using ok'(4) lim by (auto simp: row_ok_def limits_ok_def)
qed

theorem config_store_consistent_witness:
  "cd_active (co_db demo_active) = Some 1 \<and> (\<exists>row s. dget (cd_snapshots (co_db demo_active)) 1 = Some row
     \<and> sv_state row = S_COMMITTED \<and> decodes demo_contract (co_gateway demo_active) 1 row s)"
  using config_store_consistent [OF demo_store_init demo_store_reachable(2)] by (auto simp: demo_active_def)

text \<open>C32. The active configuration version never decreases, over any calls, failed transactions and restarts, and a
  committed configuration is never altered or lost.\<close>

theorem config_history_monotone:
  assumes "config_init C s0" "(config_step C)\<^sup>*\<^sup>* s0 st" "(config_step C)\<^sup>*\<^sup>* st t"
  shows "active_version (co_db st) \<le> active_version (co_db t) \<and> committed_rows (co_db st) \<subseteq> committed_rows (co_db t)"
  using config_store.gauge_steps [OF assms(3)] committed.gauge_steps [OF assms(3)] config_store.reachable_inv [OF assms(1,2)] by blast

theorem config_history_monotone_witness:
  "active_version (co_db demo_store) \<le> active_version (co_db demo_active) \<and> committed_rows (co_db demo_store) \<subseteq> committed_rows (co_db demo_active)"
  by (rule config_history_monotone [OF demo_store_init rtranclp.rtrancl_refl demo_store_reachable(2)])

text \<open>C15. A configuration that was prepared and then committed with its token is what the next opening of the file
  loads: the commit succeeds when its transaction does and makes that version active, the committed snapshot has the
  version and the canonical content of the message that was prepared (it is that very snapshot unless an earlier message
  had already stored the version), and the reopened store loads it as its active configuration.\<close>

theorem prepared_commit_roundtrip:
  assumes reach: "config_init C s0" "(config_step C)\<^sup>*\<^sup>* s0 st"
    and envs: "xe_contract env = C" "xe_contract env' = C" "xe_commit env' (co_ops t)" "xe_contract env'' = C" "xe_commit env'' 0"
    and parse: "parse_config C payload (co_gateway st) = Inr (Inr s)"
    and run: "prepare_config env payload st = (Inr r, t)" "pr_status r = P_PREPARED" "pr_token r = Some tok" "tok \<noteq> []"
  shows "\<exists>s' u w. commit env' tok t = (Inr s', u) \<and> active_version (co_db u) = cs_config_version s
    \<and> cs_config_version s' = cs_config_version s \<and> cs_content_json s' = cs_content_json s
    \<and> (dget (cd_snapshots (co_db st)) (cs_config_version s) = None \<longrightarrow> s' = s)
    \<and> reopen env'' u = Inr w \<and> load_active env'' (co_gateway st) (co_db w) = Inr (Some s')"
proof -
  have ok: "store_ok C st" by (rule config_store.reachable_inv [OF reach])
  have adv: "store_ok C t" "co_gateway t = co_gateway st"
    using prepare_config_advances [of env st payload] ok envs(1) run(1) by (auto simp: advances_def)
  obtain row s' where row: "dget (cd_snapshots (co_db t)) (cs_config_version s) = Some row" "sv_state row = S_PREPARED" "sv_token row = Some tok"
      "decodes C (co_gateway t) (cs_config_version s) row s'"
    and s': "cs_content_json s' = cs_content_json s" "dget (cd_snapshots (co_db st)) (cs_config_version s) = None \<longrightarrow> s' = s"
    using prepared_row [of env st payload s r t] ok envs(1) parse run adv(2) by auto
  obtain u where u: "commit env' tok t = (Inr s', u)" "store_ok C u" "co_gateway u = co_gateway t" "active_version (co_db u) = cs_config_version s"
      "(cs_config_version s, row\<lparr>sv_state := S_COMMITTED\<rparr>) \<in> committed_rows (co_db u)"
    using commit_prepared [of env' t "cs_config_version s" row tok s'] adv(1) row run(4) envs by auto
  have w: "reopen env'' u = Inr (u\<lparr>co_db := interrupt (co_db u), co_ops := 1\<rparr>)" using reopen_result [of env'' u] u(2) envs by simp
  have "0 < cs_config_version s" using adv(1) row(1) by (auto simp: store_ok_def dest!: db_okD(4) simp: row_ok_def)
  then have "load_active env'' (co_gateway st) (interrupt (co_db u)) = Inr (Some s')"
    using u row(4) adv(2) envs by (intro load_committed [of _ "cs_config_version s" "row\<lparr>sv_state := S_COMMITTED\<rparr>"]) auto
  with u w s' row(4) show ?thesis by (auto simp: decodes_def)
qed

theorem prepared_commit_roundtrip_witness:
  "\<exists>r t u w. prepare_config demo_store_env ''set'' demo_store = (Inr r, t) \<and> commit demo_store_env ''t1'' t = (Inr demo_snapshot, u)
     \<and> reopen demo_store_env u = Inr w \<and> load_active demo_store_env ''g'' (co_db w) = Inr (Some demo_snapshot)"
proof -
  obtain t where t: "prepare_config demo_store_env ''set'' demo_store
     = (Inr \<lparr>pr_status = P_PREPARED, pr_active_config_version = 0, pr_token = Some ''t1'', pr_code = None, pr_issues = [],
             pr_snapshot = None, pr_applied_config_version = None\<rparr>, t)"
    using demo_set_run by blast
  have g: "co_gateway demo_store = ''g''" "xe_contract demo_store_env = demo_contract" "xe_commit demo_store_env n"
    "dget (cd_snapshots (co_db demo_store)) v = None" for n v
    by (simp_all add: demo_store_def demo_store_env_def empty_config_def)
  show ?thesis
    using prepared_commit_roundtrip [OF demo_store_init rtranclp.rtrancl_refl g(2,2,3,2,3) _ t, where s = demo_snapshot and tok = "''t1''"]
      demo_parse t g by auto
qed

text \<open>A device command whose receipt is on record never stops the store with an inconsistent-receipt error: with a
  codec that decodes what it encoded, the check for exact replay always answers, with a conflict for another command
  under the same message id, with the version it was applied as for the same bytes once applied (whatever was committed
  since), and with nothing while it is not applied.\<close>

theorem applied_replay_exact:
  assumes "config_init C s0" "(config_step C)\<^sup>*\<^sup>* s0 st" "codec_ok C" "xe_contract env = C"
  shows "replay env st mid version digest (co_db st) = Inr
    (case dget (cd_requests (co_db st)) mid of
       None \<Rightarrow> None
     | Some r \<Rightarrow>
         if rq_version r = version \<and> rq_kind r = Some ''configPatch'' \<and> rq_digest r = Some digest
         then if rq_status r = R_APPLIED
              then Some \<lparr>pr_status = P_APPLIED, pr_active_config_version = active_version (co_db st), pr_token = None, pr_code = None,
                         pr_issues = [], pr_snapshot = None, pr_applied_config_version = Some version\<rparr>
              else None
         else Some (reject (active_version (co_db st)) ''MESSAGE_ID_CONFLICT''))"
proof (cases "dget (cd_requests (co_db st)) mid")
  case (Some r)
  from config_store.reachable_inv [OF assms(1,2)] have db: "db_ok C (co_gateway st) (co_db st)" by (simp add: store_ok_def)
  show ?thesis
  proof (cases "rq_version r = version \<and> rq_kind r = Some ''configPatch'' \<and> rq_digest r = Some digest \<and> rq_status r = R_APPLIED")
    case True
    with db_okD(6) [OF db Some] assms(3) obtain row s where row: "dget (cd_snapshots (co_db st)) (rq_version r) = Some row"
        "sv_state row = S_COMMITTED" "decodes C (co_gateway st) (rq_version r) row s" "cs_message_id s = mid"
      by (auto simp: receipt_ok_def)
    moreover have "decode_row env (co_gateway st) (rq_version r) row = Inr s" using row(3) assms(4) by (simp add: decode_row_iff)
    moreover have "rq_version r \<le> active_version (co_db st)" using db_okD(4) [OF db row(1)] row(2) by (simp add: row_ok_def)
    ultimately show ?thesis using Some True by (simp add: replay_def)
  next
    case False
    with Some show ?thesis by (auto simp: replay_def)
  qed
qed (simp add: replay_def)

theorem applied_replay_exact_witness:
  "\<exists>r. replay demo_store_env demo_active ''m'' 1 ''patch'' (co_db demo_active) = Inr (Some r) \<and> pr_status r = P_APPLIED"
proof -
  have "xe_contract demo_store_env = demo_contract" by (simp add: demo_store_env_def)
  from applied_replay_exact [OF demo_store_init demo_store_reachable(2) demo_codec this, of "''m''" 1 "''patch''"]
  show ?thesis by (simp add: demo_active_def demo_receipt_def)
qed

end
