(* ===== verification/LifecycleInv.thy ===== *)
theory LifecycleInv
  imports Lifecycle ConfigStoreInv
begin

text \<open>
  Correctness of the coordinator: what it announces is what is stored and what runs. Between requests the
  active configuration of the agent is the one the store would load after a restart and the one the runtime has
  published; a request that is not applied leaves all three as they were; every accepted request is answered once.
\<close>

section \<open>The runtime between transitions\<close>

lemma keeps_sfold: "(\<And>x. keeps P (f x)) \<Longrightarrow> keeps P (sfold f xs)"
proof (induction xs)
  case (Cons x xs)
  then have "keeps P (sbind (f x) (\<lambda>_. sfold f xs))" by (intro keeps_sbind) auto
  then show ?case by (simp add: keeps_def)
qed (simp add: keeps_def)

text \<open>What is public of the runtime stays while a transition to \<open>s\<close> is pending.\<close>

definition in_transition :: "ConfigSnapshot option \<Rightarrow> (string, nat) dict \<Rightarrow> ConfigSnapshot \<Rightarrow> runtime \<Rightarrow> bool" where
  "in_transition old runners s rt \<longleftrightarrow> rt_snapshot rt = old \<and> rt_runners rt = runners
     \<and> (\<exists>t. rt_pending rt = Some t \<and> tn_snapshot t = s)"

lemma keeps_call [intro!]: "keeps (in_transition old runners s) (call_runner env b r)"
  by (simp add: keeps_def in_transition_def call_runner_def Let_def)

lemma keeps_upd [intro!]: "(\<And>t. tn_snapshot (f t) = tn_snapshot t) \<Longrightarrow> keeps (in_transition old runners s) (upd_transition f)"
  by (auto simp: keeps_def in_transition_def upd_transition_def)

lemma keeps_activate: "keeps (in_transition old runners s) (activate env)"
proof (rule keepsI)
  fix rt assume p: "in_transition old runners s rt"
  then obtain t where t: "rt_pending rt = Some t" by (auto simp: in_transition_def)
  have "keeps (in_transition old runners s)
     (sbind (sfold (stop_replaced env (tn_proposed t)) (tn_old t)) (\<lambda>_.
      sbind (sfold (start_new env (tn_old t)) (tn_proposed t)) (\<lambda>_. upd_transition (\<lambda>t. t\<lparr>tn_activated := True\<rparr>))))"
    unfolding stop_replaced_def start_new_def by (intro keeps_sbind keeps_sfold keeps_if keeps_sret keeps_upd keeps_call) simp_all
  from keepsD [OF this p] show "in_transition old runners s (snd (activate env rt))" by (simp add: activate_def t)
qed

lemma activate_ready:
  assumes "activate env rt = (Inr u, rt')" "in_transition old runners s rt"
  shows "in_transition old runners s rt' \<and> (\<exists>t. rt_pending rt' = Some t \<and> tn_activated t)"
proof -
  have k: "in_transition old runners s rt'" using keepsD [OF keeps_activate assms(2), of env] assms(1) by simp
  from assms(1) obtain rt1 t where "rt' = rt1\<lparr>rt_pending := map_option (\<lambda>t. t\<lparr>tn_activated := True\<rparr>) (rt_pending rt1)\<rparr>"
    by (auto simp: activate_def upd_transition_def sbind_Inr_iff split: option.split_asm)
  with k show ?thesis by (auto simp: in_transition_def)
qed

lemma rollback_done:
  assumes "rollback env rt = (Inr u, rt')" "in_transition old runners s rt"
  shows "rt_snapshot rt' = old \<and> rt_runners rt' = runners \<and> rt_pending rt' = None"
proof -
  from assms(2) obtain t where t: "rt_pending rt = Some t" by (auto simp: in_transition_def)
  let ?stop = "sbind (sfold (call_runner env False) (rev (tn_started t)))
      (\<lambda>_. sfold (\<lambda>r. sbind (call_runner env False r) (\<lambda>_. call_runner env True r)) (tn_stopped t))"
  have "keeps (in_transition old runners s) ?stop" by (intro keeps_sbind keeps_sfold keeps_call)
  from keepsD [OF this assms(2)] have k: "in_transition old runners s (snd (?stop rt))" .
  obtain rt1 where "?stop rt = (Inr (), rt1)" and "rt_snapshot rt' = rt_snapshot rt1" "rt_runners rt' = rt_runners rt1" "rt_pending rt' = None"
    using assms(1) t by (auto simp: rollback_def sbind_Inr_iff)
  with k show ?thesis by (simp add: in_transition_def)
qed

lemma publish_done:
  assumes "publish env rt = (Inr u, rt')" "in_transition old runners s rt"
  shows "rt_snapshot rt' = Some s \<and> rt_pending rt' = None"
  using assms by (auto simp: publish_def in_transition_def Let_def split: option.split_asm if_split_asm)

lemma publish_succeeds:
  "in_transition old runners s rt \<Longrightarrow> \<exists>t. rt_pending rt = Some t \<and> tn_activated t \<Longrightarrow> \<exists>rt'. publish env rt = (Inr (), rt')"
  by (auto simp: publish_def Let_def)

lemma prepare_runtime_done:
  assumes "prepare_runtime env s rt = (r, rt')"
  shows "rt_snapshot rt' = rt_snapshot rt \<and> rt_runners rt' = rt_runners rt
    \<and> (case r of Inl _ \<Rightarrow> rt_pending rt' = rt_pending rt | Inr _ \<Rightarrow> in_transition (rt_snapshot rt) (rt_runners rt) s rt')"
  using assms by (auto simp: prepare_runtime_def in_transition_def split: if_split_asm sum.split_asm)

section \<open>The agreement of agent, store and runtime\<close>

definition stored :: "contract_env \<Rightarrow> config_store \<Rightarrow> ConfigSnapshot \<Rightarrow> bool" where
  "stored C st s \<longleftrightarrow> (\<exists>row. (cs_config_version s, row) \<in> committed_rows (co_db st) \<and> decodes C (co_gateway st) (cs_config_version s) row s)"

definition same_content :: "ConfigSnapshot \<Rightarrow> ConfigSnapshot \<Rightarrow> bool" where
  "same_content s t \<longleftrightarrow> cs_config_version s = cs_config_version t \<and> cs_content_json s = cs_content_json t"

definition valid_snapshot :: "contract_env \<Rightarrow> string \<Rightarrow> ConfigSnapshot \<Rightarrow> bool" where
  "valid_snapshot C gateway s \<longleftrightarrow> (\<exists>payload. parse_config C payload gateway = Inr (Inr s))"

definition synced :: "contract_env \<Rightarrow> agent \<Rightarrow> bool" where
  "synced C a \<longleftrightarrow> rt_pending (ag_runtime a) = None \<and> ag_durable a = Some (active_version (co_db (ag_store a)))
     \<and> (case ag_active a of
          None \<Rightarrow> active_version (co_db (ag_store a)) = 0 \<and> rt_snapshot (ag_runtime a) = None
        | Some s \<Rightarrow> cs_config_version s = active_version (co_db (ag_store a)) \<and> 0 < cs_config_version s \<and> stored C (ag_store a) s
            \<and> (\<exists>p. rt_snapshot (ag_runtime a) = Some p \<and> same_content p s \<and> valid_snapshot C (co_gateway (ag_store a)) p))"

definition env_ok :: "contract_env \<Rightarrow> agent_env \<Rightarrow> bool" where
  "env_ok C env \<longleftrightarrow> (\<forall>n. xe_contract (ge_store env n) = C)"

lemma stored_advances: "stored C st s \<Longrightarrow> advances C st st' \<Longrightarrow> stored C st' s"
  by (auto simp: stored_def advances_def)

lemma load_stored:
  assumes "load_active env gw d = Inr r" "xe_contract env = C"
  shows "case r of None \<Rightarrow> active_version d = 0
    | Some s \<Rightarrow> cs_config_version s = active_version d \<and> 0 < active_version d
        \<and> (\<exists>row. (active_version d, row) \<in> committed_rows d \<and> decodes C gw (active_version d) row s)"
  using assms by (auto simp: load_active_def committed_rows_def rbind_Inr_iff decode_row_iff decodes_def split: if_split_asm option.split_asm)

section \<open>Jobs of the storage worker\<close>

text \<open>An operation of the store as the worker calls it: it keeps the store correct.\<close>

definition store_op :: "contract_env \<Rightarrow> (store_env \<Rightarrow> ('a, config_store) prog) \<Rightarrow> bool" where
  "store_op C m \<longleftrightarrow> (\<forall>e st. xe_contract e = C \<longrightarrow> store_ok C st \<longrightarrow> advances C st (snd (m e st)))"

lemma store_ops:
  "store_op C (prepare_call kind payload)" "store_op C (\<lambda>e. commit e tok)" "store_op C (\<lambda>e. fail e tok)"
  "store_op C load_call" "store_op C (parse_call payload)"
  using prepare_config_advances prepare_patch_advances commit_advances fail_advances
  by (auto simp: store_op_def prepare_call_def load_call_def parse_call_def advances_self split: sum.split)

lemma store_call_result:
  assumes "store_op C m" "env_ok C env" "store_ok C (ag_store a)" "store_call env m a = (r, b)"
  shows "\<exists>n st. b = a\<lparr>ag_jobs := n, ag_store := st\<rparr> \<and> advances C (ag_store a) st
    \<and> (\<forall>x. r = Inr x \<longrightarrow> m (ge_store env (ag_jobs a)) (ag_store a) = (Inr x, st))
    \<and> (\<forall>e. r = Inl e \<longrightarrow> e = WorkerFull \<and> st = ag_store a \<or> e = RuntimeError ''result lost'' \<or> m (ge_store env (ag_jobs a)) (ag_store a) = (Inl e, st))"
proof -
  obtain x st where run: "m (ge_store env (ag_jobs a)) (ag_store a) = (x, st)" by (cases "m (ge_store env (ag_jobs a)) (ag_store a)")
  have "advances C (ag_store a) st" using assms(1-3) run unfolding store_op_def env_ok_def by (metis snd_conv)
  moreover have "advances C (ag_store a) (ag_store a)" using assms(3) by (rule advances_self(1))
  ultimately show ?thesis
  proof (cases "ge_job env (ag_jobs a)")
    case Refused
    with \<open>advances C (ag_store a) (ag_store a)\<close> assms(4) show ?thesis
      by (intro exI [of _ "ag_jobs a + 1"] exI [of _ "ag_store a"]) (auto simp: store_call_def Let_def)
  qed (use assms(4) run in \<open>auto simp: store_call_def Let_def\<close>)
qed

section \<open>The outcome of a request\<close>

definition same_queue :: "agent \<Rightarrow> agent \<Rightarrow> bool" where
  "same_queue a b \<longleftrightarrow> ag_queue b = ag_queue a \<and> ag_replies b = ag_replies a \<and> ag_next b = ag_next a \<and> ag_closing b = ag_closing a
     \<and> ag_capacity b = ag_capacity a"

definition unchanged :: "agent \<Rightarrow> agent \<Rightarrow> bool" where
  "unchanged a b \<longleftrightarrow> active_version (co_db (ag_store b)) = active_version (co_db (ag_store a)) \<and> ag_active b = ag_active a
     \<and> rt_snapshot (ag_runtime b) = rt_snapshot (ag_runtime a) \<and> rt_runners (ag_runtime b) = rt_runners (ag_runtime a)"

definition outcome_ok :: "contract_env \<Rightarrow> agent \<Rightarrow> ApplyResult \<Rightarrow> agent \<Rightarrow> bool" where
  "outcome_ok C a r b \<longleftrightarrow> advances C (ag_store a) (ag_store b) \<and> same_queue a b
     \<and> (ar_status r = X_APPLIED \<longrightarrow> ag_state b \<noteq> A_FAILED)
     \<and> (ag_state b \<noteq> A_FAILED \<longrightarrow> synced C b \<and> ag_state b = ag_state (steady b) \<and> (ar_status r \<noteq> X_APPLIED \<longrightarrow> unchanged a b))"

definition middle :: "contract_env \<Rightarrow> agent \<Rightarrow> ConfigSnapshot \<Rightarrow> agent \<Rightarrow> bool" where
  "middle C a s b \<longleftrightarrow> same_queue a b \<and> ag_active b = ag_active a \<and> ag_durable b = ag_durable a \<and> advances C (ag_store a) (ag_store b)
     \<and> ag_state b \<noteq> A_FAILED \<and> in_transition (rt_snapshot (ag_runtime a)) (rt_runners (ag_runtime a)) s (ag_runtime b)
     \<and> valid_snapshot C (co_gateway (ag_store a)) s"

text \<open>Before and after a transition: nothing public has changed.\<close>

definition rested :: "contract_env \<Rightarrow> agent \<Rightarrow> agent \<Rightarrow> bool" where
  "rested C a b \<longleftrightarrow> same_queue a b \<and> ag_active b = ag_active a \<and> ag_durable b = ag_durable a \<and> advances C (ag_store a) (ag_store b)
     \<and> ag_state b \<noteq> A_FAILED \<and> active_version (co_db (ag_store b)) = active_version (co_db (ag_store a))
     \<and> rt_snapshot (ag_runtime b) = rt_snapshot (ag_runtime a) \<and> rt_runners (ag_runtime b) = rt_runners (ag_runtime a) \<and> rt_pending (ag_runtime b) = None"

lemma advances_trans: "advances C st u \<Longrightarrow> advances C u v \<Longrightarrow> advances C st v"
  unfolding advances_def by auto

lemma advances_ok: "advances C st u \<Longrightarrow> store_ok C u"
  by (simp add: advances_def)

lemma advances_gateway: "advances C st u \<Longrightarrow> co_gateway u = co_gateway st"
  by (simp add: advances_def)

lemma rested_synced: "rested C a b \<Longrightarrow> synced C a \<Longrightarrow> synced C b"
  by (auto simp: rested_def synced_def advances_gateway intro: stored_advances split: option.split_asm option.split)

lemma steady_fields [simp]:
  "ag_store (steady a) = ag_store a" "ag_runtime (steady a) = ag_runtime a" "ag_active (steady a) = ag_active a"
  "ag_durable (steady a) = ag_durable a" "same_queue x (steady a) = same_queue x a" "steady (steady a) = steady a"
  "synced C (steady a) = synced C a" "ag_state (steady a) = A_FAILED \<longleftrightarrow> ag_state a = A_FAILED"
  by (auto simp: steady_def same_queue_def synced_def split: option.split)

lemma steady_rested:
  assumes "rested C a b" "synced C a" "status \<noteq> X_APPLIED" "steady_result status code issues ap b = (x, c)"
  shows "\<exists>r. x = Inr r \<and> outcome_ok C a r c"
  using assms rested_synced [OF assms(1,2)]
  by (auto simp: steady_result_def Let_def outcome_ok_def result_def rested_def unchanged_def)

lemma fatal_fields:
  "ag_state (fatal env code a) = A_FAILED" "ag_store (fatal env code a) = ag_store a" "same_queue x (fatal env code a) = same_queue x a"
  by (auto simp: fatal_def on_runtime_def same_queue_def Let_def split: prod.split sum.split)

lemma fatal_outcome:
  assumes "advances C (ag_store a) (ag_store b)" "same_queue a b" "fatal_result env error code b = (x, c)"
  shows "\<exists>r. x = Inr r \<and> outcome_ok C a r c"
  using assms by (auto simp: fatal_result_def Let_def outcome_ok_def result_def fatal_fields)

lemma fail_active:
  "active_version (co_db (snd (fail env tok st))) = active_version (co_db st)"
  unfolding fail_def with_transaction_def
  by (auto simp: settled_active dest!: fail_body_cases split: sum.split) (simp_all add: active_version_def)

text \<open>Marking a candidate as failed leaves the active version alone, however the job ends.\<close>

lemma fail_call:
  assumes "store_call env (\<lambda>e. fail e tok) a = (x, b)"
  shows "active_version (co_db (ag_store b)) = active_version (co_db (ag_store a))"
  using assms by (auto simp: store_call_def Let_def split: job.split_asm prod.split_asm) (metis fail_active snd_conv)+

lemma restore_outcome:
  assumes env: "env_ok C env" and a: "synced C a" and m: "middle C a s b"
    and same: "active_version (co_db (ag_store b)) = active_version (co_db (ag_store a))" and run: "restore env tok code b = (x, c)"
  shows "\<exists>r. x = Inr r \<and> outcome_ok C a r c"
proof -
  obtain y rt where rb: "rollback (ge_runtime env) (ag_runtime b) = (y, rt)" by (cases "rollback (ge_runtime env) (ag_runtime b)")
  let ?b = "b\<lparr>ag_runtime := rt\<rparr>"
  obtain z d where f: "store_call env (\<lambda>e. fail e tok) ?b = (z, d)" by (cases "store_call env (\<lambda>e. fail e tok) ?b")
  have ok: "store_ok C (ag_store ?b)" using m by (auto simp: middle_def dest: advances_ok)
  from store_call_result [OF store_ops(3) env ok f] obtain n st where d: "d = ?b\<lparr>ag_jobs := n, ag_store := st\<rparr>" and adv: "advances C (ag_store b) st" by auto
  have frame: "advances C (ag_store a) (ag_store d)" "same_queue a d"
    using m adv advances_trans by (auto simp: middle_def d same_queue_def)
  show ?thesis
  proof (cases "\<exists>u. y = Inr () \<and> z = Inr u")
    case True
    with rb have "rollback (ge_runtime env) (ag_runtime b) = (Inr (), rt)" by auto
    from rollback_done [OF this] m have "rt_snapshot rt = rt_snapshot (ag_runtime a) \<and> rt_runners rt = rt_runners (ag_runtime a) \<and> rt_pending rt = None"
      by (auto simp: middle_def)
    with fail_call [OF f] have "rested C a d" unfolding rested_def using frame m same by (simp add: d middle_def)
    moreover from True run rb f have "steady_result X_FAILED (Some code) [] None d = (x, c)" by (auto simp: restore_def on_runtime_def)
    ultimately show ?thesis using steady_rested [OF _ a, of d X_FAILED] by blast
  next
    case False
    with run rb f obtain e1 e2 where "fatal_result env e1 e2 d = (x, c)"
      by (auto simp: restore_def on_runtime_def split: sum.split_asm)
    from fatal_outcome [OF frame this] show ?thesis .
  qed
qed

lemma committed_outcome:
  assumes m: "middle C a s b" and ready: "\<exists>t. rt_pending (ag_runtime b) = Some t \<and> tn_activated t"
    and c: "cs_config_version c = active_version (co_db (ag_store b))" "0 < cs_config_version c" "stored C (ag_store b) c" "same_content s c"
    and run: "committed_result env kind c b = (x, d)"
  shows "\<exists>r. x = Inr r \<and> outcome_ok C a r d \<and> ar_status r = X_APPLIED \<and> ag_active d = Some c"
proof -
  from m have t: "in_transition (rt_snapshot (ag_runtime a)) (rt_runners (ag_runtime a)) s (ag_runtime b)" by (simp add: middle_def)
  from publish_succeeds [OF t ready] obtain rt where p: "publish (ge_runtime env) (ag_runtime b) = (Inr (), rt)" by blast
  note fin = publish_done [OF p t]
  let ?b = "b\<lparr>ag_durable := Some (cs_config_version c), ag_runtime := rt, ag_active := Some c\<rparr>"
  have d: "x = Inr (result X_APPLIED None [] (if kind = ''configPatch'' then Some (cs_config_version c) else None) (steady ?b))" "d = steady ?b"
    using run p by (auto simp: committed_result_def on_runtime_def steady_result_def Let_def)
  have "synced C ?b" using c fin m by (auto simp: synced_def middle_def advances_gateway)
  moreover have "same_queue a ?b" using m by (simp add: middle_def same_queue_def)
  ultimately show ?thesis using m by (simp add: d outcome_ok_def result_def middle_def)
qed

text \<open>The store holds the candidate \<open>s\<close> under the token, with its content.\<close>

definition pledged :: "contract_env \<Rightarrow> config_store \<Rightarrow> string \<Rightarrow> ConfigSnapshot \<Rightarrow> bool" where
  "pledged C st tok s \<longleftrightarrow> (\<exists>row s'. dget (cd_snapshots (co_db st)) (cs_config_version s) = Some row \<and> sv_state row = S_PREPARED
     \<and> sv_token row = Some tok \<and> decodes C (co_gateway st) (cs_config_version s) row s' \<and> cs_content_json s' = cs_content_json s)"

lemma commit_pledged:
  assumes ok: "store_ok C st" and env: "xe_contract env = C" and p: "pledged C st tok s" and run: "commit env tok st = (Inr c, st')"
  shows "cs_config_version c = active_version (co_db st') \<and> 0 < cs_config_version c \<and> stored C st' c \<and> same_content s c"
proof -
  from p obtain row s' where row: "dget (cd_snapshots (co_db st)) (cs_config_version s) = Some row" "sv_state row = S_PREPARED"
      "sv_token row = Some tok" and dec: "decodes C (co_gateway st) (cs_config_version s) row s'" "cs_content_json s' = cs_content_json s"
    by (auto simp: pledged_def)
  from run obtain d' where b: "commit_body env (co_gateway st) tok (co_ops st) (co_db st) = Inr (c, d')" and c: "xe_commit env (co_ops st)"
    by (auto simp: commit_def with_transaction_def split: sum.split_asm if_split_asm)
  from b have "tok \<noteq> []" by (auto simp: commit_body_def candidate_def)
  with commit_prepared [of env st _ row tok s'] ok row dec c env obtain u where
    "commit env tok st = (Inr s', u)" "co_gateway u = co_gateway st" "active_version (co_db u) = cs_config_version s"
    "(cs_config_version s, row\<lparr>sv_state := S_COMMITTED\<rparr>) \<in> committed_rows (co_db u)" by blast
  moreover have "0 < cs_config_version s" using ok row(1) by (auto simp: store_ok_def dest!: db_okD(4) simp: row_ok_def)
  moreover have "cs_config_version s' = cs_config_version s" using dec(1) by (simp add: decodes_def)
  ultimately show ?thesis using run dec by (auto simp: stored_def same_content_def)
qed

lemma middle_store:
  "middle C a s b \<Longrightarrow> advances C (ag_store b) st \<Longrightarrow> middle C a s (b\<lparr>ag_jobs := n, ag_store := st\<rparr>)"
  unfolding middle_def same_queue_def using advances_trans by auto

lemma middle_ok: "middle C a s b \<Longrightarrow> store_ok C (ag_store b)"
  by (auto simp: middle_def dest: advances_ok)

definition applied_ok :: "contract_env \<Rightarrow> agent \<Rightarrow> ConfigSnapshot \<Rightarrow> ApplyResult \<Rightarrow> agent \<Rightarrow> bool" where
  "applied_ok C a s r b \<longleftrightarrow> outcome_ok C a r b \<and> (ar_status r = X_APPLIED \<longrightarrow> (\<exists>c. ag_active b = Some c \<and> same_content s c))"

lemma restore_status: "restore env tok code b = (Inr r, c) \<Longrightarrow> ar_status r = X_FAILED"
  by (auto simp: restore_def fatal_result_def steady_result_def result_def Let_def split: prod.split_asm sum.split_asm)

lemma restore_applied:
  assumes "env_ok C env" "synced C a" "middle C a s b" "active_version (co_db (ag_store b)) = active_version (co_db (ag_store a))"
    "restore env tok code b = (x, c)"
  shows "\<exists>r. x = Inr r \<and> applied_ok C a s r c"
  using restore_outcome [OF assms] restore_status assms(5) by (fastforce simp: applied_ok_def)

lemma committed_applied:
  assumes "middle C a s b" "\<exists>t. rt_pending (ag_runtime b) = Some t \<and> tn_activated t"
    "cs_config_version c = active_version (co_db (ag_store b))" "0 < cs_config_version c" "stored C (ag_store b) c" "same_content s c"
    "committed_result env kind c b = (x, d)"
  shows "\<exists>r. x = Inr r \<and> applied_ok C a s r d"
  using committed_outcome [OF assms] assms(6) by (auto simp: applied_ok_def)

lemma fatal_applied:
  assumes "middle C a s b" "fatal_result env error code (b\<lparr>ag_durable := v\<rparr>) = (x, c)"
  shows "\<exists>r. x = Inr r \<and> applied_ok C a s r c"
proof -
  have "same_queue a (b\<lparr>ag_durable := v\<rparr>)" "advances C (ag_store a) (ag_store (b\<lparr>ag_durable := v\<rparr>))"
    using assms(1) by (simp_all add: middle_def same_queue_def)
  from fatal_outcome [OF this(2,1) assms(2)] assms(2) show ?thesis
    by (auto simp: applied_ok_def fatal_result_def result_def Let_def)
qed

lemma uncertain_applied:
  assumes env: "env_ok C env" and a: "synced C a" and m: "middle C a s b"
    and ready: "\<exists>t. rt_pending (ag_runtime b) = Some t \<and> tn_activated t" and run: "uncertain_commit env kind tok s b = (x, d)"
  shows "\<exists>r. x = Inr r \<and> applied_ok C a s r d"
proof -
  obtain y b' where l: "store_call env load_call b = (y, b')" by (cases "store_call env load_call b")
  from store_call_result [OF store_ops(4) env middle_ok [OF m] l] obtain n st where b': "b' = b\<lparr>ag_jobs := n, ag_store := st\<rparr>"
    and adv: "advances C (ag_store b) st" and y: "\<And>f. y = Inr f \<Longrightarrow> load_call (ge_store env (ag_jobs b)) (ag_store b) = (Inr f, st)" by auto
  have m': "middle C a s b'" unfolding b' by (rule middle_store [OF m adv])
  have ready': "\<exists>t. rt_pending (ag_runtime b') = Some t \<and> tn_activated t" using ready by (simp add: b')
  show ?thesis
  proof (cases y)
    case (Inl e)
    with run l fatal_applied [OF m'] show ?thesis by (simp add: uncertain_commit_def)
  next
    case (Inr found)
    have st: "st = ag_store b" and load: "load_active (ge_store env (ag_jobs b)) (co_gateway st) (co_db st) = Inr found"
      using y [OF Inr] by (auto simp: load_call_def)
    note f = load_stored [OF load, of C]
    have C: "xe_contract (ge_store env (ag_jobs b)) = C" using env by (simp add: env_ok_def)
    have same: "active_version (co_db (ag_store b')) = active_version (co_db (ag_store a))" if "found = ag_active a"
      using f C a that by (auto simp: synced_def b' split: option.split_asm)
    have act: "ag_active b' = ag_active a" using m' by (simp add: middle_def)
    show ?thesis
    proof (cases found)
      case None
      with run l Inr act restore_applied [OF env a m' same] fatal_applied [OF m'] show ?thesis
        by (auto simp: uncertain_commit_def split: if_split_asm)
    next
      case (Some c)
      have c: "cs_config_version c = active_version (co_db (ag_store b'))" "0 < cs_config_version c" "stored C (ag_store b') c"
        using f C Some by (auto simp: stored_def b')
      show ?thesis
      proof (cases "cs_config_version c = cs_config_version s \<and> cs_content_json c = cs_content_json s")
        case True
        with run l Inr Some have "committed_result env kind c b' = (x, d)" by (simp add: uncertain_commit_def)
        from committed_applied [OF m' ready' c _ this] True show ?thesis by (simp add: same_content_def)
      next
        case False
        then have "(if found = ag_active b' then restore env tok ''STORAGE_ERROR'' b'
            else fatal_result env ''UNEXPECTED_COMMITTED_VERSION'' ''COMMIT_OUTCOME_UNKNOWN'' (b'\<lparr>ag_durable := Some (cs_config_version c)\<rparr>)) = (x, d)"
          using run l Inr Some by (simp add: uncertain_commit_def if_not_P [OF False])
        then show ?thesis using act restore_applied [OF env a m' same] fatal_applied [OF m'] by (auto split: if_split_asm)
      qed
    qed
  qed
qed

lemma activate_applied:
  assumes env: "env_ok C env" and a: "synced C a" and m: "middle C a s b" and p: "pledged C (ag_store b) tok s"
    and same: "active_version (co_db (ag_store b)) = active_version (co_db (ag_store a))" and run: "activate_commit env kind tok s b = (x, d)"
  shows "\<exists>r. x = Inr r \<and> applied_ok C a s r d"
proof -
  obtain y rt where act: "activate (ge_runtime env) (ag_runtime b) = (y, rt)" by (cases "activate (ge_runtime env) (ag_runtime b)")
  let ?b = "b\<lparr>ag_runtime := rt\<rparr>"
  have t: "in_transition (rt_snapshot (ag_runtime a)) (rt_runners (ag_runtime a)) s (ag_runtime b)" using m by (simp add: middle_def)
  from keepsD [OF keeps_activate t, of "ge_runtime env"] act have "in_transition (rt_snapshot (ag_runtime a)) (rt_runners (ag_runtime a)) s rt" by simp
  with m have m': "middle C a s ?b" by (simp add: middle_def same_queue_def)
  show ?thesis
  proof (cases y)
    case (Inl e)
    with run act restore_applied [OF env a m'] same show ?thesis by (simp add: activate_commit_def on_runtime_def)
  next
    case (Inr u)
    from activate_ready [OF act [unfolded Inr] t] have ready: "\<exists>t. rt_pending rt = Some t \<and> tn_activated t" by simp
    obtain z b' where c: "store_call env (\<lambda>e. commit e tok) ?b = (z, b')" by (cases "store_call env (\<lambda>e. commit e tok) ?b")
    from store_call_result [OF store_ops(2) env middle_ok [OF m'] c] obtain n st where b': "b' = ?b\<lparr>ag_jobs := n, ag_store := st\<rparr>"
      and adv: "advances C (ag_store b) st" and z: "\<And>f. z = Inr f \<Longrightarrow> commit (ge_store env (ag_jobs b)) tok (ag_store b) = (Inr f, st)" by auto
    have m2: "middle C a s b'" unfolding b' using middle_store [OF m'] adv by simp
    have ready': "\<exists>t. rt_pending (ag_runtime b') = Some t \<and> tn_activated t" using ready by (simp add: b')
    show ?thesis
    proof (cases z)
      case (Inl e)
      with run act Inr c uncertain_applied [OF env a m2 ready'] show ?thesis by (simp add: activate_commit_def on_runtime_def)
    next
      case com: (Inr f)
      from commit_pledged [OF middle_ok [OF m] _ p z [OF com]] env
      have "cs_config_version f = active_version (co_db st) \<and> 0 < cs_config_version f \<and> stored C st f \<and> same_content s f" by (simp add: env_ok_def)
      with run act Inr c com committed_applied [OF m2 ready', of f] show ?thesis by (simp add: activate_commit_def on_runtime_def b')
    qed
  qed
qed

text \<open>Preparing a request never changes what is active.\<close>

lemma with_transaction_active:
  assumes "\<And>x d. body (co_ops st) (co_db st) = Inr (x, d) \<Longrightarrow> active_version d = active_version (co_db st)"
  shows "active_version (co_db (snd (with_transaction env body st))) = active_version (co_db st)"
  using assms by (auto simp: with_transaction_def split: sum.split)

lemma patch_body_active: "patch_body env st command mid v digest n d = Inr (r, d') \<Longrightarrow> active_version d' = active_version d"
  using patch_body_cases prepare_snapshot_active by blast

lemma prepare_call_active: "active_version (co_db (snd (prepare_call kind payload env st))) = active_version (co_db st)"
  unfolding prepare_call_def prepare_config_def prepare_patch_def
  by (auto intro!: with_transaction_active dest: patch_body_active prepare_snapshot_active split: sum.split)

lemma prepare_applied:
  assumes run: "prepare_config env payload st = (Inr p, t)" and p: "pr_status p = P_APPLIED"
  shows "\<exists>s. parse_config (xe_contract env) payload (co_gateway st) = Inr (Inr s) \<and> cs_config_version s = active_version (co_db st)
    \<and> (\<forall>c. stored (xe_contract env) st c \<and> cs_config_version c = active_version (co_db st) \<longrightarrow> same_content s c)"
proof -
  from run p obtain s where s: "parse_config (xe_contract env) payload (co_gateway st) = Inr (Inr s)"
    by (auto simp: prepare_config_def reject_issues_def reject_def split: sum.split_asm)
  with run have "prepare_snapshot env st s None None (co_ops st) (co_db st) = Inr (p, co_db t)"
    by (auto simp: prepare_config_def with_transaction_def split: sum.split_asm if_split_asm)
  from prepare_snapshot_cases [OF this] p have acc: "accepted env st s None None (co_db st)" and v: "cs_config_version s = active_version (co_db st)"
    by (auto simp: Let_def split: if_split_asm)
  have "same_content s c" if c: "stored (xe_contract env) st c" "cs_config_version c = active_version (co_db st)" for c
  proof -
    from c obtain row where "dget (cd_snapshots (co_db st)) (cs_config_version s) = Some row"
      "decodes (xe_contract env) (co_gateway st) (cs_config_version s) row c" by (auto simp: stored_def committed_rows_def v)
    moreover with acc obtain s' where "decodes (xe_contract env) (co_gateway st) (cs_config_version s) row s'" "cs_content_json s' = cs_content_json s"
      unfolding accepted_def by blast
    ultimately have "s' = c" using decodes_fun by blast
    with \<open>cs_content_json s' = cs_content_json s\<close> show ?thesis by (simp add: same_content_def v c(2))
  qed
  with s v show ?thesis by blast
qed

definition request_ok :: "contract_env \<Rightarrow> string \<Rightarrow> string \<Rightarrow> agent \<Rightarrow> ApplyResult \<Rightarrow> agent \<Rightarrow> bool" where
  "request_ok C payload kind a r b \<longleftrightarrow> outcome_ok C a r b
     \<and> (ar_status r = X_APPLIED \<and> kind \<noteq> ''configPatch'' \<longrightarrow>
         (\<exists>s c. parse_config C payload (co_gateway (ag_store a)) = Inr (Inr s) \<and> ag_active b = Some c \<and> same_content s c))"

lemma preflight_outcome:
  assumes env: "env_ok C env" and a: "synced C a" and m: "rested C a b" and run: "preflight_failed env tok e b = (x, d)"
  shows "\<exists>r. x = Inr r \<and> outcome_ok C a r d \<and> ar_status r \<noteq> X_APPLIED"
proof -
  obtain z c where f: "store_call env (\<lambda>e. fail e tok) b = (z, c)" by (cases "store_call env (\<lambda>e. fail e tok) b")
  have ok: "store_ok C (ag_store b)" using m by (auto simp: rested_def dest: advances_ok)
  from store_call_result [OF store_ops(3) env ok f] obtain n st where c: "c = b\<lparr>ag_jobs := n, ag_store := st\<rparr>" and adv: "advances C (ag_store b) st" by auto
  have "same_queue a c" using m by (simp add: rested_def c same_queue_def)
  moreover have "advances C (ag_store a) st" using m adv advances_trans unfolding rested_def by blast
  ultimately have r: "rested C a c" using m fail_call [OF f] by (simp add: rested_def c)
  have s: "ar_status r \<noteq> X_APPLIED" if "x = Inr r" for r
    using that run f by (auto simp: preflight_failed_def fatal_result_def steady_result_def result_def Let_def split: sum.split_asm)
  show ?thesis
  proof (cases z)
    case (Inl e')
    with run f have "fatal_result env ''STORAGE_ERROR'' ''STORAGE_ERROR'' c = (x, d)" by (simp add: preflight_failed_def)
    from fatal_outcome [OF _ _ this, where a = a and C = C] r s show ?thesis by (auto simp: rested_def)
  next
    case (Inr u)
    with run f obtain code where "steady_result X_REJECTED code [] None c = (x, d)" by (simp add: preflight_failed_def)
    from steady_rested [OF r a _ this] s show ?thesis by auto
  qed
qed

lemma candidate_outcome:
  assumes env: "env_ok C env" and a: "synced C a" and m: "rested C a b" and run: "apply_candidate env kind payload p b = (x, d)"
    and p: "pledged C (ag_store b) (case pr_token p of None \<Rightarrow> [] | Some t \<Rightarrow> t) s"
    and src: "if kind = ''configPatch'' then pr_snapshot p = Some s else parse_config C payload (co_gateway (ag_store b)) = Inr (Inr s)"
    and valid: "valid_snapshot C (co_gateway (ag_store b)) s"
  shows "(\<exists>e. x = Inl e \<and> same_queue a d \<and> advances C (ag_store a) (ag_store d)) \<or> (\<exists>r. x = Inr r \<and> request_ok C payload kind a r d)"
proof -
  let ?tok = "case pr_token p of None \<Rightarrow> [] | Some t \<Rightarrow> t"
  have ok: "store_ok C (ag_store b)" using m by (auto simp: rested_def dest: advances_ok)
  define first where "first = (if kind = ''configPatch'' then (Inr (pr_snapshot p), b)
      else case store_call env (parse_call payload) b of (Inl e, c) \<Rightarrow> (Inl e, c) | (Inr s, c) \<Rightarrow> (Inr (Some s), c))"
  obtain y c where y: "first = (y, c)" by (cases first)
  have fst: "(\<exists>n. c = b\<lparr>ag_jobs := n\<rparr>) \<and> (y = Inr (Some s) \<or> (\<exists>e. y = Inl e))"
  proof (cases "kind = ''configPatch''")
    case True
    with src y show ?thesis by (auto simp: first_def intro: exI [of _ "ag_jobs b"])
  next
    case False
    obtain z c' where l: "store_call env (parse_call payload) b = (z, c')" by (cases "store_call env (parse_call payload) b")
    from False src have "parse_call payload (ge_store env n) (ag_store b) = (Inr s, ag_store b)" for n using env by (simp add: parse_call_def env_ok_def)
    with l have "(\<exists>n. c' = b\<lparr>ag_jobs := n\<rparr>) \<and> (z = Inr s \<or> (\<exists>e. z = Inl e))"
      by (auto simp: store_call_def Let_def split: job.split_asm)
    with y l False show ?thesis by (auto simp: first_def)
  qed
  then obtain n where c: "c = b\<lparr>ag_jobs := n\<rparr>" by blast
  have mc: "rested C a c" using m by (simp add: c rested_def same_queue_def)
  have run': "(case (y, c) of (Inl e, a) \<Rightarrow> (Inl e, a)
         | (Inr None, a) \<Rightarrow> preflight_failed env ?tok AttributeError a
         | (Inr (Some s), a) \<Rightarrow>
             (case on_runtime (prepare_runtime (ge_runtime env) s) a of
                (Inl e, a) \<Rightarrow> preflight_failed env ?tok e a
              | (Inr _, a) \<Rightarrow> activate_commit env kind ?tok s a)) = (x, d)"
    using run unfolding apply_candidate_def Let_def y [unfolded first_def] .
  show ?thesis
  proof (cases "y = Inr (Some s)")
    case False
    with fst obtain e where "y = Inl e" by blast
    with run' mc show ?thesis by (auto simp: rested_def)
  next
    case True
    obtain z rt where pr: "prepare_runtime (ge_runtime env) s (ag_runtime c) = (z, rt)" by (cases "prepare_runtime (ge_runtime env) s (ag_runtime c)")
    note f = prepare_runtime_done [OF pr]
    let ?c = "c\<lparr>ag_runtime := rt\<rparr>"
    show ?thesis
    proof (cases z)
      case (Inl e)
      then have "rested C a ?c" using mc f by (simp add: rested_def same_queue_def)
      from preflight_outcome [OF env a this, of ?tok e x d] run' True pr Inl show ?thesis
        by (auto simp: on_runtime_def request_ok_def)
    next
      case (Inr u)
      have "co_gateway (ag_store b) = co_gateway (ag_store a)" using m by (auto simp: rested_def intro: advances_gateway)
      with Inr valid have mid: "middle C a s ?c" using mc f by (simp add: rested_def middle_def same_queue_def)
      have "activate_commit env kind ?tok s ?c = (x, d)" using run' True pr Inr by (simp add: on_runtime_def)
      from activate_applied [OF env a mid _ _ this] p mc obtain r where "x = Inr r" "applied_ok C a s r d"
        by (auto simp: c rested_def)
      moreover have "co_gateway (ag_store b) = co_gateway (ag_store a)" using m by (simp add: rested_def advances_def)
      ultimately show ?thesis using src by (auto simp: request_ok_def applied_ok_def)
    qed
  qed
qed

lemma prepare_job:
  assumes "store_call env (prepare_call kind payload) a = (x, b)"
  shows "active_version (co_db (ag_store b)) = active_version (co_db (ag_store a))"
  using assms by (auto simp: store_call_def Let_def split: job.split_asm prod.split_asm) (metis prepare_call_active snd_conv)+

text \<open>What a prepared request leaves in the store for its token.\<close>

lemma pledgedI:
  assumes ok: "store_ok C t" and row: "dget (cd_snapshots (co_db t)) (cs_config_version s) = Some row" "sv_state row = S_PREPARED"
    "sv_token row = tok" "decodes C (co_gateway t) (cs_config_version s) row s'" "cs_content_json s' = cs_content_json s"
  shows "pledged C t (case tok of None \<Rightarrow> [] | Some k \<Rightarrow> k) s"
proof -
  from ok row(1,2) have "sv_token row \<noteq> None" by (auto simp: store_ok_def dest!: db_okD(4) simp: row_ok_def)
  with row show ?thesis by (auto simp: pledged_def)
qed

lemma prepared_pledged:
  assumes ok: "store_ok C st" and env: "xe_contract env = C" and run: "prepare_call kind payload env st = (Inr p, t)" and p: "pr_status p = P_PREPARED"
  shows "\<exists>s. pledged C t (case pr_token p of None \<Rightarrow> [] | Some tok \<Rightarrow> tok) s
    \<and> (if kind = ''configPatch'' then pr_snapshot p = Some s else parse_config C payload (co_gateway t) = Inr (Inr s))
    \<and> valid_snapshot C (co_gateway t) s"
proof -
  have t: "store_ok C t" "co_gateway t = co_gateway st"
    using store_ops(1) [of C kind payload] ok env run unfolding store_op_def advances_def by (metis snd_conv)+
  show ?thesis
  proof (cases "kind = ''configPatch''")
    case True
    with run have "prepare_patch env payload st = (Inr p, t)" by (simp add: prepare_call_def)
    from prepared_patch_row [OF _ this p] ok env obtain s row s' where "pr_snapshot p = Some s" "parse_config C (cs_wire_json s) (co_gateway t) = Inr (Inr s)"
      and "dget (cd_snapshots (co_db t)) (cs_config_version s) = Some row" "sv_state row = S_PREPARED" "sv_token row = pr_token p"
        "decodes C (co_gateway t) (cs_config_version s) row s'" "cs_content_json s' = cs_content_json s" by (auto simp: t(2))
    from pledgedI [OF t(1) this(3-)] True this(1,2) show ?thesis unfolding valid_snapshot_def by auto
  next
    case False
    with run have r: "prepare_config env payload st = (Inr p, t)" by (simp add: prepare_call_def)
    with p obtain s where s: "parse_config C payload (co_gateway st) = Inr (Inr s)"
      by (auto simp: prepare_config_def reject_issues_def reject_def env split: sum.split_asm)
    from prepared_row [OF _ _ r p, of s] s ok env obtain row s' where "dget (cd_snapshots (co_db t)) (cs_config_version s) = Some row"
        "sv_state row = S_PREPARED" "sv_token row = pr_token p"
        "decodes C (co_gateway t) (cs_config_version s) row s'" "cs_content_json s' = cs_content_json s" by (auto simp: t(2))
    from pledgedI [OF t(1) this] False s t(2) show ?thesis unfolding valid_snapshot_def by auto
  qed
qed

text \<open>The application of one request, whatever its end.\<close>

lemma request_outcome:
  assumes env: "env_ok C env" and a: "synced C a" and ok: "store_ok C (ag_store a)" and run: "apply_request env payload kind a = (x, d)"
  shows "(\<exists>e. x = Inl e \<and> same_queue a d \<and> advances C (ag_store a) (ag_store d)) \<or> (\<exists>r. x = Inr r \<and> request_ok C payload kind a r d)"
proof -
  let ?a = "a\<lparr>ag_state := (if ag_closing a then A_STOPPING else A_APPLYING)\<rparr>"
  obtain y b where c: "store_call env (prepare_call kind payload) ?a = (y, b)" by (cases "store_call env (prepare_call kind payload) ?a")
  from store_call_result [OF store_ops(1) env _ c] ok obtain n st where b: "b = ?a\<lparr>ag_jobs := n, ag_store := st\<rparr>"
    and adv: "advances C (ag_store a) st"
    and y: "\<And>p. y = Inr p \<Longrightarrow> prepare_call kind payload (ge_store env (ag_jobs a)) (ag_store a) = (Inr p, st)" by auto
  have m: "rested C a b" using prepare_job [OF c] a adv by (auto simp: rested_def synced_def b same_queue_def)
  have C: "xe_contract (ge_store env (ag_jobs a)) = C" using env by (simp add: env_ok_def)
  have fin: "\<exists>r. x = Inr r \<and> request_ok C payload kind a r d" if "steady_result status code issues ap b = (x, d)" "status \<noteq> X_APPLIED" for status code issues ap
    using steady_rested [OF m a that(2,1)] that by (auto simp: request_ok_def steady_result_def result_def Let_def)
  have fat: "\<exists>r. x = Inr r \<and> request_ok C payload kind a r d" if "fatal_result env e1 e2 b = (x, d)" for e1 e2
    using fatal_outcome [OF _ _ that, of C a] m that by (auto simp: request_ok_def rested_def fatal_result_def result_def Let_def)
  show ?thesis
  proof (cases y)
    case (Inl e)
    with run c have "(case e of StoreFormatError _ \<Rightarrow> fatal_result env ''STORAGE_CORRUPT'' ''STORAGE_ERROR'' b
        | _ \<Rightarrow> if is_store_error e then steady_result X_FAILED (Some ''STORAGE_ERROR'') [] None b else (Inl e, b)) = (x, d)"
      unfolding apply_request_def by (cases e) simp_all
    then show ?thesis using fin [of X_FAILED] fat m by (cases e) (auto simp: rested_def split: if_split_asm)
  next
    case (Inr p)
    note p = y [OF Inr]
    show ?thesis
    proof (cases "pr_status p")
      case P_REJECTED
      with run c Inr have "steady_result X_REJECTED (pr_code p) (pr_issues p) None b = (x, d)" by (simp add: apply_request_def)
      from fin [OF this] show ?thesis by simp
    next
      case P_PREPARED
      with run c Inr have "apply_candidate env kind payload p b = (x, d)" by (simp add: apply_request_def)
      moreover obtain s where "pledged C st (case pr_token p of None \<Rightarrow> [] | Some tok \<Rightarrow> tok) s"
        "if kind = ''configPatch'' then pr_snapshot p = Some s else parse_config C payload (co_gateway st) = Inr (Inr s)"
        "valid_snapshot C (co_gateway st) s"
        using prepared_pledged [OF ok C p P_PREPARED] by blast
      ultimately show ?thesis using candidate_outcome [OF env a m] by (simp add: b)
    next
      case P_APPLIED
      show ?thesis
      proof (cases "map_option cs_config_version (ag_active b) = Some (pr_active_config_version p)")
        case False
        with run c Inr P_APPLIED have "fatal_result env ''RUNTIME_VERSION_MISMATCH'' ''RUNTIME_VERSION_MISMATCH'' b = (x, d)" by (simp add: apply_request_def)
        from fat [OF this] show ?thesis ..
      next
        case True
        then obtain c where act: "ag_active b = Some c" by auto
        with m have act': "ag_active a = Some c" by (simp add: rested_def)
        with a have v: "cs_config_version c = active_version (co_db (ag_store a))" "stored C (ag_store a) c" by (simp_all add: synced_def)
        from run c Inr P_APPLIED True have d: "x = Inr (result X_APPLIED None [] (pr_applied_config_version p) d)" "d = steady b"
          by (auto simp: apply_request_def steady_result_def Let_def)
        have s: "\<exists>s. parse_config C payload (co_gateway (ag_store a)) = Inr (Inr s) \<and> same_content s c" if "kind \<noteq> ''configPatch''"
          using prepare_applied [of "ge_store env (ag_jobs a)" payload "ag_store a" p st] p that P_APPLIED v C by (auto simp: prepare_call_def)
        have "outcome_ok C a (result X_APPLIED None [] (pr_applied_config_version p) d) d"
          using m rested_synced [OF m a] by (auto simp: d(2) outcome_ok_def result_def rested_def)
        with d s act show ?thesis by (auto simp: request_ok_def result_def)
      qed
    qed
  qed
qed

end
