(* ===== verification/AgentInv.thy ===== *)
theory AgentInv
  imports LifecycleInv
begin

text \<open>
  The coordinator as a system: start, submissions, turns of the serving task and close, in any order, on a store
  that any history may have left. The invariant ties the announced state to what is stored and what runs, and the
  queue to the futures still owed an answer.
\<close>

section \<open>Requests and their answers\<close>

definition futures :: "agent \<Rightarrow> nat list" where
  "futures a = map (fst \<circ> snd) (ag_queue a)"

definition answered :: "agent \<Rightarrow> nat \<Rightarrow> bool" where
  "answered a f \<longleftrightarrow> dget (ag_replies a) f \<noteq> None"

text \<open>Each future that was handed out is either queued or answered.\<close>

definition owed_ok :: "agent \<Rightarrow> bool" where
  "owed_ok a \<longleftrightarrow> distinct (futures a) \<and> (\<forall>f. f < ag_next a \<longleftrightarrow> f \<in> set (futures a) \<or> answered a f) \<and> (\<forall>f \<in> set (futures a). \<not> answered a f)"

lemma reply_fields:
  "reply f r a = a\<lparr>ag_replies := ag_replies (reply f r a)\<rparr>" "answered (reply f r a) g \<longleftrightarrow> answered a g \<or> g = f"
  "\<not> answered a f \<Longrightarrow> dget (ag_replies (reply f r a)) f = Some r" "dget (ag_replies a) g = Some r' \<Longrightarrow> dget (ag_replies (reply f r a)) g = Some r'"
  by (auto simp: reply_def answered_def)

lemma refuse_fields:
  "refuse code x a = a\<lparr>ag_replies := ag_replies (refuse code x a)\<rparr>" "answered (refuse code x a) g \<longleftrightarrow> answered a g \<or> g = fst (snd x)"
  "dget (ag_replies a) g = Some r \<Longrightarrow> dget (ag_replies (refuse code x a)) g = Some r"
  unfolding refuse_def by (rule reply_fields)+

lemma drain_fold:
  "\<exists>d. fold (refuse code) q a = a\<lparr>ag_replies := d\<rparr>"
  "answered (fold (refuse code) q a) g \<longleftrightarrow> answered a g \<or> g \<in> set (map (fst \<circ> snd) q)"
  "dget (ag_replies a) g = Some r \<Longrightarrow> dget (ag_replies (fold (refuse code) q a)) g = Some r"
proof (induction q arbitrary: a)
  case Nil
  { case 1 show ?case by (intro exI [of _ "ag_replies a"]) simp }
next
  case (Cons x q)
  {
    case 1
    from refuse_fields(1) obtain d where d: "refuse code x a = a\<lparr>ag_replies := d\<rparr>" ..
    from Cons.IH(1) [of "refuse code x a"] show ?case by (auto simp: d)
  next
    case 2
    show ?case using Cons.IH(2) [of "refuse code x a"] refuse_fields(2) by auto
  next
    case 3
    show ?case using Cons.IH(3) refuse_fields(3) [OF 3] by simp
  }
qed auto

lemma drain_fields:
  "drain code a = a\<lparr>ag_queue := [], ag_replies := ag_replies (drain code a)\<rparr>"
  "answered (drain code a) g \<longleftrightarrow> answered a g \<or> g \<in> set (futures a)"
  "dget (ag_replies a) g = Some r \<Longrightarrow> dget (ag_replies (drain code a)) g = Some r"
  using drain_fold [where code = code and q = "ag_queue a" and a = "a\<lparr>ag_queue := []\<rparr>"] by (auto simp: drain_def futures_def answered_def)

lemma drain_owed:
  assumes "owed_ok a" shows "owed_ok (drain code a)"
proof -
  have d: "futures (drain code a) = []" "ag_next (drain code a) = ag_next a" by (subst drain_fields(1), simp add: futures_def)+
  show ?thesis using assms by (auto simp: owed_ok_def d drain_fields(2))
qed

section \<open>The system\<close>

inductive agent_step :: "contract_env \<Rightarrow> agent \<Rightarrow> agent \<Rightarrow> bool" for C where
  ag_starts: "env_ok C env \<Longrightarrow> agent_step C a (snd (start env a))"
| ag_submits: "agent_step C a (snd (submit payload kind a))"
| ag_serves: "env_ok C env \<Longrightarrow> agent_step C a (serve env a)"
| ag_closes: "\<not> ag_closing a \<Longrightarrow> agent_step C a (close env a)"

definition agent_init :: "contract_env \<Rightarrow> agent \<Rightarrow> bool" where
  "agent_init C a \<longleftrightarrow> (\<exists>capacity boot_id started boot s0 st. boot_new boot_id started = Inr boot
     \<and> config_init C s0 \<and> (config_step C)\<^sup>*\<^sup>* s0 st \<and> a = agent_new capacity (runtime_new boot) st)"

abbreviation serving_states :: "agent_state set" where
  "serving_states \<equiv> {A_WAITING_CONFIG, A_RUNNING, A_DISABLED}"

text \<open>The state announced for what is active.\<close>

definition announced :: "agent \<Rightarrow> agent_state" where
  "announced a = (case ag_active a of None \<Rightarrow> A_WAITING_CONFIG | Some s \<Rightarrow> if cs_enabled s then A_RUNNING else A_DISABLED)"

definition agent_ok :: "contract_env \<Rightarrow> agent \<Rightarrow> bool" where
  "agent_ok C a \<longleftrightarrow> store_ok C (ag_store a) \<and> owed_ok a
     \<and> (ag_closing a \<longrightarrow> ag_state a \<in> {A_STOPPED, A_FAILED}) \<and> ag_state a \<notin> {A_STARTING, A_APPLYING, A_STOPPING}
     \<and> (ag_state a \<in> serving_states \<longrightarrow> synced C a \<and> ag_state a = announced a)
     \<and> (ag_state a \<notin> serving_states \<longrightarrow> ag_queue a = [])
     \<and> (ag_state a = A_NEW \<longrightarrow> rt_pending (ag_runtime a) = None \<and> rt_snapshot (ag_runtime a) = None \<and> ag_active a = None)"

lemma agent_init_ok: "agent_init C a \<Longrightarrow> agent_ok C a"
  using config_store.reachable_inv
  by (auto simp: agent_init_def agent_ok_def agent_new_def runtime_new_def owed_ok_def futures_def answered_def)

lemma owed_same: "owed_ok a \<Longrightarrow> same_queue a b \<Longrightarrow> owed_ok b"
  by (simp add: owed_ok_def same_queue_def futures_def answered_def)

lemma announced_serving [simp]: "announced a \<in> serving_states"
  by (simp add: announced_def split: option.split)

lemma steady_announced:
  assumes "\<not> ag_closing a" "ag_state a \<noteq> A_FAILED" "ag_state a = ag_state (steady a)"
  shows "ag_state a = announced a"
  by (subst assms(3)) (simp add: steady_def announced_def assms(1,2))

lemma agent_okD:
  assumes "agent_ok C a"
  shows "store_ok C (ag_store a)" "owed_ok a" "ag_closing a \<Longrightarrow> ag_state a \<in> {A_STOPPED, A_FAILED}"
    "ag_state a \<notin> {A_STARTING, A_APPLYING, A_STOPPING}"
    "ag_state a \<in> serving_states \<Longrightarrow> synced C a" "ag_state a \<in> serving_states \<Longrightarrow> ag_state a = announced a"
    "ag_state a \<notin> serving_states \<Longrightarrow> ag_queue a = []"
    "ag_state a = A_NEW \<Longrightarrow> rt_pending (ag_runtime a) = None \<and> rt_snapshot (ag_runtime a) = None \<and> ag_active a = None"
  using assms unfolding agent_ok_def by blast+

text \<open>An agent that no longer serves is correct once its queue is empty.\<close>

lemma ended_ok:
  assumes "store_ok C (ag_store a)" "owed_ok a" "ag_queue a = []" "ag_state a \<in> {A_STOPPED, A_FAILED}"
  shows "agent_ok C a"
  using assms by (auto simp: agent_ok_def)

lemma serving_ok:
  assumes "store_ok C (ag_store a)" "owed_ok a" "\<not> ag_closing a" "synced C a" "ag_state a = announced a"
  shows "agent_ok C a"
  using assms announced_serving [of a] unfolding agent_ok_def by auto

lemma synced_cong:
  "ag_store b = ag_store a \<Longrightarrow> ag_runtime b = ag_runtime a \<Longrightarrow> ag_active b = ag_active a \<Longrightarrow> ag_durable b = ag_durable a
    \<Longrightarrow> synced C b = synced C a"
  by (simp add: synced_def cong: option.case_cong)

lemma owed_cong: "ag_queue b = ag_queue a \<Longrightarrow> ag_replies b = ag_replies a \<Longrightarrow> ag_next b = ag_next a \<Longrightarrow> owed_ok b = owed_ok a"
  by (simp add: owed_ok_def futures_def answered_def)

lemma submit_result:
  "snd (submit payload kind a) = a
    \<or> snd (submit payload kind a) = a\<lparr>ag_queue := ag_queue a @ [(payload, ag_next a, kind)], ag_next := ag_next a + 1\<rparr>
      \<and> ag_state a \<in> insert A_APPLYING serving_states"
  by (auto simp: submit_def Let_def)

lemma submit_ok:
  assumes ok: "agent_ok C a" shows "agent_ok C (snd (submit payload kind a))"
  using submit_result [of payload kind a]
proof
  assume s: "snd (submit payload kind a) = a\<lparr>ag_queue := ag_queue a @ [(payload, ag_next a, kind)], ag_next := ag_next a + 1\<rparr>
      \<and> ag_state a \<in> insert A_APPLYING serving_states" (is "_ = ?b \<and> _")
  note ok' = agent_okD [OF ok]
  have "owed_ok ?b" using ok'(2) by (auto simp: owed_ok_def futures_def answered_def less_Suc_eq)
  moreover have "ag_state a \<in> serving_states" using s ok'(4) by auto
  moreover have "synced C ?b = synced C a" by (rule synced_cong) simp_all
  moreover have "announced ?b = announced a" by (simp add: announced_def)
  ultimately have "agent_ok C ?b" using ok'(1,3,5,6) by (intro serving_ok) auto
  with s show ?thesis by simp
qed (use ok in simp)

lemma close_ok:
  assumes ok: "agent_ok C a" shows "agent_ok C (close env a)"
proof -
  define b where "b = a\<lparr>ag_closing := True, ag_state := (if ag_state a = A_FAILED then A_FAILED else A_STOPPING)\<rparr>"
  define c where "c = drain ''STOPPING'' b"
  note ok' = agent_okD [OF ok]
  have c: "c = b\<lparr>ag_queue := [], ag_replies := ag_replies c\<rparr>" unfolding c_def by (rule drain_fields)
  have "owed_ok b = owed_ok a" by (rule owed_cong) (simp_all add: b_def)
  with ok'(2) have "owed_ok c" unfolding c_def by (intro drain_owed) simp
  moreover have "ag_queue c = []" "ag_store c = ag_store a" by (subst c, simp add: b_def)+
  ultimately have c': "owed_ok c" "ag_queue c = []" "ag_store c = ag_store a" by blast+
  obtain r rt where sh: "shutdown (ge_runtime env) (ag_runtime c) = (r, rt)" by (cases "shutdown (ge_runtime env) (ag_runtime c)")
  have state: "ag_state c = (if ag_state a = A_FAILED then A_FAILED else A_STOPPING)" by (subst c) (simp add: b_def)
  have x: "ag_store (close env a) = ag_store c" "ag_queue (close env a) = ag_queue c" "ag_replies (close env a) = ag_replies c"
    "ag_next (close env a) = ag_next c" "ag_state (close env a) \<in> {A_STOPPED, A_FAILED}"
    by (simp_all add: close_def Let_def b_def [symmetric] c_def [symmetric] on_runtime_def sh state split: sum.split)
  then have "owed_ok (close env a)" using c'(1) owed_cong [OF x(2,3,4)] by simp
  with x c'(2,3) ok'(1) show ?thesis by (intro ended_ok) simp_all
qed

text \<open>One turn of the serving task on the request at the head of the queue.\<close>

definition attempted :: "agent_env \<Rightarrow> string \<Rightarrow> string \<Rightarrow> agent \<Rightarrow> ApplyResult \<times> agent" where
  "attempted env payload kind a = (case apply_request env payload kind a of
     (Inr r, b) \<Rightarrow> (r, b)
   | (Inl _, b) \<Rightarrow> (let c = fatal env ''COORDINATOR_FAILED'' b in (result X_FAILED (Some ''INTERNAL_ERROR'') [] None c, c)))"

lemma serve_head:
  assumes "ag_queue a = (payload, f, kind) # rest" "attempted env payload kind (a\<lparr>ag_queue := rest\<rparr>) = (r, b)"
  shows "serve env a = (if ag_state b = A_FAILED then drain ''NOT_RUNNING'' (reply f r b) else reply f r b)"
proof -
  have "ag_state (reply f r b) = ag_state b" by (simp add: reply_def)
  with assms show ?thesis by (simp add: serve_def attempted_def split: prod.split)
qed

lemma attempted_ok:
  assumes env: "env_ok C env" and a: "synced C a" "store_ok C (ag_store a)" and run: "attempted env payload kind a = (r, b)"
  shows "request_ok C payload kind a r b"
proof -
  obtain x d where x: "apply_request env payload kind a = (x, d)" by (cases "apply_request env payload kind a")
  show ?thesis
  proof (cases x)
    case (Inl e)
    with request_outcome [OF env a x] have "same_queue a d" "advances C (ag_store a) (ag_store d)" by auto
    with run x Inl show ?thesis by (auto simp: attempted_def Let_def request_ok_def outcome_ok_def fatal_fields result_def)
  next
    case (Inr r')
    with request_outcome [OF env a x] run x show ?thesis by (auto simp: attempted_def)
  qed
qed

lemma outcome_okD:
  assumes "request_ok C payload kind a r b"
  shows "same_queue a b" "advances C (ag_store a) (ag_store b)"
    "ag_state b \<noteq> A_FAILED \<Longrightarrow> synced C b" "ag_state b \<noteq> A_FAILED \<Longrightarrow> ag_state b = ag_state (steady b)"
  using assms unfolding request_ok_def outcome_ok_def by blast+

lemma serve_result:
  assumes ok: "agent_ok C a" and env: "env_ok C env" and q: "ag_queue a = (payload, f, kind) # rest"
  shows "\<exists>r b. request_ok C payload kind (a\<lparr>ag_queue := rest\<rparr>) r b \<and> agent_ok C (serve env a) \<and> dget (ag_replies (serve env a)) f = Some r
    \<and> ag_active (serve env a) = ag_active b \<and> ag_store (serve env a) = ag_store b \<and> ag_runtime (serve env a) = ag_runtime b
    \<and> ag_state (serve env a) = ag_state b \<and> length (ag_queue (serve env a)) \<le> length rest
    \<and> (\<forall>g x. dget (ag_replies a) g = Some x \<longrightarrow> dget (ag_replies (serve env a)) g = Some x)
    \<and> ag_next (serve env a) = ag_next a"
proof -
  let ?a = "a\<lparr>ag_queue := rest\<rparr>"
  note ok' = agent_okD [OF ok]
  from q ok'(7) have serving: "ag_state a \<in> serving_states" by force
  have open_: "\<not> ag_closing a" using serving ok'(3) by auto
  have "synced C ?a = synced C a" by (rule synced_cong) simp_all
  with ok'(5) serving have sync: "synced C ?a" by simp
  obtain r b where r: "attempted env payload kind ?a = (r, b)" by (cases "attempted env payload kind ?a")
  have req: "request_ok C payload kind ?a r b" by (rule attempted_ok [OF env sync _ r]) (simp add: ok'(1))
  have b: "ag_queue b = rest" "ag_replies b = ag_replies a" "ag_next b = ag_next a" "ag_closing b = ag_closing a" "store_ok C (ag_store b)"
    using outcome_okD(1) [OF req] advances_ok [OF outcome_okD(2) [OF req]] by (simp_all add: same_queue_def)
  define c where "c = reply f r b"
  obtain d where c: "c = b\<lparr>ag_replies := d\<rparr>" unfolding c_def using reply_fields(1) by blast
  have new: "\<not> answered b f" "f < ag_next a" using ok'(2) q b(2) by (auto simp: owed_ok_def futures_def answered_def)
  have ans: "answered c g \<longleftrightarrow> answered a g \<or> g = f" for g unfolding c_def reply_fields(2) by (simp add: answered_def b(2))
  have fut: "futures c = futures ?a" by (simp add: c futures_def b(1))
  have owed: "owed_ok c" using ok'(2) q new ans unfolding owed_ok_def fut by (auto simp: futures_def c b(3))
  have rep: "dget (ag_replies c) f = Some r" unfolding c_def by (rule reply_fields(3) [OF new(1)])
  have old: "dget (ag_replies c) g = Some x" if "dget (ag_replies a) g = Some x" for g x
    unfolding c_def by (rule reply_fields(4)) (simp add: b(2) that)
  show ?thesis
  proof (cases "ag_state b = A_FAILED")
    case True
    define s where "s = drain ''NOT_RUNNING'' c"
    have run: "serve env a = s" using serve_head [OF q r] True by (simp add: s_def c_def)
    obtain e where s: "s = c\<lparr>ag_queue := [], ag_replies := e\<rparr>" unfolding s_def using drain_fields(1) by blast
    have "owed_ok s" unfolding s_def by (rule drain_owed [OF owed])
    then have "agent_ok C s" by (rule ended_ok [rotated]) (simp_all add: s c b True)
    moreover have "dget (ag_replies s) g = Some x" if "dget (ag_replies c) g = Some x" for g x
      unfolding s_def by (rule drain_fields(3) [OF that])
    ultimately show ?thesis using req rep old unfolding run by (intro exI [of _ r] exI [of _ b]) (simp add: s c b(3))
  next
    case False
    have run: "serve env a = c" using serve_head [OF q r] False by (simp add: c_def)
    have st: "ag_state b = announced b" by (rule steady_announced [OF _ False outcome_okD(4) [OF req False]]) (simp add: b(4) open_)
    have "synced C c = synced C b" by (rule synced_cong) (simp_all add: c)
    then have "agent_ok C c" using owed b outcome_okD(3) [OF req False] st open_ by (intro serving_ok) (simp_all add: c announced_def)
    with req rep old show ?thesis unfolding run by (intro exI [of _ r] exI [of _ b]) (simp add: c b)
  qed
qed

lemma serve_ok: "agent_ok C a \<Longrightarrow> env_ok C env \<Longrightarrow> agent_ok C (serve env a)"
  using serve_result by (cases "ag_queue a") (fastforce simp: serve_def)+

text \<open>Startup: the stored configuration is prepared, activated and published before anything is announced.\<close>

lemma start_snapshot_done:
  assumes run: "start_snapshot env s a = (Inr u, b)"
  shows "\<exists>rt. b = a\<lparr>ag_runtime := rt, ag_active := Some s\<rparr> \<and> rt_snapshot rt = Some s \<and> rt_pending rt = None"
proof -
  from run obtain rt1 rt2 rt3 where p: "prepare_runtime (ge_runtime env) s (ag_runtime a) = (Inr (), rt1)"
    and act: "activate (ge_runtime env) rt1 = (Inr (), rt2)" and pub: "publish (ge_runtime env) rt2 = (Inr (), rt3)"
    and b: "b = a\<lparr>ag_runtime := rt3, ag_active := Some s\<rparr>"
    by (auto simp: start_snapshot_def sbind_Inr_iff on_runtime_def split: prod.split_asm)
  from prepare_runtime_done [OF p] have "in_transition (rt_snapshot (ag_runtime a)) (rt_runners (ag_runtime a)) s rt1" by simp
  from publish_done [OF pub conjunct1 [OF activate_ready [OF act this]]] b show ?thesis by blast
qed

lemma start_snapshot_frame: "start_snapshot env s a = (x, b) \<Longrightarrow> same_queue a b \<and> ag_store b = ag_store a"
  by (auto simp: start_snapshot_def sbind_def on_runtime_def same_queue_def split: prod.split_asm sum.split_asm)

lemma startup_failed_ok:
  assumes "agent_ok C a" "ag_queue a = []" "same_queue a b" "store_ok C (ag_store b)"
  shows "agent_ok C (startup_failed env b)"
proof (rule ended_ok)
  have q: "same_queue a (startup_failed env b)" using assms(3) by (simp add: startup_failed_def fatal_fields)
  show "owed_ok (startup_failed env b)" by (rule owed_same [OF agent_okD(2) [OF assms(1)] q])
  show "ag_queue (startup_failed env b) = []" using q assms(2) by (simp add: same_queue_def)
qed (simp_all add: startup_failed_def fatal_fields assms(4))

lemma start_ok:
  assumes ok: "agent_ok C a" and env: "env_ok C env"
  shows "agent_ok C (snd (start env a))"
proof (cases "ag_state a \<noteq> A_NEW \<or> ag_closing a")
  case False
  note ok' = agent_okD [OF ok]
  obtain y b where l: "store_call env load_call (a\<lparr>ag_state := A_STARTING\<rparr>) = (y, b)" by (cases "store_call env load_call (a\<lparr>ag_state := A_STARTING\<rparr>)")
  from store_call_result [OF store_ops(4) env _ l] ok'(1) obtain n st where b: "b = a\<lparr>ag_state := A_STARTING, ag_jobs := n, ag_store := st\<rparr>"
    and adv: "advances C (ag_store a) st"
    and y: "\<And>f. y = Inr f \<Longrightarrow> load_call (ge_store env (ag_jobs a)) (ag_store a) = (Inr f, st)" by auto
  have q: "ag_queue a = []" "same_queue a b" "store_ok C (ag_store b)" using ok'(7) False advances_ok [OF adv] by (auto simp: b same_queue_def)
  show ?thesis
  proof (cases y)
    case (Inl e)
    with False l startup_failed_ok [OF ok q] show ?thesis by (simp add: start_def)
  next
    case (Inr found)
    from y [OF Inr] have st: "st = ag_store a" and load: "load_active (ge_store env (ag_jobs a)) (co_gateway st) (co_db st) = Inr found"
      by (auto simp: load_call_def)
    have C: "xe_contract (ge_store env (ag_jobs a)) = C" using env by (simp add: env_ok_def)
    note f = load_stored [OF load C]
    let ?b = "b\<lparr>ag_durable := Some (case found of None \<Rightarrow> 0 | Some s \<Rightarrow> cs_config_version s)\<rparr>"
    have qb: "same_queue a ?b" using q(2) by (simp add: same_queue_def)
    have go: "agent_ok C (steady c)"
      if c: "same_queue ?b c" "ag_store c = ag_store b" "ag_state c = A_STARTING" "synced C c" for c
    proof (rule serving_ok)
      have "same_queue a c" using qb c(1) by (simp add: same_queue_def)
      then have qc: "same_queue a (steady c)" by simp
      show "owed_ok (steady c)" by (rule owed_same [OF ok'(2) qc])
      show "\<not> ag_closing (steady c)" using qc False by (simp add: same_queue_def)
      then show "ag_state (steady c) = announced (steady c)" by (intro steady_announced) (simp_all add: c(3))
    qed (simp_all add: c q(3))
    show ?thesis
    proof (cases found)
      case None
      have "synced C ?b" using ok'(8) False f None by (auto simp: synced_def b)
      from go [OF _ _ _ this] False l Inr None show ?thesis by (simp add: start_def b same_queue_def)
    next
      case (Some s)
      obtain z c where r: "start_snapshot env s ?b = (z, c)" by (cases "start_snapshot env s ?b")
      show ?thesis
      proof (cases z)
        case (Inl e)
        have "same_queue a c" "store_ok C (ag_store c)" using start_snapshot_frame [OF r] qb q(3) by (simp_all add: same_queue_def)
        from startup_failed_ok [OF ok q(1) this] False l \<open>y = Inr found\<close> Some r Inl show ?thesis by (simp add: start_def)
      next
        case (Inr u)
        from start_snapshot_done [OF r [unfolded Inr]] obtain rt where c: "c = ?b\<lparr>ag_runtime := rt, ag_active := Some s\<rparr>"
          "rt_snapshot rt = Some s" "rt_pending rt = None" by blast
        have "synced C c" using f Some st c by (auto simp: synced_def b stored_def same_content_def valid_snapshot_def decodes_def)
        from go [OF _ _ _ this] False l \<open>y = Inr found\<close> Some r Inr show ?thesis by (simp add: start_def c b same_queue_def)
      qed
    qed
  qed
next
  case True
  then show ?thesis using ok by (auto simp: start_def)
qed

interpretation agent_system: invariant_system "agent_init C" "agent_step C" "agent_ok C"
proof
  show "agent_step C s t \<Longrightarrow> agent_ok C s \<Longrightarrow> agent_ok C t" for s t
    by (induction rule: agent_step.cases) (auto intro: start_ok submit_ok serve_ok close_ok)
qed (rule agent_init_ok)

text \<open>An answer, once given, stays.\<close>

definition given :: "agent \<Rightarrow> (nat \<times> ApplyResult) set" where
  "given a = {(f, r). dget (ag_replies a) f = Some r}"

lemma given_same: "same_queue a b \<Longrightarrow> given b = given a \<and> ag_next b = ag_next a"
  by (simp add: given_def same_queue_def)

lemma start_same: "same_queue a (snd (start env a))"
proof (cases "ag_state a \<noteq> A_NEW \<or> ag_closing a")
  case False
  obtain y c where l: "store_call env load_call (a\<lparr>ag_state := A_STARTING\<rparr>) = (y, c)" by (cases "store_call env load_call (a\<lparr>ag_state := A_STARTING\<rparr>)")
  then have c: "same_queue a c" by (auto simp: store_call_def load_call_def same_queue_def Let_def split: job.split_asm)
  show ?thesis
  proof (cases y)
    case (Inl e)
    with False l c show ?thesis by (simp add: start_def startup_failed_def fatal_fields)
  next
    case (Inr found)
    let ?c = "c\<lparr>ag_durable := Some (case found of None \<Rightarrow> 0 | Some s \<Rightarrow> cs_config_version s)\<rparr>"
    define m where "m = (case found of None \<Rightarrow> (Inr (), ?c) | Some s \<Rightarrow> start_snapshot env s ?c)"
    obtain z d where z: "m = (z, d)" by (cases m)
    have c': "same_queue a ?c" using c by (simp add: same_queue_def)
    have d: "same_queue a d"
    proof (cases found)
      case (Some s)
      with z start_snapshot_frame [of env s ?c z d] c' show ?thesis by (simp add: m_def same_queue_def)
    qed (use z c' m_def in simp)
    have "snd (start env a) = (case z of Inl _ \<Rightarrow> startup_failed env d | Inr _ \<Rightarrow> steady d)"
      using False l Inr z by (simp add: start_def m_def Let_def split: sum.split)
    with d show ?thesis by (simp add: startup_failed_def fatal_fields split: sum.split)
  qed
qed (auto simp: start_def same_queue_def)

lemma close_given: "given a \<subseteq> given (close env a) \<and> ag_next (close env a) = ag_next a"
proof -
  define b where "b = a\<lparr>ag_closing := True, ag_state := (if ag_state a = A_FAILED then A_FAILED else A_STOPPING)\<rparr>"
  have b: "ag_replies b = ag_replies a" "ag_next b = ag_next a" by (simp_all add: b_def)
  obtain d where d: "drain ''STOPPING'' b = b\<lparr>ag_queue := [], ag_replies := d\<rparr>" using drain_fields(1) by blast
  have "dget d f = Some r" if "dget (ag_replies a) f = Some r" for f r
    using drain_fields(3) [of b f r "''STOPPING''"] that by (simp add: d b)
  then show ?thesis
    by (auto simp: given_def close_def b_def [symmetric] d on_runtime_def Let_def b split: prod.split sum.split)
qed

lemma submit_given: "given (snd (submit payload kind a)) = given a \<and> ag_next a \<le> ag_next (snd (submit payload kind a))"
  using submit_result [of payload kind a] by (auto simp: given_def)

lemma serve_given:
  assumes "agent_ok C a" "env_ok C env"
  shows "given a \<subseteq> given (serve env a) \<and> ag_next (serve env a) = ag_next a \<and> length (ag_queue (serve env a)) \<le> length (ag_queue a) - 1"
proof (cases "ag_queue a")
  case (Cons x rest)
  then obtain payload f kind where "ag_queue a = (payload, f, kind) # rest" by (cases x) auto
  from serve_result [OF assms this] Cons show ?thesis by (auto simp: given_def)
qed (simp add: serve_def)

interpretation agent_answers: monotone_system "agent_init C" "agent_step C" "agent_ok C" given
proof
  show "agent_step C s t \<Longrightarrow> agent_ok C s \<Longrightarrow> given s \<subseteq> given t" for s t
    by (induction rule: agent_step.cases) (use given_same [OF start_same] submit_given serve_given close_given in blast)+
qed

section \<open>A concrete agent\<close>

definition demo_runtime_env :: runtime_env where
  "demo_runtime_env = \<lparr>re_factory = Some (\<lambda>n d. Inr n), re_call = (\<lambda>n b r. None), re_clock = (\<lambda>n. 0)\<rparr>"

definition demo_agent_env :: agent_env where
  "demo_agent_env = \<lparr>ge_job = (\<lambda>n. Ran), ge_store = (\<lambda>n. demo_store_env), ge_runtime = demo_runtime_env, ge_close = True\<rparr>"

definition demo_agent :: "ProcessBootContext \<Rightarrow> agent" where
  "demo_agent boot = agent_new 4 (runtime_new boot) demo_store"

definition demo_queued :: "ProcessBootContext \<Rightarrow> agent" where
  "demo_queued boot = (demo_agent boot)\<lparr>ag_state := A_WAITING_CONFIG, ag_jobs := 1, ag_queue := [(''set'', 0, ''configSet'')], ag_next := 1\<rparr>"

lemma demo_agent_env_ok: "env_ok demo_contract demo_agent_env"
  by (simp add: env_ok_def demo_agent_env_def demo_store_env_def)

lemma demo_agent_init: "boot_new ''boot-1'' 0 = Inr boot \<Longrightarrow> agent_init demo_contract (demo_agent boot)"
  using demo_store_init unfolding agent_init_def demo_agent_def by blast

lemma demo_boot_exists: "\<exists>boot. boot_new ''boot-1'' 0 = Inr boot"
  by (simp add: boot_new_def acct_new_def)

lemma demo_agent_queued: "(agent_step demo_contract)\<^sup>*\<^sup>* (demo_agent boot) (demo_queued boot)"
proof -
  have "start demo_agent_env (demo_agent boot) = (Inr (), (demo_agent boot)\<lparr>ag_state := A_WAITING_CONFIG, ag_jobs := 1\<rparr>)" (is "_ = (_, ?b)")
    by (simp add: start_def demo_agent_def agent_new_def store_call_def demo_agent_env_def load_call_def load_active_def demo_store_def
        empty_config_def active_version_def steady_def Let_def)
  then have "agent_step demo_contract (demo_agent boot) ?b" using ag_starts [OF demo_agent_env_ok, of "demo_agent boot"] by simp
  moreover have "snd (submit ''set'' ''configSet'' ?b) = demo_queued boot"
    by (simp add: submit_def demo_queued_def demo_agent_def agent_new_def MAX_PAYLOAD_def)
  then have "agent_step demo_contract ?b (demo_queued boot)" using ag_submits [of demo_contract ?b "''set''" "''configSet''"] by simp
  ultimately show ?thesis by auto
qed

section \<open>Properties\<close>

text \<open>C8. What the agent announces is what is stored and what runs: in every state it reaches, through any starts,
  submissions, turns of the coordinator and closes, with storage jobs that are refused, fail or lose their result and
  runners that fail, an agent that announces WAITING_CONFIG, RUNNING or DISABLED reports the version a restart
  would load; its active configuration is a committed row that decodes to it, the runtime has published the same
  content and no transition is pending, and the state says whether it is enabled.\<close>

theorem agent_announces:
  assumes "agent_init C a0" "(agent_step C)\<^sup>*\<^sup>* a0 a" "ag_state a \<in> {A_WAITING_CONFIG, A_RUNNING, A_DISABLED}"
  shows "ag_state a = announced a \<and> ag_durable a = Some (active_version (co_db (ag_store a))) \<and> rt_pending (ag_runtime a) = None
    \<and> (case ag_active a of
         None \<Rightarrow> active_version (co_db (ag_store a)) = 0 \<and> rt_snapshot (ag_runtime a) = None
       | Some s \<Rightarrow> cs_config_version s = active_version (co_db (ag_store a)) \<and> active_message_id a = Some (cs_message_id s)
           \<and> (\<exists>row. (cs_config_version s, row) \<in> committed_rows (co_db (ag_store a)) \<and> decodes C (co_gateway (ag_store a)) (cs_config_version s) row s)
           \<and> (\<exists>p. rt_snapshot (ag_runtime a) = Some p \<and> cs_config_version p = cs_config_version s \<and> cs_content_json p = cs_content_json s))"
proof -
  note ok = agent_okD [OF agent_system.reachable_inv [OF assms(1,2)]]
  from ok(5) [OF assms(3)] ok(6) [OF assms(3)] show ?thesis
    by (auto simp: synced_def stored_def same_content_def active_message_id_def split: option.splits)
qed

theorem agent_announces_witness:
  "\<exists>boot. ag_state (demo_queued boot) = announced (demo_queued boot) \<and> ag_durable (demo_queued boot) = Some 0"
proof -
  obtain boot where boot: "boot_new ''boot-1'' 0 = Inr boot" using demo_boot_exists by blast
  have "ag_state (demo_queued boot) \<in> {A_WAITING_CONFIG, A_RUNNING, A_DISABLED}" by (simp add: demo_queued_def)
  from agent_announces [OF demo_agent_init [OF boot] demo_agent_queued this] show ?thesis
    by (intro exI [of _ boot]) (simp add: demo_queued_def demo_agent_def agent_new_def demo_store_def empty_config_def active_version_def)
qed



text \<open>C24. Every accepted request is answered, once: whatever the agent goes through, each future handed out by \<open>submit\<close>
  is either still queued or has its answer, never both; an answer is never changed afterwards; and when the agent no
  longer serves, stopped or failed, every one has its answer.\<close>

theorem answered_once:
  assumes "agent_init C a0" "(agent_step C)\<^sup>*\<^sup>* a0 a" "(agent_step C)\<^sup>*\<^sup>* a b"
  shows "(\<forall>f < ag_next b. f \<in> set (futures b) \<longleftrightarrow> dget (ag_replies b) f = None) \<and> distinct (futures b)
    \<and> (\<forall>f r. dget (ag_replies a) f = Some r \<longrightarrow> dget (ag_replies b) f = Some r)
    \<and> (ag_state b \<in> {A_STOPPED, A_FAILED} \<longrightarrow> (\<forall>f < ag_next b. dget (ag_replies b) f \<noteq> None))"
proof -
  note inv = agent_system.reachable_inv [OF assms(1,2)]
  note ok = agent_okD [OF agent_system.inv_steps [OF assms(3) inv]]
  from agent_answers.gauge_steps [OF assms(3) inv] have "\<forall>f r. dget (ag_replies a) f = Some r \<longrightarrow> dget (ag_replies b) f = Some r"
    by (auto simp: given_def)
  moreover have "futures b = []" if "ag_state b \<in> {A_STOPPED, A_FAILED}" using ok(7) that by (auto simp: futures_def)
  ultimately show ?thesis using ok(2) by (auto simp: owed_ok_def answered_def)
qed

theorem answered_once_witness:
  "\<exists>boot. (0 \<in> set (futures (demo_queued boot)) \<longleftrightarrow> dget (ag_replies (demo_queued boot)) 0 = None)"
proof -
  obtain boot where boot: "boot_new ''boot-1'' 0 = Inr boot" using demo_boot_exists by blast
  have "0 < ag_next (demo_queued boot)" by (simp add: demo_queued_def)
  with answered_once [OF demo_agent_init [OF boot] demo_agent_queued rtranclp.rtrancl_refl] show ?thesis by blast
qed

lemma serve_all:
  assumes "agent_ok C a" "\<forall>env \<in> set envs. env_ok C env" "length (ag_queue a) \<le> length envs"
  shows "agent_ok C (fold serve envs a) \<and> ag_next (fold serve envs a) = ag_next a \<and> ag_queue (fold serve envs a) = []"
  using assms
proof (induction envs arbitrary: a)
  case (Cons env envs)
  from Cons.prems have env: "env_ok C env" by simp
  have "length (ag_queue (serve env a)) \<le> length (ag_queue a) - 1" using serve_given [OF Cons.prems(1) env] by blast
  moreover have "length (ag_queue a) - 1 \<le> length envs" using Cons.prems(3) by simp
  ultimately have "length (ag_queue (serve env a)) \<le> length envs" by (rule order.trans)
  from Cons.IH [OF serve_ok [OF Cons.prems(1) env] _ this] serve_given [OF Cons.prems(1) env] Cons.prems(2) show ?case by simp
qed simp

text \<open>C25. The coordinator serves its queue: as many turns as there are requests waiting leave every request that
  had been accepted with an answer, whatever fails during these turns.\<close>

theorem queue_served:
  assumes "agent_init C a0" "(agent_step C)\<^sup>*\<^sup>* a0 a" "\<forall>env \<in> set envs. env_ok C env" "length (ag_queue a) \<le> length envs" "f < ag_next a"
  shows "dget (ag_replies (fold serve envs a)) f \<noteq> None"
proof -
  from serve_all [OF agent_system.reachable_inv [OF assms(1,2)] assms(3,4)]
  have "owed_ok (fold serve envs a)" "ag_next (fold serve envs a) = ag_next a" "ag_queue (fold serve envs a) = []" using agent_okD(2) by blast+
  with assms(5) show ?thesis by (auto simp: owed_ok_def futures_def answered_def)
qed

theorem queue_served_witness: "\<exists>boot. dget (ag_replies (serve demo_agent_env (demo_queued boot))) 0 \<noteq> None"
proof -
  obtain boot where boot: "boot_new ''boot-1'' 0 = Inr boot" using demo_boot_exists by blast
  have "0 < ag_next (demo_queued boot)" "length (ag_queue (demo_queued boot)) \<le> length [demo_agent_env]" by (simp_all add: demo_queued_def)
  with queue_served [OF demo_agent_init [OF boot] demo_agent_queued, of "[demo_agent_env]" 0] demo_agent_env_ok show ?thesis by auto
qed

end
