(* ===== verification/Modbus.thy ===== *)
theory Modbus
  imports ReadPlan Records "HOL-Library.Word"
begin

unbundle bit_operations_syntax

text \<open>
  The Modbus driver of \<^verbatim>\<open>drivers/modbus.py\<close>: decoding of registers, the reading of a block with its
  fallback to single points, retries, and the pool of connections. The PyModbus client is a parameter: the
  outcome of each request is a \<open>reply\<close>. Cancellation of a request and the sleeping between retries are not
  modelled.
\<close>

section \<open>Decoding\<close>

text \<open>What a response holds: bits or registers.\<close>

datatype mb_value = MBit bool | MReg int

text \<open>\<open>ReadError\<close> with its quality and exception code, or any other exception.\<close>

datatype fault = ReadError quality "nat option" | Raised exn

text \<open>\<^verbatim>\<open>struct.pack('>H', v)\<close>; a bool is an int.\<close>

fun pack_register :: "mb_value \<Rightarrow> int list res" where
  "pack_register (MReg n) = (if 0 \<le> n \<and> n \<le> 65535 then Inr [n div 256, n mod 256] else Inl (ValueError ''struct.error''))"
| "pack_register (MBit b) = Inr [0, if b then 1 else 0]"

fun pack_wire :: "mb_value list \<Rightarrow> int list res" where
  "pack_wire [] = Inr []"
| "pack_wire (v # vs) = rbind (pack_register v) (\<lambda>b. rbind (pack_wire vs) (\<lambda>bs. Inr (b @ bs)))"

text \<open>\<^verbatim>\<open>order.index(letter)\<close>.\<close>

fun index_of :: "char \<Rightarrow> string \<Rightarrow> nat res" where
  "index_of c [] = Inl (ValueError ''substring not found'')"
| "index_of c (d # ds) = (if c = d then Inr 0 else rbind (index_of c ds) (\<lambda>i. Inr (Suc i)))"

fun canonical :: "string \<Rightarrow> int list \<Rightarrow> string \<Rightarrow> int list res" where
  "canonical order wire [] = Inr []"
| "canonical order wire (letter # letters) =
     rbind (index_of letter order) (\<lambda>i.
       if i < length wire then rbind (canonical order wire letters) (\<lambda>bs. Inr (wire ! i # bs)) else Inl IndexError)"

definition big_endian :: "int list \<Rightarrow> int" where
  "big_endian bytes = foldl (\<lambda>a b. a * 256 + b) 0 bytes"

text \<open>The value of a binary32 number.\<close>

definition float32 :: "32 word \<Rightarrow> pynum" where
  "float32 w =
     (let e = unat (drop_bit 23 w AND 255); m = of_int (uint (take_bit 23 w)) :: rat; s = (if bit w 31 then -1 else 1)
      in if e = 255 then PyNonFinite
         else if e = 0 then PyFloat (s * m / 2 ^ 149)
         else PyFloat (s * (2 ^ 23 + m) * 2 ^ e / 2 ^ 150))"

text \<open>\<open>formats\<close>: the size in bytes and how the canonical bytes are unpacked.\<close>

definition unpack_format :: "string \<Rightarrow> (nat \<times> (int \<Rightarrow> pynum)) option" where
  "unpack_format ty =
     (if ty = ''int16'' then Some (2, \<lambda>n. PyInt (sint (word_of_int n :: 16 word)))
      else if ty = ''uint16'' then Some (2, \<lambda>n. PyInt (uint (word_of_int n :: 16 word)))
      else if ty = ''int32'' then Some (4, \<lambda>n. PyInt (sint (word_of_int n :: 32 word)))
      else if ty = ''uint32'' then Some (4, \<lambda>n. PyInt (uint (word_of_int n :: 32 word)))
      else if ty = ''float32'' then Some (4, \<lambda>n. float32 (word_of_int n)) else None)"

definition byte_order :: "PointConfig \<Rightarrow> string res" where
  "byte_order p = (case pc_modbus p of None \<Rightarrow> Inl AttributeError
     | Some a \<Rightarrow> (case mb_byte_order a of None \<Rightarrow> Inl AttributeError | Some order \<Rightarrow> Inr order))"

definition scaled :: "PointConfig \<Rightarrow> pynum \<Rightarrow> pyval res" where
  "scaled p raw =
     rbind (py_mul raw (pc_scale p)) (\<lambda>x. rbind (py_add x (pc_offset p)) (\<lambda>y.
       if num_finite y then Inr (VNum y) else Inl (ValueError ''Nonfinite value'')))"

definition decode_value :: "PointConfig \<Rightarrow> mb_value list \<Rightarrow> pyval res" where
  "decode_value p vs =
     (if pc_data_type p = ''bool''
      then (case vs of MBit b # _ \<Rightarrow> Inr (VBool b) | _ \<Rightarrow> Inl (ValueError ''Expected bit''))
      else case unpack_format (pc_data_type p) of
             None \<Rightarrow> Inl KeyError
           | Some (size_bytes, unpack) \<Rightarrow>
               (if length vs * 2 \<noteq> size_bytes then Inl (ValueError ''Unexpected register count'')
                else rbind (pack_wire vs) (\<lambda>wire. rbind (byte_order p) (\<lambda>order.
                     rbind (canonical order wire (take size_bytes ''ABCD'')) (\<lambda>bytes. scaled p (unpack (big_endian bytes)))))))"

fun decode_caught :: "exn \<Rightarrow> bool" where
  "decode_caught TypeError = True"
| "decode_caught KeyError = True"
| "decode_caught OverflowError = True"
| "decode_caught e = is_value_error e"

definition decode :: "PointConfig \<Rightarrow> mb_value list \<Rightarrow> fault + pyval" where
  "decode p vs = (case decode_value p vs of Inr v \<Rightarrow> Inr v
     | Inl e \<Rightarrow> Inl (if decode_caught e then ReadError BAD_DECODE None else Raised e))"

section \<open>The connection pool\<close>

record pool_entry =
  pe_id :: nat
  pe_references :: nat

record pool =
  po_capacity :: nat
  po_entries :: "(string \<times> int, pool_entry) dict"
  po_next :: nat
  po_closed :: "nat list"

definition pool_new :: "nat \<Rightarrow> pool res" where
  "pool_new capacity = (if 1 \<le> capacity \<and> capacity \<le> 50
     then Inr \<lparr>po_capacity = capacity, po_entries = [], po_next = 0, po_closed = []\<rparr>
     else Inl (ValueError ''Modbus endpoint capacity must be 1..50''))"

text \<open>The key of an endpoint is its host in lower case and its port. Entries are told apart by a number;
  \<open>po_closed\<close> lists the entries that were disconnected by their last owner.\<close>

definition lower_char :: "char \<Rightarrow> char" where
  "lower_char c = (let n = (of_char c :: nat) in if 65 \<le> n \<and> n \<le> 90 then char_of (n + 32) else c)"

definition pool_key :: "ConnectionConfig \<Rightarrow> string \<times> int" where
  "pool_key c = (map lower_char (cc_host c), cc_port c)"

definition pool_retain :: "ConnectionConfig \<Rightarrow> (nat, pool) prog" where
  "pool_retain c po =
     (let key = pool_key c
      in case dget (po_entries po) key of
           Some e \<Rightarrow> (Inr (pe_id e), po\<lparr>po_entries := dset key (e\<lparr>pe_references := pe_references e + 1\<rparr>) (po_entries po)\<rparr>)
         | None \<Rightarrow> (if length (po_entries po) \<ge> po_capacity po then (Inl (RuntimeError ''Modbus endpoint capacity exceeded''), po)
                   else (Inr (po_next po), po\<lparr>po_entries := dset key \<lparr>pe_id = po_next po, pe_references = 1\<rparr> (po_entries po),
                                             po_next := po_next po + 1\<rparr>)))"

definition pool_release :: "ConnectionConfig \<Rightarrow> nat \<Rightarrow> (unit, pool) prog" where
  "pool_release c i po =
     (let key = pool_key c
      in case dget (po_entries po) key of
           None \<Rightarrow> (Inl AssertionError, po)
         | Some e \<Rightarrow> (if pe_id e \<noteq> i \<or> pe_references e = 0 then (Inl AssertionError, po)
                     else if pe_references e = 1
                     then (Inr (), po\<lparr>po_entries := ddel key (po_entries po),
                                     po_closed := i # po_closed po\<rparr>)
                     else (Inr (), po\<lparr>po_entries := dset key (e\<lparr>pe_references := pe_references e - 1\<rparr>) (po_entries po)\<rparr>)))"

section \<open>One request\<close>

text \<open>The outcome of a request of the client. While connecting: no connection (refused, an operating system or
  connection error), a timeout, or a protocol exception (with whether the client is then disconnected). Once connected:
  a timeout, an operating system or connection error, a protocol exception, or a response.\<close>

datatype reply =
    NoConnection
  | ConnectTimeout
  | ConnectModbus bool
  | RequestTimeout bool
  | OsFailure
  | ModbusFailure bool
  | Response bool "nat option" nat "bool list" "int list"

definition function_code :: "string \<Rightarrow> nat option" where
  "function_code area = (if area = ''coil'' then Some 1 else if area = ''discrete_input'' then Some 2
     else if area = ''holding_register'' then Some 3 else if area = ''input_register'' then Some 4 else None)"

text \<open>\<open>_read_once\<close>: the values or the fault, and whether the socket is discarded.\<close>

definition modbus_fault :: "bool \<Rightarrow> (fault + mb_value list) \<times> bool" where
  "modbus_fault disconnected = (Inl (ReadError (if disconnected then BAD_CONNECTION else BAD_PROTOCOL) None), True)"

definition check_response :: "ReadBlock \<Rightarrow> nat \<Rightarrow> bool \<Rightarrow> nat option \<Rightarrow> nat \<Rightarrow> bool list \<Rightarrow> int list \<Rightarrow> fault + mb_value list" where
  "check_response block fc err code rfc bits registers =
     (let values = (if fc < 3 then map MBit bits else map MReg registers)
      in if err then Inl (ReadError BAD_PROTOCOL code)
         else if rfc \<noteq> fc then Inl (ReadError BAD_PROTOCOL None)
         else if int (length values) < rb_count block \<or> fc \<ge> 3 \<and> int (length values) \<noteq> rb_count block
         then Inl (ReadError BAD_PROTOCOL None)
         else Inr values)"

definition read_once :: "ReadBlock \<Rightarrow> reply \<Rightarrow> (fault + mb_value list) \<times> bool" where
  "read_once block reply =
     (case reply of
        NoConnection \<Rightarrow> (Inl (ReadError BAD_CONNECTION None), True)
      | ConnectTimeout \<Rightarrow> (Inl (ReadError BAD_CONNECTION None), True)
      | ConnectModbus disconnected \<Rightarrow> modbus_fault disconnected
      | _ \<Rightarrow>
         (case function_code (rb_area block) of
            None \<Rightarrow> (Inl (Raised KeyError), False)
          | Some fc \<Rightarrow>
             (case reply of
                RequestTimeout disconnected \<Rightarrow> (Inl (ReadError (if disconnected then BAD_CONNECTION else BAD_TIMEOUT) None), True)
              | ModbusFailure disconnected \<Rightarrow> modbus_fault disconnected
              | Response err code rfc bits registers \<Rightarrow> (check_response block fc err code rfc bits registers, False)
              | _ \<Rightarrow> (Inl (ReadError BAD_CONNECTION None), True))))"

definition transient :: "fault \<Rightarrow> bool" where
  "transient f = (case f of ReadError q _ \<Rightarrow> q \<in> {BAD_TIMEOUT, BAD_CONNECTION} | Raised _ \<Rightarrow> False)"

text \<open>\<open>_read_raw\<close>: the n-th request of the reader and its retries; the result and the number of the next request.\<close>

fun read_attempts :: "(nat \<Rightarrow> reply) \<Rightarrow> nat \<Rightarrow> ReadBlock \<Rightarrow> nat \<Rightarrow> (fault + mb_value list) \<times> nat" where
  "read_attempts replies 0 block n = (fst (read_once block (replies n)), n + 1)"
| "read_attempts replies (Suc k) block n =
     (case fst (read_once block (replies n)) of
        Inl f \<Rightarrow> if transient f then read_attempts replies k block (n + 1) else (Inl f, n + 1)
      | Inr vs \<Rightarrow> (Inr vs, n + 1))"

definition read_raw :: "(nat \<Rightarrow> reply) \<Rightarrow> bool \<Rightarrow> nat \<Rightarrow> ReadBlock \<Rightarrow> nat \<Rightarrow> (fault + mb_value list) \<times> nat" where
  "read_raw replies released retries block n =
     (if released then (Inl (ReadError BAD_CONNECTION None), n) else read_attempts replies retries block n)"

section \<open>A block\<close>

text \<open>\<^verbatim>\<open>xs[a:b]\<close>.\<close>

definition py_slice :: "'a list \<Rightarrow> int \<Rightarrow> int \<Rightarrow> 'a list" where
  "py_slice xs a b =
     (let n = int (length xs); clip = (\<lambda>i. if i < 0 then max 0 (i + n) else min i n)
      in take (nat (clip b - clip a)) (drop (nat (clip a)) xs))"

definition point_block :: "PointConfig \<Rightarrow> fault + ReadBlock" where
  "point_block p = (case pc_modbus p of None \<Rightarrow> Inl (Raised AttributeError)
     | Some a \<Rightarrow> Inr \<lparr>rb_area = mb_area a, rb_address = mb_address a, rb_count = width p, rb_poll_interval_ms = pc_poll_interval_ms p, rb_points = [p]\<rparr>)"

type_synonym outcomes = "(string, pyval \<times> quality) dict"

text \<open>The loop of the fallback: points still to read, outcomes so far, requests used.\<close>

fun fallback :: "(nat \<Rightarrow> reply) \<Rightarrow> bool \<Rightarrow> nat \<Rightarrow> PointConfig list \<Rightarrow> outcomes \<Rightarrow> nat \<Rightarrow> nat \<Rightarrow> (fault + outcomes \<times> nat) \<times> nat" where
  "fallback replies released budget [] results used n = (Inr (results, used), n)"
| "fallback replies released budget (p # ps) results used n =
     (if used \<ge> budget
      then fallback replies released budget ps (dset (pc_point_id p) (VNone, BAD_PROTOCOL) results) used n
      else case point_block p of
             Inl f \<Rightarrow> (Inl f, n)
           | Inr b \<Rightarrow>
              (let (raw, m) = read_raw replies released 0 b n
               in case (case raw of Inl f \<Rightarrow> Inl f | Inr vs \<Rightarrow> decode p (py_slice vs 0 (width p))) of
                    Inr v \<Rightarrow> fallback replies released budget ps (dset (pc_point_id p) (v, GOOD) results) (used + 1) m
                  | Inl (Raised e) \<Rightarrow> (Inl (Raised e), m)
                  | Inl (ReadError q code) \<Rightarrow>
                      (if q \<in> {BAD_TIMEOUT, BAD_CONNECTION}
                       then (Inr (fold (\<lambda>r. dset (pc_point_id r) (VNone, q)) (p # ps) results, used + 1), m)
                       else fallback replies released budget ps (dset (pc_point_id p) (VNone, q) results) (used + 1) m)))"

text \<open>The values of a block, cut to its points.\<close>

fun split_block :: "ReadBlock \<Rightarrow> mb_value list \<Rightarrow> PointConfig list \<Rightarrow> outcomes \<Rightarrow> fault + outcomes" where
  "split_block block vs [] results = Inr results"
| "split_block block vs (p # ps) results =
     (case pc_modbus p of
        None \<Rightarrow> Inl (Raised AttributeError)
      | Some a \<Rightarrow>
         (let off = mb_address a - rb_address block
          in case decode p (py_slice vs off (off + width p)) of
               Inr v \<Rightarrow> split_block block vs ps (dset (pc_point_id p) (v, GOOD) results)
             | Inl (ReadError q _) \<Rightarrow> split_block block vs ps (dset (pc_point_id p) (VNone, q) results)
             | Inl (Raised e) \<Rightarrow> Inl (Raised e)))"

definition read_block :: "(nat \<Rightarrow> reply) \<Rightarrow> bool \<Rightarrow> nat \<Rightarrow> ReadBlock \<Rightarrow> nat \<Rightarrow> nat \<Rightarrow> (fault + outcomes \<times> nat) \<times> nat" where
  "read_block replies released retry_count block budget n =
     (let (raw, m) = read_raw replies released retry_count block n
      in case raw of
           Inr vs \<Rightarrow> (case split_block block vs (rb_points block) [] of Inl f \<Rightarrow> (Inl f, m) | Inr results \<Rightarrow> (Inr (results, 0), m))
         | Inl (ReadError q code) \<Rightarrow>
             (if code \<noteq> Some 2 \<or> length (rb_points block) = 1 then (Inl (ReadError q code), m)
              else fallback replies released budget (rb_points block) [] 0 m)
         | Inl (Raised e) \<Rightarrow> (Inl (Raised e), m))"

definition read_point :: "(nat \<Rightarrow> reply) \<Rightarrow> bool \<Rightarrow> nat \<Rightarrow> PointConfig \<Rightarrow> nat \<Rightarrow> (fault + pyval) \<times> nat" where
  "read_point replies released retry_count p n =
     (case point_block p of Inl f \<Rightarrow> (Inl f, n)
      | Inr b \<Rightarrow> (let (raw, m) = read_raw replies released retry_count b n
                 in (case raw of Inl f \<Rightarrow> Inl f | Inr vs \<Rightarrow> decode p (py_slice vs 0 (width p)), m)))"

end
