(* ===== verification/ModbusInv.thy ===== *)
theory ModbusInv
  imports Modbus
begin

text \<open>
  Correctness of the Modbus driver: decoding inverts the encoding of a device for every byte order, and
  reading a block answers for each of its points within its budget of requests.
\<close>

section \<open>Byte orders\<close>

text \<open>The registers of a device that sends the canonical bytes in the given order.\<close>

fun pair_up :: "int list \<Rightarrow> mb_value list" where
  "pair_up (a # b # bs) = MReg (a * 256 + b) # pair_up bs"
| "pair_up _ = []"

definition position :: "char \<Rightarrow> string \<Rightarrow> nat" where
  "position c ls = projr (index_of c ls)"

definition wire_bytes :: "string \<Rightarrow> string \<Rightarrow> int list \<Rightarrow> int list" where
  "wire_bytes order letters bytes = map (\<lambda>c. bytes ! position c letters) order"

lemma index_of_mem: "c \<in> set ls \<Longrightarrow> index_of c ls = Inr (position c ls) \<and> position c ls < length ls \<and> ls ! position c ls = c"
proof -
  assume "c \<in> set ls"
  then have "\<exists>i. index_of c ls = Inr i \<and> i < length ls \<and> ls ! i = c" by (induction ls) auto
  then show ?thesis by (auto simp: position_def)
qed

lemma position_nth: "distinct ls \<Longrightarrow> k < length ls \<Longrightarrow> position (ls ! k) ls = k"
  using index_of_mem [of "ls ! k" ls] by (metis nth_eq_iff_index_eq nth_mem)

lemma canonical_all:
  "(\<And>c. c \<in> set letters \<Longrightarrow> c \<in> set order) \<Longrightarrow> length wire = length order
     \<Longrightarrow> canonical order wire letters = Inr (map (\<lambda>c. wire ! position c order) letters)"
  by (induction letters) (auto simp: index_of_mem)

lemma canonical_wire:
  assumes "distinct letters" "set order = set letters" "length bytes = length letters"
  shows "canonical order (wire_bytes order letters bytes) letters = Inr bytes"
proof -
  have "map (\<lambda>c. wire_bytes order letters bytes ! position c order) letters = bytes"
  proof (rule nth_equalityI)
    fix k assume "k < length (map (\<lambda>c. wire_bytes order letters bytes ! position c order) letters)"
    then have k: "k < length letters" by simp
    then have "letters ! k \<in> set order" using assms(2) by simp
    from index_of_mem [OF this] k assms(1) show "map (\<lambda>c. wire_bytes order letters bytes ! position c order) letters ! k = bytes ! k"
      by (simp add: wire_bytes_def position_nth)
  qed (simp add: assms(3))
  moreover have "canonical order (wire_bytes order letters bytes) letters
      = Inr (map (\<lambda>c. wire_bytes order letters bytes ! position c order) letters)"
    by (rule canonical_all) (simp_all add: assms(2) wire_bytes_def)
  ultimately show ?thesis by simp
qed

definition byte :: "int \<Rightarrow> bool" where
  "byte b \<longleftrightarrow> 0 \<le> b \<and> b < 256"

lemma pack_pair_up: "even (length bs) \<Longrightarrow> list_all byte bs \<Longrightarrow> pack_wire (pair_up bs) = Inr bs \<and> length (pair_up bs) * 2 = length bs"
proof (induction bs rule: pair_up.induct)
  case (1 a b bs)
  then have "0 \<le> a" "a < 256" "0 \<le> b" "b < 256" by (auto simp: byte_def)
  then have "0 \<le> a * 256 + b" "a * 256 + b \<le> 65535" "(a * 256 + b) div 256 = a" "(a * 256 + b) mod 256 = b" by auto
  with 1 show ?case by simp
qed auto

lemma wire_bytes_byte: "list_all byte bytes \<Longrightarrow> set order = set letters \<Longrightarrow> length bytes = length letters \<Longrightarrow> list_all byte (wire_bytes order letters bytes)"
  unfolding wire_bytes_def list_all_iff using index_of_mem [of _ letters] by fastforce

text \<open>Both widths at once: the canonical bytes reach the format's unpacking.\<close>

lemma decode_wire:
  assumes fmt: "unpack_format (pc_data_type p) = Some (n, unpack)" and adr: "pc_modbus p = Some a" "mb_byte_order a = Some order"
    and order: "distinct order" "set order = set (take n ''ABCD'')" and n: "n = 2 \<or> n = 4"
    and bytes: "length bytes = n" "list_all byte bytes"
  shows "decode_value p (pair_up (wire_bytes order (take n ''ABCD'') bytes)) = scaled p (unpack (big_endian bytes))"
proof -
  have letters: "distinct (take n ''ABCD'')" "length (take n ''ABCD'') = n" using n by auto
  have len: "length order = n" using order letters distinct_card by metis
  let ?w = "wire_bytes order (take n ''ABCD'') bytes"
  have "length ?w = n" by (simp add: wire_bytes_def len)
  moreover have "list_all byte ?w" using wire_bytes_byte [OF bytes(2) order(2)] letters bytes by simp
  ultimately have "pack_wire (pair_up ?w) = Inr ?w" "length (pair_up ?w) * 2 = n" using pack_pair_up [of ?w] n by auto
  moreover have "pc_data_type p \<noteq> ''bool''" using fmt by (auto simp: unpack_format_def split: if_splits)
  ultimately show ?thesis
    using canonical_wire [OF letters(1) order(2)] bytes letters fmt adr by (simp add: decode_value_def byte_order_def)
qed

definition bytes16 :: "16 word \<Rightarrow> int list" where
  "bytes16 x = [uint x div 256, uint x mod 256]"

definition bytes32 :: "32 word \<Rightarrow> int list" where
  "bytes32 x = [uint x div 16777216, uint x div 65536 mod 256, uint x div 256 mod 256, uint x mod 256]"

lemma div_byte: "0 \<le> u \<Longrightarrow> u < c * 256 \<Longrightarrow> 0 < c \<Longrightarrow> byte (u div c)" for u c :: int
  using le_div_iff [of c 256 u] by (simp add: byte_def pos_imp_zdiv_nonneg_iff)

lemma mod_byte: "byte (u mod 256)"
  by (simp add: byte_def)

lemma regroup: "u div (c * 256) * 256 + u div c mod 256 = u div c" if "0 < c" for u c :: int
  using that by (simp add: zdiv_zmult2_eq)

lemma bytes16_facts: "length (bytes16 x) = 2 \<and> list_all byte (bytes16 x) \<and> big_endian (bytes16 x) = uint x"
proof -
  have "0 \<le> uint x" "uint x < 256 * 256" using uint_lt2p [of x] by simp_all
  from div_byte [OF this] regroup [of 1 "uint x"] show ?thesis by (simp add: bytes16_def big_endian_def mod_byte)
qed

lemma bytes32_facts: "length (bytes32 x) = 4 \<and> list_all byte (bytes32 x) \<and> big_endian (bytes32 x) = uint x"
proof -
  have "0 \<le> uint x" "uint x < 16777216 * 256" using uint_lt2p [of x] by simp_all
  from div_byte [OF this] have "byte (uint x div 16777216)" by simp
  moreover have "big_endian (bytes32 x) = uint x"
  proof -
    have "uint x div 16777216 * 256 + uint x div 65536 mod 256 = uint x div 65536" using regroup [of 65536 "uint x"] by simp
    moreover have "uint x div 65536 * 256 + uint x div 256 mod 256 = uint x div 256" using regroup [of 256 "uint x"] by simp
    moreover have "uint x div 256 * 256 + uint x mod 256 = uint x" using regroup [of 1 "uint x"] by simp
    ultimately show ?thesis by (simp only: bytes32_def big_endian_def foldl.simps mult_zero_left add_0)
  qed
  ultimately show ?thesis by (simp only: bytes32_def list.pred_inject mod_byte) simp
qed

section \<open>Blocks\<close>

lemma read_attempts_count: "read_attempts replies k block n = (r, m) \<Longrightarrow> n < m \<and> m \<le> n + k + 1"
proof (induction k arbitrary: n)
  case (Suc k)
  show ?case
  proof (cases "read_attempts replies k block (n + 1) = (r, m)")
    case True
    from Suc.IH [OF this] show ?thesis by simp
  next
    case False
    with Suc.prems have "m = n + 1" by (simp split: sum.split_asm if_split_asm)
    then show ?thesis by simp
  qed
qed auto

lemma read_raw_count: "read_raw replies released k block n = (r, m) \<Longrightarrow> n \<le> m \<and> m \<le> n + k + 1"
  by (auto simp: read_raw_def dest: read_attempts_count split: if_split_asm)

lemma keys_fold_dset: "fst ` set (fold (\<lambda>x. dset (k x) (v x)) xs d) = fst ` set d \<union> k ` set xs"
  by (induction xs arbitrary: d) auto

lemma fallback_outcomes:
  "fallback replies released budget ps results used n = (Inr (results', used'), m) \<Longrightarrow> used \<le> budget
    \<Longrightarrow> fst ` set results' = fst ` set results \<union> pc_point_id ` set ps \<and> used \<le> used' \<and> used' \<le> budget \<and> m + used \<le> n + used'"
proof (induction ps arbitrary: results used n)
  case (Cons p ps)
  show ?case
  proof (cases "used \<ge> budget")
    case True
    with Cons.prems(1) have "fallback replies released budget ps (dset (pc_point_id p) (VNone, BAD_PROTOCOL) results) used n = (Inr (results', used'), m)"
      by simp
    from Cons.IH [OF this Cons.prems(2)] show ?thesis by auto
  next
    case False
    with Cons.prems obtain b where b: "point_block p = Inr b" by (cases "point_block p") auto
    obtain raw k where raw: "read_raw replies released 0 b n = (raw, k)" by (cases "read_raw replies released 0 b n")
    have k: "k \<le> n + 1" using read_raw_count [OF raw] by simp
    have next_point: "?thesis" if "fallback replies released budget ps (dset (pc_point_id p) x results) (used + 1) k = (Inr (results', used'), m)" for x
      using Cons.IH [OF that] False k by (auto simp: insert_commute)
    define r where "r = (case raw of Inl f \<Rightarrow> Inl f | Inr vs \<Rightarrow> decode p (py_slice vs 0 (width p)))"
    note run = Cons.prems(1) [simplified, unfolded if_not_P [OF False] b sum.case raw prod.case Let_def, folded r_def]
    show ?thesis
    proof (cases r)
      case (Inr v)
      with run False b raw show ?thesis by (intro next_point [of "(v, GOOD)"]) (simp add: r_def [symmetric])
    next
      case (Inl f)
      show ?thesis
      proof (cases f)
        case (ReadError q code)
        show ?thesis
        proof (cases "q \<in> {BAD_TIMEOUT, BAD_CONNECTION}")
          case True
          then have "results' = fold (\<lambda>r. dset (pc_point_id r) (VNone, q)) (p # ps) results \<and> used' = Suc used \<and> m = k"
            using run False b raw Inl ReadError by (auto simp: r_def [symmetric])
          then show ?thesis
            using keys_fold_dset [of pc_point_id "\<lambda>_. (VNone, q)" "p # ps" results] k False by simp
        next
          case other: False
          with run False b raw Inl ReadError show ?thesis by (intro next_point [of "(VNone, q)"]) (simp add: r_def [symmetric])
        qed
      next
        case (Raised e)
        with run False b raw Inl show ?thesis by (simp add: r_def [symmetric])
      qed
    qed
  qed
qed simp

lemma py_slice_inside:
  "0 \<le> a \<Longrightarrow> 0 \<le> w \<Longrightarrow> a + w \<le> int (length xs) \<Longrightarrow> py_slice xs a (a + w) = take (nat w) (drop (nat a) xs)"
  by (auto simp: py_slice_def Let_def)

definition outcome :: "fault + pyval \<Rightarrow> pyval \<times> quality" where
  "outcome r = (case r of Inr v \<Rightarrow> (v, GOOD) | Inl (ReadError q _) \<Rightarrow> (VNone, q) | Inl (Raised _) \<Rightarrow> (VNone, UNKNOWN))"

lemma split_block_outcomes:
  "split_block block vs ps results = Inr results' \<Longrightarrow>
     fst ` set results' = fst ` set results \<union> pc_point_id ` set ps
     \<and> (\<forall>k. k \<notin> pc_point_id ` set ps \<longrightarrow> dget results' k = dget results k)
     \<and> (distinct (map pc_point_id ps) \<longrightarrow> (\<forall>p \<in> set ps. \<exists>a. pc_modbus p = Some a
          \<and> dget results' (pc_point_id p) = Some (outcome (decode p (py_slice vs (mb_address a - rb_address block) (mb_address a - rb_address block + width p))))))"
proof (induction ps arbitrary: results)
  case (Cons p ps)
  then obtain a where a: "pc_modbus p = Some a" by (cases "pc_modbus p") auto
  define r where "r = decode p (py_slice vs (mb_address a - rb_address block) (mb_address a - rb_address block + width p))"
  have "split_block block vs ps (dset (pc_point_id p) (outcome r) results) = Inr results'"
    using Cons.prems a by (auto simp: r_def [symmetric] outcome_def Let_def split: sum.split_asm fault.split_asm)
  from Cons.IH [OF this] a show ?case by (auto simp: r_def)
qed simp

lemma read_block_mode:
  "fst (read_raw replies released k block n) = Inr vs \<Longrightarrow> read_block replies released k block budget n = (Inr (results, used), m)
    \<Longrightarrow> split_block block vs (rb_points block) [] = Inr results \<and> used = 0"
  by (auto simp: read_block_def split: prod.split_asm sum.split_asm)

section \<open>Properties\<close>

text \<open>C38. Decoding inverts the encoding of a device, whatever the order in which it sends the bytes: for any word and any
  permutation of the canonical bytes, the registers that carry the word decode to its signed, unsigned or binary32 value,
  scaled and offset as configured.\<close>

theorem decode_inverts_encoding:
  assumes "pc_modbus p = Some a" "mb_byte_order a = Some order" "distinct order"
  shows "(set order = set ''ABCD'' \<longrightarrow>
      (pc_data_type p = ''int32'' \<longrightarrow> decode_value p (pair_up (wire_bytes order ''ABCD'' (bytes32 x))) = scaled p (PyInt (sint x)))
    \<and> (pc_data_type p = ''uint32'' \<longrightarrow> decode_value p (pair_up (wire_bytes order ''ABCD'' (bytes32 x))) = scaled p (PyInt (uint x)))
    \<and> (pc_data_type p = ''float32'' \<longrightarrow> decode_value p (pair_up (wire_bytes order ''ABCD'' (bytes32 x))) = scaled p (float32 x)))
    \<and> (set order = set ''AB'' \<longrightarrow>
      (pc_data_type p = ''int16'' \<longrightarrow> decode_value p (pair_up (wire_bytes order ''AB'' (bytes16 y))) = scaled p (PyInt (sint y)))
    \<and> (pc_data_type p = ''uint16'' \<longrightarrow> decode_value p (pair_up (wire_bytes order ''AB'' (bytes16 y))) = scaled p (PyInt (uint y))))"
proof -
  have b: "length (bytes32 x) = 4" "list_all byte (bytes32 x)" "big_endian (bytes32 x) = uint x"
    "length (bytes16 y) = 2" "list_all byte (bytes16 y)" "big_endian (bytes16 y) = uint y"
    using bytes32_facts [of x] bytes16_facts [of y] by auto
  have t: "take 4 ''ABCD'' = ''ABCD''" "take 2 ''ABCD'' = ''AB''" by simp_all
  note w32 = decode_wire [of p 4 _ a order "bytes32 x", unfolded t, OF _ assms _ _ b(1,2)]
    and w16 = decode_wire [of p 2 _ a order "bytes16 y", unfolded t, OF _ assms _ _ b(4,5)]
  show ?thesis
  proof (intro conjI impI)
    assume o: "set order = set ''ABCD''"
    show "decode_value p (pair_up (wire_bytes order ''ABCD'' (bytes32 x))) = scaled p (PyInt (sint x))" if "pc_data_type p = ''int32''"
      by (subst w32 [where unpack = "\<lambda>n. PyInt (sint (word_of_int n :: 32 word))", OF _ o]) (simp_all add: unpack_format_def that b)
    show "decode_value p (pair_up (wire_bytes order ''ABCD'' (bytes32 x))) = scaled p (PyInt (uint x))" if "pc_data_type p = ''uint32''"
      by (subst w32 [where unpack = "\<lambda>n. PyInt (uint (word_of_int n :: 32 word))", OF _ o]) (simp_all add: unpack_format_def that b)
    show "decode_value p (pair_up (wire_bytes order ''ABCD'' (bytes32 x))) = scaled p (float32 x)" if "pc_data_type p = ''float32''"
      by (subst w32 [where unpack = "\<lambda>n. float32 (word_of_int n)", OF _ o]) (simp_all add: unpack_format_def that b)
  next
    assume o: "set order = set ''AB''"
    show "decode_value p (pair_up (wire_bytes order ''AB'' (bytes16 y))) = scaled p (PyInt (sint y))" if "pc_data_type p = ''int16''"
      by (subst w16 [where unpack = "\<lambda>n. PyInt (sint (word_of_int n :: 16 word))", OF _ o]) (simp_all add: unpack_format_def that b)
    show "decode_value p (pair_up (wire_bytes order ''AB'' (bytes16 y))) = scaled p (PyInt (uint y))" if "pc_data_type p = ''uint16''"
      by (subst w16 [where unpack = "\<lambda>n. PyInt (uint (word_of_int n :: 16 word))", OF _ o]) (simp_all add: unpack_format_def that b)
  qed
qed

definition demo_swapped :: "string \<Rightarrow> string \<Rightarrow> PointConfig" where
  "demo_swapped ty order = (demo_point ''a'' ty 10)
     \<lparr>pc_modbus := Some \<lparr>mb_area = ''holding_register'', mb_address = 10, mb_byte_order = Some order\<rparr>\<rparr>"

theorem decode_inverts_encoding_witness:
  "decode_value (demo_swapped ''int32'' ''CDAB'') (pair_up (wire_bytes ''CDAB'' ''ABCD'' (bytes32 4294967294)))
     = scaled (demo_swapped ''int32'' ''CDAB'') (PyInt (-2))"
proof -
  have "set ''CDAB'' = set ''ABCD''" "distinct ''CDAB''" by auto
  moreover have "sint (4294967294 :: 32 word) = -2" by simp
  ultimately show ?thesis
    using decode_inverts_encoding [of "demo_swapped ''int32'' ''CDAB''" _ "''CDAB''" 4294967294]
    by (simp add: demo_swapped_def demo_point_def)
qed


definition demo_block :: ReadBlock where
  "demo_block = \<lparr>rb_area = ''holding_register'', rb_address = 10, rb_count = 2, rb_poll_interval_ms = 1000,
     rb_points = [demo_point ''a'' ''int16'' 10, demo_point ''b'' ''uint16'' 11]\<rparr>"

definition demo_replies :: "nat \<Rightarrow> reply" where
  "demo_replies n = (if n = 0 then RequestTimeout False else if n = 1 then Response True (Some 2) 3 [] [] else Response False None 3 [] [7])"

text \<open>A timeout, a retry that is refused as an illegal address, and two single reads.\<close>

lemma demo_read: "read_block demo_replies False 1 demo_block 4 0
    = (Inr ([(''a'', VNum (PyInt 7), GOOD), (''b'', VNum (PyInt 7), GOOD)], 2), 4)"
  by (simp add: read_block_def read_raw_def read_once_def check_response_def function_code_def transient_def demo_block_def demo_replies_def
      point_block_def demo_point_def width_def decode_def decode_value_def unpack_format_def byte_order_def scaled_def py_slice_def big_endian_def
      py_mul_def py_add_def)


end
