(* ===== verification/Messages.thy ===== *)
theory Messages
  imports Lifecycle ConfigModel
begin

text \<open>
  The messages of \<^verbatim>\<open>messaging/messages.py\<close>: the correlation of a request and the acknowledgements, requests and
  status messages the agent publishes. Parameters: the JSON codec and the contracts' own parameters
  (\<open>contract_env\<close>), the clock reading \<open>now\<close> in place of \<^verbatim>\<open>time.time_ns\<close>, and the drawn uuid.
\<close>

section \<open>Correlation\<close>

text \<open>\<open>identity\<close>: message id and version of a request that can be answered. Its decoder hooks are those of the contracts:
  no repeated member, no number that is not finite.\<close>

definition identity_fields :: "(string, json) dict \<Rightarrow> string \<Rightarrow> (string \<times> nat) option" where
  "identity_fields ps gateway =
     (case (dget ps ''gatewayId'', dget ps ''messageId'', dget ps ''configVersion'') of
        (Some g, Some (JStr mid), Some (JNum (PyInt v))) \<Rightarrow>
          (if jeq g (JStr gateway) \<and> id_fullmatch mid \<and> 1 \<le> v \<and> v \<le> int MAX_SAFE then Some (mid, nat v) else None)
      | _ \<Rightarrow> None)"

definition identity :: "contract_env \<Rightarrow> string \<Rightarrow> string \<Rightarrow> (string \<times> nat) option" where
  "identity C payload gateway =
     (if length payload > MAX_PAYLOAD then None
      else case cv_loads C payload of
             Some (JObj ps) \<Rightarrow> (if strict (JObj ps) then identity_fields ps gateway else None)
           | _ \<Rightarrow> None)"

section \<open>Acknowledgements\<close>

definition jint_of :: "int \<Rightarrow> json" where
  "jint_of n = JNum (PyInt n)"

definition base :: "string \<Rightarrow> int \<Rightarrow> int option \<Rightarrow> (string, json) dict" where
  "base gateway now timestamp =
     [(''schemaVersion'', jint_of 1), (''gatewayId'', JStr gateway), (''timestamp'', jint_of (case timestamp of None \<Rightarrow> now | Some t \<Rightarrow> t))]"

fun status_name :: "apply_status \<Rightarrow> string" where
  "status_name X_APPLIED = ''APPLIED''"
| "status_name X_REJECTED = ''REJECTED''"
| "status_name X_FAILED = ''FAILED''"

text \<open>The codes both acknowledgements know, and those of each.\<close>

definition common_codes :: "string list" where
  "common_codes = [''SCHEMA_INVALID'', ''INVALID_JSON'', ''PAYLOAD_TOO_LARGE'', ''GATEWAY_MISMATCH'', ''DUPLICATE_DEVICE_ID'',
     ''DUPLICATE_POINT_ID'', ''DUPLICATE_NODE_ID'', ''INVALID_ADDRESS'', ''INVALID_STALE_INTERVAL'', ''POINT_LIMIT_EXCEEDED'',
     ''VERSION_CONFLICT'', ''STALE_VERSION'', ''RESOURCE_LIMIT'', ''STORAGE_ERROR'', ''APPLY_FAILED'']"

definition config_codes :: "string list" where
  "config_codes = common_codes @ [''UNKNOWN_CONFIG_VERSION'', ''UNKNOWN_DEVICE'', ''UNKNOWN_POINT'', ''EXPIRED_DATA'', ''INVALID_TIMESTAMP'',
     ''DUPLICATE_VALUE'']"

definition patch_codes :: "string list" where
  "patch_codes = common_codes @ [''BASE_CONFIG_MISMATCH'', ''DEVICE_EXISTS'', ''DEVICE_NOT_FOUND'', ''OPERATION_CONFLICT'']"

definition config_code :: "string option \<Rightarrow> string" where
  "config_code code =
     (let code = (if code = Some ''MESSAGE_ID_CONFLICT'' then Some ''VERSION_CONFLICT'' else code)
      in case code of Some c \<Rightarrow> if c \<in> set config_codes then c else ''APPLY_FAILED'' | None \<Rightarrow> ''APPLY_FAILED'')"

definition patch_code :: "string option \<Rightarrow> string" where
  "patch_code code =
     (let code = (if code = Some ''MESSAGE_ID_CONFLICT'' then Some ''VERSION_CONFLICT'' else code);
          code = (if code = Some ''RETAINED_PATCH'' then Some ''OPERATION_CONFLICT'' else code)
      in case code of Some c \<Rightarrow> if c \<in> set patch_codes then c else ''APPLY_FAILED'' | None \<Rightarrow> ''APPLY_FAILED'')"

definition ack_error :: "(string option \<Rightarrow> string) \<Rightarrow> string \<Rightarrow> string option \<Rightarrow> string \<Rightarrow> json" where
  "ack_error rename message code path =
     JObj [(''code'', JStr (rename code)), (''path'', JStr (case path of CHR ''/'' # _ \<Rightarrow> take 512 path | _ \<Rightarrow> [])), (''message'', JStr message)]"

definition ack_errors :: "(string option \<Rightarrow> string) \<Rightarrow> string \<Rightarrow> ApplyResult \<Rightarrow> json list" where
  "ack_errors rename message r =
     (if ar_status r = X_APPLIED then []
      else case map (\<lambda>i. ack_error rename message (Some (is_code i)) (is_path i)) (take 32 (ar_issues r)) of
             [] \<Rightarrow> [ack_error rename message (ar_code r) ''''] | es \<Rightarrow> es)"

definition checked :: "contract_env \<Rightarrow> string \<Rightarrow> string \<Rightarrow> json \<Rightarrow> string option res" where
  "checked C kind gateway m =
     (let wire = cv_dumps C m in rbind (validate_message C kind wire (Some gateway)) (\<lambda>iss. Inr (if iss \<noteq> [] then None else Some wire)))"

definition jopt :: "('a \<Rightarrow> json) \<Rightarrow> 'a option \<Rightarrow> json" where
  "jopt f x = (case x of None \<Rightarrow> JNull | Some y \<Rightarrow> f y)"

definition config_ack :: "contract_env \<Rightarrow> string \<Rightarrow> ApplyResult \<Rightarrow> string \<Rightarrow> int \<Rightarrow> int option \<Rightarrow> string option res" where
  "config_ack C payload r gateway now timestamp =
     (case (identity C payload gateway, ar_active_config_version r) of
        (Some (mid, v), Some active) \<Rightarrow>
          (if ar_status r = X_APPLIED \<and> active \<noteq> v then Inr None
           else checked C ''configAck'' gateway (JObj (base gateway now timestamp @
             [(''messageId'', JStr mid), (''configVersion'', jint_of (int v)), (''activeConfigVersion'', jint_of (int active)),
              (''status'', JStr (status_name (ar_status r))), (''errors'', JArr (ack_errors config_code ''Configuration could not be applied.'' r))])))
      | _ \<Rightarrow> Inr None)"

definition config_patch_ack :: "contract_env \<Rightarrow> string \<Rightarrow> ApplyResult \<Rightarrow> string \<Rightarrow> int \<Rightarrow> int option \<Rightarrow> string option res" where
  "config_patch_ack C payload r gateway now timestamp =
     (case (identity C payload gateway, ar_active_config_version r) of
        (Some (mid, v), Some active) \<Rightarrow>
          checked C ''configPatchAck'' gateway (JObj (base gateway now timestamp @
             [(''messageId'', JStr mid), (''configVersion'', jint_of (int v)),
              (''appliedConfigVersion'', jopt (jint_of \<circ> int) (ar_applied_config_version r)), (''activeConfigVersion'', jint_of (int active)),
              (''activeMessageId'', jopt JStr (ar_active_message_id r)), (''status'', JStr (status_name (ar_status r))),
              (''errors'', JArr (ack_errors patch_code ''Device command could not be applied.'' r))]))
      | _ \<Rightarrow> Inr None)"

section \<open>Requests and status\<close>

definition config_get :: "contract_env \<Rightarrow> string \<Rightarrow> nat \<Rightarrow> string \<Rightarrow> string option \<Rightarrow> bool \<Rightarrow> string \<Rightarrow> int \<Rightarrow> int option \<Rightarrow> string" where
  "config_get C gateway version session message_id capabilities uuid now timestamp =
     cv_dumps C (JObj (base gateway now timestamp
       @ [(''messageId'', JStr (''get-'' @ uuid)), (''activeConfigVersion'', jint_of (int version)), (''sessionId'', JStr session)]
       @ (if capabilities then [(''configCapabilities'', JArr [JStr ''devicePatchV1'']), (''activeMessageId'', jopt JStr message_id)] else [])))"

definition status :: "contract_env \<Rightarrow> string \<Rightarrow> string \<Rightarrow> bool \<Rightarrow> string \<Rightarrow> int \<Rightarrow> int option \<Rightarrow> string" where
  "status C gateway session online reason now timestamp =
     (let m = base gateway now timestamp @ [(''sessionId'', JStr session), (''online'', JBool online), (''reason'', JStr reason)]
      in cv_dumps C (JObj (if reason = ''connection_lost'' then dset ''timestamp'' JNull m else m)))"

end
