(* ===== verification/Control.thy ===== *)
theory Control
  imports Messages PlatformTime
begin

text \<open>
  The control side of MQTT: the bounded bridge of \<^verbatim>\<open>messaging/transport.py\<close> (connection state and mailboxes),
  the time-gated publication of \<^verbatim>\<open>messaging/timed_control.py\<close>, and of \<^verbatim>\<open>messaging/config_service.py\<close> the routing of
  a received message, the deferred acknowledgements and the request for a configuration. Parameters: whether the SDK
  accepts a publication and whether its PUBACK arrives, the clocks, retained sizes and uuid4. The coroutine \<open>_run\<close> that
  connects, schedules and reconnects is not modelled.
\<close>

section \<open>Connection and mailboxes\<close>

record incoming =
  in_topic :: string
  in_payload :: string
  in_retained :: bool
  in_received_mono_ms :: int

record connection =
  cn_subscriptions :: "string list"
  cn_client :: bool
  cn_incoming :: "incoming list"
  cn_time_incoming :: "incoming list"
  cn_prefer_time :: bool
  cn_ready :: bool
  cn_lost :: bool
  cn_error :: "string option"
  cn_dropped :: nat

definition connection_new :: "string list \<Rightarrow> connection" where
  "connection_new subscriptions = \<lparr>cn_subscriptions = subscriptions, cn_client = False, cn_incoming = [], cn_time_incoming = [],
     cn_prefer_time = True, cn_ready = False, cn_lost = False, cn_error = None, cn_dropped = 0\<rparr>"

definition connected :: "connection \<Rightarrow> bool" where
  "connected c \<longleftrightarrow> cn_client c \<and> cn_ready c \<and> \<not> cn_lost c \<and> cn_error c = None"

definition on_connect :: "bool \<Rightarrow> bool \<Rightarrow> connection \<Rightarrow> connection" where
  "on_connect failure subscribed c =
     (if failure then c\<lparr>cn_error := Some ''CONNECT_REJECTED'', cn_ready := True\<rparr>
      else if cn_subscriptions c \<noteq> [] then (if \<not> subscribed then c\<lparr>cn_error := Some ''SUBSCRIBE_FAILED'', cn_ready := True\<rparr> else c)
      else c\<lparr>cn_ready := True\<rparr>)"

text \<open>The reasons of a SUBACK: failure and granted QoS.\<close>

definition on_subscribe :: "(bool \<times> nat) list \<Rightarrow> connection \<Rightarrow> connection" where
  "on_subscribe reasons c =
     (if length reasons \<noteq> length (cn_subscriptions c) \<or> list_ex (\<lambda>(failure, qos). failure \<or> qos \<noteq> 1) reasons
      then c\<lparr>cn_error := Some ''SUBSCRIBE_REJECTED''\<rparr> else c)\<lparr>cn_ready := True\<rparr>"

definition on_disconnect :: "connection \<Rightarrow> connection" where
  "on_disconnect c = c\<lparr>cn_lost := True\<rparr>"

definition time_topic :: "string \<Rightarrow> bool" where
  "time_topic topic \<longleftrightarrow> length ''/time/response'' \<le> length topic \<and> drop (length topic - length ''/time/response'') topic = ''/time/response''"

definition on_message :: "incoming \<Rightarrow> connection \<Rightarrow> connection" where
  "on_message m c =
     (let timing = time_topic (in_topic m)
      in if in_topic m \<notin> set (cn_subscriptions c) \<or> length (in_payload m) > (if timing then 2048 else 2 * 1024 * 1024)
         then c\<lparr>cn_dropped := cn_dropped c + 1\<rparr>
         else if timing
         then (if length (cn_time_incoming c) < 4 then c\<lparr>cn_time_incoming := cn_time_incoming c @ [m]\<rparr> else c\<lparr>cn_dropped := cn_dropped c + 1\<rparr>)
         else (if length (cn_incoming c) < 8 then c\<lparr>cn_incoming := cn_incoming c @ [m]\<rparr> else c\<lparr>cn_dropped := cn_dropped c + 1\<rparr>))"

text \<open>One pass of \<open>receive\<close>: the preferred mailbox first, None when it goes on to sleep. The preference alternates.\<close>

definition take_time :: "connection \<Rightarrow> (incoming \<times> connection) option" where
  "take_time c = (case cn_time_incoming c of [] \<Rightarrow> None | m # ms \<Rightarrow> Some (m, c\<lparr>cn_time_incoming := ms, cn_prefer_time := False\<rparr>))"

definition take_other :: "connection \<Rightarrow> (incoming \<times> connection) option" where
  "take_other c = (case cn_incoming c of [] \<Rightarrow> None | m # ms \<Rightarrow> Some (m, c\<lparr>cn_incoming := ms, cn_prefer_time := True\<rparr>))"

definition receive_pass :: "(incoming option, connection) prog" where
  "receive_pass c =
     (if \<not> connected c then (Inl (ConnectionError ''MQTT disconnected''), c)
      else case (if cn_prefer_time c then case take_time c of None \<Rightarrow> take_other c | r \<Rightarrow> r
                 else case take_other c of None \<Rightarrow> take_time c | r \<Rightarrow> r) of
             None \<Rightarrow> (Inr None, c) | Some (m, c) \<Rightarrow> (Inr (Some m), c))"

section \<open>State of the service\<close>

type_synonym ack_key = "bool \<times> string \<times> nat"

record control =
  kc_gateway :: string
  kc_session :: string
  kc_time :: "ptime option"
  kc_acks :: "(ack_key, string \<times> ApplyResult \<times> nat) dict"
  kc_unacknowledged :: nat
  kc_sent :: "(string \<times> string option) list"
  kc_ops :: nat

record control_env =
  ke_contract :: contract_env
  ke_time :: time_env
  ke_submit :: "nat \<Rightarrow> exn option"
  ke_puback :: "nat \<Rightarrow> exn option"
  ke_uuid :: "nat \<Rightarrow> string"
  ke_now :: "nat \<Rightarrow> int"
  ke_size :: "ApplyResult \<Rightarrow> nat"

definition control_topic :: "control \<Rightarrow> string \<Rightarrow> string" where
  "control_topic k suffix = ''iot/v1/gateway/'' @ kc_gateway k @ ''/'' @ suffix"

text \<open>A call of the time provider, None without one.\<close>

definition clock :: "('a, ptime) prog \<Rightarrow> ('a option, control) prog" where
  "clock f k =
     (case kc_time k of None \<Rightarrow> (Inr None, k)
      | Some p \<Rightarrow> (case f p of (Inl e, p) \<Rightarrow> (Inl e, k\<lparr>kc_time := Some p\<rparr>) | (Inr x, p) \<Rightarrow> (Inr (Some x), k\<lparr>kc_time := Some p\<rparr>)))"

section \<open>Publication\<close>

text \<open>\<open>publish_control\<close> on a connection with a synchronous handoff: the time is required before the message is built
  and again immediately before it is handed over.\<close>

definition submit_publish :: "control_env \<Rightarrow> string \<Rightarrow> string option \<Rightarrow> (unit, control) prog" where
  "submit_publish env topic payload k =
     (case ke_submit env (kc_ops k) of
        Some e \<Rightarrow> (Inl e, k\<lparr>kc_ops := kc_ops k + 1\<rparr>)
      | None \<Rightarrow> (Inr (), k\<lparr>kc_ops := kc_ops k + 1, kc_sent := kc_sent k @ [(topic, payload)]\<rparr>))"

definition wait_puback :: "control_env \<Rightarrow> (unit, control) prog" where
  "wait_puback env k = (case ke_puback env (kc_ops k) of Some e \<Rightarrow> (Inl e, k\<lparr>kc_ops := kc_ops k + 1\<rparr>) | None \<Rightarrow> (Inr (), k\<lparr>kc_ops := kc_ops k + 1\<rparr>))"

definition stamp_of :: "TimeSnapshot option \<Rightarrow> int option" where
  "stamp_of current = (case current of None \<Rightarrow> None | Some s \<Rightarrow> if ts_time_valid s then ts_utc_ms s else ts_system_utc_ms s)"

definition publish_control :: "control_env \<Rightarrow> string \<Rightarrow> (int option \<Rightarrow> (string option, control) prog) \<Rightarrow> string option \<Rightarrow> (unit, control) prog" where
  "publish_control env topic factory kind =
     sbind (clock (token (ke_time env))) (\<lambda>tok.
     sbind (clock (require_time (ke_time env) tok CONTROL_SEND)) (\<lambda>current.
     sbind (factory (stamp_of current)) (\<lambda>payload.
     sbind (clock (require_time (ke_time env) tok CONTROL_SEND)) (\<lambda>_.
     sbind (submit_publish env topic payload) (\<lambda>_.
     sbind (case kind of None \<Rightarrow> sret None | Some name \<Rightarrow> clock (control_submitted (ke_time env) name tok)) (\<lambda>_.
       wait_puback env))))))"

section \<open>Requests for a configuration\<close>

definition config_get_factory :: "control_env \<Rightarrow> nat \<Rightarrow> string option \<Rightarrow> int option \<Rightarrow> (string option, control) prog" where
  "config_get_factory env version mid stamp k =
     (Inr (Some (config_get (ke_contract env) (kc_gateway k) version (kc_session k) mid True (ke_uuid env (kc_ops k)) (ke_now env (kc_ops k)) stamp)),
      k\<lparr>kc_ops := kc_ops k + 1\<rparr>)"

definition request_config :: "control_env \<Rightarrow> agent \<Rightarrow> (bool, control) prog" where
  "request_config env a =
     sbind (clock (valid_for (ke_time env) None CONTROL_SEND)) (\<lambda>ok k.
       if ok = Some False \<or> (case kc_time k of None \<Rightarrow> False | Some p \<Rightarrow> \<not> tp_heartbeat_submitted p) then (Inr False, k)
       else case ag_durable a of
              None \<Rightarrow> (Inr False, k)
            | Some version \<Rightarrow>
                (if version \<noteq> 0 \<and> active_message_id a = None then (Inr False, k)
                 else case publish_control env (control_topic k ''config/get'') (config_get_factory env version (active_message_id a)) (Some ''config/get'') k of
                        (Inl (TimeUnavailable _), k) \<Rightarrow> (Inr False, k)
                      | (Inl e, k) \<Rightarrow> (Inl e, k)
                      | (Inr _, k) \<Rightarrow> (Inr True, k)))"

section \<open>Deferred acknowledgements\<close>

definition acks_bytes :: "(ack_key, string \<times> ApplyResult \<times> nat) dict \<Rightarrow> nat" where
  "acks_bytes acks = sum_list (map (snd \<circ> snd) (dvals acks))"

text \<open>The eviction loop: the oldest entry goes while a limit is exceeded.\<close>

fun evict :: "(ack_key, string \<times> ApplyResult \<times> nat) dict \<Rightarrow> nat \<Rightarrow> (ack_key, string \<times> ApplyResult \<times> nat) dict \<times> nat" where
  "evict [] n = ([], n)"
| "evict (x # xs) n = (if length (x # xs) > 32 \<or> acks_bytes (x # xs) > 65536 then evict xs (n + 1) else (x # xs, n))"

definition small_request :: "contract_env \<Rightarrow> string \<Rightarrow> string \<Rightarrow> nat \<Rightarrow> string" where
  "small_request C gateway mid version =
     cv_dumps C (JObj [(''gatewayId'', JStr gateway), (''messageId'', JStr mid), (''configVersion'', jint_of (int version))])"

definition remember_ack :: "control_env \<Rightarrow> string \<Rightarrow> ApplyResult \<Rightarrow> bool \<Rightarrow> control \<Rightarrow> control" where
  "remember_ack env payload r patch k =
     (case identity (ke_contract env) payload (kc_gateway k) of
        None \<Rightarrow> k
      | Some (mid, version) \<Rightarrow>
          (let small = small_request (ke_contract env) (kc_gateway k) mid version; key = (patch, mid, version);
               acks = ddel key (kc_acks k) @ [(key, small, r, ke_size env r + length small + 512)];
               (acks, n) = evict acks (kc_unacknowledged k)
           in k\<lparr>kc_acks := acks, kc_unacknowledged := n\<rparr>))"

definition give_up :: "ack_key \<Rightarrow> control \<Rightarrow> control" where
  "give_up key k = k\<lparr>kc_acks := ddel key (kc_acks k), kc_unacknowledged := kc_unacknowledged k + 1\<rparr>"

definition ack_encoder :: "control_env \<Rightarrow> bool \<Rightarrow> string \<Rightarrow> ApplyResult \<Rightarrow> int option \<Rightarrow> (string option, control) prog" where
  "ack_encoder env patch payload r stamp k =
     ((if patch then config_patch_ack else config_ack) (ke_contract env) payload r (kc_gateway k) (ke_now env (kc_ops k)) stamp,
      k\<lparr>kc_ops := kc_ops k + 1\<rparr>)"

text \<open>\<open>_flush_ack\<close> on the oldest entry: its stamp, a first encoding, then the publication.\<close>

definition ack_stamp :: "control_env \<Rightarrow> (int option, control) prog" where
  "ack_stamp env =
     sbind (clock (token (ke_time env))) (\<lambda>tok.
     sbind (clock (require_time (ke_time env) tok CONTROL_SEND)) (\<lambda>current k.
       case (kc_time k, current) of
         (Some p, Some s) \<Rightarrow>
           (if tp_platform p then (Inr (ts_utc_ms s), k)
            else sbind (clock (snapshot (ke_time env))) (\<lambda>s. sret (case s of None \<Rightarrow> None | Some s \<Rightarrow> ts_system_utc_ms s)) k)
       | _ \<Rightarrow> (Inl AttributeError, k)))"

definition send_ack :: "control_env \<Rightarrow> ack_key \<Rightarrow> string \<Rightarrow> ApplyResult \<Rightarrow> (unit, control) prog" where
  "send_ack env key payload r =
     sbind (ack_stamp env) (\<lambda>stamp.
     sbind (ack_encoder env (fst key) payload r stamp) (\<lambda>wire k.
       if wire = None then (Inr (), give_up key k)
       else sbind (publish_control env (control_topic k (if fst key then ''config/patch/ack'' else ''config/ack''))
                     (ack_encoder env (fst key) payload r) None)
                  (\<lambda>_. supd (\<lambda>k. k\<lparr>kc_acks := ddel key (kc_acks k)\<rparr>)) k))"

definition flush_ack :: "control_env \<Rightarrow> agent \<Rightarrow> (unit, control) prog" where
  "flush_ack env a k =
     (case kc_acks k of
        [] \<Rightarrow> (Inr (), k)
      | (key, payload, r, _) # _ \<Rightarrow>
          sbind (clock (valid_for (ke_time env) None CONTROL_SEND)) (\<lambda>ok k.
            if ok \<noteq> Some True then (Inr (), k)
            else if \<not> fst key \<and> ar_status r = X_APPLIED \<and> ag_durable a \<noteq> Some (snd (snd key)) then (Inr (), give_up key k)
            else send_ack env key payload (r\<lparr>ar_active_config_version := ag_durable a, ar_active_message_id := active_message_id a\<rparr>) k) k)"

section \<open>Received messages\<close>

datatype route = To_Time | To_Telemetry | Ignored | Unanswerable | Refused_Patch | To_Agent string

definition route_of :: "control_env \<Rightarrow> control \<Rightarrow> incoming \<Rightarrow> route" where
  "route_of env k m =
     (if (case kc_time k of None \<Rightarrow> False | Some p \<Rightarrow> tp_platform p) \<and> in_topic m = control_topic k ''time/response'' then To_Time
      else if in_topic m = control_topic k ''data/ack'' then (if in_retained m then Ignored else To_Telemetry)
      else if identity (ke_contract env) (in_payload m) (kc_gateway k) = None then Unanswerable
      else if in_topic m = control_topic k ''config/patch'' then (if in_retained m then Refused_Patch else To_Agent ''configPatch'')
      else To_Agent ''configSet'')"

definition retained_refusal :: "agent \<Rightarrow> ApplyResult" where
  "retained_refusal a = \<lparr>ar_status = X_REJECTED, ar_active_config_version = ag_durable a, ar_code = Some ''RETAINED_PATCH'', ar_issues = [],
     ar_applied_config_version = None, ar_active_message_id = active_message_id a\<rparr>"

text \<open>The answer to a configuration request once its result is known, and the request that follows a device command.\<close>

definition respond :: "control_env \<Rightarrow> agent \<Rightarrow> string \<Rightarrow> ApplyResult \<Rightarrow> bool \<Rightarrow> (unit, control) prog" where
  "respond env a payload r patch =
     sbind (\<lambda>k. case kc_time k of
         Some _ \<Rightarrow> (Inr (), remember_ack env payload r patch k)
       | None \<Rightarrow> sbind (ack_encoder env patch payload r None) (\<lambda>ack k.
           if ack = None then (Inr (), k\<lparr>kc_unacknowledged := kc_unacknowledged k + 1\<rparr>)
           else sbind (submit_publish env (control_topic k (if patch then ''config/patch/ack'' else ''config/ack'')) ack) (\<lambda>_. wait_puback env) k) k)
     (\<lambda>_. if patch then sbind (request_config env a) (\<lambda>_. sret ()) else sret ())"

end
