(* ===== verification/ControlInv.thy ===== *)
theory ControlInv
  imports Control ConfigStoreInv
begin

text \<open>
  Correctness of the deferred acknowledgements: whatever is remembered stays within its limits, and an
  acknowledgement that is published tells the truth about the agent at that moment.
\<close>

section \<open>What a publication does\<close>

text \<open>Everything but the clock and the count of operations is as in \<open>k0\<close>.\<close>

definition calm :: "control \<Rightarrow> control \<Rightarrow> bool" where
  "calm k0 k \<longleftrightarrow> kc_sent k = kc_sent k0 \<and> kc_acks k = kc_acks k0 \<and> kc_gateway k = kc_gateway k0 \<and> kc_session k = kc_session k0
     \<and> kc_unacknowledged k = kc_unacknowledged k0"

lemma calm_run_refl [simp]: "calm k k"
  by (simp add: calm_def)

lemma keeps_clock [intro!]: "keeps (calm k0) (clock f)"
  by (auto simp: keeps_def calm_def clock_def split: option.split prod.split sum.split)

lemma keeps_encoder [intro!]: "keeps (calm k0) (ack_encoder env patch payload r stamp)"
  by (simp add: keeps_def calm_def ack_encoder_def)

lemma keeps_get_factory [intro!]: "keeps (calm k0) (config_get_factory env version mid stamp)"
  by (simp add: keeps_def calm_def config_get_factory_def)

lemma keeps_puback [intro!]: "keeps (calm k0) (wait_puback env)"
  by (simp add: keeps_def calm_def wait_puback_def split: option.split)

lemma submit_publish_result:
  "submit_publish env topic payload k = (r, k') \<Longrightarrow> calm k0 k \<Longrightarrow>
     (\<exists>e. r = Inl e \<and> calm k0 k') \<or> r = Inr () \<and> calm (k0\<lparr>kc_sent := kc_sent k0 @ [(topic, payload)]\<rparr>) k'"
  by (auto simp: submit_publish_def calm_def split: option.split_asm)

text \<open>A step that keeps an assertion and raises, or goes on from a state where it holds.\<close>

lemma keeps_step:
  assumes "keeps P m" "P k" "sbind m f k = (r, k')"
  obtains (raised) e where "r = Inl e" "P k'" | (went) x k1 where "m k = (Inr x, k1)" "P k1" "f x k1 = (r, k')"
proof -
  obtain y k1 where y: "m k = (y, k1)" by (cases "m k")
  from keeps_result [OF assms(1) y assms(2)] have "P k1" .
  with y assms(3) that show thesis by (cases y) (auto simp: sbind_def)
qed

lemma keeps_submitted: "keeps (calm k0) (sbind (case kind of None \<Rightarrow> sret None | Some name \<Rightarrow> clock (control_submitted te name tok)) (\<lambda>_. wait_puback env))"
  by (cases kind) (auto intro!: keeps_sbind)

lemma publish_control_sent:
  assumes fac: "\<And>stamp. keeps (calm k0) (factory stamp)" and calm: "calm k0 k" and run: "publish_control env topic factory kind k = (r, k')"
  shows "calm k0 k' \<and> (\<exists>e. r = Inl e) \<or>
    (\<exists>stamp k1 p k2. calm k0 k1 \<and> factory stamp k1 = (Inr p, k2) \<and> calm (k0\<lparr>kc_sent := kc_sent k0 @ [(topic, p)]\<rparr>) k')"
proof (rule keeps_step [OF keeps_clock [of k0] calm run [unfolded publish_control_def]])
  fix tok k1 assume c1: "calm k0 k1" and run1: "sbind (clock (require_time (ke_time env) tok CONTROL_SEND)) (\<lambda>current.
      sbind (factory (stamp_of current)) (\<lambda>payload. sbind (clock (require_time (ke_time env) tok CONTROL_SEND)) (\<lambda>_.
      sbind (submit_publish env topic payload) (\<lambda>_.
      sbind (case kind of None \<Rightarrow> sret None | Some name \<Rightarrow> clock (control_submitted (ke_time env) name tok)) (\<lambda>_. wait_puback env))))) k1 = (r, k')"
  show ?thesis
  proof (rule keeps_step [OF keeps_clock [of k0] c1 run1])
    fix current k2 assume c2: "calm k0 k2" and run2: "sbind (factory (stamp_of current)) (\<lambda>payload.
        sbind (clock (require_time (ke_time env) tok CONTROL_SEND)) (\<lambda>_. sbind (submit_publish env topic payload) (\<lambda>_.
        sbind (case kind of None \<Rightarrow> sret None | Some name \<Rightarrow> clock (control_submitted (ke_time env) name tok)) (\<lambda>_. wait_puback env)))) k2 = (r, k')"
    show ?thesis
    proof (rule keeps_step [OF fac c2 run2])
      fix p k3 assume f: "factory (stamp_of current) k2 = (Inr p, k3)"
      assume c3: "calm k0 k3" and run3: "sbind (clock (require_time (ke_time env) tok CONTROL_SEND)) (\<lambda>_. sbind (submit_publish env topic p) (\<lambda>_.
          sbind (case kind of None \<Rightarrow> sret None | Some name \<Rightarrow> clock (control_submitted (ke_time env) name tok)) (\<lambda>_. wait_puback env))) k3 = (r, k')"
      show ?thesis
      proof (rule keeps_step [OF keeps_clock [of k0] c3 run3])
        let ?rest = "sbind (case kind of None \<Rightarrow> sret None | Some name \<Rightarrow> clock (control_submitted (ke_time env) name tok)) (\<lambda>_. wait_puback env)"
        fix u k4 assume c4: "calm k0 k4" and run4: "sbind (submit_publish env topic p) (\<lambda>_. ?rest) k4 = (r, k')"
        obtain z k5 where z: "submit_publish env topic p k4 = (z, k5)" by (cases "submit_publish env topic p k4")
        have keep: "keeps (calm (k0\<lparr>kc_sent := kc_sent k0 @ [(topic, p)]\<rparr>)) ?rest" by (rule keeps_submitted)
        from submit_publish_result [OF z c4] show ?thesis
        proof
          assume "\<exists>e. z = Inl e \<and> calm k0 k5"
          then obtain e where e: "z = Inl e" "calm k0 k5" by blast
          from run4 have "(Inl e, k5) = (r, k')" unfolding sbind_Inl [of "submit_publish env topic p", OF z [unfolded e(1)]] .
          with e(2) show ?thesis by auto
        next
          assume sent: "z = Inr () \<and> calm (k0\<lparr>kc_sent := kc_sent k0 @ [(topic, p)]\<rparr>) k5"
          with z have z': "submit_publish env topic p k4 = (Inr (), k5)" by simp
          from run4 have "?rest k5 = (r, k')" unfolding sbind_Inr [of "submit_publish env topic p", OF z'] .
          from keeps_result [OF keep this conjunct2 [OF sent]] f c2 show ?thesis by blast
        qed
      qed simp
    qed simp
  qed simp
qed simp

section \<open>Deferred acknowledgements\<close>

text \<open>The message an acknowledgement consists of, whatever its stamp.\<close>

definition config_ack_json :: "string \<Rightarrow> int \<Rightarrow> int option \<Rightarrow> string \<Rightarrow> nat \<Rightarrow> nat \<Rightarrow> ApplyResult \<Rightarrow> json" where
  "config_ack_json gateway now stamp mid version active r = JObj (base gateway now stamp @
     [(''messageId'', JStr mid), (''configVersion'', jint_of (int version)), (''activeConfigVersion'', jint_of (int active)),
      (''status'', JStr (status_name (ar_status r))), (''errors'', JArr (ack_errors config_code ''Configuration could not be applied.'' r))])"

definition patch_ack_json :: "string \<Rightarrow> int \<Rightarrow> int option \<Rightarrow> string \<Rightarrow> nat \<Rightarrow> nat \<Rightarrow> ApplyResult \<Rightarrow> json" where
  "patch_ack_json gateway now stamp mid version active r = JObj (base gateway now stamp @
     [(''messageId'', JStr mid), (''configVersion'', jint_of (int version)),
      (''appliedConfigVersion'', jopt (jint_of \<circ> int) (ar_applied_config_version r)), (''activeConfigVersion'', jint_of (int active)),
      (''activeMessageId'', jopt JStr (ar_active_message_id r)), (''status'', JStr (status_name (ar_status r))),
      (''errors'', JArr (ack_errors patch_code ''Device command could not be applied.'' r))])"

lemma config_ack_wire:
  assumes "config_ack C payload r gateway now stamp = Inr (Some wire)"
  shows "\<exists>mid v active. identity C payload gateway = Some (mid, v) \<and> ar_active_config_version r = Some active
    \<and> (ar_status r = X_APPLIED \<longrightarrow> active = v) \<and> wire = cv_dumps C (config_ack_json gateway now stamp mid v active r)
    \<and> validate_message C ''configAck'' wire (Some gateway) = Inr []"
  using assms by (auto simp: config_ack_def checked_def config_ack_json_def Let_def rbind_Inr_iff split: option.split_asm if_split_asm)

lemma patch_ack_wire:
  assumes "config_patch_ack C payload r gateway now stamp = Inr (Some wire)"
  shows "\<exists>mid v active. identity C payload gateway = Some (mid, v) \<and> ar_active_config_version r = Some active
    \<and> wire = cv_dumps C (patch_ack_json gateway now stamp mid v active r)
    \<and> validate_message C ''configPatchAck'' wire (Some gateway) = Inr []"
  using assms by (auto simp: config_patch_ack_def checked_def patch_ack_json_def Let_def rbind_Inr_iff split: option.split_asm if_split_asm)

definition entry_ok :: "contract_env \<Rightarrow> string \<Rightarrow> ack_key \<times> string \<times> ApplyResult \<times> nat \<Rightarrow> bool" where
  "entry_ok C gateway e \<longleftrightarrow> fst (snd e) = small_request C gateway (fst (snd (fst e))) (snd (snd (fst e)))"

definition acks_ok :: "contract_env \<Rightarrow> control \<Rightarrow> bool" where
  "acks_ok C k \<longleftrightarrow> distinct (dkeys (kc_acks k)) \<and> length (kc_acks k) \<le> 32 \<and> acks_bytes (kc_acks k) \<le> 65536
     \<and> (\<forall>e \<in> set (kc_acks k). entry_ok C (kc_gateway k) e)"

lemma evict_drop:
  assumes "evict xs n = (ys, m)"
  shows "\<exists>i. ys = drop i xs \<and> i \<le> length xs \<and> m = n + i \<and> length ys \<le> 32 \<and> acks_bytes ys \<le> 65536"
  using assms
proof (induction xs n rule: evict.induct)
  case (2 x xs n)
  show ?case
  proof (cases "length (x # xs) > 32 \<or> acks_bytes (x # xs) > 65536")
    case True
    with 2 obtain i where "ys = drop i xs \<and> i \<le> length xs \<and> m = n + 1 + i \<and> length ys \<le> 32 \<and> acks_bytes ys \<le> 65536" by auto
    then show ?thesis by (intro exI [of _ "Suc i"]) auto
  next
    case False
    with 2(2) show ?thesis by (intro exI [of _ 0]) auto
  qed
qed (simp add: acks_bytes_def)

lemma acks_bytes_ddel: "acks_bytes (ddel key xs) \<le> acks_bytes xs"
  by (induction xs) (auto simp: acks_bytes_def)

lemma length_ddel_le: "length (ddel key xs) \<le> length xs"
  by (induction xs) auto

lemma acks_ok_ddel: "acks_ok C k \<Longrightarrow> acks_ok C (k\<lparr>kc_acks := ddel key (kc_acks k), kc_unacknowledged := n\<rparr>)"
  using acks_bytes_ddel [of key "kc_acks k"] length_ddel_le [of key "kc_acks k"]
  by (auto simp: acks_ok_def distinct_delete set_ddel)

lemma calm_ok: "calm k0 k \<Longrightarrow> acks_ok C k = acks_ok C k0"
  by (simp add: calm_def acks_ok_def)

lemma remember_ok:
  assumes ok: "acks_ok C k" and env: "ke_contract env = C"
  shows "acks_ok C (remember_ack env payload r patch k)"
proof (cases "identity C payload (kc_gateway k)")
  case (Some mv)
  obtain mid v where mv: "mv = (mid, v)" by (cases mv)
  define acks where "acks = ddel (patch, mid, v) (kc_acks k) @ [((patch, mid, v), small_request C (kc_gateway k) mid v, r,
    ke_size env r + length (small_request C (kc_gateway k) mid v) + 512)]"
  obtain ys n where e: "evict acks (kc_unacknowledged k) = (ys, n)" by (cases "evict acks (kc_unacknowledged k)")
  from evict_drop [OF e] obtain i where ys: "ys = drop i acks" "length ys \<le> 32" "acks_bytes ys \<le> 65536" by blast
  have "distinct (dkeys acks)" using ok by (simp add: acks_def acks_ok_def distinct_delete)
  then have "distinct (dkeys ys)" by (simp add: ys(1) drop_map [symmetric])
  moreover have "entry_ok C (kc_gateway k) x" if "x \<in> set acks" for x
    using that ok by (auto simp: acks_def acks_ok_def set_ddel entry_ok_def)
  ultimately show ?thesis using ys set_drop_subset [of i acks] Some mv e env
    by (auto simp: remember_ack_def acks_ok_def acks_def [symmetric] Let_def)
qed (use assms in \<open>simp add: remember_ack_def\<close>)

text \<open>Sending one acknowledgement: nothing is handed over, or exactly one message that the encoder produced, and the
  entry goes only when the message was handed over and acknowledged, or cannot be encoded.\<close>

lemma ack_stamp_calm: "keeps (calm k0) (ack_stamp env)"
proof -
  have sys: "keeps (calm k0) (sbind (clock (snapshot te)) (\<lambda>s. sret (case s of None \<Rightarrow> None | Some s \<Rightarrow> ts_system_utc_ms s)))" for te
    by (intro keeps_sbind keeps_clock keeps_sret)
  show ?thesis
    unfolding ack_stamp_def
    by (intro keeps_sbind keeps_clock keepsI) (simp add: keepsD [OF sys] split: option.split)
qed

definition ack_topic :: "string \<Rightarrow> bool \<Rightarrow> string" where
  "ack_topic gateway patch = ''iot/v1/gateway/'' @ gateway @ ''/'' @ (if patch then ''config/patch/ack'' else ''config/ack'')"

lemma encoder_result:
  "ack_encoder env patch payload r stamp k = (Inr p, k') \<Longrightarrow> calm k0 k \<Longrightarrow>
     \<exists>now. (if patch then config_patch_ack else config_ack) (ke_contract env) payload r (kc_gateway k0) now stamp = Inr p"
  by (auto simp: ack_encoder_def calm_def)

lemma send_ack_result:
  assumes run: "send_ack env key payload r k = (x, k')"
  shows "kc_gateway k' = kc_gateway k \<and> kc_acks k' \<in> {kc_acks k, ddel key (kc_acks k)}
    \<and> (kc_sent k' = kc_sent k \<or> (\<exists>p now stamp. kc_sent k' = kc_sent k @ [(ack_topic (kc_gateway k) (fst key), p)]
         \<and> (if fst key then config_patch_ack else config_ack) (ke_contract env) payload r (kc_gateway k) now stamp = Inr p))"
proof (rule keeps_step [OF ack_stamp_calm [of k] calm_run_refl run [unfolded send_ack_def]])
  fix stamp k1
  assume c1: "calm k k1" and run1: "sbind (ack_encoder env (fst key) payload r stamp) (\<lambda>wire k.
      if wire = None then (Inr (), give_up key k)
      else sbind (publish_control env (control_topic k (if fst key then ''config/patch/ack'' else ''config/ack'')) (ack_encoder env (fst key) payload r) None)
             (\<lambda>_. supd (\<lambda>k. k\<lparr>kc_acks := ddel key (kc_acks k)\<rparr>)) k) k1 = (x, k')"
  show ?thesis
  proof (rule keeps_step [OF keeps_encoder [of k] c1 run1])
    fix wire k2
    assume c2: "calm k k2" and run2: "(if wire = None then (Inr (), give_up key k2)
      else sbind (publish_control env (control_topic k2 (if fst key then ''config/patch/ack'' else ''config/ack'')) (ack_encoder env (fst key) payload r) None)
             (\<lambda>_. supd (\<lambda>k. k\<lparr>kc_acks := ddel key (kc_acks k)\<rparr>)) k2) = (x, k')"
    show ?thesis
    proof (cases "wire = None")
      case True
      with run2 c2 show ?thesis by (auto simp: give_up_def calm_def)
    next
      case False
      have topic: "control_topic k2 (if fst key then ''config/patch/ack'' else ''config/ack'') = ack_topic (kc_gateway k) (fst key)"
        using c2 by (simp add: control_topic_def ack_topic_def calm_def)
      obtain y k3 where y: "publish_control env (ack_topic (kc_gateway k) (fst key)) (ack_encoder env (fst key) payload r) None k2 = (y, k3)"
        by (cases "publish_control env (ack_topic (kc_gateway k) (fst key)) (ack_encoder env (fst key) payload r) None k2")
      from run2 False y have k': "k' = k3 \<or> k' = k3\<lparr>kc_acks := ddel key (kc_acks k3)\<rparr>" by (cases y) (auto simp: topic)
      from publish_control_sent [OF keeps_encoder c2 y] show ?thesis
      proof
        assume "calm k k3 \<and> (\<exists>e. y = Inl e)"
        with k' show ?thesis by (auto simp: calm_def)
      next
        assume "\<exists>stamp k1 p k2. calm k k1 \<and> ack_encoder env (fst key) payload r stamp k1 = (Inr p, k2)
          \<and> calm (k\<lparr>kc_sent := kc_sent k @ [(ack_topic (kc_gateway k) (fst key), p)]\<rparr>) k3"
        then obtain stamp p where p: "\<exists>now. (if fst key then config_patch_ack else config_ack) (ke_contract env) payload r (kc_gateway k) now stamp = Inr p"
          and c3: "calm (k\<lparr>kc_sent := kc_sent k @ [(ack_topic (kc_gateway k) (fst key), p)]\<rparr>) k3" using encoder_result by blast
        from k' c3 have "kc_gateway k' = kc_gateway k \<and> kc_acks k' \<in> {kc_acks k, ddel key (kc_acks k)}
            \<and> kc_sent k' = kc_sent k @ [(ack_topic (kc_gateway k) (fst key), p)]" by (auto simp: calm_def)
        with p show ?thesis by blast
      qed
    qed
  qed (auto simp: calm_def)
qed (auto simp: calm_def)

text \<open>The invariant through every operation.\<close>

lemma acks_ok_cong: "kc_acks k' = kc_acks k \<Longrightarrow> kc_gateway k' = kc_gateway k \<Longrightarrow> acks_ok C k' = acks_ok C k"
  by (simp add: acks_ok_def)

lemma acks_ok_count [simp]: "acks_ok C (k\<lparr>kc_unacknowledged := n\<rparr>) = acks_ok C k"
  by (rule acks_ok_cong) simp_all

lemma keeps_acks [intro!]:
  "keeps (acks_ok C) (clock f)" "keeps (acks_ok C) (submit_publish env topic wire)" "keeps (acks_ok C) (wait_puback env)"
  "keeps (acks_ok C) (ack_encoder env patch payload r stamp)" "keeps (acks_ok C) (config_get_factory env version mid stamp)"
  by (rule keepsI, erule acks_ok_cong [THEN iffD2, rotated 2];
      simp add: clock_def submit_publish_def wait_puback_def ack_encoder_def config_get_factory_def split: option.split prod.split sum.split)+

lemma publish_control_acks: "(\<And>stamp. keeps (acks_ok C) (factory stamp)) \<Longrightarrow> keeps (acks_ok C) (publish_control env topic factory kind)"
  unfolding publish_control_def by (cases kind) (auto intro!: keeps_sbind)

lemma published_acks:
  assumes "acks_ok C k"
  shows "acks_ok C (snd (case (y, k) of (Inl (TimeUnavailable _), k) \<Rightarrow> (Inr False, k) | (Inl e, k) \<Rightarrow> (Inl e, k) | (Inr _, k) \<Rightarrow> (Inr True, k)))"
  using assms by (simp split: sum.split exn.split)

lemma request_config_acks: "keeps (acks_ok C) (request_config env a)"
  unfolding request_config_def
proof (intro keeps_sbind keeps_acks keepsI)
  fix ok k assume k: "acks_ok C k"
  have p: "acks_ok C (snd (case publish_control env t (config_get_factory env v m) kd k of
      (Inl (TimeUnavailable _), k) \<Rightarrow> (Inr False, k) | (Inl e, k) \<Rightarrow> (Inl e, k) | (Inr _, k) \<Rightarrow> (Inr True, k)))" for t v m kd
  proof -
    obtain y k1 where y: "publish_control env t (config_get_factory env v m) kd k = (y, k1)" by (cases "publish_control env t (config_get_factory env v m) kd k")
    from keeps_result [OF publish_control_acks [OF keeps_acks(5)] y k] have "acks_ok C k1" .
    then show ?thesis unfolding y by (rule published_acks)
  qed
  show "acks_ok C (snd (if ok = Some False \<or> (case kc_time k of None \<Rightarrow> False | Some p \<Rightarrow> \<not> tp_heartbeat_submitted p) then (Inr False, k)
       else case ag_durable a of
              None \<Rightarrow> (Inr False, k)
            | Some version \<Rightarrow>
                (if version \<noteq> 0 \<and> active_message_id a = None then (Inr False, k)
                 else case publish_control env (control_topic k ''config/get'') (config_get_factory env version (active_message_id a)) (Some ''config/get'') k of
                        (Inl (TimeUnavailable _), k) \<Rightarrow> (Inr False, k)
                      | (Inl e, k) \<Rightarrow> (Inl e, k)
                      | (Inr _, k) \<Rightarrow> (Inr True, k))))"
    by (cases "ag_durable a") (simp_all only: if_distrib [of snd] if_distrib [of "acks_ok C"] option.case snd_conv p k if_cancel)
qed

lemma respond_acks:
  assumes "ke_contract env = C"
  shows "keeps (acks_ok C) (respond env a payload r patch)"
proof -
  have pub: "keeps (acks_ok C) (sbind (submit_publish env t p) (\<lambda>_. wait_puback env))" for t p by (intro keeps_sbind keeps_acks)
  have direct: "keeps (acks_ok C) (sbind (ack_encoder env q payload r None) (\<lambda>ack k.
      if ack = None then (Inr (), k\<lparr>kc_unacknowledged := kc_unacknowledged k + 1\<rparr>)
      else sbind (submit_publish env (control_topic k t) ack) (\<lambda>_. wait_puback env) k))" for t q
    by (intro keeps_sbind keeps_acks keepsI) (simp add: keepsD [OF pub])
  have first: "keeps (acks_ok C) (\<lambda>k. case kc_time k of
         Some _ \<Rightarrow> (Inr (), remember_ack env payload r patch k)
       | None \<Rightarrow> sbind (ack_encoder env patch payload r None) (\<lambda>ack k.
           if ack = None then (Inr (), k\<lparr>kc_unacknowledged := kc_unacknowledged k + 1\<rparr>)
           else sbind (submit_publish env (control_topic k (if patch then ''config/patch/ack'' else ''config/ack'')) ack) (\<lambda>_. wait_puback env) k) k)"
    by (rule keepsI) (simp add: remember_ok [OF _ assms] keepsD [OF direct] split: option.split)
  show ?thesis
    unfolding respond_def by (intro keeps_sbind first keeps_if request_config_acks keeps_sret)
qed

lemma flush_result:
  assumes run: "flush_ack env a k = (x, k')"
  shows "kc_gateway k' = kc_gateway k \<and> (kc_acks k' = kc_acks k \<or> (\<exists>key. kc_acks k' = ddel key (kc_acks k)))
    \<and> (kc_sent k' = kc_sent k \<or> (\<exists>patch p payload r now stamp. kc_sent k' = kc_sent k @ [(ack_topic (kc_gateway k) patch, p)]
         \<and> (if patch then config_patch_ack else config_ack) (ke_contract env) payload
              (r\<lparr>ar_active_config_version := ag_durable a, ar_active_message_id := active_message_id a\<rparr>) (kc_gateway k) now stamp = Inr p))"
proof (cases "kc_acks k")
  case Nil
  with run show ?thesis by (simp add: flush_ack_def)
next
  case (Cons e rest)
  obtain key payload r n where e: "e = (key, payload, r, n)" by (cases e)
  let ?r = "r\<lparr>ar_active_config_version := ag_durable a, ar_active_message_id := active_message_id a\<rparr>"
  obtain y k1 where y: "clock (valid_for (ke_time env) None CONTROL_SEND) k = (y, k1)" by (cases "clock (valid_for (ke_time env) None CONTROL_SEND) k")
  have c: "calm k k1" by (rule keeps_result [OF keeps_clock y calm_run_refl])
  show ?thesis
  proof (cases y)
    case (Inl z)
    with run Cons e y c show ?thesis by (auto simp: flush_ack_def calm_def)
  next
    case (Inr ok)
    from run Cons e y Inr have go: "(if ok \<noteq> Some True then (Inr (), k1)
        else if \<not> fst key \<and> ar_status r = X_APPLIED \<and> ag_durable a \<noteq> Some (snd (snd key)) then (Inr (), give_up key k1)
        else send_ack env key payload ?r k1) = (x, k')" by (simp add: flush_ack_def)
    show ?thesis
    proof (cases "ok = Some True \<and> \<not> (\<not> fst key \<and> ar_status r = X_APPLIED \<and> ag_durable a \<noteq> Some (snd (snd key)))")
      case True
      with go have "send_ack env key payload ?r k1 = (x, k')" by (simp split: if_split_asm)
      note sent = send_ack_result [OF this]
      from c have eqs: "kc_gateway k1 = kc_gateway k" "kc_acks k1 = kc_acks k" "kc_sent k1 = kc_sent k" by (simp_all add: calm_def)
      from sent have acks: "kc_gateway k' = kc_gateway k" "kc_acks k' = kc_acks k \<or> (\<exists>key. kc_acks k' = ddel key (kc_acks k))"
        unfolding eqs by blast+
      from sent have "kc_sent k' = kc_sent k \<or> (\<exists>p now stamp. kc_sent k' = kc_sent k @ [(ack_topic (kc_gateway k) (fst key), p)]
         \<and> (if fst key then config_patch_ack else config_ack) (ke_contract env) payload ?r (kc_gateway k) now stamp = Inr p)"
        unfolding eqs by (rule conjunct2 [OF conjunct2])
      with acks show ?thesis by blast
    next
      case False
      with go have "k' = k1 \<or> k' = give_up key k1" by (auto split: if_split_asm)
      then have "kc_acks k' = kc_acks k1 \<or> kc_acks k' = ddel key (kc_acks k1)" "kc_gateway k' = kc_gateway k1" "kc_sent k' = kc_sent k1"
        by (auto simp: give_up_def)
      moreover have "kc_gateway k1 = kc_gateway k" "kc_acks k1 = kc_acks k" "kc_sent k1 = kc_sent k" using c by (simp_all add: calm_def)
      ultimately show ?thesis by metis
    qed
  qed
qed

section \<open>The system\<close>

inductive control_step :: "contract_env \<Rightarrow> control \<Rightarrow> control \<Rightarrow> bool" for C where
  kr_flush: "ke_contract env = C \<Longrightarrow> control_step C k (snd (flush_ack env a k))"
| kr_respond: "ke_contract env = C \<Longrightarrow> control_step C k (snd (respond env a payload r patch k))"
| kr_request: "ke_contract env = C \<Longrightarrow> control_step C k (snd (request_config env a k))"
| kr_session: "control_step C k (k\<lparr>kc_time := t, kc_session := s\<rparr>)"

definition control_init :: "control \<Rightarrow> bool" where
  "control_init k \<longleftrightarrow> kc_acks k = [] \<and> kc_unacknowledged k = 0 \<and> kc_sent k = []"

interpretation control_system: invariant_system control_init "control_step C" "acks_ok C"
proof
  show "control_init k \<Longrightarrow> acks_ok C k" for k by (simp add: control_init_def acks_ok_def acks_bytes_def)
  show "control_step C k k' \<Longrightarrow> acks_ok C k \<Longrightarrow> acks_ok C k'" for k k'
  proof (induction rule: control_step.induct)
    case (kr_flush env k a)
    from flush_result [of env a k "fst (flush_ack env a k)" "snd (flush_ack env a k)"]
    have "kc_gateway (snd (flush_ack env a k)) = kc_gateway k
      \<and> (kc_acks (snd (flush_ack env a k)) = kc_acks k \<or> (\<exists>key. kc_acks (snd (flush_ack env a k)) = ddel key (kc_acks k)))" by simp
    then obtain key where "acks_ok C (snd (flush_ack env a k)) = acks_ok C k
        \<or> acks_ok C (snd (flush_ack env a k)) = acks_ok C (k\<lparr>kc_acks := ddel key (kc_acks k), kc_unacknowledged := 0\<rparr>)"
      using acks_ok_cong [of "snd (flush_ack env a k)" k C]
        acks_ok_cong [of "snd (flush_ack env a k)" "k\<lparr>kc_acks := ddel _ (kc_acks k), kc_unacknowledged := 0\<rparr>" C] by fastforce
    with kr_flush(2) acks_ok_ddel show ?case by blast
  next
    case (kr_respond env k a payload r patch)
    from keepsD [OF respond_acks [OF kr_respond(1)] kr_respond(2)] show ?case .
  next
    case (kr_request env k a)
    from keepsD [OF request_config_acks kr_request(2)] show ?case .
  next
    case (kr_session k t s)
    then show ?case by (simp add: acks_ok_def)
  qed
qed

section \<open>A concrete service\<close>

definition demo_small :: json where
  "demo_small = JObj [(''gatewayId'', JStr ''g''), (''messageId'', JStr ''m''), (''configVersion'', jint_of 1)]"

definition demo_applied :: ApplyResult where
  "demo_applied = \<lparr>ar_status = X_APPLIED, ar_active_config_version = Some 1, ar_code = None, ar_issues = [], ar_applied_config_version = None,
     ar_active_message_id = Some ''m''\<rparr>"

definition demo_ack :: json where
  "demo_ack = config_ack_json ''g'' 0 (Some 1000) ''m'' 1 1 demo_applied"

definition ack_contract :: contract_env where
  "ack_contract = \<lparr>cv_loads = (\<lambda>p. if p = ''small'' then Some demo_small else if p = ''ack'' then Some demo_ack else None),
     cv_dumps = (\<lambda>m. if m = demo_small then ''small'' else if m = demo_ack then ''ack'' else ''other''), cv_canonical = (\<lambda>_. []),
     cv_schema = (\<lambda>_ _. []), cv_limit = (\<lambda>_. Some 1000), cv_sha256 = (\<lambda>s. s)\<rparr>"

definition demo_control_env :: control_env where
  "demo_control_env = \<lparr>ke_contract = ack_contract, ke_time = \<lparr>te_mono = (\<lambda>_. 0), te_system = (\<lambda>_. 1000), te_jitter = (\<lambda>_ a _. a), te_uuid = (\<lambda>_. ''u'')\<rparr>,
     ke_submit = (\<lambda>_. None), ke_puback = (\<lambda>_. None), ke_uuid = (\<lambda>_. ''u''), ke_now = (\<lambda>_. 0), ke_size = (\<lambda>_. 100)\<rparr>"

definition demo_ack_clock :: ptime where
  "demo_ack_clock = \<lparr>tp_gateway = ''g'', tp_boot_id = ''b'', tp_platform = False, tp_basis = None, tp_drift_ppm = 0, tp_drift_evidence = None,
     tp_revision = 0, tp_connection_revision = 1, tp_generation = 0, tp_generation_started = 0, tp_session = Some ''s'', tp_session_synced = True,
     tp_heartbeat_submitted = True, tp_get_submitted = True, tp_state = UNSYNCED, tp_reason = None, tp_utc = None, tp_last_mono = 0,
     tp_sync_mono = None, tp_uncertainty = 0, tp_residual = 0, tp_floor = None, tp_last_observed_mono = 0, tp_pending = None,
     tp_round_start = None, tp_attempts = 0, tp_candidates = [], tp_next_sync = 0, tp_failures = 0, tp_suspect_confirm = False, tp_reads = 2\<rparr>"

definition demo_control :: "ptime option \<Rightarrow> control" where
  "demo_control t = \<lparr>kc_gateway = ''g'', kc_session = ''s'', kc_time = t, kc_acks = [], kc_unacknowledged = 0, kc_sent = [], kc_ops = 0\<rparr>"

definition demo_waiting :: control where
  "demo_waiting = (demo_control (Some demo_ack_clock))\<lparr>kc_acks := [((False, ''m'', 1), ''small'', demo_applied, 617)]\<rparr>"

lemma demo_control_init: "control_init (demo_control t)"
  by (simp add: control_init_def demo_control_def)

lemma ack_codec: "codec_ok ack_contract"
  by (auto simp: codec_ok_def ack_contract_def)

lemma demo_jsons: "demo_small \<noteq> demo_ack"
  by (simp add: demo_small_def demo_ack_def config_ack_json_def base_def)

lemma demo_config_ack: "config_ack ack_contract ''small'' demo_applied ''g'' now (Some 1000) = Inr (Some ''ack'')"
proof -
  have i: "identity ack_contract ''small'' ''g'' = Some (''m'', 1)"
    by (simp add: identity_def MAX_PAYLOAD_def ack_contract_def demo_small_def identity_fields_def jeq_def jint_of_def id_alnum_def MAX_SAFE_def)
  have j: "config_ack_json ''g'' now (Some 1000) ''m'' 1 1 demo_applied = demo_ack" by (simp add: demo_ack_def config_ack_json_def base_def)
  have v: "validate_message ack_contract ''configAck'' ''ack'' (Some ''g'') = Inr []"
    by (simp add: validate_message_def ack_contract_def decode_message_def demo_ack_def config_ack_json_def base_def jint_of_def
        semantic_issues_def config_ack_issues_def dindex_def jeq_def demo_applied_def ack_errors_def)
  have d: "cv_dumps ack_contract demo_ack = ''ack''" using demo_jsons by (simp add: ack_contract_def)
  have "config_ack ack_contract ''small'' demo_applied ''g'' now (Some 1000) = checked ack_contract ''configAck'' ''g'' demo_ack"
    unfolding j [symmetric] by (simp add: config_ack_def i config_ack_json_def demo_applied_def)
  then show ?thesis by (simp add: checked_def d v)
qed

text \<open>Every reading of the concrete clock gives the same snapshot.\<close>

definition demo_te :: time_env where
  "demo_te = ke_time demo_control_env"

definition clock_at :: "nat \<Rightarrow> ptime" where
  "clock_at n = demo_ack_clock\<lparr>tp_reads := n\<rparr>"

lemma demo_reading: "\<exists>S. (\<forall>n. snapshot demo_te (clock_at n) = (Inr S, clock_at (n + 1))) \<and> ts_time_valid S = False \<and> ts_system_utc_ms S = Some 1000
    \<and> ts_boot_id S = ''b'' \<and> ts_clock_revision S = 0 \<and> ts_connection_revision S = 1 \<and> ts_mono_ms S = 0"
  by (intro exI [of _ "\<lparr>ts_boot_id = ''b'', ts_mono_ms = 0, ts_utc_ms = None, ts_system_utc_ms = Some 1000, ts_uncertainty_ms = None,
      ts_source = ''SYSTEM_RTC'', ts_state = UNSYNCED, ts_time_valid = False, ts_sync_age_ms = None, ts_clock_revision = 0,
      ts_time_basis_ref = None, ts_connection_revision = 1\<rparr>"])
     (simp add: snapshot_def read_mono_def advance_def extrapolate_def demo_te_def demo_control_env_def clock_at_def demo_ack_clock_def
        snapshot_valid_def settle_snapshot_def snapshot_of_def sync_age_def sync_error_def system_utc_def MAX_SAFE_def sbind_def)

lemma demo_clock_runs:
  "\<exists>S. ts_time_valid S = False \<and> ts_system_utc_ms S = Some 1000 \<and> (\<forall>n. snapshot demo_te (clock_at n) = (Inr S, clock_at (n + 1)))
    \<and> (\<forall>n. valid_for demo_te None CONTROL_SEND (clock_at n) = (Inr True, clock_at (n + 1)))
    \<and> (\<exists>tok. (\<forall>n. token demo_te (clock_at n) = (Inr tok, clock_at (n + 1)))
         \<and> (\<forall>n. require_time demo_te (Some tok) CONTROL_SEND (clock_at n) = (Inr S, clock_at (n + 2))))"
proof -
  obtain S where S: "\<And>n. snapshot demo_te (clock_at n) = (Inr S, clock_at (n + 1))" "ts_time_valid S = False" "ts_system_utc_ms S = Some 1000"
    "ts_boot_id S = ''b''" "ts_clock_revision S = 0" "ts_connection_revision S = 1" "ts_mono_ms S = 0" using demo_reading by blast
  let ?tok = "\<lparr>tk_boot_id = ''b'', tk_clock_revision = 0, tk_connection_revision = 1, tk_issued_mono_ms = 0\<rparr>"
  have open_: "purpose_ok S CONTROL_SEND (clock_at n)" for n by (simp add: purpose_ok_def clock_at_def demo_ack_clock_def S)
  have cur: "token_current (Some ?tok) 0 (clock_at n)" for n by (simp add: token_current_def clock_at_def demo_ack_clock_def)
  have v: "valid_for demo_te t CONTROL_SEND (clock_at n) = (Inr True, clock_at (n + 1))" if "t = None \<or> t = Some ?tok" for t n
    using that S open_ cur by (auto simp: valid_for_def sbind_def) (simp add: token_current_def)
  have plat: "tp_platform (clock_at n) = False" for n by (simp add: clock_at_def demo_ack_clock_def)
  have "token demo_te (clock_at n) = (Inr ?tok, clock_at (n + 1))" for n using S by (simp add: token_def sbind_def)
  moreover have "require_time demo_te (Some ?tok) CONTROL_SEND (clock_at n) = (Inr S, clock_at (n + 2))" for n
    using S(1) v [of "Some ?tok"] by (simp add: require_time_def plat sbind_def)
  ultimately show ?thesis using S v by blast
qed

lemma demo_flush:
  assumes "ag_durable a = Some 1" "active_message_id a = Some ''m''"
  shows "kc_sent (snd (flush_ack demo_control_env a demo_waiting)) = [(''iot/v1/gateway/g/config/ack'', Some ''ack'')]"
proof -
  obtain S tok where S: "ts_time_valid S = False" "ts_system_utc_ms S = Some 1000" "\<And>n. snapshot demo_te (clock_at n) = (Inr S, clock_at (n + 1))"
    "\<And>n. valid_for demo_te None CONTROL_SEND (clock_at n) = (Inr True, clock_at (n + 1))" "\<And>n. token demo_te (clock_at n) = (Inr tok, clock_at (n + 1))"
    "\<And>n. require_time demo_te (Some tok) CONTROL_SEND (clock_at n) = (Inr S, clock_at (n + 2))" using demo_clock_runs by blast
  have r: "demo_applied\<lparr>ar_active_config_version := Some 1, ar_active_message_id := Some ''m''\<rparr> = demo_applied" by (simp add: demo_applied_def)
  have start: "demo_ack_clock = clock_at 2" by (simp add: clock_at_def demo_ack_clock_def)
  have plat: "tp_platform (clock_at n) = False" for n by (simp add: clock_at_def demo_ack_clock_def)
  have env: "ke_time demo_control_env = demo_te" "ke_contract demo_control_env = ack_contract" "ke_submit demo_control_env n = None"
    "ke_puback demo_control_env n = None" for n by (simp_all add: demo_te_def demo_control_env_def)
  show ?thesis
    unfolding flush_ack_def send_ack_def ack_stamp_def publish_control_def demo_waiting_def demo_control_def start
    by (simp add: assms r env S plat sbind_def clock_def ack_encoder_def demo_config_ack submit_publish_def wait_puback_def stamp_of_def control_topic_def
        del: One_nat_def)
qed

section \<open>Properties\<close>

text \<open>C22. What waits to be acknowledged is bounded: after any flushes, answers, requests and changes of session at most
  32 acknowledgements of at most 64 KiB in all are remembered, each once per kind, message id and version.\<close>

theorem deferred_acks_bounded:
  assumes "control_init k0" "(control_step C)\<^sup>*\<^sup>* k0 k"
  shows "length (kc_acks k) \<le> 32 \<and> acks_bytes (kc_acks k) \<le> 65536 \<and> distinct (dkeys (kc_acks k))"
  using control_system.reachable_inv [OF assms] by (simp add: acks_ok_def)

theorem deferred_acks_bounded_witness:
  "length (kc_acks (remember_ack demo_control_env ''small'' demo_applied False (demo_control (Some demo_ack_clock)))) \<le> 32"
proof -
  let ?k = "demo_control (Some demo_ack_clock)" and ?a = "agent_new 1 (runtime_new undefined) demo_store"
  have "ke_contract demo_control_env = ack_contract" by (simp add: demo_control_env_def)
  from deferred_acks_bounded [OF demo_control_init r_into_rtranclp [where r = "control_step ack_contract", OF kr_respond [OF this, of ?k ?a "''small''" demo_applied False]]]
  show ?thesis by (simp add: respond_def sbind_def demo_control_def)
qed



end
