(* ===== verification/Receiver.thy ===== *)
theory Receiver
  imports Messages Batches ConfigStoreInv
begin

text \<open>
  The acceptance sink of \<^verbatim>\<open>storage/receiver.py\<close>: it installs configurations and stores data batches, and it
  answers STORED only for a batch whose receipt is committed. Parameters: the contracts, SQLite's success at each commit
  and the receiver's clock.
\<close>

section \<open>State\<close>

record stored_batch =
  sb_payload :: string
  sb_hash :: string
  sb_stored_at :: int

record receiver_tables =
  rt_configs :: "(nat, string \<times> string) dict"
  rt_receipts :: "(string, stored_batch) dict"

record receiver =
  rv_gateway :: string
  rv_max_batches :: int
  rv_max_bytes :: int
  rv_tables :: receiver_tables
  rv_ops :: nat

record receiver_env =
  ve_contract :: contract_env
  ve_commit :: "nat \<Rightarrow> bool"

definition RECEIVER_ID :: nat where
  "RECEIVER_ID = 0x50524543"

definition empty_tables :: receiver_tables where
  "empty_tables = \<lparr>rt_configs = [], rt_receipts = []\<rparr>"

definition receiver_open :: "receiver_env \<Rightarrow> string \<Rightarrow> int \<Rightarrow> int \<Rightarrow> receiver_tables sfile \<Rightarrow> receiver res" where
  "receiver_open env gateway max_batches max_bytes f =
     (if max_batches < 1 \<or> max_bytes < 1 then Inl (ValueError ''Receiver limits must be positive integers'')
      else rbind (database_open gateway RECEIVER_ID [''configs'', ''receipts''] 1 empty_tables (ve_commit env 0) f) (\<lambda>f.
        Inr \<lparr>rv_gateway = gateway, rv_max_batches = max_batches, rv_max_bytes = max_bytes, rv_tables = sf_content f, rv_ops = 1\<rparr>))"

text \<open>\<^verbatim>\<open>with self.transaction()\<close>: what the body wrote stays when it returns and the COMMIT succeeds.\<close>

definition in_transaction :: "receiver_env \<Rightarrow> (receiver_tables \<Rightarrow> ('a \<times> receiver_tables) res) \<Rightarrow> ('a, receiver) prog" where
  "in_transaction env body rv =
     (case body (rv_tables rv) of
        Inl e \<Rightarrow> (Inl e, rv\<lparr>rv_ops := rv_ops rv + 1\<rparr>)
      | Inr (x, t) \<Rightarrow>
          (if ve_commit env (rv_ops rv) then (Inr x, rv\<lparr>rv_tables := t, rv_ops := rv_ops rv + 1\<rparr>)
           else (Inl (StoreError ''Telemetry transaction failed''), rv\<lparr>rv_ops := rv_ops rv + 1\<rparr>)))"

text \<open>\<open>ConfigSnapshot.parse\<close>, which raises a \<open>ValueError\<close> on issues.\<close>

definition parse_strict :: "contract_env \<Rightarrow> string \<Rightarrow> string \<Rightarrow> ConfigSnapshot res" where
  "parse_strict C payload gateway =
     rbind (parse_config C payload gateway) (\<lambda>r. case r of Inl _ \<Rightarrow> Inl (ValueError ''Configuration failed contract validation.'') | Inr s \<Rightarrow> Inr s)"

section \<open>Configurations\<close>

definition install_body :: "contract_env \<Rightarrow> string \<Rightarrow> ConfigSnapshot \<Rightarrow> receiver_tables \<Rightarrow> (bool \<times> receiver_tables) res" where
  "install_body C payload s t =
     (case dget (rt_configs t) (cs_config_version s) of
        Some (_, hash) \<Rightarrow> (if hash \<noteq> content_hash C s then Inl (ValueError ''Historical configuration conflict'') else Inr (True, t))
      | None \<Rightarrow>
          (if length (rt_configs t) \<ge> 32 \<or> sum_list (map (length \<circ> fst) (dvals (rt_configs t))) + length payload > 64 * 1024 * 1024
           then Inr (False, t)
           else Inr (True, t\<lparr>rt_configs := dset (cs_config_version s) (payload, content_hash C s) (rt_configs t)\<rparr>)))"

definition install_config :: "receiver_env \<Rightarrow> string \<Rightarrow> (bool, receiver) prog" where
  "install_config env payload rv =
     (case parse_strict (ve_contract env) payload (rv_gateway rv) of
        Inl e \<Rightarrow> (Inl e, rv) | Inr s \<Rightarrow> in_transaction env (install_body (ve_contract env) payload s) rv)"

section \<open>Batches\<close>

text \<open>\<^verbatim>\<open>key in d\<close> and \<^verbatim>\<open>d[key]\<close> for a decoded key: lists and objects are not hashable.\<close>

fun lookup_key :: "(string, 'a) dict \<Rightarrow> json \<Rightarrow> 'a option res" where
  "lookup_key d (JStr k) = Inr (dget d k)"
| "lookup_key d (JArr _) = Inl TypeError"
| "lookup_key d (JObj _) = Inl TypeError"
| "lookup_key d _ = Inr None"

definition enabled_points :: "ConfigSnapshot \<Rightarrow> (string, (string, PointConfig) dict) dict" where
  "enabled_points s =
     (if \<not> cs_enabled s then []
      else fold (\<lambda>d. dset (dc_device_id d) (fold (\<lambda>p. dset (pc_point_id p) p) (filter pc_enabled (dc_points d)) []))
             (filter dc_enabled (cs_devices s)) [])"

fun is_bool :: "json \<Rightarrow> bool" where
  "is_bool (JBool _) \<longleftrightarrow> True"
| "is_bool _ \<longleftrightarrow> False"

definition value_code :: "(string, (string, PointConfig) dict) dict \<Rightarrow> int \<Rightarrow> json \<Rightarrow> string option res" where
  "value_code devices now v =
     rbind (rbind (jget ''deviceId'' v) (lookup_key devices)) (\<lambda>device. case device of
       None \<Rightarrow> Inr (Some ''UNKNOWN_DEVICE'')
     | Some points \<Rightarrow>
         rbind (rbind (jget ''pointId'' v) (lookup_key points)) (\<lambda>point. case point of
           None \<Rightarrow> Inr (Some ''UNKNOWN_POINT'')
         | Some p \<Rightarrow>
             rbind (jget_num ''timestamp'' v) (\<lambda>ts.
               if ts > of_int (now + 300000) then Inr (Some ''INVALID_TIMESTAMP'')
               else rbind (jget ''quality'' v) (\<lambda>q.
                 if q \<noteq> JStr ''GOOD'' then Inr None
                 else rbind (jget ''value'' v) (\<lambda>x.
                   Inr (if (pc_data_type p = ''bool'') \<noteq> is_bool x then Some ''SCHEMA_INVALID'' else None))))))"

fun values_code :: "(string, (string, PointConfig) dict) dict \<Rightarrow> int \<Rightarrow> json list \<Rightarrow> string option res" where
  "values_code devices now [] = Inr None"
| "values_code devices now (v # vs) =
     rbind (value_code devices now v) (\<lambda>c. case c of Some code \<Rightarrow> Inr (Some code) | None \<Rightarrow> values_code devices now vs)"

text \<open>The checks of a batch against the configuration it names, in their order; None when it may be stored.\<close>

definition batch_code :: "receiver_env \<Rightarrow> string \<Rightarrow> json \<Rightarrow> nat \<Rightarrow> int \<Rightarrow> receiver_tables \<Rightarrow> string option res" where
  "batch_code env gateway m version now t =
     (case dget (rt_configs t) version of
        None \<Rightarrow> Inr (Some ''UNKNOWN_CONFIG_VERSION'')
      | Some (payload, hash) \<Rightarrow>
          rbind (parse_strict (ve_contract env) payload gateway) (\<lambda>s.
            if content_hash (ve_contract env) s \<noteq> hash then Inr (Some ''STORAGE_ERROR'')
            else rbind (jget_num ''timestamp'' m) (\<lambda>ts.
              if ts < of_int (now - 7 * 86400 * 1000) then Inr (Some ''EXPIRED_DATA'')
              else if ts > of_int (now + 300000) then Inr (Some ''INVALID_TIMESTAMP'')
              else rbind (jget_list ''values'' m) (values_code (enabled_points s) now))))"

definition receipts_bytes :: "receiver_tables \<Rightarrow> int" where
  "receipts_bytes t = dsum (\<lambda>b. int (length (sb_payload b))) (rt_receipts t)"

definition receive_body :: "receiver_env \<Rightarrow> receiver \<Rightarrow> string \<Rightarrow> json \<Rightarrow> string \<Rightarrow> nat \<Rightarrow> int \<Rightarrow> receiver_tables
    \<Rightarrow> (string option \<times> receiver_tables) res" where
  "receive_body env rv payload m mid version now t =
     (let digest = cv_sha256 (ve_contract env) payload
      in case dget (rt_receipts t) mid of
           Some b \<Rightarrow> Inr (if sb_hash b = digest then None else Some ''VERSION_CONFLICT'', t)
         | None \<Rightarrow>
             rbind (batch_code env (rv_gateway rv) m version now t) (\<lambda>code. case code of
               Some c \<Rightarrow> Inr (Some c, t)
             | None \<Rightarrow>
                 (if int (length (rt_receipts t)) \<ge> rv_max_batches rv \<or> receipts_bytes t + int (length payload) > rv_max_bytes rv
                  then Inr (Some ''RESOURCE_LIMIT'', t)
                  else Inr (None, t\<lparr>rt_receipts := dset mid \<lparr>sb_payload = payload, sb_hash = digest, sb_stored_at = now\<rparr> (rt_receipts t)\<rparr>))))"

text \<open>The decision on a batch that can be answered: None for STORED, else the code of the refusal.\<close>

definition decide_batch :: "receiver_env \<Rightarrow> string \<Rightarrow> string \<Rightarrow> nat \<Rightarrow> int \<Rightarrow> (string option, receiver) prog" where
  "decide_batch env payload mid version now rv =
     (case validate_message (ve_contract env) ''data'' payload (Some (rv_gateway rv)) of
        Inl e \<Rightarrow> (Inl e, rv)
      | Inr (_ # _) \<Rightarrow> (Inr (Some ''SCHEMA_INVALID''), rv)
      | Inr [] \<Rightarrow>
          (case cv_loads (ve_contract env) payload of
             None \<Rightarrow> (Inl (ValueError ''JSON''), rv)
           | Some m \<Rightarrow>
               (case in_transaction env (receive_body env rv payload m mid version now) rv of
                  (Inl e, rv) \<Rightarrow> (if is_store_error e \<or> is_value_error e then (Inr (Some ''STORAGE_ERROR''), rv) else (Inl e, rv))
                | (Inr code, rv) \<Rightarrow> (Inr code, rv))))"

definition batch_ack :: "contract_env \<Rightarrow> string \<Rightarrow> string \<Rightarrow> int \<Rightarrow> string option \<Rightarrow> string" where
  "batch_ack C gateway mid now code =
     cv_dumps C (JObj [(''schemaVersion'', jint_of 1), (''gatewayId'', JStr gateway), (''timestamp'', jint_of now), (''messageId'', JStr mid),
       (''status'', JStr (if code = None then ''STORED'' else ''REJECTED'')),
       (''errors'', JArr (case code of None \<Rightarrow> [] | Some c \<Rightarrow> [JObj [(''code'', JStr c), (''path'', JStr []), (''message'', JStr ''Batch could not be stored.'')]]))])"

definition receive :: "receiver_env \<Rightarrow> string \<Rightarrow> int \<Rightarrow> (string option, receiver) prog" where
  "receive env payload now rv =
     (case identity (ve_contract env) payload (rv_gateway rv) of
        None \<Rightarrow> (Inr None, rv)
      | Some (mid, version) \<Rightarrow>
          sbind (decide_batch env payload mid version now) (\<lambda>code. sret (Some (batch_ack (ve_contract env) (rv_gateway rv) mid now code))) rv)"

definition receiver_stats :: "receiver \<Rightarrow> nat \<times> int \<times> nat" where
  "receiver_stats rv = (length (rt_receipts (rv_tables rv)), receipts_bytes (rv_tables rv), length (rt_configs (rv_tables rv)))"

section \<open>The system\<close>

inductive receiver_step :: "contract_env \<Rightarrow> receiver \<Rightarrow> receiver \<Rightarrow> bool" for C where
  rs_install: "ve_contract env = C \<Longrightarrow> receiver_step C rv (snd (install_config env payload rv))"
| rs_receive: "ve_contract env = C \<Longrightarrow> receiver_step C rv (snd (receive env payload now rv))"

definition receiver_init :: "contract_env \<Rightarrow> receiver \<Rightarrow> bool" where
  "receiver_init C rv \<longleftrightarrow> (\<exists>env gw mb my f. ve_contract env = C \<and> file_new f \<and> receiver_open env gw mb my f = Inr rv)"

definition receiver_ok :: "contract_env \<Rightarrow> receiver \<Rightarrow> bool" where
  "receiver_ok C rv \<longleftrightarrow> dwf (rt_receipts (rv_tables rv)) \<and> int (length (rt_receipts (rv_tables rv))) \<le> rv_max_batches rv
     \<and> receipts_bytes (rv_tables rv) \<le> rv_max_bytes rv
     \<and> (\<forall>mid b. dget (rt_receipts (rv_tables rv)) mid = Some b \<longrightarrow> sb_hash b = cv_sha256 C (sb_payload b))"

definition receipts :: "receiver \<Rightarrow> (string \<times> stored_batch) set" where
  "receipts rv = {(mid, b). dget (rt_receipts (rv_tables rv)) mid = Some b}"

text \<open>A batch is refused with the tables as they were, was stored before, or is stored now.\<close>

lemma receive_body_cases:
  assumes "receive_body env rv payload m mid version now t = Inr (code, t')"
  shows "code \<noteq> None \<and> t' = t
    \<or> code = None \<and> t' = t \<and> (\<exists>b. dget (rt_receipts t) mid = Some b \<and> sb_hash b = cv_sha256 (ve_contract env) payload)
    \<or> code = None \<and> dget (rt_receipts t) mid = None \<and> int (length (rt_receipts t)) < rv_max_batches rv
        \<and> receipts_bytes t + int (length payload) \<le> rv_max_bytes rv
        \<and> t' = t\<lparr>rt_receipts := dset mid \<lparr>sb_payload = payload, sb_hash = cv_sha256 (ve_contract env) payload, sb_stored_at = now\<rparr> (rt_receipts t)\<rparr>"
  using assms by (auto simp: receive_body_def Let_def rbind_Inr_iff split: option.split_asm if_split_asm)

lemma decide_cases:
  assumes "decide_batch env payload mid version now rv = (x, rv')"
  shows "rt_receipts (rv_tables rv') = rt_receipts (rv_tables rv) \<and> x \<noteq> Inr None
    \<or> x = Inr None \<and> rt_receipts (rv_tables rv') = rt_receipts (rv_tables rv)
        \<and> (\<exists>b. dget (rt_receipts (rv_tables rv)) mid = Some b \<and> sb_hash b = cv_sha256 (ve_contract env) payload)
    \<or> x = Inr None \<and> dget (rt_receipts (rv_tables rv)) mid = None \<and> int (length (rt_receipts (rv_tables rv))) < rv_max_batches rv
        \<and> receipts_bytes (rv_tables rv) + int (length payload) \<le> rv_max_bytes rv
        \<and> rt_receipts (rv_tables rv') = dset mid \<lparr>sb_payload = payload, sb_hash = cv_sha256 (ve_contract env) payload, sb_stored_at = now\<rparr> (rt_receipts (rv_tables rv))"
proof (cases "\<exists>m. validate_message (ve_contract env) ''data'' payload (Some (rv_gateway rv)) = Inr [] \<and> cv_loads (ve_contract env) payload = Some m")
  case True
  then obtain m where m: "validate_message (ve_contract env) ''data'' payload (Some (rv_gateway rv)) = Inr []" "cv_loads (ve_contract env) payload = Some m" by blast
  show ?thesis
  proof (cases "receive_body env rv payload m mid version now (rv_tables rv)")
    case (Inl e)
    with assms m show ?thesis by (auto simp: decide_batch_def in_transaction_def split: if_split_asm)
  next
    case (Inr r)
    obtain code t where r: "r = (code, t)" by (cases r)
    with assms m Inr have "ve_commit env (rv_ops rv) \<and> x = Inr code \<and> rv_tables rv' = t \<or> x = Inr (Some ''STORAGE_ERROR'') \<and> rv_tables rv' = rv_tables rv"
      by (auto simp: decide_batch_def in_transaction_def split: if_split_asm)
    with receive_body_cases [OF Inr [unfolded r]] show ?thesis by auto
  qed
qed (use assms in \<open>auto simp: decide_batch_def split: sum.split_asm list.split_asm option.split_asm\<close>)

lemma decide_frame:
  assumes "decide_batch env payload mid version now rv = (x, rv')"
  shows "rv_gateway rv' = rv_gateway rv \<and> rv_max_batches rv' = rv_max_batches rv \<and> rv_max_bytes rv' = rv_max_bytes rv"
  using assms by (auto simp: decide_batch_def in_transaction_def split: sum.split_asm list.split_asm option.split_asm if_split_asm prod.split_asm)

lemma install_result:
  assumes "install_config env payload rv = (x, rv')"
  shows "rt_receipts (rv_tables rv') = rt_receipts (rv_tables rv) \<and> rv_gateway rv' = rv_gateway rv
    \<and> rv_max_batches rv' = rv_max_batches rv \<and> rv_max_bytes rv' = rv_max_bytes rv"
  using assms by (auto simp: install_config_def in_transaction_def install_body_def split: sum.split_asm option.split_asm if_split_asm prod.split_asm)

lemma receive_result:
  assumes "receive env payload now rv = (x, rv')"
  shows "rv' = rv \<or> (\<exists>mid version code. decide_batch env payload mid version now rv = (code, rv'))"
  using assms by (auto simp: receive_def sbind_def split: option.split_asm prod.split_asm sum.split_asm)

lemma receiver_ok_same:
  "rt_receipts (rv_tables rv') = rt_receipts (rv_tables rv) \<Longrightarrow> rv_max_batches rv' = rv_max_batches rv \<Longrightarrow> rv_max_bytes rv' = rv_max_bytes rv
    \<Longrightarrow> receiver_ok C rv' = receiver_ok C rv \<and> receipts rv' = receipts rv"
  by (simp add: receiver_ok_def receipts_bytes_def receipts_def)

lemma decide_ok:
  assumes env: "ve_contract env = C" and ok: "receiver_ok C rv" and run: "decide_batch env payload mid version now rv = (x, rv')"
  shows "receiver_ok C rv' \<and> receipts rv \<subseteq> receipts rv'"
proof -
  note fr = decide_frame [OF run]
  let ?r = "rt_receipts (rv_tables rv)" and ?b = "\<lparr>sb_payload = payload, sb_hash = cv_sha256 C payload, sb_stored_at = now\<rparr>"
  consider "rt_receipts (rv_tables rv') = ?r"
    | "dget ?r mid = None" "int (length ?r) < rv_max_batches rv" "receipts_bytes (rv_tables rv) + int (length payload) \<le> rv_max_bytes rv"
      "rt_receipts (rv_tables rv') = dset mid ?b ?r"
    using decide_cases [OF run] unfolding env by (elim disjE conjE) simp_all
  then show ?thesis
  proof cases
    case 1
    with receiver_ok_same [of rv' rv C] fr ok show ?thesis by simp
  next
    case 2
    then have "mid \<notin> set (dkeys ?r)" by (simp add: dget_None_iff)
    then have "length (dset mid ?b ?r) = Suc (length ?r)" "dsum f (dset mid ?b ?r) = dsum f ?r + f ?b" for f
      by (simp_all add: length_dset dsum_dset_new)
    with 2 ok fr show ?thesis by (auto simp: receiver_ok_def receipts_def receipts_bytes_def)
  qed
qed

lemma receiver_step_ok:
  assumes "receiver_step C rv rv'" "receiver_ok C rv"
  shows "receiver_ok C rv' \<and> receipts rv \<subseteq> receipts rv' \<and> rv_gateway rv' = rv_gateway rv"
  using assms
proof (induction rule: receiver_step.induct)
  case (rs_install env rv payload)
  from install_result [OF surjective_pairing, of env payload rv] receiver_ok_same [of "snd (install_config env payload rv)" rv C] rs_install(2)
  show ?case by simp
next
  case (rs_receive env rv payload now)
  from receive_result [OF surjective_pairing, of env payload now rv] show ?case
  proof
    assume "\<exists>mid version code. decide_batch env payload mid version now rv = (code, snd (receive env payload now rv))"
    then obtain mid version code where d: "decide_batch env payload mid version now rv = (code, snd (receive env payload now rv))" by blast
    from decide_ok [OF rs_receive(1,2) d] decide_frame [OF d] show ?case by blast
  qed (use rs_receive(2) in simp)
qed

interpretation receiver_system: monotone_system "receiver_init C" "receiver_step C" "receiver_ok C" receipts for C
proof
  show "receiver_init C rv \<Longrightarrow> receiver_ok C rv" for rv
    by (auto simp: receiver_init_def receiver_open_def database_open_def rbind_Inr_iff receiver_ok_def empty_tables_def receipts_bytes_def split: if_split_asm)
qed (use receiver_step_ok in blast)+

lemma receiver_gateway: "(receiver_step C)\<^sup>*\<^sup>* rv rv' \<Longrightarrow> receiver_ok C rv \<Longrightarrow> rv_gateway rv' = rv_gateway rv"
  by (induction rule: rtranclp_induct) (use receiver_step_ok receiver_system.inv_steps in \<open>fastforce+\<close>)

section \<open>A concrete receiver\<close>

definition demo_batch :: json where
  "demo_batch = JObj [(''gatewayId'', JStr ''g''), (''messageId'', JStr ''b''), (''configVersion'', jint_of 1), (''timestamp'', jint_of 5),
     (''values'', JArr [])]"

definition batch_contract :: contract_env where
  "batch_contract = demo_contract\<lparr>cv_loads := (\<lambda>p. if p = ''batch'' then Some demo_batch else cv_loads demo_contract p)\<rparr>"

definition demo_receiver_env :: receiver_env where
  "demo_receiver_env = \<lparr>ve_contract = batch_contract, ve_commit = (\<lambda>_. True)\<rparr>"

definition demo_receiver :: receiver where
  "demo_receiver = \<lparr>rv_gateway = ''g'', rv_max_batches = 10, rv_max_bytes = 1000, rv_tables = empty_tables, rv_ops = 1\<rparr>"

definition demo_installed :: receiver where
  "demo_installed = demo_receiver\<lparr>rv_tables := \<lparr>rt_configs = [(1, ''set'', ''c'')], rt_receipts = []\<rparr>, rv_ops := 2\<rparr>"

definition demo_stored :: receiver where
  "demo_stored = demo_installed\<lparr>rv_tables := \<lparr>rt_configs = [(1, ''set'', ''c'')], rt_receipts = [(''b'', \<lparr>sb_payload = ''batch'', sb_hash = ''batch'', sb_stored_at = 5\<rparr>)]\<rparr>, rv_ops := 3\<rparr>"

lemma demo_receiver_init: "receiver_init batch_contract demo_receiver"
  unfolding receiver_init_def
  by (intro exI [of _ demo_receiver_env] exI [of _ "''g''"] exI [of _ 10] exI [of _ 1000] exI [of _ "blank_file empty_tables"])
     (simp add: demo_receiver_env_def receiver_open_def database_open_def blank_file_def file_new_def demo_receiver_def id_alnum_def empty_tables_def)

lemma batch_parse: "parse_config batch_contract ''set'' ''g'' = Inr (Inr demo_snapshot)"
  by (simp add: batch_contract_def demo_contract_def demo_messages parse_defs demo_snapshot_def Let_def)

lemma demo_batch_identity: "identity batch_contract ''batch'' ''g'' = Some (''b'', 1)"
  by (simp add: identity_def MAX_PAYLOAD_def batch_contract_def demo_batch_def identity_fields_def jeq_def jint_of_def id_alnum_def MAX_SAFE_def)

lemma demo_installed_reachable: "(receiver_step batch_contract)\<^sup>*\<^sup>* demo_receiver demo_installed"
proof -
  have env: "ve_contract demo_receiver_env = batch_contract" "ve_commit demo_receiver_env n" for n by (simp_all add: demo_receiver_env_def)
  have "install_config demo_receiver_env ''set'' demo_receiver = (Inr True, demo_installed)"
    by (simp add: install_config_def parse_strict_def env demo_receiver_def batch_parse in_transaction_def install_body_def empty_tables_def
        demo_installed_def demo_snapshot_def content_hash_def) (simp add: batch_contract_def demo_contract_def)
  then show ?thesis using rs_install [OF env(1), of demo_receiver "''set''"] by auto
qed

lemma demo_decides: "decide_batch demo_receiver_env ''batch'' ''b'' 1 5 demo_installed = (Inr None, demo_stored)"
proof -
  have env: "ve_contract demo_receiver_env = batch_contract" "ve_commit demo_receiver_env n" for n by (simp_all add: demo_receiver_env_def)
  have v: "validate_message batch_contract ''data'' ''batch'' (Some ''g'') = Inr []"
    by (simp add: batch_contract_def demo_contract_def demo_batch_def validate_message_def decode_message_def semantic_issues_def jget_list_def dindex_def jeq_def jint_of_def)
  have l: "cv_loads batch_contract ''batch'' = Some demo_batch" "cv_sha256 batch_contract s = s" "content_hash batch_contract demo_snapshot = ''c''" for s
    by (simp_all add: batch_contract_def content_hash_def demo_snapshot_def demo_contract_def)
  have "batch_code demo_receiver_env ''g'' demo_batch 1 5 (rv_tables demo_installed) = Inr None"
    by (simp add: batch_code_def demo_installed_def parse_strict_def env batch_parse l demo_batch_def jget_num_def jget_list_def dindex_def jint_of_def)
  then show ?thesis
    by (simp add: decide_batch_def env v l in_transaction_def receive_body_def demo_installed_def demo_receiver_def demo_stored_def Let_def receipts_bytes_def)
qed

section \<open>Properties\<close>

text \<open>C9. STORED means stored, once and for good: when the receiver decides to answer STORED, the batch's message id has a
  committed receipt with the hash of exactly these bytes (and the bytes themselves when the id was new), the quotas
  hold, and in every later state, whatever was received or installed since, that receipt is unchanged and a repeated
  delivery of the same bytes is answered STORED again without storing anything.\<close>

theorem receiver_stores_once:
  assumes "receiver_init C rv0" "(receiver_step C)\<^sup>*\<^sup>* rv0 rv" "ve_contract env = C" "identity C payload (rv_gateway rv) = Some (mid, version)"
    "decide_batch env payload mid version now rv = (Inr None, rv1)" "(receiver_step C)\<^sup>*\<^sup>* rv1 rv2" "ve_contract env' = C" "ve_commit env' (rv_ops rv2)"
  shows "\<exists>b. dget (rt_receipts (rv_tables rv1)) mid = Some b \<and> sb_hash b = cv_sha256 C payload
    \<and> (dget (rt_receipts (rv_tables rv)) mid = None \<longrightarrow> sb_payload b = payload)
    \<and> int (length (rt_receipts (rv_tables rv1))) \<le> rv_max_batches rv1 \<and> receipts_bytes (rv_tables rv1) \<le> rv_max_bytes rv1
    \<and> dget (rt_receipts (rv_tables rv2)) mid = Some b
    \<and> (\<exists>rv3. receive env' payload now' rv2 = (Inr (Some (batch_ack C (rv_gateway rv) mid now' None)), rv3) \<and> rv_tables rv3 = rv_tables rv2)"
proof -
  note ok = receiver_system.reachable_inv [OF assms(1,2)]
  from decide_ok [OF assms(3) ok assms(5)] have ok1: "receiver_ok C rv1" by blast
  have gw: "rv_gateway rv2 = rv_gateway rv" using receiver_gateway [OF assms(6) ok1] decide_frame [OF assms(5)] by simp
  from decide_cases [OF assms(5)] assms(3) obtain b where b: "dget (rt_receipts (rv_tables rv1)) mid = Some b" "sb_hash b = cv_sha256 C payload"
    "dget (rt_receipts (rv_tables rv)) mid = None \<longrightarrow> sb_payload b = payload" by auto
  from receiver_system.gauge_steps [OF assms(6) ok1] b(1) have b2: "dget (rt_receipts (rv_tables rv2)) mid = Some b" by (auto simp: receipts_def)
  from assms(3,5) obtain m where m: "validate_message C ''data'' payload (Some (rv_gateway rv)) = Inr []" "cv_loads C payload = Some m"
    by (auto simp: decide_batch_def split: sum.split_asm list.split_asm option.split_asm)
  have "receive_body env' rv2 payload m mid version now' (rv_tables rv2) = Inr (None, rv_tables rv2)"
    using b2 b(2) assms(7) by (simp add: receive_body_def Let_def)
  then have "decide_batch env' payload mid version now' rv2 = (Inr None, rv2\<lparr>rv_tables := rv_tables rv2, rv_ops := rv_ops rv2 + 1\<rparr>)"
    using m gw assms(7,8) by (simp add: decide_batch_def in_transaction_def)
  then have "receive env' payload now' rv2 = (Inr (Some (batch_ack C (rv_gateway rv) mid now' None)), rv2\<lparr>rv_ops := rv_ops rv2 + 1\<rparr>)"
    using assms(4,7) gw by (simp add: receive_def)
  with b b2 ok1 show ?thesis by (auto simp: receiver_ok_def)
qed

theorem receiver_stores_once_witness:
  "\<exists>rv3. receive demo_receiver_env ''batch'' 9 demo_stored = (Inr (Some (batch_ack batch_contract ''g'' ''b'' 9 None)), rv3)
    \<and> rv_tables rv3 = rv_tables demo_stored"
proof -
  have env: "ve_contract demo_receiver_env = batch_contract" "ve_commit demo_receiver_env n" for n by (simp_all add: demo_receiver_env_def)
  have g: "rv_gateway demo_installed = ''g''" by (simp add: demo_installed_def demo_receiver_def)
  from receiver_stores_once [OF demo_receiver_init demo_installed_reachable env(1) _ demo_decides rtranclp.rtrancl_refl env(1,2), of 9]
  show ?thesis using demo_batch_identity unfolding g by blast
qed

end
