(* ===== verification/Budget.thy ===== *)
theory Budget
  imports Prelude
begin

text \<open>
  The admission of reads of \<^verbatim>\<open>devices/budget.py\<close>: one read at a time per endpoint, at most \<open>capacity\<close> in all.
  The coroutine \<open>acquire\<close> is a task that goes through phases, one step between two awaits; which waiter the lock
  or the semaphore wakes first, when a deadline passes and when a task is cancelled are the scheduler's choice. The local
  variables \<open>local\<close> and \<open>global_slot\<close> of a task are its phase.
\<close>

section \<open>State\<close>

datatype phase = Waiting | Has_Lock | Admitted | Late_Waiting | Late_Locked

datatype endpoint = Endpoint string int

record budget =
  bg_capacity :: nat
  bg_free :: nat
  bg_endpoints :: "(endpoint, bool \<times> nat) dict"
  bg_skipped :: nat
  bg_tasks :: "(nat, endpoint \<times> phase) dict"

definition budget_new :: "int \<Rightarrow> budget res" where
  "budget_new capacity =
     (if capacity < 1 \<or> capacity > 16 then Inl (ValueError ''Read capacity must be 1..16'')
      else Inr \<lparr>bg_capacity = nat capacity, bg_free = nat capacity, bg_endpoints = [], bg_skipped = 0, bg_tasks = []\<rparr>)"

definition entry :: "budget \<Rightarrow> endpoint \<Rightarrow> bool \<times> nat" where
  "entry b ep = dget_or (bg_endpoints b) ep (False, 0)"

text \<open>The lines up to the first await.\<close>

definition enter :: "nat \<Rightarrow> endpoint \<Rightarrow> budget \<Rightarrow> budget" where
  "enter t ep b = b\<lparr>bg_endpoints := dset ep (fst (entry b ep), snd (entry b ep) + 1) (bg_endpoints b), bg_tasks := dset t (ep, Waiting) (bg_tasks b)\<rparr>"

text \<open>\<^verbatim>\<open>await entry[0].acquire()\<close> and \<^verbatim>\<open>await self._global.acquire()\<close>; a task that has to wait stays as it is.\<close>

definition take_lock :: "nat \<Rightarrow> budget \<Rightarrow> budget" where
  "take_lock t b =
     (case dget (bg_tasks b) t of
        Some (ep, Waiting) \<Rightarrow>
          (if fst (entry b ep) then b
           else b\<lparr>bg_endpoints := dset ep (True, snd (entry b ep)) (bg_endpoints b), bg_tasks := dset t (ep, Has_Lock) (bg_tasks b)\<rparr>)
      | _ \<Rightarrow> b)"

definition take_slot :: "nat \<Rightarrow> budget \<Rightarrow> budget" where
  "take_slot t b =
     (case dget (bg_tasks b) t of
        Some (ep, Has_Lock) \<Rightarrow> (if bg_free b = 0 then b else b\<lparr>bg_free := bg_free b - 1, bg_tasks := dset t (ep, Admitted) (bg_tasks b)\<rparr>)
      | _ \<Rightarrow> b)"

text \<open>The deadline passes while the task waits: it is not admitted, the cycle counts as skipped.\<close>

definition timeout :: "nat \<Rightarrow> budget \<Rightarrow> budget" where
  "timeout t b =
     (case dget (bg_tasks b) t of
        Some (ep, Waiting) \<Rightarrow> b\<lparr>bg_skipped := bg_skipped b + 1, bg_tasks := dset t (ep, Late_Waiting) (bg_tasks b)\<rparr>
      | Some (ep, Has_Lock) \<Rightarrow> b\<lparr>bg_skipped := bg_skipped b + 1, bg_tasks := dset t (ep, Late_Locked) (bg_tasks b)\<rparr>
      | _ \<Rightarrow> b)"

text \<open>The \<^verbatim>\<open>finally\<close> block, after the body, an exception of it, or a cancellation while waiting.\<close>

definition leave :: "nat \<Rightarrow> budget \<Rightarrow> budget" where
  "leave t b =
     (case dget (bg_tasks b) t of
        None \<Rightarrow> b
      | Some (ep, ph) \<Rightarrow>
          (let (locked, n) = entry b ep;
               free = (if ph = Admitted then bg_free b + 1 else bg_free b);
               locked = (if ph \<in> {Has_Lock, Admitted, Late_Locked} then False else locked);
               n = n - 1
           in b\<lparr>bg_free := free, bg_endpoints := (if n = 0 then ddel ep (bg_endpoints b) else dset ep (locked, n) (bg_endpoints b)),
                bg_tasks := ddel t (bg_tasks b)\<rparr>))"

section \<open>The system\<close>

inductive budget_step :: "budget \<Rightarrow> budget \<Rightarrow> bool" where
  bs_enter: "dget (bg_tasks b) t = None \<Longrightarrow> budget_step b (enter t ep b)"
| bs_lock: "budget_step b (take_lock t b)"
| bs_slot: "budget_step b (take_slot t b)"
| bs_timeout: "budget_step b (timeout t b)"
| bs_leave: "budget_step b (leave t b)"

definition budget_init :: "budget \<Rightarrow> bool" where
  "budget_init b \<longleftrightarrow> (\<exists>capacity. budget_new capacity = Inr b)"

definition admitted_weight :: "endpoint \<times> phase \<Rightarrow> int" where
  "admitted_weight e = (if snd e = Admitted then 1 else 0)"

definition user_weight :: "endpoint \<Rightarrow> endpoint \<times> phase \<Rightarrow> int" where
  "user_weight ep e = (if fst e = ep then 1 else 0)"

definition holder_weight :: "endpoint \<Rightarrow> endpoint \<times> phase \<Rightarrow> int" where
  "holder_weight ep e = (if fst e = ep \<and> snd e \<in> {Has_Lock, Admitted, Late_Locked} then 1 else 0)"

lemmas weights = admitted_weight_def user_weight_def holder_weight_def

definition budget_ok :: "budget \<Rightarrow> bool" where
  "budget_ok b \<longleftrightarrow> 1 \<le> bg_capacity b \<and> bg_capacity b \<le> 16 \<and> dwf (bg_tasks b)
     \<and> int (bg_free b) + dsum admitted_weight (bg_tasks b) = int (bg_capacity b)
     \<and> (\<forall>ep. dsum (user_weight ep) (bg_tasks b) = int (snd (entry b ep)))
     \<and> (\<forall>ep. dsum (holder_weight ep) (bg_tasks b) = (if fst (entry b ep) then 1 else 0))
     \<and> (\<forall>ep l n. dget (bg_endpoints b) ep = Some (l, n) \<longrightarrow> 0 < n)"

lemma dsum_two:
  assumes "dwf d" "\<And>v. 0 \<le> w v" "dget d k = Some u" "dget d k' = Some v" "k \<noteq> k'"
  shows "w u + w v \<le> dsum w d"
proof -
  have "w v \<le> dsum w (ddel k d)" by (rule dsum_ge_member [OF assms(2), where k = k']) (use assms in simp)
  with dsum_ddel [OF assms(1,3), of w] show ?thesis by simp
qed

text \<open>How the sums change when a task enters, changes its phase or leaves.\<close>

lemma enter_sum: "dget (bg_tasks b) t = None \<Longrightarrow> dsum w (dset t e (bg_tasks b)) = dsum w (bg_tasks b) + w e"
  by (rule dsum_dset_new) (simp add: dget_None_iff)

lemma phase_sum: "budget_ok b \<Longrightarrow> dget (bg_tasks b) t = Some u \<Longrightarrow> dsum w (dset t e (bg_tasks b)) = dsum w (bg_tasks b) - w u + w e"
  by (rule dsum_dset_old) (simp_all add: budget_ok_def)

lemma leave_sum: "budget_ok b \<Longrightarrow> dget (bg_tasks b) t = Some u \<Longrightarrow> dsum w (ddel t (bg_tasks b)) = dsum w (bg_tasks b) - w u"
  by (rule dsum_ddel) (simp_all add: budget_ok_def)

lemma budget_okD:
  assumes "budget_ok b"
  shows "1 \<le> bg_capacity b \<and> bg_capacity b \<le> 16" "dwf (bg_tasks b)" "int (bg_free b) + dsum admitted_weight (bg_tasks b) = int (bg_capacity b)"
    "dsum (user_weight ep) (bg_tasks b) = int (snd (entry b ep))" "dsum (holder_weight ep) (bg_tasks b) = (if fst (entry b ep) then 1 else 0)"
    "dget (bg_endpoints b) ep = Some (l, n) \<Longrightarrow> 0 < n"
  using assms by (auto simp: budget_ok_def)

lemma budget_okI:
  assumes "1 \<le> bg_capacity b \<and> bg_capacity b \<le> 16" "dwf (bg_tasks b)" "int (bg_free b) + dsum admitted_weight (bg_tasks b) = int (bg_capacity b)"
    "\<And>ep. dsum (user_weight ep) (bg_tasks b) = int (snd (entry b ep))"
    "\<And>ep. dsum (holder_weight ep) (bg_tasks b) = (if fst (entry b ep) then 1 else 0)"
    "\<And>ep l n. dget (bg_endpoints b) ep = Some (l, n) \<Longrightarrow> 0 < n"
  shows "budget_ok b"
  using assms by (simp add: budget_ok_def)

lemma weights_nonneg [simp]: "0 \<le> admitted_weight e" "0 \<le> user_weight ep e" "0 \<le> holder_weight ep e"
  by (simp_all add: weights)

text \<open>A task present uses its endpoint, and holds its lock in the phases that say so.\<close>

lemma task_uses:
  assumes ok: "budget_ok b" and t: "dget (bg_tasks b) t = Some (ep, ph)"
  shows "0 < snd (entry b ep)" "ph \<in> {Has_Lock, Admitted, Late_Locked} \<Longrightarrow> fst (entry b ep)"
proof -
  have "user_weight ep (ep, ph) \<le> dsum (user_weight ep) (bg_tasks b)" by (rule dsum_ge_member [OF weights_nonneg(2) t])
  then show "0 < snd (entry b ep)" using budget_okD(4) [OF ok, of ep] by (simp add: user_weight_def)
  have "holder_weight ep (ep, ph) \<le> dsum (holder_weight ep) (bg_tasks b)" by (rule dsum_ge_member [OF weights_nonneg(3) t])
  then show "fst (entry b ep)" if "ph \<in> {Has_Lock, Admitted, Late_Locked}"
    using budget_okD(5) [OF ok, of ep] that by (simp add: holder_weight_def split: if_split_asm)
qed

lemma entry_simps:
  "entry (b\<lparr>bg_tasks := x\<rparr>) ep = entry b ep" "entry (b\<lparr>bg_free := f\<rparr>) ep = entry b ep" "entry (b\<lparr>bg_skipped := k\<rparr>) ep = entry b ep"
  "entry (b\<lparr>bg_endpoints := dset e v (bg_endpoints b)\<rparr>) ep = (if ep = e then v else entry b ep)"
  "entry (b\<lparr>bg_endpoints := ddel e (bg_endpoints b)\<rparr>) ep = (if ep = e then (False, 0) else entry b ep)"
  by (simp_all add: entry_def dget_or_def)

lemma enter_ok:
  assumes ok: "budget_ok b" and t: "dget (bg_tasks b) t = None"
  shows "budget_ok (enter t ep b)"
proof (rule budget_okI)
  fix e l n
  have "int (snd (entry (enter t ep b) e)) = int (snd (entry b e)) + user_weight e (ep, Waiting)" "fst (entry (enter t ep b) e) = fst (entry b e)"
    by (simp_all add: enter_def entry_def dget_or_def user_weight_def)
  then show "dsum (user_weight e) (bg_tasks (enter t ep b)) = int (snd (entry (enter t ep b) e))"
    "dsum (holder_weight e) (bg_tasks (enter t ep b)) = (if fst (entry (enter t ep b) e) then 1 else 0)"
    using budget_okD(4,5) [OF ok, of e] by (simp_all add: enter_def enter_sum [OF t] holder_weight_def)
  show "0 < n" if "dget (bg_endpoints (enter t ep b)) e = Some (l, n)"
    using that budget_okD(6) [OF ok] by (auto simp: enter_def split: if_split_asm)
qed (use budget_okD [OF ok] in \<open>simp_all add: enter_def enter_sum [OF t] admitted_weight_def\<close>)

text \<open>A task that changes its phase without leaving.\<close>

lemma phase_ok:
  assumes ok: "budget_ok b" and t: "dget (bg_tasks b) t = Some (ep, ph)"
    and b': "bg_capacity b' = bg_capacity b" "bg_tasks b' = dset t (ep, ph') (bg_tasks b)"
      "int (bg_free b') + admitted_weight (ep, ph') = int (bg_free b) + admitted_weight (ep, ph)"
      "\<And>e. snd (entry b' e) = snd (entry b e)"
      "\<And>e. (if fst (entry b' e) then 1 else 0) - holder_weight e (ep, ph') = (if fst (entry b e) then 1 else 0) - holder_weight e (ep, ph)"
      "\<And>e l n. dget (bg_endpoints b') e = Some (l, n) \<Longrightarrow> 0 < n"
  shows "budget_ok b'"
proof (rule budget_okI)
  fix e
  show "dsum (user_weight e) (bg_tasks b') = int (snd (entry b' e))"
    using budget_okD(4) [OF ok, of e] by (simp add: b' phase_sum [OF ok t] user_weight_def)
  show "dsum (holder_weight e) (bg_tasks b') = (if fst (entry b' e) then 1 else 0)"
    using budget_okD(5) [OF ok, of e] b'(5) [of e] by (simp add: b'(2) phase_sum [OF ok t])
  show "int (bg_free b') + dsum admitted_weight (bg_tasks b') = int (bg_capacity b')"
    using budget_okD(3) [OF ok] b'(3) by (simp add: b'(1,2) phase_sum [OF ok t])
qed (use budget_okD(1,2) [OF ok] b' in auto)

lemma take_lock_ok:
  assumes ok: "budget_ok b" shows "budget_ok (take_lock t b)"
proof (cases "\<exists>ep. dget (bg_tasks b) t = Some (ep, Waiting) \<and> \<not> fst (entry b ep)")
  case True
  then obtain ep where t: "dget (bg_tasks b) t = Some (ep, Waiting)" "\<not> fst (entry b ep)" by blast
  have b': "take_lock t b = b\<lparr>bg_endpoints := dset ep (True, snd (entry b ep)) (bg_endpoints b), bg_tasks := dset t (ep, Has_Lock) (bg_tasks b)\<rparr>"
    using t by (simp add: take_lock_def)
  have e: "entry (take_lock t b) e = (if e = ep then (True, snd (entry b ep)) else entry b e)" for e by (simp add: b' entry_def dget_or_def)
  show ?thesis
  proof (rule phase_ok [OF ok t(1), where ph' = Has_Lock])
    fix e l n
    show "(if fst (entry (take_lock t b) e) then 1 else 0) - holder_weight e (ep, Has_Lock) = (if fst (entry b e) then 1 else 0) - holder_weight e (ep, Waiting)"
      using t(2) by (auto simp: e holder_weight_def)
    show "0 < n" if "dget (bg_endpoints (take_lock t b)) e = Some (l, n)"
      using that task_uses(1) [OF ok t(1)] budget_okD(6) [OF ok] by (auto simp: b' split: if_split_asm)
  qed (simp_all add: b' e [unfolded b'] admitted_weight_def)
qed (use ok in \<open>auto simp: take_lock_def split: option.split prod.split phase.split\<close>)

lemma take_slot_ok:
  assumes ok: "budget_ok b" shows "budget_ok (take_slot t b)"
proof (cases "\<exists>ep. dget (bg_tasks b) t = Some (ep, Has_Lock) \<and> bg_free b \<noteq> 0")
  case True
  then obtain ep where t: "dget (bg_tasks b) t = Some (ep, Has_Lock)" "bg_free b \<noteq> 0" by blast
  show ?thesis
    by (rule phase_ok [OF ok t(1), where ph' = Admitted])
       (use t budget_okD(6) [OF ok] in \<open>auto simp: take_slot_def entry_def weights\<close>)
qed (use ok in \<open>auto simp: take_slot_def split: option.split prod.split phase.split\<close>)

lemma timeout_ok:
  assumes ok: "budget_ok b" shows "budget_ok (timeout t b)"
proof (cases "dget (bg_tasks b) t")
  case (Some e)
  obtain ep ph where t: "dget (bg_tasks b) t = Some (ep, ph)" using Some by (cases e) auto
  show ?thesis
  proof (cases ph)
    case Waiting
    show ?thesis
      by (rule phase_ok [OF ok t, where ph' = Late_Waiting]) (use t Waiting budget_okD(6) [OF ok] in \<open>auto simp: timeout_def entry_def weights\<close>)
  next
    case Has_Lock
    show ?thesis
      by (rule phase_ok [OF ok t, where ph' = Late_Locked]) (use t Has_Lock budget_okD(6) [OF ok] in \<open>auto simp: timeout_def entry_def weights\<close>)
  qed (use ok t in \<open>simp_all add: timeout_def\<close>)
qed (use ok in \<open>simp add: timeout_def\<close>)

lemma leave_ok:
  assumes ok: "budget_ok b" shows "budget_ok (leave t b)"
proof (cases "dget (bg_tasks b) t")
  case (Some e)
  obtain ep ph where e: "e = (ep, ph)" by (cases e)
  note t = Some [unfolded e]
  define n where "n = snd (entry b ep) - 1"
  define locked where "locked = (if ph \<in> {Has_Lock, Admitted, Late_Locked} then False else fst (entry b ep))"
  have b': "leave t b = b\<lparr>bg_free := (if ph = Admitted then bg_free b + 1 else bg_free b),
      bg_endpoints := (if n = 0 then ddel ep (bg_endpoints b) else dset ep (locked, n) (bg_endpoints b)), bg_tasks := ddel t (bg_tasks b)\<rparr>"
    by (simp add: leave_def t n_def locked_def Let_def split: prod.split)
  have f: "bg_tasks (leave t b) = ddel t (bg_tasks b)" "bg_capacity (leave t b) = bg_capacity b"
    "bg_free (leave t b) = (if ph = Admitted then bg_free b + 1 else bg_free b)"
    "bg_endpoints (leave t b) = (if n = 0 then ddel ep (bg_endpoints b) else dset ep (locked, n) (bg_endpoints b))" by (simp_all add: b')
  have last_one: "\<not> locked" if "n = 0"
  proof
    assume l: "locked"
    then have h: "fst (entry b ep)" "ph \<notin> {Has_Lock, Admitted, Late_Locked}" by (auto simp: locked_def split: if_split_asm)
    have "dsum (holder_weight ep) (ddel t (bg_tasks b)) = 1" using budget_okD(5) [OF ok, of ep] h by (simp add: leave_sum [OF ok t] holder_weight_def)
    moreover have "dsum (user_weight ep) (ddel t (bg_tasks b)) = 0"
      using budget_okD(4) [OF ok, of ep] task_uses(1) [OF ok t] that by (simp add: leave_sum [OF ok t] user_weight_def n_def)
    moreover have "dsum (holder_weight ep) d \<le> dsum (user_weight ep) d" for d :: "(nat, endpoint \<times> phase) dict"
      by (induction d) (auto simp: weights)
    ultimately show False by (metis not_one_le_zero)
  qed
  have en: "entry (leave t b) e = (if e = ep then (if n = 0 then (False, 0) else (locked, n)) else entry b e)" for e
    by (simp add: b' entry_def dget_or_def)
  show ?thesis
  proof (rule budget_okI)
    fix e l m
    show "dsum (user_weight e) (bg_tasks (leave t b)) = int (snd (entry (leave t b) e))"
      using budget_okD(4) [OF ok, of e] task_uses(1) [OF ok t] by (auto simp: en f leave_sum [OF ok t] user_weight_def n_def)
    show "dsum (holder_weight e) (bg_tasks (leave t b)) = (if fst (entry (leave t b) e) then 1 else 0)"
      using budget_okD(5) [OF ok, of e] task_uses(2) [OF ok t] last_one
      by (auto simp: en f leave_sum [OF ok t] holder_weight_def locked_def split: if_split_asm)
    show "0 < m" if "dget (bg_endpoints (leave t b)) e = Some (l, m)"
      using that budget_okD(6) [OF ok] by (auto simp: f split: if_split_asm)
  qed (use budget_okD(1,2,3) [OF ok] in \<open>auto simp: f leave_sum [OF ok t] admitted_weight_def\<close>)
qed (use ok in \<open>simp add: leave_def\<close>)

interpretation budget_system: invariant_system budget_init budget_step budget_ok
proof
  show "budget_init b \<Longrightarrow> budget_ok b" for b
    by (auto simp: budget_init_def budget_new_def budget_ok_def entry_def dget_or_def split: if_split_asm)
  show "budget_step b b' \<Longrightarrow> budget_ok b \<Longrightarrow> budget_ok b'" for b b'
    by (induction rule: budget_step.induct) (auto intro: enter_ok take_lock_ok take_slot_ok timeout_ok leave_ok)
qed

section \<open>A concrete budget\<close>

definition demo_endpoint :: endpoint where
  "demo_endpoint = Endpoint ''plc'' 502"

definition demo_budget :: budget where
  "demo_budget = \<lparr>bg_capacity = 1, bg_free = 1, bg_endpoints = [], bg_skipped = 0, bg_tasks = []\<rparr>"

definition demo_reading :: budget where
  "demo_reading = take_slot 1 (take_lock 1 (enter 2 demo_endpoint (enter 1 demo_endpoint demo_budget)))"

lemma demo_budget_init: "budget_init demo_budget"
  unfolding budget_init_def by (intro exI [of _ 1]) (simp add: budget_new_def demo_budget_def)

lemma demo_reading_reachable: "budget_step\<^sup>*\<^sup>* demo_budget demo_reading"
proof -
  have "budget_step demo_budget (enter 1 demo_endpoint demo_budget)" by (rule bs_enter) (simp add: demo_budget_def)
  moreover have "budget_step (enter 1 demo_endpoint demo_budget) (enter 2 demo_endpoint (enter 1 demo_endpoint demo_budget))"
    by (rule bs_enter) (simp add: demo_budget_def enter_def)
  ultimately show ?thesis unfolding demo_reading_def by (meson bs_lock bs_slot r_into_rtranclp rtranclp_trans)
qed

section \<open>Properties\<close>

text \<open>C18. Admission of reads: in every state that any schedule of the coroutines reaches, with deadlines that pass and tasks
  that are cancelled at any await, at most \<open>capacity\<close> (at most 16) reads are admitted, two admitted reads are at different
  endpoints, a slot is taken only by an admitted read, never by one that waits for its endpoint, and when
  no task is left every slot is free and no endpoint is remembered.\<close>

theorem budget_exclusive:
  assumes "budget_init b0" "budget_step\<^sup>*\<^sup>* b0 b"
  shows "bg_capacity b \<le> 16 \<and> int (bg_free b) + dsum admitted_weight (bg_tasks b) = int (bg_capacity b)
    \<and> (\<forall>t u ep ep'. dget (bg_tasks b) t = Some (ep, Admitted) \<and> dget (bg_tasks b) u = Some (ep', Admitted) \<and> t \<noteq> u \<longrightarrow> ep \<noteq> ep')
    \<and> (bg_tasks b = [] \<longrightarrow> bg_free b = bg_capacity b \<and> bg_endpoints b = [])"
proof -
  note ok = budget_system.reachable_inv [OF assms]
  have "ep \<noteq> ep'" if "dget (bg_tasks b) t = Some (ep, Admitted)" "dget (bg_tasks b) u = Some (ep', Admitted)" "t \<noteq> u" for t u ep ep'
  proof
    assume "ep = ep'"
    with dsum_two [where w = "holder_weight ep", OF budget_okD(2) [OF ok] weights_nonneg(3) that] budget_okD(5) [OF ok, of ep]
    show False by (simp add: holder_weight_def split: if_split_asm)
  qed
  moreover have "bg_endpoints b = []" if "bg_tasks b = []"
  proof (rule ccontr)
    assume "bg_endpoints b \<noteq> []"
    then obtain ep l n xs where "bg_endpoints b = (ep, l, n) # xs" by (cases "bg_endpoints b") auto
    then have "dget (bg_endpoints b) ep = Some (l, n)" by simp
    with budget_okD(6) [OF ok this] budget_okD(4) [OF ok, of ep] that show False by (simp add: entry_def dget_or_def)
  qed
  ultimately show ?thesis using budget_okD(1,3) [OF ok] by auto
qed

theorem budget_exclusive_witness:
  "int (bg_free demo_reading) + dsum admitted_weight (bg_tasks demo_reading) = int (bg_capacity demo_reading) \<and> bg_free demo_reading = 0"
proof -
  have "bg_free demo_reading = 0"
    by (simp add: demo_reading_def demo_budget_def enter_def take_lock_def take_slot_def entry_def dget_or_def)
  with budget_exclusive [OF demo_budget_init demo_reading_reachable] show ?thesis by blast
qed

end
