(* ===== verification/Health.thy ===== *)
theory Health
  imports Control Records
begin

text \<open>
  Health of the agent: the diagnostics of a runner (\<^verbatim>\<open>devices/modbus.py\<close>; those of \<^verbatim>\<open>devices/opcua.py\<close> are the same
  code), the heartbeat of \<^verbatim>\<open>messaging/health.py\<close> and its selection of changed device states. Parameters: the clocks, the
  state of each runner, and whether a publication finds the time available.
\<close>

section \<open>Diagnostics of a runner\<close>

text \<open>What a runner shows: its latest samples, the time of each point's last result, its last error and good timestamp,
  and whether its polling task exists and has ended.\<close>

record runner_state =
  ru_latest :: "(string, Sample) dict"
  ru_last_result :: "(string, rat) dict"
  ru_last_error :: "string option"
  ru_last_good :: "int option"
  ru_task_done :: bool

record device_state =
  dv_device_id :: string
  dv_status :: string
  dv_last_error :: "string option"
  dv_last_good :: "int option"

fun quality_name :: "quality \<Rightarrow> string" where
  "quality_name GOOD = ''GOOD''"
| "quality_name UNKNOWN = ''UNKNOWN''"
| "quality_name STALE = ''STALE''"
| "quality_name BAD_TIMEOUT = ''BAD_TIMEOUT''"
| "quality_name BAD_CONNECTION = ''BAD_CONNECTION''"
| "quality_name BAD_PROTOCOL = ''BAD_PROTOCOL''"
| "quality_name BAD_DECODE = ''BAD_DECODE''"

definition point_quality :: "runner_state \<Rightarrow> rat \<Rightarrow> PointConfig \<Rightarrow> quality res" where
  "point_quality ru now p =
     (case dget (ru_latest ru) (pc_point_id p) of
        None \<Rightarrow> Inr UNKNOWN
      | Some s \<Rightarrow>
          (case (case dget (ru_last_result ru) (pc_point_id p) of Some t \<Rightarrow> Some t | None \<Rightarrow> s_monotonic_time s) of
             None \<Rightarrow> Inl TypeError
           | Some t \<Rightarrow> Inr (if now - t \<ge> of_int (pc_stale_after_ms p) / 1000 then STALE else s_quality s)))"

definition device_status :: "runner_state \<Rightarrow> quality list \<Rightarrow> string" where
  "device_status ru qualities =
     (let good = length (filter (\<lambda>q. q = GOOD) qualities)
      in if ru_latest ru = [] then ''CONNECTING''
         else if good = length qualities then ''ONLINE''
         else if good = 0 \<and> list_all (\<lambda>q. q \<in> {BAD_CONNECTION, BAD_TIMEOUT, STALE}) qualities then ''OFFLINE''
         else ''DEGRADED'')"

text \<open>The state, the number of good points and the number of enabled points.\<close>

definition runner_diagnostics :: "runner_state \<Rightarrow> DeviceConfig \<Rightarrow> rat \<Rightarrow> (device_state \<times> nat \<times> nat) res" where
  "runner_diagnostics ru d now =
     rbind (rmap (point_quality ru now) (filter pc_enabled (dc_points d))) (\<lambda>qualities.
       (let good = length (filter (\<lambda>q. q = GOOD) qualities);
            error = (case ru_last_error ru of Some (c # cs) \<Rightarrow> Some (c # cs) | _ \<Rightarrow> map_option quality_name (List.find (\<lambda>q. q \<noteq> GOOD) qualities));
            (state, error, good) = (if ru_task_done ru then (''OFFLINE'', Some ''POLL_TASK_FAILED'', 0) else (device_status ru qualities, error, good))
        in Inr (\<lparr>dv_device_id = dc_device_id d, dv_status = state, dv_last_error = error, dv_last_good = ru_last_good ru\<rparr>, good, length qualities)))"

section \<open>The heartbeat\<close>

record health_env =
  he_time :: time_env
  he_clock :: int
  he_now :: rat
  he_boot_id :: string
  he_started :: rat
  he_runner :: "nat \<Rightarrow> runner_state option"

fun agent_state_name :: "agent_state \<Rightarrow> string" where
  "agent_state_name A_NEW = ''NEW''"
| "agent_state_name A_STARTING = ''STARTING''"
| "agent_state_name A_WAITING_CONFIG = ''WAITING_CONFIG''"
| "agent_state_name A_RUNNING = ''RUNNING''"
| "agent_state_name A_DISABLED = ''DISABLED''"
| "agent_state_name A_APPLYING = ''APPLYING''"
| "agent_state_name A_STOPPING = ''STOPPING''"
| "agent_state_name A_STOPPED = ''STOPPED''"
| "agent_state_name A_FAILED = ''FAILED''"

text \<open>The timestamp of a heartbeat: None when the time provider closes the gate.\<close>

definition health_time :: "health_env \<Rightarrow> (int option, ptime option) prog" where
  "health_time env p =
     (case p of
        None \<Rightarrow> (Inr (Some (he_clock env)), None)
      | Some q \<Rightarrow>
          (case sbind (snapshot (he_time env)) (\<lambda>reading. sbind (valid_for (he_time env) None CONTROL_SEND) (\<lambda>ok. sret (ok, reading))) q of
             (Inl e, q) \<Rightarrow> (Inl e, Some q)
           | (Inr (ok, reading), q) \<Rightarrow>
               (Inr (if \<not> ok then None
                     else case (if ts_time_valid reading then ts_utc_ms reading else ts_system_utc_ms reading) of
                            None \<Rightarrow> Some (he_clock env) | Some t \<Rightarrow> Some t), Some q)))"

definition idle_state :: "string \<Rightarrow> string \<Rightarrow> device_state" where
  "idle_state did state = \<lparr>dv_device_id = did, dv_status = state, dv_last_error = None, dv_last_good = None\<rparr>"

definition device_health :: "health_env \<Rightarrow> agent \<Rightarrow> ConfigSnapshot \<Rightarrow> DeviceConfig \<Rightarrow> (device_state \<times> nat \<times> nat) res" where
  "device_health env a config d =
     (if \<not> cs_enabled config \<or> \<not> dc_enabled d \<or> \<not> list_ex pc_enabled (dc_points d) then Inr (idle_state (dc_device_id d) ''DISABLED'', 0, 0)
      else case (case dget (rt_runners (ag_runtime a)) (dc_device_id d) of None \<Rightarrow> None | Some r \<Rightarrow> he_runner env r) of
             Some ru \<Rightarrow> runner_diagnostics ru d (he_now env)
           | None \<Rightarrow> Inr (idle_state (dc_device_id d) ''CONNECTING'', 0, length (filter pc_enabled (dc_points d))))"

definition device_json :: "device_state \<Rightarrow> json" where
  "device_json s = JObj [(''deviceId'', JStr (dv_device_id s)), (''status'', JStr (dv_status s)), (''lastError'', jopt JStr (dv_last_error s)),
     (''lastGoodTimestamp'', jopt jint_of (dv_last_good s))]"

definition heartbeat_json :: "health_env \<Rightarrow> agent \<Rightarrow> string \<Rightarrow> json \<Rightarrow> int \<Rightarrow> nat \<Rightarrow> (device_state \<times> nat \<times> nat) list \<Rightarrow> json" where
  "heartbeat_json env a session queue timestamp version devices =
     (let good = sum_list (map (fst \<circ> snd) devices); tot = sum_list (map (snd \<circ> snd) devices)
      in JObj [(''schemaVersion'', jint_of 1), (''gatewayId'', JStr (co_gateway (ag_store a))), (''timestamp'', jint_of timestamp),
          (''sessionId'', JStr session), (''bootId'', JStr (he_boot_id env)), (''agentVersion'', JStr ''0.2.0''),
          (''activeConfigVersion'', jint_of (int version)), (''uptimeSeconds'', jint_of (max 0 \<lfloor>he_now env - he_started env\<rfloor>)),
          (''agentState'', JStr (agent_state_name (ag_state a))), (''devices'', JArr (map (device_json \<circ> fst) devices)),
          (''points'', JObj [(''total'', jint_of (int tot)), (''good'', jint_of (int good)), (''bad'', jint_of (int tot - int good))]),
          (''queue'', queue)])"

definition heartbeat :: "health_env \<Rightarrow> agent \<Rightarrow> string \<Rightarrow> json \<Rightarrow> (json option, ptime option) prog" where
  "heartbeat env a session queue =
     sbind (health_time env) (\<lambda>timestamp p.
       case (timestamp, ag_durable a) of
         (Some t, Some version) \<Rightarrow>
           (let config = rt_snapshot (ag_runtime a)
            in if ag_state a \<notin> {A_WAITING_CONFIG, A_RUNNING, A_DISABLED}
                  \<or> (case config of None \<Rightarrow> False | Some c \<Rightarrow> cs_config_version c \<noteq> version) then (Inr None, p)
               else (case rmap (case config of None \<Rightarrow> \<lambda>_. Inl AttributeError | Some c \<Rightarrow> device_health env a c)
                            (case config of None \<Rightarrow> [] | Some c \<Rightarrow> cs_devices c) of
                       Inl e \<Rightarrow> (Inl e, p)
                     | Inr devices \<Rightarrow> (Inr (Some (heartbeat_json env a session queue t version devices)), p)))
       | _ \<Rightarrow> (Inr None, p))"

section \<open>Changed device states\<close>

text \<open>The loop of \<open>run\<close> over the devices of a heartbeat: a state is published when it differs from the last one sent
  under this version; \<open>available\<close> says whether the n-th publication finds the time available, the loop stops at one that does
  not. What was sent for devices that are gone is forgotten.\<close>

type_synonym signature = "nat \<times> string \<times> string option"

fun states_loop :: "(nat \<Rightarrow> bool) \<Rightarrow> nat \<Rightarrow> device_state list \<Rightarrow> (string, signature) dict \<Rightarrow> string list \<Rightarrow> device_state list
    \<Rightarrow> (string, signature) dict \<times> string list \<times> device_state list" where
  "states_loop available version [] sent current out = (sent, current, out)"
| "states_loop available version (d # ds) sent current out =
     (let key = dv_device_id d; current = key # current; signature = (version, dv_status d, dv_last_error d)
      in if version \<noteq> 0 \<and> dget sent key \<noteq> Some signature
         then (if available (length out) then states_loop available version ds (dset key signature sent) current (out @ [d]) else (sent, current, out))
         else states_loop available version ds sent current out)"

definition changed_states :: "(nat \<Rightarrow> bool) \<Rightarrow> nat \<Rightarrow> device_state list \<Rightarrow> (string, signature) dict \<Rightarrow> (string, signature) dict \<times> device_state list" where
  "changed_states available version devices sent =
     (let (sent, current, out) = states_loop available version devices sent [] []
      in (filter (\<lambda>p. fst p \<in> set current) sent, out))"

end
