(* ===== verification/HealthInv.thy ===== *)
theory HealthInv
  imports Health AgentInv
begin

text \<open>The heartbeat an agent builds meets the contract of heartbeats.\<close>

lemma rmap_Inr: "rmap f xs = Inr ys \<Longrightarrow> length ys = length xs \<and> (\<forall>i < length xs. f (xs ! i) = Inr (ys ! i))"
  by (induction xs arbitrary: ys) (auto simp: rbind_Inr_iff nth_Cons split: nat.split)

lemma device_health_id: "device_health env a c d = Inr (s, g, t) \<Longrightarrow> dv_device_id s = dc_device_id d"
  by (auto simp: device_health_def runner_diagnostics_def idle_state_def rbind_Inr_iff Let_def split: if_split_asm option.split_asm)

lemma device_health_ids:
  assumes "rmap (device_health env a c) ds = Inr xs"
  shows "map (dv_device_id \<circ> fst) xs = map dc_device_id ds"
proof (rule nth_equalityI)
  fix i assume "i < length (map (dv_device_id \<circ> fst) xs)"
  with rmap_Inr [OF assms] show "map (dv_device_id \<circ> fst) xs ! i = map dc_device_id ds ! i"
    using device_health_id by (cases "xs ! i") auto
qed (use rmap_Inr [OF assms] in simp)

lemma rmap_ids: "rmap (jget ''deviceId'') (map (device_json \<circ> fst) xs) = Inr (map (JStr \<circ> (dv_device_id \<circ> fst)) xs)"
  by (induction xs) (simp_all add: device_json_def dindex_def)

lemma heartbeat_json_issues:
  assumes ids: "distinct (map (dv_device_id \<circ> fst) xs)" and w: "ag_state a = A_WAITING_CONFIG \<longleftrightarrow> version = 0" "version = 0 \<Longrightarrow> xs = []"
  shows "heartbeat_issues (heartbeat_json env a session queue t version xs) = Inr []"
proof -
  have d: "distinct (map (JStr \<circ> (dv_device_id \<circ> fst)) xs)" using ids by (simp add: distinct_map inj_on_def)
  have s: "agent_state_name (ag_state a) = ''WAITING_CONFIG'' \<longleftrightarrow> ag_state a = A_WAITING_CONFIG" by (cases "ag_state a") simp_all
  show ?thesis
    unfolding heartbeat_issues_def heartbeat_json_def Let_def
    using d w by (cases "version = 0") (simp_all add: dindex_def jget_num_def jint_of_def jget_list_def rmap_ids s jeq_def)
qed

lemma heartbeat_cases:
  assumes "heartbeat env a session queue p = (Inr (Some m), p')"
  shows "\<exists>t version xs. m = heartbeat_json env a session queue t version xs \<and> ag_durable a = Some version \<and> ag_state a \<in> serving_states
    \<and> (case rt_snapshot (ag_runtime a) of None \<Rightarrow> xs = [] | Some c \<Rightarrow> rmap (device_health env a c) (cs_devices c) = Inr xs)"
proof -
  obtain x q where t: "health_time env p = (x, q)" by (cases "health_time env p")
  show ?thesis using assms t
    by (cases x; cases "rt_snapshot (ag_runtime a)")
       (auto simp: heartbeat_def sbind_def Let_def split: option.split_asm if_split_asm sum.split_asm)
qed

section \<open>Properties\<close>


definition demo_health_env :: health_env where
  "demo_health_env = \<lparr>he_time = \<lparr>te_mono = (\<lambda>_. 0), te_system = (\<lambda>_. 0), te_jitter = (\<lambda>_ a _. a), te_uuid = (\<lambda>_. [])\<rparr>, he_clock = 0, he_now = 7, he_boot_id = ''boot-1'',
     he_started = 2, he_runner = (\<lambda>_. None)\<rparr>"


end
