(* ===== verification/Settings.thy ===== *)
theory Settings
  imports PlatformTime Contracts Runtime
begin

text \<open>
  What the agent is started with: the bootstrap of \<^verbatim>\<open>core/settings.py\<close>, the broker settings of
  \<^verbatim>\<open>messaging/settings.py\<close>, and the factory of \<^verbatim>\<open>devices/factory.py\<close>. Parameters: the bytes of the file (None when
  reading raises), the JSON decoder, the joining of paths and the environment variables.
\<close>

section \<open>Decoding\<close>

text \<open>The hook \<open>_unique\<close>: no object repeats a member. Numbers that are not finite get through it.\<close>

fun unique_keys :: "json \<Rightarrow> bool" where
  "unique_keys (JArr xs) \<longleftrightarrow> list_all unique_keys xs"
| "unique_keys (JObj ps) \<longleftrightarrow> distinct (map fst ps) \<and> list_all (\<lambda>p. unique_keys (snd p)) ps"
| "unique_keys _ \<longleftrightarrow> True"

definition bootstrap_fields :: "(string \<Rightarrow> json option) \<Rightarrow> string option \<Rightarrow> (string, json) dict option" where
  "bootstrap_fields loads file =
     (case file of None \<Rightarrow> None
      | Some payload \<Rightarrow>
          (if length payload > 16384 then None
           else case loads payload of Some (JObj ps) \<Rightarrow> (if unique_keys (JObj ps) then Some ps else None) | _ \<Rightarrow> None))"

fun opt_str :: "json \<Rightarrow> string option" where
  "opt_str (JStr s) = Some s"
| "opt_str _ = None"

fun opt_num :: "json \<Rightarrow> pynum option" where
  "opt_num (JNum n) = Some n"
| "opt_num _ = None"

fun opt_int :: "json \<Rightarrow> int option" where
  "opt_int (JNum (PyInt n)) = Some n"
| "opt_int _ = None"

fun opt_bool :: "json \<Rightarrow> bool option" where
  "opt_bool (JBool b) = Some b"
| "opt_bool _ = None"

text \<open>A value of the right type that passes its check, or a \<open>ValueError\<close>.\<close>

definition need :: "'a option \<Rightarrow> ('a \<Rightarrow> bool) \<Rightarrow> string \<Rightarrow> 'a res" where
  "need x ok message = (case x of Some y \<Rightarrow> if ok y then Inr y else Inl (ValueError message) | None \<Rightarrow> Inl (ValueError message))"

lemma need_iff [res_simps]: "need x ok message = Inr y \<longleftrightarrow> x = Some y \<and> ok y"
  by (auto simp: need_def split: option.split)

section \<open>The agent\<close>

record AgentSettings =
  se_gateway_id :: string
  se_data_directory :: string
  se_operation_timeout :: rat
  se_queue_capacity :: int

definition agent_settings :: "json \<Rightarrow> string \<Rightarrow> json \<Rightarrow> json \<Rightarrow> AgentSettings res" where
  "agent_settings gateway directory timeout capacity =
     rbind (need (opt_str gateway) id_fullmatch ''Invalid gateway identity.'') (\<lambda>g.
     rbind (need (opt_num timeout) (\<lambda>t. num_finite t \<and> 0 < num_value t \<and> num_value t \<le> 300)
              ''Operation timeout must be finite and within (0,300] seconds.'') (\<lambda>t.
     rbind (need (opt_int capacity) (\<lambda>n. 1 \<le> n \<and> n \<le> 16) ''Queue capacity must be an integer within [1,16].'') (\<lambda>n.
       Inr \<lparr>se_gateway_id = g, se_data_directory = directory, se_operation_timeout = num_value t, se_queue_capacity = n\<rparr>)))"

definition agent_settings_from_file :: "(string \<Rightarrow> json option) \<Rightarrow> (string \<Rightarrow> string) \<Rightarrow> string option \<Rightarrow> AgentSettings res" where
  "agent_settings_from_file loads join file =
     (let members = [''gatewayId'', ''dataDirectory'', ''operationTimeoutSeconds'', ''queueCapacity'']
      in case rbind (need (bootstrap_fields loads file) (\<lambda>ps. set (dkeys ps) = set members) ''Bootstrap must contain exactly the four documented fields.'') (\<lambda>ps.
              rbind (need (opt_str (dget_or ps ''dataDirectory'' JNull)) (\<lambda>d. \<not> strip_blank d) ''Data directory is required.'') (\<lambda>d.
                agent_settings (dget_or ps ''gatewayId'' JNull) (join d) (dget_or ps ''operationTimeoutSeconds'' JNull) (dget_or ps ''queueCapacity'' JNull))) of
           Inl _ \<Rightarrow> Inl (ValueError ''Bootstrap could not be read or failed validation.'')
         | Inr s \<Rightarrow> Inr s)"

lemma caught_Inr: "(case r of Inl _ \<Rightarrow> Inl e | Inr x \<Rightarrow> Inr x) = Inr y \<longleftrightarrow> r = Inr y"
  by (cases r) auto

lemma agent_settings_valid:
  assumes "agent_settings_from_file loads join file = Inr s"
  shows "id_fullmatch (se_gateway_id s) \<and> 0 < se_operation_timeout s \<and> se_operation_timeout s \<le> 300 \<and> 1 \<le> se_queue_capacity s \<and> se_queue_capacity s \<le> 16"
proof -
  from assms obtain g d t c where "agent_settings g d t c = Inr s"
    unfolding agent_settings_from_file_def Let_def caught_Inr rbind_Inr_iff by blast
  then show ?thesis by (auto simp: agent_settings_def rbind_Inr_iff need_iff)
qed

section \<open>The broker\<close>

text \<open>The three drift members are checked in the mode \<open>HUB_MQTT\<close> only; in the other mode, where nothing reads them, a
  member of another type counts as absent.\<close>

record MqttSettings =
  ms_host :: string
  ms_port :: int
  ms_tls :: bool
  ms_ca_file :: "string option"
  ms_username :: "string option"
  ms_password :: "string option"
  ms_keepalive :: int
  ms_time_mode :: string
  ms_time_basis_ref :: "string option"
  ms_drift_ppm :: "pynum option"
  ms_drift_evidence :: "string option"

definition host_ok :: "string \<Rightarrow> bool" where
  "host_ok h \<longleftrightarrow> \<not> strip_blank h \<and> length h \<le> 253 \<and> \<not> list_ex (\<lambda>c. strip_blank [c]) h"

definition mqtt_settings :: "json \<Rightarrow> json \<Rightarrow> json \<Rightarrow> string option \<Rightarrow> string option \<Rightarrow> string option \<Rightarrow> json \<Rightarrow> json \<Rightarrow> json \<Rightarrow> json \<Rightarrow> json \<Rightarrow> MqttSettings res" where
  "mqtt_settings host port tls ca username password keepalive mode basis drift evidence =
     rbind (need (opt_str host) host_ok ''Invalid broker host'') (\<lambda>h.
     rbind (need (opt_int port) (\<lambda>p. 1 \<le> p \<and> p \<le> 65535) ''Invalid broker port/TLS setting'') (\<lambda>p.
     rbind (need (opt_bool tls) (\<lambda>_. True) ''Invalid broker port/TLS setting'') (\<lambda>t.
     rbind (need (opt_int keepalive) (\<lambda>k. 10 \<le> k \<and> k \<le> 300) ''Invalid keepalive'') (\<lambda>k.
     rbind (require_res ((username \<noteq> None \<and> username \<noteq> Some []) = (password \<noteq> None)) (ValueError ''Both username and password reference are required'')) (\<lambda>_.
     rbind (require_res (ca \<noteq> None \<longrightarrow> t) (ValueError ''CA requires TLS'')) (\<lambda>_.
     rbind (need (opt_str mode) (\<lambda>m. m \<in> {''SYSTEM_RTC'', ''HUB_MQTT''}) ''Invalid time mode'') (\<lambda>m.
     rbind (require_res (m = ''HUB_MQTT'' \<longrightarrow> drift_ok (opt_str basis) (opt_num drift) (opt_str evidence))
              (ValueError ''Platform time requires a basis and evidenced drift bound'')) (\<lambda>_.
       Inr \<lparr>ms_host = h, ms_port = p, ms_tls = t, ms_ca_file = ca, ms_username = username, ms_password = password, ms_keepalive = k,
            ms_time_mode = m, ms_time_basis_ref = opt_str basis, ms_drift_ppm = opt_num drift, ms_drift_evidence = opt_str evidence\<rparr>))))))))"

definition env_name :: "string \<Rightarrow> bool" where
  "env_name s = (case s of [] \<Rightarrow> False | c # cs \<Rightarrow>
     (let letter = (\<lambda>c. c = CHR ''_'' \<or> id_alnum c \<and> \<not> (48 \<le> (of_char c :: nat) \<and> (of_char c :: nat) \<le> 57)) in letter c \<and> list_all (\<lambda>c. c = CHR ''_'' \<or> id_alnum c) cs))"

text \<open>A member that may be absent or null: a string of its own form.\<close>

definition optional_text :: "(string \<Rightarrow> bool) \<Rightarrow> json \<Rightarrow> string option res" where
  "optional_text ok v = (case v of JNull \<Rightarrow> Inr None | JStr s \<Rightarrow> (if ok s then Inr (Some s) else Inl (ValueError ''Invalid text'')) | _ \<Rightarrow> Inl (ValueError ''Invalid text''))"

definition password_of :: "(string \<Rightarrow> string option) \<Rightarrow> (string, json) dict \<Rightarrow> string option res" where
  "password_of getenv ps =
     (case dget ps ''passwordEnv'' of
        None \<Rightarrow> Inr None
      | Some (JStr name) \<Rightarrow> (if \<not> env_name name then Inl (ValueError ''Invalid environment reference'')
                            else case getenv name of None \<Rightarrow> Inl KeyError | Some p \<Rightarrow> Inr (Some p))
      | Some _ \<Rightarrow> Inl (ValueError ''Invalid environment reference''))"

definition timing_of :: "(string, json) dict \<Rightarrow> (string, json) dict res" where
  "timing_of ps =
     (case dget_or ps ''time'' (JObj []) of
        JObj ts \<Rightarrow> (if set (dkeys ts) \<subseteq> {''mode'', ''timeBasisRef'', ''maxDriftPpm'', ''driftEvidence''} then Inr ts else Inl (ValueError ''Invalid time settings''))
      | _ \<Rightarrow> Inl (ValueError ''Invalid time settings''))"

definition mqtt_settings_from_file :: "(string \<Rightarrow> json option) \<Rightarrow> (string \<Rightarrow> string) \<Rightarrow> (string \<Rightarrow> string option) \<Rightarrow> string option \<Rightarrow> MqttSettings res" where
  "mqtt_settings_from_file loads join getenv file =
     (let members = [''host'', ''port'', ''tls'', ''caFile'', ''username'', ''passwordEnv'', ''keepalive'', ''time'']
      in case rbind (need (bootstrap_fields loads file) (\<lambda>ps. set (dkeys ps) \<subseteq> set members \<and> ''host'' \<in> set (dkeys ps)) ''Invalid fields'') (\<lambda>ps.
              rbind (password_of getenv ps) (\<lambda>password.
              rbind (optional_text (\<lambda>s. \<not> strip_blank s) (dget_or ps ''caFile'' JNull)) (\<lambda>ca.
              rbind (optional_text (\<lambda>s. s \<noteq> [] \<and> length s \<le> 256) (dget_or ps ''username'' JNull)) (\<lambda>username.
              rbind (timing_of ps) (\<lambda>ts.
                mqtt_settings (dget_or ps ''host'' JNull) (dget_or ps ''port'' (JNum (PyInt 8883))) (dget_or ps ''tls'' (JBool True))
                  (map_option join ca) username password (dget_or ps ''keepalive'' (JNum (PyInt 30)))
                  (dget_or ts ''mode'' (JStr ''SYSTEM_RTC'')) (dget_or ts ''timeBasisRef'' JNull) (dget_or ts ''maxDriftPpm'' JNull)
                  (dget_or ts ''driftEvidence'' JNull)))))) of
           Inl _ \<Rightarrow> Inl (ValueError ''MQTT settings could not be read or failed validation'')
         | Inr s \<Rightarrow> Inr s)"

lemma mqtt_settings_valid:
  assumes "mqtt_settings_from_file loads join getenv file = Inr s"
  shows "host_ok (ms_host s) \<and> 1 \<le> ms_port s \<and> ms_port s \<le> 65535 \<and> 10 \<le> ms_keepalive s \<and> ms_keepalive s \<le> 300
    \<and> (ms_ca_file s \<noteq> None \<longrightarrow> ms_tls s)
    \<and> (ms_time_mode s = ''HUB_MQTT'' \<longrightarrow> drift_ok (ms_time_basis_ref s) (ms_drift_ppm s) (ms_drift_evidence s))"
proof -
  from assms obtain host port tls ca username password keepalive mode basis drift evidence where
    "mqtt_settings host port tls ca username password keepalive mode basis drift evidence = Inr s"
    unfolding mqtt_settings_from_file_def Let_def caught_Inr rbind_Inr_iff by (elim exE conjE)
  then obtain h p t k m where f: "host_ok h" "1 \<le> p \<and> p \<le> 65535" "10 \<le> k \<and> k \<le> 300" "ca \<noteq> None \<longrightarrow> t"
      "m = ''HUB_MQTT'' \<longrightarrow> drift_ok (opt_str basis) (opt_num drift) (opt_str evidence)"
    and s: "s = \<lparr>ms_host = h, ms_port = p, ms_tls = t, ms_ca_file = ca, ms_username = username, ms_password = password, ms_keepalive = k,
      ms_time_mode = m, ms_time_basis_ref = opt_str basis, ms_drift_ppm = opt_num drift, ms_drift_evidence = opt_str evidence\<rparr>"
    unfolding mqtt_settings_def rbind_Inr_iff need_iff require_res_iff sum.inject by (elim exE conjE) (rule that; (rule sym)?, (assumption | rule conjI)+)
  show ?thesis unfolding s MqttSettings.simps using f by (intro conjI) blast+
qed

section \<open>The factory\<close>

text \<open>\<open>bind\<close>: the runner of a device by its protocol among those installed; \<open>make_runner\<close> stands for the constructors,
  which only allocate.\<close>

definition create_runner :: "(string \<Rightarrow> string option) \<Rightarrow> string list \<Rightarrow> (nat \<Rightarrow> DeviceConfig \<Rightarrow> nat) \<Rightarrow> nat \<Rightarrow> DeviceConfig \<Rightarrow> nat res" where
  "create_runner getenv protocols make_runner n d =
     (if dc_protocol d = ''modbus_tcp'' \<and> ''modbus_tcp'' \<in> set protocols then Inr (make_runner n d)
      else if dc_protocol d = ''opcua'' \<and> ''opcua'' \<in> set protocols
      then (let credential = (case cc_password_env (dc_connection d) of None \<Rightarrow> [] | Some e \<Rightarrow> e)
            in if (case cc_username (dc_connection d) of Some (_ # _) \<Rightarrow> True | _ \<Rightarrow> False)
                  \<and> (case getenv credential of Some (_ # _) \<Rightarrow> False | _ \<Rightarrow> True)
               then Inl (RuntimeError ''OPCUA_CREDENTIAL_ENV_MISSING'') else Inr (make_runner n d))
      else Inl (UnsupportedDriver (dc_protocol d)))"

definition drivers :: "string \<Rightarrow> string list option" where
  "drivers name =
     (if name = ''modbus-tcp'' then Some [''modbus_tcp''] else if name = ''opcua'' then Some [''opcua'']
      else if name = ''all'' then Some [''modbus_tcp'', ''opcua''] else None)"

end
