(* ===== verification/Worker.thy ===== *)
theory Worker
  imports Prelude
begin

text \<open>
  The storage worker of \<^verbatim>\<open>core/storage_worker.py\<close>: one thread that owns a store, behind a bounded queue of jobs. A
  step of the thread runs one job whole; a step of the event loop admits a job, settles a finished one or closes. A caller
  that is cancelled only stops waiting (the future is shielded), so cancellation changes nothing here. Parameters: the
  retained size of a job's arguments and what the store's own methods do.
\<close>

section \<open>State\<close>

text \<open>The functions submitted: \<open>_open\<close> with what the factory gives, \<open>_call\<close> with a method of the store,
  \<open>ConfigSnapshot.parse\<close>, and \<open>_close\<close> with the exception the store's \<open>close\<close> raises, if any.\<close>

datatype (discs_sels) ('r, 's) task = Open_Store "'s res" | Call_Store "('r, 's) prog" | Parse "'r res" | is_Close_Store: Close_Store "exn option"

record ('r, 's) worker =
  wk_max_jobs :: int
  wk_max_bytes :: int
  wk_store :: "'s option"
  wk_closed :: bool
  wk_jobs :: int
  wk_used_bytes :: int
  wk_next :: nat
  wk_queue :: "(nat \<times> int option \<times> ('r, 's) task) list"
  wk_finished :: "(nat \<times> int \<times> 'r option res) list"

definition worker_new :: "int \<Rightarrow> int \<Rightarrow> ('r, 's) worker" where
  "worker_new max_jobs max_bytes =
     \<lparr>wk_max_jobs = max_jobs, wk_max_bytes = max_bytes, wk_store = None, wk_closed = False, wk_jobs = 0, wk_used_bytes = 0,
      wk_next = 0, wk_queue = [], wk_finished = []\<rparr>"

fun answer :: "'r res \<Rightarrow> 'r option res" where
  "answer (Inl e) = Inl e"
| "answer (Inr x) = Inr (Some x)"

fun run_task :: "('r, 's) task \<Rightarrow> 's option \<Rightarrow> 'r option res \<times> 's option" where
  "run_task (Open_Store (Inl e)) st = (Inl e, st)"
| "run_task (Open_Store (Inr s)) st = (Inr None, Some s)"
| "run_task (Call_Store m) None = (Inl AttributeError, None)"
| "run_task (Call_Store m) (Some s) = (case m s of (r, s) \<Rightarrow> (answer r, Some s))"
| "run_task (Parse r) st = (answer r, st)"
| "run_task (Close_Store (Some e)) (Some s) = (Inl e, Some s)"
| "run_task (Close_Store _) st = (Inr None, None)"

section \<open>Operations\<close>

text \<open>\<open>_run\<close> up to its first await: the number of the job, or why it is refused.\<close>

definition submit_task :: "nat \<Rightarrow> ('r, 's) task \<Rightarrow> (nat, ('r, 's) worker) prog" where
  "submit_task retained t w =
     (if wk_closed w then (Inl (RuntimeError ''Storage worker closed''), w)
      else let charge = int retained + 512 in
           if wk_jobs w \<ge> wk_max_jobs w \<or> wk_used_bytes w + charge > wk_max_bytes w then (Inl WorkerFull, w)
           else (Inr (wk_next w), w\<lparr>wk_jobs := wk_jobs w + 1, wk_used_bytes := wk_used_bytes w + charge, wk_next := wk_next w + 1,
                  wk_queue := wk_queue w @ [(wk_next w, Some charge, t)]\<rparr>))"

text \<open>The thread runs the oldest job. The closing job has no callback.\<close>

definition thread_step :: "('r, 's) worker \<Rightarrow> ('r, 's) worker" where
  "thread_step w =
     (case wk_queue w of [] \<Rightarrow> w
      | (n, charge, t) # rest \<Rightarrow>
         (let (r, st) = run_task t (wk_store w)
          in w\<lparr>wk_queue := rest, wk_store := st,
               wk_finished := wk_finished w @ (case charge of None \<Rightarrow> [] | Some c \<Rightarrow> [(n, c, r)])\<rparr>))"

text \<open>\<open>settled\<close>, the callback of a finished job.\<close>

definition settle :: "('r, 's) worker \<Rightarrow> ('r, 's) worker" where
  "settle w =
     (case wk_finished w of [] \<Rightarrow> w
      | (n, c, r) # rest \<Rightarrow> w\<lparr>wk_finished := rest, wk_jobs := wk_jobs w - 1, wk_used_bytes := wk_used_bytes w - c\<rparr>)"

definition close_worker :: "exn option \<Rightarrow> ('r, 's) worker \<Rightarrow> ('r, 's) worker" where
  "close_worker e w =
     (if wk_closed w then w
      else w\<lparr>wk_closed := True, wk_next := wk_next w + 1, wk_queue := wk_queue w @ [(wk_next w, None, Close_Store e)]\<rparr>)"

section \<open>The system\<close>

text \<open>A worker paired with the jobs it has admitted so far, in order.\<close>

definition admit :: "('r, 's) task \<Rightarrow> ('r, 's) worker \<Rightarrow> ('r, 's) worker \<Rightarrow> ('r, 's) task list \<Rightarrow> ('r, 's) task list" where
  "admit t w w' ts = (if wk_next w' = wk_next w then ts else ts @ [t])"

inductive worker_step :: "('r, 's) task list \<times> ('r, 's) worker \<Rightarrow> ('r, 's) task list \<times> ('r, 's) worker \<Rightarrow> bool" where
  wk_submit: "\<not> is_Close_Store t \<Longrightarrow> submit_task retained t w = (r, w') \<Longrightarrow> worker_step (ts, w) (admit t w w' ts, w')"
| wk_thread: "worker_step (ts, w) (ts, thread_step w)"
| wk_settle: "worker_step (ts, w) (ts, settle w)"
| wk_close: "worker_step (ts, w) (admit (Close_Store e) w (close_worker e w) ts, close_worker e w)"

definition worker_init :: "('r, 's) task list \<times> ('r, 's) worker \<Rightarrow> bool" where
  "worker_init p \<longleftrightarrow> (\<exists>mj mb. 0 < mj \<and> 0 < mb \<and> p = ([], worker_new mj mb))"

text \<open>The store after jobs run one after the other.\<close>

definition run_tasks :: "('r, 's) task list \<Rightarrow> 's option" where
  "run_tasks ts = foldl (\<lambda>st t. snd (run_task t st)) None ts"

lemma run_tasks_snoc [simp]: "run_tasks [] = None" "run_tasks (ts @ [t]) = snd (run_task t (run_tasks ts))"
  by (simp_all add: run_tasks_def)

definition done_count :: "('r, 's) worker \<Rightarrow> nat" where
  "done_count w = wk_next w - length (wk_queue w)"

text \<open>The queue is the tail of the admitted jobs, the store is what the others left, each unsettled answer is that of its
  job at its place, and the gauges count exactly the jobs not settled.\<close>

definition order_kept :: "('r, 's) task list \<Rightarrow> ('r, 's) worker \<Rightarrow> bool" where
  "order_kept ts w \<longleftrightarrow> length ts = wk_next w \<and> length (wk_queue w) \<le> wk_next w
     \<and> map (snd \<circ> snd) (wk_queue w) = drop (done_count w) ts \<and> map fst (wk_queue w) = [done_count w..<wk_next w]
     \<and> wk_store w = run_tasks (take (done_count w) ts)
     \<and> (\<forall>(n, c, r) \<in> set (wk_finished w). n < done_count w \<and> r = fst (run_task (ts ! n) (run_tasks (take n ts))))"

definition closed_last :: "('r, 's) task list \<Rightarrow> ('r, 's) worker \<Rightarrow> bool" where
  "closed_last ts w \<longleftrightarrow> (if wk_closed w then \<exists>us e. ts = us @ [Close_Store e] \<and> (\<forall>t \<in> set us. \<not> is_Close_Store t)
     else \<forall>t \<in> set ts. \<not> is_Close_Store t)"

definition charges :: "('r, 's) worker \<Rightarrow> int list" where
  "charges w = map the (filter (\<lambda>c. c \<noteq> None) (map (fst \<circ> snd) (wk_queue w))) @ map (fst \<circ> snd) (wk_finished w)"

definition gauges_exact :: "('r, 's) worker \<Rightarrow> bool" where
  "gauges_exact w \<longleftrightarrow> wk_jobs w = int (length (charges w)) \<and> wk_used_bytes w = sum_list (charges w)
     \<and> (\<forall>c \<in> set (charges w). 512 \<le> c) \<and> wk_jobs w \<le> wk_max_jobs w \<and> wk_used_bytes w \<le> wk_max_bytes w"

definition worker_ok :: "('r, 's) task list \<times> ('r, 's) worker \<Rightarrow> bool" where
  "worker_ok p \<longleftrightarrow> order_kept (fst p) (snd p) \<and> closed_last (fst p) (snd p) \<and> gauges_exact (snd p)"

lemma worker_init_ok: "worker_init p \<Longrightarrow> worker_ok p"
  by (auto simp: worker_init_def worker_ok_def worker_new_def order_kept_def closed_last_def gauges_exact_def charges_def done_count_def)

text \<open>A job joins the tail.\<close>

lemma order_push:
  assumes "order_kept ts w" "wk_queue w' = wk_queue w @ [(wk_next w, c, t)]" "wk_next w' = wk_next w + 1"
    "wk_store w' = wk_store w" "wk_finished w' = wk_finished w"
  shows "order_kept (ts @ [t]) w'"
proof -
  have d: "done_count w' = done_count w" "done_count w \<le> length ts" using assms by (auto simp: done_count_def order_kept_def)
  have "r = fst (run_task ((ts @ [t]) ! n) (run_tasks (take n (ts @ [t]))))" if "(n, c, r) \<in> set (wk_finished w)" for n c r
    using assms(1) that d(2) by (auto simp: order_kept_def nth_append)
  moreover have "n < done_count w" if "(n, c, r) \<in> set (wk_finished w)" for n c r using assms(1) that by (auto simp: order_kept_def)
  ultimately show ?thesis using assms d by (auto simp: order_kept_def)
qed

lemma submit_cases:
  assumes "submit_task retained t w = (r, w')"
  shows "w' = w \<or> \<not> wk_closed w \<and> wk_jobs w < wk_max_jobs w \<and> wk_used_bytes w + (int retained + 512) \<le> wk_max_bytes w
    \<and> w' = w\<lparr>wk_jobs := wk_jobs w + 1, wk_used_bytes := wk_used_bytes w + (int retained + 512), wk_next := wk_next w + 1,
        wk_queue := wk_queue w @ [(wk_next w, Some (int retained + 512), t)]\<rparr>"
  using assms by (auto simp: submit_task_def Let_def split: if_splits)

lemma submit_task_ok:
  assumes "submit_task retained t w = (r, w')" "\<not> is_Close_Store t" "worker_ok (ts, w)"
  shows "worker_ok (admit t w w' ts, w')"
  using submit_cases [OF assms(1)]
proof (elim disjE conjE)
  assume "w' = w" with assms(3) show ?thesis by (simp add: admit_def)
next
  assume a: "\<not> wk_closed w" "wk_jobs w < wk_max_jobs w" "wk_used_bytes w + (int retained + 512) \<le> wk_max_bytes w"
    "w' = w\<lparr>wk_jobs := wk_jobs w + 1, wk_used_bytes := wk_used_bytes w + (int retained + 512), wk_next := wk_next w + 1,
        wk_queue := wk_queue w @ [(wk_next w, Some (int retained + 512), t)]\<rparr>"
  have "order_kept (ts @ [t]) w'" using assms(3) unfolding a(4) by (intro order_push [of ts w]) (simp_all add: worker_ok_def)
  moreover have "closed_last (ts @ [t]) w'" using assms(2,3) a(1) unfolding a(4) by (auto simp: worker_ok_def closed_last_def)
  moreover have "gauges_exact w'" using assms(3) a(2,3) unfolding a(4) by (auto simp: worker_ok_def gauges_exact_def charges_def)
  ultimately show ?thesis by (simp add: worker_ok_def admit_def a(4))
qed

lemma close_worker_ok: "worker_ok (ts, w) \<Longrightarrow> worker_ok (admit (Close_Store e) w (close_worker e w) ts, close_worker e w)"
proof (cases "wk_closed w")
  case False
  assume ok: "worker_ok (ts, w)"
  have "order_kept (ts @ [Close_Store e]) (close_worker e w)"
    using ok False by (intro order_push [of ts w]) (simp_all add: worker_ok_def close_worker_def)
  then show ?thesis using ok False by (auto simp: worker_ok_def closed_last_def gauges_exact_def charges_def admit_def close_worker_def)
qed (simp add: admit_def close_worker_def)

lemma settle_ok:
  assumes "worker_ok (ts, w)"
  shows "worker_ok (ts, settle w)"
proof (cases "wk_finished w")
  case Nil with assms show ?thesis by (simp add: settle_def)
next
  case (Cons f rest)
  obtain n c r where f: "f = (n, c, r)" by (cases f)
  have step: "settle w = w\<lparr>wk_finished := rest, wk_jobs := wk_jobs w - 1, wk_used_bytes := wk_used_bytes w - c\<rparr>"
    by (simp add: settle_def Cons f)
  have ok: "order_kept ts w" "closed_last ts w" "gauges_exact w" using assms by (simp_all add: worker_ok_def)
  have "order_kept ts (settle w)" using ok(1) Cons unfolding order_kept_def step by (simp add: done_count_def)
  moreover have "closed_last ts (settle w)" using ok(2) by (simp add: step closed_last_def)
  moreover have "gauges_exact (settle w)" using ok(3) Cons f by (simp add: step gauges_exact_def charges_def)
  ultimately show ?thesis by (simp add: worker_ok_def)
qed

lemma thread_ok:
  assumes "worker_ok (ts, w)"
  shows "worker_ok (ts, thread_step w)"
proof (cases "wk_queue w")
  case Nil with assms show ?thesis by (simp add: thread_step_def)
next
  case (Cons j rest)
  obtain n c t where j: "j = (n, c, t)" by (cases j)
  obtain r st where r: "run_task t (wk_store w) = (r, st)" by (cases "run_task t (wk_store w)")
  have ok: "order_kept ts w" "closed_last ts w" "gauges_exact w" using assms by (simp_all add: worker_ok_def)
  have q: "map (snd \<circ> snd) (wk_queue w) = drop (done_count w) ts" "map fst (wk_queue w) = [done_count w..<wk_next w]"
    "length ts = wk_next w" "length (wk_queue w) \<le> wk_next w" "wk_store w = run_tasks (take (done_count w) ts)"
    using ok(1) by (simp_all add: order_kept_def)
  define d where "d = done_count w"
  have lt: "d < length ts" using q(3,4) Cons by (auto simp: d_def done_count_def)
  have head: "n = d" "t = ts ! d" "map (snd \<circ> snd) rest = drop (Suc d) ts" "map fst rest = [Suc d..<wk_next w]"
    using q(1,2) lt q(3) unfolding Cons j d_def [symmetric] by (simp_all add: Cons_nth_drop_Suc [symmetric] upt_rec [of d])
  have step: "thread_step w = w\<lparr>wk_queue := rest, wk_store := st,
      wk_finished := wk_finished w @ (case c of None \<Rightarrow> [] | Some c \<Rightarrow> [(n, c, r)])\<rparr>"
    using Cons r by (simp add: thread_step_def j)
  have dc: "done_count (thread_step w) = Suc d" using q(4) Cons by (simp add: step done_count_def d_def)
  have tk: "take (Suc d) ts = take d ts @ [t]" using lt head by (simp add: take_Suc_conv_app_nth)
  have st: "st = run_tasks (take (Suc d) ts)" "r = fst (run_task (ts ! n) (run_tasks (take n ts)))"
    using r unfolding tk q(5) d_def [symmetric] by (simp_all add: head(1,2))
  have fin: "\<forall>(m, c, r) \<in> set (wk_finished w). m < d \<and> r = fst (run_task (ts ! m) (run_tasks (take m ts)))"
    using ok(1) by (simp add: order_kept_def d_def)
  have "order_kept ts (thread_step w)"
    unfolding order_kept_def dc using q(3,4) Cons head(3,4) st fin head(1) by (auto simp: step split: option.splits)
  moreover have "closed_last ts (thread_step w)" using ok(2) by (simp add: step closed_last_def)
  moreover have "gauges_exact (thread_step w)"
    using ok(3) Cons j by (cases c) (auto simp: step gauges_exact_def charges_def)
  ultimately show ?thesis by (simp add: worker_ok_def)
qed

lemma worker_step_ok: "worker_step p q \<Longrightarrow> worker_ok p \<Longrightarrow> worker_ok q"
  by (induction rule: worker_step.induct) (auto intro: submit_task_ok thread_ok settle_ok close_worker_ok)

interpretation worker_system: invariant_system worker_init worker_step worker_ok
  by unfold_locales (auto intro: worker_init_ok worker_step_ok)

section \<open>Properties\<close>

text \<open>A worker over a store that counts.\<close>

definition demo_jobs :: "(nat, nat) task list" where
  "demo_jobs = [Open_Store (Inr 5), Call_Store (\<lambda>n. (Inr n, n + 1)), Close_Store None]"

definition demo_worker :: "(nat, nat) worker" where
  "demo_worker = settle (thread_step (thread_step (thread_step (close_worker None
     (snd (submit_task 10 (demo_jobs ! 1) (snd (submit_task 0 (demo_jobs ! 0) (worker_new 8 4096)))))))))"

lemma demo_worker_reachable: "worker_step\<^sup>*\<^sup>* ([], worker_new 8 4096) (demo_jobs, demo_worker)"
proof -
  define w1 where "w1 = snd (submit_task 0 (demo_jobs ! 0) (worker_new 8 4096))"
  define w2 where "w2 = snd (submit_task 10 (demo_jobs ! 1) w1)"
  have j: "\<not> is_Close_Store (demo_jobs ! 0)" "\<not> is_Close_Store (demo_jobs ! 1)" by (simp_all add: demo_jobs_def)
  have a: "admit (demo_jobs ! 0) (worker_new 8 4096) w1 [] = [demo_jobs ! 0]" "admit (demo_jobs ! 1) w1 w2 [demo_jobs ! 0] = [demo_jobs ! 0, demo_jobs ! 1]"
    "admit (Close_Store None) w2 (close_worker None w2) [demo_jobs ! 0, demo_jobs ! 1] = demo_jobs"
    by (simp_all add: admit_def w2_def w1_def submit_task_def worker_new_def close_worker_def demo_jobs_def)
  have s1: "worker_step ([], worker_new 8 4096) ([demo_jobs ! 0], w1)"
    using wk_submit [OF j(1), of 0 "worker_new 8 4096" "fst (submit_task 0 (demo_jobs ! 0) (worker_new 8 4096))" w1 "[]"]
    unfolding a(1) by (simp add: w1_def)
  have s2: "worker_step ([demo_jobs ! 0], w1) ([demo_jobs ! 0, demo_jobs ! 1], w2)"
    using wk_submit [OF j(2), of 10 w1 "fst (submit_task 10 (demo_jobs ! 1) w1)" w2 "[demo_jobs ! 0]"]
    unfolding a(2) by (simp add: w2_def)
  have s3: "worker_step ([demo_jobs ! 0, demo_jobs ! 1], w2) (demo_jobs, close_worker None w2)" using wk_close [of "[demo_jobs ! 0, demo_jobs ! 1]" w2 None] unfolding a(3) .
  have "worker_step\<^sup>*\<^sup>* ([], worker_new 8 4096) (demo_jobs, settle (thread_step (thread_step (thread_step (close_worker None w2)))))"
    by (rule rtranclp.rtrancl_into_rtrancl, rule rtranclp.rtrancl_into_rtrancl, rule rtranclp.rtrancl_into_rtrancl,
        rule rtranclp.rtrancl_into_rtrancl, rule rtranclp.rtrancl_into_rtrancl, rule rtranclp.rtrancl_into_rtrancl,
        rule rtranclp.rtrancl_into_rtrancl, rule rtranclp.rtrancl_refl, rule s1, rule s2, rule s3, rule wk_thread, rule wk_thread, rule wk_thread, rule wk_settle)
  then show ?thesis by (simp add: demo_worker_def w2_def w1_def)
qed

text \<open>C19. The worker serialises its store: in every reachable state the store is exactly what the jobs run so far left when run one
  after the other in the order they were admitted, the jobs still queued are the later ones in that order, every answer not yet
  delivered is the one its job gives at its place, and the closing job is admitted once and is the last, so nothing
  touches the store after it.\<close>

theorem worker_serialises:
  assumes "worker_init p0" "worker_step\<^sup>*\<^sup>* p0 (ts, w)"
  shows "\<exists>run. ts = run @ map (snd \<circ> snd) (wk_queue w) \<and> wk_store w = run_tasks run
    \<and> (\<forall>(n, c, r) \<in> set (wk_finished w). n < length run \<and> r = fst (run_task (ts ! n) (run_tasks (take n ts))))
    \<and> (\<forall>n < length ts. is_Close_Store (ts ! n) \<longrightarrow> wk_closed w \<and> n = length ts - 1)"
proof -
  from worker_system.reachable_inv [OF assms] have ok: "order_kept ts w" "closed_last ts w" by (simp_all add: worker_ok_def)
  have "is_Close_Store (ts ! n) \<longrightarrow> wk_closed w \<and> n = length ts - 1" if "n < length ts" for n
    using ok(2) that by (fastforce simp: closed_last_def nth_append less_Suc_eq dest: nth_mem split: if_splits)
  moreover have "length (take (done_count w) ts) = done_count w" using ok(1) by (auto simp: order_kept_def done_count_def)
  ultimately show ?thesis using ok(1) by (intro exI [of _ "take (done_count w) ts"]) (auto simp: order_kept_def)
qed

theorem worker_serialises_witness: "wk_store demo_worker = None \<and> wk_finished demo_worker = [(1, 522, Inr (Some 5))]"
proof -
  have i: "worker_init ([], worker_new 8 4096 :: (nat, nat) worker)" unfolding worker_init_def by (intro exI [of _ 8] exI [of _ 4096]) simp
  have e: "wk_queue demo_worker = []" "wk_finished demo_worker = [(1, 522, Inr (Some 5))]"
    by (simp_all add: demo_worker_def demo_jobs_def submit_task_def worker_new_def close_worker_def thread_step_def settle_def)
  with worker_serialises [OF i demo_worker_reachable] have "wk_store demo_worker = run_tasks demo_jobs" by auto
  then show ?thesis by (simp add: e demo_jobs_def run_tasks_def)
qed

text \<open>The queue is bounded and nothing leaks: in every reachable state the job and byte gauges count exactly the jobs that
  are queued or finished and not settled, within the limits, and both are zero when there is none.\<close>

theorem worker_bounded:
  assumes "worker_init p0" "worker_step\<^sup>*\<^sup>* p0 (ts, w)"
  shows "wk_jobs w = int (length (charges w)) \<and> wk_used_bytes w = sum_list (charges w)
    \<and> wk_jobs w \<le> wk_max_jobs w \<and> wk_used_bytes w \<le> wk_max_bytes w \<and> 512 * wk_jobs w \<le> wk_used_bytes w"
proof -
  from worker_system.reachable_inv [OF assms] have g: "gauges_exact w" by (simp add: worker_ok_def)
  have "512 * int (length xs) \<le> sum_list xs" if "\<forall>c \<in> set xs. 512 \<le> c" for xs :: "int list"
    using that by (induction xs) auto
  with g show ?thesis by (auto simp: gauges_exact_def)
qed

theorem worker_bounded_witness: "wk_jobs demo_worker = 1 \<and> wk_jobs demo_worker \<le> 8"
proof -
  have i: "worker_init ([], worker_new 8 4096 :: (nat, nat) worker)" unfolding worker_init_def by (intro exI [of _ 8] exI [of _ 4096]) simp
  have "charges demo_worker = [522]" "wk_max_jobs demo_worker = 8"
    by (simp_all add: charges_def demo_worker_def demo_jobs_def submit_task_def worker_new_def close_worker_def thread_step_def settle_def)
  with worker_bounded [OF i demo_worker_reachable] show ?thesis by simp
qed

end
