(* ===== verification/Commissioning.thy ===== *)
theory Commissioning
  imports Settings
begin

text \<open>
  The commissioning record of \<^verbatim>\<open>provisioning/store.py\<close> and the requests of \<^verbatim>\<open>provisioning/server.py\<close> that change it.
  Parameters: the JSON codec, whether OpenSSL accepts a CA, whether a file write succeeds (a write that fails leaves
  the old file, the replacement is atomic), and the outcome of a connection test. Strings are ASCII.
\<close>

section \<open>Files and environment\<close>

type_synonym setup_record = "(string, json) dict"

record setup_env =
  pv_loads :: "string \<Rightarrow> json option"
  pv_dumps :: "json \<Rightarrow> string"
  pv_ca_ok :: "string \<Rightarrow> bool"
  pv_directory :: string
  pv_ca_path :: string
  pv_write :: bool
  pv_write_ca :: bool
  pv_connect :: "exn option"

record setup_files =
  cf_record :: "string option"
  cf_ca :: "string option"
  cf_legacy :: bool

definition setup_fields :: "string list" where
  "setup_fields = [''gatewayId'', ''host'', ''port'', ''tls'', ''username'', ''password'', ''caPem'']"

section \<open>Validation\<close>

text \<open>The decoded object of a request or file: None for the errors that become \<open>INVALID_SETTINGS\<close>.\<close>

definition decode_setup :: "setup_env \<Rightarrow> string \<Rightarrow> setup_record option" where
  "decode_setup env payload =
     (if length payload > 32768 then None
      else case pv_loads env payload of Some (JObj ps) \<Rightarrow> (if unique_keys (JObj ps) then Some ps else None) | _ \<Rightarrow> None)"

definition text_member :: "setup_record \<Rightarrow> string \<Rightarrow> string" where
  "text_member ps k = (case dget ps k of Some (JStr s) \<Rightarrow> s | _ \<Rightarrow> [])"

definition texts_ok :: "setup_record \<Rightarrow> bool" where
  "texts_ok ps \<longleftrightarrow> list_all (\<lambda>(k, limit). case dget ps k of Some (JStr s) \<Rightarrow> length s \<le> limit | _ \<Rightarrow> False)
     [(''username'', 256), (''password'', 4096), (''caPem'', 16384 :: nat)]"

definition nonblank :: "string \<Rightarrow> string option" where
  "nonblank s = (if s = [] then None else Some s)"

text \<open>The two settings objects of a record, as \<open>settings\<close>, \<open>test_settings\<close> and, to validate, \<open>parse\<close> build them.\<close>

definition runtime_settings :: "string \<Rightarrow> string option \<Rightarrow> setup_record \<Rightarrow> (AgentSettings \<times> MqttSettings) res" where
  "runtime_settings directory ca ps =
     rbind (agent_settings (dget_or ps ''gatewayId'' JNull) directory (JNum (PyFloat 5)) (JNum (PyInt 8))) (\<lambda>a.
     rbind (timing_of ps) (\<lambda>ts.
     rbind (mqtt_settings (dget_or ps ''host'' JNull) (dget_or ps ''port'' JNull) (dget_or ps ''tls'' JNull) ca
              (nonblank (text_member ps ''username'')) (nonblank (text_member ps ''password'')) (JNum (PyInt 30))
              (dget_or ts ''mode'' (JStr ''SYSTEM_RTC'')) (dget_or ts ''timeBasisRef'' JNull) (dget_or ts ''maxDriftPpm'' JNull)
              (dget_or ts ''driftEvidence'' JNull)) (\<lambda>m.
       Inr (a, m))))"

definition ca_usable :: "setup_env \<Rightarrow> setup_record \<Rightarrow> bool" where
  "ca_usable env ps \<longleftrightarrow> text_member ps ''caPem'' = [] \<or> dget ps ''tls'' = Some (JBool True) \<and> pv_ca_ok env (text_member ps ''caPem'')"

definition succeeds :: "'a res \<Rightarrow> bool" where
  "succeeds r = (case r of Inl _ \<Rightarrow> False | Inr _ \<Rightarrow> True)"

definition record_valid :: "setup_env \<Rightarrow> setup_record \<Rightarrow> bool" where
  "record_valid env ps \<longleftrightarrow> set setup_fields \<subseteq> set (dkeys ps) \<and> set (dkeys ps) \<subseteq> insert ''time'' (set setup_fields)
     \<and> texts_ok ps \<and> succeeds (runtime_settings ''.'' None ps) \<and> ca_usable env ps"

definition parse_setup :: "setup_env \<Rightarrow> string \<Rightarrow> setup_record res" where
  "parse_setup env payload =
     (case decode_setup env payload of None \<Rightarrow> Inl (SettingsError ''INVALID_SETTINGS'')
      | Some ps \<Rightarrow> (if record_valid env ps then Inr ps else Inl (SettingsError ''INVALID_SETTINGS'')))"

section \<open>Updates\<close>

definition choose_password :: "setup_record \<Rightarrow> setup_record \<Rightarrow> string res" where
  "choose_password ps existing =
     (if text_member ps ''username'' = [] then
        (if text_member ps ''password'' \<noteq> [] then Inl (SettingsError ''PASSWORD_WITHOUT_USERNAME'') else Inr [])
      else if text_member ps ''password'' \<noteq> [] then Inr (text_member ps ''password'')
      else if text_member existing ''password'' \<noteq> [] then Inr (text_member existing ''password'')
      else Inl (SettingsError ''PASSWORD_REQUIRED''))"

definition choose_ca :: "setup_record \<Rightarrow> setup_record \<Rightarrow> string res" where
  "choose_ca ps existing =
     (if dget ps ''tls'' \<noteq> Some (JBool True) then
        (if text_member ps ''caPem'' \<noteq> [] then Inl (SettingsError ''CA_REQUIRES_TLS'') else Inr [])
      else if dget ps ''removeCa'' = Some (JBool True) then Inr []
      else Inr (if text_member ps ''caPem'' \<noteq> [] then text_member ps ''caPem'' else text_member existing ''caPem''))"

definition merge_setup :: "setup_record \<Rightarrow> setup_record \<Rightarrow> string \<Rightarrow> string \<Rightarrow> setup_record" where
  "merge_setup ps existing password ca =
     [(''gatewayId'', dget_or existing ''gatewayId'' JNull), (''host'', dget_or ps ''host'' JNull), (''port'', dget_or ps ''port'' JNull),
      (''tls'', dget_or ps ''tls'' JNull), (''username'', JStr (text_member ps ''username'')), (''password'', JStr password), (''caPem'', JStr ca)]
     @ (case dget existing ''time'' of None \<Rightarrow> [] | Some t \<Rightarrow> [(''time'', t)])"

text \<open>\<open>parse_update\<close> for a saved record. The settings it builds to validate are those of the merged record.\<close>

definition parse_update :: "setup_env \<Rightarrow> string \<Rightarrow> setup_record \<Rightarrow> setup_record res" where
  "parse_update env payload existing =
     (case decode_setup env payload of None \<Rightarrow> Inl (SettingsError ''INVALID_SETTINGS'')
      | Some ps \<Rightarrow>
          (if \<not> (set setup_fields \<subseteq> set (dkeys ps) \<and> set (dkeys ps) \<subseteq> insert ''removeCa'' (set setup_fields) \<and> texts_ok ps
                \<and> dget ps ''tls'' \<in> {Some (JBool True), Some (JBool False)} \<and> dget ps ''removeCa'' \<in> {None, Some (JBool True), Some (JBool False)})
           then Inl (SettingsError ''INVALID_SETTINGS'')
           else if dget ps ''gatewayId'' \<noteq> dget existing ''gatewayId'' then Inl (SettingsError ''IDENTITY_IMMUTABLE'')
           else rbind (choose_password ps existing) (\<lambda>password.
                rbind (choose_ca ps existing) (\<lambda>ca.
                  (let merged = merge_setup ps existing password ca
                   in if succeeds (runtime_settings ''.'' None merged) \<and> (ca \<noteq> [] \<longrightarrow> pv_ca_ok env ca) then Inr merged else Inl (SettingsError ''INVALID_SETTINGS''))))))"

section \<open>The store\<close>

definition load_setup :: "setup_env \<Rightarrow> setup_files \<Rightarrow> setup_record option res" where
  "load_setup env f =
     (case cf_record f of
        None \<Rightarrow> (if cf_legacy f then Inl (ValueError ''EXISTING_DATA_REQUIRES_MIGRATION'') else Inr None)
      | Some payload \<Rightarrow> rbind (parse_setup env (take 32769 payload)) (\<lambda>ps. Inr (Some ps)))"

definition write_setup :: "setup_env \<Rightarrow> setup_record \<Rightarrow> (setup_record, setup_files) prog" where
  "write_setup env ps f =
     (if pv_write env then (Inr ps, f\<lparr>cf_record := Some (pv_dumps env (JObj ps))\<rparr>) else (Inl OSError, f))"

definition save_setup :: "setup_env \<Rightarrow> string \<Rightarrow> (setup_record, setup_files) prog" where
  "save_setup env payload f =
     (case parse_setup env payload of Inl e \<Rightarrow> (Inl e, f)
      | Inr ps \<Rightarrow> (if cf_record f \<noteq> None then (Inl (FileExistsError ''ALREADY_CONFIGURED''), f) else write_setup env ps f))"

definition update_setup :: "setup_env \<Rightarrow> string \<Rightarrow> (setup_record, setup_files) prog" where
  "update_setup env payload f =
     (case load_setup env f of Inl e \<Rightarrow> (Inl e, f)
      | Inr None \<Rightarrow> (Inl (SettingsError ''NOT_CONFIGURED''), f)
      | Inr (Some existing) \<Rightarrow>
          (case parse_update env payload existing of Inl e \<Rightarrow> (Inl e, f) | Inr ps \<Rightarrow> write_setup env ps f))"

text \<open>\<open>write_ca\<close>: the CA file equals the record's, without a write when it already does.\<close>

definition write_ca :: "setup_env \<Rightarrow> setup_record \<Rightarrow> (string option, setup_files) prog" where
  "write_ca env ps f =
     (let pem = text_member ps ''caPem''
      in if pem = [] then
           (if cf_ca f = None then (Inr None, f) else if pv_write_ca env then (Inr None, f\<lparr>cf_ca := None\<rparr>) else (Inl OSError, f))
         else if cf_ca f = Some pem then (Inr (Some (pv_ca_path env)), f)
         else if pv_write_ca env then (Inr (Some (pv_ca_path env)), f\<lparr>cf_ca := Some pem\<rparr>) else (Inl OSError, f))"

definition store_settings :: "setup_env \<Rightarrow> setup_record \<Rightarrow> (AgentSettings \<times> MqttSettings) res" where
  "store_settings env ps =
     runtime_settings (pv_directory env) (if text_member ps ''caPem'' = [] then None else Some (pv_ca_path env)) ps"

section \<open>Requests\<close>

record setup_server =
  sx_files :: setup_files
  sx_value :: "setup_record option"
  sx_token :: string
  sx_change_seq :: nat
  sx_applied_seq :: nat

record request =
  rq_method :: string
  rq_path :: string
  rq_headers :: "(string, string) dict"
  rq_body :: string
  rq_busy :: bool

type_synonym response = "nat \<times> (string, json) dict"

definition code_response :: "nat \<Rightarrow> string \<Rightarrow> response" where
  "code_response n code = (n, [(''code'', JStr code)])"

text \<open>The \<^verbatim>\<open>except\<close> clauses of \<open>route\<close>; None when the exception closes the connection without an answer.\<close>

definition refused :: "string \<Rightarrow> exn \<Rightarrow> response option" where
  "refused path e =
     (case e of
        SettingsError code \<Rightarrow> Some (code_response (if code \<in> {''IDENTITY_IMMUTABLE'', ''NOT_CONFIGURED''} then 409 else 400) code)
      | FileExistsError _ \<Rightarrow> Some (code_response 409 ''ALREADY_CONFIGURED'')
      | OSError \<Rightarrow> Some (code_response 503 (if path = ''/api/test'' then ''CONNECTION_FAILED'' else ''SAVE_FAILED''))
      | TimeoutError \<Rightarrow> Some (code_response 503 (if path = ''/api/test'' then ''CONNECTION_FAILED'' else ''SAVE_FAILED''))
      | ConnectionError _ \<Rightarrow> Some (code_response 503 (if path = ''/api/test'' then ''CONNECTION_FAILED'' else ''SAVE_FAILED''))
      | PublishRejected _ \<Rightarrow> Some (code_response 503 (if path = ''/api/test'' then ''CONNECTION_FAILED'' else ''SAVE_FAILED''))
      | _ \<Rightarrow> None)"

text \<open>\<^verbatim>\<open>value != existing\<close>: the order of the members does not count.\<close>

definition same_setup :: "setup_record \<Rightarrow> setup_record \<Rightarrow> bool" where
  "same_setup v w \<longleftrightarrow> set (dkeys v) = set (dkeys w) \<and> list_all (\<lambda>k. dget v k = dget w k) (dkeys v)"

definition candidate :: "setup_env \<Rightarrow> string \<Rightarrow> setup_record option \<Rightarrow> setup_record res" where
  "candidate env body existing = (case existing of None \<Rightarrow> parse_setup env body | Some v \<Rightarrow> parse_update env body v)"

definition test_request :: "setup_env \<Rightarrow> string \<Rightarrow> setup_server \<Rightarrow> response option" where
  "test_request env body sx =
     (case candidate env body (sx_value sx) of Inl e \<Rightarrow> refused ''/api/test'' e
      | Inr v \<Rightarrow>
          (if text_member v ''caPem'' \<noteq> [] \<and> \<not> pv_write_ca env then refused ''/api/test'' OSError
           else case store_settings env v of Inl e \<Rightarrow> refused ''/api/test'' e
            | Inr _ \<Rightarrow> (case pv_connect env of Some e \<Rightarrow> refused ''/api/test'' e | None \<Rightarrow> Some (code_response 200 ''CONNECTED''))))"

definition setup_request :: "setup_env \<Rightarrow> string \<Rightarrow> setup_server \<Rightarrow> response option \<times> setup_server" where
  "setup_request env body sx =
     (let save = (case sx_value sx of None \<Rightarrow> save_setup env body | Some _ \<Rightarrow> update_setup env body)
      in case sbind save (\<lambda>v. sbind (write_ca env v) (\<lambda>_. sret v)) (sx_files sx) of
           (Inl e, f) \<Rightarrow> (refused ''/api/setup'' e, sx\<lparr>sx_files := f\<rparr>)
         | (Inr v, f) \<Rightarrow>
             (case sx_value sx of
                None \<Rightarrow> (Some (code_response 201 ''SAVED''), sx\<lparr>sx_files := f, sx_value := Some v\<rparr>)
              | Some existing \<Rightarrow>
                  (let n = (if same_setup v existing then sx_change_seq sx else sx_change_seq sx + 1)
                   in (Some (200, [(''code'', JStr ''UPDATED''), (''changeSeq'', JNum (PyInt (int n)))]),
                       sx\<lparr>sx_files := f, sx_value := Some v, sx_change_seq := n\<rparr>))))"

definition starts_with :: "string \<Rightarrow> string \<Rightarrow> bool" where
  "starts_with pre s \<longleftrightarrow> take (length pre) s = pre"

definition header :: "request \<Rightarrow> string \<Rightarrow> string" where
  "header rq k = dget_or (rq_headers rq) k []"

text \<open>The part of \<open>route\<close> for POST requests, with its guards in order.\<close>

definition post :: "setup_env \<Rightarrow> request \<Rightarrow> setup_server \<Rightarrow> response option \<times> setup_server" where
  "post env rq sx =
     (if rq_method rq \<noteq> ''POST'' \<or> rq_path rq \<notin> {''/api/test'', ''/api/setup''} then (Some (code_response 404 ''NOT_FOUND''), sx)
      else if header rq ''x-setup-token'' \<noteq> sx_token sx then (Some (code_response 403 ''FORBIDDEN''), sx)
      else if \<not> starts_with ''application/json'' (header rq ''content-type'') then (Some (code_response 415 ''JSON_REQUIRED''), sx)
      else if header rq ''origin'' \<notin> {[], ''http://'' @ header rq ''host'', ''https://'' @ header rq ''host''}
      then (Some (code_response 403 ''FORBIDDEN''), sx)
      else if rq_busy rq then (Some (code_response 409 ''BUSY''), sx)
      else if rq_path rq = ''/api/test'' then (test_request env (rq_body rq) sx, sx)
      else setup_request env (rq_body rq) sx)"

definition public_view :: "setup_server \<Rightarrow> (string, json) dict" where
  "public_view sx =
     (let counters = [(''changeSeq'', JNum (PyInt (int (sx_change_seq sx)))), (''appliedSeq'', JNum (PyInt (int (sx_applied_seq sx))))]
      in case sx_value sx of None \<Rightarrow> (''configured'', JBool False) # counters
         | Some v \<Rightarrow>
             [(''configured'', JBool True), (''gatewayId'', dget_or v ''gatewayId'' JNull), (''host'', dget_or v ''host'' JNull),
              (''port'', dget_or v ''port'' JNull), (''tls'', dget_or v ''tls'' JNull), (''username'', dget_or v ''username'' JNull),
              (''passwordSet'', JBool (text_member v ''password'' \<noteq> [])), (''caSet'', JBool (text_member v ''caPem'' \<noteq> []))] @ counters)"

section \<open>Every record written is valid\<close>

lemma parse_setupD: "parse_setup env payload = Inr ps \<Longrightarrow> decode_setup env payload = Some ps \<and> record_valid env ps"
  by (auto simp: parse_setup_def split: option.splits if_splits)

lemma decode_unique: "decode_setup env payload = Some ps \<Longrightarrow> unique_keys (JObj ps)"
  by (auto simp: decode_setup_def simp del: unique_keys.simps split: if_splits option.splits json.splits)

lemma unique_member: "unique_keys (JObj ps) \<Longrightarrow> dget ps k = Some v \<Longrightarrow> unique_keys v"
  by (auto simp: list_all_iff dest!: map_of_SomeD)

lemma text_case: "(case dget ps k of Some (JStr s) \<Rightarrow> length s \<le> n | _ \<Rightarrow> False) \<longleftrightarrow> (\<exists>s. dget ps k = Some (JStr s) \<and> length s \<le> n)"
  by (auto split: option.split json.split)

lemma texts_member: "texts_ok ps \<longleftrightarrow> (\<exists>u. dget ps ''username'' = Some (JStr u) \<and> length u \<le> 256)
    \<and> (\<exists>p. dget ps ''password'' = Some (JStr p) \<and> length p \<le> 4096) \<and> (\<exists>c. dget ps ''caPem'' = Some (JStr c) \<and> length c \<le> 16384)"
  unfolding texts_ok_def list.pred_inject split_conv text_case by simp

lemma merge_get:
  "dget (merge_setup ps ex p c) ''gatewayId'' = Some (dget_or ex ''gatewayId'' JNull)"
  "dget (merge_setup ps ex p c) ''host'' = Some (dget_or ps ''host'' JNull)"
  "dget (merge_setup ps ex p c) ''port'' = Some (dget_or ps ''port'' JNull)"
  "dget (merge_setup ps ex p c) ''tls'' = Some (dget_or ps ''tls'' JNull)"
  "dget (merge_setup ps ex p c) ''username'' = Some (JStr (text_member ps ''username''))"
  "dget (merge_setup ps ex p c) ''password'' = Some (JStr p)"
  "dget (merge_setup ps ex p c) ''caPem'' = Some (JStr c)"
  "dget (merge_setup ps ex p c) ''time'' = dget ex ''time''"
  by (simp_all add: merge_setup_def split: option.split)

lemma merge_dkeys: "dkeys (merge_setup ps ex p c) = setup_fields @ (if dget ex ''time'' = None then [] else [''time''])"
  by (cases "dget ex ''time''") (simp_all add: merge_setup_def setup_fields_def)

lemma merge_keys: "set (dkeys (merge_setup ps ex p c)) = set setup_fields \<union> (if dget ex ''time'' = None then {} else {''time''})"
  unfolding merge_dkeys by simp

lemma merge_distinct: "distinct (dkeys (merge_setup ps ex p c))"
  unfolding merge_dkeys by (simp add: setup_fields_def)

lemma text_member_some: "dget ps k = Some (JStr s) \<Longrightarrow> text_member ps k = s"
  by (simp add: text_member_def)

lemma merge_text:
  "text_member (merge_setup ps ex p c) ''username'' = text_member ps ''username''"
  "text_member (merge_setup ps ex p c) ''password'' = p"
  "text_member (merge_setup ps ex p c) ''caPem'' = c"
  by (simp_all add: text_member_def merge_get)

lemma choose_passwordD:
  "choose_password ps ex = Inr p \<Longrightarrow> (p \<noteq> []) = (text_member ps ''username'' \<noteq> []) \<and> p \<in> {[], text_member ps ''password'', text_member ex ''password''}"
  by (auto simp: choose_password_def split: if_splits)

lemma choose_caD:
  "choose_ca ps ex = Inr c \<Longrightarrow> (c \<noteq> [] \<longrightarrow> dget ps ''tls'' = Some (JBool True)) \<and> c \<in> {[], text_member ps ''caPem'', text_member ex ''caPem''}"
  by (auto simp: choose_ca_def split: if_splits)

lemma text_lengths:
  "texts_ok ps \<Longrightarrow> length (text_member ps ''username'') \<le> 256 \<and> length (text_member ps ''password'') \<le> 4096 \<and> length (text_member ps ''caPem'') \<le> 16384"
  unfolding texts_member by (auto simp: text_member_some)

lemma parse_updateD:
  assumes "parse_update env payload ex = Inr v"
  obtains ps p c where "decode_setup env payload = Some ps" "set setup_fields \<subseteq> set (dkeys ps)" "texts_ok ps"
    "dget ps ''tls'' \<in> {Some (JBool True), Some (JBool False)}" "dget ps ''gatewayId'' = dget ex ''gatewayId''"
    "choose_password ps ex = Inr p" "choose_ca ps ex = Inr c" "v = merge_setup ps ex p c" "succeeds (runtime_settings ''.'' None v)"
    "c \<noteq> [] \<longrightarrow> pv_ca_ok env c"
proof -
  from assms obtain ps where d: "decode_setup env payload = Some ps" by (auto simp: parse_update_def split: option.splits)
  from assms d have ok: "set setup_fields \<subseteq> set (dkeys ps) \<and> set (dkeys ps) \<subseteq> insert ''removeCa'' (set setup_fields) \<and> texts_ok ps
      \<and> dget ps ''tls'' \<in> {Some (JBool True), Some (JBool False)} \<and> dget ps ''removeCa'' \<in> {None, Some (JBool True), Some (JBool False)}"
    and id: "dget ps ''gatewayId'' = dget ex ''gatewayId''"
    and rest: "rbind (choose_password ps ex) (\<lambda>password. rbind (choose_ca ps ex) (\<lambda>ca.
                  (let merged = merge_setup ps ex password ca
                   in if succeeds (runtime_settings ''.'' None merged) \<and> (ca \<noteq> [] \<longrightarrow> pv_ca_ok env ca) then Inr merged
                      else Inl (SettingsError ''INVALID_SETTINGS'')))) = Inr v"
    unfolding parse_update_def d option.case by (simp_all only: split: if_splits) blast+
  from rest obtain p c where "choose_password ps ex = Inr p" "choose_ca ps ex = Inr c" "v = merge_setup ps ex p c"
    "succeeds (runtime_settings ''.'' None v)" "c \<noteq> [] \<longrightarrow> pv_ca_ok env c"
    unfolding rbind_Inr_iff Let_def by (auto simp only: split: if_splits)
  with d ok id show thesis by (intro that) blast+
qed

lemma update_valid:
  assumes u: "parse_update env payload ex = Inr v" and ex: "record_valid env ex" "unique_keys (JObj ex)"
  shows "record_valid env v" "unique_keys (JObj v)" "dget v ''gatewayId'' = dget ex ''gatewayId''" "dget v ''time'' = dget ex ''time''"
    "(text_member v ''password'' \<noteq> []) = (text_member v ''username'' \<noteq> [])"
proof -
  from u obtain ps p c where ps: "decode_setup env payload = Some ps" "set setup_fields \<subseteq> set (dkeys ps)" "texts_ok ps"
    "dget ps ''tls'' \<in> {Some (JBool True), Some (JBool False)}" "dget ps ''gatewayId'' = dget ex ''gatewayId''"
    "choose_password ps ex = Inr p" "choose_ca ps ex = Inr c" "succeeds (runtime_settings ''.'' None v)" "c \<noteq> [] \<longrightarrow> pv_ca_ok env c"
    and v: "v = merge_setup ps ex p c" by (rule parse_updateD)
  note pw = choose_passwordD [OF ps(6)] and ca = choose_caD [OF ps(7)]
  have ext: "texts_ok ex" using ex(1) by (simp add: record_valid_def)
  have len: "length (text_member ps ''username'') \<le> 256" "length p \<le> 4096" "length c \<le> 16384"
    using text_lengths [OF ps(3)] text_lengths [OF ext] pw ca by auto
  have g: "\<exists>x. dget ex ''gatewayId'' = Some x" using ex(1) by (auto simp: record_valid_def setup_fields_def dest!: weak_map_of_SomeI)
  show "dget v ''gatewayId'' = dget ex ''gatewayId''" using g by (auto simp: v merge_get dget_or_def)
  show "dget v ''time'' = dget ex ''time''" by (simp add: v merge_get)
  show "(text_member v ''password'' \<noteq> []) = (text_member v ''username'' \<noteq> [])" using pw by (simp add: v merge_text)
  have "texts_ok v" unfolding texts_member using len by (simp add: v merge_get)
  moreover have "ca_usable env v"
    using ca ps(9) by (auto simp: ca_usable_def v merge_text merge_get dget_or_def)
  moreover have "set setup_fields \<subseteq> set (dkeys v)" "set (dkeys v) \<subseteq> insert ''time'' (set setup_fields)" unfolding v merge_keys by auto
  ultimately show "record_valid env v" using ps(8) by (simp add: record_valid_def)
  have uq: "unique_keys (dget_or d k JNull)" if "unique_keys (JObj d)" for d k
    using unique_member [OF that] by (auto simp: dget_or_def split: option.split)
  have ut: "dget ex ''time'' = Some t \<Longrightarrow> unique_keys t" for t using unique_member [OF ex(2)] by blast
  show "unique_keys (JObj v)"
    using merge_distinct [of ps ex p c] uq [OF ex(2)] uq [OF decode_unique [OF ps(1)]] ut
    by (auto simp: v merge_setup_def split: option.split)
qed

lemma settings_elsewhere:
  assumes "succeeds (runtime_settings d None ps)" "ca \<noteq> None \<longrightarrow> dget ps ''tls'' = Some (JBool True)"
  shows "\<exists>s. runtime_settings d' ca ps = Inr s"
proof -
  from assms(1) obtain s where "runtime_settings d None ps = Inr s" by (auto simp: succeeds_def split: sum.splits)
  then obtain a ts m where s: "agent_settings (dget_or ps ''gatewayId'' JNull) d (JNum (PyFloat 5)) (JNum (PyInt 8)) = Inr a" "timing_of ps = Inr ts"
    "mqtt_settings (dget_or ps ''host'' JNull) (dget_or ps ''port'' JNull) (dget_or ps ''tls'' JNull) None
       (nonblank (text_member ps ''username'')) (nonblank (text_member ps ''password'')) (JNum (PyInt 30))
       (dget_or ts ''mode'' (JStr ''SYSTEM_RTC'')) (dget_or ts ''timeBasisRef'' JNull) (dget_or ts ''maxDriftPpm'' JNull)
       (dget_or ts ''driftEvidence'' JNull) = Inr m"
    unfolding runtime_settings_def rbind_Inr_iff by blast
  from s(1) obtain a' where "agent_settings (dget_or ps ''gatewayId'' JNull) d' (JNum (PyFloat 5)) (JNum (PyInt 8)) = Inr a'"
    by (auto simp: agent_settings_def rbind_Inr_iff need_iff)
  moreover have "\<exists>m'. mqtt_settings (dget_or ps ''host'' JNull) (dget_or ps ''port'' JNull) (dget_or ps ''tls'' JNull) ca
       (nonblank (text_member ps ''username'')) (nonblank (text_member ps ''password'')) (JNum (PyInt 30))
       (dget_or ts ''mode'' (JStr ''SYSTEM_RTC'')) (dget_or ts ''timeBasisRef'' JNull) (dget_or ts ''maxDriftPpm'' JNull)
       (dget_or ts ''driftEvidence'' JNull) = Inr m'"
    using s(3) assms(2) unfolding mqtt_settings_def rbind_Inr_iff need_iff require_res_iff
    by (elim exE conjE) (intro exI conjI, assumption+, auto simp: dget_or_def)
  ultimately show ?thesis using s(2) unfolding runtime_settings_def rbind_Inr_iff by blast
qed

lemma valid_loads:
  assumes "record_valid env v" "unique_keys (JObj v)" "pv_loads env (pv_dumps env (JObj v)) = Some (JObj v)"
    "cf_record f = Some (pv_dumps env (JObj v))"
  shows "load_setup env f = (if length (pv_dumps env (JObj v)) \<le> 32768 then Inr (Some v) else Inl (SettingsError ''INVALID_SETTINGS''))"
  using assms by (simp add: load_setup_def parse_setup_def decode_setup_def del: unique_keys.simps)

lemma loadD:
  assumes "load_setup env f = Inr (Some ex)"
  obtains payload where "cf_record f = Some payload" "parse_setup env (take 32769 payload) = Inr ex"
  using assms unfolding load_setup_def by (cases "cf_record f") (simp_all add: rbind_Inr_iff split: if_splits)

lemma load_valid:
  assumes "load_setup env f = Inr (Some ex)"
  shows "record_valid env ex \<and> unique_keys (JObj ex)"
proof -
  from assms obtain payload where "parse_setup env (take 32769 payload) = Inr ex" by (rule loadD)
  from parse_setupD [OF this] show ?thesis using decode_unique by blast
qed

lemma write_setupD: "write_setup env v f = (Inr w, f') \<Longrightarrow> w = v \<and> pv_write env \<and> f' = f\<lparr>cf_record := Some (pv_dumps env (JObj v))\<rparr>"
  by (auto simp: write_setup_def split: if_splits)

lemma update_setupD:
  assumes "update_setup env payload f = (Inr v, f')"
  obtains ex where "load_setup env f = Inr (Some ex)" "parse_update env payload ex = Inr v" "pv_write env"
    "f' = f\<lparr>cf_record := Some (pv_dumps env (JObj v))\<rparr>"
proof (cases "load_setup env f")
  case (Inr r)
  with assms obtain ex where ex: "load_setup env f = Inr (Some ex)" by (cases r) (simp_all add: update_setup_def)
  show thesis
  proof (cases "parse_update env payload ex")
    case (Inr w)
    with assms ex have "write_setup env w f = (Inr v, f')" by (simp add: update_setup_def)
    from write_setupD [OF this] ex Inr show thesis by (intro that) simp_all
  qed (use assms ex in \<open>simp add: update_setup_def\<close>)
qed (use assms in \<open>simp add: update_setup_def\<close>)

lemma update_setup_failed: "update_setup env payload f = (Inl e, f') \<Longrightarrow> f' = f"
proof (cases "load_setup env f")
  case (Inr r)
  assume u: "update_setup env payload f = (Inl e, f')"
  show ?thesis
  proof (cases r)
    case (Some ex)
    with u Inr show ?thesis by (cases "parse_update env payload ex") (simp_all add: update_setup_def write_setup_def split: if_splits)
  qed (use u Inr in \<open>simp add: update_setup_def\<close>)
qed (simp add: update_setup_def)


section \<open>The server as a system\<close>

text \<open>Requests arrive in any order, each with its own luck in writing files and connecting; the supervisor takes over revisions.\<close>

definition luck :: "bool \<Rightarrow> bool \<Rightarrow> exn option \<Rightarrow> setup_env \<Rightarrow> setup_env" where
  "luck w wc c env = env\<lparr>pv_write := w, pv_write_ca := wc, pv_connect := c\<rparr>"

inductive setup_step :: "setup_env \<Rightarrow> setup_server \<Rightarrow> setup_server \<Rightarrow> bool" for env where
  ss_post: "setup_step env sx (snd (post (luck w wc c env) rq sx))"
| ss_applied: "setup_step env sx (sx\<lparr>sx_applied_seq := sx_change_seq sx\<rparr>)"

definition codec_faithful :: "setup_env \<Rightarrow> bool" where
  "codec_faithful env \<longleftrightarrow> (\<forall>ps. unique_keys (JObj ps) \<longrightarrow> pv_loads env (pv_dumps env (JObj ps)) \<in> {None, Some (JObj ps)})"

definition has_identity :: "setup_env \<Rightarrow> string \<Rightarrow> setup_files \<Rightarrow> bool" where
  "has_identity env g f \<longleftrightarrow> cf_record f \<noteq> None
     \<and> (\<forall>ex. load_setup env f = Inr (Some ex) \<longrightarrow> dget ex ''gatewayId'' = Some (JStr g))"

definition setup_ok :: "setup_env \<Rightarrow> string \<Rightarrow> setup_server \<Rightarrow> bool" where
  "setup_ok env g sx \<longleftrightarrow> codec_faithful env \<and> has_identity env g (sx_files sx)
     \<and> (\<forall>v. sx_value sx = Some v \<longrightarrow> dget v ''gatewayId'' = Some (JStr g)) \<and> sx_applied_seq sx \<le> sx_change_seq sx"

text \<open>A server started on the record it found.\<close>

definition setup_init :: "setup_env \<Rightarrow> string \<Rightarrow> setup_server \<Rightarrow> bool" where
  "setup_init env g sx \<longleftrightarrow> codec_faithful env \<and> sx_change_seq sx = 0 \<and> sx_applied_seq sx = 0
     \<and> (\<exists>ex. load_setup env (sx_files sx) = Inr (Some ex) \<and> sx_value sx = Some ex \<and> dget ex ''gatewayId'' = Some (JStr g))"

lemma luck_reads [simp]:
  "load_setup (luck w wc c env) = load_setup env" "parse_update (luck w wc c env) = parse_update env" "parse_setup (luck w wc c env) = parse_setup env"
  "pv_dumps (luck w wc c env) = pv_dumps env"
proof -
  have d: "decode_setup (luck w wc c env) = decode_setup env" by (simp add: fun_eq_iff decode_setup_def luck_def)
  have ca: "pv_ca_ok (luck w wc c env) = pv_ca_ok env" by (simp add: luck_def)
  have r: "record_valid (luck w wc c env) = record_valid env" by (intro ext) (simp only: record_valid_def ca_usable_def ca)
  show p: "parse_setup (luck w wc c env) = parse_setup env" by (intro ext) (simp only: parse_setup_def d r)
  show "load_setup (luck w wc c env) = load_setup env" by (intro ext) (simp only: load_setup_def p)
  show "parse_update (luck w wc c env) = parse_update env" by (intro ext) (simp only: parse_update_def d ca)
  show "pv_dumps (luck w wc c env) = pv_dumps env" by (simp add: luck_def)
qed

lemma write_ca_record: "cf_record (snd (write_ca env v f)) = cf_record f \<and> cf_legacy (snd (write_ca env v f)) = cf_legacy f"
  by (simp add: write_ca_def Let_def)

lemma has_identity_cong: "cf_record f' = cf_record f \<Longrightarrow> has_identity env g f \<Longrightarrow> has_identity env g f'"
  by (cases "cf_record f") (simp_all add: has_identity_def load_setup_def)

lemma update_identity:
  assumes "codec_faithful env" "has_identity env g f" "update_setup (luck w wc c env) payload f = (r, f')"
  shows "has_identity env g f' \<and> (\<forall>v. r = Inr v \<longrightarrow> dget v ''gatewayId'' = Some (JStr g))"
proof (cases r)
  case (Inl e)
  then have "f' = f" using assms(3) update_setup_failed by blast
  with assms(2) Inl show ?thesis by simp
next
  case (Inr v)
  obtain ex where ex: "load_setup env f = Inr (Some ex)" "parse_update env payload ex = Inr v"
    and f': "f' = f\<lparr>cf_record := Some (pv_dumps env (JObj v))\<rparr>"
    using assms(3) [unfolded Inr] by (rule update_setupD) (simp only: luck_reads)
  note v = update_valid [OF ex(2)] load_valid [OF ex(1)]
  have g: "dget v ''gatewayId'' = Some (JStr g)" using v ex(1) assms(2) by (simp add: has_identity_def)
  have "ex' = v" if "load_setup env f' = Inr (Some ex')" for ex'
  proof -
    have p: "parse_setup env (take 32769 (pv_dumps env (JObj v))) = Inr ex'"
      using that by (simp add: load_setup_def f' rbind_Inr_iff)
    from parse_setupD [OF p] have d: "decode_setup env (take 32769 (pv_dumps env (JObj v))) = Some ex'" by blast
    then have "length (pv_dumps env (JObj v)) \<le> 32768" by (auto simp: decode_setup_def split: if_splits)
    with d have "pv_loads env (pv_dumps env (JObj v)) = Some (JObj ex')" by (auto simp: decode_setup_def simp del: unique_keys.simps split: if_splits option.splits json.splits)
    then show ?thesis using assms(1) v unfolding codec_faithful_def by (metis json.inject(5) option.inject option.distinct(1) insertE singletonD)
  qed
  with g show ?thesis by (auto simp: has_identity_def f' Inr)
qed

lemma save_configured: "cf_record f \<noteq> None \<Longrightarrow> \<exists>e. save_setup env body f = (Inl e, f)"
  by (cases "parse_setup env body") (simp_all add: save_setup_def)

lemma setup_request_ok:
  assumes ok: "setup_ok env g sx"
  shows "setup_ok env g (snd (setup_request (luck w wc c env) body sx))"
proof (cases "sx_value sx")
  case None
  obtain e where "save_setup (luck w wc c env) body (sx_files sx) = (Inl e, sx_files sx)"
    using save_configured ok unfolding setup_ok_def has_identity_def by blast
  then have "snd (setup_request (luck w wc c env) body sx) = sx" using None by (simp add: setup_request_def)
  with ok show ?thesis by simp
next
  case (Some existing)
  obtain r f1 where u: "update_setup (luck w wc c env) body (sx_files sx) = (r, f1)" by fastforce
  have id: "has_identity env g f1" "\<And>v. r = Inr v \<Longrightarrow> dget v ''gatewayId'' = Some (JStr g)"
    using update_identity [OF _ _ u] ok unfolding setup_ok_def by blast+
  show ?thesis
  proof (cases r)
    case (Inl e)
    then have "snd (setup_request (luck w wc c env) body sx) = sx\<lparr>sx_files := f1\<rparr>"
      using Some u by (simp add: setup_request_def)
    with ok id show ?thesis by (simp add: setup_ok_def)
  next
    case (Inr v)
    obtain q f2 where q: "write_ca (luck w wc c env) v f1 = (q, f2)" by fastforce
    have id2: "has_identity env g f2" using write_ca_record [of "luck w wc c env" v f1] q id(1) has_identity_cong by simp
    show ?thesis
    proof (cases q)
      case (Inl e)
      then have "snd (setup_request (luck w wc c env) body sx) = sx\<lparr>sx_files := f2\<rparr>"
        using Some u Inr q by (simp add: setup_request_def)
      with ok id2 show ?thesis by (simp add: setup_ok_def)
    next
      case (Inr p)
      define n where "n = (if same_setup v existing then sx_change_seq sx else sx_change_seq sx + 1)"
      have "sx_change_seq sx \<le> n" "snd (setup_request (luck w wc c env) body sx) = sx\<lparr>sx_files := f2, sx_value := Some v, sx_change_seq := n\<rparr>"
        using Some u \<open>r = Inr v\<close> q Inr by (simp_all add: setup_request_def Let_def n_def)
      with ok id2 id(2) [OF \<open>r = Inr v\<close>] show ?thesis by (auto simp: setup_ok_def)
    qed
  qed
qed

lemma post_cases: "snd (post env rq sx) = sx \<or> post env rq sx = setup_request env (rq_body rq) sx"
  by (simp add: post_def)

lemma setup_step_ok: "setup_step env sx sx' \<Longrightarrow> setup_ok env g sx \<Longrightarrow> setup_ok env g sx'"
proof (induction rule: setup_step.induct)
  case (ss_post sx w wc c rq)
  then show ?case using post_cases [of "luck w wc c env" rq sx] setup_request_ok [of env g sx w wc c "rq_body rq"] by metis
qed (simp add: setup_ok_def)

lemma setup_init_ok: "setup_init env g sx \<Longrightarrow> setup_ok env g sx"
  unfolding setup_init_def setup_ok_def has_identity_def by (auto elim: loadD)

interpretation setup_system: monotone_system "setup_init env g" "setup_step env" "setup_ok env g" sx_change_seq for env g
proof
  fix sx sx' assume "setup_step env sx sx'" "setup_ok env g sx"
  then show "sx_change_seq sx \<le> sx_change_seq sx'"
  proof (induction rule: setup_step.induct)
    case (ss_post sx w wc c rq)
    have "sx_change_seq sx \<le> sx_change_seq (snd (setup_request e b sx))" for e b
      by (simp add: setup_request_def Let_def split: prod.split sum.split option.split)
    then show ?case using post_cases [of "luck w wc c env" rq sx] by (metis order_refl)
  qed simp
qed (auto intro: setup_init_ok setup_step_ok)

section \<open>Properties of the server\<close>

text \<open>A record, and a codec that knows two of them.\<close>

definition demo_record :: setup_record where
  "demo_record = [(''gatewayId'', JStr ''g''), (''host'', JStr ''hub''), (''port'', JNum (PyInt 8883)), (''tls'', JBool True),
     (''username'', JStr ''u''), (''password'', JStr ''p''), (''caPem'', JStr [])]"

definition demo_update :: setup_record where
  "demo_update = [(''gatewayId'', JStr ''g''), (''host'', JStr ''hub2''), (''port'', JNum (PyInt 8883)), (''tls'', JBool True),
     (''username'', JStr ''u''), (''password'', JStr []), (''caPem'', JStr [])]"

definition demo_merged :: setup_record where
  "demo_merged = merge_setup demo_update demo_record ''p'' []"

definition demo_setup_env :: setup_env where
  "demo_setup_env = \<lparr>pv_loads = (\<lambda>s. if s = ''r'' then Some (JObj demo_record) else if s = ''m'' then Some (JObj demo_merged)
       else if s = ''q'' then Some (JObj demo_update) else None),
     pv_dumps = (\<lambda>j. if j = JObj demo_record then ''r'' else if j = JObj demo_merged then ''m'' else ''x''),
     pv_ca_ok = (\<lambda>_. True), pv_directory = ''/data'', pv_ca_path = ''/data/broker-ca.pem'', pv_write = True, pv_write_ca = True, pv_connect = None\<rparr>"

definition demo_files :: setup_files where
  "demo_files = \<lparr>cf_record = Some ''r'', cf_ca = None, cf_legacy = False\<rparr>"

definition demo_server :: setup_server where
  "demo_server = \<lparr>sx_files = demo_files, sx_value = Some demo_record, sx_token = ''t'', sx_change_seq = 0, sx_applied_seq = 0\<rparr>"

definition demo_request :: request where
  "demo_request = \<lparr>rq_method = ''POST'', rq_path = ''/api/setup'', rq_headers = [(''x-setup-token'', ''t''), (''content-type'', ''application/json'')],
     rq_body = ''q'', rq_busy = False\<rparr>"

lemma demo_setup_codec: "codec_faithful demo_setup_env"
  by (auto simp: codec_faithful_def demo_setup_env_def)

lemma demo_valid: "record_valid demo_setup_env demo_record" "unique_keys (JObj demo_record)" "unique_keys (JObj demo_update)"
  by (simp_all add: record_valid_def setup_fields_def demo_record_def demo_update_def texts_ok_def succeeds_def runtime_settings_def agent_settings_def need_def
      timing_of_def dget_or_def mqtt_settings_def host_ok_def text_member_def nonblank_def require_res_def ca_usable_def id_alnum_def id_char_def)

lemma demo_decoded: "decode_setup demo_setup_env ''r'' = Some demo_record" "decode_setup demo_setup_env ''q'' = Some demo_update"
  using demo_valid by (simp_all add: decode_setup_def demo_setup_env_def del: unique_keys.simps)

lemma demo_load: "load_setup demo_setup_env demo_files = Inr (Some demo_record)"
  using demo_valid demo_decoded by (simp add: load_setup_def demo_files_def parse_setup_def del: unique_keys.simps)

lemma demo_updated: "update_setup demo_setup_env ''q'' demo_files = (Inr demo_merged, demo_files\<lparr>cf_record := Some ''m''\<rparr>)"
proof -
  have m: "choose_password demo_update demo_record = Inr ''p''" "choose_ca demo_update demo_record = Inr []"
    by (simp_all add: choose_password_def choose_ca_def demo_update_def demo_record_def text_member_def)
  have f: "set setup_fields \<subseteq> set (dkeys demo_update)" "set (dkeys demo_update) \<subseteq> insert ''removeCa'' (set setup_fields)" "texts_ok demo_update"
    "dget demo_update ''tls'' = Some (JBool True)" "dget demo_update ''removeCa'' = None" "dget demo_update ''gatewayId'' = dget demo_record ''gatewayId''"
    by (simp_all add: setup_fields_def demo_update_def demo_record_def texts_ok_def)
  have s: "succeeds (runtime_settings ''.'' None demo_merged)"
    by (simp add: demo_merged_def merge_setup_def demo_update_def demo_record_def succeeds_def runtime_settings_def agent_settings_def need_def
      timing_of_def dget_or_def mqtt_settings_def host_ok_def text_member_def nonblank_def require_res_def id_alnum_def id_char_def)
  have "parse_update demo_setup_env ''q'' demo_record = Inr demo_merged"
    using f s by (simp add: parse_update_def demo_decoded m Let_def demo_merged_def [symmetric])
  moreover have "demo_merged \<noteq> demo_record" by (simp add: demo_merged_def merge_setup_def demo_update_def demo_record_def dget_or_def text_member_def)
  ultimately show ?thesis by (simp add: update_setup_def demo_load write_setup_def) (simp add: demo_setup_env_def)
qed




text \<open>What requests answer.\<close>

definition response_codes :: "string list" where
  "response_codes = [''NOT_FOUND'', ''FORBIDDEN'', ''JSON_REQUIRED'', ''BUSY'', ''CONNECTED'', ''SAVED'', ''ALREADY_CONFIGURED'', ''CONNECTION_FAILED'',
     ''SAVE_FAILED'', ''INVALID_SETTINGS'', ''IDENTITY_IMMUTABLE'', ''NOT_CONFIGURED'', ''PASSWORD_WITHOUT_USERNAME'', ''PASSWORD_REQUIRED'', ''CA_REQUIRES_TLS'']"

lemma listed [simp]:
  "''NOT_FOUND'' \<in> set response_codes" "''FORBIDDEN'' \<in> set response_codes" "''JSON_REQUIRED'' \<in> set response_codes"
  "''BUSY'' \<in> set response_codes" "''CONNECTED'' \<in> set response_codes" "''SAVED'' \<in> set response_codes"
  "''ALREADY_CONFIGURED'' \<in> set response_codes" "''CONNECTION_FAILED'' \<in> set response_codes" "''SAVE_FAILED'' \<in> set response_codes"
  "''INVALID_SETTINGS'' \<in> set response_codes" "''IDENTITY_IMMUTABLE'' \<in> set response_codes" "''NOT_CONFIGURED'' \<in> set response_codes"
  "''PASSWORD_WITHOUT_USERNAME'' \<in> set response_codes" "''PASSWORD_REQUIRED'' \<in> set response_codes" "''CA_REQUIRES_TLS'' \<in> set response_codes"
  by (simp_all add: response_codes_def)

definition known_error :: "exn \<Rightarrow> bool" where
  "known_error e \<longleftrightarrow> (\<forall>c. e = SettingsError c \<longrightarrow> c \<in> set response_codes)"

lemma known_code [simp]: "known_error (SettingsError c) = (c \<in> set response_codes)" and known_other [simp]:
  "known_error (ValueError m)" "known_error OSError" "known_error (FileExistsError m)"
  by (simp_all add: known_error_def)

lemma parse_known: "parse_setup env body = Inl e \<Longrightarrow> known_error e"
  by (cases "decode_setup env body") (auto simp: parse_setup_def split: if_splits)

lemma choice_known: "choose_password ps ex = Inl e \<Longrightarrow> known_error e" "choose_ca ps ex = Inl e \<Longrightarrow> known_error e"
  by (auto simp: choose_password_def choose_ca_def split: if_splits)

lemma parse_update_known:
  assumes "parse_update env body ex = Inl e"
  shows "known_error e"
proof (cases "decode_setup env body")
  case None
  with assms have "e = SettingsError ''INVALID_SETTINGS''" by (simp add: parse_update_def)
  then show ?thesis by simp
next
  case (Some ps)
  have "rbind (choose_password ps ex) (\<lambda>password. rbind (choose_ca ps ex) (\<lambda>ca.
           (let merged = merge_setup ps ex password ca
            in if succeeds (runtime_settings ''.'' None merged) \<and> (ca \<noteq> [] \<longrightarrow> pv_ca_ok env ca) then Inr merged
               else Inl (SettingsError ''INVALID_SETTINGS'')))) = Inl e \<Longrightarrow>
      e = SettingsError ''INVALID_SETTINGS'' \<or> choose_password ps ex = Inl e \<or> choose_ca ps ex = Inl e"
    unfolding rbind_Inl_iff Let_def by (auto split: if_splits)
  moreover have "e = SettingsError ''INVALID_SETTINGS'' \<or> e = SettingsError ''IDENTITY_IMMUTABLE''
      \<or> rbind (choose_password ps ex) (\<lambda>password. rbind (choose_ca ps ex) (\<lambda>ca.
           (let merged = merge_setup ps ex password ca
            in if succeeds (runtime_settings ''.'' None merged) \<and> (ca \<noteq> [] \<longrightarrow> pv_ca_ok env ca) then Inr merged
               else Inl (SettingsError ''INVALID_SETTINGS'')))) = Inl e"
    using assms unfolding parse_update_def Some option.case by (simp only: split: if_splits) blast+
  ultimately have "e = SettingsError ''INVALID_SETTINGS'' \<or> e = SettingsError ''IDENTITY_IMMUTABLE''
      \<or> choose_password ps ex = Inl e \<or> choose_ca ps ex = Inl e" by blast
  then show ?thesis using choice_known by auto
qed

lemma store_known:
  "load_setup env f = Inl e \<Longrightarrow> known_error e" "save_setup env body f = (Inl e, f') \<Longrightarrow> known_error e"
  "update_setup env body f = (Inl e, f') \<Longrightarrow> known_error e" "write_ca env v f = (Inl e, f') \<Longrightarrow> known_error e"
proof -
  show l: "load_setup env f = Inl e \<Longrightarrow> known_error e" for f e
    by (cases "cf_record f") (auto simp: load_setup_def rbind_Inl_iff dest: parse_known split: if_splits)
  show "save_setup env body f = (Inl e, f') \<Longrightarrow> known_error e"
    by (cases "parse_setup env body") (auto simp: save_setup_def write_setup_def dest: parse_known split: if_splits)
  show "write_ca env v f = (Inl e, f') \<Longrightarrow> known_error e" by (auto simp: write_ca_def Let_def split: if_splits)
  assume u: "update_setup env body f = (Inl e, f')"
  show "known_error e"
  proof (cases "load_setup env f")
    case (Inl x) with u l show ?thesis by (auto simp: update_setup_def)
  next
    case (Inr r)
    show ?thesis
    proof (cases r)
      case None with u Inr show ?thesis by (auto simp: update_setup_def)
    next
      case (Some ex)
      with u Inr show ?thesis
        by (cases "parse_update env body ex") (auto simp: update_setup_def write_setup_def dest: parse_update_known split: if_splits)
    qed
  qed
qed

lemma settings_known:
  assumes "store_settings env v = Inl e"
  shows "known_error e"
proof -
  have a: "agent_settings g d t n = Inl x \<Longrightarrow> known_error x" for g d t n x
    unfolding agent_settings_def rbind_Inl_iff need_def by (auto split: option.splits if_splits)
  have t: "timing_of ps = Inl x \<Longrightarrow> known_error x" for ps x by (auto simp: timing_of_def split: json.splits if_splits)
  have n: "need y ok m = Inl x \<Longrightarrow> known_error x" for y :: "'b option" and ok m x by (auto simp: need_def split: option.splits if_splits)
  have m: "mqtt_settings h p tl ca u pw k mo b dr ev = Inl x \<Longrightarrow> known_error x" for h p tl ca u pw k mo b dr ev x
    unfolding mqtt_settings_def rbind_Inl_iff require_res_iff need_def by (auto split: option.splits if_splits)
  from assms show ?thesis unfolding store_settings_def runtime_settings_def rbind_Inl_iff using a t m by blast
qed

definition answer_ok :: "response option \<Rightarrow> bool" where
  "answer_ok r \<longleftrightarrow> (\<forall>n b. r = Some (n, b) \<longrightarrow> (\<exists>c \<in> set response_codes. b = [(''code'', JStr c)])
     \<or> (\<exists>k. b = [(''code'', JStr ''UPDATED''), (''changeSeq'', JNum (PyInt (int k)))]))"

lemma answer_code [simp]: "answer_ok (Some (code_response n c)) = (c \<in> set response_codes)" "answer_ok None"
  by (auto simp: answer_ok_def code_response_def)

lemma answer_updated [simp]: "0 \<le> z \<Longrightarrow> answer_ok (Some (200, [(''code'', JStr ''UPDATED''), (''changeSeq'', JNum (PyInt z))]))"
  by (auto simp: answer_ok_def intro: exI [of _ "nat z"])

lemma refused_ok: "known_error e \<Longrightarrow> answer_ok (refused path e)"
  by (cases e) (simp_all add: refused_def)

lemma test_request_ok:
  assumes "\<forall>e. pv_connect env = Some e \<longrightarrow> known_error e"
  shows "answer_ok (test_request env body sx)"
proof (cases "candidate env body (sx_value sx)")
  case (Inl e)
  then have "known_error e" by (auto simp: candidate_def dest: parse_known parse_update_known split: option.splits)
  with Inl show ?thesis by (simp add: test_request_def refused_ok)
next
  case (Inr v)
  then show ?thesis using assms settings_known
    by (auto simp: test_request_def refused_ok split: sum.split option.split)
qed

lemma setup_request_answer: "answer_ok (fst (setup_request env body sx))"
proof -
  define save where "save = (case sx_value sx of None \<Rightarrow> save_setup env body | Some _ \<Rightarrow> update_setup env body)"
  obtain r f where r: "sbind save (\<lambda>v. sbind (write_ca env v) (\<lambda>_. sret v)) (sx_files sx) = (r, f)" by fastforce
  show ?thesis
  proof (cases r)
    case (Inl e)
    obtain q f1 where q: "save (sx_files sx) = (q, f1)" by fastforce
    have "known_error e"
    proof (cases q)
      case (Inl x)
      with r q \<open>r = Inl e\<close> have "save (sx_files sx) = (Inl e, f1)" by simp
      then show ?thesis unfolding save_def by (cases "sx_value sx") (auto dest: store_known)
    next
      case (Inr v)
      with r q \<open>r = Inl e\<close> have "\<exists>f2. write_ca env v f1 = (Inl e, f2)" by (auto simp: sbind_def split: prod.splits sum.splits)
      then show ?thesis using store_known(4) by blast
    qed
    with r Inl show ?thesis unfolding setup_request_def save_def [symmetric] Let_def by (simp add: refused_ok)
  next
    case (Inr v)
    with r show ?thesis unfolding setup_request_def save_def [symmetric] Let_def
      by (cases "sx_value sx") simp_all
  qed
qed

text \<open>C40. Secrets are not shown: two servers whose records differ only in the password and the CA, both blank or both not, show the
  same settings, and what a request answers is one of a fixed list of codes and at most the revision, whatever it
  submits, unless the connection test itself raises a settings error (it has none).\<close>

theorem secrets_not_disclosed:
  assumes "sx_value sx = Some v" "\<forall>k. k \<notin> {''password'', ''caPem''} \<longrightarrow> dget v k = dget v' k"
    "\<forall>k \<in> {''password'', ''caPem''}. (text_member v k = []) = (text_member v' k = [])" "\<forall>e. pv_connect env = Some e \<longrightarrow> known_error e"
  shows "public_view (sx\<lparr>sx_value := Some v'\<rparr>) = public_view sx \<and> answer_ok (fst (post env rq sx))"
proof
  have "dget_or v' k JNull = dget_or v k JNull" if "k \<notin> {''password'', ''caPem''}" for k using assms(2) that by (simp add: dget_or_def)
  then show "public_view (sx\<lparr>sx_value := Some v'\<rparr>) = public_view sx" using assms(1,3) by (simp add: public_view_def Let_def)
  show "answer_ok (fst (post env rq sx))" using test_request_ok [OF assms(4)] setup_request_answer
    by (simp add: post_def)
qed

definition demo_other :: setup_record where
  "demo_other = dset ''password'' (JStr ''other'') demo_record"

theorem secrets_not_disclosed_witness:
  "public_view (demo_server\<lparr>sx_value := Some demo_other\<rparr>) = public_view demo_server \<and> answer_ok (fst (post demo_setup_env demo_request demo_server))"
proof (rule secrets_not_disclosed)
  show "sx_value demo_server = Some demo_record" by (simp add: demo_server_def)
  show "\<forall>e. pv_connect demo_setup_env = Some e \<longrightarrow> known_error e" by (simp add: demo_setup_env_def)
  show "\<forall>k. k \<notin> {''password'', ''caPem''} \<longrightarrow> dget demo_record k = dget demo_other k" by (simp add: demo_other_def)
  show "\<forall>k \<in> {''password'', ''caPem''}. (text_member demo_record k = []) = (text_member demo_other k = [])"
    by (simp add: demo_other_def demo_record_def text_member_def)
qed

text \<open>A first save whose record is written but whose CA file is not leaves the server without settings: every later attempt
  finds the file and is refused, until a restart. The comment at the handler of \<open>FileExistsError\<close> calls that branch
  unreachable.\<close>

lemma first_save_stuck:
  assumes "sx_value sx = None" "cf_record (sx_files sx) = None" "cf_ca (sx_files sx) = None" "parse_setup env body = Inr v" "text_member v ''caPem'' \<noteq> []"
  defines "sx1 \<equiv> snd (setup_request (luck True False None env) body sx)"
  shows "fst (setup_request (luck True False None env) body sx) = Some (code_response 503 ''SAVE_FAILED'') \<and> sx_value sx1 = None
    \<and> fst (setup_request (luck True True None env) body sx1) = Some (code_response 409 ''ALREADY_CONFIGURED'')"
proof -
  let ?e = "luck True False None env"
  let ?f = "(sx_files sx)\<lparr>cf_record := Some (pv_dumps env (JObj v))\<rparr>"
  have p: "pv_write ?e" "\<not> pv_write_ca ?e" by (simp_all add: luck_def)
  have "save_setup ?e body (sx_files sx) = (Inr v, ?f)" using assms(2,4) p by (simp add: save_setup_def write_setup_def)
  moreover have "write_ca ?e v ?f = (Inl OSError, ?f)" using assms(3,5) p by (simp add: write_ca_def)
  ultimately have r: "setup_request ?e body sx = (refused ''/api/setup'' OSError, sx\<lparr>sx_files := ?f\<rparr>)"
    using assms(1) by (simp add: setup_request_def)
  have "save_setup (luck True True None env) body ?f = (Inl (FileExistsError ''ALREADY_CONFIGURED''), ?f)" using assms(4) by (simp add: save_setup_def)
  then have "setup_request (luck True True None env) body (sx\<lparr>sx_files := ?f\<rparr>)
      = (refused ''/api/setup'' (FileExistsError ''ALREADY_CONFIGURED''), sx\<lparr>sx_files := ?f\<rparr>)"
    using assms(1) by (simp add: setup_request_def)
  then show ?thesis using assms(1) by (simp add: sx1_def r refused_def)
qed

end
