(* ===== verification/Poll.thy ===== *)
theory Poll
  imports Samples Modbus
begin

text \<open>
  The scheduling of reads: the pass of \<^verbatim>\<open>devices/modbus.py\<close> over its blocks, and the point reads of
  \<^verbatim>\<open>drivers/opcua.py\<close> with the plan of \<^verbatim>\<open>devices/opcua.py\<close>. What a turn observes at its awaits (the runner's current
  sample context, admission by the read budget, the replies of the device, clock readings) is its environment; the
  PyModbus and asyncua clients, cancellation and sleeping are not modelled.
\<close>

section \<open>The Modbus runner\<close>

text \<open>The list of deadlines is the one kept under \<^verbatim>\<open>plan['modbus']\<close>, which a restarted runner continues.\<close>

record poller =
  mr_device_id :: string
  mr_active :: "SampleContext option"
  mr_blocks :: "ReadBlock list"
  mr_reconnect_at :: rat
  mr_backoff :: rat
  mr_last_error :: "quality option"
  mr_last_good :: "int option"
  mr_skipped_polls :: nat
  mr_requests :: nat
  mr_events :: PointEvents
  mr_buffer :: SampleBuffer

definition deadlines :: "poller \<Rightarrow> rat list" where
  "deadlines mr = (case pe_plan_modbus (mr_events mr) of None \<Rightarrow> [] | Some ds \<Rightarrow> ds)"

definition note_missed :: "nat \<Rightarrow> poller \<Rightarrow> poller" where
  "note_missed count mr = mr\<lparr>mr_skipped_polls := mr_skipped_polls mr + count, mr_buffer := missed count (mr_buffer mr)\<rparr>"

definition on_events :: "(PointEvents \<Rightarrow> SampleBuffer \<Rightarrow> 'a res \<times> PointEvents \<times> SampleBuffer) \<Rightarrow> ('a, poller) prog" where
  "on_events f mr = (case f (mr_events mr) (mr_buffer mr) of (r, e, sb) \<Rightarrow> (r, mr\<lparr>mr_events := e, mr_buffer := sb\<rparr>))"

text \<open>The plan is an object shared with the boot context: a change of it is written through.\<close>

definition set_events :: "PointEvents \<Rightarrow> poller \<Rightarrow> poller" where
  "set_events e mr = mr\<lparr>mr_events := e, mr_buffer := share e (mr_buffer mr)\<rparr>"

text \<open>The start of a pass: a changed context brings a new plan; \<open>setdefault\<close> keeps the deadlines of a restarted runner.\<close>

definition nominal_dict :: "ReadBlock list \<Rightarrow> rat list \<Rightarrow> (string, rat) dict res" where
  "nominal_dict blocks ds =
     (if length ds < length blocks then Inl IndexError
      else Inr (foldl (\<lambda>d (k, t). dset k t d) [] (concat (map (\<lambda>(b, t). map (\<lambda>p. (pc_point_id p, t)) (rb_points b)) (zip blocks ds)))))"

definition begin_pass :: "cap_env \<Rightarrow> SampleContext \<Rightarrow> rat \<Rightarrow> (unit, poller) prog" where
  "begin_pass env context origin mr =
     (if Some context = mr_active mr then (Inr (), mr)
      else case plan_reads (dc_points (sc_device context)) of
        Inl e \<Rightarrow> (Inl e, mr\<lparr>mr_active := Some context\<rparr>)
      | Inr blocks \<Rightarrow>
          sbind (on_events (activate env context (foldl (\<lambda>d p. dset (pc_point_id p) origin d) [] (concat (map rb_points blocks))) origin)) (\<lambda>_ mr.
            let e = mr_events mr;
                ds = (case pe_plan_modbus e of None \<Rightarrow> replicate (length blocks) origin | Some ds \<Rightarrow> ds);
                e = e\<lparr>pe_plan_modbus := Some ds\<rparr>
            in case nominal_dict blocks ds of
                 Inl x \<Rightarrow> (Inl x, set_events e mr)
               | Inr d \<Rightarrow> (Inr (), set_events (e\<lparr>pe_next_nominal := (case pe_next_nominal e of None \<Rightarrow> Some d | Some n \<Rightarrow> Some n)\<rparr>) mr))
            (mr\<lparr>mr_active := Some context, mr_blocks := blocks\<rparr>))"

text \<open>What a block's turn observes.\<close>

record turn_env =
  tu_cap :: cap_env
  tu_replies :: "nat \<Rightarrow> reply"
  tu_released :: bool
  tu_retries :: nat
  tu_now :: rat
  tu_context :: "SampleContext option"
  tu_admitted :: bool
  tu_admitted_context :: "SampleContext option"
  tu_failed_at :: rat
  tu_current :: "SampleContext option"
  tu_captured :: rat
  tu_left_context :: "SampleContext option"
  tu_published_at :: rat
  tu_finished :: rat

text \<open>The results of the block, None when it is not read, and the number of fallback requests used.\<close>

definition block_results :: "turn_env \<Rightarrow> ReadBlock \<Rightarrow> nat \<Rightarrow> (outcomes option \<times> nat, poller) prog" where
  "block_results tu block budget mr =
     (if tu_now tu < mr_reconnect_at mr then (Inr (None, 0), note_missed (length (rb_points block)) mr)
      else if \<not> (tu_admitted tu \<and> tu_admitted_context tu = tu_context tu) then (Inr (None, 0), note_missed (length (rb_points block)) mr)
      else case read_block (tu_replies tu) (tu_released tu) (tu_retries tu) block budget (mr_requests mr) of (r, n) \<Rightarrow>
        (let mr = mr\<lparr>mr_requests := n\<rparr>
         in case r of
              Inr (results, used) \<Rightarrow> (Inr (Some results, used), mr)
            | Inl (ReadError q _) \<Rightarrow> (Inr (Some (foldl (\<lambda>d p. dset (pc_point_id p) (VNone, q) d) [] (rb_points block)), 0), mr)
            | Inl (Raised e) \<Rightarrow> (Inl e, mr)))"

text \<open>The errors of a read: they set the reconnect back-off.\<close>

definition note_errors :: "turn_env \<Rightarrow> outcomes \<Rightarrow> poller \<Rightarrow> poller" where
  "note_errors tu results mr =
     (let errors = filter (\<lambda>q. q \<noteq> GOOD) (map snd (dvals results));
          transport = List.find (\<lambda>q. q = BAD_CONNECTION \<or> q = BAD_TIMEOUT) errors;
          mr = mr\<lparr>mr_last_error := (case transport of Some q \<Rightarrow> Some q | None \<Rightarrow> (case errors of [] \<Rightarrow> None | q # _ \<Rightarrow> Some q))\<rparr>
      in if transport \<noteq> None then mr\<lparr>mr_reconnect_at := tu_failed_at tu + mr_backoff mr, mr_backoff := min (mr_backoff mr * 2) 30\<rparr>
         else if errors = [] then mr\<lparr>mr_backoff := 1 / 2, mr_reconnect_at := 0\<rparr> else mr)"

fun emit_results :: "turn_env \<Rightarrow> SampleContext \<Rightarrow> rat \<Rightarrow> outcomes \<Rightarrow> PointConfig list \<Rightarrow> (unit, poller) prog" where
  "emit_results tu context nominal results [] mr = (Inr (), mr)"
| "emit_results tu context nominal results (p # ps) mr =
     (case dindex results (pc_point_id p) of Inl e \<Rightarrow> (Inl e, mr)
      | Inr (val, q) \<Rightarrow>
          sbind (on_events (point_result (tu_cap tu) context p val q nominal (tu_captured tu) (Some context = tu_current tu))) (\<lambda>s mr.
            if Some context = tu_current tu \<and> q = GOOD
            then (case s of None \<Rightarrow> (Inl AttributeError, mr)
                  | Some s \<Rightarrow> emit_results tu context nominal results ps (mr\<lparr>mr_last_good := s_timestamp s\<rparr>))
            else emit_results tu context nominal results ps mr) mr)"

text \<open>The slots the turn passed over are counted and the block's deadline moves along its grid.\<close>

definition finish_turn :: "turn_env \<Rightarrow> nat \<Rightarrow> ReadBlock \<Rightarrow> SampleContext \<Rightarrow> rat \<Rightarrow> (unit, poller) prog" where
  "finish_turn tu i block context previous mr =
     (let interval = of_int (rb_poll_interval_ms block) / 1000;
          retired = (if tu_left_context tu \<noteq> Some context then Some (tu_published_at tu) else None)
      in case skipped_after previous (tu_finished tu) interval retired of
           Inl e \<Rightarrow> (Inl e, mr)
         | Inr n \<Rightarrow>
             (let mr = note_missed (nat n * length (rb_points block)) mr;
                  due = previous + of_int (n + 1) * interval;
                  e = mr_events mr;
                  e = e\<lparr>pe_plan_modbus := Some ((deadlines mr)[i := due])\<rparr>
              in case pe_next_nominal e of
                   None \<Rightarrow> (Inl KeyError, set_events e mr)
                 | Some d \<Rightarrow> (Inr (), set_events (e\<lparr>pe_next_nominal := Some (foldl (\<lambda>d p. dset (pc_point_id p) due d) d (rb_points block))\<rparr>) mr)))"

text \<open>The turn of a block that is due: the fallback budget left, None when the pass is abandoned.\<close>

definition block_turn :: "turn_env \<Rightarrow> nat \<Rightarrow> ReadBlock \<Rightarrow> nat \<Rightarrow> (nat option, poller) prog" where
  "block_turn tu i block budget mr =
     (if tu_context tu \<noteq> mr_active mr \<or> mr_active mr = None then (Inr None, mr)
      else let context = the (mr_active mr); previous = deadlines mr ! i
           in sbind (block_results tu block budget) (\<lambda>(results, used).
              sbind (case results of None \<Rightarrow> sret ()
                     | Some rs \<Rightarrow> sbind (supd (note_errors tu rs)) (\<lambda>_. emit_results tu context previous rs (rb_points block))) (\<lambda>_.
              sbind (finish_turn tu i block context previous) (\<lambda>_. sret (Some (budget - used))))) mr)"

text \<open>One pass over the blocks; a block that is not due at the clock reading of its turn is left alone.\<close>

fun pass_blocks :: "(nat \<Rightarrow> turn_env) \<Rightarrow> (nat \<Rightarrow> rat) \<Rightarrow> nat \<Rightarrow> ReadBlock list \<Rightarrow> nat \<Rightarrow> (unit, poller) prog" where
  "pass_blocks tus clock i [] budget mr = (Inr (), mr)"
| "pass_blocks tus clock i (b # bs) budget mr =
     (if clock i < deadlines mr ! i then pass_blocks tus clock (Suc i) bs budget mr
      else sbind (block_turn (tus i) i b budget) (\<lambda>r. case r of None \<Rightarrow> sret () | Some left \<Rightarrow> pass_blocks tus clock (Suc i) bs left) mr)"

definition end_pass :: "cap_env \<Rightarrow> SampleContext option \<Rightarrow> rat \<Rightarrow> (unit, poller) prog" where
  "end_pass env context now mr = (if context = mr_active mr then on_events (expire env now) mr else (Inr (), mr))"

section \<open>The OPC UA reader\<close>

text \<open>What a node holds, and what a read of it gives: a value with its status (None for a status without a code that is
  not good), or an exception.\<close>

datatype ua_value = UBool bool | UNum pynum | UOther

datatype ua_status = Good_Status | Bad_Status string

datatype ua_reply = UaData ua_status ua_value | UaTimeout | UaStatusError | UaConnectionError

definition integer_range :: "string \<Rightarrow> (int \<times> int) option" where
  "integer_range ty =
     (if ty = ''int16'' then Some (-32768, 32767) else if ty = ''uint16'' then Some (0, 65535)
      else if ty = ''int32'' then Some (-2147483648, 2147483647) else if ty = ''uint32'' then Some (0, 4294967295) else None)"

definition ua_decode :: "PointConfig \<Rightarrow> ua_value \<Rightarrow> pyval res" where
  "ua_decode p v =
     (if pc_data_type p = ''bool'' then (case v of UBool b \<Rightarrow> Inr (VBool b) | _ \<Rightarrow> Inl (ValueError ''Expected bool''))
      else case v of
        UNum n \<Rightarrow>
          (case integer_range (pc_data_type p) of
             None \<Rightarrow> scaled p n
           | Some (lo, hi) \<Rightarrow> (case n of PyInt k \<Rightarrow> (if lo \<le> k \<and> k \<le> hi then scaled p n else Inl (ValueError ''Out of range''))
                              | _ \<Rightarrow> Inl (ValueError ''Out of range'')))
      | _ \<Rightarrow> Inl (ValueError ''Expected number''))"

fun contains :: "string \<Rightarrow> string \<Rightarrow> bool" where
  "contains part [] \<longleftrightarrow> part = []"
| "contains part (c # cs) \<longleftrightarrow> take (length part) (c # cs) = part \<or> contains part cs"

definition quality_of :: "ua_status \<Rightarrow> quality" where
  "quality_of s = (case s of Good_Status \<Rightarrow> GOOD
     | Bad_Status name \<Rightarrow>
         (if contains ''Timeout'' name then BAD_TIMEOUT
          else if list_ex (\<lambda>t. contains t name) [''Connection'', ''Session'', ''SecureChannel'', ''Communication''] then BAD_CONNECTION
          else BAD_PROTOCOL))"

text \<open>The value and quality of one read, and whether the session is given up.\<close>

definition ua_outcome :: "PointConfig \<Rightarrow> ua_reply \<Rightarrow> (pyval \<times> quality) res \<times> bool" where
  "ua_outcome p r =
     (case r of
        UaData s v \<Rightarrow>
          (if quality_of s \<noteq> GOOD then (Inr (VNone, quality_of s), False)
           else case ua_decode p v of
                  Inr x \<Rightarrow> (Inr (x, GOOD), False)
                | Inl e \<Rightarrow> (if e \<in> {TypeError, OverflowError} \<or> is_value_error e then Inr (VNone, BAD_DECODE) else Inl e, False))
      | UaTimeout \<Rightarrow> (Inr (VNone, BAD_TIMEOUT), False)
      | UaStatusError \<Rightarrow> (Inr (VNone, BAD_PROTOCOL), False)
      | UaConnectionError \<Rightarrow> (Inr (VNone, BAD_CONNECTION), True))"

section \<open>The OPC UA runner\<close>

text \<open>The dictionary of next reads is the one kept under \<^verbatim>\<open>plan['opcua']\<close> and, the same object, under
  \<^verbatim>\<open>plan['next_nominal']\<close>; \<open>next_read\<close> is it.\<close>

record ua_runner =
  ur_next_read :: "(string, rat) dict"
  ur_last_error :: "quality option"
  ur_last_good :: "int option"
  ur_skipped_polls :: nat
  ur_events :: PointEvents
  ur_buffer :: SampleBuffer

definition ua_missed :: "nat \<Rightarrow> ua_runner \<Rightarrow> ua_runner" where
  "ua_missed count ur = ur\<lparr>ur_skipped_polls := ur_skipped_polls ur + count, ur_buffer := missed count (ur_buffer ur)\<rparr>"

definition ua_store_plan :: "ua_runner \<Rightarrow> ua_runner" where
  "ua_store_plan ur =
     (let e = (ur_events ur)\<lparr>pe_plan_opcua := Some (ur_next_read ur), pe_next_nominal := Some (ur_next_read ur)\<rparr>
      in ur\<lparr>ur_events := e, ur_buffer := share e (ur_buffer ur)\<rparr>)"

text \<open>An assignment to an entry of \<open>next_read\<close>; the plan sees it where its object is this dictionary (where it is equal to it).\<close>

definition ua_set_next :: "(string, rat) dict \<Rightarrow> ua_runner \<Rightarrow> ua_runner" where
  "ua_set_next d ur =
     (let link = (\<lambda>x. if x = Some (ur_next_read ur) then Some d else x);
          e = (ur_events ur)\<lparr>pe_plan_opcua := link (pe_plan_opcua (ur_events ur)), pe_next_nominal := link (pe_next_nominal (ur_events ur))\<rparr>
      in ur\<lparr>ur_next_read := d, ur_events := e, ur_buffer := share e (ur_buffer ur)\<rparr>)"

text \<open>What the turn of a point observes.\<close>

record ua_env =
  uv_cap :: cap_env
  uv_context :: "SampleContext option"
  uv_current :: "SampleContext option"
  uv_left :: "SampleContext option"
  uv_published_at :: rat
  uv_before :: rat
  uv_captured :: rat
  uv_finished :: rat

text \<open>\<open>_publish\<close>.\<close>

definition ua_publish :: "ua_env \<Rightarrow> PointConfig \<Rightarrow> pyval \<Rightarrow> quality \<Rightarrow> rat \<Rightarrow> SampleContext option \<Rightarrow> (unit, ua_runner) prog" where
  "ua_publish uv p val q nominal context ur =
     (case context of None \<Rightarrow> (Inr (), ur)
      | Some c \<Rightarrow>
         (case point_result (uv_cap uv) c p val q nominal (uv_captured uv) (context = uv_current uv) (ur_events ur) (ur_buffer ur) of
            (Inl e, pe, sb) \<Rightarrow> (Inl e, ur\<lparr>ur_events := pe, ur_buffer := sb\<rparr>)
          | (Inr s, pe, sb) \<Rightarrow>
              (let ur = ur\<lparr>ur_events := pe, ur_buffer := sb\<rparr>
               in if context \<noteq> uv_current uv then (Inr (), ur)
                  else case s of None \<Rightarrow> (Inr (), ur)
                   | Some s \<Rightarrow> (Inr (), if q = GOOD then ur\<lparr>ur_last_good := s_timestamp s, ur_last_error := None\<rparr> else ur\<lparr>ur_last_error := Some q\<rparr>))))"

text \<open>\<open>advance\<close>, with \<open>_retired_at\<close>.\<close>

definition ua_advance :: "ua_env \<Rightarrow> PointConfig \<Rightarrow> rat \<Rightarrow> SampleContext option \<Rightarrow> (unit, ua_runner) prog" where
  "ua_advance uv p nominal context ur =
     (let interval = of_int (pc_poll_interval_ms p) / 1000;
          retired = (if context \<noteq> uv_left uv then Some (uv_published_at uv) else None)
      in case skipped_after nominal (uv_finished uv) interval retired of
           Inl e \<Rightarrow> (Inl e, ur)
         | Inr n \<Rightarrow> (Inr (), ua_set_next (dset (pc_point_id p) (nominal + of_int (n + 1) * interval) (ur_next_read ur)) (ua_missed (nat n) ur)))"

text \<open>\<open>_before_read\<close>: the context of the read, activated when it is a new one.\<close>

definition ua_before_read :: "ua_env \<Rightarrow> (SampleContext option, ua_runner) prog" where
  "ua_before_read uv ur =
     (case uv_context uv of None \<Rightarrow> (Inr None, ur)
      | Some c \<Rightarrow>
         (case activate (uv_cap uv) c (ur_next_read ur) (uv_before uv) (ur_events ur) (ur_buffer ur) of
            (Inl e, pe, sb) \<Rightarrow> (Inl e, ur\<lparr>ur_events := pe, ur_buffer := sb\<rparr>)
          | (Inr _, pe, sb) \<Rightarrow> (Inr (Some c), ur\<lparr>ur_events := pe, ur_buffer := sb\<rparr>)))"

text \<open>The turn of a due point: one physical result, then \<open>advance\<close>, also when the result raises or the session is lost.\<close>

definition ua_turn :: "ua_env \<Rightarrow> ua_reply \<Rightarrow> PointConfig \<Rightarrow> (unit, ua_runner) prog" where
  "ua_turn uv reply p ur =
     (case dindex (ur_next_read ur) (pc_point_id p) of Inl e \<Rightarrow> (Inl e, ur)
      | Inr nominal \<Rightarrow>
          sbind (ua_before_read uv) (\<lambda>context ur.
            let (outcome, lost) = ua_outcome p reply;
                (r, ur) = (case outcome of Inl e \<Rightarrow> (Inl e, ur) | Inr (val, q) \<Rightarrow> ua_publish uv p val q nominal context ur)
            in case ua_advance uv p nominal context ur of
                 (Inl e, ur) \<Rightarrow> (Inl e, ur)
               | (Inr _, ur) \<Rightarrow> (case r of Inl e \<Rightarrow> (Inl e, ur)
                   | Inr _ \<Rightarrow> if lost then (Inl (ConnectionError ''BAD_CONNECTION''), ur) else (Inr (), ur))) ur)"

text \<open>\<open>_refresh_plan\<close>: False when the runner is not current; a new context counts what the old plan still owed and starts a new one.\<close>

definition ua_refresh :: "ua_env \<Rightarrow> (bool, ua_runner) prog" where
  "ua_refresh uv ur =
     (case uv_context uv of None \<Rightarrow> (Inr False, ur)
      | Some c \<Rightarrow>
         (if Some c = pe_context (ur_events ur) then (Inr True, ur)
          else let owed = (case pe_context (ur_events ur) of None \<Rightarrow> [] | Some old \<Rightarrow> filter pc_enabled (dc_points (sc_device old)))
               in sbind (sfold (\<lambda>p ur. case rbind (dindex (ur_next_read ur) (pc_point_id p)) (\<lambda>t.
                             skipped_before t (uv_published_at uv) (of_int (pc_poll_interval_ms p) / 1000)) of
                           Inl e \<Rightarrow> (Inl e, ur) | Inr n \<Rightarrow> (Inr (), ua_missed (nat n) ur)) owed) (\<lambda>_ ur.
                    let origin = uv_before uv;
                        next = foldl (\<lambda>d p. dset (pc_point_id p) origin d) (ur_next_read ur) (filter pc_enabled (dc_points (sc_device c)))
                    in case activate (uv_cap uv) c next origin (ur_events ur) (ur_buffer ur) of
                         (Inl e, pe, sb) \<Rightarrow> (Inl e, ur\<lparr>ur_next_read := next, ur_events := pe, ur_buffer := sb\<rparr>)
                       | (Inr _, pe, sb) \<Rightarrow> (Inr True, ua_store_plan (ur\<lparr>ur_next_read := next, ur_events := pe, ur_buffer := sb\<rparr>))) ur))"

text \<open>\<open>connection_failure\<close> after the connection attempts failed: each due point gets the failure as its result.\<close>

definition ua_connection_failure :: "ua_env \<Rightarrow> quality \<Rightarrow> (string \<Rightarrow> SampleContext option) \<Rightarrow> PointConfig list \<Rightarrow> (unit, ua_runner) prog" where
  "ua_connection_failure uv q initial points =
     sfold (\<lambda>p ur. case dindex (ur_next_read ur) (pc_point_id p) of Inl e \<Rightarrow> (Inl e, ur)
        | Inr nominal \<Rightarrow> (if nominal \<le> uv_before uv
            then sbind (ua_publish uv p VNone q nominal (initial (pc_point_id p))) (\<lambda>_. ua_advance uv p nominal (initial (pc_point_id p))) ur
            else (Inr (), ur))) (filter pc_enabled points)"

text \<open>The connection attempts: the outcome of each, None for success; how long is slept between them is left out.\<close>

datatype ua_connect = Connected | Connect_Timeout | Connect_Failed

fun ua_attempts :: "(nat \<Rightarrow> ua_connect) \<Rightarrow> nat \<Rightarrow> nat \<Rightarrow> quality option" where
  "ua_attempts outcome 0 n = (case outcome n of Connected \<Rightarrow> None | Connect_Timeout \<Rightarrow> Some BAD_TIMEOUT | Connect_Failed \<Rightarrow> Some BAD_CONNECTION)"
| "ua_attempts outcome (Suc k) n = (case outcome n of Connected \<Rightarrow> None | _ \<Rightarrow> ua_attempts outcome k (Suc n))"

definition ua_preconditions :: "(string \<Rightarrow> string option) \<Rightarrow> ConnectionConfig \<Rightarrow> unit res" where
  "ua_preconditions getenv c =
     (if cc_security_policy c \<noteq> Some ''None'' \<or> cc_security_mode c \<noteq> Some ''None'' then Inl (RuntimeError ''BAD_CONFIGURATION'')
      else if (case cc_username c of Some (_ # _) \<Rightarrow> True | _ \<Rightarrow> False)
              \<and> (case getenv (case cc_password_env c of None \<Rightarrow> [] | Some e \<Rightarrow> e) of Some (_ # _) \<Rightarrow> False | _ \<Rightarrow> True)
      then Inl (RuntimeError ''BAD_CONFIGURATION'') else Inr ())"

text \<open>The back-off of the runner between sessions.\<close>

definition next_backoff :: "rat \<Rightarrow> rat" where
  "next_backoff b = min (b * 2) 30"

section \<open>Every slot is read or counted\<close>

lemma missed_frame [simp]:
  "sb_captured_events (missed n sb) = sb_captured_events sb" "sb_missed_poll_cycles (missed n sb) = sb_missed_poll_cycles sb + n"
  by (simp_all add: missed_def buf_account_def)

lemma put_frame: "put env s sb = (r, sb') \<Longrightarrow> sb_captured_events sb' = sb_captured_events sb \<and> sb_missed_poll_cycles sb' = sb_missed_poll_cycles sb"
  by (auto simp: put_def put_drop_def Let_def buf_account_def split: option.splits if_splits)

lemma share_counts [simp]: "sb_captured_events (share e sb) = sb_captured_events sb" "sb_missed_poll_cycles (share e sb) = sb_missed_poll_cycles sb"
  by (simp_all add: share_def Let_def split: option.split)

lemma emit_counts:
  assumes "emit env p val qual completed nominal kind publish e sb = (Inr s, e', sb')"
  shows "sb_captured_events sb' = sb_captured_events sb + 1 \<and> sb_missed_poll_cycles sb' = sb_missed_poll_cycles sb"
proof -
  have cap: "sb_captured_events sb1 = sb_captured_events sb + 1 \<and> sb_missed_poll_cycles sb1 = sb_missed_poll_cycles sb"
    if c: "emit_capture env clock p val qual completed nominal kind e1 sb = (Inr s, sb1)" for clock e1 s sb1
  proof -
    from emit_captureD [OF c] obtain version device origin generation gw clk where
      "capture env version device (pc_point_id p) val qual completed nominal origin generation kind gw clk sb = (Inr s, sb1)" by auto
    then show ?thesis by (cases rule: capture_cases) (simp_all add: buf_account_def)
  qed
  from assms show ?thesis
  proof (cases rule: emit_split)
    case (published e1 s' q sb1 sb2 clock)
    then show ?thesis using cap [OF published(4)] put_frame [OF published(5)] by simp
  next
    case (discarded s' sb1 clock)
    then show ?thesis using cap [OF discarded(5)] by (simp add: version_discard_def buf_account_def)
  qed simp_all
qed

lemma emit_plan:
  "pe_plan_modbus (fst (snd (emit env p val qual completed nominal kind publish e sb))) = pe_plan_modbus e
   \<and> pe_context (fst (snd (emit env p val qual completed nominal kind publish e sb))) = pe_context e"
proof -
  have r: "pe_plan_modbus e0 = pe_plan_modbus e \<and> pe_context e0 = pe_context e" if "rebase_origin clock p completed nominal e = Inr e0" for clock e0
    using that by (auto simp: rebase_origin_def Let_def rbind_Inr_iff split: option.splits if_splits)
  have q: "pe_plan_modbus (fst (snd (emit_publish env pid qual s e1 sb1))) = pe_plan_modbus e1 \<and> pe_context (fst (snd (emit_publish env pid qual s e1 sb1))) = pe_context e1"
    for pid s e1 sb1 by (simp add: emit_publish_def Let_def split: prod.split sum.split)
  define clock where "clock = ce_read env (bt_sample_sequence (sb_boot sb)) (ms completed)"
  define r0 where "r0 = (if publish \<and> (case dget (pe_time_epochs e) (pc_point_id p) of None \<Rightarrow> False | Some g \<Rightarrow> g \<noteq> ct_generation clock)
     then rebase_origin clock p completed nominal e else Inr e)"
  show ?thesis
  proof (cases r0)
    case (Inl x)
    then show ?thesis unfolding emit_def Let_def r0_def clock_def by simp
  next
    case (Inr e0)
    then have e0: "pe_plan_modbus e0 = pe_plan_modbus e \<and> pe_context e0 = pe_context e" using r by (auto simp: r0_def split: if_splits)
    define e1 where "e1 = (if publish then e0\<lparr>pe_time_epochs := dset (pc_point_id p) (ct_generation clock) (pe_time_epochs e0)\<rparr> else e0)"
    have e1: "pe_plan_modbus e1 = pe_plan_modbus e \<and> pe_context e1 = pe_context e" using e0 by (simp add: e1_def)
    obtain r sb1 where c: "emit_capture env clock p val qual completed nominal kind e1 sb = (r, sb1)" by fastforce
    have "fst (snd (emit env p val qual completed nominal kind publish e sb)) =
        (case r of Inl _ \<Rightarrow> e1 | Inr s \<Rightarrow> if publish then fst (snd (emit_publish env (pc_point_id p) qual s e1 sb1)) else e1)"
      using Inr c unfolding emit_def Let_def r0_def [symmetric] clock_def [symmetric] e1_def [symmetric]
      by (cases r) (simp_all add: e1_def split_beta)
    then show ?thesis using e1 q by (cases r) simp_all
  qed
qed

lemma point_result_counts:
  assumes "point_result env context p val q nominal completed publish e sb = (Inr s, e', sb')" "pe_context e = Some context"
  shows "sb_captured_events sb' = sb_captured_events sb + 1 \<and> sb_missed_poll_cycles sb' = sb_missed_poll_cycles sb
    \<and> pe_plan_modbus e' = pe_plan_modbus e \<and> pe_context e' = pe_context e"
proof -
  define e1 where "e1 = (if publish then e\<lparr>pe_last_result := dset (pc_point_id p) completed (pe_last_result e)\<rparr> else e)"
  obtain r e2 sb2 where m: "emit env p val q completed (Some nominal) PHYSICAL_RESULT publish e1 sb = (r, e2, sb2)" by (metis prod.exhaust)
  with assms obtain s' where "r = Inr s'" "e' = e2" "sb' = sb2" by (cases r) (simp_all add: point_result_def Let_def e1_def [symmetric])
  moreover have "pe_plan_modbus e1 = pe_plan_modbus e" "pe_context e1 = pe_context e" by (simp_all add: e1_def)
  ultimately show ?thesis using emit_counts m emit_plan [of env p val q completed "Some nominal" PHYSICAL_RESULT publish e1 sb] by auto
qed

text \<open>How a turn's parts move the counters, the plan and the context of the events.\<close>

definition counted :: "nat \<Rightarrow> nat \<Rightarrow> poller \<Rightarrow> poller \<Rightarrow> bool" where
  "counted m c mr mr' \<longleftrightarrow> sb_missed_poll_cycles (mr_buffer mr') = sb_missed_poll_cycles (mr_buffer mr) + m
     \<and> mr_skipped_polls mr' = mr_skipped_polls mr + m \<and> sb_captured_events (mr_buffer mr') = sb_captured_events (mr_buffer mr) + c
     \<and> deadlines mr' = deadlines mr \<and> pe_context (mr_events mr') = pe_context (mr_events mr) \<and> mr_active mr' = mr_active mr"

lemma counted_refl: "counted 0 0 mr mr"
  by (simp add: counted_def)

lemma counted_trans: "counted m c a b \<Longrightarrow> counted m' c' b d \<Longrightarrow> counted (m + m') (c + c') a d"
  by (simp add: counted_def)

lemma note_missed_counted: "counted n 0 mr (note_missed n mr)"
  by (simp add: counted_def note_missed_def deadlines_def)

lemma block_results_counted:
  assumes "block_results tu block budget mr = (Inr (r, used), mr')"
  shows "counted (if r = None then length (rb_points block) else 0) 0 mr mr'"
  using assms unfolding block_results_def
  by (auto simp: Let_def note_missed_counted counted_def deadlines_def note_missed_def split: if_splits prod.splits sum.splits fault.splits)

lemma note_errors_counted: "counted 0 0 mr (note_errors tu rs mr)"
  by (simp add: counted_def note_errors_def Let_def deadlines_def)

lemma emit_results_counted:
  "emit_results tu context nominal rs ps mr = (Inr (), mr') \<Longrightarrow> pe_context (mr_events mr) = Some context \<Longrightarrow> counted 0 (length ps) mr mr'"
proof (induction ps arbitrary: mr)
  case Nil
  then show ?case by (simp add: counted_refl)
next
  case (Cons p ps)
  from Cons.prems(1) obtain val q where d: "dindex rs (pc_point_id p) = Inr (val, q)" by (auto split: sum.splits)
  obtain r e sb where pr: "point_result (tu_cap tu) context p val q nominal (tu_captured tu) (Some context = tu_current tu) (mr_events mr) (mr_buffer mr) = (r, e, sb)"
    by (metis prod.exhaust)
  with Cons.prems(1) d obtain s where r: "r = Inr s" by (cases r) (simp_all add: on_events_def sbind_def)
  define m1 where "m1 = mr\<lparr>mr_events := e, mr_buffer := sb\<rparr>"
  note pc = point_result_counts [OF pr [unfolded r] Cons.prems(2)]
  have c1: "counted 0 1 mr m1" using pc by (simp add: counted_def m1_def deadlines_def)
  have "\<exists>g. emit_results tu context nominal rs ps (m1\<lparr>mr_last_good := g\<rparr>) = (Inr (), mr')"
  proof (cases "Some context = tu_current tu \<and> q = GOOD")
    case True
    with Cons.prems(1) d pr r show ?thesis by (cases s) (auto simp: on_events_def sbind_def m1_def)
  next
    case False
    have "m1\<lparr>mr_last_good := mr_last_good m1\<rparr> = m1" by simp
    moreover have "emit_results tu context nominal rs ps m1 = (Inr (), mr')"
      using Cons.prems(1) d pr r False by (simp add: on_events_def sbind_def m1_def split: if_splits)
    ultimately show ?thesis by metis
  qed
  then obtain g where g: "emit_results tu context nominal rs ps (m1\<lparr>mr_last_good := g\<rparr>) = (Inr (), mr')" ..
  have "counted 0 0 m1 (m1\<lparr>mr_last_good := g\<rparr>)" by (simp add: counted_def deadlines_def)
  moreover have "counted 0 (length ps) (m1\<lparr>mr_last_good := g\<rparr>) mr'"
    using Cons.IH [OF g] Cons.prems(2) c1 by (simp add: counted_def)
  ultimately show ?case using counted_trans [OF c1] counted_trans by fastforce
qed

lemma finish_turnD:
  assumes "finish_turn tu i block context previous mr = (Inr (), mr')"
  defines "interval \<equiv> of_int (rb_poll_interval_ms block) / 1000"
  obtains n where "skipped_after previous (tu_finished tu) interval (if tu_left_context tu \<noteq> Some context then Some (tu_published_at tu) else None) = Inr n"
    "deadlines mr' = (deadlines mr)[i := previous + of_int (n + 1) * interval]"
    "sb_missed_poll_cycles (mr_buffer mr') = sb_missed_poll_cycles (mr_buffer mr) + nat n * length (rb_points block)"
    "mr_skipped_polls mr' = mr_skipped_polls mr + nat n * length (rb_points block)"
    "sb_captured_events (mr_buffer mr') = sb_captured_events (mr_buffer mr)"
    "pe_context (mr_events mr') = pe_context (mr_events mr)" "mr_active mr' = mr_active mr"
proof -
  let ?r = "skipped_after previous (tu_finished tu) interval (if tu_left_context tu \<noteq> Some context then Some (tu_published_at tu) else None)"
  from assms(1) obtain n where n: "?r = Inr n" unfolding finish_turn_def Let_def interval_def by (auto split: sum.splits)
  define m where "m = note_missed (nat n * length (rb_points block)) mr"
  have ev: "mr_events m = mr_events mr" "deadlines m = deadlines mr" by (simp_all add: m_def note_missed_def deadlines_def)
  from assms(1) n obtain d where d: "pe_next_nominal (mr_events mr) = Some d"
    unfolding finish_turn_def Let_def interval_def by (cases "pe_next_nominal (mr_events mr)") (simp_all add: note_missed_def)
  have "mr' = set_events ((mr_events mr)\<lparr>pe_plan_modbus := Some ((deadlines mr)[i := previous + of_int (n + 1) * interval]),
      pe_next_nominal := Some (foldl (\<lambda>d p. dset (pc_point_id p) (previous + of_int (n + 1) * interval) d) d (rb_points block))\<rparr>) m"
    using assms(1) n d ev unfolding finish_turn_def Let_def interval_def by (simp add: m_def [symmetric])
  then show thesis using n ev by (intro that [of n]) (simp_all add: set_events_def deadlines_def, simp_all add: m_def note_missed_def)
qed

lemma skipped_nonneg: "skipped_after p f interval r = Inr n \<Longrightarrow> 0 \<le> n"
  by (auto simp: skipped_after_def Let_def split: option.splits if_splits)

text \<open>C12. No slot of a block is lost without a count. When the turn of a due block returns, its deadline has moved by
  \<open>n + 1\<close> whole intervals from the slot it served, where \<open>n\<close> is the count of \<open>skipped_after\<close>, and of the \<open>n + 1\<close> results owed to each of its points every one
  is a captured event or a counted missed poll cycle, whatever the turn ran into: a reconnect back-off, a refused
  admission, a context replaced while it waited, a failed read; the runner's own counter and the device's agree.\<close>

theorem poll_slots_conserved:
  assumes turn: "block_turn tu i block budget mr = (Inr (Some left), mr')"
    and ctx: "pe_context (mr_events mr) = mr_active mr"
    and i: "i < length (deadlines mr)"
  shows "\<exists>n missed captured. skipped_after (deadlines mr ! i) (tu_finished tu) (of_int (rb_poll_interval_ms block) / 1000)
          (if tu_left_context tu \<noteq> mr_active mr then Some (tu_published_at tu) else None) = Inr n \<and> 0 \<le> n
      \<and> deadlines mr' = (deadlines mr)[i := deadlines mr ! i + of_int (n + 1) * (of_int (rb_poll_interval_ms block) / 1000)]
      \<and> nat (n + 1) * length (rb_points block) = missed + captured
      \<and> sb_missed_poll_cycles (mr_buffer mr') = sb_missed_poll_cycles (mr_buffer mr) + missed
      \<and> mr_skipped_polls mr' = mr_skipped_polls mr + missed
      \<and> sb_captured_events (mr_buffer mr') = sb_captured_events (mr_buffer mr) + captured
      \<and> pe_context (mr_events mr') = mr_active mr'"
proof -
  from turn obtain c where act: "mr_active mr = Some c" by (cases "mr_active mr") (simp_all add: block_turn_def)
  let ?p = "deadlines mr ! i" and ?k = "length (rb_points block)"
  from turn act obtain rs used m1 where br: "block_results tu block budget mr = (Inr (rs, used), m1)"
    by (cases "block_results tu block budget mr"; cases "fst (block_results tu block budget mr)")
      (auto simp: block_turn_def sbind_def split: if_splits)
  define body where "body = (case rs of None \<Rightarrow> sret () | Some rs \<Rightarrow> sbind (supd (note_errors tu rs)) (\<lambda>_. emit_results tu c ?p rs (rb_points block)))"
  obtain r m2 where b: "body m1 = (r, m2)" by fastforce
  have "sbind body (\<lambda>_. sbind (finish_turn tu i block c ?p) (\<lambda>_. sret (Some (budget - used)))) m1 = (Inr (Some left), mr')"
    using turn act br unfolding block_turn_def body_def by (simp add: sbind_def Let_def split: if_splits)
  then have r: "r = Inr ()" and fin: "finish_turn tu i block c ?p m2 = (Inr (), mr')"
    using b by (cases r; cases "finish_turn tu i block c ?p m2"; cases "fst (finish_turn tu i block c ?p m2)"; auto simp: sbind_def sret_def)+
  have c1: "counted (if rs = None then ?k else 0) 0 mr m1" by (rule block_results_counted [OF br])
  have c2: "counted 0 (if rs = None then 0 else ?k) m1 m2"
  proof (cases rs)
    case None
    then show ?thesis using b by (simp add: body_def sret_def counted_refl)
  next
    case (Some os)
    then have e: "emit_results tu c ?p os (rb_points block) (note_errors tu os m1) = (Inr (), m2)"
      using b r by (simp add: body_def sbind_def supd_def)
    have "pe_context (mr_events (note_errors tu os m1)) = Some c"
      using note_errors_counted [of m1 tu os] c1 ctx act by (simp add: counted_def)
    from counted_trans [OF note_errors_counted emit_results_counted [OF e this]] Some show ?thesis by simp
  qed
  have cc: "counted (if rs = None then ?k else 0) (if rs = None then 0 else ?k) mr m2" using counted_trans [OF c1 c2] by simp
  from fin obtain n where n: "skipped_after ?p (tu_finished tu) (of_int (rb_poll_interval_ms block) / 1000)
        (if tu_left_context tu \<noteq> Some c then Some (tu_published_at tu) else None) = Inr n"
    and d: "deadlines mr' = (deadlines m2)[i := ?p + of_int (n + 1) * (of_int (rb_poll_interval_ms block) / 1000)]"
    and f: "sb_missed_poll_cycles (mr_buffer mr') = sb_missed_poll_cycles (mr_buffer m2) + nat n * ?k"
      "mr_skipped_polls mr' = mr_skipped_polls m2 + nat n * ?k"
      "sb_captured_events (mr_buffer mr') = sb_captured_events (mr_buffer m2)"
      "pe_context (mr_events mr') = pe_context (mr_events m2)" "mr_active mr' = mr_active m2"
    by (rule finish_turnD)
  have n0: "0 \<le> n" by (rule skipped_nonneg [OF n])
  then have k: "nat (n + 1) * ?k = ?k + nat n * ?k" by (simp add: nat_add_distrib)
  show ?thesis
    by (rule exI [of _ n], rule exI [of _ "(if rs = None then ?k else 0) + nat n * ?k"], rule exI [of _ "if rs = None then 0 else ?k"])
      (use cc d f n n0 k ctx act in \<open>simp add: counted_def\<close>)
qed

definition demo_poller :: poller where
  "demo_poller = \<lparr>mr_device_id = ''D1'', mr_active = Some demo_context,
     mr_blocks = [\<lparr>rb_area = ''holding_register'', rb_address = 0, rb_count = 1, rb_poll_interval_ms = 1000, rb_points = [demo_point ''P1'' ''uint16'' 0]\<rparr>],
     mr_reconnect_at = 0, mr_backoff = 1 / 2, mr_last_error = None, mr_last_good = None, mr_skipped_polls = 0, mr_requests = 0,
     mr_events = demo_events\<lparr>pe_plan_modbus := Some [2], pe_next_nominal := Some [(''P1'', 2)]\<rparr>, mr_buffer = demo_buffer\<rparr>"

definition demo_turn :: turn_env where
  "demo_turn = \<lparr>tu_cap = demo_cap, tu_replies = (\<lambda>_. Response False None 3 [] [7]), tu_released = False, tu_retries = 0, tu_now = 2,
     tu_context = Some demo_context, tu_admitted = True, tu_admitted_context = Some demo_context, tu_failed_at = 2,
     tu_current = Some demo_context, tu_captured = 4, tu_left_context = Some demo_context, tu_published_at = 0, tu_finished = 9 / 2\<rparr>"

text \<open>A slow read: the value is captured two and a half seconds late and two slots are counted as missed.\<close>

theorem poll_slots_conserved_witness:
  "\<exists>mr'. block_turn demo_turn 0 (hd (mr_blocks demo_poller)) 4 demo_poller = (Inr (Some 4), mr') \<and> deadlines mr' = [5]
     \<and> sb_missed_poll_cycles (mr_buffer mr') + sb_captured_events (mr_buffer mr') = 3"
proof -
  let ?b = "hd (mr_blocks demo_poller)"
  let ?r = "block_turn demo_turn 0 ?b 4 demo_poller"
  have rb: "read_block (tu_replies demo_turn) (tu_released demo_turn) (tu_retries demo_turn) ?b 4 0
      = (Inr ([(''P1'', VNum (PyInt 7), GOOD)], 0), 1)"
    by (simp add: demo_turn_def demo_poller_def read_block_def read_raw_def read_once_def check_response_def function_code_def
        demo_point_def width_def decode_def decode_value_def unpack_format_def byte_order_def scaled_def py_slice_def big_endian_def py_mul_def py_add_def)
  let ?p = "demo_point ''P1'' ''uint16'' 0"
  have br: "block_results demo_turn ?b 4 demo_poller = (Inr (Some [(''P1'', VNum (PyInt 7), GOOD)], 0), demo_poller\<lparr>mr_requests := 1\<rparr>)"
    using rb by (simp add: block_results_def demo_turn_def demo_poller_def)
  let ?pr = "point_result demo_cap demo_context ?p (VNum (PyInt 7)) GOOD 2 4 True (mr_events demo_poller) (mr_buffer demo_poller)"
  have pr: "\<not> isl (fst ?pr) \<and> projr (fst ?pr) \<noteq> None \<and> pe_next_nominal (fst (snd ?pr)) \<noteq> None"
    by (simp add: point_result_def demo_poller_def demo_defs emit_eval)
  then obtain s e sb where pr1: "?pr = (Inr (Some s), e, sb)" and pr2: "pe_next_nominal e \<noteq> None"
    by (cases ?pr; cases "fst ?pr") auto
  have f: "mr_active demo_poller = Some demo_context" "deadlines demo_poller = [2]" "rb_points ?b = [?p]" "rb_poll_interval_ms ?b = 1000"
    "pc_point_id ?p = ''P1''" by (simp_all add: demo_poller_def deadlines_def demo_point_def)
  have t: "tu_cap demo_turn = demo_cap" "tu_context demo_turn = Some demo_context" "tu_current demo_turn = Some demo_context"
    "tu_captured demo_turn = 4" "tu_left_context demo_turn = Some demo_context" "tu_finished demo_turn = 9 / 2" by (simp_all add: demo_turn_def)
  have fst: "fst ?r = Inr (Some 4)"
    using pr1 pr2 by (auto simp: block_turn_def br sbind_def sret_def f t supd_def note_errors_def on_events_def dindex_def
        finish_turn_def skipped_after_def ms_def note_missed_def Let_def)
  then obtain mr' where r: "?r = (Inr (Some 4), mr')" by (cases ?r) simp
  have i: "0 < length (deadlines demo_poller)" by (simp add: deadlines_def demo_poller_def)
  have ctx: "pe_context (mr_events demo_poller) = mr_active demo_poller" by (simp add: demo_poller_def demo_events_def fresh_events_def)
  from poll_slots_conserved [OF r ctx i] obtain n missed captured where n: "skipped_after 2 (9 / 2) 1 None = Inr n" "deadlines mr' = [2 + of_int (n + 1)]"
    "nat (n + 1) = missed + captured" "sb_missed_poll_cycles (mr_buffer mr') = sb_missed_poll_cycles demo_buffer + missed"
    "sb_captured_events (mr_buffer mr') = sb_captured_events demo_buffer + captured"
    unfolding f(1) f(2) f(3) f(4) t(5) t(6) by (auto simp: demo_poller_def)
  have "n = 2" using n(1) by (simp add: skipped_after_def ms_def)
  then show ?thesis using n r by (simp add: demo_buffer_def buffer_new_def)
qed

text \<open>The OPC UA reader loses no slot either. In the turn of a due point of the current plan, whatever the node answers
  (a value, a bad status, a value that does not decode, a timeout, a lost session), when the event can be captured then
  exactly one event is captured for the slot, the slots passed over are counted, the next read is the first slot
  after them on the point's grid, and only a lost session ends the run.\<close>

theorem ua_slots_conserved:
  assumes plan: "dindex (ur_next_read ur) (pc_point_id p) = Inr nominal"
    and ctx: "uv_context uv = Some c" "pe_context (ur_events ur) = Some c"
    and out: "ua_outcome p reply = (Inr (val, q), lost)"
    and ok: "point_result (uv_cap uv) c p val q nominal (uv_captured uv) (Some c = uv_current uv) (ur_events ur) (ur_buffer ur) = (Inr s, pe, sb)"
    and pos: "0 < pc_poll_interval_ms p"
  shows "\<exists>n ur'. ua_turn uv reply p ur = (if lost then Inl (ConnectionError ''BAD_CONNECTION'') else Inr (), ur')
      \<and> skipped_after nominal (uv_finished uv) (of_int (pc_poll_interval_ms p) / 1000)
          (if uv_left uv \<noteq> Some c then Some (uv_published_at uv) else None) = Inr n \<and> 0 \<le> n
      \<and> sb_captured_events (ur_buffer ur') = sb_captured_events (ur_buffer ur) + 1
      \<and> sb_missed_poll_cycles (ur_buffer ur') = sb_missed_poll_cycles (ur_buffer ur) + nat n
      \<and> ur_skipped_polls ur' = ur_skipped_polls ur + nat n
      \<and> ur_next_read ur' = dset (pc_point_id p) (nominal + of_int (n + 1) * (of_int (pc_poll_interval_ms p) / 1000)) (ur_next_read ur)"
proof -
  let ?i = "of_int (pc_poll_interval_ms p) / 1000 :: rat"
  let ?r = "if Some c \<noteq> uv_left uv then Some (uv_published_at uv) else None"
  have "ms ?i = pc_poll_interval_ms p" by (simp add: ms_def)
  then obtain n where n: "skipped_after nominal (uv_finished uv) ?i ?r = Inr n"
    using pos by (cases "Some c \<noteq> uv_left uv") (simp_all add: skipped_after_def Let_def)
  define u1 where "u1 = ur\<lparr>ur_events := pe, ur_buffer := sb\<rparr>"
  obtain u2 where pub: "ua_publish uv p val q nominal (Some c) ur = (Inr (), u2)"
    and u2: "ur_next_read u2 = ur_next_read u1" "ur_skipped_polls u2 = ur_skipped_polls u1" "ur_buffer u2 = ur_buffer u1"
    using ok by (cases "Some c \<noteq> uv_current uv"; cases s; cases "q = GOOD") (simp_all add: ua_publish_def u1_def Let_def)
  have "ua_before_read uv ur = (Inr (Some c), ur)" using ctx by (simp add: ua_before_read_def activate_def)
  then have t: "ua_turn uv reply p ur = (case ua_advance uv p nominal (Some c) u2 of (Inl e, ur) \<Rightarrow> (Inl e, ur)
      | (Inr _, ur) \<Rightarrow> (if lost then Inl (ConnectionError ''BAD_CONNECTION'') else Inr (), ur))"
    using plan out pub by (simp add: ua_turn_def sbind_def split: prod.split sum.split)
  define d where "d = dset (pc_point_id p) (nominal + of_int (n + 1) * ?i) (ur_next_read u2)"
  have adv: "ua_advance uv p nominal (Some c) u2 = (Inr (), ua_set_next d (ua_missed (nat n) u2))"
    using n unfolding ua_advance_def Let_def d_def by simp
  have frame: "ur_skipped_polls (ua_set_next d (ua_missed (nat n) u2)) = ur_skipped_polls u2 + nat n"
    "ur_next_read (ua_set_next d (ua_missed (nat n) u2)) = d"
    "sb_missed_poll_cycles (ur_buffer (ua_set_next d (ua_missed (nat n) u2))) = sb_missed_poll_cycles (ur_buffer u2) + nat n"
    "sb_captured_events (ur_buffer (ua_set_next d (ua_missed (nat n) u2))) = sb_captured_events (ur_buffer u2)"
    by (simp_all add: ua_set_next_def ua_missed_def Let_def)
  show ?thesis
    using t adv frame n skipped_nonneg [OF n] point_result_counts [OF ok ctx(2)] u2
    by (intro exI [of _ n] exI [of _ "ua_set_next d (ua_missed (nat n) u2)"]) (auto simp: d_def u1_def)
qed

definition demo_ua :: ua_runner where
  "demo_ua = \<lparr>ur_next_read = [(''P1'', 2)], ur_last_error = None, ur_last_good = None, ur_skipped_polls = 0,
     ur_events = demo_events\<lparr>pe_plan_opcua := Some [(''P1'', 2)], pe_next_nominal := Some [(''P1'', 2)]\<rparr>, ur_buffer = demo_buffer\<rparr>"

definition demo_uv :: ua_env where
  "demo_uv = \<lparr>uv_cap = demo_cap, uv_context = Some demo_context, uv_current = Some demo_context, uv_left = Some demo_context,
     uv_published_at = 0, uv_before = 2, uv_captured = 4, uv_finished = 9 / 2\<rparr>"

text \<open>A session lost in the middle of a late read.\<close>

theorem ua_slots_conserved_witness:
  "\<exists>ur'. ua_turn demo_uv UaConnectionError (demo_point ''P1'' ''uint16'' 0) demo_ua = (Inl (ConnectionError ''BAD_CONNECTION''), ur')
     \<and> ur_next_read ur' = [(''P1'', 5)] \<and> ur_skipped_polls ur' = 2"
proof -
  let ?p = "demo_point ''P1'' ''uint16'' 0"
  let ?pr = "point_result demo_cap demo_context ?p VNone BAD_CONNECTION 2 4 True (ur_events demo_ua) (ur_buffer demo_ua)"
  have pr: "\<not> isl (fst ?pr)" by (simp add: point_result_def demo_ua_def demo_defs emit_eval)
  then obtain s e sb where ok: "?pr = (Inr s, e, sb)" by (cases ?pr; cases "fst ?pr") auto
  have v: "uv_cap demo_uv = demo_cap" "uv_captured demo_uv = 4" "(Some demo_context = uv_current demo_uv) = True"
    "uv_context demo_uv = Some demo_context" "uv_finished demo_uv = 9 / 2" "uv_left demo_uv = Some demo_context" by (simp_all add: demo_uv_def)
  have d: "dindex (ur_next_read demo_ua) (pc_point_id ?p) = Inr 2" "pe_context (ur_events demo_ua) = Some demo_context"
    "pc_poll_interval_ms ?p = 1000" "ur_skipped_polls demo_ua = 0" "ur_next_read demo_ua = [(''P1'', 2)]" "pc_point_id ?p = ''P1''"
    by (simp_all add: demo_ua_def demo_point_def dindex_def demo_events_def fresh_events_def)
  have o: "ua_outcome ?p UaConnectionError = (Inr (VNone, BAD_CONNECTION), True)" by (simp add: ua_outcome_def)
  from ua_slots_conserved [OF d(1) v(4) d(2) o, unfolded v, OF ok] obtain n ur' where
    "ua_turn demo_uv UaConnectionError ?p demo_ua = (Inl (ConnectionError ''BAD_CONNECTION''), ur')"
    "skipped_after 2 (9 / 2) 1 None = Inr n" "ur_skipped_polls ur' = nat n" "ur_next_read ur' = dset ''P1'' (2 + of_int (n + 1)) [(''P1'', 2)]"
    by (auto simp: d)
  moreover from this(2) have "n = 2" by (simp add: skipped_after_def ms_def)
  ultimately show ?thesis by auto
qed

end
