(* ===== verification/Pipeline.thy ===== *)
theory Pipeline
  imports EngineInv OutboxInv
begin

text \<open>
  The report service of \<^verbatim>\<open>reporting/service.py\<close>: \<open>TelemetryPipeline\<close> composes the ingress queue, the report engine, the
  Outbox and its session, which share the boot context and its accounts. Each stretch of a coroutine between two awaits is one
  operation; the storage thread runs a submitted \<open>enqueue\<close> as an operation of its own. Parameters: those of the components, the
  JSON text of a prepared batch, the observer of samples, the admission of the storage worker, clock readings, and
  whether the client accepts a publication.
\<close>

section \<open>State\<close>

record pipe_env =
  pv_engine :: eng_env
  pv_outbox :: outbox_env
  pv_encode :: "telemetry \<Rightarrow> string"
  pv_on_sample :: "(nat \<Rightarrow> Sample \<Rightarrow> bool) option"
  pv_ram_fact :: "nat list \<Rightarrow> bool"

text \<open>\<open>tp_snapshot\<close> and \<open>tp_generation\<close> are the runtime's; the time provider is the one of the store's repository; the boot context is
  kept in the engine and in the buffer, its accounts also in the session. \<open>tp_groups\<close>, \<open>tp_call\<close> and \<open>tp_answer\<close> are
  the local state of \<open>_flush\<close> at its await, \<open>tp_sending\<close> that of \<open>send_loop\<close>. \<open>tp_offered\<close> only records the offers made to the
  client: when, which batch, how large.\<close>

record pipe =
  tp_snapshot :: "ConfigSnapshot option"
  tp_generation :: int
  tp_samples :: SampleBuffer
  tp_engine :: engine
  tp_store :: outbox
  tp_prefer_commit_new :: bool
  tp_groups :: "ReportBatch list \<times> ReportBatch list"
  tp_call :: "(category \<times> ReportBatch \<times> TimeToken option) option"
  tp_answer :: "(category \<times> ReportBatch \<times> bool res) option"
  tp_sending :: "(string \<times> string) option"
  tp_running :: bool
  tp_persisting :: bool
  tp_stop :: bool
  tp_deadline :: "rat option"
  tp_failed :: bool
  tp_last_error :: "string option"
  tp_cache :: "outbox_stats option"
  tp_stats_at :: rat
  tp_enqueue_attempt_failures :: nat
  tp_shutdown_volatile_events :: nat
  tp_shutdown_unsettled_events :: nat
  tp_observed :: nat
  tp_offered :: "(rat \<times> nat) list"

section \<open>Shared objects\<close>

definition with_accounts :: "acct \<Rightarrow> outbox \<Rightarrow> outbox" where
  "with_accounts a ob = ob\<lparr>ob_session := account (\<lambda>_. a) (ob_session ob)\<rparr>"

definition on_engine :: "('a, engine) prog \<Rightarrow> ('a, pipe) prog" where
  "on_engine m p =
     (case m (tp_engine p) of (r, en) \<Rightarrow>
        (r, p\<lparr>tp_engine := en, tp_samples := (tp_samples p)\<lparr>sb_boot := en_boot en\<rparr>,
              tp_store := with_accounts (bt_accounting (en_boot en)) (tp_store p)\<rparr>))"

definition on_samples :: "('a, SampleBuffer) prog \<Rightarrow> ('a, pipe) prog" where
  "on_samples m p =
     (case m (tp_samples p) of (r, sb) \<Rightarrow>
        (r, p\<lparr>tp_samples := sb, tp_engine := (tp_engine p)\<lparr>en_boot := sb_boot sb\<rparr>,
              tp_store := with_accounts (bt_accounting (sb_boot sb)) (tp_store p)\<rparr>))"

definition on_store :: "('a, outbox) prog \<Rightarrow> ('a, pipe) prog" where
  "on_store m p =
     (case m (tp_store p) of (r, ob) \<Rightarrow>
        (r, (case os_accounting (ob_session ob) of None \<Rightarrow> p\<lparr>tp_store := ob\<rparr>
             | Some a \<Rightarrow> p\<lparr>tp_store := ob, tp_engine := eng_account (\<lambda>_. a) (tp_engine p), tp_samples := buf_account (\<lambda>_. a) (tp_samples p)\<rparr>)))"

definition context_accounts :: "(acct \<Rightarrow> acct) \<Rightarrow> (unit, pipe) prog" where
  "context_accounts f = on_engine (supd (eng_account f))"

definition session_incomplete :: "OutboxSession \<Rightarrow> OutboxSession" where
  "session_incomplete os = os\<lparr>os_accounting_complete := False\<rparr>"

section \<open>Construction and start\<close>

text \<open>The session of the context is kept, another owner's pending telemetry is refused.\<close>

definition session_for :: "ProcessBootContext \<Rightarrow> OutboxSession option \<Rightarrow> OutboxSession" where
  "session_for boot old = (case old of Some os \<Rightarrow> os | None \<Rightarrow> session_new (4 * 1024 * 1024) 10000 (Some (bt_accounting boot)))"

definition owner_ok :: "(string \<times> string) option \<Rightarrow> string \<times> string \<Rightarrow> OutboxSession \<Rightarrow> bool" where
  "owner_ok previous owner os \<longleftrightarrow> previous = None \<or> previous = Some owner \<or> os_entries os = [] \<and> os_staged os = []"

definition pipe_of :: "ConfigSnapshot option \<Rightarrow> int \<Rightarrow> SampleBuffer \<Rightarrow> engine \<Rightarrow> outbox \<Rightarrow> pipe" where
  "pipe_of snap gen sb en ob =
     \<lparr>tp_snapshot = snap, tp_generation = gen, tp_samples = sb, tp_engine = en, tp_store = ob, tp_prefer_commit_new = True,
      tp_groups = ([], []), tp_call = None, tp_answer = None, tp_sending = None, tp_running = True, tp_persisting = True, tp_stop = False,
      tp_deadline = None, tp_failed = False, tp_last_error = None, tp_cache = None, tp_stats_at = 0, tp_enqueue_attempt_failures = 0,
      tp_shutdown_volatile_events = 0, tp_shutdown_unsettled_events = 0, tp_observed = 0, tp_offered = []\<rparr>"

text \<open>\<open>__init__\<close> and \<open>start\<close> in one: the store is opened on the file found, the time provider learns its boundary, the
  engine is configured. \<open>boot_id\<close> is the optional argument that must match the context.\<close>

definition load_boundary :: "pipe_env \<Rightarrow> (unit, outbox) prog" where
  "load_boundary env ob =
     (if \<not> platform_time ob then (Inr (), ob)
      else let (basis, lower) = time_boundary ob
           in sbind (ask (load_history_boundary (oe_time (pv_outbox env)) basis lower)) (\<lambda>_. sret ()) ob)"

definition pipe_start :: "pipe_env \<Rightarrow> string \<Rightarrow> string option \<Rightarrow> SampleBuffer \<Rightarrow> OutboxSession option \<Rightarrow> (string \<times> string) option \<Rightarrow> string
    \<Rightarrow> ptime option \<Rightarrow> batch_db sfile option \<Rightarrow> ConfigSnapshot option \<Rightarrow> int \<Rightarrow> rat \<Rightarrow> pipe res" where
  "pipe_start env gateway boot_id sb old previous directory time found snap gen now =
     (let boot = sb_boot sb; os = account (\<lambda>_. bt_accounting boot) (session_for boot old)
      in if boot_id \<noteq> None \<and> boot_id \<noteq> Some (bt_boot_id boot)
         then Inl (ValueError ''Telemetry boot identity does not match its process context'')
         else rbind (engine_new gateway (bt_boot_id boot) boot 32768 (32 * 1024 * 1024)) (\<lambda>en.
           if \<not> owner_ok previous (directory, gateway) os
           then Inl (StoreIdentityError ''Pending telemetry belongs to the previous gateway/directory'')
           else case outbox_open (pv_outbox env) gateway 10000 (64 * 1024 * 1024) 128 os time found of
             (Inr _, _, Some ob) \<Rightarrow>
               (case sbind (on_store (sret ())) (\<lambda>_. sbind (on_store (load_boundary env)) (\<lambda>_.
                       on_engine (configure (pv_engine env) snap now (Some gen)))) (pipe_of snap gen sb en ob) of
                  (Inl e, _) \<Rightarrow> Inl e | (Inr _, p) \<Rightarrow> Inr p)
           | (Inl e, _, _) \<Rightarrow> Inl e
           | _ \<Rightarrow> Inl AssertionError))"

section \<open>Taking events\<close>

text \<open>Under platform time an event whose clock is not the current one loses its claim of valid time.\<close>

definition retimed :: "pipe_env \<Rightarrow> Sample \<Rightarrow> (Sample, pipe) prog" where
  "retimed env s p =
     (if \<not> platform_time (tp_store p) then (Inr s, p)
      else sbind (on_store (ask (snapshot (oe_time (pv_outbox env))))) (\<lambda>current p.
        case current of None \<Rightarrow> (Inr s, p)
        | Some c \<Rightarrow> (if \<not> ts_time_valid c \<or> s_clock_revision s \<noteq> int (ts_clock_revision c)
            then (sample_post_init (s\<lparr>s_time_valid := False, s_time_source := ''HUB_MQTT''\<rparr>), p) else (Inr s, p))) p)"

definition observe :: "pipe_env \<Rightarrow> Sample \<Rightarrow> pipe \<Rightarrow> pipe" where
  "observe env s p =
     (case pv_on_sample env of None \<Rightarrow> p
      | Some f \<Rightarrow>
         (let n = tp_observed p; p = p\<lparr>tp_observed := n + 1\<rparr>
          in if f n s then p
             else p\<lparr>tp_last_error := Some ''TELEMETRY_OBSERVER_FAILED'', tp_failed := True,
                    tp_store := snd (upd_session (\<lambda>os. os\<lparr>os_detail_truncated := True, os_accounting_complete := False\<rparr>) (tp_store p))\<rparr>))"

definition lost_event :: "pipe_env \<Rightarrow> Sample \<Rightarrow> pipe \<Rightarrow> pipe" where
  "lost_event env s p =
     (let lost = identity s \<notin> set (dkeys (en_owned (tp_engine p)));
          f = (\<lambda>sb. buf_account (\<lambda>a. snd (undecided (oe_acct (pv_outbox env)) s ''STORAGE_ERROR'' False a))
             (sb\<lparr>sb_undecided_lost_events := sb_undecided_lost_events sb + (if lost then 1 else 0), sb_accounting_complete := False\<rparr>))
      in snd (on_samples (supd f) p))"

definition discarded_event :: "pipe \<Rightarrow> pipe" where
  "discarded_event p =
     p\<lparr>tp_samples := (tp_samples p)\<lparr>sb_version_discarded_events := sb_version_discarded_events (tp_samples p) + 1,
         sb_undecided_lost_events := sb_undecided_lost_events (tp_samples p) + 1, sb_accounting_complete := False\<rparr>\<rparr>"

text \<open>\<open>_accept\<close>.\<close>

definition accept_event :: "pipe_env \<Rightarrow> Sample \<Rightarrow> (unit, pipe) prog" where
  "accept_event env s =
     sbind (retimed env s) (\<lambda>s p.
       (case on_engine (accept (pv_engine env) s) p of
          (Inl e, q) \<Rightarrow> (Inl e, lost_event env s q)
        | (Inr _, q) \<Rightarrow>
            (Inr (), observe env s (if en_discarded (tp_engine q) \<noteq> en_discarded (tp_engine p) then discarded_event q else q))))"

definition configure_pipe :: "pipe_env \<Rightarrow> rat \<Rightarrow> (unit, pipe) prog" where
  "configure_pipe env now p =
     (if tp_snapshot p = None then (Inr (), p)
      else on_engine (configure (pv_engine env) (tp_snapshot p) now (Some (tp_generation p))) p)"

definition take_event :: "pipe_env \<Rightarrow> (Sample, pipe) prog" where
  "take_event env = on_samples (get_nowait (ee_cap (pv_engine env)))"

text \<open>\<open>_run\<close>: a round up to the wait, the rest of a round whose wait delivered an event (also when the stop came during the wait), and
  one round of the final drain. The ingress task ends when it fails or has drained the queue.\<close>

definition report_failed :: "pipe \<Rightarrow> pipe" where
  "report_failed p =
     (snd (context_accounts (incomplete False False) p))
       \<lparr>tp_last_error := Some ''TELEMETRY_REPORT_FAILED'', tp_failed := True, tp_running := False\<rparr>"

definition guarded_report :: "(unit, pipe) prog \<Rightarrow> pipe \<Rightarrow> pipe" where
  "guarded_report m p = (case m p of (Inl _, p) \<Rightarrow> report_failed p | (Inr _, p) \<Rightarrow> p)"

definition take_configured :: "pipe_env \<Rightarrow> rat \<Rightarrow> (unit, pipe) prog" where
  "take_configured env now = sbind (take_event env) (\<lambda>s. sbind (configure_pipe env now) (\<lambda>_. accept_event env s))"

definition run_round :: "pipe_env \<Rightarrow> rat \<Rightarrow> bool \<Rightarrow> pipe \<Rightarrow> pipe" where
  "run_round env now delivered p =
     (if \<not> tp_running p then p
      else if delivered \<and> sb_queue (tp_samples p) \<noteq> [] then guarded_report (take_configured env now) p
      else if tp_stop p
      then (if sb_queue (tp_samples p) = [] then p\<lparr>tp_running := False\<rparr>
            else guarded_report (sbind (take_event env) (accept_event env)) p)
      else guarded_report (configure_pipe env now) p)"

section \<open>Committing batches\<close>

text \<open>The time stamp of a flush; None when the clock is not fit for enqueueing. A reading that lost its time between the check inside
  \<open>require\<close> and the reading it returns ends the flush here.\<close>

definition flush_stamp :: "pipe_env \<Rightarrow> int \<Rightarrow> (int option, pipe) prog" where
  "flush_stamp env wall =
     sbind (on_store (ask (token (oe_time (pv_outbox env))))) (\<lambda>tok p.
       (case on_store (ask (require_time (oe_time (pv_outbox env)) tok ENQUEUE)) p of
          (Inl (TimeUnavailable _), p) \<Rightarrow> (Inr None, p)
        | (Inl e, p) \<Rightarrow> (Inl e, p)
        | (Inr None, p) \<Rightarrow> (Inr (Some wall), p)
        | (Inr (Some r), p) \<Rightarrow>
            (case (if ts_time_valid r then ts_utc_ms r else ts_system_utc_ms r) of
               None \<Rightarrow> (Inl TypeError, p) | Some t \<Rightarrow> (Inr (Some t), p))))"

definition class_of :: "engine \<Rightarrow> ReportBatch \<Rightarrow> category" where
  "class_of en b = dget_or (en_classes en) (bb_sequence b) New"

text \<open>\<open>_flush\<close> up to its loop.\<close>

definition flush_begin :: "pipe_env \<Rightarrow> rat \<Rightarrow> int \<Rightarrow> bool \<Rightarrow> (unit, pipe) prog" where
  "flush_begin env now wall force =
     sbind (flush_stamp env wall) (\<lambda>stamp.
       case stamp of None \<Rightarrow> sret ()
       | Some t \<Rightarrow> sbind (on_engine (prepare (pv_engine env) now t force)) (\<lambda>batches p.
           (Inr (), p\<lparr>tp_groups := (filter (\<lambda>b. class_of (tp_engine p) b = New) batches, filter (\<lambda>b. class_of (tp_engine p) b = History) batches)\<rparr>)))"

text \<open>The next batch of the loop: from the preferred group unless that is empty.\<close>

definition next_batch :: "bool \<Rightarrow> ReportBatch list \<times> ReportBatch list \<Rightarrow> (category \<times> ReportBatch \<times> (ReportBatch list \<times> ReportBatch list)) option" where
  "next_batch prefer_new groups =
     (case groups of (news, olds) \<Rightarrow>
        (if news = [] \<and> olds = [] then None
         else if (prefer_new \<and> news \<noteq> []) \<or> olds = [] then Some (New, hd news, (tl news, olds))
         else Some (History, hd olds, (news, tl olds))))"

definition past_deadline :: "pipe \<Rightarrow> rat \<Rightarrow> bool" where
  "past_deadline p now = (case tp_deadline p of None \<Rightarrow> False | Some d \<Rightarrow> now \<ge> d)"

text \<open>One round of the loop up to the call of the storage worker, which may be full. The value says whether a call was made.\<close>

definition flush_call :: "pipe_env \<Rightarrow> rat \<Rightarrow> bool \<Rightarrow> (bool, pipe) prog" where
  "flush_call env now full p =
     (if past_deadline p now then (Inr False, p\<lparr>tp_groups := ([], [])\<rparr>)
      else case next_batch (tp_prefer_commit_new p) (tp_groups p) of
        None \<Rightarrow> (Inr False, p)
      | Some (c, b, groups) \<Rightarrow>
          sbind (on_store (ask (token (oe_time (pv_outbox env))))) (\<lambda>tok.
            if full then sbind (context_accounts (acct_add enqueueRejectedAttemptsTotal 1)) (\<lambda>_. sraise WorkerFull)
            else sbind (supd (\<lambda>p. p\<lparr>tp_call := Some (c, b, tok)\<rparr>)) (\<lambda>_. sret True)) (p\<lparr>tp_groups := groups\<rparr>))"

text \<open>The storage thread runs the call.\<close>

definition run_call :: "pipe_env \<Rightarrow> rat \<Rightarrow> pipe \<Rightarrow> pipe" where
  "run_call env wall p =
     (case tp_call p of None \<Rightarrow> p
      | Some (c, b, tok) \<Rightarrow>
         (case on_store (enqueue (pv_outbox env) (pv_encode env (bb_payload b)) (Some wall)
                  (Some \<lparr>av_events = map seq_of (bb_samples b), av_capture_boot = Some (en_boot_id (tp_engine p))\<rparr>) tok) p of
            (r, p) \<Rightarrow> p\<lparr>tp_call := None, tp_answer := Some (c, b, r)\<rparr>))"

text \<open>The rest of the round, with the answer.\<close>

definition flush_settle :: "pipe_env \<Rightarrow> (unit, pipe) prog" where
  "flush_settle env p =
     (case tp_answer p of None \<Rightarrow> (Inr (), p)
      | Some (c, b, r) \<Rightarrow>
         (case r of
            Inl e \<Rightarrow> (Inl e, p\<lparr>tp_answer := None\<rparr>)
          | Inr taken \<Rightarrow>
             (if taken
              then sbind (on_engine (committed (pv_engine env) b)) (\<lambda>_. supd (\<lambda>p. p\<lparr>tp_prefer_commit_new := (c \<noteq> New)\<rparr>)) (p\<lparr>tp_answer := None\<rparr>)
              else (Inr (), p\<lparr>tp_answer := None\<rparr>))))"

text \<open>\<open>_persist\<close>: what an exception of a flush does, the cached statistics, and the end of the task.\<close>

fun retried :: "exn \<Rightarrow> bool" where
  "retried WorkerFull = True"
| "retried (TimeUnavailable _) = True"
| "retried e = is_store_error e"

definition persist_failed :: "exn \<Rightarrow> pipe \<Rightarrow> pipe" where
  "persist_failed e p =
     (let p = p\<lparr>tp_groups := ([], [])\<rparr>
      in if retried e then p\<lparr>tp_enqueue_attempt_failures := tp_enqueue_attempt_failures p + 1\<rparr>
         else (snd (context_accounts (incomplete False False) p))
                \<lparr>tp_last_error := Some ''TELEMETRY_STORE_FAILED'', tp_failed := True, tp_persisting := False\<rparr>)"

definition guarded_persist :: "('a, pipe) prog \<Rightarrow> pipe \<Rightarrow> pipe" where
  "guarded_persist m p = (case m p of (Inl e, p) \<Rightarrow> persist_failed e p | (Inr _, p) \<Rightarrow> p)"

definition refresh_stats :: "pipe_env \<Rightarrow> rat \<Rightarrow> (unit, pipe) prog" where
  "refresh_stats env now p =
     (if now < tp_stats_at p then (Inr (), p)
      else sbind (on_store (stats (pv_outbox env))) (\<lambda>c. supd (\<lambda>p. p\<lparr>tp_cache := Some c, tp_stats_at := now + 1\<rparr>)) p)"

definition persist_done :: "pipe \<Rightarrow> rat \<Rightarrow> bool" where
  "persist_done p now \<longleftrightarrow> (tp_stop p \<and> en_owned (tp_engine p) = [] \<and> \<not> tp_running p) \<or> past_deadline p now"

definition persist_round :: "pipe_env \<Rightarrow> rat \<Rightarrow> int \<Rightarrow> pipe \<Rightarrow> pipe" where
  "persist_round env now wall p =
     (if \<not> tp_persisting p then p
      else if persist_done p now then p\<lparr>tp_persisting := False\<rparr>
      else guarded_persist (flush_begin env now wall (tp_stop p)) p)"

section \<open>Sending\<close>

text \<open>The start of \<open>send_loop\<close> on a new connection.\<close>

definition send_open :: "pipe_env \<Rightarrow> pipe \<Rightarrow> pipe" where
  "send_open env p = snd (on_engine (supd (open_gate (bt_sample_sequence (en_boot (tp_engine p))))) p)"

definition send_open_store :: "nat \<Rightarrow> pipe \<Rightarrow> pipe" where
  "send_open_store watermark p = snd (on_store (upd_session (open_gate_outbox watermark)) p)"

text \<open>A reservation; a storage error, a full worker or an unfit clock count as nothing to send.\<close>

definition send_reserve :: "pipe_env \<Rightarrow> TimeToken option \<Rightarrow> pipe \<Rightarrow> pipe" where
  "send_reserve env tok p =
     (case on_store (Outbox.reserve (pv_outbox env) tok) p of
        (Inr (Some payload), p) \<Rightarrow>
          (case oe_data (pv_outbox env) (ob_gateway (tp_store p)) payload of
             None \<Rightarrow> p | Some w \<Rightarrow> p\<lparr>tp_sending := Some (w_message_id w, payload)\<rparr>)
      | (_, p) \<Rightarrow> p)"

text \<open>The rate is charged again at the hand-off.\<close>

definition sdk_trim :: "rat \<Rightarrow> OutboxSession \<Rightarrow> OutboxSession" where
  "sdk_trim now os = os\<lparr>os_sdk_rate := drop_old_rate now (os_sdk_rate os)\<rparr>"

definition sdk_room :: "rat \<Rightarrow> nat \<Rightarrow> OutboxSession \<Rightarrow> bool" where
  "sdk_room now n os \<longleftrightarrow> now \<ge> os_sdk_next_send os \<and> length (os_sdk_rate os) < 4 \<and> sum_list (map snd (os_sdk_rate os)) + n \<le> 512 * 1024"

definition charge_rate :: "rat \<Rightarrow> nat \<Rightarrow> OutboxSession \<Rightarrow> OutboxSession" where
  "charge_rate now n os = os\<lparr>os_sdk_next_send := now + 1 / 4, os_sdk_rate := os_sdk_rate os @ [(now, n)]\<rparr>"

definition submission_lost :: "pipe_env \<Rightarrow> string \<Rightarrow> pipe \<Rightarrow> pipe" where
  "submission_lost env key p = snd (on_store (submission_failed (pv_outbox env) key) p)"

text \<open>One round of the wait for the rate and, when there is room, the hand-off: nothing is awaited between the check of the clock and the
  client's acceptance. The value is the batch handed over, None while waiting or when the batch was given back.\<close>

definition hand_off :: "pipe_env \<Rightarrow> rat \<Rightarrow> bool \<Rightarrow> bool \<Rightarrow> (string option, pipe) prog" where
  "hand_off env now online taken p =
     (case tp_sending p of None \<Rightarrow> (Inr None, p)
      | Some (key, payload) \<Rightarrow>
         (let p = p\<lparr>tp_store := snd (upd_session (sdk_trim now) (tp_store p))\<rparr>
          in if \<not> sdk_room now (length payload) (ob_session (tp_store p)) then (Inr None, p)
             else let p = p\<lparr>tp_sending := None\<rparr>
             in if tp_stop p \<or> \<not> online then (Inr None, submission_lost env key p)
                else case sbind (on_store (ask (token (oe_time (pv_outbox env))))) (\<lambda>tok.
                       on_store (ask (require_time (oe_time (pv_outbox env)) tok SEND))) p of
                  (Inl (TimeUnavailable _), p) \<Rightarrow> (Inr None, submission_lost env key p)
                | (Inl e, p) \<Rightarrow> (Inl e, p)
                | (Inr _, p) \<Rightarrow>
                    (let p = p\<lparr>tp_store := snd (upd_session (charge_rate now (length payload)) (tp_store p)), tp_offered := tp_offered p @ [(now, length payload)]\<rparr>
                     in if taken
                        then sbind (context_accounts (acct_record (oe_acct (pv_outbox env)) ''sdk_accepted'' [(''messageId'', AStr key)])) (\<lambda>_. sret (Some key)) p
                        else (Inl (PublishRejected []), submission_lost env key p))))"

definition acknowledge_pipe :: "pipe_env \<Rightarrow> string \<Rightarrow> bool \<Rightarrow> (bool, pipe) prog" where
  "acknowledge_pipe env payload full p =
     (case (if full then (Inl WorkerFull, p) else on_store (acknowledge (pv_outbox env) payload) p) of
        (Inl e, p) \<Rightarrow> (if is_store_error e \<or> e = WorkerFull
           then (Inr False, p\<lparr>tp_enqueue_attempt_failures := tp_enqueue_attempt_failures p + 1\<rparr>) else (Inl e, p))
      | (Inr b, p) \<Rightarrow> (Inr b, p))"

section \<open>Diagnostics and closing\<close>

text \<open>The flags of the session reach the accounts when diagnostics are taken.\<close>

definition diagnostics_snapshot :: "nat \<Rightarrow> (acct_snapshot, pipe) prog" where
  "diagnostics_snapshot max_payload p =
     (let os = ob_session (tp_store p)
      in sbind (if os_accounting_complete os then sret () else context_accounts (incomplete False False)) (\<lambda>_.
         sbind (if os_detail_truncated os then context_accounts (incomplete True False) else sret ()) (\<lambda>_.
         sbind (if os_counter_overflow os then context_accounts (incomplete False True) else sret ()) (\<lambda>_.
         on_engine (\<lambda>en. let (snap, a) = snapshot_acct max_payload (bt_accounting (en_boot en)) in (Inr snap, eng_account (\<lambda>_. a) en))))) p)"

definition close_begin :: "rat \<Rightarrow> rat \<Rightarrow> pipe \<Rightarrow> pipe" where
  "close_begin now close_timeout p = (if tp_stop p then p else p\<lparr>tp_stop := True, tp_deadline := Some (now + close_timeout)\<rparr>)"

text \<open>\<open>_finish_close\<close>: once the ingress task has ended, what it left in the queue is decided event by event, failures recorded by
  \<open>accept_event\<close> are passed over. Once the commit task has ended too, what the engine still owns is reported in parts of 256 and given up.\<close>

definition decide_leftover :: "pipe_env \<Rightarrow> pipe \<Rightarrow> pipe" where
  "decide_leftover env p = (if sb_queue (tp_samples p) = [] then p else snd (sbind (take_event env) (accept_event env) p))"

definition report_ram_facts :: "pipe_env \<Rightarrow> pipe \<Rightarrow> pipe" where
  "report_ram_facts env p =
     (if oe_on_fact (pv_outbox env) = None \<or> list_all (\<lambda>part. pv_ram_fact env (map seq_of part)) (chunks 256 (dvals (en_owned (tp_engine p)))) then p
      else p\<lparr>tp_store := snd (upd_session (\<lambda>os. os\<lparr>os_detail_truncated := True\<rparr>) (tp_store p))\<rparr>)"

definition give_up_owned :: "pipe_env \<Rightarrow> (unit, pipe) prog" where
  "give_up_owned env =
     sbind (on_engine (abandon (pv_engine env))) (\<lambda>count p.
       (let p = p\<lparr>tp_shutdown_volatile_events := count\<rparr>;
            p = (if count = 0 then p
                 else p\<lparr>tp_last_error := Some ''TELEMETRY_CLOSE_VOLATILE'',
                        tp_store := snd (upd_session (session_incomplete \<circ> add_fact f_known_unsent count) (tp_store p))\<rparr>)
        in (Inr (), p\<lparr>tp_store := snd (upd_session (\<lambda>os. os\<lparr>os_staged := []\<rparr>) (tp_store p))\<rparr>)))"

definition finish_close :: "pipe_env \<Rightarrow> (unit, pipe) prog" where
  "finish_close env p =
     sbind (give_up_owned env) (\<lambda>_. sbind (on_store (stats (pv_outbox env))) (\<lambda>c. supd (\<lambda>p. p\<lparr>tp_cache := Some c\<rparr>)))
       (report_ram_facts env p)"

text \<open>\<open>_close\<close>: a closing that takes too long leaves its events unsettled.\<close>

definition close_unsettled :: "pipe \<Rightarrow> pipe" where
  "close_unsettled p =
     p\<lparr>tp_last_error := Some ''TELEMETRY_CLOSE_UNSETTLED'', tp_shutdown_unsettled_events := length (en_owned (tp_engine p)),
       tp_store := snd (upd_session session_incomplete (tp_store p))\<rparr>"

definition close_failed :: "pipe \<Rightarrow> pipe" where
  "close_failed p = p\<lparr>tp_last_error := Some ''TELEMETRY_CLOSE_FAILED'', tp_store := snd (upd_session session_incomplete (tp_store p))\<rparr>"

end
