(* ===== verification/PipelineInv.thy ===== *)
theory PipelineInv
  imports Pipeline
begin

text \<open>
  Properties of the report service: events leave the engine only in batches the database holds, or counted when the service closes;
  the hand-off to the client keeps its rate.
\<close>

section \<open>The engine keeps what it owns\<close>

definition owns :: "identity set \<Rightarrow> engine \<Rightarrow> bool" where
  "owns D en \<longleftrightarrow> D \<subseteq> fst ` set (en_owned en)"

lemma owns_cong: "owns D en \<Longrightarrow> en_owned en' = en_owned en \<Longrightarrow> owns D en'"
  by (simp add: owns_def)

lemma same_owned: "(\<And>en. en_owned (snd (m en)) = en_owned en) \<Longrightarrow> keeps (owns D) m"
  by (simp add: keeps_def owns_def)

lemma owned_frames [simp]:
  "en_owned (snd (retain env s en)) = en_owned en" "en_owned (snd (forget env s en)) = en_owned en"
  "en_owned (eng_account f en) = en_owned en" "en_owned (sync en) = en_owned en" "en_owned (load_checkpoint en) = en_owned en"
  "en_owned (open_gate w en) = en_owned en" "en_owned (set_queue c q en) = en_owned en" "en_owned (drop_frozen_batch env b en) = en_owned en"
  by (auto simp: retain_def forget_def eng_account_def sync_def load_checkpoint_def Let_def open_gate_def set_queue_def drop_frozen_batch_def
      split: option.split category.split)

lemma owns_ops [intro!]: "keeps (owns D) (retain env s)" "keeps (owns D) (forget env s)" "keeps (owns D) (forget_baseline env k)"
  "keeps (owns D) (forget_latest env k)" "keeps (owns D) (cyclic_due p s)" "keeps (owns D) (freeze_batch env c b)"
  by (rule same_owned, simp add: forget_baseline_def forget_latest_def split: option.split)+
    (rule same_owned, simp add: cyclic_due_def freeze_batch_def Let_def split: option.split prod.split)+

lemmas owns_intros = keeps_sbind keeps_sret keeps_supd keeps_if sfold_keeps owns_ops

lemma configure_owns: "keeps (owns D) (configure env snap now generation)"
proof (rule keepsI)
  fix en assume o: "owns D en"
  have r: "keeps (owns D) (\<lambda>st. sfold (retain env) (map fst (dvals (en_baselines st))) st)" by (rule keeps_at, intro owns_intros)
  have "keeps (owns D) (sbind (supd (\<lambda>st. st\<lparr>en_cache_reset_points := en_cache_reset_points st + length (en_latest st),
                en_snapshot := snap, en_generation := generation, en_points := points_of snap\<rparr>)) (\<lambda>_.
           sbind (sfold (forget env) latest) (\<lambda>_.
           sbind (sfold (forget env) base) (\<lambda>_.
           sbind (supd (\<lambda>st. load_checkpoint (st\<lparr>en_latest := [], en_shadows := []\<rparr>))) (\<lambda>_.
           sbind (\<lambda>st. sfold (retain env) (map fst (dvals (en_baselines st))) st) (\<lambda>_.
           supd (\<lambda>st. st\<lparr>en_next_batch := now + interval_s snap\<rparr>)))))))" for latest base
    by (intro owns_intros r) (simp_all add: owns_def)
  from keepsD [OF this o] o show "owns D (snd (configure env snap now generation en))"
    by (simp add: configure_def Let_def)
qed

lemma note_owns [intro!]: "keeps (owns D) (note_epoch env s)" "keeps (owns D) (note_latest env s)"
proof -
  show "keeps (owns D) (note_epoch env s)"
  proof (rule keepsI)
    fix en assume o: "owns D en"
    have "keeps (owns D) (sbind (supd (\<lambda>st. st\<lparr>en_epochs := dset k (epoch_of s) (en_epochs st)\<rparr>)) (\<lambda>_. sbind (forget_baseline env k) (\<lambda>_.
        supd (\<lambda>st. st\<lparr>en_shadows := ddel k (en_shadows st), en_next_report_due := dset k (the (s_nominal_origin_mono_ms s)) (en_next_report_due st)\<rparr>))))" for k
      by (intro owns_intros) (simp_all add: owns_def)
    from keepsD [OF this o] o show "owns D (snd (note_epoch env s en))" by (simp add: note_epoch_def Let_def)
  qed
  show "keeps (owns D) (note_latest env s)"
    unfolding note_latest_def
  proof (intro owns_intros keepsI)
    fix en assume o: "owns D en"
    have "owns D (en\<lparr>en_latest := d\<rparr>)" for d using o by (simp add: owns_def)
    from keepsD [OF owns_ops(1) this] o show "owns D (snd (if en_used_bytes en + charge_of env s \<le> int (en_max_bytes en) - Engine.reserve en
       then retain env s (en\<lparr>en_latest := dset (key_of s) s (en_latest en)\<rparr>) else (Inr (), en)))" by simp
  qed
qed

lemma accept_selected_owns [intro!]: "keeps (owns D) (accept_selected env s)"
proof (rule keepsI)
  fix en assume o: "owns D en"
  have "keeps (owns D) (sbind (supd (\<lambda>st. admit_owned s (eng_account f st))) (\<lambda>_. sbind (retain env s) (\<lambda>_. sbind (supd (admit_queue s)) (\<lambda>_. sret True))))" for f
    by (intro owns_intros) (auto simp: owns_def admit_owned_def admit_queue_def Let_def)
  from keepsD [OF this owns_cong [OF o]] o show "owns D (snd (accept_selected env s en))"
    by (auto simp: accept_selected_def Let_def intro: owns_cong [OF o])
qed

lemma accept_owns: "keeps (owns D) (accept env s)"
proof (rule keepsI)
  fix en assume o: "owns D en"
  define body where "body p = sbind (supd (\<lambda>st. st\<lparr>en_seen := dset (key_of s) (seq_of s) (en_seen st)\<rparr>)) (\<lambda>_.
             sbind (note_epoch env s) (\<lambda>_.
             sbind (note_latest env s) (\<lambda>_.
             sbind (\<lambda>st. (Inr (changed p s (baseline (key_of s) st)), st)) (\<lambda>moved.
             sbind (cyclic_due p s) (\<lambda>due.
               if moved \<or> due then accept_selected env s
               else sbind (supd (\<lambda>st. eng_account (\<lambda>a. snd (decided (ce_acct (ee_cap env)) s False False None a))
                      (st\<lparr>en_policy_filtered_events := en_policy_filtered_events st + 1\<rparr>))) (\<lambda>_. sret False))))))" for p
  have b: "keeps (owns D) (body p)" for p
    unfolding body_def by (intro owns_intros note_owns accept_selected_owns) (auto simp: owns_def keeps_def)
  have s: "owns D en' \<Longrightarrow> owns D (sync en')" for en' by (erule owns_cong) simp
  have acc: "owns D (eng_account f (en\<lparr>en_discarded := n\<rparr>))" for f n by (rule owns_cong [OF o]) simp
  have run: "owns D (snd (let (r, st) = body p en in (r, sync st)))" for p
    using keepsD [OF b o] by (simp add: split_beta s)
  show "owns D (snd (accept env s en))"
    unfolding accept_def body_def [symmetric] using o acc run by (simp split: option.split)
qed

lemma freeze_one_owns: "keeps (owns D) (freeze_one env now t)"
proof (rule keepsI)
  fix en assume o: "owns D en"
  have "owns D (snd (freeze_batch env c b (en\<lparr>en_boot := boot\<rparr>)))" for c b boot
    by (rule keepsD [OF owns_ops(6)], rule owns_cong [OF o]) simp
  with o show "owns D (snd (freeze_one env now t en))" by (auto simp: freeze_one_def split: option.split sum.split prod.split)
qed

lemma prepare_loop_owns: "owns D en \<Longrightarrow> owns D (snd (prepare_loop env now t en))"
proof (induction env now t en rule: prepare_loop.induct)
  case (1 env now t en)
  obtain r en1 where f: "freeze_one env now t en = (r, en1)" by fastforce
  have o1: "owns D en1" using keeps_result [OF freeze_one_owns f 1(2)] .
  show ?case
  proof (cases "length (en_frozen en) < 8 \<and> (en_queue en \<noteq> [] \<or> en_history en \<noteq> [])")
    case False
    then show ?thesis using 1(2) by (subst prepare_loop.simps) (simp only: if_False snd_conv)
  next
    case True
    show ?thesis
    proof (cases r)
      case (Inl e)
      then show ?thesis using True f o1 by (subst prepare_loop.simps) simp
    next
      case (Inr q)
      show ?thesis
      proof (cases q)
        case None
        then show ?thesis using True f o1 Inr by (subst prepare_loop.simps) simp
      next
        case (Some b)
        have "owns D (snd (prepare_loop env now t en1))" by (rule 1(1) [OF True f [symmetric] Inr Some o1])
        then show ?thesis using True f Inr Some by (subst prepare_loop.simps) (auto split: prod.split sum.split)
      qed
    qed
  qed
qed

lemma prepare_owns: "keeps (owns D) (prepare env now t force)"
proof (rule keepsI)
  fix en assume o: "owns D en"
  have "owns D (snd (prepare_loop env now t (en\<lparr>en_next_batch := x\<rparr>)))" for x by (rule prepare_loop_owns, rule owns_cong [OF o]) simp
  then have "owns D en1" if "prepare_loop env now t (en\<lparr>en_next_batch := x\<rparr>) = (r, en1)" for x r en1 using that by (metis snd_conv)
  with o show "owns D (snd (prepare env now t force en))" by (auto simp: prepare_def Let_def split: prod.split sum.split)
qed

text \<open>A committed batch takes only its own events away.\<close>

lemma release_owns: "identity s \<notin> D \<Longrightarrow> keeps (owns D) (release env s)"
proof -
  assume s: "identity s \<notin> D"
  have r: "keeps (owns D) (release_owner s)"
    by (rule same_owned) (simp add: release_owner_def Let_def split: option.split)
  show ?thesis unfolding release_def by (intro owns_intros r) (use s in \<open>auto simp: owns_def\<close>)
qed

lemma commit_baseline_owns: "keeps (owns D) (commit_baseline env s)"
proof (rule keepsI)
  fix en assume o: "owns D en"
  have a: "keeps (owns D) (adopt env s)"
    by (rule same_owned) (simp add: adopt_def)
  then have "keeps (owns D) (sbind (forget env old) (\<lambda>_. adopt env s))" for old by (intro owns_intros)
  from keepsD [OF this o] keepsD [OF a o] o show "owns D (snd (commit_baseline env s en))"
    by (auto simp: commit_baseline_def split: option.split)
qed

lemma committed_owns: "D \<inter> identity ` set (bb_samples b) = {} \<Longrightarrow> keeps (owns D) (committed env b)"
proof (rule keepsI)
  fix en assume d: "D \<inter> identity ` set (bb_samples b) = {}" and o: "owns D en"
  have "keeps (owns D) (sfold (\<lambda>s. sbind (commit_baseline env s) (\<lambda>_. release env s)) ss)" if "set ss \<subseteq> set (bb_samples b)" for ss
    using that
  proof (induction ss)
    case (Cons s ss)
    then have "identity s \<notin> D" using d by auto
    then have "keeps (owns D) (sbind (sbind (commit_baseline env s) (\<lambda>_. release env s)) (\<lambda>_. sfold (\<lambda>s. sbind (commit_baseline env s) (\<lambda>_. release env s)) ss))"
      using Cons by (intro keeps_sbind commit_baseline_owns release_owns) auto
    then show ?case by (simp add: keeps_def)
  qed (simp add: keeps_def)
  then have "keeps (owns D) (sbind (supd (drop_frozen_batch env b)) (\<lambda>_. sfold (\<lambda>s. sbind (commit_baseline env s) (\<lambda>_. release env s)) (bb_samples b)))"
    by (intro keeps_sbind keeps_supd) (auto elim: owns_cong)
  from keepsD [OF this o] o show "owns D (snd (committed env b en))"
    by (auto simp: committed_def split_beta elim: owns_cong)
qed

text \<open>Giving up empties the engine and says how many events that were.\<close>

lemma abandon_owns:
  assumes "abandon env en = (r, en')"
  shows "r = Inr (length (en_owned en)) \<and> en_owned en' = [] \<or> en_owned en' = en_owned en"
proof -
  have f: "en_owned (snd (sfold (forget env) ss en1)) = en_owned en1" for ss en1
  proof (induction ss arbitrary: en1)
    case (Cons s ss)
    obtain q en2 where "forget env s en1 = (q, en2)" by fastforce
    then show ?case using Cons owned_frames(2) [of env s en1] by (cases q) (simp_all add: sbind_def)
  qed simp
  define en1 where "en1 = (eng_account (abandon_acct (ce_acct (ee_cap env)) (dvals (en_owned en)) (dkeys (en_frozen en))) en)
      \<lparr>en_known_unsent_events := en_known_unsent_events en + length (en_owned en)\<rparr>"
  obtain q en2 where q: "sfold (forget env) (dvals (en_owned en)) en1 = (q, en2)" by fastforce
  have "en_owned en2 = en_owned en" using f [of "dvals (en_owned en)" en1] q by (simp add: en1_def)
  with assms q show ?thesis by (cases q) (auto simp: abandon_def Let_def sbind_def supd_def sret_def en1_def)
qed

section \<open>What the operations of the service leave alone\<close>

definition store_stays :: "OutboxSession \<Rightarrow> string \<Rightarrow> outbox \<Rightarrow> bool" where
  "store_stays os g ob \<longleftrightarrow> same_sdk os (ob_session ob) \<and> ob_gateway ob = g"

interpretation calm_store: store_frame "store_stays os g" for os g
  by unfold_locales (auto simp: store_stays_def same_sdk_def)

type_synonym answer_slot = "(category \<times> ReportBatch \<times> bool res) option"

definition stays :: "identity set \<Rightarrow> OutboxSession \<Rightarrow> string \<Rightarrow> (rat \<times> nat) list \<Rightarrow> answer_slot set \<Rightarrow> pipe \<Rightarrow> bool" where
  "stays D os g h A p \<longleftrightarrow> owns D (tp_engine p) \<and> store_stays os g (tp_store p) \<and> tp_offered p = h \<and> tp_answer p \<in> A"

lemma with_accounts_stays [simp]: "store_stays os g (with_accounts a ob) = store_stays os g ob"
  by (simp add: with_accounts_def store_stays_def same_sdk_def)

lemma stays_engine: "keeps (owns D) m \<Longrightarrow> keeps (stays D os g h A) (on_engine m)"
  by (auto simp: keeps_def on_engine_def stays_def split: prod.split)

lemma stays_samples: "keeps (stays D os g h A) (on_samples m)"
  by (auto simp: keeps_def on_samples_def stays_def split: prod.split elim: owns_cong)

lemma stays_store: "keeps (store_stays os g) m \<Longrightarrow> keeps (stays D os g h A) (on_store m)"
  by (auto simp: keeps_def on_store_def stays_def split: prod.split option.split elim: owns_cong)

lemma stays_cong: "stays D os g h A p \<Longrightarrow> tp_engine q = tp_engine p \<Longrightarrow> tp_store q = tp_store p \<Longrightarrow> tp_offered q = tp_offered p \<Longrightarrow> tp_answer q = tp_answer p \<Longrightarrow> stays D os g h A q"
  by (simp add: stays_def)

lemma stays_supd: "(\<And>p. tp_engine (f p) = tp_engine p \<and> tp_store (f p) = tp_store p \<and> tp_offered (f p) = tp_offered p \<and> tp_answer (f p) = tp_answer p) \<Longrightarrow> keeps (stays D os g h A) (supd f)"
  by (simp add: keeps_def stays_def)

lemma stays_session:
  "stays D os g h A p \<Longrightarrow> (\<And>os. same_sdk os (f os)) \<Longrightarrow> stays D os g h A (p\<lparr>tp_store := snd (upd_session f (tp_store p))\<rparr>)"
  using keepsD [OF calm_store.session_upd, of f os g "tp_store p"] by (simp add: stays_def)

lemma eng_account_keeps: "keeps (owns D) (supd (eng_account f))"
  by (rule keeps_supd) (erule owns_cong, simp)

lemma stays_accounts: "keeps (stays D os g h A) (context_accounts f)"
  unfolding context_accounts_def by (rule stays_engine [OF eng_account_keeps])

lemmas stays_intros = keeps_sbind keeps_sret keeps_sraise keeps_if stays_samples stays_store stays_accounts stays_engine

lemma ask_stays: "keeps (stays D os g h A) (on_store (ask f))"
  by (rule stays_store [OF calm_store.ask_op])

lemma retimed_stays: "keeps (stays D os g h A) (retimed env s)"
proof (rule keepsI)
  fix p assume p: "stays D os g h A p"
  have "keeps (stays D os g h A) (sbind (on_store (ask (snapshot (oe_time (pv_outbox env))))) (\<lambda>current p.
        case current of None \<Rightarrow> (Inr s, p)
        | Some c \<Rightarrow> (if \<not> ts_time_valid c \<or> s_clock_revision s \<noteq> int (ts_clock_revision c)
            then (sample_post_init (s\<lparr>s_time_valid := False, s_time_source := ''HUB_MQTT''\<rparr>), p) else (Inr s, p))))"
    by (intro keeps_sbind ask_stays keepsI) (auto split: option.split)
  from keepsD [OF this p] p show "stays D os g h A (snd (retimed env s p))" by (simp add: retimed_def)
qed

lemma accept_event_stays: "keeps (stays D os g h A) (accept_event env s)"
  unfolding accept_event_def
proof (intro keeps_sbind retimed_stays keepsI)
  fix s p assume p: "stays D os g h A p"
  obtain r q where r: "on_engine (accept (pv_engine env) s) p = (r, q)" by fastforce
  have q: "stays D os g h A q" using keeps_result [OF stays_engine [OF accept_owns] r p] .
  have "stays D os g h A (lost_event env s q)" unfolding lost_event_def Let_def by (rule keepsD [OF stays_samples q])
  moreover have "stays D os g h A (discarded_event q)" by (rule stays_cong [OF q]) (simp_all add: discarded_event_def)
  moreover have "stays D os g h A (observe env s q)" if "stays D os g h A q" for q
  proof (cases "pv_on_sample env")
    case (Some f)
    have "stays D os g h A (q\<lparr>tp_observed := x\<rparr>)" for x by (rule stays_cong [OF that]) simp_all
    from stays_session [OF this, of "\<lambda>os. os\<lparr>os_detail_truncated := True, os_accounting_complete := False\<rparr>"] this Some
    show ?thesis by (auto simp: observe_def Let_def same_sdk_def stays_def)
  qed (use that in \<open>simp add: observe_def\<close>)
  ultimately show "stays D os g h A (snd (case on_engine (accept (pv_engine env) s) p of
          (Inl e, q) \<Rightarrow> (Inl e, lost_event env s q)
        | (Inr _, q) \<Rightarrow>
            (Inr (), observe env s (if en_discarded (tp_engine q) \<noteq> en_discarded (tp_engine p) then discarded_event q else q))))"
    using r q by (simp split: sum.split)
qed

lemma report_failed_stays: "stays D os g h A p \<Longrightarrow> stays D os g h A (report_failed p)"
  by (rule stays_cong [OF keepsD [OF stays_accounts]]) (simp_all add: report_failed_def)

lemma guarded_report_stays: "keeps (stays D os g h A) m \<Longrightarrow> stays D os g h A p \<Longrightarrow> stays D os g h A (guarded_report m p)"
  by (auto simp: guarded_report_def split: prod.split sum.split intro: report_failed_stays dest: keeps_result)

lemma take_accept_stays: "keeps (stays D os g h A) (sbind (take_event env) (accept_event env))"
  unfolding take_event_def by (intro keeps_sbind stays_samples accept_event_stays)

lemma configure_pipe_stays: "keeps (stays D os g h A) (configure_pipe env now)"
  by (rule keepsI) (simp add: configure_pipe_def keepsD [OF stays_engine [OF configure_owns]])

lemma run_round_stays: "stays D os g h A p \<Longrightarrow> stays D os g h A (run_round env now delivered p)"
proof -
  assume p: "stays D os g h A p"
  have "keeps (stays D os g h A) (take_configured env now)"
    unfolding take_configured_def take_event_def by (intro keeps_sbind stays_samples configure_pipe_stays accept_event_stays)
  from guarded_report_stays [OF this p] guarded_report_stays [OF take_accept_stays p] guarded_report_stays [OF configure_pipe_stays p] p
  show ?thesis by (auto simp: run_round_def elim: stays_cong)
qed

lemma flush_begin_stays: "keeps (stays D os g h A) (flush_begin env now wall force)"
proof -
  have f: "keeps (stays D os g h A) (flush_stamp env wall)"
    unfolding flush_stamp_def
  proof (intro keeps_sbind ask_stays keepsI)
    fix tok p assume p: "stays D os g h A p"
    let ?m = "on_store (ask (require_time (oe_time (pv_outbox env)) tok ENQUEUE))"
    obtain r q where r: "?m p = (r, q)" by fastforce
    have "stays D os g h A q" using keeps_result [OF ask_stays r p] .
    with r show "stays D os g h A (snd (case ?m p of
          (Inl (TimeUnavailable _), p) \<Rightarrow> (Inr None, p)
        | (Inl e, p) \<Rightarrow> (Inl e, p)
        | (Inr None, p) \<Rightarrow> (Inr (Some wall), p)
        | (Inr (Some r), p) \<Rightarrow>
            (case (if ts_time_valid r then ts_utc_ms r else ts_system_utc_ms r) of
               None \<Rightarrow> (Inl TypeError, p) | Some t \<Rightarrow> (Inr (Some t), p))))"
      by (cases r) (auto split: exn.split option.split)
  qed
  have b: "keeps (stays D os g h A) (sbind (on_engine (prepare (pv_engine env) now t force)) (\<lambda>batches p.
           (Inr (), p\<lparr>tp_groups := (filter (\<lambda>b. class_of (tp_engine p) b = New) batches, filter (\<lambda>b. class_of (tp_engine p) b = History) batches)\<rparr>)))" for t
    by (intro keeps_sbind stays_engine prepare_owns keepsI) (simp add: stays_def)
  show ?thesis
    unfolding flush_begin_def by (intro keeps_sbind f keepsI) (auto split: option.split intro: keepsD [OF b] simp: sret_def)
qed

lemma flush_call_stays: "keeps (stays D os g h A) (flush_call env now full)"
proof (rule keepsI)
  fix p assume p: "stays D os g h A p"
  have c: "keeps (stays D os g h A) (sbind (on_store (ask (token (oe_time (pv_outbox env))))) (\<lambda>tok.
            if full then sbind (context_accounts (acct_add enqueueRejectedAttemptsTotal 1)) (\<lambda>_. sraise WorkerFull)
            else sbind (supd (\<lambda>p. p\<lparr>tp_call := Some (c, b, tok)\<rparr>)) (\<lambda>_. sret True)))" for c b
    by (intro keeps_sbind keeps_if ask_stays stays_accounts keeps_sret keeps_sraise stays_supd) simp
  have "stays D os g h A (p\<lparr>tp_groups := x\<rparr>)" for x by (rule stays_cong [OF p]) simp_all
  from keepsD [OF c this] this p show "stays D os g h A (snd (flush_call env now full p))"
    by (auto simp: flush_call_def split: option.split)
qed

lemma run_call_stays:
  assumes p: "stays D os g h A p"
  shows "run_call env wall p = p \<or> (\<exists>c b r. tp_answer (run_call env wall p) = Some (c, b, r)
    \<and> stays D os g h (insert (Some (c, b, r)) A) (run_call env wall p)
    \<and> (r = Inr True \<longrightarrow> (\<exists>w. oe_data (pv_outbox env) g (pv_encode env (bb_payload b)) = Some w
         \<and> stored_payload (rp_db (ob_repo (tp_store (run_call env wall p)))) (w_message_id w) = Some (pv_encode env (bb_payload b)))))"
proof (cases "tp_call p")
  case (Some q)
  obtain c b tok where q: "q = (c, b, tok)" by (metis prod.exhaust)
  let ?m = "enqueue (pv_outbox env) (pv_encode env (bb_payload b)) (Some wall)
                  (Some \<lparr>av_events = map seq_of (bb_samples b), av_capture_boot = Some (en_boot_id (tp_engine p))\<rparr>) tok"
  obtain r u where r: "on_store ?m p = (r, u)" by fastforce
  have u: "stays D os g h A u" using keeps_result [OF stays_store [OF calm_store.enqueue_op] r p] .
  obtain ob where ob: "?m (tp_store p) = (r, ob)" "tp_store u = ob"
    using r by (cases "?m (tp_store p)") (auto simp: on_store_def split: option.splits)
  have run: "run_call env wall p = u\<lparr>tp_call := None, tp_answer := Some (c, b, r)\<rparr>" using Some q r by (simp add: run_call_def)
  have "\<exists>w. oe_data (pv_outbox env) g (pv_encode env (bb_payload b)) = Some w
         \<and> stored_payload (rp_db (ob_repo ob)) (w_message_id w) = Some (pv_encode env (bb_payload b))" if "r = Inr True"
    using enqueue_stores [OF ob(1) [unfolded that]] p by (simp add: stays_def store_stays_def)
  with run u ob show ?thesis by (auto simp: stays_def)
qed (simp add: run_call_def)

lemma flush_settle_stays:
  assumes "stays D os g h A p" "None \<in> A" "\<forall>c b. tp_answer p = Some (c, b, Inr True) \<longrightarrow> D \<inter> identity ` set (bb_samples b) = {}"
  shows "stays D os g h A (snd (flush_settle env p))"
proof -
  have p': "stays D os g h A (p\<lparr>tp_answer := None\<rparr>)" using assms(1,2) by (simp add: stays_def)
  show ?thesis
  proof (cases "\<exists>c b. tp_answer p = Some (c, b, Inr True)")
    case True
    then obtain c b where a: "tp_answer p = Some (c, b, Inr True)" by blast
    have "keeps (stays D os g h A) (sbind (on_engine (committed (pv_engine env) b)) (\<lambda>_. supd (\<lambda>p. p\<lparr>tp_prefer_commit_new := (c \<noteq> New)\<rparr>)))"
      using assms(3) a by (intro keeps_sbind stays_engine committed_owns stays_supd) auto
    from keepsD [OF this p'] a show ?thesis by (simp add: flush_settle_def)
  next
    case False
    then show ?thesis using assms(1) p' by (auto simp: flush_settle_def split: option.split sum.split)
  qed
qed

lemma persist_failed_stays: "stays D os g h A p \<Longrightarrow> stays D os g h A (persist_failed e p)"
proof -
  assume p: "stays D os g h A p"
  have p': "stays D os g h A (p\<lparr>tp_groups := ([], [])\<rparr>)" by (rule stays_cong [OF p]) simp_all
  show ?thesis using p' stays_cong [OF keepsD [OF stays_accounts p']] by (auto simp: persist_failed_def Let_def stays_def)
qed

lemma guarded_persist_stays: "stays D os g h A (snd (m p)) \<Longrightarrow> stays D os g h A (guarded_persist m p)"
  by (auto simp: guarded_persist_def split: prod.split sum.split intro: persist_failed_stays)

lemma persist_round_stays: "stays D os g h A p \<Longrightarrow> stays D os g h A (persist_round env now wall p)"
  using guarded_persist_stays [OF keepsD [OF flush_begin_stays]] by (auto simp: persist_round_def elim: stays_cong)

lemma refresh_stats_stays: "keeps (stays D os g h A) (refresh_stats env now)"
proof -
  have "keeps (stays D os g h A) (sbind (on_store (stats (pv_outbox env))) (\<lambda>c. supd (\<lambda>p. p\<lparr>tp_cache := Some c, tp_stats_at := now + 1\<rparr>)))"
    by (intro keeps_sbind stays_store calm_store.stats_op stays_supd) simp
  from keepsD [OF this] show ?thesis by (auto simp: refresh_stats_def intro!: keepsI)
qed

lemma send_stays:
  assumes p: "stays D os g h A p"
  shows "stays D os g h A (send_open env p)" "stays D os g h A (send_open_store w p)" "stays D os g h A (send_reserve env tok p)"
    "stays D os g h A (submission_lost env key p)"
proof -
  show "stays D os g h A (send_open env p)" unfolding send_open_def
    by (rule keepsD [OF stays_engine p], rule keeps_supd) (erule owns_cong, simp)
  show "stays D os g h A (send_open_store w p)" unfolding send_open_store_def by (rule keepsD [OF stays_store [OF calm_store.open_gate_op] p])
  obtain r q where r: "on_store (Outbox.reserve (pv_outbox env) tok) p = (r, q)" by fastforce
  have q: "stays D os g h A q" using keeps_result [OF stays_store [OF calm_store.reserve_op] r p] .
  then show "stays D os g h A (send_reserve env tok p)"
    using r by (auto simp: send_reserve_def stays_def split: sum.split option.split)
  show "stays D os g h A (submission_lost env key p)" unfolding submission_lost_def
    by (rule keepsD [OF stays_store [OF calm_store.submission_failed_op] p])
qed

lemma acknowledge_pipe_stays: "stays D os g h A p \<Longrightarrow> stays D os g h A (snd (acknowledge_pipe env payload full p))"
proof -
  assume p: "stays D os g h A p"
  obtain r q where r: "on_store (acknowledge (pv_outbox env) payload) p = (r, q)" by fastforce
  have "stays D os g h A q" using keeps_result [OF stays_store [OF calm_store.acknowledge_op] r p] .
  then show ?thesis using r p by (auto simp: acknowledge_pipe_def stays_def split: sum.split)
qed

lemma diagnostics_stays: "keeps (stays D os g h A) (diagnostics_snapshot n)"
proof (rule keepsI)
  fix p assume p: "stays D os g h A p"
  have "keeps (owns D) (\<lambda>en. let (snap, a) = snapshot_acct n (bt_accounting (en_boot en)) in (Inr snap, eng_account (\<lambda>_. a) en))"
    by (rule keepsI) (auto simp: split_beta Let_def elim: owns_cong)
  then have "keeps (stays D os g h A) (sbind (if x then sret () else context_accounts f) (\<lambda>_.
      sbind (if y then context_accounts f2 else sret ()) (\<lambda>_. sbind (if z then context_accounts f3 else sret ()) (\<lambda>_.
         on_engine (\<lambda>en. let (snap, a) = snapshot_acct n (bt_accounting (en_boot en)) in (Inr snap, eng_account (\<lambda>_. a) en))))))" for x y z f f2 f3
    by (intro keeps_sbind keeps_if keeps_sret stays_accounts stays_engine)
  from keepsD [OF this p] show "stays D os g h A (snd (diagnostics_snapshot n p))" by (simp add: diagnostics_snapshot_def Let_def)
qed

lemma close_stays:
  assumes p: "stays D os g h A p"
  shows "stays D os g h A (close_begin now tmo p)" "stays D os g h A (close_unsettled p)" "stays D os g h A (close_failed p)"
    "stays D os g h A (decide_leftover env p)" "stays D os g h A (report_ram_facts env p)"
proof -
  show "stays D os g h A (close_begin now tmo p)" using p by (simp add: close_begin_def stays_def)
  have q: "stays D os g h A (p\<lparr>tp_store := snd (upd_session session_incomplete (tp_store p))\<rparr>)"
    by (rule stays_session [OF p]) (simp add: session_incomplete_def same_sdk_def)
  then show "stays D os g h A (close_unsettled p)" "stays D os g h A (close_failed p)"
    by (simp_all add: close_unsettled_def close_failed_def stays_def)
  show "stays D os g h A (decide_leftover env p)" using p keepsD [OF take_accept_stays] by (simp add: decide_leftover_def)
  have "stays D os g h A (p\<lparr>tp_store := snd (upd_session (\<lambda>os. os\<lparr>os_detail_truncated := True\<rparr>) (tp_store p))\<rparr>)"
    by (rule stays_session [OF p]) (simp add: same_sdk_def)
  then show "stays D os g h A (report_ram_facts env p)" using p by (simp add: report_ram_facts_def)
qed

lemma stats_session: "ob_session (snd (stats env ob)) = ob_session ob"
  by (auto simp: stats_def sbind_def ask_def on_repo_def Let_def split: prod.split sum.split)

definition gives_up :: "pipe \<Rightarrow> bool" where
  "gives_up p \<longleftrightarrow> 0 < tp_shutdown_volatile_events p \<and> \<not> os_accounting_complete (ob_session (tp_store p))"

lemma stats_tail:
  fixes env :: pipe_env
  assumes "stays D os g h A p"
  defines "q \<equiv> snd (sbind (on_store (stats (pv_outbox env))) (\<lambda>c. supd (\<lambda>p. p\<lparr>tp_cache := Some c\<rparr>)) p)"
  shows "stays D os g h A q" "gives_up p \<Longrightarrow> gives_up q"
proof -
  have "keeps (stays D os g h A) (sbind (on_store (stats (pv_outbox env))) (\<lambda>c. supd (\<lambda>p. p\<lparr>tp_cache := Some c\<rparr>)))"
    by (intro keeps_sbind stays_store calm_store.stats_op stays_supd) simp
  from keepsD [OF this assms(1)] show "stays D os g h A q" by (simp add: q_def)
  show "gives_up p \<Longrightarrow> gives_up q" using stats_session [of "pv_outbox env" "tp_store p"]
    by (auto simp: q_def gives_up_def sbind_def supd_def on_store_def split: prod.split sum.split option.split)
qed

lemma finish_close_stays:
  assumes p: "stays D os g h A p"
  shows "stays {} os g h A (snd (finish_close env p)) \<and> (owns D (tp_engine (snd (finish_close env p))) \<or> gives_up (snd (finish_close env p)))"
proof -
  define p1 where "p1 = report_ram_facts env p"
  have p1: "stays D os g h A p1" unfolding p1_def by (intro close_stays p)
  obtain r p2 where a: "on_engine (abandon (pv_engine env)) p1 = (r, p2)" by fastforce
  have "keeps (owns {}) (abandon (pv_engine env))" by (simp add: keeps_def owns_def)
  then have p2: "stays {} os g h A p2" using keeps_result [OF stays_engine a] p1 by (auto simp: stays_def owns_def)
  obtain en where ab: "abandon (pv_engine env) (tp_engine p1) = (r, en)" "tp_engine p2 = en"
    using a by (cases "abandon (pv_engine env) (tp_engine p1)") (auto simp: on_engine_def)
  note ow = abandon_owns [OF ab(1)]
  have d1: "owns D (tp_engine p1)" using p1 by (simp add: stays_def)
  show ?thesis
  proof (cases r)
    case (Inl e)
    then have "owns D (tp_engine p2)" using ow ab(2) owns_cong [OF d1] by auto
    with a Inl p2 show ?thesis by (simp add: finish_close_def p1_def [symmetric] give_up_owned_def sbind_def)
  next
    case (Inr n)
    define f where "f = (if n = 0 then id else session_incomplete \<circ> add_fact f_known_unsent n)"
    define p3 where "p3 = p2\<lparr>tp_shutdown_volatile_events := n, tp_last_error := (if n = 0 then tp_last_error p2 else Some ''TELEMETRY_CLOSE_VOLATILE''),
        tp_store := snd (upd_session (\<lambda>os. (f os)\<lparr>os_staged := []\<rparr>) (tp_store p2))\<rparr>"
    have gv: "give_up_owned env p1 = (Inr (), p3)"
      using a Inr by (simp add: give_up_owned_def sbind_def Let_def p3_def f_def upd_session_def supd_def)
    have sm: "same_sdk os' ((f os')\<lparr>os_staged := []\<rparr>)" for os' by (simp add: f_def session_incomplete_def same_sdk_def)
    have "stays {} os g h A (p2\<lparr>tp_store := snd (upd_session (\<lambda>os. (f os)\<lparr>os_staged := []\<rparr>) (tp_store p2))\<rparr>)"
      by (rule stays_session [OF p2 sm])
    then have p3: "stays {} os g h A p3" by (simp add: stays_def p3_def)
    have fin: "snd (finish_close env p) = snd (sbind (on_store (stats (pv_outbox env))) (\<lambda>c. supd (\<lambda>p. p\<lparr>tp_cache := Some c\<rparr>)) p3)"
      using gv by (simp add: finish_close_def p1_def [symmetric] sbind_def)
    have "owns D (tp_engine p3) \<or> gives_up p3"
    proof (cases "en_owned en = en_owned (tp_engine p1)")
      case True
      then show ?thesis using owns_cong [OF d1] ab(2) by (simp add: p3_def)
    next
      case False
      with ow Inr have "0 < n" by auto
      then show ?thesis by (simp add: gives_up_def p3_def f_def upd_session_def session_incomplete_def)
    qed
    then show ?thesis
    proof
      assume "owns D (tp_engine p3)"
      with p3 have "stays D os g h A p3" by (simp add: stays_def)
      then show ?thesis unfolding fin using stats_tail(1) [where D = D] stats_tail(1) [OF p3] by (auto simp: stays_def)
    next
      assume "gives_up p3"
      then show ?thesis unfolding fin using stats_tail [OF p3] by blast
    qed
  qed
qed

section \<open>The service as a system\<close>

text \<open>A state with the last reading of the loop's clock, which does not go back. Beside the operations of the service, the
  runtime publishes configurations, the runners use the ingress queue, and the owner of the clock moves it.\<close>

inductive pipe_step :: "pipe_env \<Rightarrow> rat \<times> pipe \<Rightarrow> rat \<times> pipe \<Rightarrow> bool" for env where
  pp_runtime: "pipe_step env (t, p) (t, p\<lparr>tp_snapshot := snap, tp_generation := gen\<rparr>)"
| pp_producer: "ingress_step (ee_cap (pv_engine env)) (tp_samples p) sb \<Longrightarrow> pipe_step env (t, p) (t, snd (on_samples (\<lambda>_. (Inr (), sb)) p))"
| pp_clock: "pipe_step env (t, p) (t, p\<lparr>tp_store := (tp_store p)\<lparr>ob_repo := (ob_repo (tp_store p))\<lparr>rp_time := time\<rparr>\<rparr>\<rparr>)"
| pp_run: "t \<le> now \<Longrightarrow> pipe_step env (t, p) (now, run_round env now delivered p)"
| pp_persist: "t \<le> now \<Longrightarrow> tp_call p = None \<Longrightarrow> tp_answer p = None \<Longrightarrow> pipe_step env (t, p) (now, persist_round env now wall p)"
| pp_call: "t \<le> now \<Longrightarrow> tp_call p = None \<Longrightarrow> tp_answer p = None \<Longrightarrow> tp_persisting p \<Longrightarrow> pipe_step env (t, p) (now, guarded_persist (flush_call env now full) p)"
| pp_thread: "pipe_step env (t, p) (t, run_call env wall_s p)"
| pp_settle: "pipe_step env (t, p) (t, guarded_persist (flush_settle env) p)"
| pp_stats: "t \<le> now \<Longrightarrow> tp_call p = None \<Longrightarrow> tp_answer p = None \<Longrightarrow> tp_persisting p \<Longrightarrow> pipe_step env (t, p) (now, guarded_persist (refresh_stats env now) p)"
| pp_open: "pipe_step env (t, p) (t, send_open env p)"
| pp_open_store: "pipe_step env (t, p) (t, send_open_store w p)"
| pp_reserve: "tp_sending p = None \<Longrightarrow> pipe_step env (t, p) (t, send_reserve env tok p)"
| pp_hand_off: "t \<le> now \<Longrightarrow> pipe_step env (t, p) (now, snd (hand_off env now online taken p))"
| pp_acknowledge: "pipe_step env (t, p) (t, snd (acknowledge_pipe env payload full p))"
| pp_diagnostics: "pipe_step env (t, p) (t, snd (diagnostics_snapshot n p))"
| pp_close: "t \<le> now \<Longrightarrow> pipe_step env (t, p) (now, close_begin now tmo p)"
| pp_unsettled: "tp_stop p \<Longrightarrow> pipe_step env (t, p) (t, close_unsettled p)"
| pp_close_failed: "tp_stop p \<Longrightarrow> pipe_step env (t, p) (t, close_failed p)"
| pp_leftover: "tp_stop p \<Longrightarrow> \<not> tp_running p \<Longrightarrow> pipe_step env (t, p) (t, decide_leftover env p)"
| pp_finish: "tp_stop p \<Longrightarrow> \<not> tp_running p \<Longrightarrow> \<not> tp_persisting p \<Longrightarrow> sb_queue (tp_samples p) = [] \<Longrightarrow>
    pipe_step env (t, p) (t, snd (finish_close env p))"

definition pipe_init :: "pipe_env \<Rightarrow> rat \<times> pipe \<Rightarrow> bool" where
  "pipe_init env x \<longleftrightarrow> (\<exists>gateway boot_id sb previous directory time found snap gen now.
     pipe_start env gateway boot_id sb None previous directory time found snap gen now = Inr (snd x) \<and> fst x = now)"

lemma pipe_step_cases:
  assumes "pipe_step env (t, p) (t', p')"
  obtains (calm) "\<And>D os g h A. stays D os g h A p \<Longrightarrow> stays D os g h A p'" "t \<le> t'"
  | (thread) wall where "p' = run_call env wall p" "t' = t"
  | (settle) "p' = guarded_persist (flush_settle env) p" "t' = t"
  | (hand) online taken where "p' = snd (hand_off env t' online taken p)" "t \<le> t'"
  | (finish) "tp_stop p" "p' = snd (finish_close env p)" "t' = t"
  using assms
proof (cases rule: pipe_step.cases)
  case (pp_runtime snap gen)
  then show ?thesis by (intro calm) (simp_all add: stays_def)
next
  case (pp_producer sb)
  then show ?thesis by (intro calm) (simp_all add: keepsD [OF stays_samples])
next
  case (pp_clock time)
  then show ?thesis by (intro calm) (simp_all add: stays_def store_stays_def)
next
  case pp_run
  then show ?thesis by (intro calm) (simp_all add: run_round_stays)
next
  case (pp_persist wall)
  then show ?thesis by (intro calm) (simp_all add: persist_round_stays)
next
  case (pp_call full)
  then show ?thesis by (intro calm) (simp_all add: guarded_persist_stays keepsD [OF flush_call_stays])
next
  case (pp_stats)
  then show ?thesis by (intro calm) (simp_all add: guarded_persist_stays keepsD [OF refresh_stats_stays])
next
  case pp_diagnostics
  then show ?thesis by (intro calm) (simp_all add: keepsD [OF diagnostics_stays])
next
  case pp_acknowledge
  then show ?thesis by (intro calm) (simp_all add: acknowledge_pipe_stays)
next
  case pp_finish
  then show ?thesis by (intro finish) simp_all
qed (auto intro: calm thread settle hand finish simp: send_stays close_stays)

section \<open>Events leave the engine in stored batches\<close>

text \<open>The batch is in the database of a state, byte for byte, under the id it carries.\<close>

definition holds_batch :: "pipe_env \<Rightarrow> pipe \<Rightarrow> ReportBatch \<Rightarrow> bool" where
  "holds_batch env p b \<longleftrightarrow> (\<exists>w. oe_data (pv_outbox env) (ob_gateway (tp_store p)) (pv_encode env (bb_payload b)) = Some w
     \<and> stored_payload (rp_db (ob_repo (tp_store p))) (w_message_id w) = Some (pv_encode env (bb_payload b)))"

definition was_stored :: "pipe_env \<Rightarrow> rat \<times> pipe \<Rightarrow> rat \<times> pipe \<Rightarrow> ReportBatch \<Rightarrow> bool" where
  "was_stored env x y b \<longleftrightarrow> (\<exists>z. (pipe_step env)\<^sup>*\<^sup>* x z \<and> (pipe_step env)\<^sup>*\<^sup>* z y \<and> holds_batch env (snd z) b)"

lemma was_stored_step: "was_stored env x y b \<Longrightarrow> pipe_step env y z \<Longrightarrow> was_stored env x z b"
  unfolding was_stored_def by (meson rtranclp.rtrancl_into_rtrancl)

definition still :: "pipe \<Rightarrow> pipe \<Rightarrow> bool" where
  "still p q \<longleftrightarrow> (\<forall>D os g h A. stays D os g h A p \<longrightarrow> stays D os g h A q)"

lemma stillD:
  assumes "still p q"
  shows "os_sdk_rate (ob_session (tp_store q)) = os_sdk_rate (ob_session (tp_store p))"
    "os_sdk_next_send (ob_session (tp_store q)) = os_sdk_next_send (ob_session (tp_store p))"
    "ob_gateway (tp_store q) = ob_gateway (tp_store p)" "tp_offered q = tp_offered p" "tp_answer q = tp_answer p"
    "owns D (tp_engine p) \<Longrightarrow> owns D (tp_engine q)"
proof -
  have s: "stays D (ob_session (tp_store q)) (ob_gateway (tp_store p)) (tp_offered p) {tp_answer p} q"
    if "stays D (ob_session (tp_store q)) (ob_gateway (tp_store p)) (tp_offered p) {tp_answer p} p" for D
    using assms that by (simp add: still_def)
  have "stays {} (ob_session (tp_store p)) (ob_gateway (tp_store p)) (tp_offered p) {tp_answer p} p"
    by (simp add: stays_def store_stays_def owns_def)
  then have "stays {} (ob_session (tp_store p)) (ob_gateway (tp_store p)) (tp_offered p) {tp_answer p} q" using assms by (simp add: still_def)
  then show "os_sdk_rate (ob_session (tp_store q)) = os_sdk_rate (ob_session (tp_store p))"
    "os_sdk_next_send (ob_session (tp_store q)) = os_sdk_next_send (ob_session (tp_store p))"
    "ob_gateway (tp_store q) = ob_gateway (tp_store p)" "tp_offered q = tp_offered p" "tp_answer q = tp_answer p"
    by (simp_all add: stays_def store_stays_def same_sdk_def)
  assume "owns D (tp_engine p)"
  then have "stays D (ob_session (tp_store p)) (ob_gateway (tp_store p)) (tp_offered p) {tp_answer p} p"
    by (simp add: stays_def store_stays_def)
  then have "stays D (ob_session (tp_store p)) (ob_gateway (tp_store p)) (tp_offered p) {tp_answer p} q" using assms by (simp add: still_def)
  then show "owns D (tp_engine q)" by (simp add: stays_def)
qed

lemma stillI: "(\<And>D os g h A. stays D os g h A p \<Longrightarrow> stays D os g h A q) \<Longrightarrow> still p q"
  by (simp add: still_def)

lemma still_refl [simp]: "still p p"
  by (simp add: still_def)

lemma still_trans: "still p q \<Longrightarrow> still q u \<Longrightarrow> still p u"
  by (simp add: still_def)

text \<open>The hand-off, seen from the rate: nothing was offered, or one payload for which there was room.\<close>

definition trimmed :: "rat \<Rightarrow> pipe \<Rightarrow> pipe" where
  "trimmed now p = p\<lparr>tp_store := snd (upd_session (sdk_trim now) (tp_store p))\<rparr>"

definition offered :: "rat \<Rightarrow> nat \<Rightarrow> pipe \<Rightarrow> pipe" where
  "offered now n p = p\<lparr>tp_store := snd (upd_session (charge_rate now n) (tp_store p)), tp_offered := tp_offered p @ [(now, n)]\<rparr>"

lemma hand_off_cases:
  "snd (hand_off env now online taken p) = p \<or> still (trimmed now p) (snd (hand_off env now online taken p))
   \<or> (\<exists>n u. sdk_room now n (ob_session (tp_store (trimmed now p))) \<and> still (trimmed now p) u
        \<and> still (offered now n u) (snd (hand_off env now online taken p)))"
proof (cases "tp_sending p")
  case None
  then show ?thesis by (simp add: hand_off_def)
next
  case (Some sending)
  obtain key payload where k: "sending = (key, payload)" by fastforce
  define p2 where "p2 = (trimmed now p)\<lparr>tp_sending := None\<rparr>"
  have s2: "still (trimmed now p) p2" by (rule stillI) (simp add: p2_def stays_def)
  have lost: "still u (submission_lost env key u)" for u by (rule stillI) (rule send_stays(4))
  let ?room = "sdk_room now (length payload) (ob_session (tp_store (trimmed now p)))"
  let ?ask = "sbind (on_store (ask (token (oe_time (pv_outbox env))))) (\<lambda>tok. on_store (ask (require_time (oe_time (pv_outbox env)) tok SEND)))"
  let ?run = "case ?ask p2 of
                  (Inl (TimeUnavailable _), p) \<Rightarrow> (Inr None, submission_lost env key p)
                | (Inl e, p) \<Rightarrow> (Inl e, p)
                | (Inr _, p) \<Rightarrow>
                    (let p = offered now (length payload) p
                     in if taken
                        then sbind (context_accounts (acct_record (oe_acct (pv_outbox env)) ''sdk_accepted'' [(''messageId'', AStr key)])) (\<lambda>_. sret (Some key)) p
                        else (Inl (PublishRejected []), submission_lost env key p))"
  have h: "hand_off env now online taken p = (if \<not> ?room then (Inr None, trimmed now p)
      else if tp_stop p2 \<or> \<not> online then (Inr None, submission_lost env key p2) else ?run)"
    using Some k by (simp only: hand_off_def trimmed_def p2_def offered_def Let_def option.case prod.case)
  obtain r u where r: "?ask p2 = (r, u)" by fastforce
  have ka: "keeps (stays D os g h A) ?ask" for D os g h A by (intro keeps_sbind ask_stays)
  have su: "still p2 u" by (rule stillI) (rule keeps_result [OF ka r])
  have run: "still p2 (snd ?run) \<or> still (offered now (length payload) u) (snd ?run)"
  proof (cases r)
    case (Inl e)
    have "still p2 (submission_lost env key u)" using still_trans [OF su lost] .
    with r Inl su show ?thesis by (cases e) simp_all
  next
    case (Inr x)
    have rec: "keeps (stays D os g h A) (sbind (context_accounts f) (\<lambda>_. sret y))" for D os g h A f and y :: "string option"
      by (intro keeps_sbind stays_accounts keeps_sret)
    have "still v (snd (sbind (context_accounts f) (\<lambda>_. sret y) v))" for f v and y :: "string option"
      by (rule stillI) (rule keepsD [OF rec])
    with r Inr lost show ?thesis by (simp add: Let_def)
  qed
  show ?thesis
  proof (cases "?room \<and> \<not> (tp_stop p2 \<or> \<not> online)")
    case True
    then have "hand_off env now online taken p = ?run" unfolding h by simp
    with run True still_trans [OF s2] still_trans [OF s2 su] show ?thesis by metis
  next
    case False
    then have "snd (hand_off env now online taken p) = trimmed now p \<or> snd (hand_off env now online taken p) = submission_lost env key p2"
      unfolding h by auto
    with still_trans [OF s2 lost] show ?thesis by auto
  qed
qed

lemma hand_off_owns: "owns D (tp_engine p) \<Longrightarrow> owns D (tp_engine (snd (hand_off env now online taken p)))"
    "tp_answer (snd (hand_off env now online taken p)) = tp_answer p"
proof -
  let ?q = "snd (hand_off env now online taken p)"
  have t: "tp_engine (trimmed now p) = tp_engine p" "tp_answer (trimmed now p) = tp_answer p"
    "tp_engine (offered now n u) = tp_engine u" "tp_answer (offered now n u) = tp_answer u" for n u by (simp_all add: trimmed_def offered_def)
  consider "?q = p" | "still (trimmed now p) ?q" | n u where "still (trimmed now p) u" "still (offered now n u) ?q"
    using hand_off_cases [of env now online taken p] by blast
  then have "(owns D (tp_engine p) \<longrightarrow> owns D (tp_engine ?q)) \<and> tp_answer ?q = tp_answer p"
  proof cases
    case 2
    from stillD(5,6) [OF this] t show ?thesis by metis
  next
    case 3
    from stillD(5,6) [OF 3(1)] stillD(5,6) [OF 3(2)] t show ?thesis by metis
  qed simp
  then show "owns D (tp_engine p) \<Longrightarrow> owns D (tp_engine ?q)" "tp_answer ?q = tp_answer p" by simp_all
qed

text \<open>An answer that a batch was accepted comes from a state in which the database held it.\<close>

definition answers_true :: "pipe_env \<Rightarrow> rat \<times> pipe \<Rightarrow> rat \<times> pipe \<Rightarrow> bool" where
  "answers_true env x y \<longleftrightarrow> (\<forall>c b. tp_answer (snd y) = Some (c, b, Inr True) \<longrightarrow> was_stored env x y b)"

lemma guarded_persist_answer: "tp_answer (guarded_persist (flush_settle env) p) = None"
proof -
  let ?A = "{None :: answer_slot}"
  have "tp_answer (snd (flush_settle env p)) = None"
  proof -
    have "keeps (stays {} os g h ?A) (sbind (on_engine (committed (pv_engine env) b)) (\<lambda>_. supd (\<lambda>p. p\<lparr>tp_prefer_commit_new := (c \<noteq> New)\<rparr>)))" for os g h b c
      by (intro keeps_sbind stays_engine committed_owns stays_supd) auto
    from keepsD [OF this, of "ob_session (tp_store p)" "ob_gateway (tp_store p)" "tp_offered p" "p\<lparr>tp_answer := None\<rparr>"]
    have "tp_answer (snd (sbind (on_engine (committed (pv_engine env) b)) (\<lambda>_. supd (\<lambda>p. p\<lparr>tp_prefer_commit_new := (c \<noteq> New)\<rparr>)) (p\<lparr>tp_answer := None\<rparr>))) = None" for b c
      by (simp add: stays_def owns_def store_stays_def)
    then show ?thesis by (auto simp: flush_settle_def split: option.split sum.split)
  qed
  moreover have "tp_answer (persist_failed e q) = tp_answer q" for e q
    by (simp add: persist_failed_def Let_def context_accounts_def on_engine_def supd_def)
  ultimately show ?thesis by (auto simp: guarded_persist_def split: prod.split sum.split)
qed

lemma answers_true_step:
  assumes st: "(pipe_step env)\<^sup>*\<^sup>* x y" "pipe_step env y z" and ok: "answers_true env x y"
  shows "answers_true env x z"
proof -
  obtain t p t' p' where yz: "y = (t, p)" "z = (t', p')" by (metis prod.exhaust)
  have same: ?thesis if "tp_answer p' = tp_answer p"
    using ok was_stored_step [OF _ st(2)] that yz by (simp add: answers_true_def)
  have self: "stays {} (ob_session (tp_store p)) (ob_gateway (tp_store p)) (tp_offered p) {tp_answer p} p"
    by (simp add: stays_def store_stays_def owns_def)
  show ?thesis using st(2) [unfolded yz]
  proof (cases rule: pipe_step_cases)
    case calm
    from calm(1) [OF self] show ?thesis by (intro same) (simp add: stays_def)
  next
    case (thread wall)
    from run_call_stays [OF self, of env wall] show ?thesis
    proof
      assume "run_call env wall p = p" with thread show ?thesis by (intro same) simp
    next
      assume a: "\<exists>c b r. tp_answer (run_call env wall p) = Some (c, b, r)
        \<and> stays {} (ob_session (tp_store p)) (ob_gateway (tp_store p)) (tp_offered p) (insert (Some (c, b, r)) {tp_answer p}) (run_call env wall p)
        \<and> (r = Inr True \<longrightarrow> (\<exists>w. oe_data (pv_outbox env) (ob_gateway (tp_store p)) (pv_encode env (bb_payload b)) = Some w
             \<and> stored_payload (rp_db (ob_repo (tp_store (run_call env wall p)))) (w_message_id w) = Some (pv_encode env (bb_payload b))))"
      then have "holds_batch env p' b" if "tp_answer p' = Some (c, b, Inr True)" for c b
        using that thread(1) by (auto simp: holds_batch_def stays_def store_stays_def)
      then have "was_stored env x z b" if "tp_answer p' = Some (c, b, Inr True)" for c b
        unfolding was_stored_def using that st yz by (intro exI [of _ z]) auto
      then show ?thesis using yz by (simp add: answers_true_def)
    qed
  next
    case settle
    then show ?thesis using guarded_persist_answer yz by (simp add: answers_true_def)
  next
    case (hand online taken)
    then show ?thesis by (intro same) (simp add: hand_off_owns)
  next
    case finish
    from finish_close_stays [OF self, of env] finish show ?thesis by (intro same) (simp add: stays_def)
  qed
qed

lemma start_answer:
  assumes "pipe_init env x"
  shows "tp_answer (snd x) = None \<and> tp_offered (snd x) = [] \<and> os_sdk_rate (ob_session (tp_store (snd x))) = []"
proof -
  obtain gateway boot_id sb previous directory time found sn gen now where
    s: "pipe_start env gateway boot_id sb None previous directory time found sn gen now = Inr (snd x)"
    using assms by (auto simp: pipe_init_def)
  let ?os = "account (\<lambda>_. bt_accounting (sb_boot sb)) (session_for (sb_boot sb) None)"
  obtain en where en: "engine_new gateway (bt_boot_id (sb_boot sb)) (sb_boot sb) 32768 (32 * 1024 * 1024) = Inr en"
    using s by (auto simp: pipe_start_def Let_def rbind_Inr_iff split: if_splits)
  obtain u os' ob where ob: "outbox_open (pv_outbox env) gateway 10000 (64 * 1024 * 1024) 128 ?os time found = (Inr u, os', Some ob)"
    and st: "\<exists>r. sbind (on_store (sret ())) (\<lambda>_. sbind (on_store (load_boundary env)) (\<lambda>_.
                       on_engine (configure (pv_engine env) sn now (Some gen)))) (pipe_of sn gen sb en ob) = (Inr r, snd x)"
    using s en by (auto simp: pipe_start_def Let_def split: if_splits prod.splits sum.splits option.splits)
  have r0: "os_sdk_rate ?os = []" by (simp add: session_for_def session_new_def)
  have "os_sdk_rate (ob_session ob) = []"
  proof -
    obtain st0 where st0: "attach_outbox (pv_outbox env) st0 = (Inr (), ob)" "os_sdk_rate (ob_session st0) = []"
      using ob r0 by (auto simp: outbox_open_def Let_def split: if_splits sum.splits prod.splits)
    have "store_stays (ob_session st0) (ob_gateway st0) ob"
      by (rule keeps_result [OF calm_store.attach_op st0(1)]) (simp add: store_stays_def)
    with st0(2) show ?thesis by (simp add: store_stays_def same_sdk_def)
  qed
  then have p0: "stays {} (ob_session ob) (ob_gateway ob) [] {None} (pipe_of sn gen sb en ob)" "os_sdk_rate (ob_session ob) = []"
    by (simp_all add: stays_def store_stays_def owns_def pipe_of_def)
  have lb: "keeps (store_stays os g) (load_boundary env)" for os g
  proof (rule keepsI)
    fix o1 assume "store_stays os g o1"
    moreover have "keeps (store_stays os g) (sbind (ask f) (\<lambda>_. sret ()))" for f :: "ptime \<Rightarrow> unit res \<times> ptime"
      by (intro keeps_sbind calm_store.ask_op keeps_sret)
    ultimately show "store_stays os g (snd (load_boundary env o1))" by (auto simp: load_boundary_def split_beta Let_def dest: keepsD)
  qed
  have k: "keeps (stays {} (ob_session ob) (ob_gateway ob) [] {None}) (sbind (on_store (sret ())) (\<lambda>_. sbind (on_store (load_boundary env)) (\<lambda>_.
                       on_engine (configure (pv_engine env) sn now (Some gen)))))"
    by (intro keeps_sbind stays_store keeps_sret lb stays_engine configure_owns)
  from st obtain r where "sbind (on_store (sret ())) (\<lambda>_. sbind (on_store (load_boundary env)) (\<lambda>_.
                       on_engine (configure (pv_engine env) sn now (Some gen)))) (pipe_of sn gen sb en ob) = (Inr r, snd x)" by blast
  from keeps_result [OF k this p0(1)] p0(2) show ?thesis by (simp add: stays_def store_stays_def same_sdk_def)
qed

lemma reachable_answers: "(pipe_step env)\<^sup>*\<^sup>* x y \<Longrightarrow> pipe_init env x \<Longrightarrow> answers_true env x y"
proof (induction rule: rtranclp_induct)
  case base
  then show ?case using start_answer by (simp add: answers_true_def)
next
  case (step y z)
  then show ?case by (blast intro: answers_true_step)
qed


section \<open>The rate of the hand-off\<close>

text \<open>Offers of at least a quarter of a second apart, at most four and half a MiB in less than a second.\<close>

definition paced :: "(rat \<times> nat) list \<Rightarrow> bool" where
  "paced h \<longleftrightarrow> sorted_wrt (\<lambda>a b. fst a + 1 / 4 \<le> fst b) h
     \<and> (\<forall>xs ys zs. h = xs @ ys @ zs \<longrightarrow> ys \<noteq> [] \<longrightarrow> fst (last ys) < fst (hd ys) + 1 \<longrightarrow> length ys \<le> 4 \<and> sum_list (map snd ys) \<le> 512 * 1024)"

lemma paced_snoc:
  assumes h: "paced (old @ rate)" and old: "\<forall>a \<in> set old. fst a + 1 \<le> now" and gap: "\<forall>a \<in> set (old @ rate). fst a + 1 / 4 \<le> now"
    and room: "length rate < 4" "sum_list (map snd rate) + n \<le> 512 * 1024"
  shows "paced ((old @ rate) @ [(now, n)])"
  unfolding paced_def
proof (intro conjI allI impI)
  show "sorted_wrt (\<lambda>a b. fst a + 1 / 4 \<le> fst b) ((old @ rate) @ [(now, n)])"
    using h gap by (simp add: paced_def sorted_wrt_append)
  fix xs ys zs assume eq: "(old @ rate) @ [(now, n)] = xs @ ys @ zs" and ne: "ys \<noteq> []" and near: "fst (last ys) < fst (hd ys) + 1"
  have "length ys \<le> 4 \<and> sum_list (map snd ys) \<le> 512 * 1024"
  proof (cases zs rule: rev_cases)
    case (snoc zs' z)
    then have "old @ rate = xs @ ys @ zs'" using eq by simp
    with h ne near show ?thesis by (auto simp: paced_def)
  next
    case Nil
    obtain ys' y where y: "ys = ys' @ [y]" using ne by (cases ys rule: rev_cases) auto
    with eq Nil have e: "y = (now, n)" "old @ rate = xs @ ys'" by simp_all
    have "\<exists>us. rate = us @ ys'"
    proof (cases ys')
      case (Cons a as)
      then have a: "now < fst a + 1" using near y e(1) by simp
      from e(2) consider us where "xs = old @ us" "rate = us @ ys'" | us where "old = xs @ us" "ys' = us @ rate"
        by (auto simp: append_eq_append_conv2)
      then show ?thesis
      proof cases
        case 2
        then have "us = []" using old a Cons by (cases us) auto
        with 2 show ?thesis by simp
      qed blast
    qed simp
    then obtain us where "rate = us @ ys'" ..
    with room y e(1) show ?thesis by auto
  qed
  then show "length ys \<le> 4" "sum_list (map snd ys) \<le> 512 * 1024" by simp_all
qed

lemma drop_old_split: "\<exists>gone. rate = gone @ drop_old_rate now rate \<and> (\<forall>a \<in> set gone. fst a + 1 \<le> now)"
proof (induction rate)
  case (Cons a rate)
  obtain s n where a: "a = (s, n)" by fastforce
  from Cons obtain gone where g: "rate = gone @ drop_old_rate now rate" "\<forall>a \<in> set gone. fst a + 1 \<le> now" by blast
  show ?case
  proof (cases "now - s \<ge> 1")
    case True
    then show ?thesis using g a by (intro exI [of _ "a # gone"]) auto
  qed (use a in auto)
qed simp

definition offers_ok :: "rat \<times> pipe \<Rightarrow> bool" where
  "offers_ok y \<longleftrightarrow> (\<exists>old. tp_offered (snd y) = old @ os_sdk_rate (ob_session (tp_store (snd y))) \<and> (\<forall>a \<in> set old. fst a + 1 \<le> fst y))
     \<and> paced (tp_offered (snd y)) \<and> (\<forall>a \<in> set (tp_offered (snd y)). fst a + 1 / 4 \<le> os_sdk_next_send (ob_session (tp_store (snd y))))"

lemma offers_ok_same:
  assumes "offers_ok (t, p)" "t \<le> t'" "tp_offered p' = tp_offered p"
    and "os_sdk_rate (ob_session (tp_store p')) \<in> {os_sdk_rate (ob_session (tp_store p)), drop_old_rate t' (os_sdk_rate (ob_session (tp_store p)))}"
    and "os_sdk_next_send (ob_session (tp_store p')) = os_sdk_next_send (ob_session (tp_store p))"
  shows "offers_ok (t', p')"
proof -
  let ?rate = "os_sdk_rate (ob_session (tp_store p))"
  obtain old where old: "tp_offered p = old @ ?rate" "\<forall>a \<in> set old. fst a + 1 \<le> t" using assms(1) by (auto simp: offers_ok_def)
  obtain gone where gone: "?rate = gone @ drop_old_rate t' ?rate" "\<forall>a \<in> set gone. fst a + 1 \<le> t'" using drop_old_split by blast
  have o: "\<forall>a \<in> set old. fst a + 1 \<le> t'" using old(2) assms(2) by fastforce
  have "\<exists>old. tp_offered p' = old @ os_sdk_rate (ob_session (tp_store p')) \<and> (\<forall>a \<in> set old. fst a + 1 \<le> t')"
  proof (cases "os_sdk_rate (ob_session (tp_store p')) = ?rate")
    case True
    then show ?thesis using old(1) o assms(3) by auto
  next
    case False
    then have "os_sdk_rate (ob_session (tp_store p')) = drop_old_rate t' ?rate" using assms(4) by simp
    then show ?thesis using old(1) o gone assms(3) by (intro exI [of _ "old @ gone"]) auto
  qed
  then show ?thesis using assms(1,3,5) by (simp add: offers_ok_def)
qed

lemma offers_ok_charge:
  assumes ok: "offers_ok (t, p)" and room: "sdk_room t n (ob_session (tp_store p))"
  shows "offers_ok (t, offered t n p)"
proof -
  let ?os = "ob_session (tp_store p)"
  obtain old where old: "tp_offered p = old @ os_sdk_rate ?os" "\<forall>a \<in> set old. fst a + 1 \<le> t" using ok by (auto simp: offers_ok_def)
  have nx: "os_sdk_next_send ?os \<le> t" and r: "length (os_sdk_rate ?os) < 4" "sum_list (map snd (os_sdk_rate ?os)) + n \<le> 512 * 1024"
    using room by (simp_all add: sdk_room_def)
  have gap: "\<forall>a \<in> set (tp_offered p). fst a + 1 / 4 \<le> t" using ok nx by (fastforce simp: offers_ok_def)
  have "paced (tp_offered p @ [(t, n)])"
    using paced_snoc [of old "os_sdk_rate ?os" t n] ok old gap r by (simp add: offers_ok_def)
  moreover have "\<forall>a \<in> set (tp_offered p @ [(t, n)]). fst a + 1 / 4 \<le> t + 1 / 4" using gap by fastforce
  ultimately show ?thesis using old by (auto simp: offers_ok_def offered_def upd_session_def charge_rate_def)
qed

lemma offers_ok_step: "pipe_step env y z \<Longrightarrow> offers_ok y \<Longrightarrow> offers_ok z"
proof -
  assume st: "pipe_step env y z" and ok: "offers_ok y"
  obtain t p t' p' where yz: "y = (t, p)" "z = (t', p')" by (metis prod.exhaust)
  have ok: "offers_ok (t, p)" using ok yz by simp
  have self: "stays {} (ob_session (tp_store p)) g h UNIV p" if "g = ob_gateway (tp_store p)" "h = tp_offered p" for g h
    using that by (simp add: stays_def store_stays_def owns_def)
  have calm: "offers_ok (u, q)" if "still p q \<or> stays {} (ob_session (tp_store p)) (ob_gateway (tp_store p)) (tp_offered p) B q" "t \<le> u" for q u B
  proof (rule offers_ok_same [OF ok that(2)])
    show "tp_offered q = tp_offered p" "os_sdk_next_send (ob_session (tp_store q)) = os_sdk_next_send (ob_session (tp_store p))"
      "os_sdk_rate (ob_session (tp_store q)) \<in> {os_sdk_rate (ob_session (tp_store p)), drop_old_rate u (os_sdk_rate (ob_session (tp_store p)))}"
      using that(1) stillD [of p q] by (auto simp: stays_def store_stays_def same_sdk_def)
  qed
  have "offers_ok (t', p')" using st [unfolded yz]
  proof (cases rule: pipe_step_cases)
    case c: calm
    from c(1) [OF self [OF refl refl]] show ?thesis by (intro calm) (use c(2) in auto)
  next
    case (thread wall)
    from run_call_stays [OF self [OF refl refl], of env wall] thread ok show ?thesis by (auto intro: calm)
  next
    case settle
    have "stays {} (ob_session (tp_store p)) (ob_gateway (tp_store p)) (tp_offered p) UNIV (snd (flush_settle env p))"
      by (rule flush_settle_stays [OF self [OF refl refl]]) auto
    from guarded_persist_stays [where m = "flush_settle env", OF this] show ?thesis using settle by (intro calm) auto
  next
    case finish
    from finish_close_stays [OF self [OF refl refl], of env] show ?thesis using finish by (intro calm) auto
  next
    case (hand online taken)
    have tr: "offers_ok (t', trimmed t' p)"
      by (rule offers_ok_same [OF ok hand(2)]) (simp_all add: trimmed_def upd_session_def sdk_trim_def)
    have trans: "offers_ok (t', v)" if "offers_ok (t', u)" "still u v" for u v
      using that(1) stillD [OF that(2)] by (intro offers_ok_same [OF that(1)]) simp_all
    consider "p' = p" | "still (trimmed t' p) p'" | n u where "sdk_room t' n (ob_session (tp_store (trimmed t' p)))"
        "still (trimmed t' p) u" "still (offered t' n u) p'"
      using hand_off_cases [of env t' online taken p] hand(1) by blast
    then show ?thesis
    proof cases
      case 1 then show ?thesis using hand(2) by (intro calm) simp_all
    next
      case 2 then show ?thesis by (rule trans [OF tr])
    next
      case 3
      have "sdk_room t' n (ob_session (tp_store u))" using 3(1) stillD [OF 3(2)] by (simp add: sdk_room_def)
      from trans [OF offers_ok_charge [OF trans [OF tr 3(2)] this] 3(3)] show ?thesis .
    qed
  qed
  then show ?thesis by (simp add: yz)
qed

interpretation sending: invariant_system "pipe_init env" "pipe_step env" offers_ok for env
proof
  fix x assume "pipe_init env x"
  then show "offers_ok x" using start_answer [of env x] by (simp add: offers_ok_def paced_def)
qed (rule offers_ok_step)

text \<open>C13. The client is never flooded. In every run, with any stops, reconnections and clock failures in between, the offers made to
  the client are at least a quarter of a second apart, and any stretch of them that starts and ends within less than one second
  has at most four offers and at most 512 KiB of payload.\<close>

theorem hand_off_paced:
  assumes "pipe_init env x" "(pipe_step env)\<^sup>*\<^sup>* x y"
  shows "sorted_wrt (\<lambda>a b. fst a + 1 / 4 \<le> fst b) (tp_offered (snd y))
     \<and> (\<forall>xs ys zs. tp_offered (snd y) = xs @ ys @ zs \<longrightarrow> ys \<noteq> [] \<longrightarrow> fst (last ys) < fst (hd ys) + 1
          \<longrightarrow> length ys \<le> 4 \<and> sum_list (map snd ys) \<le> 512 * 1024)"
  using sending.reachable_inv [OF assms] by (simp add: offers_ok_def paced_def)

section \<open>Concrete runs\<close>

text \<open>A process whose ingress queue holds one event selects it, is closed before it could be committed and gives it up.\<close>

definition demo_pipe_env :: pipe_env where
  "demo_pipe_env = \<lparr>pv_engine = demo_eng_env, pv_outbox = demo_outbox_env, pv_encode = tm_message_id, pv_on_sample = None,
     pv_ram_fact = (\<lambda>_. True)\<rparr>"

lemma demo_open: "outbox_open demo_outbox_env ''PLC-01'' 10000 67108864 128 (session_new m r (Some a)) None None
   = (Inr (), session_new m r (Some a), Some \<lparr>ob_gateway = ''PLC-01'', ob_max_batches = 10000, ob_max_bytes = 67108864, ob_max_dead = 128,
      ob_session = session_new m r (Some a), ob_repo = \<lparr>rp_db = fresh_batches, rp_time = None, rp_row = None, rp_guard = None, rp_ops = 1,
       rp_max_physical = 256 * 1024 * 1024, rp_min_free = 64 * 1024 * 1024\<rparr>\<rparr>)"
  by (simp add: outbox_open_def preflight_def require_res_def database_open_def blank_file_def file_new_def id_alnum_def id_char_def
      attach_outbox_def attach_finish_def stored_rows_def dead_count_def outbox_eval cong: eval_congs)

definition demo_ready :: "SampleBuffer \<Rightarrow> pipe" where
  "demo_ready sb = projr (pipe_start demo_pipe_env ''PLC-01'' (Some ''boot-1'') sb None None ''dir'' None None (Some demo_snapshot) 1 0)"

definition demo_captured :: "Sample res \<times> SampleBuffer" where
  "demo_captured = capture demo_cap 1 ''D1'' ''P1'' (VNum (PyInt 5)) GOOD 2 (Some 2) 0 1 PHYSICAL_RESULT (Some ''PLC-01'') None demo_buffer"

definition demo_full :: SampleBuffer where
  "demo_full = snd (put demo_cap (projr (fst demo_captured)) (snd demo_captured))"

lemmas engine_eval = engine_new_def demo_defs sbind_resume supd_def sret_def Let_def accept_def belongs_def demo_snapshot_def points_of_def demo_sample_def
  note_epoch_def note_latest_def forget_baseline_def forget_latest_def retain_def forget_def Engine.reserve_def demo_eng_env_def event_charge_def
  key_of_def identity_def seq_of_def epoch_of_def dget_or_def baseline_def changed_def cyclic_due_def accept_selected_def can_admit_def eng_account_def
  boot_account_def decided_def decision_def admit_owned_def admit_queue_def sync_def acct_add_def acct_record_def decided_fact_def
  configure_def load_checkpoint_def checkpoint_for_def interval_s_def

lemma account_new [simp]: "account (\<lambda>_. a) (session_new m r (Some a)) = session_new m r (Some a)"
  by (simp add: account_def session_new_def)

definition demo_store :: "SampleBuffer \<Rightarrow> outbox" where
  "demo_store sb = \<lparr>ob_gateway = ''PLC-01'', ob_max_batches = 10000, ob_max_bytes = 67108864, ob_max_dead = 128,
      ob_session = session_new 4194304 10000 (Some (bt_accounting (sb_boot sb))), ob_repo = \<lparr>rp_db = fresh_batches, rp_time = None, rp_row = None, rp_guard = None, rp_ops = 1,
       rp_max_physical = 256 * 1024 * 1024, rp_min_free = 64 * 1024 * 1024\<rparr>\<rparr>"

definition demo_new :: "SampleBuffer \<Rightarrow> engine" where
  "demo_new sb = projr (engine_new ''PLC-01'' ''boot-1'' (sb_boot sb) 32768 33554432)"

lemma on_store_idem: "on_store (sret ()) (snd (on_store (sret ()) p)) = (Inr (), snd (on_store (sret ()) p))"
  by (cases "tp_store p") (auto simp: on_store_def sret_def eng_account_def buf_account_def boot_account_def split: option.split)

lemma start_on:
  assumes "bt_boot_id (sb_boot sb) = ''boot-1''" "rp_time (ob_repo ob) = None"
    and "outbox_open demo_outbox_env ''PLC-01'' 10000 67108864 128 (session_new 4194304 10000 (Some (bt_accounting (sb_boot sb)))) None found
      = (Inr (), os, Some ob)"
  shows "pipe_start demo_pipe_env ''PLC-01'' (Some ''boot-1'') sb None None ''dir'' None found snap 1 0 =
    (case on_engine (configure demo_eng_env snap 0 (Some 1)) (snd (on_store (sret ()) (pipe_of snap 1 sb (demo_new sb) ob))) of
       (Inl e, _) \<Rightarrow> Inl e | (Inr _, p) \<Rightarrow> Inr p)"
proof -
  define p where "p = pipe_of snap 1 sb (demo_new sb) ob"
  have e: "engine_new ''PLC-01'' ''boot-1'' (sb_boot sb) 32768 33554432 = Inr (demo_new sb)"
    using assms(1) by (simp add: demo_new_def engine_new_def)
  define q where "q = snd (on_store (sret ()) p)"
  have s: "on_store (sret ()) p = (Inr (), q)" "on_store (sret ()) q = (Inr (), q)"
    using on_store_idem [of p] by (simp_all add: q_def) (simp add: on_store_def sret_def split: option.split)
  have "rp_time (ob_repo (tp_store q)) = None"
    using assms(2) by (auto simp: q_def p_def on_store_def sret_def pipe_of_def split: option.split)
  then have l: "on_store (load_boundary demo_pipe_env) q = (Inr (), q)"
    using s(2) by (simp add: on_store_def load_boundary_def platform_time_def sret_def)
  have v: "pv_outbox demo_pipe_env = demo_outbox_env" "pv_engine demo_pipe_env = demo_eng_env" by (simp_all add: demo_pipe_env_def)
  show ?thesis using assms(1)
    by (simp add: pipe_start_def e session_for_def owner_ok_def assms(3) v sbind_resume s l flip: p_def)
qed

lemma start_eval:
  assumes "bt_boot_id (sb_boot sb) = ''boot-1''"
  shows "pipe_start demo_pipe_env ''PLC-01'' (Some ''boot-1'') sb None None ''dir'' None None snap 1 0 =
    (case on_engine (configure demo_eng_env snap 0 (Some 1)) (pipe_of snap 1 sb (demo_new sb) (demo_store sb)) of
       (Inl e, _) \<Rightarrow> Inl e | (Inr _, p) \<Rightarrow> Inr p)"
proof -
  have b: "en_boot (demo_new sb) = sb_boot sb" using assms by (simp add: demo_new_def engine_new_def)
  have a: "os_accounting (session_new 4194304 10000 (Some x)) = Some x" for x by (simp add: session_new_def)
  have "on_store (sret ()) (pipe_of snap 1 sb (demo_new sb) (demo_store sb)) = (Inr (), pipe_of snap 1 sb (demo_new sb) (demo_store sb))"
    by (simp add: on_store_def sret_def a pipe_of_def demo_store_def eng_account_def buf_account_def boot_account_def b [symmetric])
  with start_on [OF assms, of "demo_store sb" None] show ?thesis by (simp add: demo_open demo_store_def)
qed

definition demo_event :: Sample where
  "demo_event = projr (fst demo_captured)"

definition demo_seen :: acct where
  "demo_seen = bt_accounting (sb_boot demo_full)"

lemma demo_event_simps: "demo_event = (demo_sample 1)\<lparr>s_value := VNum (PyFloat 5), s_timestamp := Some 2000, s_monotonic_time := Some 2\<rparr>"
  unfolding demo_event_def demo_captured_def
  by (simp_all add: demo_defs emit_eval buf_account_def boot_account_def captured_def demo_sample_def cong: eval_congs)

lemma demo_full_boot:
  "demo_seen = captured demo_env demo_event (bt_accounting demo_boot)" "bt_boot_id (sb_boot demo_full) = ''boot-1''"
  "bt_report_checkpoint (sb_boot demo_full) = None"
  "sb_queue demo_full = [demo_event]"
  unfolding demo_seen_def demo_full_def demo_captured_def demo_event_def
  by (simp_all add: demo_defs emit_eval buf_account_def boot_account_def cong: eval_congs)

lemma demo_seen_simps: "ac_boot_id demo_seen = ''boot-1''" "ac_pending_decisions demo_seen = [Some 1]"
  by (simp_all add: demo_full_boot(1) captured_def demo_boot_def boot_new_def acct_new_def demo_event_simps demo_sample_def demo_env_def remember_pending_def
        remember_physical_def acct_bound_def bound_physical.simps bound_gaps.simps over_bound_def metadata_bytes_def
        Let_def acct_record_def MAX_SAFE_def acct_add_def)

lemma demo_boot_fields: "bt_accounting (sb_boot demo_full) = demo_seen" by (simp add: demo_seen_def)

lemmas pipe_eval = start_eval demo_full_boot(2-4) on_engine_def pipe_of_def demo_new_def engine_new_def configure_def load_checkpoint_def checkpoint_for_def
  interval_s_def demo_snapshot_def points_of_def demo_device_def demo_point_def sbind_resume supd_def sret_def Let_def dget_or_def eng_account_def
  demo_eng_env_def with_accounts_def demo_store_def account_def demo_boot_fields

lemma demo_start: "pipe_start demo_pipe_env ''PLC-01'' (Some ''boot-1'') demo_full None None ''dir'' None None (Some demo_snapshot) 1 0 = Inr (demo_ready demo_full)"
  by (simp add: demo_ready_def pipe_eval cong: eval_congs)

definition demo_conf :: engine where
  "demo_conf = snd (configure demo_eng_env (Some demo_snapshot) 0 (Some 1) (demo_new demo_full))"

lemma demo_conf_again: "configure demo_eng_env (Some demo_snapshot) 0 (Some 1) demo_conf = (Inr (), demo_conf)"
  by (simp add: demo_conf_def pipe_eval cong: eval_congs)

lemma demo_conf_engine: "configure demo_eng_env (Some demo_snapshot) 0 (Some 1) (demo_new demo_full) = (Inr (), demo_conf)"
  by (simp add: demo_conf_def pipe_eval cong: eval_congs)

lemma demo_conf_simps:
  "en_owned demo_conf = []" "en_discarded demo_conf = 0" "en_frozen demo_conf = []"
  "bt_accounting (en_boot demo_conf) = demo_seen" "sb_queue demo_full = [demo_event]"
  by (simp_all add: demo_conf_def pipe_eval cong: eval_congs)

definition demo_acc :: engine where
  "demo_acc = snd (accept demo_eng_env demo_event demo_conf)"

lemma demo_acc_simps:
  "fst (accept demo_eng_env demo_event demo_conf) = Inr True" "en_owned demo_acc = [(identity demo_event, demo_event)]"
  "map fst (en_refs demo_acc) = [identity demo_event]" "en_frozen demo_acc = []" "en_discarded demo_acc = 0"
  unfolding demo_acc_def demo_conf_def
  by (simp_all add: pipe_eval engine_eval demo_event_simps demo_seen_simps cong: eval_congs)

lemma demo_acc: "accept demo_eng_env demo_event demo_conf = (Inr True, demo_acc)"
  using demo_acc_simps(1) by (simp add: demo_acc_def prod_eq_iff)

definition demo_taken :: pipe where
  "demo_taken = run_round demo_pipe_env 0 True (demo_ready demo_full)"

lemma demo_ready_eval: "demo_ready demo_full = (pipe_of (Some demo_snapshot) 1 (demo_full\<lparr>sb_boot := en_boot demo_conf\<rparr>) demo_conf (with_accounts demo_seen (demo_store demo_full)))"
  by (simp add: demo_ready_def start_eval demo_full_boot(2) on_engine_def pipe_of_def demo_conf_engine demo_conf_simps)

lemma demo_taken_simps: "tp_engine demo_taken = demo_acc" "sb_queue (tp_samples demo_taken) = []" "tp_running demo_taken"
  "tp_persisting demo_taken" "\<not> tp_stop demo_taken" "tp_deadline demo_taken = None" "tp_call demo_taken = None" "tp_answer demo_taken = None"
  unfolding demo_taken_def run_round_def take_configured_def demo_ready_eval
  by (simp_all add: demo_pipe_env_def guarded_report_def configure_pipe_def pipe_of_def on_engine_def demo_conf_again demo_conf_simps sbind_resume
      take_event_def on_samples_def get_nowait_def accept_event_def retimed_def platform_time_def demo_store_def with_accounts_def observe_def
      demo_acc demo_acc_simps(5) cong: eval_congs)

definition demo_closed :: pipe where
  "demo_closed = persist_round demo_pipe_env 0 0 (run_round demo_pipe_env 0 False (close_begin 0 0 demo_taken))"

lemma demo_closed_simps: "tp_engine demo_closed = demo_acc" "sb_queue (tp_samples demo_closed) = []" "\<not> tp_running demo_closed" "\<not> tp_persisting demo_closed" "tp_stop demo_closed"
  by (simp_all add: demo_closed_def persist_round_def run_round_def close_begin_def persist_done_def past_deadline_def demo_taken_simps)

lemma forget_held: "dget (en_refs st) (identity s) \<noteq> None \<Longrightarrow> \<exists>st'. forget env s st = (Inr (), st') \<and> en_owned st' = en_owned st"
  by (auto simp: forget_def)

lemma cached_owned: "en_owned (tp_engine (snd (resume (on_store m p) (\<lambda>c. supd (\<lambda>p. p\<lparr>tp_cache := Some c\<rparr>))))) = en_owned (tp_engine p)"
  by (auto simp: on_store_def supd_def resume_def eng_account_def split: prod.split sum.split option.split)

lemma demo_given_up: "en_owned (tp_engine (snd (finish_close demo_pipe_env demo_closed))) = []"
proof -
  note acc = demo_acc_simps
  obtain r where r: "en_refs demo_acc = [(identity demo_event, r)]" using acc(3) by (cases "en_refs demo_acc") auto
  let ?en = "(eng_account (abandon_acct (ce_acct (ee_cap demo_eng_env)) [demo_event] []) demo_acc)\<lparr>en_known_unsent_events := en_known_unsent_events demo_acc + 1\<rparr>"
  obtain en where en: "forget demo_eng_env demo_event ?en = (Inr (), en)" "en_owned en = [(identity demo_event, demo_event)]"
    using forget_held [of ?en demo_event demo_eng_env] r acc(2) by (auto simp: eng_account_def)
  have a: "abandon demo_eng_env demo_acc = (Inr 1, snd (abandon demo_eng_env demo_acc)) \<and> en_owned (snd (abandon demo_eng_env demo_acc)) = []"
    using en by (simp add: abandon_def acc(2,4) sbind_resume supd_def sret_def)
  then obtain en' where "abandon demo_eng_env demo_acc = (Inr 1, en')" "en_owned en' = []" by auto
  then show ?thesis
    by (simp add: finish_close_def demo_closed_simps report_ram_facts_def demo_pipe_env_def demo_outbox_env_def give_up_owned_def sbind_resume
        on_engine_def cached_owned)
qed

lemma demo_closed_reachable:
  "pipe_init demo_pipe_env (0, demo_ready demo_full)" "(pipe_step demo_pipe_env)\<^sup>*\<^sup>* (0, demo_ready demo_full) (0, demo_closed)"
proof -
  show "pipe_init demo_pipe_env (0, demo_ready demo_full)"
    unfolding pipe_init_def fst_conv snd_conv using demo_start by blast
  let ?p2 = "close_begin 0 0 demo_taken"
  let ?p3 = "run_round demo_pipe_env 0 False ?p2"
  have 1: "pipe_step demo_pipe_env (0, demo_ready demo_full) (0, demo_taken)"
    unfolding demo_taken_def by (rule pp_run) simp
  have 2: "pipe_step demo_pipe_env (0, demo_taken) (0, ?p2)" by (rule pp_close) simp
  have 3: "pipe_step demo_pipe_env (0, ?p2) (0, ?p3)" by (rule pp_run) simp
  have 4: "pipe_step demo_pipe_env (0, ?p3) (0, demo_closed)"
    unfolding demo_closed_def by (rule pp_persist) (simp_all add: run_round_def close_begin_def demo_taken_simps)
  from 1 2 3 4 show "(pipe_step demo_pipe_env)\<^sup>*\<^sup>* (0, demo_ready demo_full) (0, demo_closed)"
    by (rule converse_rtranclp_into_rtranclp [OF _ converse_rtranclp_into_rtranclp [OF _ converse_rtranclp_into_rtranclp [OF _ r_into_rtranclp]]])
qed


text \<open>A process that finds a batch in its database hands it to the client.\<close>

definition demo_file :: "batch_db sfile" where
  "demo_file = \<lparr>sf_app = APP_ID, sf_version = 2, sf_tables = [''meta'', ''batches''], sf_gateway = Some ''PLC-01'', sf_quick = True,
     sf_content = rp_db (ob_repo (snd (enqueue demo_outbox_env ''m1'' None None None demo_box)))\<rparr>"

definition demo_kept :: outbox where
  "demo_kept = the (snd (snd (outbox_open demo_outbox_env ''PLC-01'' 10000 67108864 128
     (session_new 4194304 10000 (Some (bt_accounting demo_boot))) None (Some demo_file))))"

lemmas open_eval = demo_file_def outbox_eval outbox_open_def preflight_def require_res_def database_open_def file_new_def id_alnum_def id_char_def
  APP_ID_def attach_outbox_def attach_finish_def stored_rows_def dead_count_def bounded_row_def trusted_ok_def attach_row_def attach_new_def
  demo_boot_def boot_new_def acct_new_def

lemma demo_kept_open:
  "\<exists>os. outbox_open demo_outbox_env ''PLC-01'' 10000 67108864 128 (session_new 4194304 10000 (Some (bt_accounting demo_boot))) None (Some demo_file)
     = (Inr (), os, Some demo_kept)"
  unfolding demo_kept_def by (simp add: open_eval cong: eval_congs)

lemma demo_kept_reserve:
  "\<exists>ob. Outbox.reserve demo_outbox_env None (with_accounts a demo_kept) = (Inr (Some ''m1''), ob) \<and> os_sdk_rate (ob_session ob) = []
     \<and> os_sdk_next_send (ob_session ob) = 0 \<and> rp_time (ob_repo ob) = None \<and> ob_gateway ob = ''PLC-01''"
  unfolding demo_kept_def by (simp add: open_eval reserve_eval with_accounts_def cong: eval_congs)

definition demo_resumed :: pipe where
  "demo_resumed = projr (pipe_start demo_pipe_env ''PLC-01'' (Some ''boot-1'') demo_buffer None None ''dir'' None (Some demo_file) None 1 0)"

definition demo_handed :: pipe where
  "demo_handed = snd (hand_off demo_pipe_env 0 True True (send_reserve demo_pipe_env None demo_resumed))"

lemma demo_resumed:
  "pipe_init demo_pipe_env (0, demo_resumed)" "\<exists>a. tp_store demo_resumed = with_accounts a demo_kept" "tp_sending demo_resumed = None"
  "\<not> tp_stop demo_resumed" "tp_offered demo_resumed = []"
proof -
  have b: "bt_boot_id (sb_boot demo_buffer) = ''boot-1''" "sb_boot demo_buffer = demo_boot"
    by (simp_all add: demo_buffer_def buffer_new_def demo_boot_def boot_new_def acct_new_def)
  obtain os where o: "outbox_open demo_outbox_env ''PLC-01'' 10000 67108864 128 (session_new 4194304 10000 (Some (bt_accounting (sb_boot demo_buffer)))) None
      (Some demo_file) = (Inr (), os, Some demo_kept)" using demo_kept_open b(2) by auto
  have t: "rp_time (ob_repo demo_kept) = None"
    unfolding demo_kept_def by (simp add: open_eval cong: eval_congs)
  define q where "q = snd (on_store (sret ()) (pipe_of None 1 demo_buffer (demo_new demo_buffer) demo_kept))"
  have q: "tp_store q = demo_kept" "tp_sending q = None" "\<not> tp_stop q" "tp_offered q = []"
    by (auto simp: q_def on_store_def sret_def pipe_of_def split: option.split)
  have "en_latest (tp_engine q) = []" "en_baselines (tp_engine q) = []" "bt_report_checkpoint (en_boot (tp_engine q)) = None"
      "en_generation (tp_engine q) = None"
    by (auto simp: q_def on_store_def sret_def pipe_of_def demo_new_def engine_new_def b eng_account_def boot_account_def split: option.split)
      (simp_all add: demo_boot_def boot_new_def acct_new_def)
  then obtain en where en: "configure demo_eng_env None 0 (Some 1) (tp_engine q) = (Inr (), en)"
    by (simp add: configure_def load_checkpoint_def checkpoint_for_def Let_def sbind_resume supd_def sret_def)
  have s: "pipe_start demo_pipe_env ''PLC-01'' (Some ''boot-1'') demo_buffer None None ''dir'' None (Some demo_file) None 1 0 = Inr demo_resumed"
    "demo_resumed = snd (on_engine (configure demo_eng_env None 0 (Some 1)) q)"
    using start_on [OF b(1) t o, of None] by (simp_all add: demo_resumed_def on_engine_def en flip: q_def)
  show "pipe_init demo_pipe_env (0, demo_resumed)" unfolding pipe_init_def fst_conv snd_conv using s(1) by blast
  show "\<exists>a. tp_store demo_resumed = with_accounts a demo_kept" "tp_sending demo_resumed = None"
    "\<not> tp_stop demo_resumed" "tp_offered demo_resumed = []" using q by (auto simp: s(2) on_engine_def en)
qed

lemma demo_handed_offers: "tp_offered demo_handed = [(0, 2)]"
proof -
  obtain a where a: "tp_store demo_resumed = with_accounts a demo_kept" using demo_resumed(2) by blast
  obtain ob where ob: "Outbox.reserve demo_outbox_env None (with_accounts a demo_kept) = (Inr (Some ''m1''), ob)" "os_sdk_rate (ob_session ob) = []"
      "os_sdk_next_send (ob_session ob) = 0" "rp_time (ob_repo ob) = None" "ob_gateway ob = ''PLC-01''" using demo_kept_reserve by blast
  define r where "r = send_reserve demo_pipe_env None demo_resumed"
  have r: "tp_sending r = Some (''m1'', ''m1'')" "tp_store r = ob" "tp_offered r = []" "\<not> tp_stop r"
    using ob demo_resumed(4,5) by (auto simp: r_def send_reserve_def on_store_def a demo_pipe_env_def demo_outbox_env_def [of] split: option.split)
  have room: "sdk_room 0 2 (sdk_trim 0 (ob_session ob))" using ob by (simp add: sdk_room_def sdk_trim_def)
  define p2 where "p2 = (trimmed 0 r)\<lparr>tp_sending := None\<rparr>"
  have p2: "rp_time (ob_repo (tp_store p2)) = None" "tp_offered p2 = []" "\<not> tp_stop p2"
    using r ob(4) by (simp_all add: p2_def trimmed_def upd_session_def)
  have "\<exists>x u. sbind (on_store (ask (token (oe_time (pv_outbox demo_pipe_env))))) (\<lambda>tok.
      on_store (ask (require_time (oe_time (pv_outbox demo_pipe_env)) tok SEND))) p2 = (Inr x, u) \<and> tp_offered u = []"
    using p2 by (simp add: sbind_resume on_store_def ask_def on_repo_def ask_time_def split: option.split)
  then obtain x u where u: "sbind (on_store (ask (token (oe_time (pv_outbox demo_pipe_env))))) (\<lambda>tok.
      on_store (ask (require_time (oe_time (pv_outbox demo_pipe_env)) tok SEND))) p2 = (Inr x, u)" "tp_offered u = []" by blast
  have "sdk_room 0 (length ''m1'') (ob_session (tp_store (trimmed 0 r)))"
    using ob(2,3) r(2) by (simp add: sdk_room_def trimmed_def upd_session_def sdk_trim_def)
  then have "snd (hand_off demo_pipe_env 0 True True r) = snd (sbind (context_accounts (acct_record (oe_acct (pv_outbox demo_pipe_env)) ''sdk_accepted''
      [(''messageId'', AStr ''m1'')])) (\<lambda>_. sret (Some ''m1'')) (offered 0 2 u))"
    using r(1) p2(3) u(1) by (simp add: numeral_2_eq_2 hand_off_def trimmed_def p2_def offered_def)
  then show ?thesis
    using u(2) by (simp add: demo_handed_def r_def sbind_resume context_accounts_def on_engine_def supd_def sret_def offered_def)
qed

theorem hand_off_paced_witness:
  "tp_offered demo_handed = [(0, 2)] \<and> sorted_wrt (\<lambda>a b. fst a + 1 / 4 \<le> fst b) (tp_offered demo_handed)"
proof -
  have 1: "pipe_step demo_pipe_env (0, demo_resumed) (0, send_reserve demo_pipe_env None demo_resumed)"
    by (rule pp_reserve) (rule demo_resumed(3))
  have 2: "pipe_step demo_pipe_env (0, send_reserve demo_pipe_env None demo_resumed) (0, demo_handed)"
    unfolding demo_handed_def by (rule pp_hand_off) simp
  from 1 2 have "(pipe_step demo_pipe_env)\<^sup>*\<^sup>* (0, demo_resumed) (0, demo_handed)"
    by (rule converse_rtranclp_into_rtranclp [OF _ r_into_rtranclp])
  from hand_off_paced [OF demo_resumed(1) this] demo_handed_offers show ?thesis by (simp only: snd_conv simp_thms)
qed

end
