(* ===== verification/Spec2Isabelle.thy ===== *)
theory Spec2Isabelle
  imports EngineInv PlatformTimeInv OutboxInv AgentInv ModbusInv ControlInv Receiver Budget HealthInv Settings Worker Commissioning Poll PipelineInv
begin

text \<open>
  A model of the gateway agent of this repository (\<^verbatim>\<open>src/src/plcnext_iot\<close>): it reads points of field devices on a
  schedule, selects the events worth reporting, freezes them into batches, keeps the batches in an SQLite outbox until the
  hub confirms them over MQTT, and applies the configurations and device commands the hub sends. File names
  below are relative to \<^verbatim>\<open>src/src/plcnext_iot\<close>.

  \<^bold>\<open>How it fits together.\<close> Runners (one per device) plan block reads and put one event per point and slot into
  the bounded ingress queue of the process. The report engine takes them, filters them by the report policy of the
  active configuration, and prepares batches; a batch that the outbox has committed leaves the engine. The report service
  runs both: it takes the events, commits the batches through the storage thread and hands them to the transport at a limited rate. The outbox
  keeps them and removes them when a STORED acknowledgement arrives. The agent's
  lifecycle applies configurations one at a time: it prepares a transaction in the configuration store, switches the
  runtime to new runners, commits, and rolls back when something fails. The configuration service turns results into
  acknowledgements. The platform time keeps a logical UTC with an error bound and closes a gate when time is not
  trustworthy. Accounting and the audit recorder count what became of every event. The acceptance sink is the
  receiving side used for acceptance tests. The storage worker runs the configuration store's calls on one thread, and
  the commissioning server writes the record the agent starts from.

  \<^bold>\<open>Theories and the code they model.\<close>
  \<^item> \<^verbatim>\<open>Prelude\<close>: errors (\<open>exn\<close>), results (\<open>'a res\<close>), state passing programs (\<open>prog\<close>) with \<open>sbind\<close>, the predicate
    \<open>keeps\<close> for invariants of programs, Python dictionaries as association lists in insertion order, JSON values and Python
    numbers, and the two interfaces of step systems, \<open>invariant_system\<close> and \<open>monotone_system\<close>.
  \<^item> \<^verbatim>\<open>Models\<close>, \<^verbatim>\<open>ConfigModel\<close>, \<^verbatim>\<open>ConfigModelInv\<close>: \<^verbatim>\<open>config/models.py\<close>, \<^verbatim>\<open>config/patch.py\<close>. \<^verbatim>\<open>Contracts\<close>: \<^verbatim>\<open>contracts.py\<close>.
  \<^item> \<^verbatim>\<open>ConfigStore\<close>, \<^verbatim>\<open>ConfigStoreInv\<close>: \<^verbatim>\<open>config/store.py\<close>, the tables of configurations and requests.
  \<^item> \<^verbatim>\<open>ReadPlan\<close>: \<^verbatim>\<open>points/read_plan.py\<close>, \<^verbatim>\<open>points/slots.py\<close>. \<^verbatim>\<open>Records\<close>, \<^verbatim>\<open>Samples\<close>: \<^verbatim>\<open>points/samples.py\<close>, \<^verbatim>\<open>points/events.py\<close>.
  \<^item> \<^verbatim>\<open>AuditLog\<close>: \<^verbatim>\<open>reporting/audit.py\<close>. \<^verbatim>\<open>Accounting\<close>: \<^verbatim>\<open>reporting/accounting.py\<close>. \<^verbatim>\<open>Boot\<close>: \<^verbatim>\<open>core/boot.py\<close>, \<^verbatim>\<open>core/sample_time.py\<close>.
  \<^item> \<^verbatim>\<open>Engine\<close>, \<^verbatim>\<open>EngineInv\<close>: \<^verbatim>\<open>reporting/engine.py\<close>.
  \<^item> \<^verbatim>\<open>PlatformTime\<close>, \<^verbatim>\<open>PlatformTimeInv\<close>: \<^verbatim>\<open>core/platform_time.py\<close>.
  \<^item> \<^verbatim>\<open>Batches\<close>: \<^verbatim>\<open>storage/database.py\<close>, \<^verbatim>\<open>storage/batch_repository.py\<close>, \<^verbatim>\<open>storage/outbox_migration.py\<close>. \<^verbatim>\<open>Outbox\<close>, \<^verbatim>\<open>OutboxInv\<close>:
    \<^verbatim>\<open>storage/outbox_session.py\<close>, \<^verbatim>\<open>storage/outbox.py\<close>. \<^verbatim>\<open>Receiver\<close>: \<^verbatim>\<open>storage/receiver.py\<close>.
  \<^item> \<^verbatim>\<open>Pipeline\<close>, \<^verbatim>\<open>PipelineInv\<close>: \<^verbatim>\<open>reporting/service.py\<close>, the report service over the engine, the ingress queue and the outbox.
  \<^item> \<^verbatim>\<open>Modbus\<close>, \<^verbatim>\<open>ModbusInv\<close>: \<^verbatim>\<open>drivers/modbus.py\<close>. \<^verbatim>\<open>Poll\<close>: the passes of \<^verbatim>\<open>devices/modbus.py\<close> and \<^verbatim>\<open>devices/opcua.py\<close>,
    \<^verbatim>\<open>drivers/opcua.py\<close>. \<^verbatim>\<open>Runtime\<close>: \<^verbatim>\<open>devices/runtime.py\<close>. \<^verbatim>\<open>Budget\<close>: \<^verbatim>\<open>devices/budget.py\<close>.
  \<^item> \<^verbatim>\<open>Lifecycle\<close>, \<^verbatim>\<open>LifecycleInv\<close>, \<^verbatim>\<open>AgentInv\<close>: \<^verbatim>\<open>core/lifecycle.py\<close> over the store and the runtime.
  \<^item> \<^verbatim>\<open>Messages\<close>: \<^verbatim>\<open>messaging/messages.py\<close>. \<^verbatim>\<open>Control\<close>, \<^verbatim>\<open>ControlInv\<close>: \<^verbatim>\<open>messaging/transport.py\<close>,
    \<^verbatim>\<open>messaging/timed_control.py\<close>, \<^verbatim>\<open>messaging/config_service.py\<close>. \<^verbatim>\<open>Health\<close>, \<^verbatim>\<open>HealthInv\<close>: \<^verbatim>\<open>messaging/health.py\<close> and the
    diagnostics of the runners.
  \<^item> \<^verbatim>\<open>Settings\<close>: \<^verbatim>\<open>core/settings.py\<close>, \<^verbatim>\<open>messaging/settings.py\<close>, \<^verbatim>\<open>devices/factory.py\<close>. \<^verbatim>\<open>Worker\<close>: \<^verbatim>\<open>core/storage_worker.py\<close>.
    \<^verbatim>\<open>Commissioning\<close>: \<^verbatim>\<open>provisioning/store.py\<close> and the writing requests of \<^verbatim>\<open>provisioning/server.py\<close>.

  Each component's state is a record whose selectors carry the component's prefix and the source's attribute names; an
  operation is a function of the source's name that returns the result (or the exception) and the new state. What
  several objects share (the boot context, the session's accounts) is a field of each of them, and the step systems let it
  change under them as the other owners change it.

  \<^bold>\<open>Interfaces.\<close> \<open>invariant_system\<close> states what a step system owes (an invariant that holds initially and is kept
  by every step), its lemmas give the invariant in every reachable state; \<open>monotone_system\<close> adds a gauge that never
  decreases. They are interpreted on the engine, the outbox store, the configuration store, the ingress queue, the
  accounts, the platform time, the agent, the control service, the acceptance sink, the read budget, the storage worker,
  the commissioning server and the report service. \<open>store_frame\<close> (in \<^verbatim>\<open>OutboxInv\<close>) states what a predicate needs in order to
  survive every operation of the outbox; it is interpreted on the gateway identity and on the rate state of the session, which the
  report service relies on. \<open>time_rule\<close> (in \<^verbatim>\<open>PlatformTimeInv\<close>) states what an update of the platform time owes to a
  predicate on its state; it is interpreted on the revisions and the well-formedness. What a component takes from outside
  the repository is a record of functions (\<open>contract_env\<close>, \<open>outbox_env\<close>, \<open>time_env\<close>, ...).

  \<^bold>\<open>What the lemmas show.\<close> For the engine: ownership of each event once, exact byte accounting, no exception
  from any reachable state, well-formed batches. For the outbox: session and database agree and refine an abstract map of
  batches, quotas, durability, exact removal, restart and migration without loss. For the report service, which composes the two: the
  engine gives up an event only in a batch the database held, or counted when the service closes; the client is offered batches at
  a bounded rate. For configurations: parsed ones are
  well formed, preparation and commit round-trip, active version and history only grow. For the agent: every request is
  applied whole or not at all and answered once; what it announces is what is active and durable; the queue is
  served in finitely many turns. For time: the announced error bound is sound, a stale token never becomes valid, sends
  need a trustworthy clock. For reads: plans partition the enabled points, blocks have no holes, reading answers for every
  point within its attempt bounds, decoding inverts encoding, admission is exclusive per endpoint, and every slot is a
  captured event or a counted miss. For messages: acknowledgements tell the truth, heartbeats meet their contract, the
  sink stores what it calls stored. The storage worker refines a sequential run of its jobs. The commissioning record
  round-trips, keeps the identity, and is shown without its secrets.

  \<^bold>\<open>Parameters.\<close> Code that is not in the repository is an argument: clocks (streams indexed by the readings
  taken), \<^verbatim>\<open>uuid4\<close>, SHA-256, the JSON codec, the JSON Schema validator, SQLite (whether a commit succeeds, sizes
  on disk), the sizes CPython reports, Paho, PyModbus, the operating system's files and environment. Hypotheses on them
  are named in the theorems (\<open>codec_ok\<close>: decoding inverts encoding) and witnesses instantiate them.
  Floats are exact rationals, so rounding errors of IEEE arithmetic are not modelled; NaN and infinities are values.

  \<^bold>\<open>Bounds and termination.\<close> No definition uses fuel: loops that are not structural are \<open>function\<close>s with a
  measure: \<open>prepare_loop\<close> by its backlog, \<open>bound_physical\<close> and \<open>bound_gaps\<close> by the length of the accounting tables,
  \<open>check_depth\<close> by the size of its worklist, \<open>replace_all\<close> by the text left.

  \<^bold>\<open>Concurrency.\<close> The code is asyncio: between two awaits a coroutine runs alone, which is one step of the model.
  Where a component waits in the middle (read budget, platform time rounds, the ingress queue) the waiting tasks or the
  pending state are part of the model's state and every schedule is a run of the step relation. Cancellation is
  modelled in the read budget only.

  \<^bold>\<open>Not modelled.\<close> \<^verbatim>\<open>core/bounds.py\<close> (recursive \<^verbatim>\<open>sys.getsizeof\<close>) and \<^verbatim>\<open>config/locking.py\<close> (an operating
  system lock) are parameters. The coroutines that only schedule (the connection loop of
  \<^verbatim>\<open>messaging/config_service.py\<close>, the publishing loop of \<^verbatim>\<open>messaging/health.py\<close>) contribute their decisions as functions, not
  their waiting; of the runners a pass is modelled, not the tasks; of \<^verbatim>\<open>reporting/service.py\<close> every round of its loops, not
  the number of publications in flight, the wait for PUBACK, the statistics dictionary and the creation of its tasks. Not modelled: the HTTP parsing, read-only views and browser pages of \<^verbatim>\<open>provisioning/\<close>, and \<^verbatim>\<open>src/tools\<close>
  (entry points, packaging, smoke tests), which are I/O around the components above.
\<close>

end
